(* ===== verification/Prelude.thy ===== *)
theory Prelude
  imports Main "HOL-Library.Word"
begin

unbundle bit_operations_syntax

text \<open>
  Shared vocabulary of the development: the machine types of the C sources, the byte-order macros of
  \<^verbatim>\<open>src/utils/common.h\<close>, and the generic lemmas on lists, options and words which the
  component theories use.  Byte buffers are lists of octets; a C string is the list of its octets
  without the terminating NUL, and reading at or behind its end yields the terminator.
\<close>

section \<open>Machine types\<close>

type_synonym u8 = "8 word"
type_synonym u16 = "16 word"
type_synonym u32 = "32 word"
type_synonym u64 = "64 word"
type_synonym bytes = "8 word list"

named_theorems byte_order \<open>round trips of the byte-order macros\<close>
named_theorems frame \<open>fields an operation leaves alone\<close>
named_theorems inv_intro \<open>operations that keep an invariant\<close>

section \<open>Octet lists\<close>

text \<open>The octet a C string pointer reads: the first octet, or the terminating NUL.\<close>

definition cstr_hd :: "bytes \<Rightarrow> u8" where
  "cstr_hd s = (case s of [] \<Rightarrow> 0 | c # _ \<Rightarrow> c)"

lemma cstr_hd_simps [simp]: "cstr_hd [] = 0" "cstr_hd (c # s) = c"
  by (simp_all add: cstr_hd_def)

text \<open>Overwriting a part of a buffer in place: \<^verbatim>\<open>os_memcpy(buf + off, data, len)\<close>.\<close>

definition overwrite :: "nat \<Rightarrow> 'a list \<Rightarrow> 'a list \<Rightarrow> 'a list" where
  "overwrite off d b = take off b @ d @ drop (off + length d) b"

lemma length_overwrite [simp]:
  "off + length d \<le> length b \<Longrightarrow> length (overwrite off d b) = length b"
  by (simp add: overwrite_def)

lemma take_overwrite [simp]: "off \<le> length b \<Longrightarrow> take off (overwrite off d b) = take off b"
  by (simp add: overwrite_def)

lemma take_drop_overwrite [simp]:
  "off \<le> length b \<Longrightarrow> take (length d) (drop off (overwrite off d b)) = d"
  by (simp add: overwrite_def)

lemma drop_overwrite [simp]:
  "off \<le> length b \<Longrightarrow> drop (off + length d) (overwrite off d b) = drop (off + length d) b"
  by (simp add: overwrite_def)

lemma overwrite_end [simp]: "overwrite (length b) d (b @ replicate (length d) z) = b @ d"
  by (simp add: overwrite_def)

text \<open>The exclusive or of two buffers, octet by octet.\<close>

definition xor_octets :: "bytes \<Rightarrow> bytes \<Rightarrow> bytes" where
  "xor_octets = map2 (XOR)"

lemma length_xor_octets [simp]: "length (xor_octets a b) = min (length a) (length b)"
  by (simp add: xor_octets_def)

lemma xor_octets_Nil [simp]: "xor_octets [] b = []" "xor_octets b [] = []"
  by (simp_all add: xor_octets_def)

lemma xor_octets_cancel: "length a \<le> length b \<Longrightarrow> xor_octets (xor_octets a b) b = a"
proof (induction a arbitrary: b)
  case (Cons x a)
  then obtain y b' where "b = y # b'" by (cases b) auto
  then show ?case using Cons by (simp add: xor_octets_def xor.assoc)
qed (simp add: xor_octets_def)

lemma xor_octets_commute: "xor_octets a b = xor_octets b a"
  unfolding xor_octets_def
proof (induction a arbitrary: b)
  case (Cons x a)
  then show ?case by (cases b) (simp_all add: xor.commute)
qed simp

text \<open>Octets are equal when their eight bits are.\<close>

lemma u8_eqI:
  assumes "bit x 0 = bit y 0" "bit x (Suc 0) = bit y (Suc 0)" "bit x 2 = bit y 2" "bit x 3 = bit y 3"
    "bit x 4 = bit y 4" "bit x 5 = bit y 5" "bit x 6 = bit y 6" "bit x 7 = bit y 7"
  shows "x = (y :: u8)"
proof (rule bit_word_eqI)
  fix n assume "n < LENGTH(8)"
  then have "n = 0 \<or> n = Suc 0 \<or> n = 2 \<or> n = 3 \<or> n = 4 \<or> n = 5 \<or> n = 6 \<or> n = 7"
    by simp arith
  with assms show "bit x n = bit y n" by (elim disjE) simp_all
qed

lemma low_masks: "(3 :: u8) = mask 2" "(15 :: u8) = mask 4" "(63 :: u8) = mask 6"
  by (simp_all add: mask_eq_exp_minus_1)

section \<open>Big-endian value of an octet list\<close>

fun be_value :: "bytes \<Rightarrow> nat" where
  "be_value [] = 0"
| "be_value (b # bs) = unat b * 256 ^ length bs + be_value bs"

lemma be_value_append: "be_value (xs @ ys) = be_value xs * 256 ^ length ys + be_value ys"
  by (induction xs) (simp_all add: algebra_simps power_add)

lemma unat_u8_less [simp]: "unat (b :: u8) < 256"
  using unsigned_less [of b] by simp

lemma unat_u8_le [simp]: "unat (b :: u8) \<le> 255"
  using unat_u8_less [of b] by linarith

lemma be_value_less: "be_value bs < 256 ^ length bs"
proof (induction bs)
  case Nil
  show ?case by simp
next
  case (Cons b bs)
  have "unat b * 256 ^ length bs + be_value bs < (unat b + 1) * 256 ^ length bs"
    using Cons by (simp add: algebra_simps)
  also have "\<dots> \<le> 256 * 256 ^ length bs"
    using unat_u8_less [of b] by (intro mult_right_mono) auto
  finally show ?case by simp
qed

lemma be_value_inject:
  "length xs = length ys \<Longrightarrow> be_value xs = be_value ys \<Longrightarrow> xs = ys"
proof (induction xs ys rule: list_induct2)
  case Nil
  show ?case by simp
next
  case (Cons x xs y ys)
  let ?m = "256 ^ length ys :: nat"
  have eq: "unat x * ?m + be_value xs = unat y * ?m + be_value ys"
    using Cons.prems Cons.hyps by simp
  have lx: "be_value xs < ?m" using be_value_less [of xs] Cons.hyps by simp
  have ly: "be_value ys < ?m" by (rule be_value_less)
  have "unat x = (unat x * ?m + be_value xs) div ?m" using lx by simp
  also have "\<dots> = unat y" using ly by (simp add: eq)
  finally have "unat x = unat y" .
  moreover from this eq have "be_value xs = be_value ys" by simp
  ultimately show ?case using Cons.IH by (simp add: word_unat_eq_iff)
qed

section \<open>Byte-order macros of \<^verbatim>\<open>common.h\<close>\<close>

definition WPA_GET_BE16 :: "bytes \<Rightarrow> u16" where
  "WPA_GET_BE16 a = push_bit 8 (ucast (a ! 0)) OR ucast (a ! 1)"

definition WPA_PUT_BE16 :: "u16 \<Rightarrow> bytes" where
  "WPA_PUT_BE16 val = [ucast (drop_bit 8 val), ucast (val AND 0xff)]"

definition WPA_GET_LE16 :: "bytes \<Rightarrow> u16" where
  "WPA_GET_LE16 a = push_bit 8 (ucast (a ! 1)) OR ucast (a ! 0)"

definition WPA_PUT_LE16 :: "u16 \<Rightarrow> bytes" where
  "WPA_PUT_LE16 val = [ucast (val AND 0xff), ucast (drop_bit 8 val)]"

definition WPA_GET_BE24 :: "bytes \<Rightarrow> u32" where
  "WPA_GET_BE24 a = push_bit 16 (ucast (a ! 0)) OR push_bit 8 (ucast (a ! 1)) OR ucast (a ! 2)"

definition WPA_PUT_BE24 :: "u32 \<Rightarrow> bytes" where
  "WPA_PUT_BE24 val =
     [ucast (drop_bit 16 val AND 0xff), ucast (drop_bit 8 val AND 0xff), ucast (val AND 0xff)]"

definition WPA_GET_BE32 :: "bytes \<Rightarrow> u32" where
  "WPA_GET_BE32 a =
     push_bit 24 (ucast (a ! 0)) OR push_bit 16 (ucast (a ! 1)) OR
     push_bit 8 (ucast (a ! 2)) OR ucast (a ! 3)"

definition WPA_PUT_BE32 :: "u32 \<Rightarrow> bytes" where
  "WPA_PUT_BE32 val =
     [ucast (drop_bit 24 val AND 0xff), ucast (drop_bit 16 val AND 0xff),
      ucast (drop_bit 8 val AND 0xff), ucast (val AND 0xff)]"

definition WPA_GET_LE32 :: "bytes \<Rightarrow> u32" where
  "WPA_GET_LE32 a =
     push_bit 24 (ucast (a ! 3)) OR push_bit 16 (ucast (a ! 2)) OR
     push_bit 8 (ucast (a ! 1)) OR ucast (a ! 0)"

definition WPA_PUT_LE32 :: "u32 \<Rightarrow> bytes" where
  "WPA_PUT_LE32 val =
     [ucast (val AND 0xff), ucast (drop_bit 8 val AND 0xff),
      ucast (drop_bit 16 val AND 0xff), ucast (drop_bit 24 val AND 0xff)]"

lemmas byte_order_defs =
  WPA_GET_BE16_def WPA_PUT_BE16_def WPA_GET_LE16_def WPA_PUT_LE16_def WPA_GET_BE24_def
  WPA_PUT_BE24_def WPA_GET_BE32_def WPA_PUT_BE32_def WPA_GET_LE32_def WPA_PUT_LE32_def

lemma length_put [simp]:
  "length (WPA_PUT_BE16 w) = 2" "length (WPA_PUT_LE16 w) = 2" "length (WPA_PUT_BE24 v) = 3"
  "length (WPA_PUT_BE32 v) = 4" "length (WPA_PUT_LE32 v) = 4"
  by (simp_all add: byte_order_defs)

lemma ucast_low_octet [simp]:
  "(ucast ((w :: u16) AND 0xff) :: u8) = ucast w" "(ucast ((v :: u32) AND 0xff) :: u8) = ucast v"
proof -
  have *: "(0xff :: u16) = mask 8" "(0xff :: u32) = mask 8" by (simp_all add: mask_eq_exp_minus_1)
  show "(ucast (w AND 0xff) :: u8) = ucast w" "(ucast (v AND 0xff) :: u8) = ucast v"
    unfolding * by (rule bit_word_eqI, simp add: bit_simps)+
qed

lemma u16_from_octets:
  "push_bit 8 (ucast (ucast (drop_bit 8 w) :: u8)) OR ucast (ucast w :: u8) = (w :: u16)"
  by (rule bit_word_eqI) (auto simp: bit_simps not_le)

lemma u32_from_octets:
  "push_bit 24 (ucast (ucast (drop_bit 24 v) :: u8)) OR push_bit 16 (ucast (ucast (drop_bit 16 v) :: u8)) OR
   push_bit 8 (ucast (ucast (drop_bit 8 v) :: u8)) OR ucast (ucast v :: u8) = (v :: u32)" (is "?w = v")
proof (rule bit_word_eqI)
  fix n assume "n < LENGTH(32)"
  then consider "n < 8" | "8 \<le> n" "n < 16" | "16 \<le> n" "n < 24" | "24 \<le> n" "n < 32"
    by fastforce
  then show "bit ?w n = bit v n"
    by cases (auto simp: bit_simps)
qed

lemma WPA_BE16_roundtrip [byte_order, simp]: "WPA_GET_BE16 (WPA_PUT_BE16 w @ r) = w"
  by (simp add: WPA_GET_BE16_def WPA_PUT_BE16_def u16_from_octets)

lemma WPA_LE16_roundtrip [byte_order, simp]: "WPA_GET_LE16 (WPA_PUT_LE16 w @ r) = w"
  by (simp add: WPA_GET_LE16_def WPA_PUT_LE16_def u16_from_octets)

lemma WPA_BE32_roundtrip [byte_order, simp]: "WPA_GET_BE32 (WPA_PUT_BE32 v @ r) = v"
  by (simp add: WPA_GET_BE32_def WPA_PUT_BE32_def u32_from_octets)

lemma WPA_LE32_roundtrip [byte_order, simp]: "WPA_GET_LE32 (WPA_PUT_LE32 v @ r) = v"
  by (simp add: WPA_GET_LE32_def WPA_PUT_LE32_def u32_from_octets)

end
