(* ===== verification/Common_Utils.thy ===== *)
theory Common_Utils
  imports Prelude
begin

text \<open>
  The string and counter helpers of \<^verbatim>\<open>src/utils/common.c\<close>: hexadecimal parsing and
  printing, MAC address parsing, the big-endian counter increment that drives nonces and replay
  counters, and the NTP time stamp.  A return code is an \<^typ>\<open>int\<close> as in C; an output buffer is
  returned beside it, also on the error paths that leave it partly written.
\<close>

section \<open>Hexadecimal digits\<close>

definition hex2num :: "u8 \<Rightarrow> int" where
  "hex2num c =
     (if c \<ge> 48 \<and> c \<le> 57 then uint c - 48
      else if c \<ge> 97 \<and> c \<le> 102 then uint c - 97 + 10
      else if c \<ge> 65 \<and> c \<le> 70 then uint c - 65 + 10
      else -1)"

definition hex2byte :: "bytes \<Rightarrow> int" where
  "hex2byte hex =
     (let a = hex2num (cstr_hd hex); hex = tl hex in
      if a < 0 then -1 else
      let b = hex2num (cstr_hd hex) in
      if b < 0 then -1 else push_bit 4 a OR b)"

function hwaddr_aton_loop :: "nat \<Rightarrow> bytes \<Rightarrow> bytes \<Rightarrow> int \<times> bytes" where
  "hwaddr_aton_loop i txt addr =
     (if i < 6 then
        let a = hex2num (cstr_hd txt); txt = tl txt in
        if a < 0 then (-1, addr) else
        let b = hex2num (cstr_hd txt); txt = tl txt in
        if b < 0 then (-1, addr) else
        let addr = addr @ [word_of_int (push_bit 4 a OR b)] in
        if i < 5 then
          (if cstr_hd txt \<noteq> 58 then (-1, addr) else hwaddr_aton_loop (Suc i) (tl txt) addr)
        else hwaddr_aton_loop (Suc i) txt addr
      else (0, addr))"
  by pat_completeness auto
termination
  by (relation "measure (\<lambda>(i, _). 6 - i)") auto

definition hwaddr_aton :: "bytes \<Rightarrow> int \<times> bytes" where
  "hwaddr_aton txt = hwaddr_aton_loop 0 txt []"

text \<open>\<^verbatim>\<open>hwaddr_aton2\<close> skips any number of separators before each octet and returns the number of
  characters used.\<close>

definition is_sep :: "u8 \<Rightarrow> bool" where
  "is_sep c \<longleftrightarrow> c = 58 \<or> c = 46 \<or> c = 45"

function hwaddr_aton2_loop :: "nat \<Rightarrow> bytes \<Rightarrow> nat \<Rightarrow> bytes \<Rightarrow> int \<times> bytes" where
  "hwaddr_aton2_loop i pos used addr =
     (if i < 6 then
        let seps = takeWhile is_sep pos; pos = dropWhile is_sep pos; used = used + length seps;
            a = hex2num (cstr_hd pos); pos = tl pos in
        if a < 0 then (-1, addr) else
        let b = hex2num (cstr_hd pos); pos = tl pos in
        if b < 0 then (-1, addr) else
        hwaddr_aton2_loop (Suc i) pos (used + 2) (addr @ [word_of_int (push_bit 4 a OR b)])
      else (int used, addr))"
  by pat_completeness auto
termination
  by (relation "measure (\<lambda>(i, _). 6 - i)") auto

definition hwaddr_aton2 :: "bytes \<Rightarrow> int \<times> bytes" where
  "hwaddr_aton2 txt = hwaddr_aton2_loop 0 txt 0 []"

declare hwaddr_aton_loop.simps [simp del] hwaddr_aton2_loop.simps [simp del]

fun hexstr2bin_loop :: "bytes \<Rightarrow> nat \<Rightarrow> bytes \<Rightarrow> int \<times> bytes" where
  "hexstr2bin_loop ipos 0 buf = (0, buf)"
| "hexstr2bin_loop ipos (Suc n) buf =
     (let a = hex2byte ipos in
      if a < 0 then (-1, buf) else hexstr2bin_loop (drop 2 ipos) n (buf @ [word_of_int a]))"

definition hexstr2bin :: "bytes \<Rightarrow> nat \<Rightarrow> int \<times> bytes" where
  "hexstr2bin hex len = hexstr2bin_loop hex len []"

section \<open>Hexadecimal printing\<close>

text \<open>The \<^verbatim>\<open>%02x\<close> and \<^verbatim>\<open>%02X\<close> conversions of the C library.\<close>

definition hex_digit :: "bool \<Rightarrow> u8 \<Rightarrow> u8" where
  "hex_digit uppercase n =
     (if n < 10 then 48 + n else if uppercase then 65 + (n - 10) else 97 + (n - 10))"

definition hex_octet :: "bool \<Rightarrow> u8 \<Rightarrow> bytes" where
  "hex_octet uppercase b = [hex_digit uppercase (drop_bit 4 b), hex_digit uppercase (b AND 15)]"

text \<open>The loop of \<^verbatim>\<open>_wpa_snprintf_hex\<close>: \<open>room\<close> is \<^verbatim>\<open>end - pos\<close>.  When \<^verbatim>\<open>os_snprintf\<close> reports
  that two digits and a NUL do not fit, what it did write stays in the buffer although the returned
  count does not include it.  The result is the return value and the string left in the buffer.\<close>

fun snprintf_hex_loop :: "bool \<Rightarrow> nat \<Rightarrow> bytes \<Rightarrow> bytes \<Rightarrow> int \<times> bytes" where
  "snprintf_hex_loop uppercase room [] buf = (int (length buf), buf)"
| "snprintf_hex_loop uppercase room (d # data) buf =
     (if 2 \<ge> room then (int (length buf), buf @ take (room - 1) (hex_octet uppercase d))
      else snprintf_hex_loop uppercase (room - 2) data (buf @ hex_octet uppercase d))"

definition wpa_snprintf_hex' :: "nat \<Rightarrow> bytes \<Rightarrow> bool \<Rightarrow> int \<times> bytes" where
  "wpa_snprintf_hex' buf_size data uppercase =
     (if buf_size = 0 then (0, []) else snprintf_hex_loop uppercase buf_size data [])"

definition wpa_snprintf_hex :: "nat \<Rightarrow> bytes \<Rightarrow> int \<times> bytes" where
  "wpa_snprintf_hex buf_size data = wpa_snprintf_hex' buf_size data False"

definition wpa_snprintf_hex_uppercase :: "nat \<Rightarrow> bytes \<Rightarrow> int \<times> bytes" where
  "wpa_snprintf_hex_uppercase buf_size data = wpa_snprintf_hex' buf_size data True"

section \<open>Counter increment, NTP time stamp, printable SSID\<close>

text \<open>The loop of \<^verbatim>\<open>inc_byte_array\<close> with \<^verbatim>\<open>pos + 1\<close> as its second argument.\<close>

fun inc_byte_array_loop :: "bytes \<Rightarrow> nat \<Rightarrow> bytes" where
  "inc_byte_array_loop counter 0 = counter"
| "inc_byte_array_loop counter (Suc pos) =
     (let counter = counter[pos := counter ! pos + 1] in
      if counter ! pos \<noteq> 0 then counter else inc_byte_array_loop counter pos)"

definition inc_byte_array :: "bytes \<Rightarrow> bytes" where
  "inc_byte_array counter = inc_byte_array_loop counter (length counter)"

text \<open>The time of day is an input: \<^verbatim>\<open>os_get_time\<close> is the operating system's.\<close>

definition ntp_fraction :: "u32 \<Rightarrow> u32" where
  "ntp_fraction usec = 4295 * usec - drop_bit 5 usec - drop_bit 9 usec"

definition wpa_get_ntp_timestamp :: "u32 \<Rightarrow> u32 \<Rightarrow> bytes" where
  "wpa_get_ntp_timestamp now_sec now_usec =
     (let sec = now_sec + 2208988800; usec = ntp_fraction now_usec
      in WPA_PUT_BE32 sec @ WPA_PUT_BE32 usec)"

definition wpa_ssid_txt :: "bytes \<Rightarrow> bytes" where
  "wpa_ssid_txt ssid =
     map (\<lambda>c. if c < 32 \<or> c \<ge> 127 then 95 else c)
       (takeWhile (\<lambda>c. c \<noteq> 0) (take (min (length ssid) 32) ssid))"

section \<open>Printing and parsing are inverse\<close>

lemma int_or_shift4:
  assumes "0 \<le> b" "b < 16"
  shows "push_bit 4 a OR b = a * 16 + (b :: int)"
proof -
  have "push_bit 4 a OR b = push_bit 4 a + b"
  proof (rule disjunctive_add [symmetric])
    fix n
    have "take_bit 4 b = b" using assms by (simp add: take_bit_int_eq_self)
    then have "bit b n \<Longrightarrow> n < 4" by (metis bit_take_bit_iff)
    then show "\<not> bit (push_bit 4 a) n \<or> \<not> bit b n" by (auto simp: bit_simps)
  qed
  then show ?thesis by (simp add: push_bit_eq_mult)
qed

lemma u8_less_16:
  assumes "(n :: u8) < 16"
  shows "n \<in> set [0, 1, 2, 3, 4, 5, 6, 7, 8, 9, 10, 11, 12, 13, 14, 15]"
proof -
  have "unat n < 16" using assms by (simp add: word_less_nat_alt)
  then have "unat n \<in> set [0, 1, 2, 3, 4, 5, 6, 7, 8, 9, 10, 11, 12, 13, 14, 15]"
    unfolding list.set insert_iff empty_iff by presburger
  then show ?thesis by (simp add: word_unat_eq_iff)
qed

lemma hex2num_hex_digit: "n < 16 \<Longrightarrow> hex2num (hex_digit uppercase n) = uint n"
  apply (drule u8_less_16)
  unfolding list.set insert_iff empty_iff
  apply (cases uppercase; elim disjE FalseE; hypsubst)
  by (simp_all add: hex2num_def hex_digit_def)

lemma nibbles:
  "drop_bit 4 (b :: u8) < 16" "b AND 15 < 16"
  "uint (drop_bit 4 b) * 16 + uint (b AND 15) = uint b" "uint (b AND 15) < 16"
proof -
  have m: "(15 :: u8) = mask 4" by (simp add: mask_eq_exp_minus_1)
  have u: "uint (b AND 15) = uint b mod 16"
    unfolding m take_bit_eq_mask [symmetric]
    by (simp add: take_bit_eq_mod uint_mod)
  have d: "uint (drop_bit 4 b) = uint b div 16"
    by (simp add: unsigned_drop_bit_eq take_bit_eq_mod drop_bit_eq_div uint_div)
  have b: "uint b < 256" "0 \<le> uint b" using unsigned_less [of b] by simp_all
  show "drop_bit 4 b < 16" using b by (simp add: word_less_def d)
  show "b AND 15 < 16" by (simp add: word_less_def u)
  show "uint (drop_bit 4 b) * 16 + uint (b AND 15) = uint b" by (simp add: u d)
  show "uint (b AND 15) < 16" by (simp add: u)
qed

lemma hex2byte_hex_octet [simp]: "hex2byte (hex_octet uppercase b @ r) = uint b"
  using nibbles [of b]
  by (simp add: hex2byte_def hex_octet_def hex2num_hex_digit int_or_shift4)

lemma length_hex_octet [simp]: "length (hex_octet uppercase b) = 2"
  by (simp add: hex_octet_def)

lemma hexstr2bin_loop_print:
  "hexstr2bin_loop (concat (map (hex_octet uppercase) data) @ r) (length data) buf = (0, buf @ data)"
  by (induction data arbitrary: buf) simp_all

lemma snprintf_hex_loop_fits:
  "2 * length data < room \<Longrightarrow>
   snprintf_hex_loop uppercase room data buf =
     (int (length buf + 2 * length data), buf @ concat (map (hex_octet uppercase) data))"
  by (induction data arbitrary: room buf) simp_all

lemma snprintf_hex_loop_bounds:
  assumes "0 < room" "snprintf_hex_loop uppercase room data buf = (n, str)"
  shows "length str < length buf + room" "0 \<le> n" "n \<le> int (length str)"
  using assms by (induction uppercase room data buf rule: snprintf_hex_loop.induct) (auto split: if_splits)

text \<open>The MAC address format of \<^verbatim>\<open>MACSTR\<close> and \<^verbatim>\<open>MAC2STR\<close>.\<close>

fun mac2str :: "bytes \<Rightarrow> bytes" where
  "mac2str [] = []"
| "mac2str [b] = hex_octet False b"
| "mac2str (b # bs) = hex_octet False b @ [58] @ mac2str bs"

lemma hwaddr_aton_loop_octet:
  assumes "i < 6"
  shows "hwaddr_aton_loop i (hex_octet u b @ r) addr =
     (if i < 5 then
        (if cstr_hd r \<noteq> 58 then (-1, addr @ [b]) else hwaddr_aton_loop (Suc i) (tl r) (addr @ [b]))
      else hwaddr_aton_loop (Suc i) r (addr @ [b]))"
  using assms nibbles [of b]
  by (subst hwaddr_aton_loop.simps)
    (simp add: hex_octet_def hex2num_hex_digit int_or_shift4 Let_def)

lemma hwaddr_aton_loop_end [simp]: "6 \<le> i \<Longrightarrow> hwaddr_aton_loop i txt addr = (0, addr)"
  by (subst hwaddr_aton_loop.simps) simp

lemma hwaddr_aton_mac2str:
  assumes "length addr = 6"
  shows "hwaddr_aton (mac2str addr @ r) = (0, addr)"
proof -
  obtain a b c d e f where "addr = [a, b, c, d, e, f]"
    using assms by (auto simp: numeral_eq_Suc length_Suc_conv)
  then show ?thesis
    by (simp add: hwaddr_aton_def hwaddr_aton_loop_octet)
qed

section \<open>The counter increment counts\<close>

lemma inc_byte_array_loop_correct:
  assumes "n \<le> length c"
  shows "length (inc_byte_array_loop c n) = length c \<and>
    drop n (inc_byte_array_loop c n) = drop n c \<and>
    be_value (take n (inc_byte_array_loop c n)) = (be_value (take n c) + 1) mod 256 ^ n"
  using assms
proof (induction n arbitrary: c)
  case 0
  show ?case by simp
next
  case (Suc n)
  define c' where "c' = c[n := c ! n + 1]"
  have n: "n < length c" using Suc.prems by simp
  have t: "take (Suc n) c = take n c @ [c ! n]" using n by (simp add: take_Suc_conv_app_nth)
  have t': "take (Suc n) c' = take n c @ [c ! n + 1]"
    using n by (simp add: c'_def take_Suc_conv_app_nth)
  have less: "be_value (take n c) < 256 ^ n" using be_value_less [of "take n c"] n by simp
  show ?case
  proof (cases "c ! n + 1 = 0")
    case False
    then have un: "unat (c ! n + 1) = unat (c ! n) + 1"
      using unat_word_ariths(1) [of "c ! n" 1] unat_u8_less [of "c ! n"]
      by (cases "unat (c ! n) = 255") (simp_all add: word_unat_eq_iff)
    have r: "inc_byte_array_loop c (Suc n) = c'" using False n by (simp add: c'_def)
    have v: "be_value (take (Suc n) c') = be_value (take (Suc n) c) + 1"
      by (simp add: t t' be_value_append un)
    have "be_value (take (Suc n) c') < 256 ^ Suc n"
      using be_value_less [of "take (Suc n) c'"] n by (simp add: c'_def)
    with v have "be_value (take (Suc n) c') = (be_value (take (Suc n) c) + 1) mod 256 ^ Suc n" by simp
    then show ?thesis by (simp only: r) (simp add: c'_def)
  next
    case True
    then have "(unat (c ! n) + 1) mod 256 = 0"
      using unat_word_ariths(1) [of "c ! n" 1] by simp
    then have u: "unat (c ! n) = 255" using unat_u8_less [of "c ! n"] by presburger
    have IH: "length (inc_byte_array_loop c' n) = length c' \<and>
      drop n (inc_byte_array_loop c' n) = drop n c' \<and>
      be_value (take n (inc_byte_array_loop c' n)) = (be_value (take n c') + 1) mod 256 ^ n"
      using Suc.IH [of c'] n by (simp add: c'_def)
    define r where "r = inc_byte_array_loop c' n"
    have c'n: "c' ! n = 0" "n < length c'" using True n by (simp_all add: c'_def)
    have lr: "length r = length c" using IH by (simp add: r_def c'_def)
    have dr: "drop n r = drop n c'" using IH by (simp add: r_def)
    then have rn: "r ! n = 0" using c'n lr n by (metis Cons_nth_drop_Suc list.inject)
    from dr have "drop (Suc n) r = drop (Suc n) c'" by (metis drop_Suc tl_drop)
    then have "drop (Suc n) r = drop (Suc n) c" by (simp add: c'_def)
    moreover have "be_value (take (Suc n) r) = be_value (take n r) * 256"
      using lr n rn by (simp add: take_Suc_conv_app_nth be_value_append)
    moreover have "be_value (take n r) = (be_value (take n c) + 1) mod 256 ^ n"
      using IH by (simp add: r_def c'_def)
    moreover have "(be_value (take (Suc n) c) + 1) = (be_value (take n c) + 1) * 256"
      by (simp add: t be_value_append u)
    moreover have "inc_byte_array_loop c (Suc n) = r"
      using c'n by (simp add: r_def c'_def [symmetric])
    moreover have "x * 256 mod 256 ^ Suc n = (x mod 256 ^ n) * 256" for x :: nat
      by (simp add: mult.commute [of _ 256])
    ultimately show ?thesis using lr by (simp only:)
  qed
qed

text \<open>Incrementing a counter array adds one to its big-endian value, modulo its width: the
  replay and key counters of the authenticator do not repeat before they wrap.\<close>

lemma inc_byte_array_counts:
  "length (inc_byte_array c) = length c \<and>
   be_value (inc_byte_array c) = (be_value c + 1) mod 256 ^ length c"
  using inc_byte_array_loop_correct [of "length c" c]
  by (auto simp: inc_byte_array_def)

text \<open>C24. What \<^verbatim>\<open>wpa_snprintf_hex\<close> (in either case) prints into a buffer of the documented size is read
  back by \<^verbatim>\<open>hexstr2bin\<close>, and the returned length is the string's length.\<close>

theorem snprintf_hex_roundtrip:
  assumes "2 * length data + 1 \<le> buf_size"
  shows "fst (wpa_snprintf_hex' buf_size data uppercase) = int (2 * length data) \<and>
    hexstr2bin (snd (wpa_snprintf_hex' buf_size data uppercase)) (length data) = (0, data)"
  using assms hexstr2bin_loop_print [of uppercase data "[]" "[]"]
  by (simp add: wpa_snprintf_hex'_def snprintf_hex_loop_fits hexstr2bin_def)

theorem snprintf_hex_roundtrip_witness:
  "fst (wpa_snprintf_hex' 7 [0xde, 0xad, 0x01] True) = 6 \<and>
   hexstr2bin (snd (wpa_snprintf_hex' 7 [0xde, 0xad, 0x01] True)) 3 = (0, [0xde, 0xad, 0x01])"
  using snprintf_hex_roundtrip [of "[0xde, 0xad, 0x01]" 7 True]
  by (simp add: numeral_3_eq_3)

text \<open>Whatever the buffer size, the string and its NUL fit into the buffer, and the returned count
  never exceeds the string.\<close>

lemma snprintf_hex_bounds:
  assumes "0 < buf_size" "wpa_snprintf_hex' buf_size data uppercase = (n, str)"
  shows "length str < buf_size \<and> 0 \<le> n \<and> n \<le> int (length str)"
  using assms snprintf_hex_loop_bounds [of buf_size uppercase data "[]" n str]
  by (simp add: wpa_snprintf_hex'_def)

section \<open>The NTP fraction does not wrap\<close>

lemma ntp_fraction_value:
  assumes "unat usec < 1000000"
  shows "unat (ntp_fraction usec) = 4295 * unat usec - unat usec div 32 - unat usec div 512"
proof -
  let ?u = "unat usec"
  let ?v = "4295 * ?u - ?u div 32 - ?u div 512"
  have nz: "?u div 32 + ?u div 512 \<le> 4295 * ?u" by linarith
  have lt: "?v < 2 ^ 32" using assms by simp
  have "ntp_fraction usec = word_of_nat (4295 * ?u) - word_of_nat (?u div 32) - word_of_nat (?u div 512)"
    by (simp add: ntp_fraction_def drop_bit_eq_div word_arith_nat_div)
  also have "\<dots> = word_of_nat ?v" using nz by (simp add: of_nat_diff)
  finally have e: "ntp_fraction usec = word_of_nat ?v" .
  show ?thesis using lt by (simp only: e unat_of_nat) simp
qed

end
