(* ===== verification/Base64.thy ===== *)
theory Base64
  imports Prelude
begin

text \<open>
  \<^verbatim>\<open>src/utils/base64.c\<close>: the encoder with its line breaks and its allocation size, the decoder that
  skips every octet outside the alphabet, and the proofs that the encoder never writes past its
  allocation and that the decoder inverts it.  The allocator is a parameter: \<open>os_malloc n\<close> says
  whether an allocation of \<open>n\<close> octets succeeds.  \<^verbatim>\<open>size_t\<close> has 32 bits, as on the x86 target of
  the OpenWRT configuration.
\<close>

section \<open>The encoder\<close>

text \<open>\<^verbatim>\<open>ABC...Zabc...z0123456789+/\<close>\<close>

definition base64_table :: "bytes" where
  "base64_table =
     map word_of_nat ([65..<91] @ [97..<123] @ [48..<58] @ [43, 47])"

text \<open>The allocation size, computed in \<^verbatim>\<open>size_t\<close> arithmetic.\<close>

definition base64_olen :: "nat \<Rightarrow> u32" where
  "base64_olen len =
     (let olen = word_of_nat len * 4 div 3 + 4;
          olen = olen + olen div 72
      in olen + 1)"

fun base64_encode_loop :: "bytes \<Rightarrow> nat \<Rightarrow> bytes \<Rightarrow> bytes" where
  "base64_encode_loop (a # b # c # rest) line_len out =
     (let out = out @ [base64_table ! unat (drop_bit 2 a),
                       base64_table ! unat (push_bit 4 (a AND 0x03) OR drop_bit 4 b),
                       base64_table ! unat (push_bit 2 (b AND 0x0f) OR drop_bit 6 c),
                       base64_table ! unat (c AND 0x3f)];
          line_len = line_len + 4
      in if line_len \<ge> 72 then base64_encode_loop rest 0 (out @ [10])
         else base64_encode_loop rest line_len out)"
| "base64_encode_loop [] line_len out = (if line_len \<noteq> 0 then out @ [10] else out)"
| "base64_encode_loop [a] line_len out =
     out @ [base64_table ! unat (drop_bit 2 a), base64_table ! unat (push_bit 4 (a AND 0x03)),
            61, 61, 10]"
| "base64_encode_loop [a, b] line_len out =
     out @ [base64_table ! unat (drop_bit 2 a),
            base64_table ! unat (push_bit 4 (a AND 0x03) OR drop_bit 4 b),
            base64_table ! unat (push_bit 2 (b AND 0x0f)), 61, 10]"

definition base64_encode :: "(nat \<Rightarrow> bool) \<Rightarrow> bytes \<Rightarrow> bytes option" where
  "base64_encode os_malloc src =
     (let olen = base64_olen (length src) in
      if olen < word_of_nat (length src) then None
      else if \<not> os_malloc (unat olen) then None
      else Some (base64_encode_loop src 0 []))"

section \<open>The decoder\<close>

fun table_index :: "bytes \<Rightarrow> nat \<Rightarrow> u8 \<Rightarrow> u8 option" where
  "table_index [] i c = None"
| "table_index (t # ts) i c = (if t = c then Some (word_of_nat i) else table_index ts (Suc i) c)"

definition dtable :: "u8 \<Rightarrow> u8" where
  "dtable c =
     (if c = 61 then 0
      else case table_index base64_table 0 c of Some i \<Rightarrow> i | None \<Rightarrow> 0x80)"

text \<open>The loop state is \<^verbatim>\<open>count\<close>, the arrays \<^verbatim>\<open>in\<close> and \<^verbatim>\<open>block\<close>, and the output written so far.\<close>

fun base64_decode_loop ::
  "bytes \<Rightarrow> nat \<Rightarrow> bytes \<Rightarrow> bytes \<Rightarrow> bytes \<Rightarrow> bytes \<times> bytes" where
  "base64_decode_loop [] count inb block out = (inb, out)"
| "base64_decode_loop (c # src) count inb block out =
     (let tmp = dtable c in
      if tmp = 0x80 then base64_decode_loop src count inb block out
      else
        let inb = inb[count := c]; block = block[count := tmp]; count = count + 1 in
        if count = 4 then
          base64_decode_loop src 0 inb block
            (out @ [push_bit 2 (block ! 0) OR drop_bit 4 (block ! 1),
                    push_bit 4 (block ! 1) OR drop_bit 2 (block ! 2),
                    push_bit 6 (block ! 2) OR block ! 3])
        else base64_decode_loop src count inb block out)"

definition base64_decode :: "(nat \<Rightarrow> bool) \<Rightarrow> bytes \<Rightarrow> bytes option" where
  "base64_decode os_malloc src =
     (let count = length (filter (\<lambda>c. dtable c \<noteq> 0x80) src) in
      if count = 0 \<or> count mod 4 \<noteq> 0 then None
      else if \<not> os_malloc (count div 4 * 3) then None
      else
        let (inb, out) = base64_decode_loop src 0 (replicate 4 0) (replicate 4 0) [] in
        if out \<noteq> [] then
          (if inb ! 2 = 61 then Some (take (length out - 2) out)
           else if inb ! 3 = 61 then Some (take (length out - 1) out)
           else Some out)
        else Some out)"

section \<open>The encoder stays inside its allocation\<close>

text \<open>The number of octets the encoder writes before the NUL, from the state of its loop.\<close>

lemma length_encode_loop:
  assumes "line_len mod 4 = 0" "line_len < 72"
  shows "length (base64_encode_loop src line_len out) =
    length out + 4 * ((length src + 2) div 3) + (line_len div 4 + (length src + 2) div 3 + 17) div 18"
  using assms
proof (induction src line_len out rule: base64_encode_loop.induct)
  case (1 a b c rest line_len out)
  define q where "q = (length rest + 2) div 3"
  have q: "(length (a # b # c # rest) + 2) div 3 = Suc q" by (simp add: q_def)
  show ?case
  proof (cases "72 \<le> line_len + 4")
    case True
    then have "line_len = 68" using "1.prems" by presburger
    then show ?thesis using "1.IH"(1) unfolding q by (simp add: Let_def q_def)
  next
    case False
    obtain j where "line_len = 4 * j" using "1.prems" by (auto simp: mod_eq_0_iff_dvd dvd_def)
    then show ?thesis using "1.IH"(2) False unfolding q by (simp add: Let_def q_def)
  qed
next
  case (2 line_len out)
  then show ?case by (cases "line_len = 0") auto
next
  case (3 a line_len out)
  then show ?case by auto
next
  case (4 a b line_len out)
  then show ?case by auto
qed

text \<open>The overflow test of the encoder is complete for a 32-bit \<^verbatim>\<open>size_t\<close>: when it does not fire, the
  size computation did not wrap.\<close>

lemma base64_olen_value:
  assumes "len < 2 ^ 32" "\<not> base64_olen len < word_of_nat len"
  shows "unat (base64_olen len) = len * 4 div 3 + 4 + (len * 4 div 3 + 4) div 72 + 1"
proof -
  define m where "m = len * 4 mod 2 ^ 32"
  have m: "m < 2 ^ 32" by (simp add: m_def)
  have o1: "unat (word_of_nat len * 4 div 3 + 4 :: u32) = m div 3 + 4"
    using m assms(1)
    by (simp add: unat_word_ariths unat_div unat_of_nat m_def mod_mult_left_eq)
  have o2: "unat (base64_olen len) = m div 3 + 4 + (m div 3 + 4) div 72 + 1"
  proof -
    let ?o = "word_of_nat len * 4 div 3 + 4 :: u32"
    have "unat ?o div 72 + unat ?o + 1 < 2 ^ 32" using m by (simp add: o1)
    then have "unat (?o + ?o div 72 + 1) = unat ?o + unat ?o div 72 + 1"
      by (simp only: unat_word_ariths unat_div) simp
    then show ?thesis by (simp add: base64_olen_def Let_def o1)
  qed
  define d e j where "d = m div 3" and "e = (d + 4) div 72" and "j = 4 * len div 2 ^ 32"
  have "len \<le> d + 4 + e + 1"
    using assms by (simp add: word_less_nat_alt o2 unat_of_nat d_def e_def)
  moreover have "3 * d \<le> m" "72 * e \<le> d + 4" by (simp_all add: d_def e_def)
  moreover have "4 * len = 4294967296 * j + m"
    using mult_div_mod_eq [of "2 ^ 32" "4 * len", symmetric] by (simp only: m_def j_def mult.commute) simp
  moreover have "m < 4294967296" using m by simp
  ultimately have "j < 1" by linarith
  then have "4 * len < 2 ^ 32" by (simp add: j_def)
  then have "m = len * 4" by (simp add: m_def)
  then show ?thesis by (simp add: o2)
qed

text \<open>C25. The encoder's output and its terminating NUL fit into the block it allocates, for every input
  that a 32-bit address space can hold.\<close>

theorem base64_encode_in_bounds:
  assumes "length src < 2 ^ 32" "base64_encode os_malloc src = Some out"
  shows "length out + 1 \<le> unat (base64_olen (length src))"
proof -
  let ?n = "length src"
  have out: "out = base64_encode_loop src 0 []" and ok: "\<not> base64_olen ?n < word_of_nat ?n"
    using assms(2) by (auto simp: base64_encode_def Let_def split: if_splits)
  have "length out = 4 * ((?n + 2) div 3) + ((?n + 2) div 3 + 17) div 18"
    by (simp add: out length_encode_loop)
  moreover define q x where "q = (?n + 2) div 3" and "x = ?n * 4 div 3 + 4"
  moreover have qx: "4 * q + 1 \<le> x" unfolding q_def x_def by linarith
  moreover have "q div 18 \<le> x div 72"
    using div_le_mono [of "4 * q" x 72] qx by (simp add: div_mult2_eq [of _ 4 18, simplified])
  moreover have "(q + 17) div 18 \<le> q div 18 + 1" by presburger
  ultimately show ?thesis unfolding base64_olen_value [OF assms(1) ok] by linarith
qed

theorem base64_encode_in_bounds_witness:
  "base64_encode (\<lambda>_. True) [77, 97, 110] = Some [84, 87, 70, 117, 10] \<and>
   length [84, 87, 70, 117, 10 :: u8] + 1 \<le> unat (base64_olen (length [77, 97, 110 :: u8]))"
proof -
  have "base64_encode (\<lambda>_. True) [77, 97, 110] = Some [84, 87, 70, 117, 10]" by code_simp
  with base64_encode_in_bounds [OF _ this] show ?thesis by simp
qed

section \<open>Decoding inverts encoding\<close>

declare push_bit_and [simp del]

lemma sextets_join1:
  "push_bit 2 (drop_bit 2 a) OR drop_bit 4 (push_bit 4 (a AND 3) OR drop_bit 4 b) = (a :: u8)"
  unfolding low_masks
  by (rule u8_eqI) ((simp add: bit_simps; simp add: numeral_eq_Suc)+)

lemma sextets_join2:
  "push_bit 4 (push_bit 4 (a AND 3) OR drop_bit 4 b) OR
   drop_bit 2 (push_bit 2 (b AND 15) OR drop_bit 6 c) = (b :: u8)"
  unfolding low_masks by (rule u8_eqI) (simp_all add: bit_simps)

lemma sextets_join3: "push_bit 6 (push_bit 2 (b AND 15) OR drop_bit 6 c) OR (c AND 63) = (c :: u8)"
  unfolding low_masks by (rule u8_eqI) (simp_all add: bit_simps)

lemma u8_less_64: 
  assumes "\<not> bit x 6" "\<not> bit x 7" shows "unat (x :: u8) < 64"
proof -
  have "take_bit 6 x = x" by (rule u8_eqI) (simp_all add: bit_simps assms)
  then have "unat x = take_bit 6 (unat x)" by (metis unsigned_take_bit_eq)
  then have "unat x = unat x mod 64" by (simp add: take_bit_eq_mod)
  then show ?thesis by (metis mod_less_divisor zero_less_numeral)
qed

lemma bit_u8_beyond [simp]: "\<not> bit (a :: u8) 8" "\<not> bit (a :: u8) 9" "\<not> bit (a :: u8) 10" "\<not> bit (a :: u8) 11"
  "\<not> bit (a :: u8) 12" "\<not> bit (a :: u8) 13"
  by (simp_all add: impossible_bit)

lemma sextets_small:
  "unat (drop_bit 2 a :: u8) < 64" "unat (push_bit 4 (a AND 3) OR drop_bit 4 b :: u8) < 64"
  "unat (push_bit 2 (b AND 15) OR drop_bit 6 c :: u8) < 64" "unat (c AND 63 :: u8) < 64"
  unfolding low_masks
  by (rule u8_less_64; simp add: bit_simps)+

lemma enc_char_nat: "\<forall>i \<in> set [0..<64]. dtable (base64_table ! i) = word_of_nat i \<and> base64_table ! i \<noteq> 61"
  unfolding dtable_def
  by (simp add: base64_table_def upt_rec)


lemma enc_char:
  assumes "unat x < 64"
  shows "dtable (base64_table ! unat x) = x" "base64_table ! unat x \<noteq> 61" "x \<noteq> 0x80"
  using enc_char_nat assms by auto

lemma dtable_special [simp]: "dtable 61 = 0" "dtable 10 = 0x80"
proof -
  show "dtable 61 = 0" by (simp add: dtable_def)
  show "dtable 10 = 0x80" unfolding dtable_def by (simp add: base64_table_def upt_rec)
qed

lemma decode_loop_newline [simp]:
  "base64_decode_loop (10 # src) count inb block out = base64_decode_loop src count inb block out"
  by simp

lemma list_of_length_4: "length xs = 4 \<Longrightarrow> \<exists>a b c d. xs = [a, b, c, d]"
  by (auto simp: numeral_eq_Suc length_Suc_conv)

lemma decode_loop_block:
  assumes "length inb = 4" "length block = 4"
    "dtable c0 \<noteq> 0x80" "dtable c1 \<noteq> 0x80" "dtable c2 \<noteq> 0x80" "dtable c3 \<noteq> 0x80"
  shows "base64_decode_loop (c0 # c1 # c2 # c3 # src) 0 inb block out =
    base64_decode_loop src 0 [c0, c1, c2, c3] [dtable c0, dtable c1, dtable c2, dtable c3]
      (out @ [push_bit 2 (dtable c0) OR drop_bit 4 (dtable c1),
              push_bit 4 (dtable c1) OR drop_bit 2 (dtable c2),
              push_bit 6 (dtable c2) OR dtable c3])"
  using assms(3-) list_of_length_4 [OF assms(1)] list_of_length_4 [OF assms(2)]
  by (auto simp: Let_def numeral_2_eq_2 numeral_3_eq_3)

lemma encode_loop_prefix:
  "base64_encode_loop src l (pre @ out) = pre @ base64_encode_loop src l out"
  by (induction src l out rule: base64_encode_loop.induct) (simp_all add: Let_def)

lemmas encode_loop_append = encode_loop_prefix [where out = "[]", simplified]

text \<open>The four characters of a full input block.\<close>

definition enc_block :: "u8 \<Rightarrow> u8 \<Rightarrow> u8 \<Rightarrow> bytes" where
  "enc_block a b c =
     [base64_table ! unat (drop_bit 2 a),
      base64_table ! unat (push_bit 4 (a AND 0x03) OR drop_bit 4 b),
      base64_table ! unat (push_bit 2 (b AND 0x0f) OR drop_bit 6 c),
      base64_table ! unat (c AND 0x3f)]"

lemma encode_loop_block:
  "base64_encode_loop (a # b # c # rest) l [] =
     enc_block a b c @ (if l + 4 \<ge> 72 then 10 # base64_encode_loop rest 0 []
                        else base64_encode_loop rest (l + 4) [])"
  using encode_loop_append [of rest 0 "enc_block a b c @ [10]"]
    encode_loop_append [of rest "l + 4" "enc_block a b c"]
  by (simp add: Let_def enc_block_def)

lemmas sextets_join = sextets_join1 [simplified] sextets_join2 [simplified] sextets_join3 [simplified]

lemma decode_enc_block:
  assumes "length inb = 4" "length block = 4"
  shows "base64_decode_loop (enc_block a b c @ src) 0 inb block out =
    base64_decode_loop src 0 (enc_block a b c)
      [drop_bit 2 a, push_bit 4 (a AND 3) OR drop_bit 4 b, push_bit 2 (b AND 15) OR drop_bit 6 c, c AND 63]
      (out @ [a, b, c])"
  unfolding enc_block_def append_Cons append_Nil
  by (subst decode_loop_block [OF assms])
    (simp_all add: enc_char sextets_small sextets_join del: base64_decode_loop.simps)

lemma enc_block_no_pad: "enc_block a b c ! 2 \<noteq> 61" "enc_block a b c ! 3 \<noteq> 61"
  "length (enc_block a b c) = 4"
  by (simp_all add: enc_block_def enc_char sextets_small)

lemmas sextets_pad =
  sextets_join1 [of _ 0, simplified] sextets_join2 [of _ 0 0, simplified] sextets_join2 [of _ _ 0, simplified]
  sextets_join3 [of _ 0, simplified] sextets_small(2) [of _ 0, simplified] sextets_small(3) [of _ 0, simplified]

lemma replicate_Suc_two: "replicate 2 x = [x, x]"
  by (simp add: numeral_2_eq_2)

lemma decode_encode_loop:
  assumes "length inb = 4" "length block = 4"
  shows "\<exists>inb'. base64_decode_loop (base64_encode_loop src l []) 0 inb block out =
      (inb', out @ src @ replicate ((3 - length src mod 3) mod 3) 0) \<and>
    (src = [] \<longrightarrow> inb' = inb) \<and>
    (src \<noteq> [] \<longrightarrow> (inb' ! 2 = 61 \<longleftrightarrow> length src mod 3 = 1) \<and>
      (length src mod 3 \<noteq> 1 \<longrightarrow> (inb' ! 3 = 61 \<longleftrightarrow> length src mod 3 = 2)))"
  using assms
proof (induction src l "acc :: bytes" arbitrary: inb block out rule: base64_encode_loop.induct)
  case (1 a b c rest l acc)
  let ?blk = "[drop_bit 2 a, push_bit 4 (a AND 3) OR drop_bit 4 b, push_bit 2 (b AND 15) OR drop_bit 6 c, c AND 63]"
  let ?l = "if l + 4 \<ge> 72 then 0 else l + 4"
  have len: "length (a # b # c # rest) mod 3 = length rest mod 3"
    by simp
  have "\<exists>inb'. base64_decode_loop (base64_encode_loop rest ?l []) 0 (enc_block a b c) ?blk (out @ [a, b, c]) =
      (inb', (out @ [a, b, c]) @ rest @ replicate ((3 - length rest mod 3) mod 3) 0) \<and>
    (rest = [] \<longrightarrow> inb' = enc_block a b c) \<and>
    (rest \<noteq> [] \<longrightarrow> (inb' ! 2 = 61 \<longleftrightarrow> length rest mod 3 = 1) \<and>
      (length rest mod 3 \<noteq> 1 \<longrightarrow> (inb' ! 3 = 61 \<longleftrightarrow> length rest mod 3 = 2)))"
  proof (cases "72 \<le> l + 4")
    case True
    then show ?thesis using enc_block_no_pad(3)
      "1.IH"(1) [OF refl refl True, of "enc_block a b c" ?blk "out @ [a, b, c]"] by simp
  next
    case False
    then show ?thesis using enc_block_no_pad(3)
      "1.IH"(2) [OF refl refl False, of "enc_block a b c" ?blk "out @ [a, b, c]"] by simp
  qed
  then obtain inb' where
    d: "base64_decode_loop (base64_encode_loop rest ?l []) 0 (enc_block a b c) ?blk (out @ [a, b, c]) =
      (inb', (out @ [a, b, c]) @ rest @ replicate ((3 - length rest mod 3) mod 3) 0)" and
    i: "rest = [] \<Longrightarrow> inb' = enc_block a b c"
    "rest \<noteq> [] \<Longrightarrow> (inb' ! 2 = 61 \<longleftrightarrow> length rest mod 3 = 1) \<and>
      (length rest mod 3 \<noteq> 1 \<longrightarrow> (inb' ! 3 = 61 \<longleftrightarrow> length rest mod 3 = 2))"
    by blast
  have "base64_decode_loop (base64_encode_loop (a # b # c # rest) l []) 0 inb block out =
    base64_decode_loop (base64_encode_loop rest ?l []) 0 (enc_block a b c) ?blk (out @ [a, b, c])"
    by (simp add: encode_loop_block decode_enc_block "1.prems" del: base64_encode_loop.simps)
  then show ?case unfolding len d using i enc_block_no_pad [of a b c]
    by (cases "rest = []") auto
next
  case (2 l acc)
  then show ?case by (cases "l = 0") auto
next
  case (3 a l acc)
  then show ?case
    by (simp add: decode_loop_block enc_char sextets_small sextets_pad replicate_Suc_two
      del: base64_decode_loop.simps(2))
next
  case (4 a b l acc)
  then show ?case
    by (simp add: decode_loop_block enc_char sextets_small sextets_pad sextets_join del: base64_decode_loop.simps(2))
qed

lemma count_encode_loop:
  "length (filter (\<lambda>c. dtable c \<noteq> 0x80) (base64_encode_loop src l [])) = 4 * ((length src + 2) div 3)"
proof (induction src l "acc :: bytes" rule: base64_encode_loop.induct)
  case (1 a b c rest l acc)
  let ?l = "if l + 4 \<ge> 72 then 0 else l + 4"
  have "length (filter (\<lambda>c. dtable c \<noteq> 0x80) (enc_block a b c)) = 4"
    by (simp add: enc_block_def enc_char sextets_small)
  moreover have "length (filter (\<lambda>c. dtable c \<noteq> 0x80) (base64_encode_loop rest ?l [])) =
      4 * ((length rest + 2) div 3)"
    using "1" by (cases "l + 4 \<ge> 72") simp_all
  moreover have "(length (a # b # c # rest) + 2) div 3 = Suc ((length rest + 2) div 3)" by simp
  ultimately show ?case
    by (simp add: encode_loop_block del: base64_encode_loop.simps split: if_splits)
next
  case (2 l acc)
  then show ?case by simp
next
  case (3 a l acc)
  then show ?case by (simp add: enc_char sextets_small sextets_pad)
next
  case (4 a b l acc)
  then show ?case by (simp add: enc_char sextets_small sextets_pad)
qed

text \<open>C26. Decoding what was encoded gives the input back, for every non-empty input that fits the
  address space (the encoding of the empty input is the empty string, which the decoder rejects).\<close>

theorem base64_roundtrip:
  assumes "src \<noteq> []" "base64_encode os_malloc src = Some out"
    and "os_malloc (length (filter (\<lambda>c. dtable c \<noteq> 0x80) out) div 4 * 3)"
  shows "base64_decode os_malloc out = Some src"
proof -
  have out: "out = base64_encode_loop src 0 []"
    using assms(2) by (auto simp: base64_encode_def Let_def split: if_splits)
  obtain inb' where
    d: "base64_decode_loop out 0 (replicate 4 0) (replicate 4 0) [] =
      (inb', src @ replicate ((3 - length src mod 3) mod 3) 0)" and
    i: "inb' ! 2 = 61 \<longleftrightarrow> length src mod 3 = 1"
      "length src mod 3 \<noteq> 1 \<Longrightarrow> (inb' ! 3 = 61 \<longleftrightarrow> length src mod 3 = 2)"
    using decode_encode_loop [of "replicate 4 0" "replicate 4 0" src 0 "[]"] assms(1)
    by (auto simp: out)
  have n: "length (filter (\<lambda>c. dtable c \<noteq> 0x80) out) = 4 * ((length src + 2) div 3)"
    unfolding out by (rule count_encode_loop)
  have nz: "(length src + 2) div 3 \<noteq> 0" using assms(1) by (cases src) auto
  consider "length src mod 3 = 0" | "length src mod 3 = 1" | "length src mod 3 = 2" by linarith
  then show ?thesis
    by cases (use assms(1,3) i d n nz in \<open>simp_all add: base64_decode_def\<close>)
qed

theorem base64_roundtrip_witness:
  "base64_decode (\<lambda>_. True) (the (base64_encode (\<lambda>_. True) [102, 111, 111, 98])) = Some [102, 111, 111, 98]"
proof -
  have "base64_encode (\<lambda>_. True) [102, 111, 111, 98] = Some (base64_encode_loop [102, 111, 111, 98] 0 [])"
    by (simp add: base64_encode_def base64_olen_def Let_def del: base64_encode_loop.simps)
  then show ?thesis
    using base64_roundtrip [of "[102, 111, 111, 98]" "\<lambda>_. True"] by (simp del: base64_encode_loop.simps)
qed

end
