(* ===== verification/Wpabuf.thy ===== *)
theory Wpabuf
  imports Prelude
begin

text \<open>
  The dynamic buffer of \<^verbatim>\<open>src/utils/wpabuf.c\<close> and \<^verbatim>\<open>wpabuf.h\<close>.  A buffer is the allocated
  octet area with the fields \<^verbatim>\<open>size\<close> and \<^verbatim>\<open>used\<close>; whether the area follows the structure or is
  external (\<^verbatim>\<open>ext_data\<close>) is kept because \<^verbatim>\<open>wpabuf_resize\<close> distinguishes the two.  \<^verbatim>\<open>abort()\<close> is
  the result \<open>Abort\<close>, a failed allocation is \<open>None\<close>; the allocator is a parameter.  Sizes are
  32-bit \<^verbatim>\<open>size_t\<close> values, so the additions that wrap in C wrap here.  The locale \<open>octet_buffer\<close>
  is what the message builders rely on.
\<close>

section \<open>The structure and its operations\<close>

record wpabuf =
  wb_size :: u32
  wb_used :: u32
  wb_ext :: bool
  wb_area :: bytes

datatype 'a outcome = Abort | Done 'a

definition wpabuf_len :: "wpabuf \<Rightarrow> u32" where
  "wpabuf_len buf = wb_used buf"

definition wpabuf_tailroom :: "wpabuf \<Rightarrow> u32" where
  "wpabuf_tailroom buf = wb_size buf - wb_used buf"

text \<open>The octets in use: what \<^verbatim>\<open>wpabuf_head\<close> and \<^verbatim>\<open>wpabuf_len\<close> describe together.\<close>

definition wpabuf_contents :: "wpabuf \<Rightarrow> bytes" where
  "wpabuf_contents buf = take (unat (wb_used buf)) (wb_area buf)"

definition wpabuf_alloc :: "(u32 \<Rightarrow> bool) \<Rightarrow> u32 \<Rightarrow> wpabuf option" where
  "wpabuf_alloc os_zalloc len =
     (if os_zalloc len
      then Some \<lparr>wb_size = len, wb_used = 0, wb_ext = False, wb_area = replicate (unat len) 0\<rparr>
      else None)"

definition wpabuf_alloc_ext_data :: "(u32 \<Rightarrow> bool) \<Rightarrow> bytes \<Rightarrow> u32 \<Rightarrow> wpabuf option" where
  "wpabuf_alloc_ext_data os_zalloc data len =
     (if os_zalloc 0
      then Some \<lparr>wb_size = len, wb_used = len, wb_ext = True, wb_area = data\<rparr>
      else None)"

text \<open>\<^verbatim>\<open>wpabuf_put\<close> returns the write position; the caller then fills \<open>len\<close> octets there, which
  \<open>wpabuf_put_data\<close> does.\<close>

definition wpabuf_put :: "wpabuf \<Rightarrow> u32 \<Rightarrow> (nat \<times> wpabuf) outcome" where
  "wpabuf_put buf len =
     (let tmp = unat (wb_used buf);
          buf = buf\<lparr>wb_used := wb_used buf + len\<rparr>
      in if wb_used buf > wb_size buf then Abort else Done (tmp, buf))"

definition wpabuf_put_data :: "wpabuf \<Rightarrow> bytes \<Rightarrow> wpabuf outcome" where
  "wpabuf_put_data buf data =
     (case wpabuf_put buf (word_of_nat (length data)) of
        Abort \<Rightarrow> Abort
      | Done (pos, buf) \<Rightarrow> Done (buf\<lparr>wb_area := overwrite pos data (wb_area buf)\<rparr>))"

definition wpabuf_put_u8 :: "wpabuf \<Rightarrow> u8 \<Rightarrow> wpabuf outcome" where
  "wpabuf_put_u8 buf data = wpabuf_put_data buf [data]"

definition wpabuf_put_le16 :: "wpabuf \<Rightarrow> u16 \<Rightarrow> wpabuf outcome" where
  "wpabuf_put_le16 buf data = wpabuf_put_data buf (WPA_PUT_LE16 data)"

definition wpabuf_put_be16 :: "wpabuf \<Rightarrow> u16 \<Rightarrow> wpabuf outcome" where
  "wpabuf_put_be16 buf data = wpabuf_put_data buf (WPA_PUT_BE16 data)"

definition wpabuf_put_be24 :: "wpabuf \<Rightarrow> u32 \<Rightarrow> wpabuf outcome" where
  "wpabuf_put_be24 buf data = wpabuf_put_data buf (WPA_PUT_BE24 data)"

definition wpabuf_put_be32 :: "wpabuf \<Rightarrow> u32 \<Rightarrow> wpabuf outcome" where
  "wpabuf_put_be32 buf data = wpabuf_put_data buf (WPA_PUT_BE32 data)"

definition wpabuf_put_buf :: "wpabuf \<Rightarrow> wpabuf \<Rightarrow> wpabuf outcome" where
  "wpabuf_put_buf dst src = wpabuf_put_data dst (wpabuf_contents src)"

definition wpabuf_alloc_copy :: "(u32 \<Rightarrow> bool) \<Rightarrow> bytes \<Rightarrow> wpabuf option outcome" where
  "wpabuf_alloc_copy os_zalloc data =
     (case wpabuf_alloc os_zalloc (word_of_nat (length data)) of
        None \<Rightarrow> Done None
      | Some buf \<Rightarrow> (case wpabuf_put_data buf data of Abort \<Rightarrow> Abort | Done buf \<Rightarrow> Done (Some buf)))"

definition wpabuf_dup :: "(u32 \<Rightarrow> bool) \<Rightarrow> wpabuf \<Rightarrow> wpabuf option outcome" where
  "wpabuf_dup os_zalloc src =
     (case wpabuf_alloc os_zalloc (wpabuf_len src) of
        None \<Rightarrow> Done None
      | Some buf \<Rightarrow>
          (case wpabuf_put_data buf (wpabuf_contents src) of
             Abort \<Rightarrow> Abort
           | Done buf \<Rightarrow> Done (Some buf)))"

text \<open>\<^verbatim>\<open>wpabuf_resize\<close>: return code and the buffer afterwards.  A reallocation keeps the first
  \<^verbatim>\<open>used\<close> octets and zeroes the added ones.\<close>

definition wpabuf_resize :: "(u32 \<Rightarrow> bool) \<Rightarrow> wpabuf option \<Rightarrow> u32 \<Rightarrow> int \<times> wpabuf option" where
  "wpabuf_resize os_alloc buf_opt add_len =
     (case buf_opt of
        None \<Rightarrow>
          (let buf = wpabuf_alloc os_alloc add_len in (if buf = None then -1 else 0, buf))
      | Some buf \<Rightarrow>
          if wb_used buf + add_len > wb_size buf then
            (if os_alloc (wb_used buf + add_len) then
               (0, Some (buf\<lparr>wb_area := take (unat (wb_used buf)) (wb_area buf) @ replicate (unat add_len) 0,
                             wb_size := wb_used buf + add_len\<rparr>))
             else (-1, Some buf))
          else (0, Some buf))"

text \<open>\<^verbatim>\<open>wpabuf_concat\<close> frees both inputs; the result is the buffer it returns.\<close>

definition opt_put_buf :: "wpabuf \<Rightarrow> wpabuf option \<Rightarrow> wpabuf outcome" where
  "opt_put_buf n src = (case src of None \<Rightarrow> Done n | Some b \<Rightarrow> wpabuf_put_buf n b)"

definition wpabuf_concat ::
  "(u32 \<Rightarrow> bool) \<Rightarrow> wpabuf option \<Rightarrow> wpabuf option \<Rightarrow> wpabuf option outcome" where
  "wpabuf_concat os_zalloc a b =
     (if b = None then Done a else
      let len = (case a of None \<Rightarrow> 0 | Some x \<Rightarrow> wpabuf_len x);
          len = len + (case b of None \<Rightarrow> 0 | Some x \<Rightarrow> wpabuf_len x)
      in case wpabuf_alloc os_zalloc len of
           None \<Rightarrow> Done None
         | Some n \<Rightarrow>
             (case opt_put_buf n a of
                Abort \<Rightarrow> Abort
              | Done n \<Rightarrow> (case opt_put_buf n b of Abort \<Rightarrow> Abort | Done n \<Rightarrow> Done (Some n))))"

definition wpabuf_zeropad :: "(u32 \<Rightarrow> bool) \<Rightarrow> wpabuf option \<Rightarrow> u32 \<Rightarrow> wpabuf option outcome" where
  "wpabuf_zeropad os_zalloc buf_opt len =
     (case buf_opt of
        None \<Rightarrow> Done None
      | Some buf \<Rightarrow>
          let blen = wpabuf_len buf in
          if blen \<ge> len then Done (Some buf) else
          case wpabuf_alloc os_zalloc len of
            None \<Rightarrow> Done None
          | Some ret \<Rightarrow>
              (case wpabuf_put_data ret (replicate (unat (len - blen)) 0) of
                 Abort \<Rightarrow> Abort
               | Done ret \<Rightarrow>
                   (case wpabuf_put_buf ret buf of Abort \<Rightarrow> Abort | Done ret \<Rightarrow> Done (Some ret))))"

section \<open>Well-formed buffers\<close>

definition wpabuf_wf :: "wpabuf \<Rightarrow> bool" where
  "wpabuf_wf buf \<longleftrightarrow> wb_used buf \<le> wb_size buf \<and> length (wb_area buf) = unat (wb_size buf)"

lemma length_wpabuf_contents [simp]:
  "wpabuf_wf buf \<Longrightarrow> length (wpabuf_contents buf) = unat (wb_used buf)"
  by (simp add: wpabuf_wf_def wpabuf_contents_def word_le_nat_alt)

lemma wpabuf_alloc_wf:
  assumes "wpabuf_alloc os_zalloc len = Some buf"
  shows "wpabuf_wf buf \<and> wpabuf_contents buf = [] \<and> wb_size buf = len \<and> wb_used buf = 0"
  using assms by (auto simp: wpabuf_alloc_def wpabuf_wf_def wpabuf_contents_def split: if_splits)

text \<open>Putting data into a buffer: either it fits into the tail room and is appended, or the program
  aborts.  The hypothesis excludes the wrap-around of \<^verbatim>\<open>used + len\<close>, which the code does not test.\<close>

lemma wpabuf_put_data_cases:
  assumes wf: "wpabuf_wf buf" and nw: "unat (wb_used buf) + length data < 2 ^ 32"
  shows "if unat (wb_used buf) + length data \<le> unat (wb_size buf)
    then \<exists>buf'. wpabuf_put_data buf data = Done buf' \<and> wpabuf_wf buf' \<and>
      wpabuf_contents buf' = wpabuf_contents buf @ data \<and> wb_size buf' = wb_size buf \<and>
      unat (wb_used buf') = unat (wb_used buf) + length data
    else wpabuf_put_data buf data = Abort"
proof -
  have u: "unat (wb_used buf + word_of_nat (length data)) = unat (wb_used buf) + length data"
    using nw by (simp add: unat_word_ariths unat_of_nat)
  have le: "unat (wb_used buf) \<le> length (wb_area buf)"
    using wf by (simp add: wpabuf_wf_def word_le_nat_alt)
  show ?thesis using wf le
    by (auto simp: wpabuf_put_data_def wpabuf_put_def Let_def word_less_nat_alt u wpabuf_wf_def
        word_le_nat_alt wpabuf_contents_def overwrite_def)
qed

section \<open>The interface the message builders use\<close>

text \<open>A message is a sequence of puts.\<close>

fun put_list :: "('b \<Rightarrow> bytes \<Rightarrow> 'b outcome) \<Rightarrow> 'b \<Rightarrow> bytes list \<Rightarrow> 'b outcome" where
  "put_list put b [] = Done b"
| "put_list put b (d # ds) = (case put b d of Abort \<Rightarrow> Abort | Done b' \<Rightarrow> put_list put b' ds)"

text \<open>An octet buffer appends to its contents as long as there is room, and aborts otherwise.\<close>

locale octet_buffer =
  fixes put :: "'b \<Rightarrow> bytes \<Rightarrow> 'b outcome"
    and contents :: "'b \<Rightarrow> bytes"
    and cap :: "'b \<Rightarrow> nat"
    and wf :: "'b \<Rightarrow> bool"
  assumes put_fits: "wf b \<Longrightarrow> length (contents b) + length d \<le> cap b \<Longrightarrow>
      \<exists>b'. put b d = Done b' \<and> wf b' \<and> contents b' = contents b @ d \<and> cap b' = cap b"
    and put_full: "wf b \<Longrightarrow> cap b < length (contents b) + length d \<Longrightarrow>
      length (contents b) + length d < 2 ^ 32 \<Longrightarrow> put b d = Abort"
    and room: "wf b \<Longrightarrow> length (contents b) \<le> cap b"
begin

lemma put_all_fits:
  assumes "wf b" "length (contents b) + length (concat ds) \<le> cap b"
  shows "\<exists>b'. put_list put b ds = Done b' \<and> wf b' \<and> contents b' = contents b @ concat ds \<and> cap b' = cap b"
  using assms
proof (induction ds arbitrary: b)
  case Nil
  then show ?case by simp
next
  case (Cons d ds)
  then obtain b' where b': "put b d = Done b'" "wf b'" "contents b' = contents b @ d" "cap b' = cap b"
    using put_fits [of b d] by auto
  with Cons.IH [of b'] Cons.prems show ?case by auto
qed

lemma put_all_overflow:
  assumes "wf b" "cap b < length (contents b) + length (concat ds)"
    and "length (contents b) + length (concat ds) < 2 ^ 32"
  shows "put_list put b ds = Abort"
  using assms
proof (induction ds arbitrary: b)
  case Nil
  then show ?case using room [of b] by simp
next
  case (Cons d ds)
  show ?case
  proof (cases "length (contents b) + length d \<le> cap b")
    case True
    then obtain b' where b': "put b d = Done b'" "wf b'" "contents b' = contents b @ d" "cap b' = cap b"
      using put_fits [of b d] Cons.prems by auto
    with Cons.IH [of b'] Cons.prems show ?thesis by simp
  next
    case False
    then show ?thesis using put_full [of b d] Cons.prems by simp
  qed
qed

end

interpretation wb: octet_buffer wpabuf_put_data wpabuf_contents "\<lambda>b. unat (wb_size b)" wpabuf_wf
proof
  fix b d
  assume wf: "wpabuf_wf b"
  have sz: "unat (wb_size b) < 2 ^ 32" using unsigned_less [of "wb_size b"] by simp
  show "length (wpabuf_contents b) + length d \<le> unat (wb_size b) \<Longrightarrow>
      \<exists>b'. wpabuf_put_data b d = Done b' \<and> wpabuf_wf b' \<and>
        wpabuf_contents b' = wpabuf_contents b @ d \<and> unat (wb_size b') = unat (wb_size b)"
    using wpabuf_put_data_cases [OF wf, of d] wf sz by auto
  show "unat (wb_size b) < length (wpabuf_contents b) + length d \<Longrightarrow>
      length (wpabuf_contents b) + length d < 2 ^ 32 \<Longrightarrow> wpabuf_put_data b d = Abort"
    using wpabuf_put_data_cases [OF wf, of d] wf by auto
  show "length (wpabuf_contents b) \<le> unat (wb_size b)"
    using wf by (simp add: wpabuf_wf_def word_le_nat_alt)
qed

section \<open>Copying, joining, padding and growing buffers\<close>

lemma opt_put_buf_fits:
  assumes "wpabuf_wf n" "\<And>x. src = Some x \<Longrightarrow> wpabuf_wf x"
    and "length (wpabuf_contents n) + length (case src of None \<Rightarrow> [] | Some x \<Rightarrow> wpabuf_contents x) \<le> unat (wb_size n)"
  shows "\<exists>n'. opt_put_buf n src = Done n' \<and> wpabuf_wf n' \<and> wb_size n' = wb_size n \<and>
    wpabuf_contents n' = wpabuf_contents n @ (case src of None \<Rightarrow> [] | Some x \<Rightarrow> wpabuf_contents x)"
proof (cases src)
  case None
  then show ?thesis using assms(1) by (simp add: opt_put_buf_def)
next
  case (Some x)
  then show ?thesis using wb.put_fits [OF assms(1), of "wpabuf_contents x"] assms(3)
    by (auto simp: opt_put_buf_def wpabuf_put_buf_def word_unat_eq_iff)
qed

text \<open>Concatenating two buffers whose lengths do not overflow \<^verbatim>\<open>size_t\<close> never aborts, and gives the
  concatenated contents (or \<^verbatim>\<open>NULL\<close> when the allocation fails); a missing buffer counts as empty.\<close>

lemma wpabuf_concat_contents:
  assumes "\<And>x. a = Some x \<Longrightarrow> wpabuf_wf x" "wpabuf_wf y"
    and "length (case a of None \<Rightarrow> [] | Some x \<Rightarrow> wpabuf_contents x) + length (wpabuf_contents y) < 2 ^ 32"
  shows "wpabuf_concat os_zalloc a (Some y) = Done None \<or>
    (\<exists>n. wpabuf_concat os_zalloc a (Some y) = Done (Some n) \<and> wpabuf_wf n \<and>
      wpabuf_contents n = (case a of None \<Rightarrow> [] | Some x \<Rightarrow> wpabuf_contents x) @ wpabuf_contents y)"
proof -
  define la where "la = (case a of None \<Rightarrow> 0 | Some x \<Rightarrow> wpabuf_len x)"
  have la: "unat la = length (case a of None \<Rightarrow> [] | Some x \<Rightarrow> wpabuf_contents x)"
    using assms(1) by (cases a) (simp_all add: la_def wpabuf_len_def)
  have sum: "unat (la + wpabuf_len y) = unat la + length (wpabuf_contents y)"
    using assms(2,3) la by (simp add: unat_word_ariths wpabuf_len_def)
  show ?thesis
  proof (cases "wpabuf_alloc os_zalloc (la + wpabuf_len y)")
    case None
    then show ?thesis by (simp add: wpabuf_concat_def la_def)
  next
    case (Some n)
    from wpabuf_alloc_wf [OF this] have n: "wpabuf_wf n" "wpabuf_contents n = []" "wb_size n = la + wpabuf_len y"
      by simp_all
    obtain n1 where n1: "opt_put_buf n a = Done n1" "wpabuf_wf n1" "wb_size n1 = wb_size n"
      "wpabuf_contents n1 = (case a of None \<Rightarrow> [] | Some x \<Rightarrow> wpabuf_contents x)"
      using opt_put_buf_fits [OF n(1), of a] assms(1) n la sum by auto
    obtain n2 where "opt_put_buf n1 (Some y) = Done n2" "wpabuf_wf n2"
      "wpabuf_contents n2 = wpabuf_contents n1 @ wpabuf_contents y"
      using opt_put_buf_fits [OF n1(2), of "Some y"] assms(2) n n1 la sum by auto
    with n1 Some show ?thesis by (simp add: wpabuf_concat_def la_def)
  qed
qed

lemma wpabuf_resize_room:
  assumes "wpabuf_wf buf" "wpabuf_resize os_alloc (Some buf) add_len = (0, Some buf')"
    and "unat (wb_used buf) + unat add_len < 2 ^ 32"
  shows "wpabuf_wf buf'" "wpabuf_contents buf' = wpabuf_contents buf"
    "unat (wb_used buf') + unat add_len \<le> unat (wb_size buf')"
proof -
  have u: "unat (wb_used buf + add_len) = unat (wb_used buf) + unat add_len"
    using assms(3) by (simp add: unat_word_ariths)
  have le: "unat (wb_used buf) \<le> length (wb_area buf)"
    using assms(1) by (simp add: wpabuf_wf_def word_le_nat_alt)
  show "wpabuf_wf buf'" "wpabuf_contents buf' = wpabuf_contents buf"
    "unat (wb_used buf') + unat add_len \<le> unat (wb_size buf')"
    using assms u le
    by (auto simp: wpabuf_resize_def wpabuf_wf_def wpabuf_contents_def word_less_nat_alt word_le_nat_alt
        split: if_splits)
qed

lemma wpabuf_zeropad_contents:
  assumes "wpabuf_wf buf" "wb_used buf < len"
  shows "wpabuf_zeropad os_zalloc (Some buf) len = Done None \<or>
    (\<exists>ret. wpabuf_zeropad os_zalloc (Some buf) len = Done (Some ret) \<and> wpabuf_wf ret \<and>
      wpabuf_contents ret = replicate (unat len - unat (wb_used buf)) 0 @ wpabuf_contents buf)"
proof (cases "wpabuf_alloc os_zalloc len")
  case None
  then show ?thesis using assms(2)
    by (auto simp: wpabuf_zeropad_def wpabuf_len_def Let_def word_le_nat_alt word_less_nat_alt)
next
  case (Some n)
  from wpabuf_alloc_wf [OF this] have n: "wpabuf_wf n" "wpabuf_contents n = []" "wb_size n = len"
    by simp_all
  have d: "unat (len - wb_used buf) = unat len - unat (wb_used buf)"
    using assms(2) by (simp add: unat_sub word_le_nat_alt word_less_nat_alt)
  obtain n1 where n1: "wpabuf_put_data n (replicate (unat (len - wb_used buf)) 0) = Done n1" "wpabuf_wf n1"
    "wpabuf_contents n1 = replicate (unat (len - wb_used buf)) 0" "unat (wb_size n1) = unat len"
    using wb.put_fits [OF n(1), of "replicate (unat (len - wb_used buf)) 0"] n d by auto
  obtain n2 where "wpabuf_put_data n1 (wpabuf_contents buf) = Done n2" "wpabuf_wf n2"
    "wpabuf_contents n2 = wpabuf_contents n1 @ wpabuf_contents buf"
    using wb.put_fits [OF n1(2), of "wpabuf_contents buf"] n1 d assms by (auto simp: word_less_nat_alt)
  moreover have "\<not> len \<le> wb_used buf"
    using assms(2) by (simp add: word_le_nat_alt word_less_nat_alt)
  ultimately show ?thesis using n1 Some d
    by (simp add: wpabuf_zeropad_def wpabuf_len_def wpabuf_put_buf_def Let_def)
qed

end
