(* ===== verification/Eap_Common.thy ===== *)
theory Eap_Common
  imports Wpabuf
begin

text \<open>
  EAP packets (\<^verbatim>\<open>src/eap_common/eap_defs.h\<close> and \<^verbatim>\<open>eap_common.c\<close>): building a packet with the
  legacy or the expanded header, and validating the header of a received one.  Packets are read from
  the contents of a \<^verbatim>\<open>wpabuf\<close>.
\<close>

section \<open>Codes and types\<close>

abbreviation (input) EAP_CODE_REQUEST :: u8 where "EAP_CODE_REQUEST \<equiv> 1"
abbreviation (input) EAP_CODE_RESPONSE :: u8 where "EAP_CODE_RESPONSE \<equiv> 2"
abbreviation (input) EAP_CODE_SUCCESS :: u8 where "EAP_CODE_SUCCESS \<equiv> 3"
abbreviation (input) EAP_CODE_FAILURE :: u8 where "EAP_CODE_FAILURE \<equiv> 4"

abbreviation (input) EAP_TYPE_NONE :: u32 where "EAP_TYPE_NONE \<equiv> 0"
abbreviation (input) EAP_TYPE_IDENTITY :: u32 where "EAP_TYPE_IDENTITY \<equiv> 1"
abbreviation (input) EAP_TYPE_NOTIFICATION :: u32 where "EAP_TYPE_NOTIFICATION \<equiv> 2"
abbreviation (input) EAP_TYPE_NAK :: u32 where "EAP_TYPE_NAK \<equiv> 3"
abbreviation (input) EAP_TYPE_EXPANDED :: u32 where "EAP_TYPE_EXPANDED \<equiv> 254"
abbreviation (input) EAP_VENDOR_IETF :: u32 where "EAP_VENDOR_IETF \<equiv> 0"

text \<open>The fields of \<^verbatim>\<open>struct eap_hdr\<close> in the first four octets of a packet.\<close>

abbreviation (input) eap_hdr_code :: "bytes \<Rightarrow> u8" where "eap_hdr_code m \<equiv> m ! 0"
abbreviation (input) eap_hdr_identifier :: "bytes \<Rightarrow> u8" where "eap_hdr_identifier m \<equiv> m ! 1"
abbreviation (input) eap_hdr_length :: "bytes \<Rightarrow> u16" where "eap_hdr_length m \<equiv> WPA_GET_BE16 (drop 2 m)"

definition eap_hdr :: "u8 \<Rightarrow> u8 \<Rightarrow> u16 \<Rightarrow> bytes" where
  "eap_hdr code identifier len = [code, identifier] @ WPA_PUT_BE16 len"

section \<open>The operations\<close>

text \<open>The result is the payload: the \<^verbatim>\<open>*plen\<close> octets from the returned position on.\<close>

definition eap_hdr_validate :: "u32 \<Rightarrow> u32 \<Rightarrow> bytes \<Rightarrow> bytes option" where
  "eap_hdr_validate vendor eap_type msg =
     (if length msg < 4 then None else
      let len = unat (eap_hdr_length msg) in
      if len < 4 + 1 \<or> len > length msg then None else
      let pos = drop 4 msg in
      if ucast (pos ! 0) = EAP_TYPE_EXPANDED then
        (if len < 4 + 8 then None else
         let pos = drop 1 pos; exp_vendor = WPA_GET_BE24 pos;
             pos = drop 3 pos; exp_type = WPA_GET_BE32 pos; pos = drop 4 pos in
         if exp_vendor \<noteq> vendor \<or> exp_type \<noteq> eap_type then None
         else Some (take (len - 4 - 8) pos))
      else if vendor \<noteq> EAP_VENDOR_IETF \<or> ucast (pos ! 0) \<noteq> eap_type then None
      else Some (take (len - 4 - 1) (drop 1 pos)))"

definition eap_msg_alloc ::
  "(u32 \<Rightarrow> bool) \<Rightarrow> u32 \<Rightarrow> u32 \<Rightarrow> u32 \<Rightarrow> u8 \<Rightarrow> u8 \<Rightarrow> wpabuf option outcome" where
  "eap_msg_alloc os_zalloc vendor type payload_len code identifier =
     (let len = 4 + (if vendor = EAP_VENDOR_IETF then 1 else 8) + payload_len in
      case wpabuf_alloc os_zalloc len of
        None \<Rightarrow> Done None
      | Some buf \<Rightarrow>
          (case (if vendor = EAP_VENDOR_IETF
                 then put_list wpabuf_put_data buf [eap_hdr code identifier (ucast len), [ucast type]]
                 else put_list wpabuf_put_data buf [eap_hdr code identifier (ucast len), [ucast EAP_TYPE_EXPANDED],
                        WPA_PUT_BE24 vendor, WPA_PUT_BE32 type]) of
             Abort \<Rightarrow> Abort
           | Done buf \<Rightarrow> Done (Some buf)))"

definition eap_update_len :: "wpabuf \<Rightarrow> wpabuf" where
  "eap_update_len msg =
     (if wpabuf_len msg < 4 then msg
      else msg\<lparr>wb_area := overwrite 2 (WPA_PUT_BE16 (ucast (wpabuf_len msg))) (wb_area msg)\<rparr>)"

definition eap_get_id :: "bytes \<Rightarrow> u8" where
  "eap_get_id msg = (if length msg < 4 then 0 else eap_hdr_identifier msg)"

definition eap_get_type :: "bytes \<Rightarrow> u32" where
  "eap_get_type msg = (if length msg < 4 + 1 then EAP_TYPE_NONE else ucast (msg ! 4))"

section \<open>A built packet validates\<close>

lemma length_eap_hdr [simp]: "length (eap_hdr c i l) = 4"
  by (simp add: eap_hdr_def)

lemma eap_hdr_fields [simp]:
  "(eap_hdr c i l @ r) ! 0 = c" "(eap_hdr c i l @ r) ! Suc 0 = i"
  "WPA_GET_BE16 (drop 2 (eap_hdr c i l @ r)) = l" "drop 4 (eap_hdr c i l @ r) = r"
  by (simp_all add: eap_hdr_def)

lemma eap_hdr_split:
  "eap_hdr c i l @ r = c # i # (WPA_PUT_BE16 l @ r)"
  by (simp add: eap_hdr_def)

lemma u24_from_octets:
  fixes v :: u32
  assumes "\<And>n. bit v n \<Longrightarrow> n < 24"
  shows "push_bit 16 (ucast (ucast (drop_bit 16 v) :: u8)) OR
    push_bit 8 (ucast (ucast (drop_bit 8 v) :: u8)) OR ucast (ucast v :: u8) = v" (is "?w = v")
proof (rule bit_word_eqI)
  fix n assume "n < LENGTH(32)"
  then consider "n < 8" | "8 \<le> n" "n < 16" | "16 \<le> n" "n < 24" | "24 \<le> n" "n < 32" by fastforce
  then show "bit ?w n = bit v n" using assms [of n] by cases (auto simp: bit_simps)
qed

lemma WPA_BE24_roundtrip:
  assumes "v < 2 ^ 24"
  shows "WPA_GET_BE24 (WPA_PUT_BE24 v @ r) = v"
proof -
  have "take_bit 24 v = v"
    using assms by (simp add: word_less_nat_alt take_bit_eq_mod word_unat_eq_iff unat_mod)
  then have "bit v n \<Longrightarrow> n < 24" for n by (metis bit_take_bit_iff)
  then show ?thesis by (simp add: WPA_GET_BE24_def WPA_PUT_BE24_def u24_from_octets)
qed

lemma WPA_PUT_split3: "drop 3 (WPA_PUT_BE24 v @ r) = r" "drop 4 (WPA_PUT_BE32 v @ r) = r"
  by simp_all

text \<open>The header of a packet built by \<^verbatim>\<open>eap_msg_alloc\<close>, as octets.\<close>

definition eap_prefix :: "u32 \<Rightarrow> u32 \<Rightarrow> u32 \<Rightarrow> u8 \<Rightarrow> u8 \<Rightarrow> bytes" where
  "eap_prefix vendor type len code identifier =
     eap_hdr code identifier (ucast len) @
     (if vendor = EAP_VENDOR_IETF then [ucast type] else [254] @ WPA_PUT_BE24 vendor @ WPA_PUT_BE32 type)"

lemma eap_msg_alloc_contents:
  assumes "eap_msg_alloc os_zalloc vendor type payload_len code identifier = Done (Some buf)"
    and "unat payload_len + 12 < 2 ^ 32"
  shows "wpabuf_wf buf" "unat (wb_size buf) = 4 + (if vendor = 0 then 1 else 8) + unat payload_len"
    "wpabuf_contents buf =
      eap_prefix vendor type (4 + (if vendor = 0 then 1 else 8) + payload_len) code identifier"
proof -
  define len where "len = 4 + (if vendor = 0 then 1 else 8) + payload_len"
  have len: "unat len = 4 + (if vendor = 0 then 1 else 8) + unat payload_len"
    using assms(2) by (simp add: len_def unat_word_ariths)
  obtain b0 where b0: "wpabuf_alloc os_zalloc len = Some b0"
    using assms(1) by (cases "wpabuf_alloc os_zalloc len") (auto simp: eap_msg_alloc_def len_def)
  from wpabuf_alloc_wf [OF b0] have w: "wpabuf_wf b0" "wpabuf_contents b0 = []" "wb_size b0 = len" by simp_all
  define ds where "ds = (if vendor = 0 then [eap_hdr code identifier (ucast len), [ucast type]]
    else [eap_hdr code identifier (ucast len), [ucast (254 :: u32)], WPA_PUT_BE24 vendor, WPA_PUT_BE32 type])"
  have "length (concat ds) \<le> unat len" using len by (simp add: ds_def)
  then obtain b1 where b1: "put_list wpabuf_put_data b0 ds = Done b1" "wpabuf_wf b1"
    "wpabuf_contents b1 = concat ds" "unat (wb_size b1) = unat len"
    using wb.put_all_fits [OF w(1), of ds] w by auto
  have "eap_msg_alloc os_zalloc vendor type payload_len code identifier = Done (Some b1)"
    using b0 b1(1) unfolding eap_msg_alloc_def Let_def len_def [symmetric] ds_def
    by (simp split: if_splits)
  with assms(1) have "buf = b1" by simp
  with b1 len show "wpabuf_wf buf"
    "unat (wb_size buf) = 4 + (if vendor = 0 then 1 else 8) + unat payload_len"
    "wpabuf_contents buf = eap_prefix vendor type (4 + (if vendor = 0 then 1 else 8) + payload_len) code identifier"
    by (simp_all add: ds_def eap_prefix_def len_def [symmetric])
qed

lemma eap_hdr_validate_prefix:
  assumes "vendor = 0 \<Longrightarrow> type < 254" "vendor < 2 ^ 24"
    and "4 + (if vendor = 0 then 1 else 8) + length payload < 2 ^ 16"
    and "unat len = 4 + (if vendor = 0 then 1 else 8) + length payload"
  shows "eap_hdr_validate vendor type (eap_prefix vendor type len code identifier @ payload) = Some payload"
proof -
  have l: "unat (ucast len :: u16) = unat len"
    using assms(3,4) by (simp add: unsigned_ucast_eq take_bit_nat_eq_self)
  have t: "vendor = 0 \<Longrightarrow> ucast (ucast type :: u8) = type \<and> type \<noteq> 254"
    using assms(1)
    by (auto simp: word_unat_eq_iff word_less_nat_alt unsigned_ucast_eq take_bit_nat_eq_self unsigned_take_bit_eq)
  show ?thesis
    unfolding eap_hdr_validate_def eap_prefix_def append_assoc eap_hdr_fields
    using l t assms by (auto simp: Let_def WPA_BE24_roundtrip)
qed

text \<open>C27. A packet built by \<^verbatim>\<open>eap_msg_alloc\<close> and filled with the announced number of payload octets
  passes \<^verbatim>\<open>eap_hdr_validate\<close> for the same vendor and type, which returns exactly that payload; the
  put does not abort.  The length field of the header has 16 bits.\<close>

theorem eap_msg_roundtrip:
  assumes "eap_msg_alloc os_zalloc vendor type payload_len code identifier = Done (Some buf)"
    and "length payload = unat payload_len" "unat payload_len + 12 < 2 ^ 16"
    and "vendor = 0 \<longrightarrow> type < 254" "vendor < 2 ^ 24"
  shows "\<exists>msg. wpabuf_put_data buf payload = Done msg \<and> wpabuf_wf msg \<and>
    eap_hdr_validate vendor type (wpabuf_contents msg) = Some payload \<and>
    eap_get_id (wpabuf_contents msg) = identifier"
proof -
  let ?len = "4 + (if vendor = 0 then 1 else 8) + payload_len"
  have nw: "unat payload_len + 12 < 2 ^ 32" using assms(3) by simp
  note b = eap_msg_alloc_contents [OF assms(1) nw]
  have l: "unat ?len = 4 + (if vendor = 0 then 1 else 8) + length payload"
    using assms(2,3) by (simp add: unat_word_ariths)
  have "length (eap_prefix vendor type ?len code identifier) = 4 + (if vendor = 0 then 1 else 8)"
    by (simp add: eap_prefix_def)
  then obtain msg where m: "wpabuf_put_data buf payload = Done msg" "wpabuf_wf msg"
    "wpabuf_contents msg = eap_prefix vendor type ?len code identifier @ payload"
    using wb.put_fits [OF b(1), of payload] b assms(2) by auto
  have "eap_hdr_validate vendor type (wpabuf_contents msg) = Some payload"
    unfolding m(3) by (rule eap_hdr_validate_prefix) (use assms l in auto)
  moreover have "eap_get_id (wpabuf_contents msg) = identifier"
    by (simp add: m(3) eap_get_id_def eap_prefix_def eap_hdr_def)
  ultimately show ?thesis using m by blast
qed

theorem eap_msg_roundtrip_witness:
  "\<exists>buf msg. eap_msg_alloc (\<lambda>_. True) 0 1 3 EAP_CODE_RESPONSE 7 = Done (Some buf) \<and>
     wpabuf_put_data buf [98, 111, 98] = Done msg \<and>
     eap_hdr_validate 0 1 (wpabuf_contents msg) = Some [98, 111, 98]"
proof -
  obtain buf where b: "eap_msg_alloc (\<lambda>_. True) 0 1 3 EAP_CODE_RESPONSE 7 = Done (Some buf)"
    by (simp add: eap_msg_alloc_def wpabuf_alloc_def wpabuf_put_data_def wpabuf_put_def Let_def)
  show ?thesis using b eap_msg_roundtrip [OF b, of "[98, 111, 98]"] by auto
qed

text \<open>The validated payload lies inside the packet: the position and length the code returns never
  reach behind the received octets.\<close>

lemma eap_hdr_validate_inside:
  assumes "eap_hdr_validate vendor eap_type msg = Some payload"
  shows "\<exists>pre post. msg = pre @ payload @ post \<and> 5 \<le> length pre"
proof -
  have split: "xs = take m xs @ take n (drop m xs) @ drop n (drop m xs)" for m n and xs :: bytes
    by (metis append_take_drop_id)
  obtain m n where "payload = take n (drop m msg)" "5 \<le> m" "m \<le> length msg"
  proof (cases "ucast (drop 4 msg ! 0) = (254 :: u32)")
    case True
    then have "payload = take (unat (eap_hdr_length msg) - 12) (drop 12 msg)"
      "12 \<le> unat (eap_hdr_length msg)" "unat (eap_hdr_length msg) \<le> length msg"
      using assms by (auto simp: eap_hdr_validate_def Let_def split: if_splits)
    then show ?thesis using that [of "unat (eap_hdr_length msg) - 12" 12] by simp
  next
    case False
    then have "payload = take (unat (eap_hdr_length msg) - 5) (drop 5 msg)"
      "5 \<le> unat (eap_hdr_length msg)" "unat (eap_hdr_length msg) \<le> length msg"
      using assms by (auto simp: eap_hdr_validate_def Let_def split: if_splits)
    then show ?thesis using that [of "unat (eap_hdr_length msg) - 5" 5] by simp
  qed
  then show ?thesis using split [of msg m n] by (metis length_take min_absorb2)
qed

end
