(* ===== verification/Eap_If.thy ===== *)
theory Eap_If
  imports Prelude
begin

text \<open>
  The variables shared by the EAPOL state machines, the EAP server state machine and the AAA client:
  \<^verbatim>\<open>struct eap_eapol_interface\<close> of \<^verbatim>\<open>src/eap_server/eap.h\<close>.  A pointer to a buffer is the optional
  contents of the buffer; the length fields that accompany the key pointers are the lengths of the
  lists.
\<close>

record eap_eapol_interface =
  \<comment> \<open>Lower layer to full authenticator variables\<close>
  eapResp :: bool
  eapRespData :: "bytes option"
  portEnabled :: bool
  retransWhile :: int
  eapRestart :: bool
  eapSRTT :: int
  eapRTTVAR :: int
  \<comment> \<open>Full authenticator to lower layer variables\<close>
  eapReq :: bool
  eapNoReq :: bool
  eapSuccess :: bool
  eapFail :: bool
  eapTimeout :: bool
  eapReqData :: "bytes option"
  eapKeyData :: "bytes option"
  eapKeyAvailable :: bool
  \<comment> \<open>AAA interface to full authenticator variables\<close>
  aaaEapReq :: bool
  aaaEapNoReq :: bool
  aaaSuccess :: bool
  aaaFail :: bool
  aaaEapReqData :: "bytes option"
  aaaEapKeyData :: "bytes option"
  aaaEapKeyAvailable :: bool
  aaaMethodTimeout :: int
  \<comment> \<open>Full authenticator to AAA interface variables\<close>
  aaaEapResp :: bool
  aaaEapRespData :: "bytes option"
  aaaTimeout :: bool

text \<open>The interface as \<^verbatim>\<open>os_zalloc\<close> leaves it.\<close>

definition eap_if_zero :: eap_eapol_interface where
  "eap_if_zero =
     \<lparr>eapResp = False, eapRespData = None, portEnabled = False, retransWhile = 0, eapRestart = False,
      eapSRTT = 0, eapRTTVAR = 0, eapReq = False, eapNoReq = False, eapSuccess = False,
      eapFail = False, eapTimeout = False, eapReqData = None, eapKeyData = None,
      eapKeyAvailable = False, aaaEapReq = False, aaaEapNoReq = False, aaaSuccess = False,
      aaaFail = False, aaaEapReqData = None, aaaEapKeyData = None, aaaEapKeyAvailable = False,
      aaaMethodTimeout = 0, aaaEapResp = False, aaaEapRespData = None, aaaTimeout = False\<rparr>"

end
