(* ===== verification/Eapol_Auth.thy ===== *)
theory Eapol_Auth
  imports Eap_Common Eap_If
begin

text \<open>
  The IEEE 802.1X authenticator of \<^verbatim>\<open>src/eapol_auth/eapol_auth_sm.c\<close>: the six state machines
  (Authenticator PAE, Backend Authentication, Reauthentication Timer, Key Transmit, Key Receive,
  Controlled Directions), the port timers, and the round-based scheduler \<^verbatim>\<open>eapol_sm_step_run\<close>.

  The state is \<^verbatim>\<open>struct eapol_state_machine\<close>.  \<^verbatim>\<open>eap_if\<close> is a field of its own, although the C
  pointer refers into the EAP server's structure: both components change it only through this view.
  The callbacks of \<^verbatim>\<open>struct eapol_auth_cb\<close> are a parameter, since the authenticator calls them
  through function pointers: \<open>env_cb\<close> gives what a callback does to the state, and every call is
  appended to \<open>cb_log\<close>, which has no counterpart in C.  \<^verbatim>\<open>sta_entry_alive\<close> is \<open>env_alive\<close>, and
  \<^verbatim>\<open>eap_server_sm_step\<close> is \<open>env_eap_step\<close>, which the theory of the EAP server instantiates.  An
  enumeration field that \<^verbatim>\<open>os_zalloc\<close> leaves at a value outside its enumeration has a constructor
  for that value.  Log output is left out.
\<close>

section \<open>Data\<close>

datatype PortTypes = PortTypes_0 | ForceUnauthorized | Auto | ForceAuthorized
datatype PortState = PortState_0 | Authorized | Unauthorized
datatype ControlledDirection = Both | In

datatype auth_pae = AUTH_PAE_INITIALIZE | AUTH_PAE_DISCONNECTED | AUTH_PAE_CONNECTING |
  AUTH_PAE_AUTHENTICATING | AUTH_PAE_AUTHENTICATED | AUTH_PAE_ABORTING | AUTH_PAE_HELD |
  AUTH_PAE_FORCE_AUTH | AUTH_PAE_FORCE_UNAUTH | AUTH_PAE_RESTART

datatype be_auth = BE_AUTH_REQUEST | BE_AUTH_RESPONSE | BE_AUTH_SUCCESS | BE_AUTH_FAIL |
  BE_AUTH_TIMEOUT | BE_AUTH_IDLE | BE_AUTH_INITIALIZE | BE_AUTH_IGNORE

datatype reauth_timer = REAUTH_TIMER_INITIALIZE | REAUTH_TIMER_REAUTHENTICATE
datatype auth_key_tx = AUTH_KEY_TX_NO_KEY_TRANSMIT | AUTH_KEY_TX_KEY_TRANSMIT
datatype key_rx = KEY_RX_NO_KEY_RECEIVE | KEY_RX_KEY_RECEIVE
datatype ctrl_dir = CTRL_DIR_FORCE_BOTH | CTRL_DIR_IN_OR_BOTH

datatype eapol_event = EAPOL_AUTH_SM_CHANGE | EAPOL_AUTH_REAUTHENTICATE

text \<open>The calls through \<^verbatim>\<open>struct eapol_auth_cb\<close>, with the arguments that vary; the last two are the
  registration of a scheduler run and the disconnection of the station.\<close>

datatype cb_call =
    CB_eapol_send u8 bytes
  | CB_aaa_send bytes
  | CB_finished bool bool
  | CB_set_port_authorized bool
  | CB_abort_auth
  | CB_tx_key
  | CB_eapol_event eapol_event
  | CB_register_step
  | CB_sta_disconnect

abbreviation (input) EAPOL_SM_PREAUTH :: u32 where "EAPOL_SM_PREAUTH \<equiv> 1"
abbreviation (input) EAPOL_SM_WAIT_START :: u32 where "EAPOL_SM_WAIT_START \<equiv> 2"
abbreviation (input) EAPOL_SM_USES_WPA :: u32 where "EAPOL_SM_USES_WPA \<equiv> 4"
abbreviation (input) EAPOL_SM_FROM_PMKSA_CACHE :: u32 where "EAPOL_SM_FROM_PMKSA_CACHE \<equiv> 8"
abbreviation (input) IEEE802_1X_TYPE_EAP_PACKET :: u8 where "IEEE802_1X_TYPE_EAP_PACKET \<equiv> 0"

record 'e eapol_state_machine =
  \<comment> \<open>timers\<close>
  aWhile :: int
  quietWhile :: int
  reAuthWhen :: int
  \<comment> \<open>global variables\<close>
  authAbort :: bool
  authFail :: bool
  authPortStatus :: PortState
  authStart :: bool
  authTimeout :: bool
  authSuccess :: bool
  eapolEap :: bool
  initialize :: bool
  keyDone :: bool
  keyRun :: bool
  keyTxEnabled :: bool
  portControl :: PortTypes
  portValid :: bool
  reAuthenticate :: bool
  \<comment> \<open>Authenticator PAE state machine\<close>
  auth_pae_state :: auth_pae
  eapolLogoff :: bool
  eapolStart :: bool
  portMode :: PortTypes
  reAuthCount :: u32
  quietPeriod :: u32
  reAuthMax :: u32
  authEntersConnecting :: u32
  authEapLogoffsWhileConnecting :: u32
  authAuthSuccessesWhileAuthenticating :: u32
  authAuthTimeoutsWhileAuthenticating :: u32
  authAuthFailWhileAuthenticating :: u32
  authAuthEapStartsWhileAuthenticating :: u32
  authAuthEapLogoffWhileAuthenticating :: u32
  authAuthReauthsWhileAuthenticated :: u32
  authAuthEapStartsWhileAuthenticated :: u32
  authAuthEapLogoffWhileAuthenticated :: u32
  \<comment> \<open>Backend Authentication state machine\<close>
  be_auth_state :: be_auth
  serverTimeout :: u32
  backendResponses :: u32
  backendAccessChallenges :: u32
  backendOtherRequestsToSupplicant :: u32
  backendAuthSuccesses :: u32
  backendAuthFails :: u32
  \<comment> \<open>Reauthentication Timer state machine\<close>
  reauth_timer_state :: reauth_timer
  reAuthPeriod :: u32
  reAuthEnabled :: bool
  \<comment> \<open>Key Transmit and Key Receive state machines\<close>
  auth_key_tx_state :: auth_key_tx
  key_rx_state :: key_rx
  rxKey :: bool
  \<comment> \<open>Controlled Directions state machine\<close>
  ctrl_dir_state :: ctrl_dir
  adminControlledDirections :: ControlledDirection
  operControlledDirections :: ControlledDirection
  operEdge :: bool
  \<comment> \<open>Authenticator Statistics Table\<close>
  dot1xAuthEapolFramesRx :: u32
  dot1xAuthEapolFramesTx :: u32
  dot1xAuthEapolStartFramesRx :: u32
  dot1xAuthEapolLogoffFramesRx :: u32
  dot1xAuthEapolRespFramesRx :: u32
  dot1xAuthEapolRespIdFramesRx :: u32
  dot1xAuthEapolReqIdFramesTx :: u32
  dot1xAuthEapolReqFramesTx :: u32
  dot1xAuthInvalidEapolFramesRx :: u32
  dot1xAuthEapLengthErrorFramesRx :: u32
  dot1xAuthLastEapolFrameVersion :: u32
  \<comment> \<open>Other variables\<close>
  eapol_flags :: u32
  eap_if :: eap_eapol_interface
  identity :: "bytes option"
  radius_class :: "bytes list"
  radius_identifier :: int
  last_eap_id :: u8
  eap_type_authsrv :: u8
  eap_type_supp :: u8
  eap :: "'e option"
  initializing :: bool
  sm_changed :: bool
  cb_log :: "cb_call list"

text \<open>What the authenticator runs in: the callbacks, the liveness test of the station entry, and the
  EAP server (which works on its own state and on the shared interface, and reports whether it moved).\<close>

record 'e eapol_env =
  env_cb :: "cb_call \<Rightarrow> 'e eapol_state_machine \<Rightarrow> 'e eapol_state_machine"
  env_alive :: "'e eapol_state_machine \<Rightarrow> bool"
  env_eap_step :: "'e \<Rightarrow> eap_eapol_interface \<Rightarrow> 'e \<times> eap_eapol_interface \<times> bool"

definition call_cb :: "'e eapol_env \<Rightarrow> cb_call \<Rightarrow> 'e eapol_state_machine \<Rightarrow> 'e eapol_state_machine" where
  "call_cb E c sm = env_cb E c (sm\<lparr>cb_log := cb_log sm @ [c]\<rparr>)"

section \<open>Sending\<close>

definition eapol_auth_tx_canned_eap ::
  "'e eapol_env \<Rightarrow> 'e eapol_state_machine \<Rightarrow> bool \<Rightarrow> 'e eapol_state_machine" where
  "eapol_auth_tx_canned_eap E sm success =
     (let sm = sm\<lparr>last_eap_id := last_eap_id sm + 1\<rparr>;
          pkt = eap_hdr (if success then EAP_CODE_SUCCESS else EAP_CODE_FAILURE) (last_eap_id sm) 4;
          sm = call_cb E (CB_eapol_send IEEE802_1X_TYPE_EAP_PACKET pkt) sm
      in sm\<lparr>dot1xAuthEapolFramesTx := dot1xAuthEapolFramesTx sm + 1\<rparr>)"

definition eapol_auth_tx_req ::
  "'e eapol_env \<Rightarrow> 'e eapol_state_machine \<Rightarrow> 'e eapol_state_machine" where
  "eapol_auth_tx_req E sm =
     (case eapReqData (eap_if sm) of
        None \<Rightarrow> sm
      | Some req \<Rightarrow>
          if length req < 4 then sm
          else if eapol_flags sm AND EAPOL_SM_WAIT_START \<noteq> 0 then sm
          else
            let sm = sm\<lparr>last_eap_id := eap_get_id req\<rparr>;
                sm = call_cb E (CB_eapol_send IEEE802_1X_TYPE_EAP_PACKET req) sm;
                sm = sm\<lparr>dot1xAuthEapolFramesTx := dot1xAuthEapolFramesTx sm + 1\<rparr>
            in if eap_get_type req = EAP_TYPE_IDENTITY
               then sm\<lparr>dot1xAuthEapolReqIdFramesTx := dot1xAuthEapolReqIdFramesTx sm + 1\<rparr>
               else sm\<lparr>dot1xAuthEapolReqFramesTx := dot1xAuthEapolReqFramesTx sm + 1\<rparr>)"

section \<open>Authenticator PAE state machine\<close>

text \<open>\<^verbatim>\<open>SM_ENTRY_MA\<close>: a global entry into the state the machine is already in is no change.\<close>

definition enter_pae :: "bool \<Rightarrow> auth_pae \<Rightarrow> 'e eapol_state_machine \<Rightarrow> 'e eapol_state_machine" where
  "enter_pae global st sm =
     (let sm = (if \<not> global \<or> auth_pae_state sm \<noteq> st then sm\<lparr>sm_changed := True\<rparr> else sm)
      in sm\<lparr>auth_pae_state := st\<rparr>)"

definition sm_AUTH_PAE_INITIALIZE_Enter ::
  "bool \<Rightarrow> 'e eapol_state_machine \<Rightarrow> 'e eapol_state_machine" where
  "sm_AUTH_PAE_INITIALIZE_Enter global sm =
     (enter_pae global AUTH_PAE_INITIALIZE sm)\<lparr>portMode := Auto\<rparr>"

definition sm_AUTH_PAE_DISCONNECTED_Enter ::
  "'e eapol_env \<Rightarrow> bool \<Rightarrow> 'e eapol_state_machine \<Rightarrow> 'e eapol_state_machine" where
  "sm_AUTH_PAE_DISCONNECTED_Enter E global sm =
     (let from_initialize = (auth_pae_state sm = AUTH_PAE_INITIALIZE);
          sm = (if eapolLogoff sm then
                  (if auth_pae_state sm = AUTH_PAE_CONNECTING
                   then sm\<lparr>authEapLogoffsWhileConnecting := authEapLogoffsWhileConnecting sm + 1\<rparr>
                   else if auth_pae_state sm = AUTH_PAE_AUTHENTICATED
                   then sm\<lparr>authAuthEapLogoffWhileAuthenticated := authAuthEapLogoffWhileAuthenticated sm + 1\<rparr>
                   else sm)
                else sm);
          sm = enter_pae global AUTH_PAE_DISCONNECTED sm;
          sm = sm\<lparr>authPortStatus := Unauthorized\<rparr>;
          sm = call_cb E (CB_set_port_authorized False) sm;
          sm = sm\<lparr>reAuthCount := 0\<rparr>;
          sm = sm\<lparr>eapolLogoff := False\<rparr>
      in if \<not> from_initialize
         then call_cb E (CB_finished False (eapol_flags sm AND EAPOL_SM_PREAUTH \<noteq> 0)) sm
         else sm)"

definition sm_AUTH_PAE_RESTART_Enter ::
  "bool \<Rightarrow> 'e eapol_state_machine \<Rightarrow> 'e eapol_state_machine" where
  "sm_AUTH_PAE_RESTART_Enter global sm =
     (let sm = (if auth_pae_state sm = AUTH_PAE_AUTHENTICATED then
                  let sm = (if reAuthenticate sm
                            then sm\<lparr>authAuthReauthsWhileAuthenticated := authAuthReauthsWhileAuthenticated sm + 1\<rparr>
                            else sm);
                      sm = (if eapolStart sm
                            then sm\<lparr>authAuthEapStartsWhileAuthenticated := authAuthEapStartsWhileAuthenticated sm + 1\<rparr>
                            else sm)
                  in (if eapolLogoff sm
                      then sm\<lparr>authAuthEapLogoffWhileAuthenticated := authAuthEapLogoffWhileAuthenticated sm + 1\<rparr>
                      else sm)
                else sm);
          sm = enter_pae global AUTH_PAE_RESTART sm
      in sm\<lparr>eap_if := (eap_if sm)\<lparr>eapRestart := True\<rparr>\<rparr>)"

definition sm_AUTH_PAE_CONNECTING_Enter ::
  "bool \<Rightarrow> 'e eapol_state_machine \<Rightarrow> 'e eapol_state_machine" where
  "sm_AUTH_PAE_CONNECTING_Enter global sm =
     (let sm = (if auth_pae_state sm \<noteq> AUTH_PAE_CONNECTING
                then sm\<lparr>authEntersConnecting := authEntersConnecting sm + 1\<rparr> else sm);
          sm = enter_pae global AUTH_PAE_CONNECTING sm
      in sm\<lparr>reAuthenticate := False, reAuthCount := reAuthCount sm + 1\<rparr>)"

definition sm_AUTH_PAE_HELD_Enter ::
  "'e eapol_env \<Rightarrow> bool \<Rightarrow> 'e eapol_state_machine \<Rightarrow> 'e eapol_state_machine" where
  "sm_AUTH_PAE_HELD_Enter E global sm =
     (let sm = (if auth_pae_state sm = AUTH_PAE_AUTHENTICATING \<and> authFail sm
                then sm\<lparr>authAuthFailWhileAuthenticating := authAuthFailWhileAuthenticating sm + 1\<rparr> else sm);
          sm = enter_pae global AUTH_PAE_HELD sm;
          sm = sm\<lparr>authPortStatus := Unauthorized\<rparr>;
          sm = call_cb E (CB_set_port_authorized False) sm;
          sm = sm\<lparr>quietWhile := sint (quietPeriod sm)\<rparr>;
          sm = sm\<lparr>eapolLogoff := False\<rparr>
      in call_cb E (CB_finished False (eapol_flags sm AND EAPOL_SM_PREAUTH \<noteq> 0)) sm)"

definition sm_AUTH_PAE_AUTHENTICATED_Enter ::
  "'e eapol_env \<Rightarrow> bool \<Rightarrow> 'e eapol_state_machine \<Rightarrow> 'e eapol_state_machine" where
  "sm_AUTH_PAE_AUTHENTICATED_Enter E global sm =
     (let sm = (if auth_pae_state sm = AUTH_PAE_AUTHENTICATING \<and> authSuccess sm
                then sm\<lparr>authAuthSuccessesWhileAuthenticating := authAuthSuccessesWhileAuthenticating sm + 1\<rparr>
                else sm);
          sm = enter_pae global AUTH_PAE_AUTHENTICATED sm;
          sm = sm\<lparr>authPortStatus := Authorized\<rparr>;
          sm = call_cb E (CB_set_port_authorized True) sm;
          sm = sm\<lparr>reAuthCount := 0\<rparr>
      in call_cb E (CB_finished True (eapol_flags sm AND EAPOL_SM_PREAUTH \<noteq> 0)) sm)"

definition sm_AUTH_PAE_AUTHENTICATING_Enter ::
  "bool \<Rightarrow> 'e eapol_state_machine \<Rightarrow> 'e eapol_state_machine" where
  "sm_AUTH_PAE_AUTHENTICATING_Enter global sm =
     (enter_pae global AUTH_PAE_AUTHENTICATING sm)
       \<lparr>eapolStart := False, authSuccess := False, authFail := False, authTimeout := False,
        authStart := True, keyRun := False, keyDone := False\<rparr>"

definition sm_AUTH_PAE_ABORTING_Enter ::
  "bool \<Rightarrow> 'e eapol_state_machine \<Rightarrow> 'e eapol_state_machine" where
  "sm_AUTH_PAE_ABORTING_Enter global sm =
     (let sm = (if auth_pae_state sm = AUTH_PAE_AUTHENTICATING then
                  let sm = (if authTimeout sm
                            then sm\<lparr>authAuthTimeoutsWhileAuthenticating := authAuthTimeoutsWhileAuthenticating sm + 1\<rparr>
                            else sm);
                      sm = (if eapolStart sm
                            then sm\<lparr>authAuthEapStartsWhileAuthenticating := authAuthEapStartsWhileAuthenticating sm + 1\<rparr>
                            else sm)
                  in (if eapolLogoff sm
                      then sm\<lparr>authAuthEapLogoffWhileAuthenticating := authAuthEapLogoffWhileAuthenticating sm + 1\<rparr>
                      else sm)
                else sm);
          sm = enter_pae global AUTH_PAE_ABORTING sm
      in sm\<lparr>authAbort := True, keyRun := False, keyDone := False\<rparr>)"

definition sm_AUTH_PAE_FORCE_AUTH_Enter ::
  "'e eapol_env \<Rightarrow> bool \<Rightarrow> 'e eapol_state_machine \<Rightarrow> 'e eapol_state_machine" where
  "sm_AUTH_PAE_FORCE_AUTH_Enter E global sm =
     (let sm = enter_pae global AUTH_PAE_FORCE_AUTH sm;
          sm = sm\<lparr>authPortStatus := Authorized\<rparr>;
          sm = call_cb E (CB_set_port_authorized True) sm;
          sm = sm\<lparr>portMode := ForceAuthorized, eapolStart := False\<rparr>
      in eapol_auth_tx_canned_eap E sm True)"

definition sm_AUTH_PAE_FORCE_UNAUTH_Enter ::
  "'e eapol_env \<Rightarrow> bool \<Rightarrow> 'e eapol_state_machine \<Rightarrow> 'e eapol_state_machine" where
  "sm_AUTH_PAE_FORCE_UNAUTH_Enter E global sm =
     (let sm = enter_pae global AUTH_PAE_FORCE_UNAUTH sm;
          sm = sm\<lparr>authPortStatus := Unauthorized\<rparr>;
          sm = call_cb E (CB_set_port_authorized False) sm;
          sm = sm\<lparr>portMode := ForceUnauthorized, eapolStart := False\<rparr>
      in eapol_auth_tx_canned_eap E sm False)"

definition sm_AUTH_PAE_Step ::
  "'e eapol_env \<Rightarrow> 'e eapol_state_machine \<Rightarrow> 'e eapol_state_machine" where
  "sm_AUTH_PAE_Step E sm =
     (if portControl sm = Auto \<and> portMode sm \<noteq> portControl sm \<or> initialize sm \<or>
         \<not> portEnabled (eap_if sm)
      then sm_AUTH_PAE_INITIALIZE_Enter True sm
      else if portControl sm = ForceAuthorized \<and> portMode sm \<noteq> portControl sm \<and>
         \<not> (initialize sm \<or> \<not> portEnabled (eap_if sm))
      then sm_AUTH_PAE_FORCE_AUTH_Enter E True sm
      else if portControl sm = ForceUnauthorized \<and> portMode sm \<noteq> portControl sm \<and>
         \<not> (initialize sm \<or> \<not> portEnabled (eap_if sm))
      then sm_AUTH_PAE_FORCE_UNAUTH_Enter E True sm
      else case auth_pae_state sm of
        AUTH_PAE_INITIALIZE \<Rightarrow> sm_AUTH_PAE_DISCONNECTED_Enter E False sm
      | AUTH_PAE_DISCONNECTED \<Rightarrow> sm_AUTH_PAE_RESTART_Enter False sm
      | AUTH_PAE_RESTART \<Rightarrow>
          if \<not> eapRestart (eap_if sm) then sm_AUTH_PAE_CONNECTING_Enter False sm else sm
      | AUTH_PAE_HELD \<Rightarrow>
          if quietWhile sm = 0 then sm_AUTH_PAE_RESTART_Enter False sm else sm
      | AUTH_PAE_CONNECTING \<Rightarrow>
          if eapolLogoff sm \<or> reAuthCount sm > reAuthMax sm
          then sm_AUTH_PAE_DISCONNECTED_Enter E False sm
          else if eapReq (eap_if sm) \<and> reAuthCount sm \<le> reAuthMax sm \<or>
            eapSuccess (eap_if sm) \<or> eapFail (eap_if sm)
          then sm_AUTH_PAE_AUTHENTICATING_Enter False sm
          else sm
      | AUTH_PAE_AUTHENTICATED \<Rightarrow>
          if eapolStart sm \<or> reAuthenticate sm then sm_AUTH_PAE_RESTART_Enter False sm
          else if eapolLogoff sm \<or> \<not> portValid sm then sm_AUTH_PAE_DISCONNECTED_Enter E False sm
          else sm
      | AUTH_PAE_AUTHENTICATING \<Rightarrow>
          if authSuccess sm \<and> portValid sm then sm_AUTH_PAE_AUTHENTICATED_Enter E False sm
          else if authFail sm \<or> keyDone sm \<and> \<not> portValid sm then sm_AUTH_PAE_HELD_Enter E False sm
          else if eapolStart sm \<or> eapolLogoff sm \<or> authTimeout sm
          then sm_AUTH_PAE_ABORTING_Enter False sm
          else sm
      | AUTH_PAE_ABORTING \<Rightarrow>
          if eapolLogoff sm \<and> \<not> authAbort sm then sm_AUTH_PAE_DISCONNECTED_Enter E False sm
          else if \<not> eapolLogoff sm \<and> \<not> authAbort sm then sm_AUTH_PAE_RESTART_Enter False sm
          else sm
      | AUTH_PAE_FORCE_AUTH \<Rightarrow>
          if eapolStart sm then sm_AUTH_PAE_FORCE_AUTH_Enter E False sm else sm
      | AUTH_PAE_FORCE_UNAUTH \<Rightarrow>
          if eapolStart sm then sm_AUTH_PAE_FORCE_UNAUTH_Enter E False sm else sm)"

section \<open>Backend Authentication state machine\<close>

definition enter_be :: "bool \<Rightarrow> be_auth \<Rightarrow> 'e eapol_state_machine \<Rightarrow> 'e eapol_state_machine" where
  "enter_be global st sm =
     (let sm = (if \<not> global \<or> be_auth_state sm \<noteq> st then sm\<lparr>sm_changed := True\<rparr> else sm)
      in sm\<lparr>be_auth_state := st\<rparr>)"

definition sm_BE_AUTH_INITIALIZE_Enter ::
  "'e eapol_env \<Rightarrow> bool \<Rightarrow> 'e eapol_state_machine \<Rightarrow> 'e eapol_state_machine" where
  "sm_BE_AUTH_INITIALIZE_Enter E global sm =
     (let sm = enter_be global BE_AUTH_INITIALIZE sm;
          sm = call_cb E CB_abort_auth sm;
          sm = sm\<lparr>eap_if := (eap_if sm)\<lparr>eapNoReq := False\<rparr>\<rparr>
      in sm\<lparr>authAbort := False\<rparr>)"

definition sm_BE_AUTH_REQUEST_Enter ::
  "'e eapol_env \<Rightarrow> bool \<Rightarrow> 'e eapol_state_machine \<Rightarrow> 'e eapol_state_machine" where
  "sm_BE_AUTH_REQUEST_Enter E global sm =
     (let sm = enter_be global BE_AUTH_REQUEST sm;
          sm = eapol_auth_tx_req E sm;
          sm = sm\<lparr>eap_if := (eap_if sm)\<lparr>eapReq := False\<rparr>\<rparr>;
          sm = sm\<lparr>backendOtherRequestsToSupplicant := backendOtherRequestsToSupplicant sm + 1\<rparr>
      in sm\<lparr>eapolEap := False\<rparr>)"

definition sm_BE_AUTH_RESPONSE_Enter ::
  "bool \<Rightarrow> 'e eapol_state_machine \<Rightarrow> 'e eapol_state_machine" where
  "sm_BE_AUTH_RESPONSE_Enter global sm =
     (let sm = enter_be global BE_AUTH_RESPONSE sm
      in sm\<lparr>authTimeout := False, eapolEap := False,
             eap_if := (eap_if sm)\<lparr>eapNoReq := False, eapResp := True\<rparr>,
             aWhile := sint (serverTimeout sm), backendResponses := backendResponses sm + 1\<rparr>)"

definition sm_BE_AUTH_SUCCESS_Enter ::
  "'e eapol_env \<Rightarrow> bool \<Rightarrow> 'e eapol_state_machine \<Rightarrow> 'e eapol_state_machine" where
  "sm_BE_AUTH_SUCCESS_Enter E global sm =
     (eapol_auth_tx_req E (enter_be global BE_AUTH_SUCCESS sm))\<lparr>authSuccess := True, keyRun := True\<rparr>"

definition sm_BE_AUTH_FAIL_Enter ::
  "'e eapol_env \<Rightarrow> bool \<Rightarrow> 'e eapol_state_machine \<Rightarrow> 'e eapol_state_machine" where
  "sm_BE_AUTH_FAIL_Enter E global sm =
     (eapol_auth_tx_req E (enter_be global BE_AUTH_FAIL sm))\<lparr>authFail := True\<rparr>"

definition sm_BE_AUTH_TIMEOUT_Enter ::
  "bool \<Rightarrow> 'e eapol_state_machine \<Rightarrow> 'e eapol_state_machine" where
  "sm_BE_AUTH_TIMEOUT_Enter global sm = (enter_be global BE_AUTH_TIMEOUT sm)\<lparr>authTimeout := True\<rparr>"

definition sm_BE_AUTH_IDLE_Enter ::
  "bool \<Rightarrow> 'e eapol_state_machine \<Rightarrow> 'e eapol_state_machine" where
  "sm_BE_AUTH_IDLE_Enter global sm = (enter_be global BE_AUTH_IDLE sm)\<lparr>authStart := False\<rparr>"

definition sm_BE_AUTH_IGNORE_Enter ::
  "bool \<Rightarrow> 'e eapol_state_machine \<Rightarrow> 'e eapol_state_machine" where
  "sm_BE_AUTH_IGNORE_Enter global sm =
     (let sm = enter_be global BE_AUTH_IGNORE sm in sm\<lparr>eap_if := (eap_if sm)\<lparr>eapNoReq := False\<rparr>\<rparr>)"

text \<open>In state \<^verbatim>\<open>RESPONSE\<close> the test of \<^verbatim>\<open>eapNoReq\<close> has no \<^verbatim>\<open>else\<close>: entering \<^verbatim>\<open>IGNORE\<close> is followed by the
  remaining tests.\<close>

definition sm_BE_AUTH_Step ::
  "'e eapol_env \<Rightarrow> 'e eapol_state_machine \<Rightarrow> 'e eapol_state_machine" where
  "sm_BE_AUTH_Step E sm =
     (if portControl sm \<noteq> Auto \<or> initialize sm \<or> authAbort sm
      then sm_BE_AUTH_INITIALIZE_Enter E True sm
      else case be_auth_state sm of
        BE_AUTH_INITIALIZE \<Rightarrow> sm_BE_AUTH_IDLE_Enter False sm
      | BE_AUTH_REQUEST \<Rightarrow>
          if eapolEap sm then sm_BE_AUTH_RESPONSE_Enter False sm
          else if eapReq (eap_if sm) then sm_BE_AUTH_REQUEST_Enter E False sm
          else if eapTimeout (eap_if sm) then sm_BE_AUTH_TIMEOUT_Enter False sm
          else sm
      | BE_AUTH_RESPONSE \<Rightarrow>
          let sm = (if eapNoReq (eap_if sm) then sm_BE_AUTH_IGNORE_Enter False sm else sm) in
          if eapReq (eap_if sm) then
            sm_BE_AUTH_REQUEST_Enter E False (sm\<lparr>backendAccessChallenges := backendAccessChallenges sm + 1\<rparr>)
          else if aWhile sm = 0 then sm_BE_AUTH_TIMEOUT_Enter False sm
          else if eapFail (eap_if sm) then
            sm_BE_AUTH_FAIL_Enter E False (sm\<lparr>backendAuthFails := backendAuthFails sm + 1\<rparr>)
          else if eapSuccess (eap_if sm) then
            sm_BE_AUTH_SUCCESS_Enter E False (sm\<lparr>backendAuthSuccesses := backendAuthSuccesses sm + 1\<rparr>)
          else sm
      | BE_AUTH_SUCCESS \<Rightarrow> sm_BE_AUTH_IDLE_Enter False sm
      | BE_AUTH_FAIL \<Rightarrow> sm_BE_AUTH_IDLE_Enter False sm
      | BE_AUTH_TIMEOUT \<Rightarrow> sm_BE_AUTH_IDLE_Enter False sm
      | BE_AUTH_IDLE \<Rightarrow>
          if eapFail (eap_if sm) \<and> authStart sm then sm_BE_AUTH_FAIL_Enter E False sm
          else if eapReq (eap_if sm) \<and> authStart sm then sm_BE_AUTH_REQUEST_Enter E False sm
          else if eapSuccess (eap_if sm) \<and> authStart sm then sm_BE_AUTH_SUCCESS_Enter E False sm
          else sm
      | BE_AUTH_IGNORE \<Rightarrow>
          if eapolEap sm then sm_BE_AUTH_RESPONSE_Enter False sm
          else if eapReq (eap_if sm) then sm_BE_AUTH_REQUEST_Enter E False sm
          else if eapTimeout (eap_if sm) then sm_BE_AUTH_TIMEOUT_Enter False sm
          else sm)"

section \<open>Reauthentication Timer state machine\<close>

definition enter_reauth :: "bool \<Rightarrow> reauth_timer \<Rightarrow> 'e eapol_state_machine \<Rightarrow> 'e eapol_state_machine" where
  "enter_reauth global st sm =
     (let sm = (if \<not> global \<or> reauth_timer_state sm \<noteq> st then sm\<lparr>sm_changed := True\<rparr> else sm)
      in sm\<lparr>reauth_timer_state := st\<rparr>)"

definition sm_REAUTH_TIMER_INITIALIZE_Enter ::
  "bool \<Rightarrow> 'e eapol_state_machine \<Rightarrow> 'e eapol_state_machine" where
  "sm_REAUTH_TIMER_INITIALIZE_Enter global sm =
     (let sm = enter_reauth global REAUTH_TIMER_INITIALIZE sm
      in sm\<lparr>reAuthWhen := sint (reAuthPeriod sm)\<rparr>)"

definition sm_REAUTH_TIMER_REAUTHENTICATE_Enter ::
  "'e eapol_env \<Rightarrow> bool \<Rightarrow> 'e eapol_state_machine \<Rightarrow> 'e eapol_state_machine" where
  "sm_REAUTH_TIMER_REAUTHENTICATE_Enter E global sm =
     (let sm = enter_reauth global REAUTH_TIMER_REAUTHENTICATE sm;
          sm = sm\<lparr>reAuthenticate := True\<rparr>
      in call_cb E (CB_eapol_event EAPOL_AUTH_REAUTHENTICATE) sm)"

definition sm_REAUTH_TIMER_Step ::
  "'e eapol_env \<Rightarrow> 'e eapol_state_machine \<Rightarrow> 'e eapol_state_machine" where
  "sm_REAUTH_TIMER_Step E sm =
     (if portControl sm \<noteq> Auto \<or> initialize sm \<or> authPortStatus sm = Unauthorized \<or> \<not> reAuthEnabled sm
      then sm_REAUTH_TIMER_INITIALIZE_Enter True sm
      else case reauth_timer_state sm of
        REAUTH_TIMER_INITIALIZE \<Rightarrow>
          if reAuthWhen sm = 0 then sm_REAUTH_TIMER_REAUTHENTICATE_Enter E False sm else sm
      | REAUTH_TIMER_REAUTHENTICATE \<Rightarrow> sm_REAUTH_TIMER_INITIALIZE_Enter False sm)"

section \<open>Key Transmit, Key Receive and Controlled Directions state machines\<close>

definition enter_key_tx :: "bool \<Rightarrow> auth_key_tx \<Rightarrow> 'e eapol_state_machine \<Rightarrow> 'e eapol_state_machine" where
  "enter_key_tx global st sm =
     (let sm = (if \<not> global \<or> auth_key_tx_state sm \<noteq> st then sm\<lparr>sm_changed := True\<rparr> else sm)
      in sm\<lparr>auth_key_tx_state := st\<rparr>)"

definition sm_AUTH_KEY_TX_NO_KEY_TRANSMIT_Enter ::
  "bool \<Rightarrow> 'e eapol_state_machine \<Rightarrow> 'e eapol_state_machine" where
  "sm_AUTH_KEY_TX_NO_KEY_TRANSMIT_Enter global sm = enter_key_tx global AUTH_KEY_TX_NO_KEY_TRANSMIT sm"

definition sm_AUTH_KEY_TX_KEY_TRANSMIT_Enter ::
  "'e eapol_env \<Rightarrow> bool \<Rightarrow> 'e eapol_state_machine \<Rightarrow> 'e eapol_state_machine" where
  "sm_AUTH_KEY_TX_KEY_TRANSMIT_Enter E global sm =
     (let sm = enter_key_tx global AUTH_KEY_TX_KEY_TRANSMIT sm;
          sm = call_cb E CB_tx_key sm;
          sm = sm\<lparr>eap_if := (eap_if sm)\<lparr>eapKeyAvailable := False\<rparr>\<rparr>
      in sm\<lparr>keyDone := True\<rparr>)"

definition sm_AUTH_KEY_TX_Step ::
  "'e eapol_env \<Rightarrow> 'e eapol_state_machine \<Rightarrow> 'e eapol_state_machine" where
  "sm_AUTH_KEY_TX_Step E sm =
     (if initialize sm \<or> portControl sm \<noteq> Auto then sm_AUTH_KEY_TX_NO_KEY_TRANSMIT_Enter True sm
      else case auth_key_tx_state sm of
        AUTH_KEY_TX_NO_KEY_TRANSMIT \<Rightarrow>
          if keyTxEnabled sm \<and> eapKeyAvailable (eap_if sm) \<and> keyRun sm \<and>
            \<not> eapol_flags sm AND EAPOL_SM_USES_WPA \<noteq> 0
          then sm_AUTH_KEY_TX_KEY_TRANSMIT_Enter E False sm else sm
      | AUTH_KEY_TX_KEY_TRANSMIT \<Rightarrow>
          if \<not> keyTxEnabled sm \<or> \<not> keyRun sm then sm_AUTH_KEY_TX_NO_KEY_TRANSMIT_Enter False sm
          else if eapKeyAvailable (eap_if sm) then sm_AUTH_KEY_TX_KEY_TRANSMIT_Enter E False sm
          else sm)"

definition enter_key_rx :: "bool \<Rightarrow> key_rx \<Rightarrow> 'e eapol_state_machine \<Rightarrow> 'e eapol_state_machine" where
  "enter_key_rx global st sm =
     (let sm = (if \<not> global \<or> key_rx_state sm \<noteq> st then sm\<lparr>sm_changed := True\<rparr> else sm)
      in sm\<lparr>key_rx_state := st\<rparr>)"

definition sm_KEY_RX_Step :: "'e eapol_state_machine \<Rightarrow> 'e eapol_state_machine" where
  "sm_KEY_RX_Step sm =
     (if initialize sm \<or> \<not> portEnabled (eap_if sm) then enter_key_rx True KEY_RX_NO_KEY_RECEIVE sm
      else case key_rx_state sm of
        KEY_RX_NO_KEY_RECEIVE \<Rightarrow>
          if rxKey sm then (enter_key_rx False KEY_RX_KEY_RECEIVE sm)\<lparr>rxKey := False\<rparr> else sm
      | KEY_RX_KEY_RECEIVE \<Rightarrow>
          if rxKey sm then (enter_key_rx False KEY_RX_KEY_RECEIVE sm)\<lparr>rxKey := False\<rparr> else sm)"

definition enter_ctrl :: "bool \<Rightarrow> ctrl_dir \<Rightarrow> 'e eapol_state_machine \<Rightarrow> 'e eapol_state_machine" where
  "enter_ctrl global st sm =
     (let sm = (if \<not> global \<or> ctrl_dir_state sm \<noteq> st then sm\<lparr>sm_changed := True\<rparr> else sm)
      in sm\<lparr>ctrl_dir_state := st\<rparr>)"

definition sm_CTRL_DIR_FORCE_BOTH_Enter ::
  "bool \<Rightarrow> 'e eapol_state_machine \<Rightarrow> 'e eapol_state_machine" where
  "sm_CTRL_DIR_FORCE_BOTH_Enter global sm =
     (enter_ctrl global CTRL_DIR_FORCE_BOTH sm)\<lparr>operControlledDirections := Both\<rparr>"

definition sm_CTRL_DIR_IN_OR_BOTH_Enter ::
  "bool \<Rightarrow> 'e eapol_state_machine \<Rightarrow> 'e eapol_state_machine" where
  "sm_CTRL_DIR_IN_OR_BOTH_Enter global sm =
     (let sm = enter_ctrl global CTRL_DIR_IN_OR_BOTH sm
      in sm\<lparr>operControlledDirections := adminControlledDirections sm\<rparr>)"

definition sm_CTRL_DIR_Step :: "'e eapol_state_machine \<Rightarrow> 'e eapol_state_machine" where
  "sm_CTRL_DIR_Step sm =
     (if initialize sm then sm_CTRL_DIR_IN_OR_BOTH_Enter True sm
      else case ctrl_dir_state sm of
        CTRL_DIR_FORCE_BOTH \<Rightarrow>
          if portEnabled (eap_if sm) \<and> operEdge sm then sm_CTRL_DIR_IN_OR_BOTH_Enter False sm else sm
      | CTRL_DIR_IN_OR_BOTH \<Rightarrow>
          let sm = (if operControlledDirections sm \<noteq> adminControlledDirections sm
                    then sm_CTRL_DIR_IN_OR_BOTH_Enter False sm else sm) in
          if \<not> portEnabled (eap_if sm) \<or> \<not> operEdge sm
          then sm_CTRL_DIR_FORCE_BOTH_Enter False sm else sm)"

section \<open>Running the state machines\<close>

text \<open>\<^verbatim>\<open>eapol_auth_step\<close> only registers a zero timeout that will call \<^verbatim>\<open>eapol_sm_step_run\<close>; the
  registration is logged.\<close>

definition eapol_auth_step :: "'e eapol_state_machine \<Rightarrow> 'e eapol_state_machine" where
  "eapol_auth_step sm = sm\<lparr>cb_log := cb_log sm @ [CB_register_step]\<rparr>"

definition if_alive ::
  "'e eapol_env \<Rightarrow> ('e eapol_state_machine \<Rightarrow> 'e eapol_state_machine) \<Rightarrow>
   'e eapol_state_machine \<Rightarrow> 'e eapol_state_machine" where
  "if_alive E f sm = (if initializing sm \<or> env_alive E sm then f sm else sm)"

text \<open>One pass over the six machines, from label \<^verbatim>\<open>restart\<close> to the comparison with the previous states.\<close>

definition eapol_sm_round :: "'e eapol_env \<Rightarrow> 'e eapol_state_machine \<Rightarrow> 'e eapol_state_machine" where
  "eapol_sm_round E sm =
     (let sm = sm_AUTH_PAE_Step E sm;
          sm = if_alive E (sm_BE_AUTH_Step E) sm;
          sm = if_alive E (sm_REAUTH_TIMER_Step E) sm;
          sm = if_alive E (sm_AUTH_KEY_TX_Step E) sm;
          sm = if_alive E sm_KEY_RX_Step sm
      in if_alive E sm_CTRL_DIR_Step sm)"

definition states_of :: "'e eapol_state_machine \<Rightarrow>
    auth_pae \<times> be_auth \<times> reauth_timer \<times> auth_key_tx \<times> key_rx \<times> ctrl_dir" where
  "states_of sm = (auth_pae_state sm, be_auth_state sm, reauth_timer_state sm, auth_key_tx_state sm,
     key_rx_state sm, ctrl_dir_state sm)"

text \<open>The part after a pass without state change, when the EAP server does not move either.\<close>

definition eapol_sm_finish :: "'e eapol_env \<Rightarrow> 'e eapol_state_machine \<Rightarrow> 'e eapol_state_machine" where
  "eapol_sm_finish E sm =
     (if env_alive E sm then call_cb E (CB_eapol_event EAPOL_AUTH_SM_CHANGE) sm else sm)"

text \<open>The loop; the first argument is \<^verbatim>\<open>max_steps\<close>.\<close>

fun eapol_sm_step_loop :: "nat \<Rightarrow> 'e eapol_env \<Rightarrow> 'e eapol_state_machine \<Rightarrow> 'e eapol_state_machine" where
  "eapol_sm_step_loop 0 E sm = eapol_auth_step sm"
| "eapol_sm_step_loop (Suc n) E sm =
     (let prev = states_of sm;
          sm = eapol_sm_round E sm in
      if prev \<noteq> states_of sm then
        (if n > 0 then eapol_sm_step_loop n E sm else eapol_auth_step sm)
      else if env_alive E sm then
        (case eap sm of
           None \<Rightarrow> eapol_sm_finish E sm
         | Some e \<Rightarrow>
             let (e, i, moved) = env_eap_step E e (eap_if sm);
                 sm = sm\<lparr>eap := Some e, eap_if := i\<rparr> in
             if moved then (if n > 0 then eapol_sm_step_loop n E sm else eapol_auth_step sm)
             else if aaaEapResp (eap_if sm) then
               let sm = sm\<lparr>eap_if := (eap_if sm)\<lparr>aaaEapResp := False\<rparr>\<rparr> in
               (case aaaEapRespData (eap_if sm) of
                  None \<Rightarrow> sm
                | Some d \<Rightarrow> eapol_sm_finish E (call_cb E (CB_aaa_send d) sm))
             else eapol_sm_finish E sm)
      else eapol_sm_finish E sm)"

definition eapol_sm_step_run :: "'e eapol_env \<Rightarrow> 'e eapol_state_machine \<Rightarrow> 'e eapol_state_machine" where
  "eapol_sm_step_run E sm = eapol_sm_step_loop 100 E sm"

definition eapol_port_timers_tick ::
  "'e eapol_env \<Rightarrow> 'e eapol_state_machine \<Rightarrow> 'e eapol_state_machine" where
  "eapol_port_timers_tick E sm =
     (let sm = (if aWhile sm > 0 then sm\<lparr>aWhile := aWhile sm - 1\<rparr> else sm);
          sm = (if quietWhile sm > 0 then sm\<lparr>quietWhile := quietWhile sm - 1\<rparr> else sm);
          sm = (if reAuthWhen sm > 0 then sm\<lparr>reAuthWhen := reAuthWhen sm - 1\<rparr> else sm);
          sm = (if retransWhile (eap_if sm) > 0
                then sm\<lparr>eap_if := (eap_if sm)\<lparr>retransWhile := retransWhile (eap_if sm) - 1\<rparr>\<rparr> else sm)
      in eapol_sm_step_run E sm)"

section \<open>Creating a machine\<close>

text \<open>The parts of \<^verbatim>\<open>struct eapol_auth_config\<close> and \<^verbatim>\<open>struct eapol_authenticator\<close> that the state
  machines read.\<close>

record eapol_auth_config =
  eap_reauth_period :: int
  conf_wpa :: int
  individual_wep_key_len :: int
  default_wep_key :: "bytes option"

definition eapol_auth_initialize ::
  "'e eapol_env \<Rightarrow> 'e eapol_state_machine \<Rightarrow> 'e eapol_state_machine" where
  "eapol_auth_initialize E sm =
     (let sm = sm\<lparr>initializing := True, initialize := True\<rparr>;
          sm = eapol_sm_step_run E sm;
          sm = sm\<lparr>initialize := False\<rparr>;
          sm = eapol_sm_step_run E sm
      in sm\<lparr>initializing := False\<rparr>)"

definition eapol_sm_zero :: "'e eapol_state_machine" where
  "eapol_sm_zero =
     \<lparr>aWhile = 0, quietWhile = 0, reAuthWhen = 0, authAbort = False, authFail = False,
      authPortStatus = PortState_0, authStart = False, authTimeout = False, authSuccess = False,
      eapolEap = False, initialize = False, keyDone = False, keyRun = False, keyTxEnabled = False,
      portControl = PortTypes_0, portValid = False, reAuthenticate = False,
      auth_pae_state = AUTH_PAE_INITIALIZE, eapolLogoff = False, eapolStart = False,
      portMode = PortTypes_0, reAuthCount = 0, quietPeriod = 0, reAuthMax = 0,
      authEntersConnecting = 0, authEapLogoffsWhileConnecting = 0,
      authAuthSuccessesWhileAuthenticating = 0, authAuthTimeoutsWhileAuthenticating = 0,
      authAuthFailWhileAuthenticating = 0, authAuthEapStartsWhileAuthenticating = 0,
      authAuthEapLogoffWhileAuthenticating = 0, authAuthReauthsWhileAuthenticated = 0,
      authAuthEapStartsWhileAuthenticated = 0, authAuthEapLogoffWhileAuthenticated = 0,
      be_auth_state = BE_AUTH_REQUEST, serverTimeout = 0, backendResponses = 0,
      backendAccessChallenges = 0, backendOtherRequestsToSupplicant = 0, backendAuthSuccesses = 0,
      backendAuthFails = 0, reauth_timer_state = REAUTH_TIMER_INITIALIZE, reAuthPeriod = 0,
      reAuthEnabled = False, auth_key_tx_state = AUTH_KEY_TX_NO_KEY_TRANSMIT,
      key_rx_state = KEY_RX_NO_KEY_RECEIVE, rxKey = False, ctrl_dir_state = CTRL_DIR_FORCE_BOTH,
      adminControlledDirections = Both, operControlledDirections = Both, operEdge = False,
      dot1xAuthEapolFramesRx = 0, dot1xAuthEapolFramesTx = 0, dot1xAuthEapolStartFramesRx = 0,
      dot1xAuthEapolLogoffFramesRx = 0, dot1xAuthEapolRespFramesRx = 0,
      dot1xAuthEapolRespIdFramesRx = 0,
      dot1xAuthEapolReqIdFramesTx = 0, dot1xAuthEapolReqFramesTx = 0,
      dot1xAuthInvalidEapolFramesRx = 0, dot1xAuthEapLengthErrorFramesRx = 0,
      dot1xAuthLastEapolFrameVersion = 0, eapol_flags = 0, eap_if = eap_if_zero, identity = None,
      radius_class = [], radius_identifier = 0,
      last_eap_id = 0,
      eap_type_authsrv = 0, eap_type_supp = 0, eap = None, initializing = False,
      sm_changed = False, cb_log = []\<rparr>"

text \<open>\<^verbatim>\<open>eapol_auth_alloc\<close>.  The last argument is the result of \<^verbatim>\<open>eap_server_sm_init\<close>, whose interface is
  zeroed; the construction of its configuration and the allocation of the machine are not modelled.\<close>

definition eapol_auth_alloc ::
  "'e eapol_env \<Rightarrow> eapol_auth_config \<Rightarrow> u32 \<Rightarrow> 'e option \<Rightarrow> 'e eapol_state_machine option" where
  "eapol_auth_alloc E conf flags eap0 =
     (let sm = eapol_sm_zero
        \<lparr>eapol_flags := flags,
         auth_pae_state := AUTH_PAE_INITIALIZE, quietPeriod := 60, reAuthMax := 2,
         be_auth_state := BE_AUTH_INITIALIZE, serverTimeout := 30,
         reauth_timer_state := REAUTH_TIMER_INITIALIZE,
         reAuthPeriod := word_of_int (eap_reauth_period conf),
         reAuthEnabled := eap_reauth_period conf > 0,
         auth_key_tx_state := AUTH_KEY_TX_NO_KEY_TRANSMIT,
         key_rx_state := KEY_RX_NO_KEY_RECEIVE,
         ctrl_dir_state := CTRL_DIR_IN_OR_BOTH,
         portControl := Auto, radius_identifier := -1,
         keyTxEnabled := conf_wpa conf = 0 \<and> (default_wep_key conf \<noteq> None \<or> individual_wep_key_len conf > 0),
         portValid := conf_wpa conf = 0\<rparr>
      in case eap0 of
           None \<Rightarrow> None
         | Some e \<Rightarrow> Some (eapol_auth_initialize E (sm\<lparr>eap := Some e\<rparr>)))"

end
