(* ===== verification/Eapol_Auth_Inv.thy ===== *)
theory Eapol_Auth_Inv
  imports Eapol_Auth
begin

text \<open>
  Invariants of the authenticator.  The locale \<open>eapol_callbacks\<close> states what the state machines rely
  on when they call out: a callback leaves the PAE and backend states, the port status and the
  retry bookkeeping alone.  The lemmas about the state machines are proved once from these laws;
  the theory of the access point's callbacks interprets the locale.
\<close>

section \<open>Views of the state\<close>

text \<open>The port decisions among the calls made so far.\<close>

fun port_log :: "cb_call list \<Rightarrow> bool list" where
  "port_log [] = []"
| "port_log (CB_set_port_authorized b # l) = b # port_log l"
| "port_log (_ # l) = port_log l"

lemma port_log_append [simp]: "port_log (l @ l') = port_log l @ port_log l'"
  by (induction l rule: port_log.induct) simp_all

definition port_status_of :: "bool list \<Rightarrow> PortState" where
  "port_status_of l = (if l = [] then PortState_0 else if last l then Authorized else Unauthorized)"

lemma port_status_of_snoc [simp]: "port_status_of (l @ [b]) = (if b then Authorized else Unauthorized)"
  by (simp add: port_status_of_def)

text \<open>What the callbacks and the other five machines leave alone.\<close>

definition pae_view :: "'e eapol_state_machine \<Rightarrow>
    auth_pae \<times> PortState \<times> PortTypes \<times> u32 \<times> u32 \<times> u32 \<times> bool list" where
  "pae_view sm = (auth_pae_state sm, authPortStatus sm, portMode sm, reAuthCount sm, reAuthMax sm,
     quietPeriod sm, port_log (cb_log sm))"

lemma pae_view_simps [simp]:
  "pae_view (sm\<lparr>sm_changed := b\<rparr>) = pae_view sm"
  "pae_view (sm\<lparr>eap_if := i\<rparr>) = pae_view sm"
  "pae_view (sm\<lparr>eap := e\<rparr>) = pae_view sm"
  "pae_view (sm\<lparr>last_eap_id := n1\<rparr>) = pae_view sm"
  "pae_view (sm\<lparr>dot1xAuthEapolFramesTx := n2\<rparr>) = pae_view sm"
  "pae_view (sm\<lparr>dot1xAuthEapolReqIdFramesTx := n3\<rparr>) = pae_view sm"
  "pae_view (sm\<lparr>dot1xAuthEapolReqFramesTx := n4\<rparr>) = pae_view sm"
  "pae_view (sm\<lparr>be_auth_state := st1\<rparr>) = pae_view sm"
  "pae_view (sm\<lparr>authAbort := b\<rparr>) = pae_view sm"
  "pae_view (sm\<lparr>authStart := b\<rparr>) = pae_view sm"
  "pae_view (sm\<lparr>authFail := b\<rparr>) = pae_view sm"
  "pae_view (sm\<lparr>authTimeout := b\<rparr>) = pae_view sm"
  "pae_view (sm\<lparr>authSuccess := b\<rparr>) = pae_view sm"
  "pae_view (sm\<lparr>eapolEap := b\<rparr>) = pae_view sm"
  "pae_view (sm\<lparr>keyRun := b\<rparr>) = pae_view sm"
  "pae_view (sm\<lparr>keyDone := b\<rparr>) = pae_view sm"
  "pae_view (sm\<lparr>aWhile := t1\<rparr>) = pae_view sm"
  "pae_view (sm\<lparr>quietWhile := t1\<rparr>) = pae_view sm"
  "pae_view (sm\<lparr>reAuthWhen := t1\<rparr>) = pae_view sm"
  "pae_view (sm\<lparr>backendResponses := n5\<rparr>) = pae_view sm"
  "pae_view (sm\<lparr>backendAccessChallenges := n6\<rparr>) = pae_view sm"
  "pae_view (sm\<lparr>backendOtherRequestsToSupplicant := n7\<rparr>) = pae_view sm"
  "pae_view (sm\<lparr>backendAuthSuccesses := n8\<rparr>) = pae_view sm"
  "pae_view (sm\<lparr>backendAuthFails := n9\<rparr>) = pae_view sm"
  "pae_view (sm\<lparr>reauth_timer_state := st2\<rparr>) = pae_view sm"
  "pae_view (sm\<lparr>reAuthenticate := b\<rparr>) = pae_view sm"
  "pae_view (sm\<lparr>auth_key_tx_state := st3\<rparr>) = pae_view sm"
  "pae_view (sm\<lparr>key_rx_state := st4\<rparr>) = pae_view sm"
  "pae_view (sm\<lparr>rxKey := b\<rparr>) = pae_view sm"
  "pae_view (sm\<lparr>ctrl_dir_state := st5\<rparr>) = pae_view sm"
  "pae_view (sm\<lparr>operControlledDirections := d\<rparr>) = pae_view sm"
  "pae_view (sm\<lparr>initialize := b\<rparr>) = pae_view sm"
  "pae_view (sm\<lparr>initializing := b\<rparr>) = pae_view sm"
  by (simp_all add: pae_view_def)

lemma pae_view_step [simp]: "pae_view (eapol_auth_step sm) = pae_view sm"
  by (simp add: eapol_auth_step_def pae_view_def)

text \<open>The controlled port: its status is the last decision passed to \<^verbatim>\<open>set_port_authorized\<close>, closed
  in the states that refuse the station and open in those that admit it.\<close>

definition port_consistent :: "'e eapol_state_machine \<Rightarrow> bool" where
  "port_consistent sm \<longleftrightarrow>
     authPortStatus sm = port_status_of (port_log (cb_log sm)) \<and>
     (auth_pae_state sm \<in> {AUTH_PAE_DISCONNECTED, AUTH_PAE_HELD, AUTH_PAE_FORCE_UNAUTH}
        \<longrightarrow> authPortStatus sm = Unauthorized) \<and>
     (auth_pae_state sm \<in> {AUTH_PAE_AUTHENTICATED, AUTH_PAE_FORCE_AUTH}
        \<longrightarrow> authPortStatus sm = Authorized)"

text \<open>The retry counter with the default limit \<^verbatim>\<open>AUTH_PAE_DEFAULT_reAuthMax\<close>: at most one above the limit,
  and at most the limit where an attempt is under way or about to start.\<close>

definition reauth_bounded :: "'e eapol_state_machine \<Rightarrow> bool" where
  "reauth_bounded sm \<longleftrightarrow>
     reAuthMax sm = 2 \<and> unat (reAuthCount sm) \<le> 3 \<and>
     (auth_pae_state sm \<in> {AUTH_PAE_RESTART, AUTH_PAE_HELD, AUTH_PAE_AUTHENTICATING, AUTH_PAE_ABORTING,
        AUTH_PAE_DISCONNECTED, AUTH_PAE_AUTHENTICATED} \<longrightarrow> unat (reAuthCount sm) \<le> 2)"

text \<open>No success has been reported yet and the port is not open; \<open>Q\<close> is what is known of the EAP
  server's own state.\<close>

definition denied :: "('e \<Rightarrow> bool) \<Rightarrow> 'e eapol_state_machine \<Rightarrow> bool" where
  "denied Q sm \<longleftrightarrow>
     portControl sm = Auto \<and> auth_pae_state sm \<noteq> AUTH_PAE_FORCE_AUTH \<and> authPortStatus sm \<noteq> Authorized \<and>
     \<not> authSuccess sm \<and> \<not> eapSuccess (eap_if sm) \<and> \<not> aaaSuccess (eap_if sm) \<and> pred_option Q (eap sm) \<and>
     True \<notin> set (port_log (cb_log sm))"

lemma consistent_cong: "pae_view a = pae_view b \<Longrightarrow> port_consistent a = port_consistent b"
  by (simp add: port_consistent_def pae_view_def)

lemma bounded_cong: "pae_view a = pae_view b \<Longrightarrow> reauth_bounded a = reauth_bounded b"
  by (simp add: reauth_bounded_def pae_view_def)

section \<open>Induction over the scheduler\<close>

definition not_port_call :: "cb_call \<Rightarrow> bool" where
  "not_port_call c = (case c of CB_set_port_authorized _ \<Rightarrow> False | _ \<Rightarrow> True)"

lemma step_loop_inv:
  assumes round: "\<And>sm. P sm \<Longrightarrow> P (eapol_sm_round E sm)"
    and eap: "\<And>sm e e' i m. \<lbrakk>P sm; eap sm = Some e; env_eap_step E e (eap_if sm) = (e', i, m)\<rbrakk>
      \<Longrightarrow> P (sm\<lparr>eap := Some e', eap_if := i\<rparr>)"
    and resp: "\<And>sm. P sm \<Longrightarrow> P (sm\<lparr>eap_if := (eap_if sm)\<lparr>aaaEapResp := False\<rparr>\<rparr>)"
    and cb: "\<And>c sm. \<lbrakk>P sm; not_port_call c\<rbrakk> \<Longrightarrow> P (call_cb E c sm)"
    and step: "\<And>sm. P sm \<Longrightarrow> P (eapol_auth_step sm)"
  shows "P sm \<Longrightarrow> P (eapol_sm_step_loop n E sm)"
proof (induction n arbitrary: sm)
  case 0
  then show ?case by (simp add: step)
next
  case (Suc n)
  let ?r = "eapol_sm_round E sm"
  have r: "P ?r" by (rule round [OF Suc.prems])
  have fin: "P (eapol_sm_finish E s)" if "P s" for s
    using that by (simp add: eapol_sm_finish_def cb not_port_call_def)
  show ?case
  proof (cases "states_of sm \<noteq> states_of ?r \<or> \<not> env_alive E ?r \<or> eap ?r = None")
    case True
    then show ?thesis using r Suc.IH fin step by (auto simp: Let_def)
  next
    case False
    then obtain e e' i m where e: "eap ?r = Some e" "env_eap_step E e (eap_if ?r) = (e', i, m)"
      by (cases "env_eap_step E (the (eap ?r)) (eap_if ?r)") auto
    let ?s = "?r\<lparr>eap := Some e', eap_if := i\<rparr>"
    have s: "P ?s" by (rule eap [OF r e])
    show ?thesis
    proof (cases m)
      case True
      then show ?thesis using False e s Suc.IH
        by (auto simp: Let_def step)
    next
      case m: False
      let ?t = "?s\<lparr>eap_if := (eap_if ?s)\<lparr>aaaEapResp := False\<rparr>\<rparr>"
      have t: "P ?t" by (rule resp [OF s])
      have "P (eapol_sm_finish E (call_cb E (CB_aaa_send d) ?t))" for d
        by (rule fin) (rule cb [OF t], simp add: not_port_call_def)
      then show ?thesis using False e m s t fin [OF s]
        by (auto simp: Let_def split: option.split)
    qed
  qed
qed

section \<open>What the machines rely on\<close>

locale eapol_callbacks =
  fixes E :: "'e eapol_env"
  assumes cb_pae: "pae_view (env_cb E c sm) = pae_view sm"
    and cb_success: "authSuccess (env_cb E c sm) = authSuccess sm"
    and cb_control: "portControl sm = Auto \<Longrightarrow> portControl (env_cb E c sm) = Auto"
    and cb_eapSuccess: "eapSuccess (eap_if (env_cb E c sm)) = eapSuccess (eap_if sm)"
    and cb_aaaSuccess: "aaaSuccess (eap_if (env_cb E c sm)) = aaaSuccess (eap_if sm)"
    and cb_eap: "eap (env_cb E c sm) = eap sm"
begin

lemma cb_fields [simp]:
  "auth_pae_state (env_cb E c sm) = auth_pae_state sm"
  "authPortStatus (env_cb E c sm) = authPortStatus sm"
  "portMode (env_cb E c sm) = portMode sm"
  "reAuthCount (env_cb E c sm) = reAuthCount sm"
  "reAuthMax (env_cb E c sm) = reAuthMax sm"
  "quietPeriod (env_cb E c sm) = quietPeriod sm"
  "port_log (cb_log (env_cb E c sm)) = port_log (cb_log sm)"
  using cb_pae [of c sm] by (simp_all add: pae_view_def)

lemma call_pae [simp]: "not_port_call c \<Longrightarrow> pae_view (call_cb E c sm) = pae_view sm"
  by (cases c) (simp_all add: call_cb_def pae_view_def not_port_call_def)

lemma tx_req_pae [simp]: "pae_view (eapol_auth_tx_req E sm) = pae_view sm"
  by (simp add: eapol_auth_tx_req_def Let_def not_port_call_def split: option.split)

lemma BE_pae [simp]: "pae_view (sm_BE_AUTH_Step E sm) = pae_view sm"
  by (simp add: sm_BE_AUTH_Step_def sm_BE_AUTH_INITIALIZE_Enter_def sm_BE_AUTH_REQUEST_Enter_def
      sm_BE_AUTH_RESPONSE_Enter_def sm_BE_AUTH_SUCCESS_Enter_def sm_BE_AUTH_FAIL_Enter_def
      sm_BE_AUTH_TIMEOUT_Enter_def sm_BE_AUTH_IDLE_Enter_def sm_BE_AUTH_IGNORE_Enter_def
      enter_be_def Let_def not_port_call_def split: be_auth.split)

lemma REAUTH_pae [simp]: "pae_view (sm_REAUTH_TIMER_Step E sm) = pae_view sm"
  by (simp add: sm_REAUTH_TIMER_Step_def sm_REAUTH_TIMER_INITIALIZE_Enter_def not_port_call_def
      sm_REAUTH_TIMER_REAUTHENTICATE_Enter_def enter_reauth_def Let_def split: reauth_timer.split)

lemma KEY_TX_pae [simp]: "pae_view (sm_AUTH_KEY_TX_Step E sm) = pae_view sm"
  by (simp add: sm_AUTH_KEY_TX_Step_def sm_AUTH_KEY_TX_NO_KEY_TRANSMIT_Enter_def not_port_call_def
      sm_AUTH_KEY_TX_KEY_TRANSMIT_Enter_def enter_key_tx_def Let_def split: auth_key_tx.split)

lemma KEY_RX_pae [simp]: "pae_view (sm_KEY_RX_Step sm) = pae_view sm"
  by (simp add: sm_KEY_RX_Step_def enter_key_rx_def Let_def split: key_rx.split)

lemma CTRL_pae [simp]: "pae_view (sm_CTRL_DIR_Step sm) = pae_view sm"
  by (simp add: sm_CTRL_DIR_Step_def sm_CTRL_DIR_FORCE_BOTH_Enter_def sm_CTRL_DIR_IN_OR_BOTH_Enter_def
      enter_ctrl_def Let_def split: ctrl_dir.split)

text \<open>A round changes the view only through the PAE machine.\<close>

lemma round_pae: "pae_view (eapol_sm_round E sm) = pae_view (sm_AUTH_PAE_Step E sm)"
  by (simp add: eapol_sm_round_def Let_def if_alive_def)

text \<open>The PAE machine keeps both invariants.\<close>

lemmas pae_enter_defs =
  sm_AUTH_PAE_INITIALIZE_Enter_def sm_AUTH_PAE_DISCONNECTED_Enter_def sm_AUTH_PAE_RESTART_Enter_def
  sm_AUTH_PAE_CONNECTING_Enter_def sm_AUTH_PAE_HELD_Enter_def sm_AUTH_PAE_AUTHENTICATED_Enter_def
  sm_AUTH_PAE_AUTHENTICATING_Enter_def sm_AUTH_PAE_ABORTING_Enter_def
  sm_AUTH_PAE_FORCE_AUTH_Enter_def sm_AUTH_PAE_FORCE_UNAUTH_Enter_def
  enter_pae_def eapol_auth_tx_canned_eap_def call_cb_def

lemma pae_enter_view:
  "pae_view (sm_AUTH_PAE_INITIALIZE_Enter g sm) =
     (AUTH_PAE_INITIALIZE, authPortStatus sm, Auto, reAuthCount sm, reAuthMax sm, quietPeriod sm,
      port_log (cb_log sm))"
  "pae_view (sm_AUTH_PAE_DISCONNECTED_Enter E g sm) =
     (AUTH_PAE_DISCONNECTED, Unauthorized, portMode sm, 0, reAuthMax sm, quietPeriod sm,
      port_log (cb_log sm) @ [False])"
  "pae_view (sm_AUTH_PAE_RESTART_Enter g sm) =
     (AUTH_PAE_RESTART, authPortStatus sm, portMode sm, reAuthCount sm, reAuthMax sm, quietPeriod sm,
      port_log (cb_log sm))"
  "pae_view (sm_AUTH_PAE_CONNECTING_Enter g sm) =
     (AUTH_PAE_CONNECTING, authPortStatus sm, portMode sm, reAuthCount sm + 1, reAuthMax sm,
      quietPeriod sm, port_log (cb_log sm))"
  "pae_view (sm_AUTH_PAE_HELD_Enter E g sm) =
     (AUTH_PAE_HELD, Unauthorized, portMode sm, reAuthCount sm, reAuthMax sm, quietPeriod sm,
      port_log (cb_log sm) @ [False])"
  "pae_view (sm_AUTH_PAE_AUTHENTICATED_Enter E g sm) =
     (AUTH_PAE_AUTHENTICATED, Authorized, portMode sm, 0, reAuthMax sm, quietPeriod sm,
      port_log (cb_log sm) @ [True])"
  "pae_view (sm_AUTH_PAE_AUTHENTICATING_Enter g sm) =
     (AUTH_PAE_AUTHENTICATING, authPortStatus sm, portMode sm, reAuthCount sm, reAuthMax sm,
      quietPeriod sm, port_log (cb_log sm))"
  "pae_view (sm_AUTH_PAE_ABORTING_Enter g sm) =
     (AUTH_PAE_ABORTING, authPortStatus sm, portMode sm, reAuthCount sm, reAuthMax sm, quietPeriod sm,
      port_log (cb_log sm))"
  "pae_view (sm_AUTH_PAE_FORCE_AUTH_Enter E g sm) =
     (AUTH_PAE_FORCE_AUTH, Authorized, ForceAuthorized, reAuthCount sm, reAuthMax sm, quietPeriod sm,
      port_log (cb_log sm) @ [True])"
  "pae_view (sm_AUTH_PAE_FORCE_UNAUTH_Enter E g sm) =
     (AUTH_PAE_FORCE_UNAUTH, Unauthorized, ForceUnauthorized, reAuthCount sm, reAuthMax sm,
      quietPeriod sm, port_log (cb_log sm) @ [False])"
  by (simp_all add: pae_enter_defs pae_view_def Let_def)

lemmas pae_enter_fields = pae_enter_view [unfolded pae_view_def prod.inject]

lemma PAE_consistent: "port_consistent sm \<Longrightarrow> port_consistent (sm_AUTH_PAE_Step E sm)"
  unfolding sm_AUTH_PAE_Step_def
  by (cases "auth_pae_state sm") (auto simp: port_consistent_def pae_enter_fields)

lemma PAE_bounded: "reauth_bounded sm \<Longrightarrow> reauth_bounded (sm_AUTH_PAE_Step E sm)"
  unfolding sm_AUTH_PAE_Step_def
  by (cases "auth_pae_state sm")
    (auto simp: reauth_bounded_def pae_enter_fields unat_word_ariths word_le_nat_alt word_less_nat_alt)

lemma consistent_run: "port_consistent sm \<Longrightarrow> port_consistent (eapol_sm_step_run E sm)"
  unfolding eapol_sm_step_run_def
  by (rule step_loop_inv [where P = port_consistent])
    (simp_all add: consistent_cong [OF round_pae] PAE_consistent cong: consistent_cong)

lemma bounded_run: "reauth_bounded sm \<Longrightarrow> reauth_bounded (eapol_sm_step_run E sm)"
  unfolding eapol_sm_step_run_def
  by (rule step_loop_inv [where P = reauth_bounded])
    (simp_all add: bounded_cong [OF round_pae] PAE_bounded cong: bounded_cong)

text \<open>As long as the EAP server reports no success, the port stays closed.\<close>

lemmas denied_laws = cb_success cb_control cb_eapSuccess cb_aaaSuccess cb_eap

lemma call_denied [simp]: "not_port_call c \<Longrightarrow> denied Q sm \<Longrightarrow> denied Q (call_cb E c sm)"
  by (cases c) (simp_all add: call_cb_def denied_def denied_laws not_port_call_def)

lemma PAE_denied: "denied Q sm \<Longrightarrow> denied Q (sm_AUTH_PAE_Step E sm)"
  unfolding sm_AUTH_PAE_Step_def
  by (cases "auth_pae_state sm")
    (simp_all add: denied_def pae_enter_defs Let_def denied_laws)

lemma tx_req_denied [simp]: "denied Q sm \<Longrightarrow> denied Q (eapol_auth_tx_req E sm)"
  by (simp add: eapol_auth_tx_req_def denied_def call_cb_def denied_laws Let_def
      split: option.split)

lemma BE_denied: 
  assumes "denied Q sm" shows "denied Q (sm_BE_AUTH_Step E sm)"
proof -
  have tx: "portControl (eapol_auth_tx_req E s) = Auto" "\<not> authSuccess (eapol_auth_tx_req E s)"
      "\<not> eapSuccess (eap_if (eapol_auth_tx_req E s))" "\<not> aaaSuccess (eap_if (eapol_auth_tx_req E s))"
      "pred_option Q (eap (eapol_auth_tx_req E s))" "True \<notin> set (port_log (cb_log (eapol_auth_tx_req E s)))" "authPortStatus (eapol_auth_tx_req E s) \<noteq> Authorized"
      "auth_pae_state (eapol_auth_tx_req E s) \<noteq> AUTH_PAE_FORCE_AUTH" if "denied Q s" for s
    using tx_req_denied [OF that] by (simp_all add: denied_def)
  show ?thesis
    using assms unfolding sm_BE_AUTH_Step_def sm_BE_AUTH_INITIALIZE_Enter_def sm_BE_AUTH_REQUEST_Enter_def
      sm_BE_AUTH_RESPONSE_Enter_def sm_BE_AUTH_SUCCESS_Enter_def sm_BE_AUTH_FAIL_Enter_def
      sm_BE_AUTH_TIMEOUT_Enter_def sm_BE_AUTH_IDLE_Enter_def sm_BE_AUTH_IGNORE_Enter_def
      enter_be_def
    by (cases "be_auth_state sm")
      (simp_all add: Let_def denied_def call_cb_def denied_laws tx [unfolded denied_def])
qed

lemma others_denied: 
  assumes "denied Q sm"
  shows "denied Q (sm_REAUTH_TIMER_Step E sm)" "denied Q (sm_AUTH_KEY_TX_Step E sm)"
    "denied Q (sm_KEY_RX_Step sm)" "denied Q (sm_CTRL_DIR_Step sm)"
  using assms
  by (simp_all add: denied_def call_cb_def denied_laws Let_def
      sm_REAUTH_TIMER_Step_def sm_REAUTH_TIMER_INITIALIZE_Enter_def
      sm_REAUTH_TIMER_REAUTHENTICATE_Enter_def enter_reauth_def
      sm_AUTH_KEY_TX_Step_def sm_AUTH_KEY_TX_NO_KEY_TRANSMIT_Enter_def
      sm_AUTH_KEY_TX_KEY_TRANSMIT_Enter_def enter_key_tx_def
      sm_KEY_RX_Step_def enter_key_rx_def
      sm_CTRL_DIR_Step_def sm_CTRL_DIR_FORCE_BOTH_Enter_def sm_CTRL_DIR_IN_OR_BOTH_Enter_def
      enter_ctrl_def split: reauth_timer.split auth_key_tx.split key_rx.split ctrl_dir.split)

lemma round_denied: "denied Q sm \<Longrightarrow> denied Q (eapol_sm_round E sm)"
  by (simp add: eapol_sm_round_def if_alive_def Let_def PAE_denied BE_denied others_denied)

lemma denied_run:
  assumes quiet: "\<And>e i e' i' m. \<lbrakk>env_eap_step E e i = (e', i', m); Q e; \<not> eapSuccess i; \<not> aaaSuccess i\<rbrakk>
      \<Longrightarrow> Q e' \<and> \<not> eapSuccess i' \<and> \<not> aaaSuccess i'"
    and "denied Q sm"
  shows "denied Q (eapol_sm_step_run E sm)"
  unfolding eapol_sm_step_run_def
proof (rule step_loop_inv [where P = "denied Q"])
  fix sm :: "'e eapol_state_machine" and e e' i m
  assume "denied Q sm" "eap sm = Some e" "env_eap_step E e (eap_if sm) = (e', i, m)"
  then show "denied Q (sm\<lparr>eap := Some e', eap_if := i\<rparr>)"
    using quiet by (auto simp: denied_def)
qed (simp_all add: assms round_denied, simp_all add: denied_def eapol_auth_step_def)

end

end
