(* ===== verification/Pmksa_Cache.thy ===== *)
theory Pmksa_Cache
  imports Eapol_Auth
begin

text \<open>
  The PMKSA cache of \<^verbatim>\<open>src/ap/pmksa_cache_auth.c\<close>.  The entries live in a heap, a map from addresses to
  entries.  They are linked twice: the chain of \<^verbatim>\<open>next\<close> pointers that starts at \<^verbatim>\<open>pmksa->pmksa\<close> is the
  list of addresses \<open>pmksa_list\<close>, ordered by expiration, and the chain of \<^verbatim>\<open>hnext\<close> pointers that starts
  at \<^verbatim>\<open>pmksa->pmkid[h]\<close> is \<open>pmkid_bucket h\<close>.  Freeing an entry removes it from the heap, and an
  operation that follows a pointer to a freed entry has the result \<open>None\<close>.  \<open>free_log\<close> holds the
  arguments of the calls to \<^verbatim>\<open>free_cb\<close> and \<open>expire_timer\<close> the pending timeout of
  \<^verbatim>\<open>pmksa_cache_expire\<close>.  The result of an allocation, the current time and the keyed hash functions
  are arguments.
\<close>

section \<open>Data\<close>

record rsn_pmksa_cache_entry =
  pe_pmkid :: bytes
  pe_pmk :: bytes
  pe_expiration :: int
  pe_akmp :: int
  pe_spa :: bytes
  pe_identity :: "bytes option"
  pe_radius_class :: "bytes list"
  pe_eap_type_authsrv :: u8
  pe_vlan_id :: int
  pe_opportunistic :: bool

record rsn_pmksa_cache =
  pmkid_bucket :: "nat \<Rightarrow> nat list"
  pmksa_list :: "nat list"
  pmksa_count :: int
  pmksa_heap :: "nat \<Rightarrow> rsn_pmksa_cache_entry option"
  free_log :: "nat list"
  expire_timer :: "int option"

abbreviation (input) pmksa_cache_max_entries :: int where "pmksa_cache_max_entries \<equiv> 1024"
abbreviation (input) dot11RSNAConfigPMKLifetime :: int where "dot11RSNAConfigPMKLifetime \<equiv> 43200"
abbreviation (input) PMK_LEN :: nat where "PMK_LEN \<equiv> 32"
abbreviation (input) PMKID_LEN :: nat where "PMKID_LEN \<equiv> 16"

definition PMKID_HASH :: "bytes \<Rightarrow> nat" where
  "PMKID_HASH pmkid = unat (pmkid ! 0 AND 0x7f)"

definition wpa_key_mgmt_sha256 :: "int \<Rightarrow> bool" where
  "wpa_key_mgmt_sha256 akm \<longleftrightarrow> akm = 256 \<or> akm = 128"

text \<open>\<^verbatim>\<open>rsn_pmkid\<close> of \<^verbatim>\<open>src/common/wpa_common.c\<close>; \<open>hmac\<close> takes the choice of the hash function, the key
  and the parts of the message.\<close>

type_synonym hmac = "bool \<Rightarrow> bytes \<Rightarrow> bytes list \<Rightarrow> bytes"

definition rsn_pmkid :: "hmac \<Rightarrow> bytes \<Rightarrow> bytes \<Rightarrow> bytes \<Rightarrow> bool \<Rightarrow> bytes" where
  "rsn_pmkid hmac pmk aa spa use_sha256 =
     take PMKID_LEN (hmac use_sha256 pmk [[0x50, 0x4d, 0x4b, 0x20, 0x4e, 0x61, 0x6d, 0x65], aa, spa])"

section \<open>Removing entries\<close>

text \<open>The search for an entry in a chain, and its removal.\<close>

fun unlink :: "nat \<Rightarrow> nat list \<Rightarrow> nat list" where
  "unlink a [] = []"
| "unlink a (pos # ps) = (if pos = a then ps else pos # unlink a ps)"

definition pmksa_cache_free_entry :: "rsn_pmksa_cache \<Rightarrow> nat \<Rightarrow> rsn_pmksa_cache option" where
  "pmksa_cache_free_entry c a =
     (case pmksa_heap c a of
        None \<Rightarrow> None
      | Some e \<Rightarrow>
          let h = PMKID_HASH (pe_pmkid e) in
          Some (c\<lparr>pmksa_count := pmksa_count c - 1,
                  free_log := free_log c @ [a],
                  pmkid_bucket := (pmkid_bucket c)(h := unlink a (pmkid_bucket c h)),
                  pmksa_list := unlink a (pmksa_list c),
                  pmksa_heap := (pmksa_heap c)(a := None)\<rparr>))"

text \<open>The argument \<open>now\<close> of the next two functions is the time \<^verbatim>\<open>os_get_time\<close> returns.\<close>

definition pmksa_cache_set_expiration :: "int \<Rightarrow> rsn_pmksa_cache \<Rightarrow> rsn_pmksa_cache option" where
  "pmksa_cache_set_expiration now c =
     (case pmksa_list c of
        [] \<Rightarrow> Some (c\<lparr>expire_timer := None\<rparr>)
      | a # _ \<Rightarrow>
          (case pmksa_heap c a of
             None \<Rightarrow> None
           | Some e \<Rightarrow>
               let sec = pe_expiration e - now;
                   sec = (if sec < 0 then 0 else sec)
               in Some (c\<lparr>expire_timer := Some (sec + 1)\<rparr>)))"

lemma length_unlink: "length (unlink a xs) \<le> length xs"
  by (induction xs) auto

lemma free_entry_list:
  "pmksa_cache_free_entry c a = Some c' \<Longrightarrow> pmksa_list c' = unlink a (pmksa_list c)"
  by (auto simp: pmksa_cache_free_entry_def Let_def split: option.splits)

function pmksa_cache_expire_loop :: "int \<Rightarrow> rsn_pmksa_cache \<Rightarrow> rsn_pmksa_cache option" where
  "pmksa_cache_expire_loop now c =
     (case pmksa_list c of
        [] \<Rightarrow> Some c
      | a # rest \<Rightarrow>
          (case pmksa_heap c a of
             None \<Rightarrow> None
           | Some e \<Rightarrow>
               if pe_expiration e \<le> now then
                 (case pmksa_cache_free_entry (c\<lparr>pmksa_list := rest\<rparr>) a of
                    None \<Rightarrow> None
                  | Some c' \<Rightarrow> pmksa_cache_expire_loop now c')
               else Some c))"
  by auto
termination
  by (relation "measure (\<lambda>(now, c). length (pmksa_list c))")
    (auto dest!: free_entry_list simp: le_imp_less_Suc length_unlink)

declare pmksa_cache_expire_loop.simps [simp del]

definition pmksa_cache_expire :: "int \<Rightarrow> rsn_pmksa_cache \<Rightarrow> rsn_pmksa_cache option" where
  "pmksa_cache_expire now c =
     Option.bind (pmksa_cache_expire_loop now c) (pmksa_cache_set_expiration now)"

section \<open>Looking up entries\<close>

text \<open>The walk over the chain that \<^verbatim>\<open>pmksa_cache_auth_get\<close> has selected; the outer option is the
  validity of the pointers, the inner one the returned pointer.\<close>

fun auth_get_loop :: "(nat \<Rightarrow> rsn_pmksa_cache_entry option) \<Rightarrow> bytes option \<Rightarrow> bytes option \<Rightarrow> nat list \<Rightarrow>
    nat option option" where
  "auth_get_loop H spa pmkid [] = Some None"
| "auth_get_loop H spa pmkid (a # as) =
     (case H a of
        None \<Rightarrow> None
      | Some e \<Rightarrow>
          if (case spa of None \<Rightarrow> True | Some s \<Rightarrow> pe_spa e = s) \<and>
             (case pmkid of None \<Rightarrow> True | Some p \<Rightarrow> pe_pmkid e = p)
          then Some (Some a) else auth_get_loop H spa pmkid as)"

definition pmksa_cache_auth_get :: "rsn_pmksa_cache \<Rightarrow> bytes option \<Rightarrow> bytes option \<Rightarrow> nat option option" where
  "pmksa_cache_auth_get c spa pmkid =
     auth_get_loop (pmksa_heap c) spa pmkid
       (case pmkid of Some p \<Rightarrow> pmkid_bucket c (PMKID_HASH p) | None \<Rightarrow> pmksa_list c)"

text \<open>The loop of \<^verbatim>\<open>pmksa_cache_get_okc\<close>.  The \<^verbatim>\<open>continue\<close> for an entry of another station repeats the loop
  with the same entry; a loop that does not end has the value \<open>None\<close>.\<close>

partial_function (option) get_okc_loop ::
  "hmac \<Rightarrow> (nat \<Rightarrow> rsn_pmksa_cache_entry option) \<Rightarrow> bytes \<Rightarrow> bytes \<Rightarrow> bytes \<Rightarrow> nat list \<Rightarrow> nat option option" where
  "get_okc_loop hmac H aa spa pmkid entry =
     (case entry of
        [] \<Rightarrow> Some None
      | a # rest \<Rightarrow>
          (case H a of
             None \<Rightarrow> None
           | Some e \<Rightarrow>
               if pe_spa e \<noteq> spa then get_okc_loop hmac H aa spa pmkid entry
               else if rsn_pmkid hmac (pe_pmk e) aa spa (wpa_key_mgmt_sha256 (pe_akmp e)) = pmkid
               then Some (Some a)
               else get_okc_loop hmac H aa spa pmkid rest))"

definition pmksa_cache_get_okc ::
  "hmac \<Rightarrow> rsn_pmksa_cache \<Rightarrow> bytes \<Rightarrow> bytes \<Rightarrow> bytes \<Rightarrow> nat option option" where
  "pmksa_cache_get_okc hmac c aa spa pmkid =
     get_okc_loop hmac (pmksa_heap c) aa spa pmkid (pmksa_list c)"

section \<open>Adding entries\<close>

text \<open>The position by expiration time.\<close>

fun link_pos :: "(nat \<Rightarrow> rsn_pmksa_cache_entry option) \<Rightarrow> int \<Rightarrow> nat \<Rightarrow> nat list \<Rightarrow> nat list option" where
  "link_pos H x a [] = Some [a]"
| "link_pos H x a (pos # ps) =
     (case H pos of
        None \<Rightarrow> None
      | Some e \<Rightarrow> if pe_expiration e > x then Some (a # pos # ps)
                  else map_option ((#) pos) (link_pos H x a ps))"

definition pmksa_cache_link_entry ::
  "rsn_pmksa_cache \<Rightarrow> nat \<Rightarrow> rsn_pmksa_cache_entry \<Rightarrow> rsn_pmksa_cache option" where
  "pmksa_cache_link_entry c a e =
     (let h = PMKID_HASH (pe_pmkid e);
          c = c\<lparr>pmksa_heap := (pmksa_heap c)(a := Some e)\<rparr> in
      case link_pos (pmksa_heap c) (pe_expiration e) a (pmksa_list c) of
        None \<Rightarrow> None
      | Some l \<Rightarrow>
          Some (c\<lparr>pmksa_list := l,
                  pmkid_bucket := (pmkid_bucket c)(h := a # pmkid_bucket c h),
                  pmksa_count := pmksa_count c + 1\<rparr>))"

text \<open>\<open>id_malloc\<close> tells whether the copy of the identity can be allocated; \<open>vlan\<close> is the VLAN of the
  station that owns the EAPOL state machine.\<close>

definition pmksa_cache_from_eapol_data ::
  "bool \<Rightarrow> int \<Rightarrow> rsn_pmksa_cache_entry \<Rightarrow> 'e eapol_state_machine option \<Rightarrow> rsn_pmksa_cache_entry" where
  "pmksa_cache_from_eapol_data id_malloc vlan entry eapol =
     (case eapol of
        None \<Rightarrow> entry
      | Some sm \<Rightarrow>
          entry\<lparr>pe_identity := (if id_malloc then identity sm else None),
                pe_radius_class := radius_class sm,
                pe_eap_type_authsrv := eap_type_authsrv sm,
                pe_vlan_id := vlan\<rparr>)"

text \<open>The result is the machine and the VLAN written to its station.\<close>

definition pmksa_cache_to_eapol_data ::
  "bool \<Rightarrow> rsn_pmksa_cache_entry \<Rightarrow> 'e eapol_state_machine \<Rightarrow> 'e eapol_state_machine \<times> int" where
  "pmksa_cache_to_eapol_data id_malloc entry sm =
     (let sm = (case pe_identity entry of
                  None \<Rightarrow> sm
                | Some i \<Rightarrow> sm\<lparr>identity := (if id_malloc then Some i else None)\<rparr>)
      in (sm\<lparr>radius_class := pe_radius_class entry, eap_type_authsrv := pe_eap_type_authsrv entry\<rparr>,
          pe_vlan_id entry))"

definition pmksa_entry_zero :: rsn_pmksa_cache_entry where
  "pmksa_entry_zero =
     \<lparr>pe_pmkid = replicate PMKID_LEN 0, pe_pmk = [], pe_expiration = 0, pe_akmp = 0,
      pe_spa = replicate 6 0, pe_identity = None, pe_radius_class = [], pe_eap_type_authsrv = 0,
      pe_vlan_id = 0, pe_opportunistic = False\<rparr>"

text \<open>\<open>addr\<close> is the result of the allocation of the entry.\<close>

definition pmksa_cache_auth_add ::
  "hmac \<Rightarrow> int \<Rightarrow> nat option \<Rightarrow> bool \<Rightarrow> rsn_pmksa_cache \<Rightarrow> bytes \<Rightarrow> bytes \<Rightarrow> bytes \<Rightarrow> int \<Rightarrow>
   'e eapol_state_machine option \<Rightarrow> int \<Rightarrow> int \<Rightarrow> (nat option \<times> rsn_pmksa_cache) option" where
  "pmksa_cache_auth_add hmac now addr id_malloc c pmk aa spa session_timeout eapol vlan akmp =
     (if length pmk > PMK_LEN then Some (None, c)
      else case addr of
        None \<Rightarrow> Some (None, c)
      | Some a \<Rightarrow>
          let entry = pmksa_entry_zero
                \<lparr>pe_pmk := pmk,
                 pe_pmkid := rsn_pmkid hmac pmk aa spa (wpa_key_mgmt_sha256 akmp),
                 pe_expiration := now + (if session_timeout > 0 then session_timeout
                                         else dot11RSNAConfigPMKLifetime),
                 pe_akmp := akmp,
                 pe_spa := spa\<rparr>;
              entry = pmksa_cache_from_eapol_data id_malloc vlan entry eapol in
          Option.bind (pmksa_cache_auth_get c (Some spa) None) (\<lambda>pos.
          Option.bind (case pos of None \<Rightarrow> Some c | Some p \<Rightarrow> pmksa_cache_free_entry c p) (\<lambda>c.
          Option.bind
            (if pmksa_count c \<ge> pmksa_cache_max_entries \<and> pmksa_list c \<noteq> []
             then pmksa_cache_free_entry c (hd (pmksa_list c)) else Some c) (\<lambda>c.
          map_option (\<lambda>c. (Some a, c)) (pmksa_cache_link_entry c a entry)))))"

definition pmksa_cache_add_okc ::
  "nat option \<Rightarrow> bool \<Rightarrow> rsn_pmksa_cache \<Rightarrow> rsn_pmksa_cache_entry \<Rightarrow> bytes \<Rightarrow>
   (nat option \<times> rsn_pmksa_cache) option" where
  "pmksa_cache_add_okc addr id_malloc c old_entry pmkid =
     (case addr of
        None \<Rightarrow> Some (None, c)
      | Some a \<Rightarrow>
          let entry = pmksa_entry_zero
                \<lparr>pe_pmkid := pmkid, pe_pmk := pe_pmk old_entry,
                 pe_expiration := pe_expiration old_entry, pe_akmp := pe_akmp old_entry,
                 pe_spa := pe_spa old_entry, pe_opportunistic := True,
                 pe_identity := (if id_malloc then pe_identity old_entry else None),
                 pe_radius_class := pe_radius_class old_entry,
                 pe_eap_type_authsrv := pe_eap_type_authsrv old_entry,
                 pe_vlan_id := pe_vlan_id old_entry\<rparr>
          in map_option (\<lambda>c. (Some a, c)) (pmksa_cache_link_entry c a entry))"

definition pmksa_cache_auth_init :: rsn_pmksa_cache where
  "pmksa_cache_auth_init =
     \<lparr>pmkid_bucket = \<lambda>_. [], pmksa_list = [], pmksa_count = 0, pmksa_heap = \<lambda>_. None, free_log = [],
      expire_timer = None\<rparr>"

section \<open>The invariant of the cache\<close>

definition expiry :: "(nat \<Rightarrow> rsn_pmksa_cache_entry option) \<Rightarrow> nat \<Rightarrow> int" where
  "expiry H a = (case H a of Some e \<Rightarrow> pe_expiration e | None \<Rightarrow> 0)"

definition pmksa_wf :: "rsn_pmksa_cache \<Rightarrow> bool" where
  "pmksa_wf c \<longleftrightarrow>
     distinct (pmksa_list c) \<and> set (pmksa_list c) = dom (pmksa_heap c) \<and>
     pmksa_count c = int (length (pmksa_list c)) \<and>
     sorted (map (expiry (pmksa_heap c)) (pmksa_list c)) \<and>
     (\<forall>h. distinct (pmkid_bucket c h) \<and>
          set (pmkid_bucket c h) =
            {a. \<exists>e. pmksa_heap c a = Some e \<and> PMKID_HASH (pe_pmkid e) = h})"

lemma unlink_remove1: "unlink a xs = remove1 a xs"
  by (induction xs) auto

lemma expiry_upd [simp]: "b \<noteq> a \<Longrightarrow> expiry (H(a := x)) b = expiry H b"
  by (simp add: expiry_def)

lemma expiry_some [simp]: "H a = Some e \<Longrightarrow> expiry H a = pe_expiration e"
  by (simp add: expiry_def)

lemma map_expiry_upd: "a \<notin> set xs \<Longrightarrow> map (expiry (H(a := x))) xs = map (expiry H) xs"
  by (auto simp: expiry_def)

lemma pmksa_init_wf: "pmksa_wf pmksa_cache_auth_init"
  by (simp add: pmksa_wf_def pmksa_cache_auth_init_def dom_def)

lemma free_entry_wf:
  assumes wf: "pmksa_wf c" and a: "pmksa_heap c a = Some e"
  obtains c' where "pmksa_cache_free_entry c a = Some c'" "pmksa_wf c'"
    "pmksa_heap c' = (pmksa_heap c)(a := None)" "pmksa_list c' = remove1 a (pmksa_list c)"
    "pmksa_count c' = pmksa_count c - 1" "free_log c' = free_log c @ [a]"
proof -
  let ?h = "PMKID_HASH (pe_pmkid e)"
  let ?c = "c\<lparr>pmksa_count := pmksa_count c - 1, free_log := free_log c @ [a],
      pmkid_bucket := (pmkid_bucket c)(?h := remove1 a (pmkid_bucket c ?h)),
      pmksa_list := remove1 a (pmksa_list c), pmksa_heap := (pmksa_heap c)(a := None)\<rparr>"
  have in_list: "a \<in> set (pmksa_list c)" using wf a by (auto simp: pmksa_wf_def)
  then have ne: "length (pmksa_list c) = Suc (length (pmksa_list c) - 1)"
    by (cases "pmksa_list c") auto
  have bucket: "distinct (pmkid_bucket c h)"
    "set (pmkid_bucket c h) = {a. \<exists>e. pmksa_heap c a = Some e \<and> PMKID_HASH (pe_pmkid e) = h}" for h
    using wf by (simp_all add: pmksa_wf_def)
  have d: "distinct (pmksa_list c)" "set (pmksa_list c) = dom (pmksa_heap c)"
    "pmksa_count c = int (length (pmksa_list c))" "sorted (map (expiry (pmksa_heap c)) (pmksa_list c))"
    using wf by (simp_all add: pmksa_wf_def)
  have "map (expiry ((pmksa_heap c)(a := None))) (remove1 a (pmksa_list c)) =
      map (expiry (pmksa_heap c)) (remove1 a (pmksa_list c))"
    using d(1) by (simp add: map_expiry_upd)
  then have s: "sorted (map (expiry ((pmksa_heap c)(a := None))) (remove1 a (pmksa_list c)))"
    using sorted_map_remove1 [OF d(4), of a] by (simp only:)
  moreover have "set (remove1 a (pmksa_list c)) = dom ((pmksa_heap c)(a := None))" using d by auto
  moreover have "set (((pmkid_bucket c)(?h := remove1 a (pmkid_bucket c ?h))) h) =
      {b. \<exists>f. ((pmksa_heap c)(a := None)) b = Some f \<and> PMKID_HASH (pe_pmkid f) = h}" for h
    using a bucket by (cases "h = ?h") auto
  moreover have "distinct (((pmkid_bucket c)(?h := remove1 a (pmkid_bucket c ?h))) h)" for h
    using bucket(1) by simp
  moreover have "pmksa_count c - 1 = int (length (remove1 a (pmksa_list c)))"
    using in_list ne d(3) by (metis add_diff_cancel_left' length_remove1 of_nat_Suc)
  ultimately have "pmksa_wf ?c"
    using d(1) by (simp add: pmksa_wf_def)
  moreover have "pmksa_cache_free_entry c a = Some ?c"
    by (simp add: pmksa_cache_free_entry_def a unlink_remove1 Let_def)
  ultimately show thesis by (intro that [of ?c]) simp_all
qed

text \<open>Expiration drops exactly the entries whose time has come.\<close>

definition unexpired :: "int \<Rightarrow> (nat \<Rightarrow> rsn_pmksa_cache_entry option) \<Rightarrow> nat \<Rightarrow> rsn_pmksa_cache_entry option" where
  "unexpired now H a = (case H a of Some e \<Rightarrow> if pe_expiration e \<le> now then None else Some e | None \<Rightarrow> None)"

lemma link_pos_insert:
  assumes "set xs \<subseteq> dom H" "sorted (map (expiry H) xs)"
  shows "\<exists>l. link_pos H x a xs = Some l \<and> set l = insert a (set xs) \<and> length l = Suc (length xs) \<and>
     (distinct xs \<and> a \<notin> set xs \<longrightarrow> distinct l) \<and>
     (expiry H a = x \<longrightarrow> sorted (map (expiry H) l))"
  using assms
proof (induction xs)
  case (Cons b xs)
  then obtain e where b: "H b = Some e" by auto
  from Cons obtain l where l: "link_pos H x a xs = Some l" "set l = insert a (set xs)"
    "length l = Suc (length xs)" "distinct xs \<and> a \<notin> set xs \<longrightarrow> distinct l"
    "expiry H a = x \<longrightarrow> sorted (map (expiry H) l)" by auto
  show ?case
    using Cons.prems b l by (auto simp: less_imp_le)
qed simp

lemma link_entry_wf:
  assumes wf: "pmksa_wf c" and a: "pmksa_heap c a = None"
  obtains c' where "pmksa_cache_link_entry c a e = Some c'" "pmksa_wf c'"
    "pmksa_heap c' = (pmksa_heap c)(a \<mapsto> e)" "pmksa_count c' = pmksa_count c + 1"
    "set (pmksa_list c') = insert a (set (pmksa_list c))"
    "pmkid_bucket c' (PMKID_HASH (pe_pmkid e)) = a # pmkid_bucket c (PMKID_HASH (pe_pmkid e))"
proof -
  let ?H = "(pmksa_heap c)(a \<mapsto> e)"
  have fresh: "a \<notin> set (pmksa_list c)" using wf a by (auto simp: pmksa_wf_def)
  then obtain l where l: "link_pos ?H (pe_expiration e) a (pmksa_list c) = Some l"
    "set l = insert a (set (pmksa_list c))" "length l = Suc (length (pmksa_list c))" "distinct l"
    "sorted (map (expiry ?H) l)"
    using link_pos_insert [of "pmksa_list c" ?H "pe_expiration e" a] wf
    by (auto simp: pmksa_wf_def map_expiry_upd expiry_def)
  let ?c = "c\<lparr>pmksa_heap := ?H, pmksa_list := l,
      pmkid_bucket := (pmkid_bucket c)(PMKID_HASH (pe_pmkid e) := a # pmkid_bucket c (PMKID_HASH (pe_pmkid e))),
      pmksa_count := pmksa_count c + 1\<rparr>"
  have "pmksa_wf ?c"
    using wf a l by (auto simp: pmksa_wf_def)
  moreover have "pmksa_cache_link_entry c a e = Some ?c"
    by (simp add: pmksa_cache_link_entry_def l Let_def)
  ultimately show thesis by (intro that [of ?c]) (simp_all add: l)
qed

section \<open>Lookup\<close>

definition pmksa_match :: "bytes option \<Rightarrow> bytes option \<Rightarrow> rsn_pmksa_cache_entry \<Rightarrow> bool" where
  "pmksa_match spa pmkid e \<longleftrightarrow> pred_option (\<lambda>s. pe_spa e = s) spa \<and> pred_option (\<lambda>p. pe_pmkid e = p) pmkid"

lemma auth_get_loop_spec:
  assumes "set xs \<subseteq> dom H"
  shows "auth_get_loop H spa pmkid xs = Some (find (\<lambda>a. pmksa_match spa pmkid (the (H a))) xs)"
  using assms
  by (induction xs) (auto simp: pmksa_match_def split: option.splits)

lemma auth_get_spec:
  assumes wf: "pmksa_wf c"
  shows "\<exists>r. pmksa_cache_auth_get c spa pmkid = Some r \<and>
    (case r of
       None \<Rightarrow> \<forall>a e. pmksa_heap c a = Some e \<longrightarrow> \<not> pmksa_match spa pmkid e
     | Some a \<Rightarrow> \<exists>e. pmksa_heap c a = Some e \<and> pmksa_match spa pmkid e)"
proof -
  let ?xs = "case pmkid of Some p \<Rightarrow> pmkid_bucket c (PMKID_HASH p) | None \<Rightarrow> pmksa_list c"
  have sub: "set ?xs \<subseteq> dom (pmksa_heap c)" using wf by (auto simp: pmksa_wf_def split: option.split)
  have "a \<in> set ?xs" if "pmksa_heap c a = Some e" "pmksa_match spa pmkid e" for a e
    using wf that by (auto simp: pmksa_wf_def pmksa_match_def split: option.split)
  then show ?thesis
    using sub auth_get_loop_spec [OF sub, of spa pmkid]
    by (fastforce simp: pmksa_cache_auth_get_def find_None_iff find_Some_iff split: option.split
        dest: nth_mem)
qed

section \<open>Adding, replacing and expiring\<close>

text \<open>At most one entry per station, as long as no opportunistic entry is added.\<close>

definition spa_unique :: "rsn_pmksa_cache \<Rightarrow> bool" where
  "spa_unique c \<longleftrightarrow>
     (\<forall>a b e f. pmksa_heap c a = Some e \<and> pmksa_heap c b = Some f \<and> pe_spa e = pe_spa f \<longrightarrow> a = b)"

lemma replace_old_wf:
  assumes wf: "pmksa_wf c"
  obtains c' where
    "Option.bind (pmksa_cache_auth_get c (Some spa) None)
       (\<lambda>pos. case pos of None \<Rightarrow> Some c | Some p \<Rightarrow> pmksa_cache_free_entry c p) = Some c'"
    "pmksa_wf c'" "pmksa_heap c' \<subseteq>\<^sub>m pmksa_heap c" "pmksa_count c' \<le> pmksa_count c"
    "spa_unique c \<longrightarrow> (\<forall>b f. pmksa_heap c' b = Some f \<longrightarrow> pe_spa f \<noteq> spa)"
proof -
  obtain r where r: "pmksa_cache_auth_get c (Some spa) None = Some r"
    "case r of None \<Rightarrow> \<forall>a e. pmksa_heap c a = Some e \<longrightarrow> \<not> pmksa_match (Some spa) None e
     | Some a \<Rightarrow> \<exists>e. pmksa_heap c a = Some e \<and> pmksa_match (Some spa) None e"
    using auth_get_spec [OF wf] by blast
  show thesis
  proof (cases r)
    case None
    then show thesis using r wf by (intro that [of c]) (auto simp: pmksa_match_def)
  next
    case (Some p)
    with r obtain e where e: "pmksa_heap c p = Some e" "pe_spa e = spa" by (auto simp: pmksa_match_def)
    obtain c' where "pmksa_cache_free_entry c p = Some c'" "pmksa_wf c'"
      "pmksa_heap c' = (pmksa_heap c)(p := None)" "pmksa_count c' = pmksa_count c - 1"
      by (rule free_entry_wf [OF wf e(1)]) blast
    then show thesis using e r Some
      by (intro that [of c']) (auto simp: map_le_def spa_unique_def)
  qed
qed

lemma make_room_wf:
  assumes wf: "pmksa_wf c"
  obtains c' where
    "(if pmksa_count c \<ge> pmksa_cache_max_entries \<and> pmksa_list c \<noteq> []
      then pmksa_cache_free_entry c (hd (pmksa_list c)) else Some c) = Some c'"
    "pmksa_wf c'" "pmksa_heap c' \<subseteq>\<^sub>m pmksa_heap c"
    "pmksa_count c \<le> pmksa_cache_max_entries \<longrightarrow> pmksa_count c' < pmksa_cache_max_entries"
proof (cases "pmksa_count c \<ge> pmksa_cache_max_entries \<and> pmksa_list c \<noteq> []")
  case True
  then have "hd (pmksa_list c) \<in> set (pmksa_list c)" by simp
  then have "hd (pmksa_list c) \<in> dom (pmksa_heap c)" using wf by (simp add: pmksa_wf_def)
  then obtain e where e: "pmksa_heap c (hd (pmksa_list c)) = Some e" by auto
  obtain c' where "pmksa_cache_free_entry c (hd (pmksa_list c)) = Some c'" "pmksa_wf c'"
      "pmksa_heap c' = (pmksa_heap c)(hd (pmksa_list c) := None)" "pmksa_count c' = pmksa_count c - 1"
    by (rule free_entry_wf [OF wf e]) blast
  then show thesis using True by (intro that [of c']) (simp_all add: map_le_def)
next
  case False
  moreover have "pmksa_list c = [] \<longrightarrow> pmksa_count c = 0" using wf by (simp add: pmksa_wf_def)
  ultimately have "pmksa_count c < pmksa_cache_max_entries" by linarith
  then show thesis using wf False by (intro that [of c]) simp_all
qed

definition new_pmksa_entry ::
  "hmac \<Rightarrow> int \<Rightarrow> bool \<Rightarrow> bytes \<Rightarrow> bytes \<Rightarrow> bytes \<Rightarrow> int \<Rightarrow> 'e eapol_state_machine option \<Rightarrow> int \<Rightarrow> int \<Rightarrow>
   rsn_pmksa_cache_entry" where
  "new_pmksa_entry hmac now id_malloc pmk aa spa session_timeout eapol vlan akmp =
     pmksa_cache_from_eapol_data id_malloc vlan
       (pmksa_entry_zero
          \<lparr>pe_pmk := pmk,
           pe_pmkid := rsn_pmkid hmac pmk aa spa (wpa_key_mgmt_sha256 akmp),
           pe_expiration := now + (if session_timeout > 0 then session_timeout
                                   else dot11RSNAConfigPMKLifetime),
           pe_akmp := akmp, pe_spa := spa\<rparr>) eapol"

lemma new_pmksa_entry_fields [simp]:
  "pe_spa (new_pmksa_entry hmac now im pmk aa spa st eapol vlan akmp) = spa"
  "pe_pmk (new_pmksa_entry hmac now im pmk aa spa st eapol vlan akmp) = pmk"
  "pe_pmkid (new_pmksa_entry hmac now im pmk aa spa st eapol vlan akmp) =
     rsn_pmkid hmac pmk aa spa (wpa_key_mgmt_sha256 akmp)"
  by (simp_all add: new_pmksa_entry_def pmksa_cache_from_eapol_data_def split: option.split)

lemma spa_unique_insert:
  assumes u: "spa_unique c" and sub: "pmksa_heap c2 \<subseteq>\<^sub>m pmksa_heap c"
    and new: "\<And>b f. pmksa_heap c2 b = Some f \<Longrightarrow> pe_spa f \<noteq> pe_spa e"
    and c': "pmksa_heap c' = (pmksa_heap c2)(a \<mapsto> e)"
  shows "spa_unique c'"
  unfolding spa_unique_def
proof (intro allI impI)
  fix x y d f
  assume "pmksa_heap c' x = Some d \<and> pmksa_heap c' y = Some f \<and> pe_spa d = pe_spa f"
  then have xy: "((pmksa_heap c2)(a \<mapsto> e)) x = Some d" "((pmksa_heap c2)(a \<mapsto> e)) y = Some f"
    "pe_spa d = pe_spa f" by (simp_all add: c')
  have old: "pmksa_heap c b = Some g" if "pmksa_heap c2 b = Some g" for b g
    using that sub by (metis domI map_le_def)
  show "x = y"
  proof (cases "x = a \<or> y = a")
    case True
    then show ?thesis using xy new [of x d] new [of y f] by (auto split: if_splits)
  next
    case False
    then show ?thesis using xy u old [of x d] old [of y f] by (auto simp: spa_unique_def)
  qed
qed

lemma auth_add_wf:
  assumes wf: "pmksa_wf c" and fresh: "pmksa_heap c a = None" and len: "length pmk \<le> PMK_LEN"
  obtains c' where
    "pmksa_cache_auth_add hmac now (Some a) im c pmk aa spa st eapol vlan akmp = Some (Some a, c')"
    "pmksa_wf c'"
    "pmksa_heap c' a = Some (new_pmksa_entry hmac now im pmk aa spa st eapol vlan akmp)"
    "pmksa_count c \<le> pmksa_cache_max_entries \<longrightarrow> pmksa_count c' \<le> pmksa_cache_max_entries"
    "spa_unique c \<longrightarrow> spa_unique c'"
    "pmksa_cache_auth_get c' (Some spa) (Some (rsn_pmkid hmac pmk aa spa (wpa_key_mgmt_sha256 akmp)))
       = Some (Some a)"
proof -
  let ?e = "new_pmksa_entry hmac now im pmk aa spa st eapol vlan akmp"
  obtain c1 where c1: "Option.bind (pmksa_cache_auth_get c (Some spa) None)
       (\<lambda>pos. case pos of None \<Rightarrow> Some c | Some p \<Rightarrow> pmksa_cache_free_entry c p) = Some c1"
    "pmksa_wf c1" "pmksa_heap c1 \<subseteq>\<^sub>m pmksa_heap c" "pmksa_count c1 \<le> pmksa_count c"
    "spa_unique c \<longrightarrow> (\<forall>b f. pmksa_heap c1 b = Some f \<longrightarrow> pe_spa f \<noteq> spa)"
    by (rule replace_old_wf [OF wf])
  obtain c2 where c2: "(if pmksa_count c1 \<ge> pmksa_cache_max_entries \<and> pmksa_list c1 \<noteq> []
      then pmksa_cache_free_entry c1 (hd (pmksa_list c1)) else Some c1) = Some c2"
    "pmksa_wf c2" "pmksa_heap c2 \<subseteq>\<^sub>m pmksa_heap c1"
    "pmksa_count c1 \<le> pmksa_cache_max_entries \<longrightarrow> pmksa_count c2 < pmksa_cache_max_entries"
    by (rule make_room_wf [OF c1(2)])
  have sub: "pmksa_heap c2 \<subseteq>\<^sub>m pmksa_heap c" using c2(3) c1(3) by (rule map_le_trans)
  then have a2: "pmksa_heap c2 a = None"
    using fresh by (auto simp: map_le_def dom_def)
  obtain c' where c': "pmksa_cache_link_entry c2 a ?e = Some c'" "pmksa_wf c'"
    "pmksa_heap c' = (pmksa_heap c2)(a \<mapsto> ?e)" "pmksa_count c' = pmksa_count c2 + 1"
    "pmkid_bucket c' (PMKID_HASH (pe_pmkid ?e)) = a # pmkid_bucket c2 (PMKID_HASH (pe_pmkid ?e))"
    by (rule link_entry_wf [OF c2(2) a2]) blast
  have "pmksa_cache_auth_add hmac now (Some a) im c pmk aa spa st eapol vlan akmp = Some (Some a, c')"
    using len c1(1) c2(1) c'(1)
    by (cases "pmksa_cache_auth_get c (Some spa) None")
      (simp_all add: pmksa_cache_auth_add_def Let_def new_pmksa_entry_def)
  moreover have "spa_unique c \<longrightarrow> spa_unique c'"
  proof
    assume u: "spa_unique c"
    have "pe_spa f \<noteq> pe_spa ?e" if "pmksa_heap c2 b = Some f" for b f
      using u that c2(3) c1(5) by (metis domI map_le_def new_pmksa_entry_fields(1))
    with u sub show "spa_unique c'" by (rule spa_unique_insert [OF _ _ _ c'(3)])
  qed
  moreover have "pmksa_cache_auth_get c' (Some spa)
      (Some (rsn_pmkid hmac pmk aa spa (wpa_key_mgmt_sha256 akmp))) = Some (Some a)"
    using c'(3,5) by (simp add: pmksa_cache_auth_get_def)
  ultimately show thesis using c' c1(4) c2(4) by (intro that [of c']) auto
qed

lemma head_earliest:
  assumes "pmksa_wf c" "pmksa_list c = a # rest" "pmksa_heap c b = Some f"
  shows "expiry (pmksa_heap c) a \<le> pe_expiration f"
proof -
  have "b \<in> set (a # rest)" using assms by (auto simp: pmksa_wf_def)
  moreover have "sorted (map (expiry (pmksa_heap c)) (a # rest))" using assms by (auto simp: pmksa_wf_def)
  ultimately show ?thesis using assms(3) by auto
qed

lemma unlink_absent [simp]: "a \<notin> set xs \<Longrightarrow> unlink a xs = xs"
  by (simp add: unlink_remove1 remove1_idem)

text \<open>Freeing the head after it has been taken off the list is freeing it from the whole list.\<close>

lemma free_head:
  assumes "pmksa_wf c" "pmksa_list c = a # rest"
  shows "pmksa_cache_free_entry (c\<lparr>pmksa_list := rest\<rparr>) a = pmksa_cache_free_entry c a"
  using assms by (auto simp: pmksa_cache_free_entry_def pmksa_wf_def Let_def split: option.split)

lemma expire_loop_wf:
  assumes "pmksa_wf c"
  shows "\<exists>c'. pmksa_cache_expire_loop now c = Some c' \<and> pmksa_wf c' \<and>
    pmksa_heap c' = unexpired now (pmksa_heap c)"
  using assms
proof (induction "length (pmksa_list c)" arbitrary: c)
  case 0
  then have "pmksa_list c = []" "pmksa_heap c = Map.empty" by (auto simp: pmksa_wf_def)
  then show ?case
    using 0 by (simp add: pmksa_cache_expire_loop.simps [of now c] unexpired_def fun_eq_iff)
next
  case (Suc n)
  then obtain a rest where l: "pmksa_list c = a # rest" by (cases "pmksa_list c") auto
  then obtain e where e: "pmksa_heap c a = Some e" using Suc.prems by (force simp: pmksa_wf_def)
  show ?case
  proof (cases "pe_expiration e \<le> now")
    case True
    obtain c1 where c1: "pmksa_cache_free_entry c a = Some c1" "pmksa_wf c1"
      "pmksa_heap c1 = (pmksa_heap c)(a := None)" "pmksa_list c1 = remove1 a (pmksa_list c)"
      by (rule free_entry_wf [OF Suc.prems e]) blast
    then have "n = length (pmksa_list c1)" using Suc.hyps(2) l by simp
    from Suc.hyps(1) [OF this c1(2)] obtain c' where c': "pmksa_cache_expire_loop now c1 = Some c'"
      "pmksa_wf c'" "pmksa_heap c' = unexpired now (pmksa_heap c1)" by blast
    have "unexpired now (pmksa_heap c1) = unexpired now (pmksa_heap c)"
      using True e by (auto simp: c1(3) unexpired_def fun_eq_iff)
    then show ?thesis
      using c' c1(1) l e True free_head [OF Suc.prems l]
      by (simp add: pmksa_cache_expire_loop.simps [of now c])
  next
    case False
    then have "unexpired now (pmksa_heap c) = pmksa_heap c"
      using head_earliest [OF Suc.prems l] e
      by (fastforce simp: unexpired_def fun_eq_iff split: option.split)
    then show ?thesis
      using False l e Suc.prems by (simp add: pmksa_cache_expire_loop.simps [of now c])
  qed
qed

lemma set_expiration_wf:
  assumes "pmksa_wf c"
  shows "\<exists>t. pmksa_cache_set_expiration now c = Some (c\<lparr>expire_timer := t\<rparr>) \<and>
    (t = None \<longleftrightarrow> pmksa_list c = []) \<and> (\<forall>d. t = Some d \<longrightarrow> 1 \<le> d)"
proof (cases "pmksa_list c")
  case Nil
  then show ?thesis by (auto simp: pmksa_cache_set_expiration_def)
next
  case (Cons a rest)
  then obtain e where "pmksa_heap c a = Some e" using assms by (force simp: pmksa_wf_def)
  then show ?thesis using Cons by (auto simp: pmksa_cache_set_expiration_def Let_def)
qed

lemma wf_timer [simp]: "pmksa_wf (c\<lparr>expire_timer := t\<rparr>) = pmksa_wf c"
  by (simp add: pmksa_wf_def)

lemma expire_wf:
  assumes "pmksa_wf c"
  shows "\<exists>c'. pmksa_cache_expire now c = Some c' \<and> pmksa_wf c' \<and>
    pmksa_heap c' = unexpired now (pmksa_heap c) \<and> (expire_timer c' = None \<longleftrightarrow> pmksa_list c' = [])"
proof -
  obtain c1 where c1: "pmksa_cache_expire_loop now c = Some c1" "pmksa_wf c1"
    "pmksa_heap c1 = unexpired now (pmksa_heap c)" using expire_loop_wf [OF assms] by blast
  obtain t where "pmksa_cache_set_expiration now c1 = Some (c1\<lparr>expire_timer := t\<rparr>)"
    "t = None \<longleftrightarrow> pmksa_list c1 = []" using set_expiration_wf [OF c1(2)] by blast
  with c1 show ?thesis by (auto simp: pmksa_cache_expire_def)
qed

section \<open>The cache as an expiring store\<close>

text \<open>The contract that the linked structure provides: inserting at a fresh address and dropping what
  has expired act on the contents as on a finite map, never follow a dangling pointer and keep the
  invariant.\<close>

locale expiring_store =
  fixes inv :: "'s \<Rightarrow> bool"
    and content :: "'s \<Rightarrow> 'k \<Rightarrow> 'v option"
    and lifetime :: "'v \<Rightarrow> int"
    and insert_at :: "'k \<Rightarrow> 'v \<Rightarrow> 's \<Rightarrow> 's option"
    and expire :: "int \<Rightarrow> 's \<Rightarrow> 's option"
  assumes insert_law: "\<lbrakk>inv s; content s k = None\<rbrakk> \<Longrightarrow>
      \<exists>s'. insert_at k v s = Some s' \<and> inv s' \<and> content s' = (content s)(k \<mapsto> v)"
    and expire_law: "inv s \<Longrightarrow>
      \<exists>s'. expire now s = Some s' \<and> inv s' \<and>
        content s' = (\<lambda>k. case content s k of Some v \<Rightarrow> if lifetime v \<le> now then None else Some v | None \<Rightarrow> None)"
begin

text \<open>A stored value survives every expiration before its time.\<close>

lemma stored_until_expiry:
  assumes "inv s" "content s k = None"
  shows "\<exists>s1 s2. insert_at k v s = Some s1 \<and> expire now s1 = Some s2 \<and> inv s2 \<and>
    content s2 k = (if lifetime v \<le> now then None else Some v)"
proof -
  obtain s1 where s1: "insert_at k v s = Some s1" "inv s1" "content s1 = (content s)(k \<mapsto> v)"
    using insert_law [OF assms] by blast
  obtain s2 where "expire now s1 = Some s2" "inv s2"
    "content s2 = (\<lambda>k. case content s1 k of Some v \<Rightarrow> if lifetime v \<le> now then None else Some v | None \<Rightarrow> None)"
    using expire_law [OF s1(2)] by blast
  with s1 show ?thesis by auto
qed

text \<open>Expiring twice is expiring at the later time.\<close>

lemma expire_later:
  assumes "inv s" "now \<le> later" "expire now s = Some s1" "expire later s1 = Some s2" "expire later s = Some s3"
  shows "content s2 = content s3"
proof -
  have "inv s1" "content s1 = (\<lambda>k. case content s k of Some v \<Rightarrow> if lifetime v \<le> now then None else Some v | None \<Rightarrow> None)"
    using expire_law [OF assms(1), of now] assms(3) by auto
  moreover have "content s3 = (\<lambda>k. case content s k of Some v \<Rightarrow> if lifetime v \<le> later then None else Some v | None \<Rightarrow> None)"
    using expire_law [OF assms(1), of later] assms(5) by auto
  ultimately show ?thesis
    using expire_law [of s1 later] assms(2,4) by (auto simp: fun_eq_iff split: option.split)
qed

end

interpretation pmksa: expiring_store pmksa_wf pmksa_heap pe_expiration
    "\<lambda>a e c. pmksa_cache_link_entry c a e" pmksa_cache_expire
proof
  show "\<exists>s'. pmksa_cache_link_entry s k v = Some s' \<and> pmksa_wf s' \<and> pmksa_heap s' = (pmksa_heap s)(k \<mapsto> v)"
    if "pmksa_wf s" "pmksa_heap s k = None" for s k v
    by (rule link_entry_wf [OF that]) blast
next
  show "\<exists>s'. pmksa_cache_expire now s = Some s' \<and> pmksa_wf s' \<and>
      pmksa_heap s' = (\<lambda>k. case pmksa_heap s k of Some v \<Rightarrow> if pe_expiration v \<le> now then None else Some v
        | None \<Rightarrow> None)" if "pmksa_wf s" for s now
    using expire_wf [OF that, of now] by (auto simp: unexpired_def fun_eq_iff)
qed

section \<open>Properties\<close>

text \<open>The caches that the operations can produce.  A new entry is at an address that is not in use; an
  opportunistic entry copies an entry of the cache.\<close>

inductive pmksa_reachable :: "hmac \<Rightarrow> rsn_pmksa_cache \<Rightarrow> bool" for hmac where
  reach_init: "pmksa_reachable hmac pmksa_cache_auth_init"
| reach_add: "\<lbrakk>pmksa_reachable hmac c; pred_option (\<lambda>a. pmksa_heap c a = None) addr;
    pmksa_cache_auth_add hmac now addr im c pmk aa spa st (eapol :: unit eapol_state_machine option) vlan akmp
      = Some (r, c')\<rbrakk> \<Longrightarrow> pmksa_reachable hmac c'"
| reach_okc: "\<lbrakk>pmksa_reachable hmac c; pred_option (\<lambda>a. pmksa_heap c a = None) addr;
    pmksa_heap c b = Some old; pmksa_cache_add_okc addr im c old pmkid = Some (r, c')\<rbrakk>
    \<Longrightarrow> pmksa_reachable hmac c'"
| reach_expire: "\<lbrakk>pmksa_reachable hmac c; pmksa_cache_expire now c = Some c'\<rbrakk>
    \<Longrightarrow> pmksa_reachable hmac c'"

lemma auth_add_wf':
  assumes "pmksa_wf c" "pred_option (\<lambda>a. pmksa_heap c a = None) addr"
    "pmksa_cache_auth_add hmac now addr im c pmk aa spa st eapol vlan akmp = Some (r, c')"
  shows "pmksa_wf c'"
proof (cases "length pmk \<le> PMK_LEN \<and> addr \<noteq> None")
  case True
  then obtain a where a: "addr = Some a" by auto
  then show ?thesis
    using auth_add_wf [OF assms(1), of a pmk hmac now im aa spa st eapol vlan akmp "pmksa_wf c'"] True assms
    by auto
next
  case False
  then show ?thesis using assms by (cases addr) (auto simp: pmksa_cache_auth_add_def split: if_splits)
qed

lemma add_okc_wf:
  assumes "pmksa_wf c" "pred_option (\<lambda>a. pmksa_heap c a = None) addr"
    "pmksa_cache_add_okc addr im c old pmkid = Some (r, c')"
  shows "pmksa_wf c'"
proof (cases addr)
  case None
  then show ?thesis using assms by (simp add: pmksa_cache_add_okc_def)
next
  case (Some a)
  then obtain e where "pmksa_cache_link_entry c a e = Some c'"
    using assms(3) by (auto simp: pmksa_cache_add_okc_def Let_def)
  then show ?thesis using assms(1,2) Some by (auto elim: link_entry_wf [of c a e])
qed

text \<open>C20. Every cache that a sequence of additions, opportunistic additions and expirations produces is
  well formed: the two chains hold exactly the live entries, each once, the hash chain of a PMKID holds
  exactly the entries with that hash, the main chain is ordered by expiration time, and
  \<^verbatim>\<open>pmksa_count\<close> is its length.\<close>

theorem pmksa_cache_invariant:
  assumes "pmksa_reachable hmac c"
  shows "pmksa_wf c"
  using assms
proof induction
  case reach_init
  show ?case by (rule pmksa_init_wf)
next
  case (reach_expire c now c')
  then show ?case using expire_wf [of c now] by auto
qed (auto intro: auth_add_wf' add_okc_wf)

theorem pmksa_cache_invariant_witness:
  "\<exists>c. pmksa_cache_auth_add (\<lambda>_ _ _. replicate 20 7) 100 (Some 1) True pmksa_cache_auth_init
      (replicate 32 1) (replicate 6 2) (replicate 6 3) 0 (None :: unit eapol_state_machine option) 0 1
      = Some (Some 1, c) \<and> pmksa_wf c"
proof -
  obtain c where c: "pmksa_cache_auth_add (\<lambda>_ _ _. replicate 20 7) 100 (Some 1) True pmksa_cache_auth_init
      (replicate 32 1) (replicate 6 2) (replicate 6 3) 0 (None :: unit eapol_state_machine option) 0 1
      = Some (Some 1, c)"
    by (rule auth_add_wf [OF pmksa_init_wf, of 1 "replicate 32 1"])
      (simp_all add: pmksa_cache_auth_init_def)
  have "pmksa_reachable (\<lambda>_ _ _. replicate 20 7) c"
    by (rule reach_add [OF reach_init _ c]) (simp add: pmksa_cache_auth_init_def)
  from pmksa_cache_invariant [OF this] c show ?thesis by blast
qed

text \<open>Adding a PMK of legal length at a fresh address succeeds without following a dangling pointer and
  keeps the cache well formed; the new entry is the one found afterwards for the station and the PMKID;
  the limit of 1024 entries and the uniqueness of the entry per station are kept.\<close>

lemma pmksa_add_then_get:
  assumes "pmksa_wf c" "pmksa_heap c a = None" "length pmk \<le> PMK_LEN"
  shows "\<exists>c' e. pmksa_cache_auth_add hmac now (Some a) im c pmk aa spa st eapol vlan akmp = Some (Some a, c') \<and>
    pmksa_wf c' \<and> pmksa_heap c' a = Some e \<and> pe_pmk e = pmk \<and> pe_spa e = spa \<and>
    pmksa_cache_auth_get c' (Some spa) (Some (pe_pmkid e)) = Some (Some a) \<and>
    (pmksa_count c \<le> pmksa_cache_max_entries \<longrightarrow> pmksa_count c' \<le> pmksa_cache_max_entries) \<and>
    (spa_unique c \<longrightarrow> spa_unique c')"
  by (rule auth_add_wf [OF assms, of hmac now im aa spa st eapol vlan akmp]) auto

lemma get_okc_loop_first:
  assumes "get_okc_loop hmac H aa spa pmkid entry = Some r"
  shows "\<forall>a rest e. entry = a # rest \<longrightarrow> H a = Some e \<longrightarrow> pe_spa e = spa"
  by (rule get_okc_loop.raw_induct [OF _ assms]) (auto split: list.splits option.splits if_splits)

text \<open>C22. The opportunistic lookup does not return when the entry that expires first belongs to another
  station: the loop's \<^verbatim>\<open>continue\<close> does not advance to the next entry.\<close>

theorem pmksa_get_okc_diverges:
  assumes "pmksa_list c = a # rest" "pmksa_heap c a = Some e" "pe_spa e \<noteq> spa"
  shows "pmksa_cache_get_okc hmac c aa spa pmkid = None"
  using get_okc_loop_first [of hmac "pmksa_heap c" aa spa pmkid "pmksa_list c"] assms
  by (cases "pmksa_cache_get_okc hmac c aa spa pmkid") (auto simp: pmksa_cache_get_okc_def)

theorem pmksa_get_okc_diverges_witness:
  "\<exists>c. pmksa_cache_link_entry pmksa_cache_auth_init 1 (pmksa_entry_zero\<lparr>pe_spa := replicate 6 3\<rparr>) = Some c \<and>
     pmksa_cache_get_okc (\<lambda>_ _ _. replicate 20 7) c (replicate 6 2) (replicate 6 4) (replicate 16 7) = None"
proof -
  let ?e = "pmksa_entry_zero\<lparr>pe_spa := replicate 6 3\<rparr>"
  obtain c where c: "pmksa_cache_link_entry pmksa_cache_auth_init 1 ?e = Some c"
    "pmksa_list c = [1]" "pmksa_heap c 1 = Some ?e"
    by (auto simp: pmksa_cache_link_entry_def pmksa_cache_auth_init_def Let_def)
  show ?thesis using c(1) pmksa_get_okc_diverges [OF c(2,3), of "replicate 6 4"] by auto
qed

end
