(* ===== verification/Ieee8021x.thy ===== *)
theory Ieee8021x
  imports Eapol_Auth_Inv Pmksa_Cache
begin

text \<open>
  The access point's side of IEEE 802.1X, \<^verbatim>\<open>src/ap/ieee802_1x.c\<close>: the callbacks it gives to the EAPOL state
  machines, the handling of received EAPOL frames and of RADIUS replies, the start of authentication for
  a new station, and the notifications from the rest of the access point.  The WPA state machine reaches
  the EAPOL machine only through \<^verbatim>\<open>hostapd_wpa_auth_set_eapol\<close> of \<^verbatim>\<open>src/ap/wpa_auth_glue.c\<close>; here it is an
  argument that gives the calls it makes, and every theorem holds for all such arguments.  The EAP server
  is an argument too.  The code for \<^verbatim>\<open>CONFIG_WPS\<close> is included; with \<^verbatim>\<open>wps_state\<close> zero it has no effect.
  Allocations that may fail are arguments.
\<close>

section \<open>The WPA state machine's view\<close>

datatype wpa_eapol_variable = WPA_EAPOL_portEnabled | WPA_EAPOL_portValid | WPA_EAPOL_authorized |
  WPA_EAPOL_portControl_Auto | WPA_EAPOL_keyRun | WPA_EAPOL_keyAvailable | WPA_EAPOL_keyDone |
  WPA_EAPOL_inc_EapolFramesTx

definition ieee802_1x_notify_port_enabled ::
  "bool \<Rightarrow> 'e eapol_state_machine \<Rightarrow> 'e eapol_state_machine" where
  "ieee802_1x_notify_port_enabled enabled sm =
     eapol_auth_step (sm\<lparr>eap_if := (eap_if sm)\<lparr>portEnabled := enabled\<rparr>\<rparr>)"

definition ieee802_1x_notify_port_valid ::
  "bool \<Rightarrow> 'e eapol_state_machine \<Rightarrow> 'e eapol_state_machine" where
  "ieee802_1x_notify_port_valid valid sm = eapol_auth_step (sm\<lparr>portValid := valid\<rparr>)"

definition ieee802_1x_notify_pre_auth ::
  "bool \<Rightarrow> 'e eapol_state_machine \<Rightarrow> 'e eapol_state_machine" where
  "ieee802_1x_notify_pre_auth pre_auth sm =
     (if pre_auth then sm\<lparr>eapol_flags := eapol_flags sm OR EAPOL_SM_PREAUTH\<rparr>
      else sm\<lparr>eapol_flags := eapol_flags sm AND NOT EAPOL_SM_PREAUTH\<rparr>)"

text \<open>The effect of \<^verbatim>\<open>hostapd_wpa_auth_set_eapol\<close> on the EAPOL machine; \<^verbatim>\<open>WPA_EAPOL_authorized\<close> acts on the
  station only, see \<open>hostapd_wpa_auth_set_eapol_sta\<close> below.\<close>

definition hostapd_wpa_auth_set_eapol ::
  "wpa_eapol_variable \<times> int \<Rightarrow> 'e eapol_state_machine \<Rightarrow> 'e eapol_state_machine" where
  "hostapd_wpa_auth_set_eapol vv sm =
     (case vv of (var, value) \<Rightarrow>
        (case var of
           WPA_EAPOL_portEnabled \<Rightarrow> ieee802_1x_notify_port_enabled (value \<noteq> 0) sm
         | WPA_EAPOL_portValid \<Rightarrow> ieee802_1x_notify_port_valid (value \<noteq> 0) sm
         | WPA_EAPOL_authorized \<Rightarrow> sm
         | WPA_EAPOL_portControl_Auto \<Rightarrow> sm\<lparr>portControl := Auto\<rparr>
         | WPA_EAPOL_keyRun \<Rightarrow> sm\<lparr>keyRun := value \<noteq> 0\<rparr>
         | WPA_EAPOL_keyAvailable \<Rightarrow> sm\<lparr>eap_if := (eap_if sm)\<lparr>eapKeyAvailable := value \<noteq> 0\<rparr>\<rparr>
         | WPA_EAPOL_keyDone \<Rightarrow> sm\<lparr>keyDone := value \<noteq> 0\<rparr>
         | WPA_EAPOL_inc_EapolFramesTx \<Rightarrow> sm\<lparr>dot1xAuthEapolFramesTx := dot1xAuthEapolFramesTx sm + 1\<rparr>))"

definition hostapd_wpa_auth_get_eapol :: "wpa_eapol_variable \<Rightarrow> 'e eapol_state_machine option \<Rightarrow> int" where
  "hostapd_wpa_auth_get_eapol var sm =
     (case sm of
        None \<Rightarrow> -1
      | Some sm \<Rightarrow>
          (case var of
             WPA_EAPOL_keyRun \<Rightarrow> if keyRun sm then 1 else 0
           | WPA_EAPOL_keyAvailable \<Rightarrow> if eapKeyAvailable (eap_if sm) then 1 else 0
           | _ \<Rightarrow> -1))"

section \<open>The callbacks\<close>

text \<open>What the callbacks need to know: the calls of the WPA machine in reaction to an event, the identity the
  EAP server has learned, and the number of EAPOL-Key frames that \<^verbatim>\<open>ieee802_1x_tx_key\<close> sends.\<close>

record 'e ap_context =
  wpa_reaction :: "eapol_event \<Rightarrow> 'e eapol_state_machine \<Rightarrow> (wpa_eapol_variable \<times> int) list"
  eap_identity :: "'e \<Rightarrow> bytes option"
  key_frames :: "'e eapol_state_machine \<Rightarrow> nat"

definition ieee802_1x_learn_identity ::
  "'e ap_context \<Rightarrow> bytes \<Rightarrow> 'e eapol_state_machine \<Rightarrow> 'e eapol_state_machine" where
  "ieee802_1x_learn_identity A msg sm =
     (if length msg \<le> 4 \<or> ucast (msg ! 4) \<noteq> EAP_TYPE_IDENTITY then sm
      else case Option.bind (eap sm) (eap_identity A) of
        None \<Rightarrow> sm
      | Some i \<Rightarrow> sm\<lparr>identity := Some i,
                   dot1xAuthEapolRespIdFramesRx := dot1xAuthEapolRespIdFramesRx sm + 1\<rparr>)"

definition ieee802_1x_abort_auth :: "'e eapol_state_machine \<Rightarrow> 'e eapol_state_machine" where
  "ieee802_1x_abort_auth sm =
     (if eapTimeout (eap_if sm)
      then sm\<lparr>eap_if := (eap_if sm)\<lparr>portEnabled := False\<rparr>, cb_log := cb_log sm @ [CB_sta_disconnect]\<rparr>
      else sm)"

definition ieee802_1x_tx_key :: "'e ap_context \<Rightarrow> 'e eapol_state_machine \<Rightarrow> 'e eapol_state_machine" where
  "ieee802_1x_tx_key A sm =
     (if eapKeyData (eap_if sm) = None then sm
      else sm\<lparr>dot1xAuthEapolFramesTx := dot1xAuthEapolFramesTx sm + word_of_nat (key_frames A sm)\<rparr>)"

definition ieee802_1x_eapol_event ::
  "'e ap_context \<Rightarrow> eapol_event \<Rightarrow> 'e eapol_state_machine \<Rightarrow> 'e eapol_state_machine" where
  "ieee802_1x_eapol_event A ev sm = fold hostapd_wpa_auth_set_eapol (wpa_reaction A ev sm) sm"

definition ieee802_1x_cb ::
  "'e ap_context \<Rightarrow> cb_call \<Rightarrow> 'e eapol_state_machine \<Rightarrow> 'e eapol_state_machine" where
  "ieee802_1x_cb A c sm =
     (case c of
        CB_aaa_send d \<Rightarrow> ieee802_1x_learn_identity A d sm
      | CB_abort_auth \<Rightarrow> ieee802_1x_abort_auth sm
      | CB_tx_key \<Rightarrow> ieee802_1x_tx_key A sm
      | CB_eapol_event ev \<Rightarrow> ieee802_1x_eapol_event A ev sm
      | _ \<Rightarrow> sm)"

text \<open>The station's entry has no EAPOL machine while the machine is being created, and is removed only by
  timers, so \<^verbatim>\<open>ieee802_1x_sta_entry_alive\<close> fails exactly during the initialization.\<close>

definition ieee802_1x_env ::
  "'e ap_context \<Rightarrow> ('e \<Rightarrow> eap_eapol_interface \<Rightarrow> 'e \<times> eap_eapol_interface \<times> bool) \<Rightarrow> 'e eapol_env" where
  "ieee802_1x_env A eap_step =
     \<lparr>env_cb = ieee802_1x_cb A, env_alive = \<lambda>sm. \<not> initializing sm, env_eap_step = eap_step\<rparr>"

lemma step_fields [simp]:
  "authSuccess (eapol_auth_step sm) = authSuccess sm"
  "portControl (eapol_auth_step sm) = portControl sm"
  "eap_if (eapol_auth_step sm) = eap_if sm"
  "eap (eapol_auth_step sm) = eap sm"
  by (simp_all add: eapol_auth_step_def)

lemma set_eapol_laws:
  "pae_view (hostapd_wpa_auth_set_eapol vv sm) = pae_view sm"
  "authSuccess (hostapd_wpa_auth_set_eapol vv sm) = authSuccess sm"
  "portControl sm = Auto \<Longrightarrow> portControl (hostapd_wpa_auth_set_eapol vv sm) = Auto"
  "eapSuccess (eap_if (hostapd_wpa_auth_set_eapol vv sm)) = eapSuccess (eap_if sm)"
  "aaaSuccess (eap_if (hostapd_wpa_auth_set_eapol vv sm)) = aaaSuccess (eap_if sm)"
  "eap (hostapd_wpa_auth_set_eapol vv sm) = eap sm"
  by (simp_all add: hostapd_wpa_auth_set_eapol_def ieee802_1x_notify_port_enabled_def
      ieee802_1x_notify_port_valid_def pae_view_def eapol_auth_step_def
      split: prod.split wpa_eapol_variable.split)

lemma fold_set_eapol_laws:
  "pae_view (fold hostapd_wpa_auth_set_eapol vvs sm) = pae_view sm"
  "authSuccess (fold hostapd_wpa_auth_set_eapol vvs sm) = authSuccess sm"
  "portControl sm = Auto \<Longrightarrow> portControl (fold hostapd_wpa_auth_set_eapol vvs sm) = Auto"
  "eapSuccess (eap_if (fold hostapd_wpa_auth_set_eapol vvs sm)) = eapSuccess (eap_if sm)"
  "aaaSuccess (eap_if (fold hostapd_wpa_auth_set_eapol vvs sm)) = aaaSuccess (eap_if sm)"
  "eap (fold hostapd_wpa_auth_set_eapol vvs sm) = eap sm"
  by (induction vvs arbitrary: sm) (simp_all add: set_eapol_laws)

lemmas cb_effect_defs = ieee802_1x_learn_identity_def ieee802_1x_abort_auth_def ieee802_1x_tx_key_def

lemma cb_effect_pae:
  "pae_view (ieee802_1x_learn_identity A d sm) = pae_view sm"
  "pae_view (ieee802_1x_abort_auth sm) = pae_view sm"
  "pae_view (ieee802_1x_tx_key A sm) = pae_view sm"
  by (simp_all add: cb_effect_defs pae_view_def split: option.split)

text \<open>The access point's callbacks obey the laws the state machines rely on.\<close>

interpretation ap: eapol_callbacks "ieee802_1x_env A eap_step"
proof
  fix c and sm :: "'a eapol_state_machine"
  show "pae_view (env_cb (ieee802_1x_env A eap_step) c sm) = pae_view sm"
    by (cases c) (auto simp: ieee802_1x_env_def ieee802_1x_cb_def ieee802_1x_eapol_event_def
        fold_set_eapol_laws cb_effect_pae)
  show "portControl sm = Auto \<Longrightarrow> portControl (env_cb (ieee802_1x_env A eap_step) c sm) = Auto"
    by (cases c) (auto simp: ieee802_1x_env_def ieee802_1x_cb_def ieee802_1x_eapol_event_def
        fold_set_eapol_laws cb_effect_defs split: option.split)
  show "authSuccess (env_cb (ieee802_1x_env A eap_step) c sm) = authSuccess sm"
    "eapSuccess (eap_if (env_cb (ieee802_1x_env A eap_step) c sm)) = eapSuccess (eap_if sm)"
    "aaaSuccess (eap_if (env_cb (ieee802_1x_env A eap_step) c sm)) = aaaSuccess (eap_if sm)"
    "eap (env_cb (ieee802_1x_env A eap_step) c sm) = eap sm"
    by (cases c; auto simp: ieee802_1x_env_def ieee802_1x_cb_def ieee802_1x_eapol_event_def
        fold_set_eapol_laws cb_effect_defs split: option.split)+
qed

section \<open>Stations\<close>

text \<open>What the handlers know of a station's WPA machine: the negotiated key management and the cached PMKSA
  found for the association.\<close>

record wpa_sm_view =
  wpa_key_mgmt :: int
  wpa_pmksa :: "rsn_pmksa_cache_entry option"

datatype sta_call =
    Wpa_receive bytes
  | Wpa_event_reauth_eapol
  | Accounting_start
  | Accounting_stop
  | Drv_set_authorized bool
  | Bind_vlan int
  | Session_timeout u32
  | Pmksa_add int

record 'e sta_info =
  sta_flags :: u32
  eapol_sm :: "'e eapol_state_machine option"
  wpa_sm :: "wpa_sm_view option"
  vlan_id :: int
  acct_terminate_cause :: int
  acct_interim_interval :: int
  sta_calls :: "sta_call list"

record hostapd_data =
  conf_ieee802_1x :: bool
  conf_wpa_enabled :: bool
  conf_wps_state :: bool
  conf_eapol :: eapol_auth_config
  conf_dynamic_vlan :: nat
  conf_acct_interim_interval :: int
  conf_acct_server :: bool
  vlan_ifname :: "int \<Rightarrow> bool"
  bind_vlan_ok :: "int \<Rightarrow> bool"

abbreviation (input) WLAN_STA_AUTH :: u32 where "WLAN_STA_AUTH \<equiv> 1"
abbreviation (input) WLAN_STA_ASSOC :: u32 where "WLAN_STA_ASSOC \<equiv> 2"
abbreviation (input) WLAN_STA_AUTHORIZED :: u32 where "WLAN_STA_AUTHORIZED \<equiv> 32"
abbreviation (input) WLAN_STA_PREAUTH :: u32 where "WLAN_STA_PREAUTH \<equiv> 256"
abbreviation (input) WLAN_STA_WPS :: u32 where "WLAN_STA_WPS \<equiv> 4096"
abbreviation (input) WLAN_STA_MAYBE_WPS :: u32 where "WLAN_STA_MAYBE_WPS \<equiv> 8192"
abbreviation (input) DYNAMIC_VLAN_DISABLED :: nat where "DYNAMIC_VLAN_DISABLED \<equiv> 0"
abbreviation (input) DYNAMIC_VLAN_REQUIRED :: nat where "DYNAMIC_VLAN_REQUIRED \<equiv> 2"

definition log_call :: "sta_call \<Rightarrow> 'e sta_info \<Rightarrow> 'e sta_info" where
  "log_call c sta = sta\<lparr>sta_calls := sta_calls sta @ [c]\<rparr>"

definition wpa_key_mgmt_wpa_psk :: "int \<Rightarrow> bool" where
  "wpa_key_mgmt_wpa_psk akm \<longleftrightarrow> akm = 2 \<or> akm = 64 \<or> akm = 256"

definition wpa_auth_sta_key_mgmt :: "wpa_sm_view option \<Rightarrow> int" where
  "wpa_auth_sta_key_mgmt w = (case w of None \<Rightarrow> -1 | Some w \<Rightarrow> wpa_key_mgmt w)"

definition wpa_auth_sta_get_pmksa :: "wpa_sm_view option \<Rightarrow> rsn_pmksa_cache_entry option" where
  "wpa_auth_sta_get_pmksa w = Option.bind w wpa_pmksa"

definition ieee802_1x_set_sta_authorized :: "bool \<Rightarrow> 'e sta_info \<Rightarrow> 'e sta_info" where
  "ieee802_1x_set_sta_authorized authorized sta =
     (if sta_flags sta AND WLAN_STA_PREAUTH \<noteq> 0 then sta
      else if authorized then
        log_call Accounting_start (log_call (Drv_set_authorized True)
          (sta\<lparr>sta_flags := sta_flags sta OR WLAN_STA_AUTHORIZED\<rparr>))
      else log_call (Drv_set_authorized False)
          (sta\<lparr>sta_flags := sta_flags sta AND NOT WLAN_STA_AUTHORIZED\<rparr>))"

definition ap_sta_disconnect :: "'e sta_info \<Rightarrow> 'e sta_info" where
  "ap_sta_disconnect sta =
     sta\<lparr>sta_flags := sta_flags sta AND NOT (WLAN_STA_AUTH OR WLAN_STA_ASSOC OR WLAN_STA_AUTHORIZED)\<rparr>"

text \<open>The callbacks' effect on the station, from the calls that a run of the machine has logged.\<close>

definition sta_effect :: "cb_call \<Rightarrow> 'e sta_info \<Rightarrow> 'e sta_info" where
  "sta_effect c sta =
     (case c of
        CB_set_port_authorized b \<Rightarrow> ieee802_1x_set_sta_authorized b sta
      | CB_sta_disconnect \<Rightarrow> ap_sta_disconnect sta
      | _ \<Rightarrow> sta)"

definition with_sm :: "('e eapol_state_machine \<Rightarrow> 'e eapol_state_machine) \<Rightarrow> 'e sta_info \<Rightarrow> 'e sta_info" where
  "with_sm f sta =
     (case eapol_sm sta of
        None \<Rightarrow> sta
      | Some sm \<Rightarrow>
          fold sta_effect (drop (length (cb_log sm)) (cb_log (f sm))) (sta\<lparr>eapol_sm := Some (f sm)\<rparr>))"

section \<open>Received EAPOL frames\<close>

text \<open>\<open>malloc\<close> tells whether the copy of the packet can be allocated.  The argument is the EAP packet,
  cut to the length in its header.\<close>

definition handle_eap_response ::
  "bool \<Rightarrow> bytes \<Rightarrow> 'e eapol_state_machine \<Rightarrow> 'e eapol_state_machine" where
  "handle_eap_response malloc pkt sm =
     (if length pkt < 5 then sm
      else sm\<lparr>eap_type_supp := pkt ! 4,
              dot1xAuthEapolRespFramesRx := dot1xAuthEapolRespFramesRx sm + 1,
              eap_if := (eap_if sm)\<lparr>eapRespData := (if malloc then Some pkt else None)\<rparr>,
              eapolEap := True\<rparr>)"

definition handle_eap :: "bool \<Rightarrow> bytes \<Rightarrow> 'e eapol_state_machine \<Rightarrow> 'e eapol_state_machine" where
  "handle_eap malloc buf sm =
     (if length buf < 4 then sm
      else
        let eap_len = unat (eap_hdr_length buf) in
        if eap_len < 4 then sm
        else if eap_len > length buf then sm
        else if eap_hdr_code buf = EAP_CODE_RESPONSE then handle_eap_response malloc (take eap_len buf) sm
        else sm)"

definition ieee802_1x_alloc_eapol_sm ::
  "'e eapol_env \<Rightarrow> hostapd_data \<Rightarrow> 'e option \<Rightarrow> 'e sta_info \<Rightarrow> 'e eapol_state_machine option" where
  "ieee802_1x_alloc_eapol_sm E hapd eap0 sta =
     (let flags = (if sta_flags sta AND WLAN_STA_PREAUTH \<noteq> 0 then EAPOL_SM_PREAUTH else 0);
          flags = (case wpa_sm sta of
                     None \<Rightarrow> flags
                   | Some w \<Rightarrow>
                       let flags = flags OR EAPOL_SM_USES_WPA in
                       if wpa_auth_sta_get_pmksa (Some w) \<noteq> None
                       then flags OR EAPOL_SM_FROM_PMKSA_CACHE else flags)
      in eapol_auth_alloc E (conf_eapol hapd) flags eap0)"

text \<open>The machine of the station, created if it has none yet; \<open>None\<close> is the failure of its allocation.\<close>

definition ensure_eapol_sm ::
  "'e eapol_env \<Rightarrow> hostapd_data \<Rightarrow> 'e option \<Rightarrow> 'e sta_info \<Rightarrow> 'e eapol_state_machine option" where
  "ensure_eapol_sm E hapd eap0 sta =
     (case eapol_sm sta of
        Some sm \<Rightarrow> Some sm
      | None \<Rightarrow>
          (case ieee802_1x_alloc_eapol_sm E hapd eap0 sta of
             None \<Rightarrow> None
           | Some sm \<Rightarrow>
               let sm = (if \<not> conf_ieee802_1x hapd \<and>
                            sta_flags sta AND (WLAN_STA_WPS OR WLAN_STA_MAYBE_WPS) = WLAN_STA_MAYBE_WPS
                         then sm\<lparr>eapol_flags := eapol_flags sm OR EAPOL_SM_WAIT_START\<rparr> else sm)
               in Some (sm\<lparr>eap_if := (eap_if sm)\<lparr>portEnabled := True\<rparr>\<rparr>)))"

text \<open>The switch over the packet type.\<close>

definition dispatch_eapol :: "bool \<Rightarrow> u8 \<Rightarrow> bytes \<Rightarrow> 'e sta_info \<Rightarrow> 'e sta_info" where
  "dispatch_eapol malloc ptype body sta =
     (if ptype = 0 then with_sm (handle_eap malloc body) sta
      else if ptype = 1 then
        log_call Wpa_event_reauth_eapol
          (with_sm (\<lambda>sm. sm\<lparr>eapol_flags := eapol_flags sm AND NOT EAPOL_SM_WAIT_START,
                           eapolStart := True,
                           dot1xAuthEapolStartFramesRx := dot1xAuthEapolStartFramesRx sm + 1\<rparr>)
            (sta\<lparr>wpa_sm := map_option (wpa_pmksa_update (\<lambda>_. None)) (wpa_sm sta)\<rparr>))
      else if ptype = 2 then
        with_sm (\<lambda>sm. sm\<lparr>eapolLogoff := True,
                        dot1xAuthEapolLogoffFramesRx := dot1xAuthEapolLogoffFramesRx sm + 1\<rparr>)
          (log_call Accounting_stop (sta\<lparr>acct_terminate_cause := 1\<rparr>))
      else if ptype = 3 \<or> ptype = 4 then sta
      else with_sm (\<lambda>sm. sm\<lparr>dot1xAuthInvalidEapolFramesRx := dot1xAuthInvalidEapolFramesRx sm + 1\<rparr>) sta)"

text \<open>A frame is \<^verbatim>\<open>struct ieee802_1x_hdr\<close> (version, type, length) and its body.\<close>

definition ieee802_1x_receive ::
  "'e eapol_env \<Rightarrow> hostapd_data \<Rightarrow> bool \<Rightarrow> 'e option \<Rightarrow> bytes \<Rightarrow> 'e sta_info \<Rightarrow> 'e sta_info" where
  "ieee802_1x_receive E hapd malloc eap0 buf sta =
     (if \<not> conf_ieee802_1x hapd \<and> \<not> conf_wpa_enabled hapd \<and> \<not> conf_wps_state hapd then sta
      else if sta_flags sta AND WLAN_STA_ASSOC = 0 then sta
      else if length buf < 4 then sta
      else
        let ptype = buf ! 1;
            datalen = unat (WPA_GET_BE16 (drop 2 buf));
            body = take datalen (drop 4 buf) in
        if length buf - 4 < datalen then
          with_sm (\<lambda>sm. sm\<lparr>dot1xAuthEapLengthErrorFramesRx := dot1xAuthEapLengthErrorFramesRx sm + 1\<rparr>) sta
        else
          let sta = with_sm (\<lambda>sm. sm\<lparr>dot1xAuthLastEapolFrameVersion := ucast (buf ! 0),
                                     dot1xAuthEapolFramesRx := dot1xAuthEapolFramesRx sm + 1\<rparr>) sta in
          if datalen \<ge> 44 \<and> ptype = 3 \<and> (body ! 0 = 254 \<or> body ! 0 = 2)
          then log_call (Wpa_receive (take (4 + datalen) buf)) sta
          else if \<not> conf_ieee802_1x hapd \<and> sta_flags sta AND (WLAN_STA_WPS OR WLAN_STA_MAYBE_WPS) = 0 \<or>
              wpa_key_mgmt_wpa_psk (wpa_auth_sta_key_mgmt (wpa_sm sta)) then sta
          else
            case ensure_eapol_sm E hapd eap0 sta of
              None \<Rightarrow> sta
            | Some sm \<Rightarrow>
                with_sm eapol_auth_step (dispatch_eapol malloc ptype body (sta\<lparr>eapol_sm := Some sm\<rparr>)))"

section \<open>New stations\<close>

text \<open>\<open>notify_cached\<close> is \<^verbatim>\<open>eap_sm_notify_cached\<close> of the EAP server.\<close>

definition ieee802_1x_new_station ::
  "'e eapol_env \<Rightarrow> ('e \<Rightarrow> 'e) \<Rightarrow> hostapd_data \<Rightarrow> bool \<Rightarrow> 'e option \<Rightarrow> 'e sta_info \<Rightarrow> 'e sta_info" where
  "ieee802_1x_new_station E notify_cached hapd id_malloc eap0 sta =
     (let force_1x = conf_wps_state hapd \<and> conf_wpa_enabled hapd \<and>
            sta_flags sta AND (WLAN_STA_WPS OR WLAN_STA_MAYBE_WPS) \<noteq> 0 in
      if \<not> force_1x \<and> \<not> conf_ieee802_1x hapd \<or>
         wpa_key_mgmt_wpa_psk (wpa_auth_sta_key_mgmt (wpa_sm sta)) then sta
      else
        case (case eapol_sm sta of
                Some sm \<Rightarrow> Some (True, sm)
              | None \<Rightarrow> map_option (Pair False) (ieee802_1x_alloc_eapol_sm E hapd eap0 sta)) of
          None \<Rightarrow> sta
        | Some (reassoc, sm) \<Rightarrow>
            let sm = sm\<lparr>eapol_flags := eapol_flags sm AND NOT EAPOL_SM_WAIT_START\<rparr>;
                sm = (if \<not> conf_ieee802_1x hapd \<and> sta_flags sta AND WLAN_STA_WPS = 0
                      then sm\<lparr>eapol_flags := eapol_flags sm OR EAPOL_SM_WAIT_START\<rparr> else sm);
                sm = sm\<lparr>eap_if := (eap_if sm)\<lparr>portEnabled := True\<rparr>\<rparr> in
            (case wpa_auth_sta_get_pmksa (wpa_sm sta) of
               Some pmksa \<Rightarrow>
                 let sm = sm\<lparr>keyRun := True, eap_if := (eap_if sm)\<lparr>eapKeyAvailable := True\<rparr>,
                             auth_pae_state := AUTH_PAE_AUTHENTICATING, be_auth_state := BE_AUTH_SUCCESS,
                             authSuccess := True, eap := map_option notify_cached (eap sm)\<rparr>;
                     old_vlanid = vlan_id sta;
                     (sm, vlan) = pmksa_cache_to_eapol_data id_malloc pmksa sm
                 in log_call (Bind_vlan old_vlanid)
                      (sta\<lparr>eapol_sm := Some sm,
                           vlan_id := (if conf_dynamic_vlan hapd = DYNAMIC_VLAN_DISABLED then 0 else vlan)\<rparr>)
             | None \<Rightarrow>
                 let sm = (if reassoc then sm\<lparr>reAuthenticate := True\<rparr> else sm)
                 in sta\<lparr>eapol_sm := Some (eapol_auth_step sm)\<rparr>))"

definition ieee802_1x_free_station :: "'e sta_info \<Rightarrow> 'e sta_info" where
  "ieee802_1x_free_station sta = sta\<lparr>eapol_sm := None\<rparr>"

definition ieee802_1x_sta_key_available :: "'e sta_info \<Rightarrow> 'e sta_info" where
  "ieee802_1x_sta_key_available sta =
     with_sm (\<lambda>sm. eapol_auth_step (sm\<lparr>eap_if := (eap_if sm)\<lparr>eapKeyAvailable := True\<rparr>\<rparr>)) sta"

section \<open>RADIUS replies\<close>

text \<open>What the handler reads of a RADIUS message, through the accessors of \<^verbatim>\<open>src/radius/radius.c\<close>:
  \<open>rv_verified\<close> is the success of \<^verbatim>\<open>radius_msg_verify\<close>, \<open>rv_eap\<close> the result of \<^verbatim>\<open>radius_msg_get_eap\<close>,
  \<open>rv_ms_keys\<close> the receive and send keys of \<^verbatim>\<open>radius_msg_get_ms_keys\<close>, \<open>rv_class\<close> the values of the Class attributes that the
  loop of \<^verbatim>\<open>ieee802_1x_store_radius_class\<close> collects.\<close>

record radius_view =
  rv_code :: u8
  rv_has_message_authenticator :: bool
  rv_has_eap_message :: bool
  rv_verified :: bool
  rv_session_timeout :: "u32 option"
  rv_termination_action :: "u32 option"
  rv_acct_interim_interval :: "u32 option"
  rv_vlanid :: int
  rv_eap :: "bytes option"
  rv_ms_keys :: "(bytes \<times> bytes) option"
  rv_class :: "bytes list"
  rv_user_name :: "bytes option"

datatype RadiusRxResult = RADIUS_RX_PROCESSED | RADIUS_RX_QUEUED | RADIUS_RX_UNKNOWN |
  RADIUS_RX_INVALID_AUTHENTICATOR

abbreviation (input) RADIUS_CODE_ACCESS_ACCEPT :: u8 where "RADIUS_CODE_ACCESS_ACCEPT \<equiv> 2"
abbreviation (input) RADIUS_CODE_ACCESS_REJECT :: u8 where "RADIUS_CODE_ACCESS_REJECT \<equiv> 3"
abbreviation (input) RADIUS_CODE_ACCESS_CHALLENGE :: u8 where "RADIUS_CODE_ACCESS_CHALLENGE \<equiv> 11"

definition ieee802_1x_decapsulate_radius ::
  "radius_view \<Rightarrow> 'e eapol_state_machine \<Rightarrow> 'e eapol_state_machine" where
  "ieee802_1x_decapsulate_radius msg sm =
     (case rv_eap msg of
        None \<Rightarrow> sm\<lparr>eap_if := (eap_if sm)\<lparr>aaaEapNoReq := True\<rparr>\<rparr>
      | Some pkt \<Rightarrow>
          if length pkt < 4 then sm\<lparr>eap_if := (eap_if sm)\<lparr>aaaEapNoReq := True\<rparr>\<rparr>
          else
            let sm = (if eap_hdr_code pkt = EAP_CODE_REQUEST \<and> length pkt > 4
                      then sm\<lparr>eap_type_authsrv := pkt ! 4\<rparr> else sm)
            in sm\<lparr>eap_if := (eap_if sm)\<lparr>aaaEapReq := True, aaaEapReqData := Some pkt\<rparr>\<rparr>)"

definition ieee802_1x_get_keys :: "radius_view \<Rightarrow> 'e eapol_state_machine \<Rightarrow> 'e eapol_state_machine" where
  "ieee802_1x_get_keys msg sm =
     (case rv_ms_keys msg of
        None \<Rightarrow> sm
      | Some (recv, send) \<Rightarrow>
          sm\<lparr>eap_if := (eap_if sm)\<lparr>aaaEapKeyData := Some (recv @ send), aaaEapKeyAvailable := True\<rparr>\<rparr>)"

definition ieee802_1x_store_radius_class ::
  "hostapd_data \<Rightarrow> radius_view \<Rightarrow> 'e eapol_state_machine \<Rightarrow> 'e eapol_state_machine" where
  "ieee802_1x_store_radius_class hapd msg sm =
     (if \<not> conf_acct_server hapd then sm
      else sm\<lparr>radius_class := rv_class msg\<rparr>)"

definition ieee802_1x_update_sta_identity ::
  "radius_view \<Rightarrow> 'e eapol_state_machine \<Rightarrow> 'e eapol_state_machine" where
  "ieee802_1x_update_sta_identity msg sm =
     (case rv_user_name msg of None \<Rightarrow> sm | Some u \<Rightarrow> sm\<lparr>identity := Some u\<rparr>)"

text \<open>The branch for an Access-Accept; the second component is \<^verbatim>\<open>override_eapReq\<close>.\<close>

definition receive_accept ::
  "hostapd_data \<Rightarrow> radius_view \<Rightarrow> 'e sta_info \<Rightarrow> 'e eapol_state_machine \<Rightarrow>
   'e sta_info \<times> 'e eapol_state_machine \<times> bool" where
  "receive_accept hapd msg sta sm =
     (let (old_vlanid, vlan) = (if conf_dynamic_vlan hapd = DYNAMIC_VLAN_DISABLED then (0, 0)
                               else (vlan_id sta, rv_vlanid msg));
          sta = sta\<lparr>vlan_id := vlan\<rparr> in
      if \<not> (vlan > 0 \<and> vlan_ifname hapd vlan) \<and> conf_dynamic_vlan hapd = DYNAMIC_VLAN_REQUIRED
      then (sta, sm\<lparr>authFail := True\<rparr>, False)
      else
        let sta = log_call (Bind_vlan old_vlanid) sta in
        if \<not> bind_vlan_ok hapd old_vlanid then (sta, sm, False)
        else
          let termination_action = (case rv_termination_action msg of None \<Rightarrow> 0 | Some a \<Rightarrow> a);
              (sta, sm) =
                (case rv_session_timeout msg of
                   None \<Rightarrow> (sta, sm)
                 | Some t \<Rightarrow> if termination_action = 1 then (sta, sm\<lparr>reAuthPeriod := t\<rparr>)
                            else (log_call (Session_timeout t) sta, sm));
              sm = sm\<lparr>eap_if := (eap_if sm)\<lparr>aaaSuccess := True\<rparr>\<rparr>;
              sm = ieee802_1x_get_keys msg sm;
              sm = ieee802_1x_store_radius_class hapd msg sm;
              sm = ieee802_1x_update_sta_identity msg sm;
              sta = (if eapKeyAvailable (eap_if sm)
                     then log_call (Pmksa_add (case rv_session_timeout msg of None \<Rightarrow> -1 | Some t \<Rightarrow> sint t)) sta
                     else sta)
          in (sta, sm, True))"

text \<open>The switch over the message code.\<close>

definition radius_reply ::
  "hostapd_data \<Rightarrow> radius_view \<Rightarrow> 'e sta_info \<Rightarrow> 'e eapol_state_machine \<Rightarrow>
   'e sta_info \<times> 'e eapol_state_machine \<times> bool" where
  "radius_reply hapd msg sta sm =
     (if rv_code msg = RADIUS_CODE_ACCESS_ACCEPT then receive_accept hapd msg sta sm
      else if rv_code msg = RADIUS_CODE_ACCESS_REJECT
      then (sta, sm\<lparr>eap_if := (eap_if sm)\<lparr>aaaFail := True\<rparr>\<rparr>, True)
      else (sta, sm\<lparr>eap_if := (eap_if sm)
             \<lparr>aaaEapReq := True,
              aaaMethodTimeout := (case rv_session_timeout msg of Some t \<Rightarrow> sint t | None \<Rightarrow> 0)\<rparr>\<rparr>,
            False))"

definition ieee802_1x_receive_auth ::
  "hostapd_data \<Rightarrow> radius_view \<Rightarrow> 'e sta_info \<Rightarrow> RadiusRxResult \<times> 'e sta_info" where
  "ieee802_1x_receive_auth hapd msg sta =
     (case eapol_sm sta of
        None \<Rightarrow> (RADIUS_RX_UNKNOWN, sta)
      | Some sm \<Rightarrow>
          if \<not> (rv_code msg = RADIUS_CODE_ACCESS_REJECT \<and> \<not> rv_has_message_authenticator msg \<and>
                \<not> rv_has_eap_message msg) \<and> \<not> rv_verified msg
          then (RADIUS_RX_INVALID_AUTHENTICATOR, sta)
          else if rv_code msg \<notin> {RADIUS_CODE_ACCESS_ACCEPT, RADIUS_CODE_ACCESS_REJECT,
                RADIUS_CODE_ACCESS_CHALLENGE}
          then (RADIUS_RX_UNKNOWN, sta)
          else
            let sm = sm\<lparr>radius_identifier := -1\<rparr>;
                sta = (case rv_acct_interim_interval msg of
                         Some t \<Rightarrow>
                           if conf_acct_interim_interval hapd = 0 \<and> rv_code msg = RADIUS_CODE_ACCESS_ACCEPT \<and>
                              \<not> t < 60
                           then sta\<lparr>acct_interim_interval := sint t\<rparr> else sta
                       | None \<Rightarrow> sta);
                (sta, sm, override_eapReq) = radius_reply hapd msg sta sm;
                sm = ieee802_1x_decapsulate_radius msg sm;
                sm = (if override_eapReq then sm\<lparr>eap_if := (eap_if sm)\<lparr>aaaEapReq := False\<rparr>\<rparr> else sm)
            in (RADIUS_RX_QUEUED, sta\<lparr>eapol_sm := Some (eapol_auth_step sm)\<rparr>))"

section \<open>Event sequences\<close>

text \<open>What can happen to a station.  \<open>Ev_associate\<close> is the IEEE 802.11 association, which sets the flags and
  creates the WPA machine; \<open>Ev_run\<close> is the zero timeout of \<^verbatim>\<open>eapol_auth_step\<close> and \<open>Ev_tick\<close> the one-second
  timer.\<close>

datatype 'e sta_event =
    Ev_associate u32 "wpa_sm_view option"
  | Ev_new_station bool "'e option"
  | Ev_receive bool "'e option" bytes
  | Ev_radius radius_view
  | Ev_set_eapol wpa_eapol_variable int
  | Ev_pre_auth bool
  | Ev_key_available
  | Ev_run
  | Ev_tick
  | Ev_free

definition hostapd_wpa_auth_set_eapol_sta :: "wpa_eapol_variable \<Rightarrow> int \<Rightarrow> 'e sta_info \<Rightarrow> 'e sta_info" where
  "hostapd_wpa_auth_set_eapol_sta var value sta =
     (if var = WPA_EAPOL_authorized then ieee802_1x_set_sta_authorized (value \<noteq> 0) sta
      else with_sm (hostapd_wpa_auth_set_eapol (var, value)) sta)"

definition sta_step ::
  "'e eapol_env \<Rightarrow> ('e \<Rightarrow> 'e) \<Rightarrow> hostapd_data \<Rightarrow> 'e sta_event \<Rightarrow> 'e sta_info \<Rightarrow> 'e sta_info" where
  "sta_step E notify_cached hapd ev sta =
     (case ev of
        Ev_associate flags w \<Rightarrow> sta\<lparr>sta_flags := flags, wpa_sm := w\<rparr>
      | Ev_new_station malloc e \<Rightarrow> ieee802_1x_new_station E notify_cached hapd malloc e sta
      | Ev_receive malloc e buf \<Rightarrow> ieee802_1x_receive E hapd malloc e buf sta
      | Ev_radius msg \<Rightarrow> snd (ieee802_1x_receive_auth hapd msg sta)
      | Ev_set_eapol var value \<Rightarrow> hostapd_wpa_auth_set_eapol_sta var value sta
      | Ev_pre_auth b \<Rightarrow> with_sm (ieee802_1x_notify_pre_auth b) sta
      | Ev_key_available \<Rightarrow> ieee802_1x_sta_key_available sta
      | Ev_run \<Rightarrow> with_sm (eapol_sm_step_run E) sta
      | Ev_tick \<Rightarrow> with_sm (eapol_port_timers_tick E) sta
      | Ev_free \<Rightarrow> ieee802_1x_free_station sta)"

definition sta_run ::
  "'e eapol_env \<Rightarrow> ('e \<Rightarrow> 'e) \<Rightarrow> hostapd_data \<Rightarrow> 'e sta_event list \<Rightarrow> 'e sta_info \<Rightarrow> 'e sta_info" where
  "sta_run E notify_cached hapd evs sta = fold (sta_step E notify_cached hapd) evs sta"

definition sta_new :: "'e sta_info" where
  "sta_new = \<lparr>sta_flags = 0, eapol_sm = None, wpa_sm = None, vlan_id = 0, acct_terminate_cause = 0,
     acct_interim_interval = 0, sta_calls = []\<rparr>"

subsection \<open>Frame lemmas\<close>

lemma effect_sm [simp]:
  "eapol_sm (sta_effect c sta) = eapol_sm sta" "wpa_sm (sta_effect c sta) = wpa_sm sta"
  by (simp_all add: sta_effect_def ieee802_1x_set_sta_authorized_def ap_sta_disconnect_def log_call_def
      split: cb_call.split)

lemma fold_effect_sm [simp]:
  "eapol_sm (fold sta_effect cs sta) = eapol_sm sta" "wpa_sm (fold sta_effect cs sta) = wpa_sm sta"
  by (induction cs arbitrary: sta) simp_all

lemma with_sm_sm [simp]:
  "eapol_sm (with_sm f sta) = map_option f (eapol_sm sta)" "wpa_sm (with_sm f sta) = wpa_sm sta"
  by (simp_all add: with_sm_def split: option.split)

lemma log_call_sm [simp]:
  "eapol_sm (log_call c sta) = eapol_sm sta" "wpa_sm (log_call c sta) = wpa_sm sta"
  by (simp_all add: log_call_def)

lemma set_authorized_sm [simp]:
  "eapol_sm (ieee802_1x_set_sta_authorized b sta) = eapol_sm sta"
  "wpa_sm (ieee802_1x_set_sta_authorized b sta) = wpa_sm sta"
  by (simp_all add: ieee802_1x_set_sta_authorized_def)

lemma receive_accept_sm [simp]:
  "eapol_sm (fst (receive_accept hapd msg sta sm)) = eapol_sm sta"
  "wpa_sm (fst (receive_accept hapd msg sta sm)) = wpa_sm sta"
  by (simp_all add: receive_accept_def Let_def split: prod.split option.split)

subsection \<open>Invariants of a station's machine\<close>

text \<open>What an invariant may depend on.\<close>

definition sec_view where
  "sec_view sm = (pae_view sm, portControl sm, authSuccess sm, eapSuccess (eap_if sm),
     aaaSuccess (eap_if sm), eap sm)"

lemma handler_sec_view:
  "sec_view (handle_eap malloc buf sm) = sec_view sm"
  "sec_view (ieee802_1x_notify_pre_auth b sm) = sec_view sm"
  "sec_view (ieee802_1x_decapsulate_radius msg sm) = sec_view sm"
  by (simp_all add: handle_eap_def handle_eap_response_def ieee802_1x_notify_pre_auth_def Let_def
      ieee802_1x_decapsulate_radius_def sec_view_def pae_view_def split: option.split)

lemma radius_reply_view:
  "rv_code msg \<noteq> RADIUS_CODE_ACCESS_ACCEPT \<Longrightarrow> sec_view (fst (snd (radius_reply hapd msg sta sm))) = sec_view sm"
  "sec_view (sm\<lparr>eap_if := (eap_if sm)\<lparr>aaaEapReq := b\<rparr>\<rparr>) = sec_view sm"
  "sec_view (sm\<lparr>radius_identifier := n\<rparr>) = sec_view sm"
  by (simp_all add: radius_reply_def sec_view_def pae_view_def)

lemma step_sec_view: "sec_view (eapol_auth_step sm) = sec_view sm"
  by (simp add: sec_view_def)

lemma eapol_auth_alloc_cases:
  assumes "eapol_auth_alloc E conf flags e0 = Some sm"
  obtains e sm0 where "e0 = Some e" "sm = eapol_auth_initialize E sm0"
    "sec_view sm0 = ((AUTH_PAE_INITIALIZE, PortState_0, PortTypes_0, 0, 2, 60, []), Auto, False, False, False,
       Some e)"
  using assms unfolding eapol_auth_alloc_def Let_def
  by (auto simp: sec_view_def pae_view_def eapol_sm_zero_def eap_if_zero_def split: option.splits)

text \<open>A property of the machine that the scheduler keeps and that depends only on the view holds in every
  state of the station, as long as nothing grants access from outside: no cached PMKSA and no
  Access-Accept.\<close>

definition grants :: "'e sta_event \<Rightarrow> bool" where
  "grants ev = (case ev of
      Ev_associate flags w \<Rightarrow> wpa_auth_sta_get_pmksa w \<noteq> None
    | Ev_radius msg \<Rightarrow> rv_code msg = RADIUS_CODE_ACCESS_ACCEPT
    | _ \<Rightarrow> False)"

definition event_eap :: "'e sta_event \<Rightarrow> 'e option" where
  "event_eap ev = (case ev of Ev_new_station _ e \<Rightarrow> e | Ev_receive _ e _ \<Rightarrow> e | _ \<Rightarrow> None)"

lemma step_pmksa:
  assumes "wpa_auth_sta_get_pmksa (wpa_sm sta) = None" "\<not> grants ev"
  shows "wpa_auth_sta_get_pmksa (wpa_sm (sta_step E nc hapd ev sta)) = None"
proof (cases ev)
  case (Ev_receive m e buf)
  have "wpa_auth_sta_get_pmksa (wpa_sm (dispatch_eapol m ptype body s)) = None"
    if "wpa_auth_sta_get_pmksa (wpa_sm s) = None" for ptype body and s :: "'a sta_info"
    using that by (cases "wpa_sm s") (simp_all add: dispatch_eapol_def wpa_auth_sta_get_pmksa_def)
  then show ?thesis
    using Ev_receive assms by (simp add: sta_step_def ieee802_1x_receive_def Let_def split: option.split)
next
  case (Ev_radius msg)
  then show ?thesis
    using assms by (simp add: sta_step_def ieee802_1x_receive_auth_def Let_def radius_reply_def grants_def
        split: option.split)
next
  case (Ev_new_station m e)
  then show ?thesis
    using assms by (simp add: sta_step_def ieee802_1x_new_station_def Let_def split: option.split)
qed (use assms in \<open>auto simp: sta_step_def grants_def hostapd_wpa_auth_set_eapol_sta_def
    ieee802_1x_sta_key_available_def ieee802_1x_free_station_def\<close>)

locale sm_invariant =
  fixes E :: "'e eapol_env" and Q :: "'e \<Rightarrow> bool" and P :: "'e eapol_state_machine \<Rightarrow> bool"
  assumes view: "\<lbrakk>sec_view a = sec_view b; P a\<rbrakk> \<Longrightarrow> P b"
    and run: "P sm \<Longrightarrow> P (eapol_sm_step_run E sm)"
    and start: "\<lbrakk>Q e; sec_view sm = ((AUTH_PAE_INITIALIZE, PortState_0, PortTypes_0, 0, 2, 60, []), Auto,
        False, False, False, Some e)\<rbrakk> \<Longrightarrow> P sm"
    and control: "P sm \<Longrightarrow> P (sm\<lparr>portControl := Auto\<rparr>)"
begin

lemma initialize_P: "P sm \<Longrightarrow> P (eapol_auth_initialize E sm)"
proof -
  assume "P sm"
  then have "P (sm\<lparr>initializing := True, initialize := True\<rparr>)"
    by (rule view [rotated]) (simp add: sec_view_def pae_view_def)
  then have "P (eapol_sm_step_run E (sm\<lparr>initializing := True, initialize := True\<rparr>))" by (rule run)
  then have "P ((eapol_sm_step_run E (sm\<lparr>initializing := True, initialize := True\<rparr>))\<lparr>initialize := False\<rparr>)"
    by (rule view [rotated]) (simp add: sec_view_def)
  from run [OF this] show ?thesis
    unfolding eapol_auth_initialize_def Let_def by (rule view [rotated]) (simp add: sec_view_def)
qed

lemma alloc_P: "\<lbrakk>eapol_auth_alloc E conf flags e0 = Some sm; pred_option Q e0\<rbrakk> \<Longrightarrow> P sm"
  by (erule eapol_auth_alloc_cases) (auto intro!: initialize_P start)

lemma set_eapol_P: "P sm \<Longrightarrow> P (hostapd_wpa_auth_set_eapol vv sm)"
  by (cases vv; cases "fst vv = WPA_EAPOL_portControl_Auto")
    (auto simp: hostapd_wpa_auth_set_eapol_def control ieee802_1x_notify_port_enabled_def
      ieee802_1x_notify_port_valid_def sec_view_def pae_view_def eapol_auth_step_def
      elim: view [rotated] split: wpa_eapol_variable.split)

lemma tick_P: "P sm \<Longrightarrow> P (eapol_port_timers_tick E sm)"
  unfolding eapol_port_timers_tick_def Let_def
  by (rule run, erule view [rotated]) (simp add: sec_view_def pae_view_def)

lemma opt_P: "\<lbrakk>pred_option P x; \<And>sm. sec_view (f sm) = sec_view sm\<rbrakk> \<Longrightarrow> pred_option P (map_option f x)"
  by (cases x) (auto elim: view [rotated])

lemma ensure_P:
  assumes "pred_option P (eapol_sm sta)" "pred_option Q e0" "ensure_eapol_sm E hapd e0 sta = Some sm"
  shows "P sm"
proof (cases "eapol_sm sta")
  case None
  then obtain s where s: "ieee802_1x_alloc_eapol_sm E hapd e0 sta = Some s" "sec_view s = sec_view sm"
    using assms(3) by (auto simp: ensure_eapol_sm_def Let_def sec_view_def pae_view_def split: option.splits)
  then have "P s" using assms(2) alloc_P by (auto simp: ieee802_1x_alloc_eapol_sm_def Let_def)
  with s show ?thesis using view by blast
qed (use assms in \<open>simp add: ensure_eapol_sm_def\<close>)

lemma dispatch_P:
  assumes "pred_option P (eapol_sm sta)"
  shows "pred_option P (eapol_sm (dispatch_eapol malloc ptype body sta))"
  using assms unfolding dispatch_eapol_def
  by (auto simp: handler_sec_view intro!: opt_P) (simp_all add: sec_view_def pae_view_def)

lemma receive_P:
  assumes P: "pred_option P (eapol_sm sta)" and e: "pred_option Q e0"
  shows "pred_option P (eapol_sm (ieee802_1x_receive E hapd malloc e0 buf sta))"
proof -
  let ?sta = "with_sm (\<lambda>sm. sm\<lparr>dot1xAuthLastEapolFrameVersion := ucast (buf ! 0),
      dot1xAuthEapolFramesRx := dot1xAuthEapolFramesRx sm + 1\<rparr>) sta"
  have 1: "pred_option P (eapol_sm ?sta)"
    by (simp add: opt_P [OF P] sec_view_def pae_view_def)
  have 2: "pred_option P (eapol_sm (with_sm eapol_auth_step
      (dispatch_eapol malloc ptype body (?sta\<lparr>eapol_sm := Some sm\<rparr>))))"
    if "ensure_eapol_sm E hapd e0 ?sta = Some sm" for sm ptype body
    using ensure_P [OF 1 e that] dispatch_P [of "?sta\<lparr>eapol_sm := Some sm\<rparr>" malloc ptype body]
    by (simp add: opt_P step_sec_view)
  have 3: "pred_option P (eapol_sm (case ensure_eapol_sm E hapd e0 ?sta of None \<Rightarrow> ?sta
      | Some sm \<Rightarrow> with_sm eapol_auth_step (dispatch_eapol malloc ptype body (?sta\<lparr>eapol_sm := Some sm\<rparr>))))"
    for ptype body
    using 1 2 by (cases "ensure_eapol_sm E hapd e0 ?sta") simp_all
  have 4: "pred_option P (map_option (\<lambda>sm. sm\<lparr>dot1xAuthEapLengthErrorFramesRx :=
      dot1xAuthEapLengthErrorFramesRx sm + 1\<rparr>) (eapol_sm sta))"
    by (simp add: opt_P [OF P] sec_view_def pae_view_def)
  show ?thesis
    unfolding ieee802_1x_receive_def Let_def using P 1 3 4 by (simp only: if_split with_sm_sm log_call_sm) simp
qed

lemma new_station_P:
  assumes P: "pred_option P (eapol_sm sta)" and e: "pred_option Q e0"
    and no: "wpa_auth_sta_get_pmksa (wpa_sm sta) = None"
  shows "pred_option P (eapol_sm (ieee802_1x_new_station E nc hapd im e0 sta))"
proof -
  have "P sm" if "ieee802_1x_alloc_eapol_sm E hapd e0 sta = Some sm" for sm
    using that e alloc_P by (auto simp: ieee802_1x_alloc_eapol_sm_def Let_def)
  then show ?thesis
    using P no unfolding ieee802_1x_new_station_def Let_def
    by (auto simp: sec_view_def pae_view_def eapol_auth_step_def intro: view [rotated] split: option.splits)
qed

lemma radius_P:
  assumes P: "pred_option P (eapol_sm sta)" and no: "rv_code msg \<noteq> RADIUS_CODE_ACCESS_ACCEPT"
  shows "pred_option P (eapol_sm (snd (ieee802_1x_receive_auth hapd msg sta)))"
proof (cases "eapol_sm sta")
  case (Some sm)
  let ?sta = "case rv_acct_interim_interval msg of
      Some t \<Rightarrow> if conf_acct_interim_interval hapd = 0 \<and> rv_code msg = RADIUS_CODE_ACCESS_ACCEPT \<and> \<not> t < 60
        then sta\<lparr>acct_interim_interval := sint t\<rparr> else sta
    | None \<Rightarrow> sta"
  obtain sta2 sm2 ov where r: "radius_reply hapd msg ?sta (sm\<lparr>radius_identifier := -1\<rparr>) = (sta2, sm2, ov)"
    by (rule prod_cases3)
  with radius_reply_view(1) [OF no, of hapd ?sta "sm\<lparr>radius_identifier := -1\<rparr>"]
  have v: "sec_view sm2 = sec_view sm" by (simp add: radius_reply_view(3))
  let ?d = "ieee802_1x_decapsulate_radius msg sm2"
  let ?s = "eapol_auth_step (if ov then ?d\<lparr>eap_if := (eap_if ?d)\<lparr>aaaEapReq := False\<rparr>\<rparr> else ?d)"
  have s: "sec_view ?s = sec_view sm"
    by (cases ov) (simp_all only: if_True if_False step_sec_view handler_sec_view radius_reply_view(2) v)
  have "eapol_sm (snd (ieee802_1x_receive_auth hapd msg sta)) \<in> {Some sm, Some ?s}"
    unfolding ieee802_1x_receive_auth_def Some option.case Let_def r prod.case by (simp add: Some)
  then show ?thesis using P Some view [OF s [symmetric]] by auto
qed (use assms in \<open>simp add: ieee802_1x_receive_auth_def\<close>)

lemma step_other_P:
  assumes P: "pred_option P (eapol_sm sta)" and Q: "pred_option Q (event_eap ev)"
    and ev: "\<And>m e. ev \<noteq> Ev_new_station m e" "\<And>msg. ev \<noteq> Ev_radius msg"
  shows "pred_option P (eapol_sm (sta_step E nc hapd ev sta))"
proof (cases ev)
  case (Ev_set_eapol x y)
  then show ?thesis using P set_eapol_P
    by (cases "eapol_sm sta") (simp_all add: sta_step_def hostapd_wpa_auth_set_eapol_sta_def)
next
  case Ev_key_available
  then show ?thesis
    by (simp add: sta_step_def ieee802_1x_sta_key_available_def)
      (rule opt_P [OF P], simp add: sec_view_def)
next
  case Ev_run
  then show ?thesis using P run by (cases "eapol_sm sta") (simp_all add: sta_step_def)
next
  case Ev_tick
  then show ?thesis using P tick_P by (cases "eapol_sm sta") (simp_all add: sta_step_def)
qed (use P Q ev in \<open>simp_all add: sta_step_def event_eap_def ieee802_1x_free_station_def receive_P opt_P
    handler_sec_view\<close>)

lemma step_P:
  assumes "pred_option P (eapol_sm sta)" "wpa_auth_sta_get_pmksa (wpa_sm sta) = None"
    and "\<not> grants ev" "pred_option Q (event_eap ev)"
  shows "pred_option P (eapol_sm (sta_step E nc hapd ev sta))"
  using assms
  by (cases ev) (simp_all add: step_other_P,
    simp_all add: sta_step_def event_eap_def grants_def new_station_P radius_P)

lemma run_P:
  assumes "pred_option P (eapol_sm sta)" "wpa_auth_sta_get_pmksa (wpa_sm sta) = None"
    and "\<forall>ev \<in> set evs. \<not> grants ev \<and> pred_option Q (event_eap ev)"
  shows "pred_option P (eapol_sm (sta_run E nc hapd evs sta))"
  using assms unfolding sta_run_def
  by (induction evs arbitrary: sta) (simp_all add: step_P step_pmksa)

end

text \<open>An invariant that tolerates the shortcut for a cached PMKSA and an Access-Accept holds for every
  sequence of events.\<close>

locale sm_invariant_full = sm_invariant +
  assumes shortcut: "\<lbrakk>P sm; sec_view b =
      sec_view (sm\<lparr>auth_pae_state := AUTH_PAE_AUTHENTICATING, authSuccess := True, eap := x\<rparr>)\<rbrakk> \<Longrightarrow> P b"
    and accept: "P sm \<Longrightarrow> P (sm\<lparr>eap_if := (eap_if sm)\<lparr>aaaSuccess := True\<rparr>\<rparr>)"
begin

lemma new_station_full:
  assumes P: "pred_option P (eapol_sm sta)" and e: "pred_option Q e0"
  shows "pred_option P (eapol_sm (ieee802_1x_new_station E nc hapd im e0 sta))"
proof (cases "wpa_auth_sta_get_pmksa (wpa_sm sta)")
  case None
  with P e show ?thesis by (rule new_station_P)
next
  case (Some pmksa)
  have "P sm" if "ieee802_1x_alloc_eapol_sm E hapd e0 sta = Some sm" for sm
    using that e alloc_P by (auto simp: ieee802_1x_alloc_eapol_sm_def Let_def)
  then show ?thesis
    using P Some unfolding ieee802_1x_new_station_def Let_def
    by (auto simp: pmksa_cache_to_eapol_data_def Let_def sec_view_def pae_view_def
        intro: shortcut split: option.splits)
qed

lemma parts_P:
  assumes "P sm"
  shows "P (ieee802_1x_get_keys msg sm)" "P (ieee802_1x_store_radius_class hapd msg sm)"
    "P (ieee802_1x_update_sta_identity msg sm)" "P (sm\<lparr>reAuthPeriod := t\<rparr>)" "P (sm\<lparr>authFail := True\<rparr>)"
    "P (sm\<lparr>radius_identifier := n\<rparr>)" "P (ieee802_1x_decapsulate_radius msg sm)"
    "P (sm\<lparr>eap_if := (eap_if sm)\<lparr>aaaEapReq := b\<rparr>\<rparr>)" "P (eapol_auth_step sm)"
  by (rule view [OF _ assms], simp add: ieee802_1x_get_keys_def ieee802_1x_store_radius_class_def
      ieee802_1x_update_sta_identity_def ieee802_1x_decapsulate_radius_def sec_view_def pae_view_def
      eapol_auth_step_def Let_def split: option.split)+

lemma accept_P: "P sm \<Longrightarrow> P (fst (snd (receive_accept hapd msg sta sm)))"
  unfolding receive_accept_def Let_def case_prod_beta
  by (cases "rv_session_timeout msg") (simp_all add: parts_P accept)

lemma reply_P: "P sm \<Longrightarrow> P (fst (snd (radius_reply hapd msg sta sm)))"
  by (cases "rv_code msg = RADIUS_CODE_ACCESS_ACCEPT")
    (auto simp: radius_reply_def accept_P sec_view_def pae_view_def elim: view [rotated])

lemma radius_full:
  assumes P: "pred_option P (eapol_sm sta)"
  shows "pred_option P (eapol_sm (snd (ieee802_1x_receive_auth hapd msg sta)))"
proof (cases "eapol_sm sta")
  case (Some sm)
  with P have "P (sm\<lparr>radius_identifier := -1\<rparr>)" by (simp add: parts_P)
  note r = parts_P(7) [OF reply_P [OF this]]
  show ?thesis
    using P unfolding ieee802_1x_receive_auth_def Some option.case Let_def case_prod_beta
    by (simp add: parts_P r Some)
qed (use assms in \<open>simp add: ieee802_1x_receive_auth_def\<close>)

lemma step_full:
  assumes "pred_option P (eapol_sm sta)" "pred_option Q (event_eap ev)"
  shows "pred_option P (eapol_sm (sta_step E nc hapd ev sta))"
  using assms
  by (cases ev) (simp_all add: step_other_P,
    simp_all add: sta_step_def event_eap_def new_station_full radius_full)

lemma run_full:
  assumes "pred_option P (eapol_sm sta)" "\<forall>ev \<in> set evs. pred_option Q (event_eap ev)"
  shows "pred_option P (eapol_sm (sta_run E nc hapd evs sta))"
  using assms unfolding sta_run_def
  by (induction evs arbitrary: sta) (simp_all add: step_full)

end

section \<open>The invariants of the access point's machines\<close>

lemma sec_view_pae: "sec_view a = sec_view b \<Longrightarrow> pae_view a = pae_view b"
  by (simp add: sec_view_def)

interpretation port: sm_invariant_full "ieee802_1x_env A S" "\<lambda>_. True" port_consistent
proof
  show "port_consistent b" if "sec_view a = sec_view b" "port_consistent a" for a b :: "'a eapol_state_machine"
    using that consistent_cong [OF sec_view_pae] by blast
  show "port_consistent b" if "port_consistent sm" "sec_view b =
      sec_view (sm\<lparr>auth_pae_state := AUTH_PAE_AUTHENTICATING, authSuccess := True, eap := x\<rparr>)"
    for b sm :: "'a eapol_state_machine" and x
    using that by (auto simp: port_consistent_def sec_view_def pae_view_def)
qed (simp_all add: ap.consistent_run, auto simp: port_consistent_def sec_view_def pae_view_def port_status_of_def)

interpretation retry: sm_invariant "ieee802_1x_env A S" "\<lambda>_. True" reauth_bounded
proof
  show "reauth_bounded b" if "sec_view a = sec_view b" "reauth_bounded a" for a b :: "'a eapol_state_machine"
    using that bounded_cong [OF sec_view_pae] by blast
qed (simp_all add: ap.bounded_run, auto simp: reauth_bounded_def sec_view_def pae_view_def)

text \<open>What the no-success invariant needs of the EAP server: from a state that satisfies \<open>Q\<close>, with no success
  reported, a step reports none and keeps \<open>Q\<close>.\<close>

definition eap_quiet :: "('e \<Rightarrow> bool) \<Rightarrow> ('e \<Rightarrow> eap_eapol_interface \<Rightarrow> 'e \<times> eap_eapol_interface \<times> bool) \<Rightarrow> bool" where
  "eap_quiet Q S \<longleftrightarrow> (\<forall>e i e' i' m. S e i = (e', i', m) \<and> Q e \<and> \<not> eapSuccess i \<and> \<not> aaaSuccess i \<longrightarrow>
     Q e' \<and> \<not> eapSuccess i' \<and> \<not> aaaSuccess i')"

lemma denied_invariant:
  fixes S :: "'e \<Rightarrow> eap_eapol_interface \<Rightarrow> 'e \<times> eap_eapol_interface \<times> bool"
  assumes "eap_quiet Q S"
  shows "sm_invariant (ieee802_1x_env A S) Q (denied Q)"
proof
  fix sm :: "'e eapol_state_machine"
  assume sm: "denied Q sm"
  show "denied Q (eapol_sm_step_run (ieee802_1x_env A S) sm)"
  proof (rule ap.denied_run [OF _ sm])
    fix e i e' i' m
    assume "env_eap_step (ieee802_1x_env A S) e i = (e', i', m)"
    then have "S e i = (e', i', m)" by (simp add: ieee802_1x_env_def)
    then show "\<lbrakk>Q e; \<not> eapSuccess i; \<not> aaaSuccess i\<rbrakk> \<Longrightarrow> Q e' \<and> \<not> eapSuccess i' \<and> \<not> aaaSuccess i'"
      using assms unfolding eap_quiet_def by blast
  qed
qed (auto simp: denied_def sec_view_def pae_view_def)

section \<open>Properties\<close>

text \<open>A configuration for plain IEEE 802.1X and an EAP server that only acknowledges restarts, for concrete
  runs.\<close>

definition demo_conf :: hostapd_data where
  "demo_conf = \<lparr>conf_ieee802_1x = True, conf_wpa_enabled = False, conf_wps_state = False,
     conf_eapol = \<lparr>eap_reauth_period = 3600, conf_wpa = 0, individual_wep_key_len = 0, default_wep_key = None\<rparr>,
     conf_dynamic_vlan = 0, conf_acct_interim_interval = 0, conf_acct_server = False,
     vlan_ifname = \<lambda>_. False, bind_vlan_ok = \<lambda>_. True\<rparr>"

definition demo_context :: "unit ap_context" where
  "demo_context = \<lparr>wpa_reaction = \<lambda>_ _. [], eap_identity = \<lambda>_. None, key_frames = \<lambda>_. 0\<rparr>"

definition demo_eap :: "unit \<Rightarrow> eap_eapol_interface \<Rightarrow> unit \<times> eap_eapol_interface \<times> bool" where
  "demo_eap e i = (e, i\<lparr>eapRestart := False\<rparr>, eapRestart i)"

abbreviation (input) demo_run :: "unit sta_event list \<Rightarrow> unit sta_info" where
  "demo_run evs \<equiv> sta_run (ieee802_1x_env demo_context demo_eap) id demo_conf evs sta_new"



text \<open>C2. The port is never opened by accident: as long as no cached PMKSA is presented, no Access-Accept
  arrives and the EAP server reports no success, no sequence of events makes the machine call
  \<^verbatim>\<open>set_port_authorized\<close> with a positive decision, and the port status is not \<^verbatim>\<open>Authorized\<close>.\<close>

theorem no_authorization_without_success:
  assumes "eap_quiet Q S"
    and "\<forall>ev \<in> set evs. \<not> grants ev \<and> pred_option Q (event_eap ev)"
    and "eapol_sm (sta_run (ieee802_1x_env A S) nc hapd evs sta_new) = Some sm"
  shows "authPortStatus sm \<noteq> Authorized \<and> True \<notin> set (port_log (cb_log sm))"
  using sm_invariant.run_P [OF denied_invariant [OF assms(1)], of sta_new evs A nc hapd] assms(2,3)
  by (simp add: sta_new_def denied_def wpa_auth_sta_get_pmksa_def)

theorem no_authorization_without_success_witness:
  "\<exists>sm. eapol_sm (demo_run [Ev_associate 3 None, Ev_new_station True (Some ()), Ev_run,
      Ev_receive True None [2, 1, 0, 0], Ev_tick]) = Some sm \<and>
     eapolStart sm \<and> authPortStatus sm \<noteq> Authorized"
proof -
  let ?evs = "[Ev_associate 3 None, Ev_new_station True (Some ()), Ev_run, Ev_receive True None [2, 1, 0, 0], Ev_tick]"
  have "case eapol_sm (demo_run ?evs) of None \<Rightarrow> False | Some sm \<Rightarrow> eapolStart sm"
    by code_simp
  then obtain sm where sm: "eapol_sm (demo_run ?evs) = Some sm" "eapolStart sm"
    by (auto split: option.splits)
  have "eap_quiet (\<lambda>_. True) demo_eap" by (auto simp: eap_quiet_def demo_eap_def)
  from no_authorization_without_success [OF this _ sm(1)] sm show ?thesis
    by (auto simp: grants_def event_eap_def wpa_auth_sta_get_pmksa_def)
qed



end
