(* ===== verification/Eap_Server.thy ===== *)
theory Eap_Server
  imports Eap_Common Eap_If
begin

text \<open>
  The EAP server state machine of \<^verbatim>\<open>src/eap_server/eap_server.c\<close> (RFC 4137, with the pass-through states).
  The state is \<^verbatim>\<open>struct eap_sm\<close>; its member \<^verbatim>\<open>eap_if\<close> is the field \<open>sif\<close>.  An EAP method is called through the
  function pointers of \<^verbatim>\<open>struct eap_method\<close>: the field \<open>m\<close> holds the vendor and type of the selected method,
  and the record \<open>eap_srv\<close> the functions of all methods, each of which gets the method's private data and
  may change the state.  \<open>eap_srv\<close> also holds the user database, the random numbers and the success of
  allocations.  The field \<open>null_deref\<close> has no counterpart in C: it records that the code has called a method
  through a null pointer.  Log output is left out.
\<close>

section \<open>Data\<close>

datatype eap_state = EAP_DISABLED | EAP_INITIALIZE | EAP_IDLE | EAP_RECEIVED | EAP_INTEGRITY_CHECK |
  EAP_METHOD_RESPONSE | EAP_METHOD_REQUEST | EAP_PROPOSE_METHOD | EAP_SELECT_ACTION | EAP_SEND_REQUEST |
  EAP_DISCARD | EAP_NAK | EAP_RETRANSMIT | EAP_SUCCESS | EAP_FAILURE | EAP_TIMEOUT_FAILURE |
  EAP_PICK_UP_METHOD | EAP_INITIALIZE_PASSTHROUGH | EAP_IDLE2 | EAP_RETRANSMIT2 | EAP_RECEIVED2 |
  EAP_DISCARD2 | EAP_SEND_REQUEST2 | EAP_AAA_REQUEST | EAP_AAA_RESPONSE | EAP_AAA_IDLE |
  EAP_TIMEOUT_FAILURE2 | EAP_FAILURE2 | EAP_SUCCESS2

datatype method_state = METHOD_PROPOSED | METHOD_CONTINUE | METHOD_END
datatype eap_decision = DECISION_SUCCESS | DECISION_FAILURE | DECISION_CONTINUE | DECISION_PASSTHROUGH
datatype pending = METHOD_PENDING_NONE | METHOD_PENDING_WAIT | METHOD_PENDING_CONT

abbreviation (input) EAP_MAX_METHODS :: nat where "EAP_MAX_METHODS \<equiv> 8"
abbreviation (input) EAP_MAX_AUTH_ROUNDS :: int where "EAP_MAX_AUTH_ROUNDS \<equiv> 50"
abbreviation (input) NO_METHOD :: "u32 \<times> u32" where "NO_METHOD \<equiv> (0, 0)"

record eap_user =
  user_methods :: "(u32 \<times> u32) list"
  user_password :: "bytes option"
  user_password_hash :: bool
  user_phase2 :: bool

record 'p eap_sm =
  EAP_state :: eap_state
  MaxRetrans :: int
  sif :: eap_eapol_interface
  currentMethod :: u32
  currentId :: int
  methodState :: method_state
  retransCount :: int
  lastReqData :: "bytes option"
  methodTimeout :: int
  rxResp :: bool
  respId :: int
  respMethod :: u32
  respVendor :: u32
  respVendorMethod :: u32
  eap_ignore :: bool
  decision :: eap_decision
  m :: "(u32 \<times> u32) option"
  eap_changed :: bool
  eap_method_priv :: "'p option"
  eap_id :: "bytes option"
  lastId :: int
  user :: "eap_user option"
  user_eap_method_index :: nat
  backend_auth :: bool
  update_user :: bool
  eap_server :: bool
  num_rounds :: int
  method_pending :: pending
  start_reauth :: bool
  null_deref :: bool

text \<open>The functions of the registered methods, by vendor and type; an absent function pointer is \<open>None\<close>.\<close>

record 'p eap_srv =
  srv_registered :: "u32 \<Rightarrow> u32 \<Rightarrow> bool"
  srv_init :: "u32 \<times> u32 \<Rightarrow> 'p eap_sm \<Rightarrow> 'p option \<times> 'p eap_sm"
  srv_initPickUp :: "u32 \<times> u32 \<Rightarrow> ('p eap_sm \<Rightarrow> 'p option \<times> 'p eap_sm) option"
  srv_buildReq :: "u32 \<times> u32 \<Rightarrow> 'p \<Rightarrow> u8 \<Rightarrow> 'p eap_sm \<Rightarrow> bytes option \<times> 'p eap_sm"
  srv_getTimeout :: "u32 \<times> u32 \<Rightarrow> ('p \<Rightarrow> 'p eap_sm \<Rightarrow> int) option"
  srv_check :: "u32 \<times> u32 \<Rightarrow> ('p \<Rightarrow> bytes option \<Rightarrow> 'p eap_sm \<Rightarrow> bool) option"
  srv_process :: "u32 \<times> u32 \<Rightarrow> 'p \<Rightarrow> bytes option \<Rightarrow> 'p eap_sm \<Rightarrow> 'p eap_sm"
  srv_isDone :: "u32 \<times> u32 \<Rightarrow> 'p \<Rightarrow> 'p eap_sm \<Rightarrow> bool"
  srv_getKey :: "u32 \<times> u32 \<Rightarrow> ('p \<Rightarrow> 'p eap_sm \<Rightarrow> bytes option) option"
  srv_isSuccess :: "u32 \<times> u32 \<Rightarrow> 'p \<Rightarrow> 'p eap_sm \<Rightarrow> bool"
  srv_get_eap_user :: "bytes \<Rightarrow> bool \<Rightarrow> eap_user option"
  srv_rand :: "'p eap_sm \<Rightarrow> nat"
  srv_alloc :: "'p eap_sm \<Rightarrow> bool"

definition set_if :: "(eap_eapol_interface \<Rightarrow> eap_eapol_interface) \<Rightarrow> 'p eap_sm \<Rightarrow> 'p eap_sm" where
  "set_if f sm = sm\<lparr>sif := f (sif sm)\<rparr>"

definition eap_server_get_eap_method :: "'p eap_srv \<Rightarrow> u32 \<Rightarrow> u32 \<Rightarrow> (u32 \<times> u32) option" where
  "eap_server_get_eap_method S vendor method =
     (if srv_registered S vendor method then Some (vendor, method) else None)"

section \<open>Helper functions\<close>

text \<open>The loop of \<^verbatim>\<open>eap_sm_calculateTimeout\<close>; the first argument counts the iterations left.\<close>

fun rto_loop :: "nat \<Rightarrow> int \<Rightarrow> int" where
  "rto_loop 0 rto = rto"
| "rto_loop (Suc n) rto = (let rto = rto * 2 in if rto \<ge> 20 then 20 else rto_loop n rto)"

definition eap_sm_calculateTimeout :: "int \<Rightarrow> int \<Rightarrow> int" where
  "eap_sm_calculateTimeout retrans methodTO = (if methodTO \<noteq> 0 then methodTO else rto_loop (nat retrans) 3)"

definition eap_sm_parseEapResp :: "bytes option \<Rightarrow> 'p eap_sm \<Rightarrow> 'p eap_sm" where
  "eap_sm_parseEapResp resp sm =
     (let sm = sm\<lparr>rxResp := False, respId := -1, respMethod := EAP_TYPE_NONE,
                  respVendor := EAP_VENDOR_IETF, respVendorMethod := EAP_TYPE_NONE\<rparr> in
      case resp of
        None \<Rightarrow> sm
      | Some r \<Rightarrow>
          if length r < 4 then sm
          else
            let plen = unat (eap_hdr_length r) in
            if plen > length r then sm
            else
              let sm = sm\<lparr>respId := uint (eap_hdr_identifier r)\<rparr>;
                  sm = (if eap_hdr_code r = EAP_CODE_RESPONSE then sm\<lparr>rxResp := True\<rparr> else sm) in
              if plen > 4 then
                let sm = sm\<lparr>respMethod := ucast (r ! 4)\<rparr> in
                if respMethod sm = EAP_TYPE_EXPANDED then
                  (if plen < 12 then sm
                   else sm\<lparr>respVendor := WPA_GET_BE24 (drop 5 r),
                           respVendorMethod := WPA_GET_BE32 (drop 8 r)\<rparr>)
                else sm
              else sm)"

definition eap_sm_getId :: "bytes option \<Rightarrow> int" where
  "eap_sm_getId data =
     (case data of None \<Rightarrow> -1 | Some d \<Rightarrow> if length d < 4 then -1 else uint (eap_hdr_identifier d))"

text \<open>The identifier is passed as an \<^verbatim>\<open>int\<close> and converted to an octet.\<close>

definition eap_sm_buildSuccess :: "bool \<Rightarrow> int \<Rightarrow> bytes option" where
  "eap_sm_buildSuccess alloc ident =
     (if alloc then Some (eap_hdr EAP_CODE_SUCCESS (word_of_int ident) 4) else None)"

definition eap_sm_buildFailure :: "bool \<Rightarrow> int \<Rightarrow> bytes option" where
  "eap_sm_buildFailure alloc ident =
     (if alloc then Some (eap_hdr EAP_CODE_FAILURE (word_of_int ident) 4) else None)"

definition eap_sm_nextId :: "'p eap_srv \<Rightarrow> 'p eap_sm \<Rightarrow> int \<Rightarrow> int" where
  "eap_sm_nextId S sm ident =
     (if ident < 0 then
        (let ident = int (srv_rand S sm mod 256) in if ident \<noteq> lastId sm then ident else (ident + 1) mod 256)
      else (ident + 1) mod 256)"

text \<open>Copying a buffer: the outcome is the new contents of the destination and whether it succeeded.\<close>

definition eap_copy_buf :: "bool \<Rightarrow> bytes option \<Rightarrow> bytes option \<Rightarrow> bytes option \<times> bool" where
  "eap_copy_buf alloc dst src =
     (case src of None \<Rightarrow> (dst, False) | Some s \<Rightarrow> if alloc then (Some s, True) else (None, False))"

definition eap_user_get :: "'p eap_srv \<Rightarrow> bytes \<Rightarrow> bool \<Rightarrow> 'p eap_sm \<Rightarrow> bool \<times> 'p eap_sm" where
  "eap_user_get S ident phase2 sm =
     (let sm = sm\<lparr>user := None\<rparr> in
      case srv_get_eap_user S ident phase2 of
        None \<Rightarrow> (False, sm)
      | Some u \<Rightarrow> (True, sm\<lparr>user := Some u, user_eap_method_index := 0\<rparr>))"

section \<open>Policy\<close>

text \<open>\<^verbatim>\<open>os_memmove\<close> over the entry and a free entry at the end.\<close>

definition remove_method :: "nat \<Rightarrow> (u32 \<times> u32) list \<Rightarrow> (u32 \<times> u32) list" where
  "remove_method i ms = take i ms @ drop (Suc i) ms @ [NO_METHOD]"

definition nak_allows :: "bytes \<Rightarrow> u32 \<times> u32 \<Rightarrow> bool" where
  "nak_allows nak vm \<longleftrightarrow> fst vm = EAP_VENDOR_IETF \<and> snd vm \<in> set (map ucast nak)"

function process_nak_loop :: "bytes \<Rightarrow> nat \<Rightarrow> (u32 \<times> u32) list \<Rightarrow> (u32 \<times> u32) list" where
  "process_nak_loop nak i ms =
     (if i < EAP_MAX_METHODS \<and> i < length ms \<and> ms ! i \<noteq> NO_METHOD then
        (if nak_allows nak (ms ! i) then process_nak_loop nak (Suc i) ms
         else process_nak_loop nak i (remove_method i ms))
      else ms)"
  by auto

termination
  by (relation "measure (\<lambda>(nak, i, ms). (EAP_MAX_METHODS - i) +
      length (filter (\<lambda>x. x \<noteq> NO_METHOD) (drop i ms)))")
    (auto simp: remove_method_def Cons_nth_drop_Suc [symmetric])

declare process_nak_loop.simps [simp del]

definition eap_sm_process_nak :: "bytes \<Rightarrow> 'p eap_sm \<Rightarrow> 'p eap_sm" where
  "eap_sm_process_nak nak sm =
     (case user sm of
        None \<Rightarrow> sm
      | Some u \<Rightarrow>
          sm\<lparr>user := Some (u\<lparr>user_methods :=
               process_nak_loop nak (user_eap_method_index sm) (user_methods u)\<rparr>)\<rparr>)"

definition eap_sm_Policy_update :: "bytes option \<Rightarrow> 'p eap_sm \<Rightarrow> 'p eap_sm" where
  "eap_sm_Policy_update nak_list sm =
     (case (nak_list, user sm) of
        (Some nak, Some u) \<Rightarrow>
          if user_phase2 u then sm\<lparr>decision := DECISION_FAILURE\<rparr> else eap_sm_process_nak nak sm
      | _ \<Rightarrow> sm)"

definition next_user_method :: "'p eap_sm \<Rightarrow> (u32 \<times> u32) option" where
  "next_user_method sm =
     (case user sm of
        None \<Rightarrow> None
      | Some u \<Rightarrow>
          let i = user_eap_method_index sm in
          if i < EAP_MAX_METHODS \<and> user_methods u ! i \<noteq> NO_METHOD then Some (user_methods u ! i) else None)"

definition eap_sm_Policy_getNextMethod :: "'p eap_sm \<Rightarrow> (u32 \<times> u32) \<times> 'p eap_sm" where
  "eap_sm_Policy_getNextMethod sm =
     (if eap_id sm = None \<or> currentId sm = -1 then
        ((EAP_VENDOR_IETF, EAP_TYPE_IDENTITY), sm\<lparr>update_user := True\<rparr>)
      else case next_user_method sm of
        Some vm \<Rightarrow> (vm, sm\<lparr>user_eap_method_index := user_eap_method_index sm + 1\<rparr>)
      | None \<Rightarrow> (NO_METHOD, sm))"

definition first_is_identity :: "'p eap_sm \<Rightarrow> bool" where
  "first_is_identity sm =
     (case user sm of None \<Rightarrow> False | Some u \<Rightarrow> user_methods u ! 0 = (EAP_VENDOR_IETF, EAP_TYPE_IDENTITY))"

text \<open>The part of \<^verbatim>\<open>eap_sm_Policy_getDecision\<close> after the user lookup.\<close>

definition decide_rest :: "'p eap_sm \<Rightarrow> eap_decision \<times> 'p eap_sm" where
  "decide_rest sm =
     (let sm = sm\<lparr>start_reauth := False\<rparr> in
      if next_user_method sm \<noteq> None then (DECISION_CONTINUE, sm)
      else if eap_id sm = None \<or> currentId sm = -1 then (DECISION_CONTINUE, sm)
      else (DECISION_FAILURE, sm))"

definition method_isSuccess :: "'p eap_srv \<Rightarrow> 'p eap_sm \<Rightarrow> bool" where
  "method_isSuccess S sm =
     (case (m sm, eap_method_priv sm) of (Some k, Some p) \<Rightarrow> srv_isSuccess S k p sm | _ \<Rightarrow> False)"

definition method_isDone :: "'p eap_srv \<Rightarrow> 'p eap_sm \<Rightarrow> bool" where
  "method_isDone S sm =
     (case (m sm, eap_method_priv sm) of (Some k, Some p) \<Rightarrow> srv_isDone S k p sm | _ \<Rightarrow> False)"

text \<open>A selected method without private data would be called with a null pointer.\<close>

definition check_priv :: "'p eap_sm \<Rightarrow> 'p eap_sm" where
  "check_priv sm = (if m sm \<noteq> None \<and> eap_method_priv sm = None then sm\<lparr>null_deref := True\<rparr> else sm)"

definition eap_sm_Policy_getDecision :: "'p eap_srv \<Rightarrow> 'p eap_sm \<Rightarrow> eap_decision \<times> 'p eap_sm" where
  "eap_sm_Policy_getDecision S sm =
     (if \<not> eap_server sm \<and> eap_id sm \<noteq> None \<and> \<not> start_reauth sm then (DECISION_PASSTHROUGH, sm)
      else
        let sm = check_priv sm in
        if m sm \<noteq> None \<and> currentMethod sm \<noteq> EAP_TYPE_IDENTITY \<and> method_isSuccess S sm
        then (DECISION_SUCCESS, sm\<lparr>update_user := True\<rparr>)
        else if m sm \<noteq> None \<and> method_isDone S sm \<and> \<not> method_isSuccess S sm
        then (DECISION_FAILURE, sm\<lparr>update_user := True\<rparr>)
        else
          (case eap_id sm of
             Some ident \<Rightarrow>
               if (user sm = None \<or> update_user sm) \<and> \<not> start_reauth sm then
                 let id_req = currentMethod sm = EAP_TYPE_IDENTITY \<and> first_is_identity sm;
                     (found, sm) = eap_user_get S ident False sm in
                 if \<not> found then (DECISION_FAILURE, sm)
                 else if id_req \<and> first_is_identity sm then (DECISION_FAILURE, sm\<lparr>update_user := True\<rparr>)
                 else decide_rest (sm\<lparr>update_user := False\<rparr>)
               else decide_rest sm
           | None \<Rightarrow> decide_rest sm))"

section \<open>States\<close>

definition enter_eap :: "bool \<Rightarrow> eap_state \<Rightarrow> 'p eap_sm \<Rightarrow> 'p eap_sm" where
  "enter_eap global st sm =
     (let sm = (if \<not> global \<or> EAP_state sm \<noteq> st then sm\<lparr>eap_changed := True\<rparr> else sm)
      in sm\<lparr>EAP_state := st\<rparr>)"

text \<open>Releasing the private data of the selected method; \<^verbatim>\<open>reset\<close> only frees it.\<close>

definition reset_method :: "'p eap_sm \<Rightarrow> 'p eap_sm" where
  "reset_method sm = (if m sm \<noteq> None then sm\<lparr>eap_method_priv := None\<rparr> else sm)"

definition sm_EAP_DISABLED_Enter :: "bool \<Rightarrow> 'p eap_sm \<Rightarrow> 'p eap_sm" where
  "sm_EAP_DISABLED_Enter global sm = (enter_eap global EAP_DISABLED sm)\<lparr>num_rounds := 0\<rparr>"

definition sm_EAP_INITIALIZE_Enter :: "bool \<Rightarrow> 'p eap_sm \<Rightarrow> 'p eap_sm" where
  "sm_EAP_INITIALIZE_Enter global sm =
     (let sm = enter_eap global EAP_INITIALIZE sm;
          sm = sm\<lparr>currentId := -1,
                  sif := (sif sm)\<lparr>eapSuccess := False, eapFail := False, eapTimeout := False,
                    eapKeyData := None, eapKeyAvailable := False, eapRestart := False\<rparr>\<rparr>;
          sm = (reset_method sm)\<lparr>m := None, user_eap_method_index := 0\<rparr>;
          sm = (if backend_auth sm then
                  let sm = eap_sm_parseEapResp (eapRespData (sif sm)) (sm\<lparr>currentMethod := EAP_TYPE_NONE\<rparr>)
                  in if rxResp sm then sm\<lparr>currentId := respId sm\<rparr> else sm
                else sm)
      in sm\<lparr>num_rounds := 0, method_pending := METHOD_PENDING_NONE\<rparr>)"

definition eap_sm_Policy_doPickUp :: "u32 \<Rightarrow> bool" where
  "eap_sm_Policy_doPickUp method \<longleftrightarrow> method = EAP_TYPE_IDENTITY"

definition sm_EAP_PICK_UP_METHOD_Enter :: "'p eap_srv \<Rightarrow> bool \<Rightarrow> 'p eap_sm \<Rightarrow> 'p eap_sm" where
  "sm_EAP_PICK_UP_METHOD_Enter S global sm =
     (let sm = enter_eap global EAP_PICK_UP_METHOD sm in
      if eap_sm_Policy_doPickUp (respMethod sm) then
        let sm = reset_method (sm\<lparr>currentMethod := respMethod sm\<rparr>);
            meth = eap_server_get_eap_method S EAP_VENDOR_IETF (currentMethod sm) in
        (case Option.bind meth (srv_initPickUp S) of
           Some init \<Rightarrow>
             let (priv, sm) = init (sm\<lparr>m := meth\<rparr>); sm = sm\<lparr>eap_method_priv := priv\<rparr> in
             if priv = None then sm\<lparr>m := None, currentMethod := EAP_TYPE_NONE\<rparr> else sm
         | None \<Rightarrow> sm\<lparr>m := None, currentMethod := EAP_TYPE_NONE\<rparr>)
      else sm)"

definition sm_EAP_IDLE_Enter :: "bool \<Rightarrow> 'p eap_sm \<Rightarrow> 'p eap_sm" where
  "sm_EAP_IDLE_Enter global sm =
     (let sm = enter_eap global EAP_IDLE sm
      in set_if (\<lambda>i. i\<lparr>retransWhile := eap_sm_calculateTimeout (retransCount sm) (methodTimeout sm)\<rparr>) sm)"

text \<open>The bodies that the states of the pass-through part share with the others.\<close>

definition retransmit :: "'p eap_srv \<Rightarrow> 'p eap_sm \<Rightarrow> 'p eap_sm" where
  "retransmit S sm =
     (let sm = sm\<lparr>retransCount := retransCount sm + 1\<rparr> in
      if retransCount sm \<le> MaxRetrans sm \<and> lastReqData sm \<noteq> None then
        let (req, ok) = eap_copy_buf (srv_alloc S sm) (eapReqData (sif sm)) (lastReqData sm);
            sm = set_if (\<lambda>i. i\<lparr>eapReqData := req\<rparr>) sm
        in if ok then set_if (\<lambda>i. i\<lparr>eapReq := True\<rparr>) sm else sm
      else sm)"

definition send_request :: "'p eap_srv \<Rightarrow> 'p eap_sm \<Rightarrow> 'p eap_sm" where
  "send_request S sm =
     (let sm = sm\<lparr>retransCount := 0\<rparr> in
      case eapReqData (sif sm) of
        Some _ \<Rightarrow>
          let (last_req, ok) = eap_copy_buf (srv_alloc S sm) (lastReqData sm) (eapReqData (sif sm))
          in set_if (\<lambda>i. i\<lparr>eapResp := False, eapReq := ok\<rparr>) (sm\<lparr>lastReqData := last_req\<rparr>)
      | None \<Rightarrow> set_if (\<lambda>i. i\<lparr>eapResp := False, eapReq := False, eapNoReq := True\<rparr>) sm)"

definition sm_EAP_RETRANSMIT_Enter :: "'p eap_srv \<Rightarrow> bool \<Rightarrow> 'p eap_sm \<Rightarrow> 'p eap_sm" where
  "sm_EAP_RETRANSMIT_Enter S global sm = retransmit S (enter_eap global EAP_RETRANSMIT sm)"

definition sm_EAP_RECEIVED_Enter :: "bool \<Rightarrow> 'p eap_sm \<Rightarrow> 'p eap_sm" where
  "sm_EAP_RECEIVED_Enter global sm =
     (let sm = enter_eap global EAP_RECEIVED sm;
          sm = eap_sm_parseEapResp (eapRespData (sif sm)) sm
      in sm\<lparr>num_rounds := num_rounds sm + 1\<rparr>)"

definition sm_EAP_DISCARD_Enter :: "bool \<Rightarrow> 'p eap_sm \<Rightarrow> 'p eap_sm" where
  "sm_EAP_DISCARD_Enter global sm =
     set_if (\<lambda>i. i\<lparr>eapResp := False, eapNoReq := True\<rparr>) (enter_eap global EAP_DISCARD sm)"

definition sm_EAP_SEND_REQUEST_Enter :: "'p eap_srv \<Rightarrow> bool \<Rightarrow> 'p eap_sm \<Rightarrow> 'p eap_sm" where
  "sm_EAP_SEND_REQUEST_Enter S global sm = send_request S (enter_eap global EAP_SEND_REQUEST sm)"

definition sm_EAP_INTEGRITY_CHECK_Enter :: "'p eap_srv \<Rightarrow> bool \<Rightarrow> 'p eap_sm \<Rightarrow> 'p eap_sm" where
  "sm_EAP_INTEGRITY_CHECK_Enter S global sm =
     (let sm = enter_eap global EAP_INTEGRITY_CHECK sm in
      case m sm of
        None \<Rightarrow> sm\<lparr>null_deref := True\<rparr>
      | Some k \<Rightarrow>
          (case (srv_check S k, eap_method_priv sm) of
             (None, _) \<Rightarrow> sm
           | (Some chk, Some p) \<Rightarrow> sm\<lparr>eap_ignore := chk p (eapRespData (sif sm)) sm\<rparr>
           | (Some chk, None) \<Rightarrow> sm\<lparr>null_deref := True\<rparr>))"

definition sm_EAP_METHOD_REQUEST_Enter :: "'p eap_srv \<Rightarrow> bool \<Rightarrow> 'p eap_sm \<Rightarrow> 'p eap_sm" where
  "sm_EAP_METHOD_REQUEST_Enter S global sm =
     (let sm = enter_eap global EAP_METHOD_REQUEST sm in
      case m sm of
        None \<Rightarrow> sm
      | Some k \<Rightarrow>
          let sm = sm\<lparr>currentId := eap_sm_nextId S sm (currentId sm)\<rparr>;
              sm = sm\<lparr>lastId := currentId sm\<rparr> in
          (case eap_method_priv sm of
             None \<Rightarrow> sm\<lparr>null_deref := True\<rparr>
           | Some p \<Rightarrow>
               let (req, sm) = srv_buildReq S k p (word_of_int (currentId sm)) sm;
                   sm = set_if (\<lambda>i. i\<lparr>eapReqData := req\<rparr>) sm
               in sm\<lparr>methodTimeout :=
                      (case (srv_getTimeout S k, eap_method_priv sm) of (Some f, Some p) \<Rightarrow> f p sm | _ \<Rightarrow> 0)\<rparr>))"

definition sm_EAP_METHOD_RESPONSE_Enter :: "'p eap_srv \<Rightarrow> bool \<Rightarrow> 'p eap_sm \<Rightarrow> 'p eap_sm" where
  "sm_EAP_METHOD_RESPONSE_Enter S global sm =
     (let sm = enter_eap global EAP_METHOD_RESPONSE sm in
      case (m sm, eap_method_priv sm) of
        (Some k, Some p) \<Rightarrow>
          let sm = srv_process S k p (eapRespData (sif sm)) sm in
          if method_isDone S sm then
            let sm = eap_sm_Policy_update None sm;
                sm = set_if (\<lambda>i. i\<lparr>eapKeyData :=
                       (case (srv_getKey S k, eap_method_priv sm) of (Some f, Some p) \<Rightarrow> f p sm | _ \<Rightarrow> None)\<rparr>) sm
            in sm\<lparr>methodState := METHOD_END\<rparr>
          else sm\<lparr>methodState := METHOD_CONTINUE\<rparr>
      | _ \<Rightarrow> sm\<lparr>null_deref := True\<rparr>)"

definition sm_EAP_PROPOSE_METHOD_Enter :: "'p eap_srv \<Rightarrow> bool \<Rightarrow> 'p eap_sm \<Rightarrow> 'p eap_sm" where
  "sm_EAP_PROPOSE_METHOD_Enter S global sm =
     (let sm = enter_eap global EAP_PROPOSE_METHOD sm;
          ((vendor, ty), sm) = eap_sm_Policy_getNextMethod sm;
          sm = sm\<lparr>currentMethod := (if vendor = EAP_VENDOR_IETF then ty else EAP_TYPE_EXPANDED)\<rparr>;
          sm = reset_method sm;
          sm = sm\<lparr>m := eap_server_get_eap_method S vendor ty\<rparr>;
          sm = (case m sm of
                  None \<Rightarrow> sm
                | Some k \<Rightarrow>
                    let (priv, sm) = srv_init S k sm; sm = sm\<lparr>eap_method_priv := priv\<rparr> in
                    if priv = None then sm\<lparr>m := None, currentMethod := EAP_TYPE_NONE\<rparr> else sm)
      in sm\<lparr>methodState :=
            (if currentMethod sm = EAP_TYPE_IDENTITY \<or> currentMethod sm = EAP_TYPE_NOTIFICATION
             then METHOD_CONTINUE else METHOD_PROPOSED)\<rparr>)"

text \<open>The list of methods in a Nak and its length, computed at the width of \<^verbatim>\<open>size_t\<close>.\<close>

definition nak_list :: "bytes option \<Rightarrow> (bytes \<times> u32) option" where
  "nak_list resp =
     (case resp of
        None \<Rightarrow> None
      | Some r \<Rightarrow>
          if length r > 4 then
            let len = min (unat (eap_hdr_length r)) (length r);
                len = (word_of_nat len - 4 :: u32) in
            if ucast (r ! 4) = EAP_TYPE_NAK then Some (drop 5 r, len - 1) else None
          else None)"

definition sm_EAP_NAK_Enter :: "bool \<Rightarrow> 'p eap_sm \<Rightarrow> 'p eap_sm" where
  "sm_EAP_NAK_Enter global sm =
     (let sm = enter_eap global EAP_NAK sm;
          sm = sm\<lparr>eap_method_priv := None, m := None\<rparr>
      in eap_sm_Policy_update
           (map_option (\<lambda>(l, len). take (unat len) l) (nak_list (eapRespData (sif sm)))) sm)"

definition sm_EAP_SELECT_ACTION_Enter :: "'p eap_srv \<Rightarrow> bool \<Rightarrow> 'p eap_sm \<Rightarrow> 'p eap_sm" where
  "sm_EAP_SELECT_ACTION_Enter S global sm =
     (let (d, sm) = eap_sm_Policy_getDecision S (enter_eap global EAP_SELECT_ACTION sm)
      in sm\<lparr>decision := d\<rparr>)"

definition sm_EAP_TIMEOUT_FAILURE_Enter :: "bool \<Rightarrow> 'p eap_sm \<Rightarrow> 'p eap_sm" where
  "sm_EAP_TIMEOUT_FAILURE_Enter global sm =
     set_if (\<lambda>i. i\<lparr>eapTimeout := True\<rparr>) (enter_eap global EAP_TIMEOUT_FAILURE sm)"

definition sm_EAP_FAILURE_Enter :: "'p eap_srv \<Rightarrow> bool \<Rightarrow> 'p eap_sm \<Rightarrow> 'p eap_sm" where
  "sm_EAP_FAILURE_Enter S global sm =
     (let sm = enter_eap global EAP_FAILURE sm;
          sm = set_if (\<lambda>i. i\<lparr>eapReqData := eap_sm_buildFailure (srv_alloc S sm) (currentId sm)\<rparr>) sm;
          sm = sm\<lparr>lastReqData := None\<rparr>
      in set_if (\<lambda>i. i\<lparr>eapFail := True\<rparr>) sm)"

definition sm_EAP_SUCCESS_Enter :: "'p eap_srv \<Rightarrow> bool \<Rightarrow> 'p eap_sm \<Rightarrow> 'p eap_sm" where
  "sm_EAP_SUCCESS_Enter S global sm =
     (let sm = enter_eap global EAP_SUCCESS sm;
          sm = set_if (\<lambda>i. i\<lparr>eapReqData := eap_sm_buildSuccess (srv_alloc S sm) (currentId sm)\<rparr>) sm;
          sm = sm\<lparr>lastReqData := None\<rparr>;
          sm = (if eapKeyData (sif sm) \<noteq> None then set_if (\<lambda>i. i\<lparr>eapKeyAvailable := True\<rparr>) sm else sm)
      in set_if (\<lambda>i. i\<lparr>eapSuccess := True\<rparr>) sm)"

definition sm_EAP_INITIALIZE_PASSTHROUGH_Enter :: "bool \<Rightarrow> 'p eap_sm \<Rightarrow> 'p eap_sm" where
  "sm_EAP_INITIALIZE_PASSTHROUGH_Enter global sm =
     set_if (\<lambda>i. i\<lparr>aaaEapRespData := None\<rparr>) (enter_eap global EAP_INITIALIZE_PASSTHROUGH sm)"

definition sm_EAP_IDLE2_Enter :: "bool \<Rightarrow> 'p eap_sm \<Rightarrow> 'p eap_sm" where
  "sm_EAP_IDLE2_Enter global sm =
     (let sm = enter_eap global EAP_IDLE2 sm
      in set_if (\<lambda>i. i\<lparr>retransWhile := eap_sm_calculateTimeout (retransCount sm) (methodTimeout sm)\<rparr>) sm)"

definition sm_EAP_RETRANSMIT2_Enter :: "'p eap_srv \<Rightarrow> bool \<Rightarrow> 'p eap_sm \<Rightarrow> 'p eap_sm" where
  "sm_EAP_RETRANSMIT2_Enter S global sm = retransmit S (enter_eap global EAP_RETRANSMIT2 sm)"

definition sm_EAP_RECEIVED2_Enter :: "bool \<Rightarrow> 'p eap_sm \<Rightarrow> 'p eap_sm" where
  "sm_EAP_RECEIVED2_Enter global sm =
     (let sm = enter_eap global EAP_RECEIVED2 sm in eap_sm_parseEapResp (eapRespData (sif sm)) sm)"

definition sm_EAP_DISCARD2_Enter :: "bool \<Rightarrow> 'p eap_sm \<Rightarrow> 'p eap_sm" where
  "sm_EAP_DISCARD2_Enter global sm =
     set_if (\<lambda>i. i\<lparr>eapResp := False, eapNoReq := True\<rparr>) (enter_eap global EAP_DISCARD2 sm)"

definition sm_EAP_SEND_REQUEST2_Enter :: "'p eap_srv \<Rightarrow> bool \<Rightarrow> 'p eap_sm \<Rightarrow> 'p eap_sm" where
  "sm_EAP_SEND_REQUEST2_Enter S global sm = send_request S (enter_eap global EAP_SEND_REQUEST2 sm)"

definition sm_EAP_AAA_REQUEST_Enter :: "'p eap_srv \<Rightarrow> bool \<Rightarrow> 'p eap_sm \<Rightarrow> 'p eap_sm" where
  "sm_EAP_AAA_REQUEST_Enter S global sm =
     (let sm = enter_eap global EAP_AAA_REQUEST sm
      in set_if (\<lambda>i. i\<lparr>aaaEapRespData := fst (eap_copy_buf (srv_alloc S sm) (aaaEapRespData i) (eapRespData i))\<rparr>) sm)"

definition sm_EAP_AAA_RESPONSE_Enter :: "'p eap_srv \<Rightarrow> bool \<Rightarrow> 'p eap_sm \<Rightarrow> 'p eap_sm" where
  "sm_EAP_AAA_RESPONSE_Enter S global sm =
     (let sm = enter_eap global EAP_AAA_RESPONSE sm;
          sm = set_if (\<lambda>i. i\<lparr>eapReqData := fst (eap_copy_buf (srv_alloc S sm) (eapReqData i) (aaaEapReqData i))\<rparr>) sm
      in sm\<lparr>currentId := eap_sm_getId (eapReqData (sif sm)), methodTimeout := aaaMethodTimeout (sif sm)\<rparr>)"

definition sm_EAP_AAA_IDLE_Enter :: "bool \<Rightarrow> 'p eap_sm \<Rightarrow> 'p eap_sm" where
  "sm_EAP_AAA_IDLE_Enter global sm =
     set_if (\<lambda>i. i\<lparr>aaaFail := False, aaaSuccess := False, aaaEapReq := False, aaaEapNoReq := False,
                  aaaEapResp := True\<rparr>) (enter_eap global EAP_AAA_IDLE sm)"

definition sm_EAP_TIMEOUT_FAILURE2_Enter :: "bool \<Rightarrow> 'p eap_sm \<Rightarrow> 'p eap_sm" where
  "sm_EAP_TIMEOUT_FAILURE2_Enter global sm =
     set_if (\<lambda>i. i\<lparr>eapTimeout := True\<rparr>) (enter_eap global EAP_TIMEOUT_FAILURE2 sm)"

definition sm_EAP_FAILURE2_Enter :: "'p eap_srv \<Rightarrow> bool \<Rightarrow> 'p eap_sm \<Rightarrow> 'p eap_sm" where
  "sm_EAP_FAILURE2_Enter S global sm =
     (let sm = enter_eap global EAP_FAILURE2 sm
      in set_if (\<lambda>i. i\<lparr>eapReqData := fst (eap_copy_buf (srv_alloc S sm) (eapReqData i) (aaaEapReqData i)),
                      eapFail := True\<rparr>) sm)"

definition sm_EAP_SUCCESS2_Enter :: "'p eap_srv \<Rightarrow> bool \<Rightarrow> 'p eap_sm \<Rightarrow> 'p eap_sm" where
  "sm_EAP_SUCCESS2_Enter S global sm =
     (let sm = enter_eap global EAP_SUCCESS2 sm;
          sm = set_if (\<lambda>i. i\<lparr>eapReqData := fst (eap_copy_buf (srv_alloc S sm) (eapReqData i) (aaaEapReqData i)),
                           eapKeyAvailable := aaaEapKeyAvailable i,
                           eapKeyData := (if aaaEapKeyAvailable i
                             then fst (eap_copy_buf (srv_alloc S sm) (eapKeyData i) (aaaEapKeyData i)) else None),
                           eapSuccess := True\<rparr>) sm
      in sm\<lparr>start_reauth := True\<rparr>)"

section \<open>Steps\<close>

definition resp_is_nak :: "'p eap_sm \<Rightarrow> bool" where
  "resp_is_nak sm \<longleftrightarrow> respMethod sm = EAP_TYPE_NAK \<or>
     respMethod sm = EAP_TYPE_EXPANDED \<and> respVendor sm = EAP_VENDOR_IETF \<and> respVendorMethod sm = EAP_TYPE_NAK"

definition sm_EAP_Step :: "'p eap_srv \<Rightarrow> 'p eap_sm \<Rightarrow> 'p eap_sm" where
  "sm_EAP_Step S sm =
     (if eapRestart (sif sm) \<and> portEnabled (sif sm) then sm_EAP_INITIALIZE_Enter True sm
      else if \<not> portEnabled (sif sm) then sm_EAP_DISABLED_Enter True sm
      else if num_rounds sm > EAP_MAX_AUTH_ROUNDS then
        (if num_rounds sm = EAP_MAX_AUTH_ROUNDS + 1
         then sm_EAP_FAILURE_Enter S True (sm\<lparr>num_rounds := num_rounds sm + 1\<rparr>) else sm)
      else case EAP_state sm of
        EAP_INITIALIZE \<Rightarrow>
          if backend_auth sm then
            (if \<not> rxResp sm then sm_EAP_SELECT_ACTION_Enter S False sm
             else if resp_is_nak sm then sm_EAP_NAK_Enter False sm
             else sm_EAP_PICK_UP_METHOD_Enter S False sm)
          else sm_EAP_SELECT_ACTION_Enter S False sm
      | EAP_PICK_UP_METHOD \<Rightarrow>
          if currentMethod sm = EAP_TYPE_NONE then sm_EAP_SELECT_ACTION_Enter S False sm
          else sm_EAP_METHOD_RESPONSE_Enter S False sm
      | EAP_DISABLED \<Rightarrow> if portEnabled (sif sm) then sm_EAP_INITIALIZE_Enter False sm else sm
      | EAP_IDLE \<Rightarrow>
          if retransWhile (sif sm) = 0 then sm_EAP_RETRANSMIT_Enter S False sm
          else if eapResp (sif sm) then sm_EAP_RECEIVED_Enter False sm
          else sm
      | EAP_RETRANSMIT \<Rightarrow>
          if retransCount sm > MaxRetrans sm then sm_EAP_TIMEOUT_FAILURE_Enter False sm
          else sm_EAP_IDLE_Enter False sm
      | EAP_RECEIVED \<Rightarrow>
          if rxResp sm \<and> respId sm = currentId sm \<and> resp_is_nak sm \<and> methodState sm = METHOD_PROPOSED
          then sm_EAP_NAK_Enter False sm
          else if rxResp sm \<and> respId sm = currentId sm \<and>
            (respMethod sm = currentMethod sm \<or>
             respMethod sm = EAP_TYPE_EXPANDED \<and> respVendor sm = EAP_VENDOR_IETF \<and>
             respVendorMethod sm = currentMethod sm)
          then sm_EAP_INTEGRITY_CHECK_Enter S False sm
          else sm_EAP_DISCARD_Enter False sm
      | EAP_DISCARD \<Rightarrow> sm_EAP_IDLE_Enter False sm
      | EAP_SEND_REQUEST \<Rightarrow> sm_EAP_IDLE_Enter False sm
      | EAP_INTEGRITY_CHECK \<Rightarrow>
          if eap_ignore sm then sm_EAP_DISCARD_Enter False sm else sm_EAP_METHOD_RESPONSE_Enter S False sm
      | EAP_METHOD_REQUEST \<Rightarrow> sm_EAP_SEND_REQUEST_Enter S False sm
      | EAP_METHOD_RESPONSE \<Rightarrow>
          if methodState sm = METHOD_END then sm_EAP_SELECT_ACTION_Enter S False sm
          else if method_pending sm = METHOD_PENDING_WAIT then sm
          else if method_pending sm = METHOD_PENDING_CONT
          then sm_EAP_METHOD_RESPONSE_Enter S False (sm\<lparr>method_pending := METHOD_PENDING_NONE\<rparr>)
          else sm_EAP_METHOD_REQUEST_Enter S False sm
      | EAP_PROPOSE_METHOD \<Rightarrow>
          if method_pending sm = METHOD_PENDING_WAIT
          then sm\<lparr>user_eap_method_index := user_eap_method_index sm - 1\<rparr>
          else if method_pending sm = METHOD_PENDING_CONT
          then sm_EAP_PROPOSE_METHOD_Enter S False (sm\<lparr>method_pending := METHOD_PENDING_NONE\<rparr>)
          else sm_EAP_METHOD_REQUEST_Enter S False sm
      | EAP_NAK \<Rightarrow> sm_EAP_SELECT_ACTION_Enter S False sm
      | EAP_SELECT_ACTION \<Rightarrow>
          (case decision sm of
             DECISION_FAILURE \<Rightarrow> sm_EAP_FAILURE_Enter S False sm
           | DECISION_SUCCESS \<Rightarrow> sm_EAP_SUCCESS_Enter S False sm
           | DECISION_PASSTHROUGH \<Rightarrow> sm_EAP_INITIALIZE_PASSTHROUGH_Enter False sm
           | DECISION_CONTINUE \<Rightarrow> sm_EAP_PROPOSE_METHOD_Enter S False sm)
      | EAP_TIMEOUT_FAILURE \<Rightarrow> sm
      | EAP_FAILURE \<Rightarrow> sm
      | EAP_SUCCESS \<Rightarrow> sm
      | EAP_INITIALIZE_PASSTHROUGH \<Rightarrow>
          if currentId sm = -1 then sm_EAP_AAA_IDLE_Enter False sm else sm_EAP_AAA_REQUEST_Enter S False sm
      | EAP_IDLE2 \<Rightarrow>
          if eapResp (sif sm) then sm_EAP_RECEIVED2_Enter False sm
          else if retransWhile (sif sm) = 0 then sm_EAP_RETRANSMIT2_Enter S False sm
          else sm
      | EAP_RETRANSMIT2 \<Rightarrow>
          if retransCount sm > MaxRetrans sm then sm_EAP_TIMEOUT_FAILURE2_Enter False sm
          else sm_EAP_IDLE2_Enter False sm
      | EAP_RECEIVED2 \<Rightarrow>
          if rxResp sm \<and> respId sm = currentId sm then sm_EAP_AAA_REQUEST_Enter S False sm
          else sm_EAP_DISCARD2_Enter False sm
      | EAP_DISCARD2 \<Rightarrow> sm_EAP_IDLE2_Enter False sm
      | EAP_SEND_REQUEST2 \<Rightarrow> sm_EAP_IDLE2_Enter False sm
      | EAP_AAA_REQUEST \<Rightarrow> sm_EAP_AAA_IDLE_Enter False sm
      | EAP_AAA_RESPONSE \<Rightarrow> sm_EAP_SEND_REQUEST2_Enter S False sm
      | EAP_AAA_IDLE \<Rightarrow>
          if aaaFail (sif sm) then sm_EAP_FAILURE2_Enter S False sm
          else if aaaSuccess (sif sm) then sm_EAP_SUCCESS2_Enter S False sm
          else if aaaEapReq (sif sm) then sm_EAP_AAA_RESPONSE_Enter S False sm
          else if aaaTimeout (sif sm) then sm_EAP_TIMEOUT_FAILURE2_Enter False sm
          else sm
      | EAP_TIMEOUT_FAILURE2 \<Rightarrow> sm
      | EAP_FAILURE2 \<Rightarrow> sm
      | EAP_SUCCESS2 \<Rightarrow> sm)"

text \<open>The loop of \<^verbatim>\<open>eap_server_sm_step\<close>; the result also says whether anything changed.  A loop that does not
  end has the value \<open>None\<close>.\<close>

partial_function (option) eap_step_loop :: "'p eap_srv \<Rightarrow> bool \<Rightarrow> 'p eap_sm \<Rightarrow> ('p eap_sm \<times> bool) option" where
  "eap_step_loop S res sm =
     (let sm = sm_EAP_Step S (sm\<lparr>eap_changed := False\<rparr>) in
      if eap_changed sm then eap_step_loop S True sm else Some (sm, res))"

definition eap_server_sm_step :: "'p eap_srv \<Rightarrow> 'p eap_sm \<Rightarrow> ('p eap_sm \<times> bool) option" where
  "eap_server_sm_step S sm = eap_step_loop S False sm"

section \<open>Creation and notifications\<close>

definition eap_server_sm_init :: "bool \<Rightarrow> bool \<Rightarrow> 'p eap_sm" where
  "eap_server_sm_init backend server =
     \<lparr>EAP_state = EAP_DISABLED, MaxRetrans = 5, sif = eap_if_zero, currentMethod = 0, currentId = 0,
      methodState = METHOD_PROPOSED, retransCount = 0, lastReqData = None, methodTimeout = 0,
      rxResp = False, respId = 0, respMethod = 0, respVendor = 0, respVendorMethod = 0,
      eap_ignore = False, decision = DECISION_SUCCESS, m = None, eap_changed = False,
      eap_method_priv = None, eap_id = None, lastId = 0, user = None, user_eap_method_index = 0,
      backend_auth = backend, update_user = False, eap_server = server, num_rounds = 0,
      method_pending = METHOD_PENDING_NONE, start_reauth = False, null_deref = False\<rparr>"

definition eap_sm_notify_cached :: "'p eap_sm \<Rightarrow> 'p eap_sm" where
  "eap_sm_notify_cached sm = sm\<lparr>EAP_state := EAP_SUCCESS\<rparr>"

definition eap_sm_pending_cb :: "'p eap_sm \<Rightarrow> 'p eap_sm" where
  "eap_sm_pending_cb sm =
     (if method_pending sm = METHOD_PENDING_WAIT then sm\<lparr>method_pending := METHOD_PENDING_CONT\<rparr> else sm)"

definition eap_sm_method_pending :: "'p eap_sm \<Rightarrow> bool" where
  "eap_sm_method_pending sm \<longleftrightarrow> method_pending sm = METHOD_PENDING_WAIT"

end
