(* ===== verification/Eap_Server_Inv.thy ===== *)
theory Eap_Server_Inv
  imports Eap_Server
begin

text \<open>
  Properties of the EAP server state machine.  The locale \<open>eap_methods\<close> states the contract of
  \<^verbatim>\<open>struct eap_method\<close>: the functions of a method work on their own data, on the identity and the user, and
  may ask to wait, but leave the state machine's variables and the interface to the lower layer alone.
\<close>

section \<open>Helper functions\<close>

lemma rto_loop_bounds: "3 \<le> r \<Longrightarrow> r \<le> 20 \<Longrightarrow> 3 \<le> rto_loop n r \<and> rto_loop n r \<le> 20"
  by (induction n arbitrary: r) (simp_all add: Let_def)

lemma timeout_nonzero [simp]: "eap_sm_calculateTimeout c t \<noteq> 0"
  using rto_loop_bounds [of 3 "nat c"] by (simp add: eap_sm_calculateTimeout_def)

section \<open>The contract of the methods\<close>

definition eap_frame where
  "eap_frame sm = (EAP_state sm, sif sm, num_rounds sm, eap_changed sm, m sm, null_deref sm, decision sm,
     (retransCount sm, MaxRetrans sm, lastReqData sm, eap_server sm, backend_auth sm, currentMethod sm))"

lemma eap_frame_eq:
  "eap_frame a = eap_frame b \<longleftrightarrow>
     EAP_state a = EAP_state b \<and> sif a = sif b \<and> num_rounds a = num_rounds b \<and>
     eap_changed a = eap_changed b \<and> m a = m b \<and> null_deref a = null_deref b \<and> decision a = decision b \<and>
     retransCount a = retransCount b \<and> MaxRetrans a = MaxRetrans b \<and> lastReqData a = lastReqData b \<and>
     eap_server a = eap_server b \<and> backend_auth a = backend_auth b \<and> currentMethod a = currentMethod b"
  by (simp add: eap_frame_def)

locale eap_methods =
  fixes S :: "'p eap_srv"
  assumes init_frame: "eap_frame (snd (srv_init S k sm)) = eap_frame sm"
    and initPickUp_frame: "srv_initPickUp S k = Some f \<Longrightarrow> eap_frame (snd (f sm)) = eap_frame sm"
    and buildReq_frame: "eap_frame (snd (srv_buildReq S k p i sm)) = eap_frame sm"
    and process_frame: "eap_frame (srv_process S k p r sm) = eap_frame sm"
    and init_pending: "method_pending (snd (srv_init S k sm)) = METHOD_PENDING_CONT \<Longrightarrow>
      method_pending sm = METHOD_PENDING_CONT"
    and process_pending: "method_pending (srv_process S k p r sm) = METHOD_PENDING_CONT \<Longrightarrow>
      method_pending sm = METHOD_PENDING_CONT"
    and buildReq_priv: "eap_method_priv sm \<noteq> None \<Longrightarrow> eap_method_priv (snd (srv_buildReq S k p i sm)) \<noteq> None"
    and isSuccess_priv: "srv_isSuccess S k p a = srv_isSuccess S k p b"
    and process_priv: "eap_method_priv sm \<noteq> None \<Longrightarrow> eap_method_priv (srv_process S k p r sm) \<noteq> None"
begin

lemmas method_frames =
  init_frame [unfolded eap_frame_eq] initPickUp_frame [unfolded eap_frame_eq]
  buildReq_frame [unfolded eap_frame_eq] process_frame [unfolded eap_frame_eq]

end

section \<open>Termination of the step loop\<close>

definition state_rank :: "'p eap_sm \<Rightarrow> nat" where
  "state_rank sm =
     (case EAP_state sm of
        EAP_DISABLED \<Rightarrow> 55
      | EAP_INITIALIZE \<Rightarrow> 50
      | EAP_PICK_UP_METHOD \<Rightarrow> 48
      | EAP_IDLE \<Rightarrow> if retransWhile (sif sm) = 0 then 46 else if eapResp (sif sm) then 42 else 0
      | EAP_RETRANSMIT \<Rightarrow> 44
      | EAP_SEND_REQUEST \<Rightarrow> if eapResp (sif sm) then 43 else 12
      | EAP_DISCARD \<Rightarrow> if eapResp (sif sm) then 43 else 12
      | EAP_RECEIVED \<Rightarrow> 40
      | EAP_INTEGRITY_CHECK \<Rightarrow> 38
      | EAP_METHOD_RESPONSE \<Rightarrow>
          if methodState sm = METHOD_END then 36
          else (case method_pending sm of METHOD_PENDING_CONT \<Rightarrow> 37 | METHOD_PENDING_WAIT \<Rightarrow> 0 | _ \<Rightarrow> 36)
      | EAP_NAK \<Rightarrow> 36
      | EAP_SELECT_ACTION \<Rightarrow> 34
      | EAP_INITIALIZE_PASSTHROUGH \<Rightarrow> 32
      | EAP_IDLE2 \<Rightarrow> if eapResp (sif sm) then 28 else if retransWhile (sif sm) = 0 then 31 else 0
      | EAP_RETRANSMIT2 \<Rightarrow> 30
      | EAP_SEND_REQUEST2 \<Rightarrow> if eapResp (sif sm) then 29 else 18
      | EAP_DISCARD2 \<Rightarrow> if eapResp (sif sm) then 29 else 18
      | EAP_RECEIVED2 \<Rightarrow> 26
      | EAP_AAA_REQUEST \<Rightarrow> 24
      | EAP_AAA_IDLE \<Rightarrow> 22
      | EAP_AAA_RESPONSE \<Rightarrow> 20
      | EAP_PROPOSE_METHOD \<Rightarrow>
          (case method_pending sm of METHOD_PENDING_CONT \<Rightarrow> 17 | METHOD_PENDING_WAIT \<Rightarrow> 0 | _ \<Rightarrow> 16)
      | EAP_METHOD_REQUEST \<Rightarrow> 14
      | _ \<Rightarrow> 0)"

definition eap_rank :: "'p eap_sm \<Rightarrow> nat" where
  "eap_rank sm =
     (if eapRestart (sif sm) \<and> portEnabled (sif sm) then 60
      else if \<not> portEnabled (sif sm) then (if EAP_state sm = EAP_DISABLED then 0 else 1)
      else if num_rounds sm > EAP_MAX_AUTH_ROUNDS then (if num_rounds sm = EAP_MAX_AUTH_ROUNDS + 1 then 2 else 0)
      else state_rank sm)"

lemma parse_frame [simp]:
  "EAP_state (eap_sm_parseEapResp r sm) = EAP_state sm"
  "sif (eap_sm_parseEapResp r sm) = sif sm"
  "num_rounds (eap_sm_parseEapResp r sm) = num_rounds sm"
  "m (eap_sm_parseEapResp r sm) = m sm"
  "eap_method_priv (eap_sm_parseEapResp r sm) = eap_method_priv sm"
  "null_deref (eap_sm_parseEapResp r sm) = null_deref sm"
  "decision (eap_sm_parseEapResp r sm) = decision sm"
  "retransCount (eap_sm_parseEapResp r sm) = retransCount sm"
  "MaxRetrans (eap_sm_parseEapResp r sm) = MaxRetrans sm"
  by (simp_all add: eap_sm_parseEapResp_def Let_def split: option.split)

lemma set_if_simps [simp]:
  "EAP_state (set_if f sm) = EAP_state sm" "sif (set_if f sm) = f (sif sm)"
  "num_rounds (set_if f sm) = num_rounds sm" "eap_changed (set_if f sm) = eap_changed sm"
  "method_pending (set_if f sm) = method_pending sm" "methodState (set_if f sm) = methodState sm"
  "m (set_if f sm) = m sm" "eap_method_priv (set_if f sm) = eap_method_priv sm"
  "null_deref (set_if f sm) = null_deref sm" "decision (set_if f sm) = decision sm"
  "retransCount (set_if f sm) = retransCount sm" "MaxRetrans (set_if f sm) = MaxRetrans sm"
  "currentId (set_if f sm) = currentId sm" "methodTimeout (set_if f sm) = methodTimeout sm"
  by (simp_all add: set_if_def)

lemma enter_eap_simps [simp]:
  "EAP_state (enter_eap g st sm) = st" "sif (enter_eap g st sm) = sif sm"
  "num_rounds (enter_eap g st sm) = num_rounds sm"
  "method_pending (enter_eap g st sm) = method_pending sm" "methodState (enter_eap g st sm) = methodState sm"
  "m (enter_eap g st sm) = m sm" "eap_method_priv (enter_eap g st sm) = eap_method_priv sm"
  "null_deref (enter_eap g st sm) = null_deref sm" "decision (enter_eap g st sm) = decision sm"
  "retransCount (enter_eap g st sm) = retransCount sm" "MaxRetrans (enter_eap g st sm) = MaxRetrans sm"
  "methodTimeout (enter_eap g st sm) = methodTimeout sm"
  "eap_changed (enter_eap g st sm) \<longleftrightarrow> \<not> g \<or> EAP_state sm \<noteq> st \<or> eap_changed sm"
  by (auto simp: enter_eap_def Let_def)

definition policy_frame where
  "policy_frame sm = (EAP_state sm, sif sm, num_rounds sm, method_pending sm, methodState sm, m sm,
     eap_method_priv sm, (retransCount sm, MaxRetrans sm, eap_changed sm))"

lemma decide_rest_frame: "policy_frame (snd (decide_rest sm)) = policy_frame sm"
  by (simp add: decide_rest_def policy_frame_def Let_def)

lemma user_get_frame: "policy_frame (snd (eap_user_get S i b sm)) = policy_frame sm"
  by (simp add: eap_user_get_def policy_frame_def Let_def split: option.split)

lemma flag_frame:
  "policy_frame (sm\<lparr>update_user := b\<rparr>) = policy_frame sm"
  "policy_frame (check_priv sm) = policy_frame sm"
  by (simp_all add: check_priv_def policy_frame_def)

lemma decision_frame: "policy_frame (snd (eap_sm_Policy_getDecision S sm)) = policy_frame sm"
  unfolding eap_sm_Policy_getDecision_def Let_def case_prod_beta
  by (cases "eap_id (check_priv sm)") (simp_all add: decide_rest_frame user_get_frame flag_frame)

lemma update_frame: "policy_frame (eap_sm_Policy_update n sm) = policy_frame sm"
  by (simp add: eap_sm_Policy_update_def eap_sm_process_nak_def policy_frame_def split: option.split)

lemma next_frame: "policy_frame (snd (eap_sm_Policy_getNextMethod sm)) = policy_frame sm"
  by (simp add: eap_sm_Policy_getNextMethod_def policy_frame_def split: option.split)

lemmas policy_frames [simp] = decision_frame [unfolded policy_frame_def prod.inject]
  update_frame [unfolded policy_frame_def prod.inject] next_frame [unfolded policy_frame_def prod.inject]

text \<open>The variables that decide whether the loop goes on.\<close>

definition loop_view where
  "loop_view sm = (eapRestart (sif sm), portEnabled (sif sm), eapResp (sif sm), retransWhile (sif sm), num_rounds sm)"

lemma retransmit_view [simp]:
  "loop_view (retransmit S sm) = loop_view sm" "EAP_state (retransmit S sm) = EAP_state sm"
  "eap_changed (retransmit S sm) = eap_changed sm"
  by (simp_all add: retransmit_def loop_view_def Let_def case_prod_beta)

lemma send_request_view [simp]:
  "loop_view (send_request S sm) =
     (eapRestart (sif sm), portEnabled (sif sm), False, retransWhile (sif sm), num_rounds sm)"
  "EAP_state (send_request S sm) = EAP_state sm"
  by (simp_all add: send_request_def loop_view_def Let_def case_prod_beta split: option.split)

lemma select_view [simp]:
  "loop_view (sm_EAP_SELECT_ACTION_Enter S g sm) = loop_view sm"
  "EAP_state (sm_EAP_SELECT_ACTION_Enter S g sm) = EAP_SELECT_ACTION"
  by (simp_all add: sm_EAP_SELECT_ACTION_Enter_def loop_view_def case_prod_beta)

lemma nak_view [simp]:
  "loop_view (sm_EAP_NAK_Enter g sm) = loop_view sm"
  "EAP_state (sm_EAP_NAK_Enter g sm) = EAP_NAK"
  by (simp_all add: sm_EAP_NAK_Enter_def loop_view_def Let_def)

lemma initialize_view [simp]:
  "loop_view (sm_EAP_INITIALIZE_Enter g sm) =
     (False, portEnabled (sif sm), eapResp (sif sm), retransWhile (sif sm), 0)"
  "EAP_state (sm_EAP_INITIALIZE_Enter g sm) = EAP_INITIALIZE"
  by (simp_all add: sm_EAP_INITIALIZE_Enter_def loop_view_def Let_def reset_method_def)

context eap_methods
begin

lemma pick_up_view [simp]:
  "loop_view (sm_EAP_PICK_UP_METHOD_Enter S g sm) = loop_view sm"
  "EAP_state (sm_EAP_PICK_UP_METHOD_Enter S g sm) = EAP_PICK_UP_METHOD"
  by (auto simp: sm_EAP_PICK_UP_METHOD_Enter_def loop_view_def Let_def reset_method_def case_prod_beta
      eap_server_get_eap_method_def method_frames split: option.split)

lemma request_view [simp]:
  "loop_view (sm_EAP_METHOD_REQUEST_Enter S g sm) = loop_view sm"
  "EAP_state (sm_EAP_METHOD_REQUEST_Enter S g sm) = EAP_METHOD_REQUEST"
  by (auto simp: sm_EAP_METHOD_REQUEST_Enter_def loop_view_def Let_def case_prod_beta method_frames
      split: option.split)

lemma response_view [simp]:
  "loop_view (sm_EAP_METHOD_RESPONSE_Enter S g sm) = loop_view sm"
  "EAP_state (sm_EAP_METHOD_RESPONSE_Enter S g sm) = EAP_METHOD_RESPONSE"
  "method_pending sm \<noteq> METHOD_PENDING_CONT \<Longrightarrow>
     method_pending (sm_EAP_METHOD_RESPONSE_Enter S g sm) \<noteq> METHOD_PENDING_CONT"
  by (auto simp: sm_EAP_METHOD_RESPONSE_Enter_def loop_view_def Let_def case_prod_beta method_frames
      dest!: process_pending split: option.split)

lemma propose_view [simp]:
  "loop_view (sm_EAP_PROPOSE_METHOD_Enter S g sm) = loop_view sm"
  "EAP_state (sm_EAP_PROPOSE_METHOD_Enter S g sm) = EAP_PROPOSE_METHOD"
  "method_pending sm \<noteq> METHOD_PENDING_CONT \<Longrightarrow>
     method_pending (sm_EAP_PROPOSE_METHOD_Enter S g sm) \<noteq> METHOD_PENDING_CONT"
  by (auto simp: sm_EAP_PROPOSE_METHOD_Enter_def loop_view_def Let_def case_prod_beta method_frames
      reset_method_def eap_server_get_eap_method_def dest!: init_pending split: option.split)

lemmas view_fields =
  retransmit_view(1) [unfolded loop_view_def prod.inject] send_request_view(1) [unfolded loop_view_def prod.inject]
  select_view(1) [unfolded loop_view_def prod.inject] nak_view(1) [unfolded loop_view_def prod.inject]
  initialize_view(1) [unfolded loop_view_def prod.inject] pick_up_view(1) [unfolded loop_view_def prod.inject]
  request_view(1) [unfolded loop_view_def prod.inject] response_view(1) [unfolded loop_view_def prod.inject]
  propose_view(1) [unfolded loop_view_def prod.inject]

lemmas simple_enters =
  sm_EAP_DISABLED_Enter_def sm_EAP_IDLE_Enter_def sm_EAP_RETRANSMIT_Enter_def sm_EAP_RECEIVED_Enter_def
  sm_EAP_DISCARD_Enter_def sm_EAP_SEND_REQUEST_Enter_def sm_EAP_TIMEOUT_FAILURE_Enter_def
  sm_EAP_FAILURE_Enter_def sm_EAP_SUCCESS_Enter_def sm_EAP_INITIALIZE_PASSTHROUGH_Enter_def
  sm_EAP_IDLE2_Enter_def sm_EAP_RETRANSMIT2_Enter_def sm_EAP_RECEIVED2_Enter_def sm_EAP_DISCARD2_Enter_def
  sm_EAP_SEND_REQUEST2_Enter_def sm_EAP_AAA_REQUEST_Enter_def sm_EAP_AAA_RESPONSE_Enter_def
  sm_EAP_AAA_IDLE_Enter_def sm_EAP_TIMEOUT_FAILURE2_Enter_def sm_EAP_FAILURE2_Enter_def
  sm_EAP_SUCCESS2_Enter_def sm_EAP_INTEGRITY_CHECK_Enter_def

lemma rank_max:
  "EAP_state sm = EAP_METHOD_RESPONSE \<Longrightarrow> state_rank sm \<le> 37"
  "EAP_state sm = EAP_PROPOSE_METHOD \<Longrightarrow> state_rank sm \<le> 17"
  "\<lbrakk>EAP_state sm = EAP_METHOD_RESPONSE; method_pending sm \<noteq> METHOD_PENDING_CONT\<rbrakk> \<Longrightarrow> state_rank sm \<le> 36"
  "\<lbrakk>EAP_state sm = EAP_PROPOSE_METHOD; method_pending sm \<noteq> METHOD_PENDING_CONT\<rbrakk> \<Longrightarrow> state_rank sm \<le> 16"
  by (auto simp: state_rank_def split: pending.split)

lemma step_rank_global:
  assumes ch: "eap_changed (sm_EAP_Step S (sm\<lparr>eap_changed := False\<rparr>))"
    and c: "eapRestart (sif sm) \<and> portEnabled (sif sm) \<or> \<not> portEnabled (sif sm) \<or> num_rounds sm > EAP_MAX_AUTH_ROUNDS"
  shows "eap_rank (sm_EAP_Step S (sm\<lparr>eap_changed := False\<rparr>)) < eap_rank sm"
proof -
  let ?s = "sm\<lparr>eap_changed := False\<rparr>"
  consider "eapRestart (sif sm)" "portEnabled (sif sm)" | "\<not> portEnabled (sif sm)"
    | "\<not> eapRestart (sif sm)" "portEnabled (sif sm)" "num_rounds sm > EAP_MAX_AUTH_ROUNDS" using c by blast
  then show ?thesis
  proof cases
    case 1
    then have "sm_EAP_Step S ?s = sm_EAP_INITIALIZE_Enter True ?s" by (simp add: sm_EAP_Step_def)
    then show ?thesis using 1 by (simp add: eap_rank_def view_fields state_rank_def)
  next
    case 2
    then have "sm_EAP_Step S ?s = sm_EAP_DISABLED_Enter True ?s" by (simp add: sm_EAP_Step_def)
    then show ?thesis using 2 ch by (simp add: eap_rank_def simple_enters)
  next
    case 3
    then have "sm_EAP_Step S ?s = (if num_rounds sm = EAP_MAX_AUTH_ROUNDS + 1
        then sm_EAP_FAILURE_Enter S True (?s\<lparr>num_rounds := num_rounds sm + 1\<rparr>) else ?s)"
      by (simp add: sm_EAP_Step_def)
    then show ?thesis using 3 ch by (simp add: eap_rank_def simple_enters Let_def split: if_splits)
  qed
qed

lemma target_ranks [simp]:
  "state_rank (sm_EAP_SELECT_ACTION_Enter S g s) = 34" "state_rank (sm_EAP_NAK_Enter g s) = 36"
  "state_rank (sm_EAP_PICK_UP_METHOD_Enter S g s) = 48" "state_rank (sm_EAP_METHOD_REQUEST_Enter S g s) = 14"
  "state_rank (sm_EAP_INITIALIZE_Enter g s) = 50"
  by (simp_all add: state_rank_def)

lemma response_rank [simp]:
  "method_pending s \<noteq> METHOD_PENDING_CONT \<Longrightarrow> state_rank (sm_EAP_METHOD_RESPONSE_Enter S g s) < 37"
  "state_rank (sm_EAP_METHOD_RESPONSE_Enter S g s) < 38" "state_rank (sm_EAP_METHOD_RESPONSE_Enter S g s) < 48"
  using rank_max(1) [of "sm_EAP_METHOD_RESPONSE_Enter S g s"] rank_max(3) [of "sm_EAP_METHOD_RESPONSE_Enter S g s"]
  by simp_all

lemma propose_rank [simp]:
  "method_pending s \<noteq> METHOD_PENDING_CONT \<Longrightarrow> state_rank (sm_EAP_PROPOSE_METHOD_Enter S g s) < 17"
  "state_rank (sm_EAP_PROPOSE_METHOD_Enter S g s) < 34"
  using rank_max(2) [of "sm_EAP_PROPOSE_METHOD_Enter S g s"] rank_max(4) [of "sm_EAP_PROPOSE_METHOD_Enter S g s"]
  by simp_all

lemma step_rank_method_states:
  assumes "eap_changed (sm_EAP_Step S (sm\<lparr>eap_changed := False\<rparr>))"
    and "\<not> eapRestart (sif sm)" "portEnabled (sif sm)" "\<not> num_rounds sm > EAP_MAX_AUTH_ROUNDS"
    and "EAP_state sm = EAP_METHOD_RESPONSE \<or> EAP_state sm = EAP_PROPOSE_METHOD"
  shows "eap_rank (sm_EAP_Step S (sm\<lparr>eap_changed := False\<rparr>)) < eap_rank sm"
  using assms(5)
proof
  assume "EAP_state sm = EAP_METHOD_RESPONSE"
  then show ?thesis using assms(1-4)
    by (cases "method_pending sm")
      (simp_all add: sm_EAP_Step_def eap_rank_def view_fields state_rank_def [of sm] split: if_splits)
next
  assume "EAP_state sm = EAP_PROPOSE_METHOD"
  then show ?thesis using assms(1-4)
    by (cases "method_pending sm")
      (simp_all add: sm_EAP_Step_def eap_rank_def view_fields state_rank_def [of sm] split: if_splits)
qed

lemma step_rank_switch:
  assumes ch: "eap_changed (sm_EAP_Step S (sm\<lparr>eap_changed := False\<rparr>))"
    and c: "\<not> eapRestart (sif sm)" "portEnabled (sif sm)" "\<not> num_rounds sm > EAP_MAX_AUTH_ROUNDS"
  shows "eap_rank (sm_EAP_Step S (sm\<lparr>eap_changed := False\<rparr>)) < eap_rank sm"
proof (cases "EAP_state sm")
  case EAP_SELECT_ACTION
  then show ?thesis using c
    by (cases "decision sm") (simp_all add: sm_EAP_Step_def eap_rank_def view_fields state_rank_def [of sm],
      simp_all add: simple_enters state_rank_def Let_def)
next
  case EAP_INTEGRITY_CHECK
  then show ?thesis using c
    by (cases "eap_ignore sm") (simp_all add: sm_EAP_Step_def eap_rank_def view_fields state_rank_def [of sm],
      simp_all add: simple_enters state_rank_def)
next
  case EAP_METHOD_RESPONSE
  then show ?thesis using assms by (intro step_rank_method_states) simp_all
next
  case EAP_PROPOSE_METHOD
  then show ?thesis using assms by (intro step_rank_method_states) simp_all
next
  case EAP_PICK_UP_METHOD
  then show ?thesis using c by (simp add: sm_EAP_Step_def eap_rank_def view_fields state_rank_def [of sm])
next
  case EAP_INITIALIZE
  then show ?thesis using c by (simp add: sm_EAP_Step_def eap_rank_def view_fields state_rank_def [of sm])
next
  case EAP_DISABLED
  then show ?thesis using c by (simp add: sm_EAP_Step_def eap_rank_def view_fields state_rank_def [of sm])
next
  case EAP_NAK
  then show ?thesis using c by (simp add: sm_EAP_Step_def eap_rank_def view_fields state_rank_def [of sm])
qed (use c ch in \<open>simp_all add: sm_EAP_Step_def eap_rank_def state_rank_def view_fields simple_enters Let_def
  split: if_splits option.split\<close>)

text \<open>Every pass of the loop that changes the state lowers the rank, so the loop ends.\<close>

lemma step_rank:
  assumes "eap_changed (sm_EAP_Step S (sm\<lparr>eap_changed := False\<rparr>))"
  shows "eap_rank (sm_EAP_Step S (sm\<lparr>eap_changed := False\<rparr>)) < eap_rank sm"
  using step_rank_global [OF assms] step_rank_switch [OF assms] by linarith

lemma eap_loop_terminates: "\<exists>sm' r. eap_step_loop S res sm = Some (sm', r)"
proof (induction sm arbitrary: res rule: measure_induct_rule [of eap_rank])
  case (less sm)
  show ?case
    by (subst eap_step_loop.simps) (auto simp: Let_def intro: less step_rank)
qed

text \<open>Induction over the loop.\<close>

lemma eap_loop_inv:
  assumes step: "\<And>sm. P sm \<Longrightarrow> P (sm_EAP_Step S (sm\<lparr>eap_changed := False\<rparr>))"
    and "P sm" "eap_step_loop S res sm = Some (sm', r)"
  shows "P sm'"
  using assms(2,3)
proof (induction sm arbitrary: res rule: measure_induct_rule [of eap_rank])
  case (less sm)
  show ?case
    using less.prems(2) step [OF less.prems(1)] less.IH [OF step_rank]
    by (subst (asm) eap_step_loop.simps) (auto simp: Let_def split: if_splits)
qed

end

section \<open>Success is reported only for a reason\<close>

text \<open>The selected method, other than Identity, reports success.\<close>

definition success_now :: "'p eap_srv \<Rightarrow> 'p eap_sm \<Rightarrow> bool" where
  "success_now S sm \<longleftrightarrow> m sm \<noteq> None \<and> currentMethod sm \<noteq> EAP_TYPE_IDENTITY \<and> method_isSuccess S sm"

text \<open>A decision for success is taken only when this is the case.\<close>

definition decision_sound :: "'p eap_srv \<Rightarrow> 'p eap_sm \<Rightarrow> bool" where
  "decision_sound S sm \<longleftrightarrow>
     (EAP_state sm = EAP_SELECT_ACTION \<and> decision sm = DECISION_SUCCESS \<longrightarrow> success_now S sm)"

definition success_sound :: "'p eap_srv \<Rightarrow> bool \<Rightarrow> 'p eap_sm \<Rightarrow> bool" where
  "success_sound S aaa sm \<longleftrightarrow>
     decision_sound S sm \<and> (aaaSuccess (sif sm) \<longrightarrow> aaa) \<and>
     (eapSuccess (sif sm) \<longrightarrow>
        aaa \<or> success_now S sm \<and> EAP_state sm \<in> {EAP_SUCCESS, EAP_DISABLED, EAP_FAILURE})"

definition succ_view where
  "succ_view sm = (eapSuccess (sif sm), aaaSuccess (sif sm))"

lemma enter_succ_view [simp]:
  "succ_view (retransmit S sm) = succ_view sm" "succ_view (send_request S sm) = succ_view sm"
  "succ_view (sm_EAP_NAK_Enter g sm) = succ_view sm" "succ_view (sm_EAP_SELECT_ACTION_Enter S g sm) = succ_view sm"
  "succ_view (sm_EAP_INITIALIZE_Enter g sm) = (False, aaaSuccess (sif sm))"
  by (simp_all add: succ_view_def retransmit_def send_request_def sm_EAP_NAK_Enter_def case_prod_beta
      sm_EAP_SELECT_ACTION_Enter_def sm_EAP_INITIALIZE_Enter_def reset_method_def Let_def split: option.split)

context eap_methods
begin

lemma method_succ_view [simp]:
  "succ_view (sm_EAP_PICK_UP_METHOD_Enter S g sm) = succ_view sm"
  "succ_view (sm_EAP_METHOD_REQUEST_Enter S g sm) = succ_view sm"
  "succ_view (sm_EAP_METHOD_RESPONSE_Enter S g sm) = succ_view sm"
  "succ_view (sm_EAP_PROPOSE_METHOD_Enter S g sm) = succ_view sm"
  by (auto simp: sm_EAP_PICK_UP_METHOD_Enter_def sm_EAP_METHOD_REQUEST_Enter_def sm_EAP_METHOD_RESPONSE_Enter_def
      sm_EAP_PROPOSE_METHOD_Enter_def succ_view_def Let_def reset_method_def case_prod_beta
      eap_server_get_eap_method_def method_frames split: option.split)

lemmas succ_fields =
  enter_succ_view [unfolded succ_view_def prod.inject] method_succ_view [unfolded succ_view_def prod.inject]

lemma isSuccess_cong:
  "\<lbrakk>m a = m b; eap_method_priv a = eap_method_priv b\<rbrakk> \<Longrightarrow> method_isSuccess S a = method_isSuccess S b"
  using isSuccess_priv [of _ _ a b] by (simp add: method_isSuccess_def split: option.split)

lemma success_now_cong:
  "\<lbrakk>m a = m b; eap_method_priv a = eap_method_priv b; currentMethod a = currentMethod b\<rbrakk>
   \<Longrightarrow> success_now S a = success_now S b"
  using isSuccess_cong [of a b] by (simp add: success_now_def)

lemma decision_success:
  assumes "fst (eap_sm_Policy_getDecision S sm) = DECISION_SUCCESS"
  shows "success_now S sm \<and> currentMethod (snd (eap_sm_Policy_getDecision S sm)) = currentMethod sm"
proof -
  have c: "success_now S (check_priv sm) = success_now S sm"
    by (rule success_now_cong) (simp_all add: check_priv_def)
  have r: "fst (decide_rest s) \<noteq> DECISION_SUCCESS" for s :: "'p eap_sm"
    by (simp add: decide_rest_def Let_def)
  have "success_now S (check_priv sm) \<and> snd (eap_sm_Policy_getDecision S sm) = (check_priv sm)\<lparr>update_user := True\<rparr>"
    using assms unfolding eap_sm_Policy_getDecision_def Let_def case_prod_beta
    by (cases "eap_id (check_priv sm)") (auto simp: r success_now_def split: if_splits)
  then show ?thesis by (simp add: c) (simp add: check_priv_def)
qed

lemma select_sound: "decision_sound S (sm_EAP_SELECT_ACTION_Enter S g sm)"
proof -
  let ?e = "enter_eap g EAP_SELECT_ACTION sm"
  let ?d = "eap_sm_Policy_getDecision S ?e"
  have "success_now S (snd ?d\<lparr>decision := fst ?d\<rparr>)" if "fst ?d = DECISION_SUCCESS"
    using decision_success [OF that] by (subst success_now_cong [of _ ?e]) simp_all
  then show ?thesis by (simp add: decision_sound_def sm_EAP_SELECT_ACTION_Enter_def case_prod_beta)
qed

text \<open>What a pass of the loop does to the variables of interest.\<close>

definition success_step :: "'p eap_sm \<Rightarrow> 'p eap_sm \<Rightarrow> bool" where
  "success_step s t \<longleftrightarrow>
     (EAP_state t = EAP_SELECT_ACTION \<longrightarrow> decision_sound S t \<or> t = s) \<and>
     (aaaSuccess (sif t) \<longrightarrow> aaaSuccess (sif s)) \<and>
     (eapSuccess (sif t) \<longrightarrow>
        aaaSuccess (sif s) \<or>
        m t = m s \<and> eap_method_priv t = eap_method_priv s \<and> currentMethod t = currentMethod s \<and>
          (eapSuccess (sif s) \<and> EAP_state t \<in> {EAP_state s, EAP_DISABLED, EAP_FAILURE} \<or>
           EAP_state s = EAP_SELECT_ACTION \<and> decision s = DECISION_SUCCESS \<and> EAP_state t = EAP_SUCCESS) \<or>
        eapSuccess (sif s) \<and> EAP_state s \<notin> {EAP_SUCCESS, EAP_DISABLED, EAP_FAILURE})"

lemma step_global_success:
  assumes "eapRestart (sif s) \<and> portEnabled (sif s) \<or> \<not> portEnabled (sif s) \<or> num_rounds s > EAP_MAX_AUTH_ROUNDS"
  shows "success_step s (sm_EAP_Step S s)"
proof -
  consider "eapRestart (sif s)" "portEnabled (sif s)" | "\<not> portEnabled (sif s)"
    | "\<not> eapRestart (sif s)" "portEnabled (sif s)" "num_rounds s > EAP_MAX_AUTH_ROUNDS" using assms by blast
  then show ?thesis
  proof cases
    case 1
    then have "sm_EAP_Step S s = sm_EAP_INITIALIZE_Enter True s" by (simp add: sm_EAP_Step_def)
    then show ?thesis by (simp add: success_step_def succ_fields)
  next
    case 2
    then have "sm_EAP_Step S s = sm_EAP_DISABLED_Enter True s" by (simp add: sm_EAP_Step_def)
    then show ?thesis by (simp add: success_step_def sm_EAP_DISABLED_Enter_def enter_eap_def Let_def)
  next
    case 3
    then have "sm_EAP_Step S s = (if num_rounds s = EAP_MAX_AUTH_ROUNDS + 1
        then sm_EAP_FAILURE_Enter S True (s\<lparr>num_rounds := num_rounds s + 1\<rparr>) else s)"
      by (simp add: sm_EAP_Step_def)
    then show ?thesis
      by (simp add: success_step_def sm_EAP_FAILURE_Enter_def enter_eap_def set_if_def Let_def)
  qed
qed

lemma simple_succ:
  "succ_view (sm_EAP_IDLE_Enter g sm) = succ_view sm"
  "succ_view (sm_EAP_RETRANSMIT_Enter S g sm) = succ_view sm"
  "succ_view (sm_EAP_RECEIVED_Enter g sm) = succ_view sm"
  "succ_view (sm_EAP_DISCARD_Enter g sm) = succ_view sm"
  "succ_view (sm_EAP_SEND_REQUEST_Enter S g sm) = succ_view sm"
  "succ_view (sm_EAP_TIMEOUT_FAILURE_Enter g sm) = succ_view sm"
  "succ_view (sm_EAP_INITIALIZE_PASSTHROUGH_Enter g sm) = succ_view sm"
  "succ_view (sm_EAP_IDLE2_Enter g sm) = succ_view sm"
  "succ_view (sm_EAP_RETRANSMIT2_Enter S g sm) = succ_view sm"
  "succ_view (sm_EAP_RECEIVED2_Enter g sm) = succ_view sm"
  "succ_view (sm_EAP_DISCARD2_Enter g sm) = succ_view sm"
  "succ_view (sm_EAP_SEND_REQUEST2_Enter S g sm) = succ_view sm"
  "succ_view (sm_EAP_AAA_REQUEST_Enter S g sm) = succ_view sm"
  "succ_view (sm_EAP_AAA_RESPONSE_Enter S g sm) = succ_view sm"
  "succ_view (sm_EAP_TIMEOUT_FAILURE2_Enter g sm) = succ_view sm"
  "succ_view (sm_EAP_FAILURE_Enter S g sm) = succ_view sm"
  "succ_view (sm_EAP_FAILURE2_Enter S g sm) = succ_view sm"
  "succ_view (sm_EAP_INTEGRITY_CHECK_Enter S g sm) = succ_view sm"
  "succ_view (sm_EAP_AAA_IDLE_Enter g sm) = (eapSuccess (sif sm), False)"
  by (simp_all add: simple_enters succ_fields succ_view_def Let_def split: option.split)

lemma simple_state:
  "EAP_state (sm_EAP_IDLE_Enter g sm) = EAP_IDLE"
  "EAP_state (sm_EAP_RETRANSMIT_Enter S g sm) = EAP_RETRANSMIT"
  "EAP_state (sm_EAP_RECEIVED_Enter g sm) = EAP_RECEIVED"
  "EAP_state (sm_EAP_DISCARD_Enter g sm) = EAP_DISCARD"
  "EAP_state (sm_EAP_SEND_REQUEST_Enter S g sm) = EAP_SEND_REQUEST"
  "EAP_state (sm_EAP_TIMEOUT_FAILURE_Enter g sm) = EAP_TIMEOUT_FAILURE"
  "EAP_state (sm_EAP_INITIALIZE_PASSTHROUGH_Enter g sm) = EAP_INITIALIZE_PASSTHROUGH"
  "EAP_state (sm_EAP_IDLE2_Enter g sm) = EAP_IDLE2"
  "EAP_state (sm_EAP_RETRANSMIT2_Enter S g sm) = EAP_RETRANSMIT2"
  "EAP_state (sm_EAP_RECEIVED2_Enter g sm) = EAP_RECEIVED2"
  "EAP_state (sm_EAP_DISCARD2_Enter g sm) = EAP_DISCARD2"
  "EAP_state (sm_EAP_SEND_REQUEST2_Enter S g sm) = EAP_SEND_REQUEST2"
  "EAP_state (sm_EAP_AAA_REQUEST_Enter S g sm) = EAP_AAA_REQUEST"
  "EAP_state (sm_EAP_AAA_RESPONSE_Enter S g sm) = EAP_AAA_RESPONSE"
  "EAP_state (sm_EAP_TIMEOUT_FAILURE2_Enter g sm) = EAP_TIMEOUT_FAILURE2"
  "EAP_state (sm_EAP_FAILURE_Enter S g sm) = EAP_FAILURE"
  "EAP_state (sm_EAP_FAILURE2_Enter S g sm) = EAP_FAILURE2"
  "EAP_state (sm_EAP_INTEGRITY_CHECK_Enter S g sm) = EAP_INTEGRITY_CHECK"
  "EAP_state (sm_EAP_AAA_IDLE_Enter g sm) = EAP_AAA_IDLE"
  "EAP_state (sm_EAP_SUCCESS2_Enter S g sm) = EAP_SUCCESS2"
  by (simp_all add: simple_enters Let_def split: option.split)

lemmas simple_succ_fields = simple_succ [unfolded succ_view_def prod.inject]

lemma success_step_plain:
  "\<lbrakk>EAP_state t \<noteq> EAP_SELECT_ACTION \<or> decision_sound S t; eapSuccess (sif t) \<longrightarrow> eapSuccess (sif s);
    aaaSuccess (sif t) \<longrightarrow> aaaSuccess (sif s); EAP_state s \<notin> {EAP_SUCCESS, EAP_DISABLED, EAP_FAILURE}\<rbrakk>
   \<Longrightarrow> success_step s t"
  by (auto simp: success_step_def)

lemma success_step_same: "success_step s s"
  by (simp add: success_step_def)

lemma step_switch_success:
  assumes c: "\<not> eapRestart (sif s)" "portEnabled (sif s)" "\<not> num_rounds s > EAP_MAX_AUTH_ROUNDS"
  shows "success_step s (sm_EAP_Step S s)"
proof (cases "EAP_state s")
  case EAP_SELECT_ACTION
  then show ?thesis using c
    by (cases "decision s")
      (simp_all add: sm_EAP_Step_def success_step_def succ_fields sm_EAP_FAILURE_Enter_def sm_EAP_SUCCESS_Enter_def
        sm_EAP_INITIALIZE_PASSTHROUGH_Enter_def enter_eap_def set_if_def Let_def)
next
  case EAP_AAA_IDLE
  then show ?thesis using c
    by (cases "aaaSuccess (sif s)")
      (simp_all add: sm_EAP_Step_def success_step_def success_step_same simple_state simple_succ_fields)
next
  case EAP_DISABLED
  then show ?thesis using c by (simp add: sm_EAP_Step_def success_step_def succ_fields)
qed (use c in \<open>simp_all add: sm_EAP_Step_def success_step_same success_step_plain succ_fields select_sound
  simple_state simple_succ_fields\<close>)

lemma step_success_sound:
  assumes "success_sound S aaa s"
  shows "success_sound S aaa (sm_EAP_Step S (s\<lparr>eap_changed := False\<rparr>))"
proof -
  let ?s = "s\<lparr>eap_changed := False\<rparr>" and ?t = "sm_EAP_Step S (s\<lparr>eap_changed := False\<rparr>)"
  have n: "success_now S ?s = success_now S s" by (rule success_now_cong) simp_all
  have s: "success_sound S aaa ?s" using assms n by (simp add: success_sound_def decision_sound_def)
  have t: "success_step ?s ?t" using step_global_success [of ?s] step_switch_success [of ?s] by linarith
  have e: "success_now S ?t = success_now S ?s"
    if "m ?t = m ?s" "eap_method_priv ?t = eap_method_priv ?s" "currentMethod ?t = currentMethod ?s"
    using that by (rule success_now_cong)
  show ?thesis using s t e unfolding success_sound_def success_step_def
    by (smt (verit) decision_sound_def insertE insertI1 insertI2)
qed

end

section \<open>Runs of the machine\<close>

text \<open>
  What happens to the machine: the lower layer and the AAA client change the shared variables (but they do
  not report a success of the EAP server, and the AAA server accepts only when \<open>aaa\<close> says so), the machine makes a
  step, a pending method is resumed, and a cached authentication is noted.
\<close>

inductive eap_reachable :: "'p eap_srv \<Rightarrow> bool \<Rightarrow> 'p eap_sm \<Rightarrow> bool" for S aaa where
  init: "eap_reachable S aaa (eap_server_sm_init backend server)"
| lower: "\<lbrakk>eap_reachable S aaa sm; eapSuccess i \<longrightarrow> eapSuccess (sif sm); aaaSuccess i \<longrightarrow> aaa\<rbrakk>
    \<Longrightarrow> eap_reachable S aaa (sm\<lparr>sif := i\<rparr>)"
| step: "\<lbrakk>eap_reachable S aaa sm; eap_server_sm_step S sm = Some (sm', r)\<rbrakk> \<Longrightarrow> eap_reachable S aaa sm'"
| pending: "eap_reachable S aaa sm \<Longrightarrow> eap_reachable S aaa (eap_sm_pending_cb sm)"
| cached: "eap_reachable S aaa sm \<Longrightarrow> eap_reachable S aaa (eap_sm_notify_cached sm)"

section \<open>Counters\<close>

definition waiting_states :: "eap_state set" where
  "waiting_states = {EAP_IDLE, EAP_IDLE2, EAP_SEND_REQUEST, EAP_SEND_REQUEST2, EAP_DISCARD, EAP_DISCARD2,
     EAP_RECEIVED, EAP_RECEIVED2, EAP_INTEGRITY_CHECK}"

definition counters_ok :: "'p eap_sm \<Rightarrow> bool" where
  "counters_ok sm \<longleftrightarrow>
     MaxRetrans sm = 5 \<and> 0 \<le> retransCount sm \<and> retransCount sm \<le> 6 \<and>
     (EAP_state sm \<in> waiting_states \<longrightarrow> retransCount sm \<le> 5) \<and>
     0 \<le> num_rounds sm \<and> num_rounds sm \<le> EAP_MAX_AUTH_ROUNDS + 2 \<and>
     (num_rounds sm = EAP_MAX_AUTH_ROUNDS + 2 \<longrightarrow> EAP_state sm = EAP_FAILURE \<or> EAP_state sm = EAP_SUCCESS)"

definition count_view where
  "count_view sm = (MaxRetrans sm, retransCount sm, num_rounds sm)"

text \<open>The states that leave all counters alone.\<close>

lemma plain_counts:
  "count_view (sm_EAP_NAK_Enter g sm) = count_view sm"
  "count_view (sm_EAP_SELECT_ACTION_Enter S g sm) = count_view sm"
  "count_view (sm_EAP_IDLE_Enter g sm) = count_view sm"
  "count_view (sm_EAP_DISCARD_Enter g sm) = count_view sm"
  "count_view (sm_EAP_TIMEOUT_FAILURE_Enter g sm) = count_view sm"
  "count_view (sm_EAP_FAILURE_Enter S g sm) = count_view sm"
  "count_view (sm_EAP_SUCCESS_Enter S g sm) = count_view sm"
  "count_view (sm_EAP_INITIALIZE_PASSTHROUGH_Enter g sm) = count_view sm"
  "count_view (sm_EAP_IDLE2_Enter g sm) = count_view sm"
  "count_view (sm_EAP_RECEIVED2_Enter g sm) = count_view sm"
  "count_view (sm_EAP_DISCARD2_Enter g sm) = count_view sm"
  "count_view (sm_EAP_AAA_REQUEST_Enter S g sm) = count_view sm"
  "count_view (sm_EAP_AAA_RESPONSE_Enter S g sm) = count_view sm"
  "count_view (sm_EAP_AAA_IDLE_Enter g sm) = count_view sm"
  "count_view (sm_EAP_TIMEOUT_FAILURE2_Enter g sm) = count_view sm"
  "count_view (sm_EAP_FAILURE2_Enter S g sm) = count_view sm"
  "count_view (sm_EAP_SUCCESS2_Enter S g sm) = count_view sm"
  "count_view (sm_EAP_INTEGRITY_CHECK_Enter S g sm) = count_view sm"
  by (simp_all add: count_view_def sm_EAP_NAK_Enter_def sm_EAP_SELECT_ACTION_Enter_def case_prod_beta
      sm_EAP_IDLE_Enter_def sm_EAP_DISCARD_Enter_def sm_EAP_TIMEOUT_FAILURE_Enter_def
      sm_EAP_FAILURE_Enter_def sm_EAP_SUCCESS_Enter_def sm_EAP_INITIALIZE_PASSTHROUGH_Enter_def
      sm_EAP_IDLE2_Enter_def sm_EAP_RECEIVED2_Enter_def sm_EAP_DISCARD2_Enter_def
      sm_EAP_AAA_REQUEST_Enter_def sm_EAP_AAA_RESPONSE_Enter_def sm_EAP_AAA_IDLE_Enter_def
      sm_EAP_TIMEOUT_FAILURE2_Enter_def sm_EAP_FAILURE2_Enter_def sm_EAP_SUCCESS2_Enter_def
      sm_EAP_INTEGRITY_CHECK_Enter_def Let_def split: option.split)

lemma counting_states:
  "count_view (sm_EAP_DISABLED_Enter g sm) = (MaxRetrans sm, retransCount sm, 0)"
  "count_view (sm_EAP_INITIALIZE_Enter g sm) = (MaxRetrans sm, retransCount sm, 0)"
  "count_view (sm_EAP_RETRANSMIT_Enter S g sm) = (MaxRetrans sm, retransCount sm + 1, num_rounds sm)"
  "count_view (sm_EAP_RETRANSMIT2_Enter S g sm) = (MaxRetrans sm, retransCount sm + 1, num_rounds sm)"
  "count_view (sm_EAP_RECEIVED_Enter g sm) = (MaxRetrans sm, retransCount sm, num_rounds sm + 1)"
  "count_view (sm_EAP_SEND_REQUEST_Enter S g sm) = (MaxRetrans sm, 0, num_rounds sm)"
  "count_view (sm_EAP_SEND_REQUEST2_Enter S g sm) = (MaxRetrans sm, 0, num_rounds sm)"
  by (simp_all add: count_view_def sm_EAP_DISABLED_Enter_def sm_EAP_INITIALIZE_Enter_def reset_method_def
      sm_EAP_RETRANSMIT_Enter_def sm_EAP_RETRANSMIT2_Enter_def retransmit_def sm_EAP_RECEIVED_Enter_def
      sm_EAP_SEND_REQUEST_Enter_def sm_EAP_SEND_REQUEST2_Enter_def send_request_def Let_def case_prod_beta
      split: option.split)

context eap_methods
begin

lemma method_counts:
  "count_view (sm_EAP_PICK_UP_METHOD_Enter S g sm) = count_view sm"
  "count_view (sm_EAP_METHOD_REQUEST_Enter S g sm) = count_view sm"
  "count_view (sm_EAP_METHOD_RESPONSE_Enter S g sm) = count_view sm"
  "count_view (sm_EAP_PROPOSE_METHOD_Enter S g sm) = count_view sm"
  by (auto simp: sm_EAP_PICK_UP_METHOD_Enter_def sm_EAP_METHOD_REQUEST_Enter_def sm_EAP_METHOD_RESPONSE_Enter_def
      sm_EAP_PROPOSE_METHOD_Enter_def count_view_def Let_def reset_method_def case_prod_beta
      eap_server_get_eap_method_def method_frames split: option.split)

lemmas count_fields = plain_counts [unfolded count_view_def prod.inject]
  counting_states [unfolded count_view_def prod.inject] method_counts [unfolded count_view_def prod.inject]

lemma step_counters_global:
  assumes "eapRestart (sif s) \<and> portEnabled (sif s) \<or> \<not> portEnabled (sif s) \<or> num_rounds s > EAP_MAX_AUTH_ROUNDS"
    and "counters_ok s"
  shows "counters_ok (sm_EAP_Step S s)"
proof -
  consider "eapRestart (sif s)" "portEnabled (sif s)" | "\<not> portEnabled (sif s)"
    | "\<not> eapRestart (sif s)" "portEnabled (sif s)" "num_rounds s > EAP_MAX_AUTH_ROUNDS" using assms by blast
  then show ?thesis
  proof cases
    case 1
    then have "sm_EAP_Step S s = sm_EAP_INITIALIZE_Enter True s" by (simp add: sm_EAP_Step_def)
    then show ?thesis using assms(2) by (simp add: counters_ok_def count_fields waiting_states_def)
  next
    case 2
    then have "sm_EAP_Step S s = sm_EAP_DISABLED_Enter True s" by (simp add: sm_EAP_Step_def)
    then show ?thesis using assms(2)
      by (simp add: counters_ok_def count_fields waiting_states_def) (simp add: sm_EAP_DISABLED_Enter_def)
  next
    case 3
    then have "sm_EAP_Step S s = (if num_rounds s = EAP_MAX_AUTH_ROUNDS + 1
        then sm_EAP_FAILURE_Enter S True (s\<lparr>num_rounds := num_rounds s + 1\<rparr>) else s)"
      by (simp add: sm_EAP_Step_def)
    then show ?thesis using assms(2) 3
      by (auto simp: counters_ok_def count_fields simple_state waiting_states_def)
  qed
qed

lemma success_disabled_state:
  "EAP_state (sm_EAP_SUCCESS_Enter S g sm) = EAP_SUCCESS" "EAP_state (sm_EAP_DISABLED_Enter g sm) = EAP_DISABLED"
  by (simp_all add: sm_EAP_SUCCESS_Enter_def sm_EAP_DISABLED_Enter_def Let_def)

lemma step_counters_switch:
  assumes c: "\<not> eapRestart (sif s)" "portEnabled (sif s)" "\<not> num_rounds s > EAP_MAX_AUTH_ROUNDS"
    and ok: "counters_ok s"
  shows "counters_ok (sm_EAP_Step S s)"
proof (cases "EAP_state s")
  case EAP_SELECT_ACTION
  then show ?thesis using assms
    by (cases "decision s")
      (simp_all add: sm_EAP_Step_def counters_ok_def count_fields simple_state success_disabled_state waiting_states_def)
qed (use assms in \<open>simp_all add: sm_EAP_Step_def counters_ok_def count_fields simple_state waiting_states_def
  view_fields\<close>)

lemma step_counters:
  assumes "counters_ok s"
  shows "counters_ok (sm_EAP_Step S (s\<lparr>eap_changed := False\<rparr>))"
proof -
  have "counters_ok (s\<lparr>eap_changed := False\<rparr>)" using assms by (simp add: counters_ok_def)
  then show ?thesis
    using step_counters_global [of "s\<lparr>eap_changed := False\<rparr>"] step_counters_switch [of "s\<lparr>eap_changed := False\<rparr>"]
    by linarith
qed

end

context eap_methods
begin

lemma step_call_inv:
  assumes "\<And>sm. P sm \<Longrightarrow> P (sm_EAP_Step S (sm\<lparr>eap_changed := False\<rparr>))"
    and "P sm" "eap_server_sm_step S sm = Some (sm', r)"
  shows "P sm'"
  using eap_loop_inv [of P, OF assms(1,2)] assms(3) by (simp add: eap_server_sm_step_def)

lemma reachable_success: "eap_reachable S aaa sm \<Longrightarrow> success_sound S aaa sm"
proof (induction rule: eap_reachable.induct)
  case (init b s)
  show ?case by (simp add: success_sound_def decision_sound_def eap_server_sm_init_def eap_if_zero_def)
next
  case (lower sm i)
  have "success_now S (sm\<lparr>sif := i\<rparr>) = success_now S sm" by (rule success_now_cong) simp_all
  then show ?case using lower by (auto simp: success_sound_def decision_sound_def)
next
  case (step sm sm' r)
  show ?case by (rule step_call_inv [OF step_success_sound step.IH step.hyps(2)])
next
  case (pending sm)
  have "success_now S (eap_sm_pending_cb sm) = success_now S sm"
    by (rule success_now_cong) (simp_all add: eap_sm_pending_cb_def)
  then show ?case using pending by (simp add: success_sound_def decision_sound_def) (simp add: eap_sm_pending_cb_def)
next
  case (cached sm)
  have "success_now S (eap_sm_notify_cached sm) = success_now S sm"
    by (rule success_now_cong) (simp_all add: eap_sm_notify_cached_def)
  then show ?case using cached by (auto simp: success_sound_def decision_sound_def) (simp_all add: eap_sm_notify_cached_def)
qed

lemma reachable_counters: "eap_reachable S aaa sm \<Longrightarrow> counters_ok sm"
proof (induction rule: eap_reachable.induct)
  case (init b s)
  show ?case by (simp add: counters_ok_def eap_server_sm_init_def)
next
  case (step sm sm' r)
  show ?case by (rule step_call_inv [OF step_counters step.IH step.hyps(2)])
qed (simp_all add: counters_ok_def eap_sm_pending_cb_def eap_sm_notify_cached_def waiting_states_def)

end

section \<open>Nak\<close>

lemma remove_method_split:
  "i < length live \<Longrightarrow> remove_method i (live @ replicate k NO_METHOD) =
     (take i live @ drop (Suc i) live) @ replicate (Suc k) NO_METHOD"
  by (simp add: remove_method_def replicate_append_same)

lemma process_nak_correct:
  "\<lbrakk>length live + k = EAP_MAX_METHODS; NO_METHOD \<notin> set live; i \<le> length live\<rbrakk> \<Longrightarrow>
   process_nak_loop nak i (live @ replicate k NO_METHOD) =
     (let kept = take i live @ filter (nak_allows nak) (drop i live)
      in kept @ replicate (EAP_MAX_METHODS - length kept) NO_METHOD)"
proof (induction "length live - i" arbitrary: live k i)
  case 0
  then have "(live @ replicate k NO_METHOD) ! i = NO_METHOD" if "i < EAP_MAX_METHODS"
    using that by (simp add: nth_append)
  then show ?case using 0 by (subst process_nak_loop.simps) (auto simp: Let_def)
next
  case (Suc n)
  then have i: "i < length live" by simp
  then have at: "(live @ replicate k NO_METHOD) ! i = live ! i" by (simp add: nth_append)
  have ne: "live ! i \<noteq> NO_METHOD" using Suc.prems(2) i nth_mem by metis
  have dr: "drop i live = live ! i # drop (Suc i) live" using i by (simp add: Cons_nth_drop_Suc)
  show ?case
  proof (cases "nak_allows nak (live ! i)")
    case True
    have "process_nak_loop nak i (live @ replicate k NO_METHOD) =
      process_nak_loop nak (Suc i) (live @ replicate k NO_METHOD)"
      using i at ne True Suc.prems by (subst process_nak_loop.simps) simp
    also have "\<dots> = (let kept = take (Suc i) live @ filter (nak_allows nak) (drop (Suc i) live)
      in kept @ replicate (EAP_MAX_METHODS - length kept) NO_METHOD)"
      using Suc i by (intro Suc.hyps) simp_all
    finally show ?thesis using True i by (simp add: dr take_Suc_conv_app_nth Let_def)
  next
    case False
    let ?l = "take i live @ drop (Suc i) live"
    have "process_nak_loop nak i (live @ replicate k NO_METHOD) =
      process_nak_loop nak i (?l @ replicate (Suc k) NO_METHOD)"
      using i at ne False Suc.prems remove_method_split [OF i]
      by (subst process_nak_loop.simps) simp
    also have "\<dots> = (let kept = take i ?l @ filter (nak_allows nak) (drop i ?l)
      in kept @ replicate (EAP_MAX_METHODS - length kept) NO_METHOD)"
      using Suc i by (intro Suc.hyps) (auto dest: in_set_takeD in_set_dropD)
    finally show ?thesis using False i by (simp add: dr Let_def)
  qed
qed

section \<open>Properties\<close>

text \<open>C14. With methods that keep the contract of \<^verbatim>\<open>struct eap_method\<close>, \<^verbatim>\<open>eap_server_sm_step\<close> always
  returns: its loop ends from every state of the machine.\<close>

theorem eap_server_sm_step_returns:
  assumes "eap_methods S"
  shows "\<exists>sm' r. eap_server_sm_step S sm = Some (sm', r)"
  using eap_methods.eap_loop_terminates [OF assms] by (simp add: eap_server_sm_step_def)

text \<open>C15. The EAP server reports success to the lower layer only for a reason: when the AAA server has
  accepted, or when the selected method is not Identity and reports success itself.\<close>

theorem eap_success_justified:
  assumes "eap_methods S" "eap_reachable S aaa sm" "eapSuccess (sif sm)"
  shows "aaa \<or> (\<exists>k p. m sm = Some k \<and> eap_method_priv sm = Some p \<and> currentMethod sm \<noteq> EAP_TYPE_IDENTITY \<and>
    srv_isSuccess S k p sm)"
  using eap_methods.reachable_success [OF assms(1,2)] assms(3)
  by (auto simp: success_sound_def success_now_def method_isSuccess_def split: option.splits)


text \<open>C18. A Nak removes from the methods still to be tried exactly those the peer does not list, and keeps the
  order of the others and the methods tried before.\<close>

theorem eap_process_nak_exact:
  assumes "user sm = Some u" "user_methods u = live @ replicate k NO_METHOD" "NO_METHOD \<notin> set live"
    and "length (user_methods u) = EAP_MAX_METHODS" "user_eap_method_index sm \<le> length live"
  shows "\<exists>u' k'. user (eap_sm_process_nak nak sm) = Some u' \<and> length (user_methods u') = EAP_MAX_METHODS \<and>
    user_methods u' = take (user_eap_method_index sm) live @
      filter (\<lambda>vm. fst vm = EAP_VENDOR_IETF \<and> (\<exists>b \<in> set nak. snd vm = ucast b))
        (drop (user_eap_method_index sm) live) @ replicate k' NO_METHOD"
proof -
  let ?i = "user_eap_method_index sm"
  have f: "nak_allows nak = (\<lambda>vm. fst vm = EAP_VENDOR_IETF \<and> (\<exists>b \<in> set nak. snd vm = ucast b))"
    by (auto simp: nak_allows_def fun_eq_iff)
  have le: "length (take ?i live @ filter (nak_allows nak) (drop ?i live)) \<le> EAP_MAX_METHODS"
    using assms(2,4,5) length_filter_le [of "nak_allows nak" "drop ?i live"] by simp
  show ?thesis
    using assms le process_nak_correct [of live k ?i nak]
    by (simp add: eap_sm_process_nak_def Let_def f)
qed

theorem eap_process_nak_exact_witness:
  "\<exists>u. user (eap_sm_process_nak [4, 26] ((eap_server_sm_init False True :: unit eap_sm)\<lparr>user := Some
      \<lparr>user_methods = [(0, 25), (0, 26), (0, 13), (0, 4)] @ replicate 4 NO_METHOD, user_password = None,
       user_password_hash = False, user_phase2 = False\<rparr>, user_eap_method_index := 1\<rparr>)) = Some u \<and>
     take 3 (user_methods u) = [(0, 25), (0, 26), (0, 4)]"
  using eap_process_nak_exact [of "(eap_server_sm_init False True :: unit eap_sm)\<lparr>user := Some
      \<lparr>user_methods = [(0, 25), (0, 26), (0, 13), (0, 4)] @ replicate 4 NO_METHOD, user_password = None,
       user_password_hash = False, user_phase2 = False\<rparr>, user_eap_method_index := 1\<rparr>", OF _ _ _ _ _, of _
      "[(0, 25), (0, 26), (0, 13), (0, 4)]" 4 "[4, 26]"]
  by auto

end
