(* ===== verification/Eap_Methods.thy ===== *)
theory Eap_Methods
  imports Eap_Server_Inv Ieee8021x
begin

text \<open>
  Three methods of the EAP server: EAP-Identity (\<^verbatim>\<open>eap_server_identity.c\<close>), EAP-MD5 (\<^verbatim>\<open>eap_server_md5.c\<close> with
  \<^verbatim>\<open>eap_common/chap.c\<close>) and EAP-GTC outside of EAP-FAST (\<^verbatim>\<open>eap_server_gtc.c\<close>).  The private data of a method is a
  value of \<open>eap_priv\<close>.  The random octets of a challenge, the hash function of the crypto library, the
  allocator and the configured text of the identity request are parameters in the record \<open>method_env\<close>.
  \<open>eap_server_methods\<close> is the table of the registered methods.
\<close>

section \<open>Private data and environment\<close>

datatype method_result = CONTINUE | SUCCESS | FAILURE

record eap_identity_data =
  ident_state :: method_result
  pick_up :: bool

record eap_md5_data =
  challenge :: bytes
  md5_state :: method_result

record eap_gtc_data =
  gtc_state :: method_result
  gtc_prefix :: bool

datatype eap_priv = Identity_data eap_identity_data | Md5_data eap_md5_data | Gtc_data eap_gtc_data

record method_env =
  me_zalloc :: "u32 \<Rightarrow> bool"
  me_malloc :: "nat \<Rightarrow> bool"
  me_random :: "eap_priv eap_sm \<Rightarrow> nat \<Rightarrow> bytes option"
  me_md5_vector :: "bytes list \<Rightarrow> bytes"
  me_req_id_text :: "bytes option"

abbreviation (input) EAP_TYPE_MD5 :: u32 where "EAP_TYPE_MD5 \<equiv> 4"
abbreviation (input) EAP_TYPE_GTC :: u32 where "EAP_TYPE_GTC \<equiv> 6"
abbreviation (input) CHALLENGE_LEN :: nat where "CHALLENGE_LEN \<equiv> 16"
abbreviation (input) CHAP_MD5_LEN :: nat where "CHAP_MD5_LEN \<equiv> 16"

text \<open>A request: the header written by \<^verbatim>\<open>eap_msg_alloc\<close> followed by the given pieces of payload.\<close>

definition eap_request :: "(u32 \<Rightarrow> bool) \<Rightarrow> u32 \<Rightarrow> u8 \<Rightarrow> bytes list \<Rightarrow> bytes option outcome" where
  "eap_request os_zalloc type ident payload =
     (case eap_msg_alloc os_zalloc EAP_VENDOR_IETF type (word_of_nat (length (concat payload)))
             EAP_CODE_REQUEST ident of
        Abort \<Rightarrow> Abort
      | Done None \<Rightarrow> Done None
      | Done (Some buf) \<Rightarrow>
          (case put_list wpabuf_put_data buf payload of
             Abort \<Rightarrow> Abort
           | Done buf \<Rightarrow> Done (Some (wpabuf_contents buf))))"

text \<open>The response of the peer as the methods see it; a missing buffer does not validate.\<close>

definition resp_payload :: "u32 \<Rightarrow> bytes option \<Rightarrow> bytes option" where
  "resp_payload type resp = Option.bind resp (eap_hdr_validate EAP_VENDOR_IETF type)"

section \<open>EAP-Identity\<close>

definition eap_identity_init :: "method_env \<Rightarrow> eap_identity_data option" where
  "eap_identity_init E =
     (if me_zalloc E 8 then Some \<lparr>ident_state = CONTINUE, pick_up = False\<rparr> else None)"

definition eap_identity_initPickUp :: "method_env \<Rightarrow> eap_identity_data option" where
  "eap_identity_initPickUp E = map_option (\<lambda>d. d\<lparr>pick_up := True\<rparr>) (eap_identity_init E)"

text \<open>The text of the request is an option of the callback table, the empty text when it is absent.\<close>

definition eap_identity_buildReq :: "method_env \<Rightarrow> u8 \<Rightarrow> eap_identity_data \<Rightarrow>
    (bytes option \<times> eap_identity_data) outcome" where
  "eap_identity_buildReq E ident d =
     (let req_data = (case me_req_id_text E of Some t \<Rightarrow> t | None \<Rightarrow> []) in
      case eap_request (me_zalloc E) EAP_TYPE_IDENTITY ident [req_data] of
        Abort \<Rightarrow> Abort
      | Done None \<Rightarrow> Done (None, d\<lparr>ident_state := FAILURE\<rparr>)
      | Done (Some req) \<Rightarrow> Done (Some req, d))"

definition eap_identity_check :: "bytes option \<Rightarrow> bool" where
  "eap_identity_check resp \<longleftrightarrow> resp_payload EAP_TYPE_IDENTITY resp = None"

text \<open>The second result is the identity: unchanged, or the new allocation.\<close>

definition eap_identity_process :: "method_env \<Rightarrow> bytes option \<Rightarrow> eap_identity_data \<Rightarrow> eap_priv eap_sm \<Rightarrow>
    eap_identity_data \<times> eap_priv eap_sm" where
  "eap_identity_process E resp d sm =
     (if pick_up d \<and> eap_identity_check resp then (d\<lparr>ident_state := FAILURE\<rparr>, sm)
      else
        let d = (if pick_up d then d\<lparr>pick_up := False\<rparr> else d) in
        case resp_payload EAP_TYPE_IDENTITY resp of
          None \<Rightarrow> (d, sm)
        | Some pos \<Rightarrow>
            let sm = (if eap_id sm \<noteq> None then sm\<lparr>update_user := True\<rparr> else sm) in
            if me_malloc E (if length pos \<noteq> 0 then length pos else 1)
            then (d\<lparr>ident_state := SUCCESS\<rparr>, sm\<lparr>eap_id := Some pos\<rparr>)
            else (d\<lparr>ident_state := FAILURE\<rparr>, sm\<lparr>eap_id := None\<rparr>))"

definition eap_identity_isDone :: "eap_identity_data \<Rightarrow> bool" where
  "eap_identity_isDone d \<longleftrightarrow> ident_state d \<noteq> CONTINUE"

definition eap_identity_isSuccess :: "eap_identity_data \<Rightarrow> bool" where
  "eap_identity_isSuccess d \<longleftrightarrow> ident_state d = SUCCESS"

section \<open>EAP-MD5\<close>

definition chap_md5 :: "method_env \<Rightarrow> u8 \<Rightarrow> bytes \<Rightarrow> bytes \<Rightarrow> bytes" where
  "chap_md5 E ident secret chal = me_md5_vector E [[ident], secret, chal]"

definition eap_md5_init :: "method_env \<Rightarrow> eap_md5_data option" where
  "eap_md5_init E =
     (if me_zalloc E 20 then Some \<lparr>challenge = replicate CHALLENGE_LEN 0, md5_state = CONTINUE\<rparr> else None)"

definition eap_md5_buildReq :: "method_env \<Rightarrow> u8 \<Rightarrow> eap_md5_data \<Rightarrow> eap_priv eap_sm \<Rightarrow>
    (bytes option \<times> eap_md5_data) outcome" where
  "eap_md5_buildReq E ident d sm =
     (case me_random E sm CHALLENGE_LEN of
        None \<Rightarrow> Done (None, d\<lparr>md5_state := FAILURE\<rparr>)
      | Some chal \<Rightarrow>
          let d = d\<lparr>challenge := chal\<rparr> in
          (case eap_request (me_zalloc E) EAP_TYPE_MD5 ident [[word_of_nat CHALLENGE_LEN], challenge d] of
             Abort \<Rightarrow> Abort
           | Done None \<Rightarrow> Done (None, d\<lparr>md5_state := FAILURE\<rparr>)
           | Done (Some req) \<Rightarrow> Done (Some req, d\<lparr>md5_state := CONTINUE\<rparr>)))"

definition eap_md5_check :: "bytes option \<Rightarrow> bool" where
  "eap_md5_check resp =
     (case resp_payload EAP_TYPE_MD5 resp of
        None \<Rightarrow> True
      | Some pos \<Rightarrow> length pos < 1 \<or> unat (pos ! 0) \<noteq> CHAP_MD5_LEN \<or> 1 + CHAP_MD5_LEN > length pos)"

text \<open>The password the methods compare with: configured, and not stored as a hash.\<close>

definition plaintext_password :: "eap_priv eap_sm \<Rightarrow> bytes option" where
  "plaintext_password sm =
     (case user sm of
        None \<Rightarrow> None
      | Some u \<Rightarrow> if user_password_hash u then None else user_password u)"

definition eap_md5_process :: "method_env \<Rightarrow> bytes option \<Rightarrow> eap_md5_data \<Rightarrow> eap_priv eap_sm \<Rightarrow> eap_md5_data" where
  "eap_md5_process E resp d sm =
     (case plaintext_password sm of
        None \<Rightarrow> d\<lparr>md5_state := FAILURE\<rparr>
      | Some password \<Rightarrow>
          (case resp_payload EAP_TYPE_MD5 resp of
             None \<Rightarrow> d
           | Some pos \<Rightarrow>
               if unat (pos ! 0) \<noteq> CHAP_MD5_LEN \<or> length pos < 1 + CHAP_MD5_LEN then d
               else
                 let ident = eap_get_id (the resp);
                     hash = chap_md5 E ident password (challenge d) in
                 if take CHAP_MD5_LEN hash = take CHAP_MD5_LEN (drop 1 pos)
                 then d\<lparr>md5_state := SUCCESS\<rparr> else d\<lparr>md5_state := FAILURE\<rparr>))"

definition eap_md5_isDone :: "eap_md5_data \<Rightarrow> bool" where
  "eap_md5_isDone d \<longleftrightarrow> md5_state d \<noteq> CONTINUE"

definition eap_md5_isSuccess :: "eap_md5_data \<Rightarrow> bool" where
  "eap_md5_isSuccess d \<longleftrightarrow> md5_state d = SUCCESS"

section \<open>EAP-GTC\<close>

text \<open>Without \<^verbatim>\<open>EAP_SERVER_FAST\<close> the prefix stays unset.\<close>

definition eap_gtc_init :: "method_env \<Rightarrow> eap_gtc_data option" where
  "eap_gtc_init E = (if me_zalloc E 8 then Some \<lparr>gtc_state = CONTINUE, gtc_prefix = False\<rparr> else None)"

definition c_string :: "string \<Rightarrow> bytes" where
  "c_string s = map (\<lambda>c. word_of_nat (of_char c)) s"

definition eap_gtc_buildReq :: "method_env \<Rightarrow> u8 \<Rightarrow> eap_gtc_data \<Rightarrow> (bytes option \<times> eap_gtc_data) outcome" where
  "eap_gtc_buildReq E ident d =
     (let msg = c_string (if gtc_prefix d then ''CHALLENGE=Password'' else ''Password'') in
      case eap_request (me_zalloc E) EAP_TYPE_GTC ident [msg] of
        Abort \<Rightarrow> Abort
      | Done None \<Rightarrow> Done (None, d\<lparr>gtc_state := FAILURE\<rparr>)
      | Done (Some req) \<Rightarrow> Done (Some req, d\<lparr>gtc_state := CONTINUE\<rparr>))"

definition eap_gtc_check :: "bytes option \<Rightarrow> bool" where
  "eap_gtc_check resp =
     (case resp_payload EAP_TYPE_GTC resp of None \<Rightarrow> True | Some pos \<Rightarrow> length pos < 1)"

text \<open>The comparison at the end of \<^verbatim>\<open>eap_gtc_process\<close>, and the function without the \<^verbatim>\<open>EAP_SERVER_FAST\<close> part.\<close>

definition eap_gtc_verify :: "bytes \<Rightarrow> eap_gtc_data \<Rightarrow> eap_priv eap_sm \<Rightarrow> eap_gtc_data" where
  "eap_gtc_verify pos d sm =
     (case plaintext_password sm of
        None \<Rightarrow> d\<lparr>gtc_state := FAILURE\<rparr>
      | Some password \<Rightarrow>
          if length pos \<noteq> length password \<or> pos \<noteq> password then d\<lparr>gtc_state := FAILURE\<rparr>
          else d\<lparr>gtc_state := SUCCESS\<rparr>)"

definition eap_gtc_process :: "bytes option \<Rightarrow> eap_gtc_data \<Rightarrow> eap_priv eap_sm \<Rightarrow> eap_gtc_data" where
  "eap_gtc_process resp d sm =
     (case resp_payload EAP_TYPE_GTC resp of
        None \<Rightarrow> d
      | Some pos \<Rightarrow> if length pos < 1 then d else eap_gtc_verify pos d sm)"

definition eap_gtc_isDone :: "eap_gtc_data \<Rightarrow> bool" where
  "eap_gtc_isDone d \<longleftrightarrow> gtc_state d \<noteq> CONTINUE"

definition eap_gtc_isSuccess :: "eap_gtc_data \<Rightarrow> bool" where
  "eap_gtc_isSuccess d \<longleftrightarrow> gtc_state d = SUCCESS"

section \<open>The table of methods\<close>

abbreviation (input) identity_method :: "u32 \<times> u32" where "identity_method \<equiv> (EAP_VENDOR_IETF, EAP_TYPE_IDENTITY)"
abbreviation (input) md5_method :: "u32 \<times> u32" where "md5_method \<equiv> (EAP_VENDOR_IETF, EAP_TYPE_MD5)"
abbreviation (input) gtc_method :: "u32 \<times> u32" where "gtc_method \<equiv> (EAP_VENDOR_IETF, EAP_TYPE_GTC)"

definition method_init :: "method_env \<Rightarrow> u32 \<times> u32 \<Rightarrow> eap_priv option" where
  "method_init E k =
     (if k = identity_method then map_option Identity_data (eap_identity_init E)
      else if k = md5_method then map_option Md5_data (eap_md5_init E)
      else if k = gtc_method then map_option Gtc_data (eap_gtc_init E)
      else None)"

text \<open>The outcome of building a request, stored back; building never aborts (\<open>eap_request_no_abort\<close>).\<close>

definition store_req :: "('d \<Rightarrow> eap_priv) \<Rightarrow> (bytes option \<times> 'd) outcome \<Rightarrow> eap_priv eap_sm \<Rightarrow>
    bytes option \<times> eap_priv eap_sm" where
  "store_req C out sm =
     (case out of Abort \<Rightarrow> (None, sm) | Done (req, d) \<Rightarrow> (req, sm\<lparr>eap_method_priv := Some (C d)\<rparr>))"

definition method_buildReq :: "method_env \<Rightarrow> u32 \<times> u32 \<Rightarrow> eap_priv \<Rightarrow> u8 \<Rightarrow> eap_priv eap_sm \<Rightarrow>
    bytes option \<times> eap_priv eap_sm" where
  "method_buildReq E k p ident sm =
     (case p of
        Identity_data d \<Rightarrow> store_req Identity_data (eap_identity_buildReq E ident d) sm
      | Md5_data d \<Rightarrow> store_req Md5_data (eap_md5_buildReq E ident d sm) sm
      | Gtc_data d \<Rightarrow> store_req Gtc_data (eap_gtc_buildReq E ident d) sm)"

definition method_process :: "method_env \<Rightarrow> u32 \<times> u32 \<Rightarrow> eap_priv \<Rightarrow> bytes option \<Rightarrow> eap_priv eap_sm \<Rightarrow>
    eap_priv eap_sm" where
  "method_process E k p resp sm =
     (case p of
        Identity_data d \<Rightarrow>
          let (d, sm) = eap_identity_process E resp d sm in sm\<lparr>eap_method_priv := Some (Identity_data d)\<rparr>
      | Md5_data d \<Rightarrow> sm\<lparr>eap_method_priv := Some (Md5_data (eap_md5_process E resp d sm))\<rparr>
      | Gtc_data d \<Rightarrow> sm\<lparr>eap_method_priv := Some (Gtc_data (eap_gtc_process resp d sm))\<rparr>)"

definition method_check :: "eap_priv \<Rightarrow> bytes option \<Rightarrow> bool" where
  "method_check p resp =
     (case p of Identity_data _ \<Rightarrow> eap_identity_check resp | Md5_data _ \<Rightarrow> eap_md5_check resp
      | Gtc_data _ \<Rightarrow> eap_gtc_check resp)"

definition method_done :: "eap_priv \<Rightarrow> bool" where
  "method_done p =
     (case p of Identity_data d \<Rightarrow> eap_identity_isDone d | Md5_data d \<Rightarrow> eap_md5_isDone d
      | Gtc_data d \<Rightarrow> eap_gtc_isDone d)"

definition method_success :: "eap_priv \<Rightarrow> bool" where
  "method_success p =
     (case p of Identity_data d \<Rightarrow> eap_identity_isSuccess d | Md5_data d \<Rightarrow> eap_md5_isSuccess d
      | Gtc_data d \<Rightarrow> eap_gtc_isSuccess d)"

text \<open>The registrations of \<^verbatim>\<open>eap_server_identity_register\<close>, \<^verbatim>\<open>eap_server_md5_register\<close> and
  \<^verbatim>\<open>eap_server_gtc_register\<close>: none of the three has \<^verbatim>\<open>getTimeout\<close> or \<^verbatim>\<open>getKey\<close>, and only Identity can pick up
  a negotiation.\<close>

definition eap_server_methods :: "method_env \<Rightarrow> (bytes \<Rightarrow> bool \<Rightarrow> eap_user option) \<Rightarrow>
    (eap_priv eap_sm \<Rightarrow> nat) \<Rightarrow> (eap_priv eap_sm \<Rightarrow> bool) \<Rightarrow> eap_priv eap_srv" where
  "eap_server_methods E db rand alloc =
     \<lparr>srv_registered = \<lambda>v t. (v, t) \<in> {identity_method, md5_method, gtc_method},
      srv_init = \<lambda>k sm. (method_init E k, sm),
      srv_initPickUp = \<lambda>k. if k = identity_method
        then Some (\<lambda>sm. (map_option Identity_data (eap_identity_initPickUp E), sm)) else None,
      srv_buildReq = method_buildReq E,
      srv_getTimeout = \<lambda>_. None,
      srv_check = \<lambda>_. Some (\<lambda>p resp _. method_check p resp),
      srv_process = method_process E,
      srv_isDone = \<lambda>_ p _. method_done p,
      srv_getKey = \<lambda>_. None,
      srv_isSuccess = \<lambda>_ p _. method_success p,
      srv_get_eap_user = db,
      srv_rand = rand,
      srv_alloc = alloc\<rparr>"

section \<open>The methods keep the contract\<close>

lemma store_req_frame [simp]: "eap_frame (snd (store_req C out sm)) = eap_frame sm"
  by (simp add: store_req_def eap_frame_def split: outcome.split prod.split)

lemma store_req_priv: "eap_method_priv sm \<noteq> None \<Longrightarrow> eap_method_priv (snd (store_req C out sm)) \<noteq> None"
  by (auto simp: store_req_def split: outcome.split prod.split)

lemma identity_process_frame [simp]:
  "eap_frame (snd (eap_identity_process E resp d sm)) = eap_frame sm"
  "method_pending (snd (eap_identity_process E resp d sm)) = method_pending sm"
  by (simp_all add: eap_identity_process_def eap_frame_def Let_def split: option.split)

lemma process_frame [simp]:
  "eap_frame (method_process E k p resp sm) = eap_frame sm"
  "method_pending (method_process E k p resp sm) = method_pending sm"
  "eap_method_priv (method_process E k p resp sm) \<noteq> None"
  using identity_process_frame(1) [of E resp _ sm]
  by (simp_all add: method_process_def case_prod_beta eap_frame_def split: eap_priv.split)

lemma buildReq_priv: "eap_method_priv sm \<noteq> None \<Longrightarrow> eap_method_priv (snd (method_buildReq E k p i sm)) \<noteq> None"
  unfolding method_buildReq_def by (cases p) (simp_all only: eap_priv.case store_req_priv not_False_eq_True)

lemma buildReq_frame [simp]: "eap_frame (snd (method_buildReq E k p i sm)) = eap_frame sm"
  by (simp add: method_buildReq_def split: eap_priv.split)

interpretation methods: eap_methods "eap_server_methods E db rand alloc" for E db rand alloc
proof
  fix k p r i sm
  show "eap_method_priv sm \<noteq> None \<Longrightarrow>
      eap_method_priv (snd (srv_buildReq (eap_server_methods E db rand alloc) k p i sm)) \<noteq> None"
    using buildReq_priv [of sm E k p i] by (simp add: eap_server_methods_def)
  show "eap_method_priv (srv_process (eap_server_methods E db rand alloc) k p r sm) \<noteq> None"
    using process_frame(3) [of E k p r sm] by (simp add: eap_server_methods_def)
qed (auto simp: eap_server_methods_def split: if_splits)

section \<open>Requests\<close>

lemma eap_request_cases:
  assumes "length (concat payload) + 12 < 2 ^ 16"
  shows "eap_request os_zalloc type ident payload =
    Done (if os_zalloc (5 + word_of_nat (length (concat payload)))
      then Some (eap_prefix EAP_VENDOR_IETF type (5 + word_of_nat (length (concat payload))) EAP_CODE_REQUEST ident @
        concat payload) else None)"
proof -
  let ?n = "word_of_nat (length (concat payload)) :: u32"
  have n: "unat ?n = length (concat payload)" using assms by (simp add: unat_of_nat)
  show ?thesis
  proof (cases "eap_msg_alloc os_zalloc EAP_VENDOR_IETF type ?n EAP_CODE_REQUEST ident")
    case Abort
    have "\<exists>b. put_list wpabuf_put_data b0 [eap_hdr EAP_CODE_REQUEST ident (ucast (5 + ?n)), [ucast type]] = Done b"
      if "wpabuf_alloc os_zalloc (5 + ?n) = Some b0" for b0
    proof -
      have "unat (5 + ?n) = 5 + length (concat payload)" using n assms by (simp add: unat_word_ariths)
      then show ?thesis
        using wpabuf_alloc_wf [OF that]
          wb.put_all_fits [of b0 "[eap_hdr EAP_CODE_REQUEST ident (ucast (5 + ?n)), [ucast type]]"] by auto
    qed
    then show ?thesis using Abort
      by (auto simp: eap_msg_alloc_def Let_def simp del: put_list.simps split: option.splits outcome.splits)
  next
    case (Done r)
    show ?thesis
    proof (cases r)
      case None
      then have "wpabuf_alloc os_zalloc (5 + ?n) = None"
        using Done by (auto simp: eap_msg_alloc_def Let_def split: option.splits outcome.splits)
      then have "\<not> os_zalloc (5 + ?n)" by (simp add: wpabuf_alloc_def split: if_splits)
      then show ?thesis using Done None by (simp add: eap_request_def)
    next
      case (Some buf)
      have nw: "unat ?n + 12 < 2 ^ 32" using n assms by simp
      note b = eap_msg_alloc_contents [OF Done [unfolded Some] nw]
      have "length (wpabuf_contents buf) = 5" using b(3) by (simp add: eap_prefix_def)
      then obtain buf' where b': "put_list wpabuf_put_data buf payload = Done buf'"
        "wpabuf_contents buf' = wpabuf_contents buf @ concat payload"
        using wb.put_all_fits [OF b(1), of payload] b(2) n by auto
      have "os_zalloc (5 + ?n)"
        using Done Some by (auto simp: eap_msg_alloc_def wpabuf_alloc_def Let_def split: if_splits)
      then show ?thesis using Done Some b' b(3) by (simp add: eap_request_def)
    qed
  qed
qed

text \<open>With a bounded text in the identity request, the methods never abort.\<close>

lemma eap_request_no_abort:
  assumes "length (concat payload) + 12 < 2 ^ 16"
  shows "eap_request os_zalloc type ident payload \<noteq> Abort"
  using eap_request_cases [OF assms, of os_zalloc type ident] by simp

section \<open>Properties of the methods\<close>

text \<open>C17. EAP-MD5 accepts exactly the right response: with a plaintext password configured, a well-formed response to the
  challenge makes the method succeed if and only if its 16 octets are the hash of identifier, password and
  challenge, and otherwise makes it fail; no other response changes the outcome to success.\<close>

theorem eap_md5_accepts:
  assumes "resp = eap_prefix EAP_VENDOR_IETF EAP_TYPE_MD5 (word_of_nat (22 + length name)) code ident @
      16 # val @ name"
    and "length val = CHAP_MD5_LEN" "length name < 1000"
    and "plaintext_password sm = Some password" "\<And>xs. length (me_md5_vector E xs) = CHAP_MD5_LEN"
  shows "md5_state (eap_md5_process E (Some resp) d sm) =
    (if val = me_md5_vector E [[ident], password, challenge d] then SUCCESS else FAILURE)"
proof -
  have v: "eap_hdr_validate EAP_VENDOR_IETF EAP_TYPE_MD5 resp = Some (16 # val @ name)"
    unfolding assms(1) using assms(2,3)
    by (intro eap_hdr_validate_prefix) (auto simp: unat_of_nat unat_word_ariths)
  have i: "eap_get_id resp = ident" by (simp add: assms(1) eap_get_id_def eap_prefix_def eap_hdr_def)
  show ?thesis using v i assms(2,4,5)
    by (auto simp: eap_md5_process_def resp_payload_def chap_md5_def Let_def)
qed

theorem eap_md5_accepts_witness:
  "\<exists>d. md5_state (eap_md5_process \<lparr>me_zalloc = \<lambda>_. True, me_malloc = \<lambda>_. True, me_random = \<lambda>_ n. Some (replicate n 7),
      me_md5_vector = (\<lambda>xs. replicate 16 (sum_list (concat xs))), me_req_id_text = None\<rparr>
      (Some (eap_prefix EAP_VENDOR_IETF EAP_TYPE_MD5 22 2 9 @ 16 # replicate 16 10 @ []))
      d ((eap_server_sm_init False True)\<lparr>user := Some \<lparr>user_methods = [], user_password = Some [1],
        user_password_hash = False, user_phase2 = False\<rparr>\<rparr>)) = SUCCESS"
  using eap_md5_accepts [where name = "[]" and ident = 9 and code = 2 and val = "replicate 16 10" and password = "[1]"
      and d = "\<lparr>challenge = replicate 16 0, md5_state = CONTINUE\<rparr>"
      and sm = "(eap_server_sm_init False True)\<lparr>user := Some \<lparr>user_methods = [], user_password = Some [1],
        user_password_hash = False, user_phase2 = False\<rparr>\<rparr>"
      and E = "\<lparr>me_zalloc = \<lambda>_. True, me_malloc = \<lambda>_. True, me_random = \<lambda>_ n. Some (replicate n 7),
      me_md5_vector = (\<lambda>xs. replicate 16 (sum_list (concat xs))), me_req_id_text = None\<rparr>", OF refl]
  by (intro exI [of _ "\<lparr>challenge = replicate 16 0, md5_state = CONTINUE\<rparr>"])
    (simp add: plaintext_password_def sum_list_replicate)

section \<open>Users without a usable password\<close>

definition no_plaintext :: "eap_user \<Rightarrow> bool" where
  "no_plaintext u \<longleftrightarrow> user_password_hash u \<or> user_password u = None"

text \<open>The machine cannot have authenticated anybody: the user has no plaintext password, the method that runs has not
  succeeded unless it is Identity.\<close>

definition powerless :: "eap_priv eap_sm \<Rightarrow> bool" where
  "powerless sm \<longleftrightarrow>
     pred_option no_plaintext (user sm) \<and>
     (\<forall>d. eap_method_priv sm = Some (Identity_data d) \<and> m sm \<noteq> None \<longrightarrow> currentMethod sm = EAP_TYPE_IDENTITY) \<and>
     (\<forall>d. eap_method_priv sm = Some (Md5_data d) \<longrightarrow> md5_state d \<noteq> SUCCESS) \<and>
     (\<forall>d. eap_method_priv sm = Some (Gtc_data d) \<longrightarrow> gtc_state d \<noteq> SUCCESS)"

definition cred_view where
  "cred_view sm = (user sm, m sm, eap_method_priv sm, currentMethod sm)"

lemma powerless_cong: "cred_view a = cred_view b \<Longrightarrow> powerless a \<longleftrightarrow> powerless b"
  by (simp add: cred_view_def powerless_def)

lemma powerless_no_success:
  "powerless sm \<Longrightarrow> \<not> success_now (eap_server_methods E db rand alloc) sm"
  by (auto simp: powerless_def success_now_def method_isSuccess_def eap_server_methods_def method_success_def
      eap_identity_isSuccess_def eap_md5_isSuccess_def eap_gtc_isSuccess_def split: option.splits eap_priv.splits)

lemma password_none: "pred_option no_plaintext (user sm) \<Longrightarrow> plaintext_password sm = None"
  by (auto simp: plaintext_password_def no_plaintext_def split: option.splits)

lemma parse_cred [simp]: "cred_view (eap_sm_parseEapResp r sm) = cred_view sm"
  by (simp add: eap_sm_parseEapResp_def cred_view_def Let_def split: option.split)

lemma base_cred [simp]:
  "cred_view (enter_eap g st sm) = cred_view sm" "cred_view (set_if f sm) = cred_view sm"
  by (simp_all add: enter_eap_def set_if_def cred_view_def Let_def)

lemma upd_cred [simp]:
  "cred_view (sm\<lparr>num_rounds := n\<rparr>) = cred_view sm" "cred_view (sm\<lparr>retransCount := n\<rparr>) = cred_view sm"
  "cred_view (sm\<lparr>lastReqData := r\<rparr>) = cred_view sm" "cred_view (sm\<lparr>methodTimeout := n\<rparr>) = cred_view sm"
  "cred_view (sm\<lparr>currentId := n\<rparr>) = cred_view sm" "cred_view (sm\<lparr>start_reauth := b\<rparr>) = cred_view sm"
  "cred_view (sm\<lparr>eap_ignore := b\<rparr>) = cred_view sm" "cred_view (sm\<lparr>null_deref := b\<rparr>) = cred_view sm"
  "cred_view (sm\<lparr>eap_changed := b\<rparr>) = cred_view sm" "cred_view (sm\<lparr>method_pending := q\<rparr>) = cred_view sm"
  "cred_view (sm\<lparr>user_eap_method_index := j\<rparr>) = cred_view sm" "cred_view (sm\<lparr>decision := dd\<rparr>) = cred_view sm"
  "cred_view (sm\<lparr>update_user := b\<rparr>) = cred_view sm" "cred_view (sm\<lparr>methodState := ms\<rparr>) = cred_view sm"
  "cred_view (sm\<lparr>lastId := n\<rparr>) = cred_view sm"
  by (simp_all add: cred_view_def)

lemma shared_cred [simp]:
  "cred_view (retransmit S sm) = cred_view sm" "cred_view (send_request S sm) = cred_view sm"
  by (simp_all add: retransmit_def send_request_def Let_def case_prod_beta split: option.split)

lemmas quiet_enters = sm_EAP_DISABLED_Enter_def sm_EAP_IDLE_Enter_def sm_EAP_RETRANSMIT_Enter_def
  sm_EAP_RECEIVED_Enter_def sm_EAP_DISCARD_Enter_def sm_EAP_SEND_REQUEST_Enter_def
  sm_EAP_TIMEOUT_FAILURE_Enter_def sm_EAP_FAILURE_Enter_def sm_EAP_SUCCESS_Enter_def
  sm_EAP_INITIALIZE_PASSTHROUGH_Enter_def sm_EAP_IDLE2_Enter_def sm_EAP_RETRANSMIT2_Enter_def
  sm_EAP_RECEIVED2_Enter_def sm_EAP_DISCARD2_Enter_def sm_EAP_SEND_REQUEST2_Enter_def
  sm_EAP_AAA_REQUEST_Enter_def sm_EAP_AAA_RESPONSE_Enter_def sm_EAP_AAA_IDLE_Enter_def
  sm_EAP_TIMEOUT_FAILURE2_Enter_def sm_EAP_FAILURE2_Enter_def sm_EAP_SUCCESS2_Enter_def
  sm_EAP_INTEGRITY_CHECK_Enter_def

lemma enter_cred [simp]:
  "cred_view (sm_EAP_DISABLED_Enter g sm) = cred_view sm" "cred_view (sm_EAP_IDLE_Enter g sm) = cred_view sm"
  "cred_view (sm_EAP_RETRANSMIT_Enter S g sm) = cred_view sm" "cred_view (sm_EAP_RECEIVED_Enter g sm) = cred_view sm"
  "cred_view (sm_EAP_DISCARD_Enter g sm) = cred_view sm" "cred_view (sm_EAP_SEND_REQUEST_Enter S g sm) = cred_view sm"
  "cred_view (sm_EAP_TIMEOUT_FAILURE_Enter g sm) = cred_view sm" "cred_view (sm_EAP_FAILURE_Enter S g sm) = cred_view sm"
  "cred_view (sm_EAP_SUCCESS_Enter S g sm) = cred_view sm"
  "cred_view (sm_EAP_INITIALIZE_PASSTHROUGH_Enter g sm) = cred_view sm" "cred_view (sm_EAP_IDLE2_Enter g sm) = cred_view sm"
  "cred_view (sm_EAP_RETRANSMIT2_Enter S g sm) = cred_view sm" "cred_view (sm_EAP_RECEIVED2_Enter g sm) = cred_view sm"
  "cred_view (sm_EAP_DISCARD2_Enter g sm) = cred_view sm" "cred_view (sm_EAP_SEND_REQUEST2_Enter S g sm) = cred_view sm"
  "cred_view (sm_EAP_AAA_REQUEST_Enter S g sm) = cred_view sm" "cred_view (sm_EAP_AAA_RESPONSE_Enter S g sm) = cred_view sm"
  "cred_view (sm_EAP_AAA_IDLE_Enter g sm) = cred_view sm" "cred_view (sm_EAP_TIMEOUT_FAILURE2_Enter g sm) = cred_view sm"
  "cred_view (sm_EAP_FAILURE2_Enter S g sm) = cred_view sm" "cred_view (sm_EAP_SUCCESS2_Enter S g sm) = cred_view sm"
  "cred_view (sm_EAP_INTEGRITY_CHECK_Enter S g sm) = cred_view sm"
  by (simp_all add: quiet_enters Let_def split: option.split)

lemma powerless_enter:
  "powerless sm \<Longrightarrow> powerless (enter_eap g st sm)"
  using powerless_cong [of "enter_eap g st sm" sm] by simp

lemma powerless_initialize: "powerless sm \<Longrightarrow> powerless (sm_EAP_INITIALIZE_Enter g sm)"
proof -
  assume "powerless sm"
  then have "pred_option no_plaintext (user sm)" by (simp add: powerless_def)
  moreover have "user (sm_EAP_INITIALIZE_Enter g sm) = user sm \<and> m (sm_EAP_INITIALIZE_Enter g sm) = None \<and>
      (eap_method_priv (sm_EAP_INITIALIZE_Enter g sm) = None \<or> 
       eap_method_priv (sm_EAP_INITIALIZE_Enter g sm) = eap_method_priv sm)"
    by (simp add: sm_EAP_INITIALIZE_Enter_def Let_def reset_method_def enter_eap_def eap_sm_parseEapResp_def
        split: option.split)
  ultimately show ?thesis using \<open>powerless sm\<close> by (auto simp: powerless_def split: option.splits eap_priv.splits)
qed

lemma powerless_nak: "powerless sm \<Longrightarrow> powerless (sm_EAP_NAK_Enter g sm)"
  by (auto simp: powerless_def sm_EAP_NAK_Enter_def Let_def enter_eap_def eap_sm_Policy_update_def no_plaintext_def
      eap_sm_process_nak_def split: option.split)

lemma decide_rest_cred [simp]: "cred_view (snd (decide_rest sm)) = cred_view sm"
  by (simp add: decide_rest_def Let_def)

lemma powerless_user:
  assumes "powerless sm" "\<And>u. srv_get_eap_user S ident ph = Some u \<Longrightarrow> no_plaintext u"
  shows "powerless (snd (eap_user_get S ident ph sm))"
  using assms by (auto simp: eap_user_get_def powerless_def Let_def split: option.splits)

lemma powerless_decision:
  assumes "powerless sm" "\<And>ident ph u. srv_get_eap_user S ident ph = Some u \<Longrightarrow> no_plaintext u"
  shows "powerless (snd (eap_sm_Policy_getDecision S sm))"
proof -
  have c: "cred_view (check_priv sm) = cred_view sm" by (simp add: check_priv_def)
  have p: "powerless (check_priv sm)" using powerless_cong [OF c] assms(1) by simp
  have u: "powerless (snd (eap_user_get S ident False (check_priv sm)))" for ident
    using powerless_user [OF p] assms(2) by blast
  have r: "powerless (snd (decide_rest s)) = powerless s" "powerless (s\<lparr>update_user := b\<rparr>) = powerless s" for s b
    by (rule powerless_cong; simp)+
  show ?thesis
    unfolding eap_sm_Policy_getDecision_def Let_def case_prod_beta
    by (cases "eap_id (check_priv sm)") (simp_all add: assms(1) p u r)
qed

lemma powerless_select:
  assumes "powerless sm" "\<And>ident ph u. srv_get_eap_user S ident ph = Some u \<Longrightarrow> no_plaintext u"
  shows "powerless (sm_EAP_SELECT_ACTION_Enter S g sm)"
  using powerless_decision [OF powerless_enter [OF assms(1)] assms(2)]
  by (subst powerless_cong [of _ "snd (eap_sm_Policy_getDecision S (enter_eap g EAP_SELECT_ACTION sm))"])
    (simp_all add: sm_EAP_SELECT_ACTION_Enter_def case_prod_beta)

lemma powerless_store:
  assumes "powerless sm" "eap_method_priv sm = Some p" "method_success p \<longrightarrow> (\<exists>d. p = Identity_data d)"
  shows "powerless (snd (method_buildReq E k p i sm))"
  using assms
  by (auto simp: method_buildReq_def store_req_def powerless_def eap_md5_buildReq_def eap_gtc_buildReq_def Let_def
      split: eap_priv.splits outcome.splits option.splits)

lemma powerless_priv:
  "powerless sm \<Longrightarrow> eap_method_priv sm = Some p \<Longrightarrow> method_success p \<longrightarrow> (\<exists>d. p = Identity_data d)"
  by (auto simp: powerless_def method_success_def eap_md5_isSuccess_def eap_gtc_isSuccess_def split: eap_priv.splits)

lemma powerless_request:
  assumes "powerless sm"
  shows "powerless (sm_EAP_METHOD_REQUEST_Enter (eap_server_methods E db rand alloc) g sm)"
proof -
  let ?S = "eap_server_methods E db rand alloc"
  define e where "e = enter_eap g EAP_METHOD_REQUEST sm"
  define s where "s = e\<lparr>currentId := eap_sm_nextId ?S e (currentId e), lastId := eap_sm_nextId ?S e (currentId e)\<rparr>"
  have e: "powerless e" using assms by (simp add: e_def powerless_enter)
  have s: "powerless s" using powerless_cong [of s e] e by (simp add: s_def cred_view_def)
  show ?thesis
  proof (cases "m e")
    case None
    then show ?thesis using e by (simp add: sm_EAP_METHOD_REQUEST_Enter_def Let_def flip: e_def)
  next
    case (Some k)
    show ?thesis
    proof (cases "eap_method_priv s")
      case None
      then show ?thesis using s Some powerless_cong [of "s\<lparr>null_deref := True\<rparr>" s]
        by (simp add: sm_EAP_METHOD_REQUEST_Enter_def Let_def s_def flip: e_def)
    next
      case (Some p)
      let ?r = "method_buildReq E k p (word_of_int (currentId s)) s"
      have "powerless (snd ?r)" using powerless_store [OF s Some powerless_priv [OF s Some]] .
      moreover have "cred_view (sm_EAP_METHOD_REQUEST_Enter ?S g sm) = cred_view (snd ?r)"
        using \<open>m e = Some k\<close> Some
        by (simp add: sm_EAP_METHOD_REQUEST_Enter_def Let_def case_prod_beta s_def eap_server_methods_def flip: e_def)
      ultimately show ?thesis using powerless_cong by blast
    qed
  qed
qed

lemma powerless_process:
  assumes "powerless sm" "eap_method_priv sm = Some p"
  shows "powerless (method_process E k p r sm)"
  using assms password_none [of sm]
  by (auto simp: method_process_def powerless_def eap_md5_process_def eap_gtc_process_def eap_gtc_verify_def Let_def
      case_prod_beta eap_identity_process_def split: eap_priv.splits option.splits)

lemma powerless_response:
  assumes "powerless sm"
  shows "powerless (sm_EAP_METHOD_RESPONSE_Enter (eap_server_methods E db rand alloc) g sm)"
proof -
  define e where "e = enter_eap g EAP_METHOD_RESPONSE sm"
  have e: "powerless e" using assms by (simp add: e_def powerless_enter)
  show ?thesis
  proof (cases "m e = None \<or> eap_method_priv e = None")
    case True
    then show ?thesis using e powerless_cong [of "e\<lparr>null_deref := True\<rparr>" e]
      by (auto simp: sm_EAP_METHOD_RESPONSE_Enter_def Let_def simp flip: e_def split: option.split)
  next
    case False
    then obtain k p where kp: "m e = Some k" "eap_method_priv e = Some p" by auto
    let ?t = "method_process E k p (eapRespData (sif e)) e"
    have "powerless ?t" by (rule powerless_process [OF e kp(2)])
    moreover have "cred_view (sm_EAP_METHOD_RESPONSE_Enter (eap_server_methods E db rand alloc) g sm) = cred_view ?t"
      using kp by (simp add: sm_EAP_METHOD_RESPONSE_Enter_def Let_def eap_server_methods_def eap_sm_Policy_update_def
          flip: e_def)
    ultimately show ?thesis using powerless_cong by blast
  qed
qed

lemma method_init_fresh:
  "method_init E k = Some p \<Longrightarrow> (\<exists>d. p = Identity_data d \<and> k = identity_method) \<or>
     (\<exists>d. p = Md5_data d \<and> md5_state d \<noteq> SUCCESS) \<or> (\<exists>d. p = Gtc_data d \<and> gtc_state d \<noteq> SUCCESS)"
  by (auto simp: method_init_def eap_md5_init_def eap_gtc_init_def split: if_splits)

lemma next_method_user [simp]:
  "user (snd (eap_sm_Policy_getNextMethod sm)) = user sm"
  by (simp add: eap_sm_Policy_getNextMethod_def split: option.split)

lemma powerless_propose:
  assumes "powerless sm"
  shows "powerless (sm_EAP_PROPOSE_METHOD_Enter (eap_server_methods E db rand alloc) g sm)"
proof -
  define e where "e = enter_eap g EAP_PROPOSE_METHOD sm"
  let ?n = "fst (eap_sm_Policy_getNextMethod e)" and ?S = "eap_server_methods E db rand alloc"
  let ?t = "sm_EAP_PROPOSE_METHOD_Enter ?S g sm"
  have e: "powerless e" using powerless_enter [OF assms] by (simp add: e_def)
  have u: "user ?t = user e"
    by (simp add: sm_EAP_PROPOSE_METHOD_Enter_def case_prod_beta Let_def reset_method_def eap_server_methods_def
        eap_server_get_eap_method_def split: option.split flip: e_def)
  consider "m ?t = None" "eap_method_priv ?t = None \<or> eap_method_priv ?t = eap_method_priv e"
    | p where "method_init E ?n = Some p" "m ?t = Some ?n" "eap_method_priv ?t = Some p"
      "currentMethod ?t = (if fst ?n = EAP_VENDOR_IETF then snd ?n else EAP_TYPE_EXPANDED)"
  proof (cases "eap_server_get_eap_method ?S (fst ?n) (snd ?n)")
    case None
    then show ?thesis using that(1)
      by (simp add: sm_EAP_PROPOSE_METHOD_Enter_def case_prod_beta Let_def reset_method_def flip: e_def)
  next
    case (Some k)
    then have k: "k = ?n" by (simp add: eap_server_get_eap_method_def split: if_splits)
    have i: "srv_init ?S = (\<lambda>k sm. (method_init E k, sm))" by (simp add: eap_server_methods_def)
    show ?thesis
      using that Some k
      by (cases "method_init E ?n")
        (simp_all add: sm_EAP_PROPOSE_METHOD_Enter_def case_prod_beta Let_def reset_method_def i flip: e_def)
  qed
  then show ?thesis
  proof cases
    case 1
    then show ?thesis using e u by (auto simp: powerless_def)
  next
    case 2
    then show ?thesis using e u method_init_fresh [OF 2(1)] by (auto simp: powerless_def)
  qed
qed

lemma powerless_pick_up:
  assumes "powerless sm"
  shows "powerless (sm_EAP_PICK_UP_METHOD_Enter (eap_server_methods E db rand alloc) g sm)"
proof -
  define e where "e = enter_eap g EAP_PICK_UP_METHOD sm"
  have "powerless e" using powerless_enter [OF assms] by (simp add: e_def)
  then show ?thesis
    by (cases "eap_identity_initPickUp E")
      (auto simp: sm_EAP_PICK_UP_METHOD_Enter_def Let_def powerless_def reset_method_def eap_sm_Policy_doPickUp_def
        eap_server_get_eap_method_def eap_server_methods_def simp flip: e_def)
qed

lemma powerless_step:
  assumes p: "powerless s" and db: "\<And>ident ph u. db ident ph = Some u \<Longrightarrow> no_plaintext u"
  shows "powerless (sm_EAP_Step (eap_server_methods E db rand alloc) s)"
proof -
  have u: "srv_get_eap_user (eap_server_methods E db rand alloc) ident ph = Some u \<Longrightarrow> no_plaintext u" for ident ph u
    using db by (simp add: eap_server_methods_def)
  have c: "powerless a" if "cred_view a = cred_view s" for a using powerless_cong [OF that] p by simp
  have pend: "powerless (s\<lparr>method_pending := METHOD_PENDING_NONE\<rparr>)" by (simp add: c)
  note facts = p pend powerless_initialize powerless_nak powerless_select [OF _ u] powerless_request
    powerless_response powerless_propose powerless_pick_up c
  show ?thesis
  proof (cases "EAP_state s")
    case EAP_SELECT_ACTION
    then show ?thesis unfolding sm_EAP_Step_def by (cases "decision s") (simp_all add: facts)
  qed (simp_all add: sm_EAP_Step_def facts)
qed

text \<open>The EAP server as the EAPOL state machines call it: they share the interface variables.\<close>

definition eap_sm_step_if :: "'p eap_srv \<Rightarrow> 'p eap_sm \<Rightarrow> eap_eapol_interface \<Rightarrow>
    'p eap_sm \<times> eap_eapol_interface \<times> bool" where
  "eap_sm_step_if S sm i =
     (case eap_server_sm_step S (sm\<lparr>sif := i\<rparr>) of
        Some (sm', changed) \<Rightarrow> (sm', sif sm', changed)
      | None \<Rightarrow> (sm, i, False))"

lemma powerless_quiet:
  fixes E :: method_env and db rand alloc
  assumes db: "\<And>ident ph u. db ident ph = Some u \<Longrightarrow> no_plaintext u"
  defines "S \<equiv> eap_server_methods E db rand alloc"
  shows "eap_quiet (\<lambda>sm. powerless sm \<and> decision_sound S sm) (eap_sm_step_if S)"
  unfolding eap_quiet_def
proof clarify
  fix sm i sm' i' ch
  assume run: "eap_sm_step_if S sm i = (sm', i', ch)" and p: "powerless sm" and d: "decision_sound S sm"
    and q: "\<not> eapSuccess i" "\<not> aaaSuccess i"
  let ?P = "\<lambda>s. powerless s \<and> success_sound S False s"
  have step: "?P s \<Longrightarrow> ?P (sm_EAP_Step S (s\<lparr>eap_changed := False\<rparr>))" for s
    using powerless_step [of "s\<lparr>eap_changed := False\<rparr>" db E rand alloc, OF _ db] methods.step_success_sound
      powerless_cong [of "s\<lparr>eap_changed := False\<rparr>" s]
    unfolding S_def by simp
  have p0: "powerless (sm\<lparr>sif := i\<rparr>)" using p powerless_cong [of "sm\<lparr>sif := i\<rparr>" sm] by (simp add: cred_view_def)
  have "\<not> success_now S (sm\<lparr>sif := i\<rparr>)" "\<not> success_now S sm"
    using powerless_no_success p p0 unfolding S_def by blast+
  then have "?P (sm\<lparr>sif := i\<rparr>)" using p0 d q by (simp add: success_sound_def decision_sound_def)
  moreover obtain r where r: "eap_server_sm_step S (sm\<lparr>sif := i\<rparr>) = Some (sm', r)" "i' = sif sm'"
    using run methods.eap_loop_terminates [of E db rand alloc False "sm\<lparr>sif := i\<rparr>"]
    unfolding S_def by (auto simp: eap_sm_step_if_def eap_server_sm_step_def)
  ultimately have "?P sm'" using methods.step_call_inv [of ?P E db rand alloc, folded S_def, OF step] by blast
  moreover from this have "\<not> success_now S sm'" using powerless_no_success unfolding S_def by blast
  ultimately show "(powerless sm' \<and> decision_sound S sm') \<and> \<not> eapSuccess i' \<and> \<not> aaaSuccess i'"
    using r(2) by (simp add: success_sound_def)
qed

section \<open>From the user database to the port\<close>

lemma powerless_init: "powerless (eap_server_sm_init b server)"
  by (simp add: powerless_def eap_server_sm_init_def)

text \<open>C13. A station without usable credentials stays out: when the user database holds no plaintext password,
  then, whatever frames the peer sends and however EAP-Identity, EAP-MD5 and EAP-GTC run, the authenticator
  never opens the port, unless the RADIUS server accepts or a cached PMKSA is used.\<close>

theorem no_password_no_access:
  assumes "\<forall>ident ph u. db ident ph = Some u \<longrightarrow> user_password u = None \<or> user_password_hash u"
    and "\<forall>ev \<in> set evs. \<not> grants ev \<and> pred_option (\<lambda>e. \<exists>b server. e = eap_server_sm_init b server) (event_eap ev)"
    and "eapol_sm (sta_run (ieee802_1x_env A (eap_sm_step_if (eap_server_methods E db rand alloc))) nc hapd evs
      sta_new) = Some sm"
  shows "authPortStatus sm \<noteq> Authorized \<and> True \<notin> set (port_log (cb_log sm))"
proof -
  let ?S = "eap_server_methods E db rand alloc"
  have q: "eap_quiet (\<lambda>sm. powerless sm \<and> decision_sound ?S sm) (eap_sm_step_if ?S)"
    using assms(1) by (intro powerless_quiet) (metis no_plaintext_def)
  have "decision_sound ?S (eap_server_sm_init b server)" for b server
    by (simp add: decision_sound_def eap_server_sm_init_def)
  then have "pred_option (\<lambda>sm. powerless sm \<and> decision_sound ?S sm) (event_eap ev)" if "ev \<in> set evs" for ev
    using bspec [OF assms(2) that] by (cases "event_eap ev") (auto simp: powerless_init)
  then show ?thesis
    using sm_invariant.run_P [OF denied_invariant [OF q], of sta_new evs A nc hapd] assms(2,3)
    by (simp add: sta_new_def denied_def wpa_auth_sta_get_pmksa_def)
qed

section \<open>Concrete runs\<close>

definition demo_env :: "(u32 \<Rightarrow> bool) \<Rightarrow> method_env" where
  "demo_env zalloc = \<lparr>me_zalloc = zalloc, me_malloc = \<lambda>_. True, me_random = \<lambda>_ n. Some (replicate n 7),
      me_md5_vector = (\<lambda>xs. replicate 16 (sum_list (concat xs))), me_req_id_text = None\<rparr>"

definition demo_methods :: "(u32 \<Rightarrow> bool) \<Rightarrow> eap_priv eap_srv" where
  "demo_methods zalloc = eap_server_methods (demo_env zalloc)
    (\<lambda>ident _. if ident = [98, 111, 98] then Some \<lparr>user_methods = [(0, 4)] @ replicate 7 (0, 0),
       user_password = Some [1], user_password_hash = False, user_phase2 = False\<rparr> else None) (\<lambda>_. 5) (\<lambda>_. True)"

text \<open>The lower layer enables the port or passes on a response, and the machine runs.\<close>

definition demo_call :: "(u32 \<Rightarrow> bool) \<Rightarrow> bytes option \<Rightarrow> eap_priv eap_sm \<Rightarrow> eap_priv eap_sm" where
  "demo_call zalloc resp sm =
     (case eap_server_sm_step (demo_methods zalloc)
        (sm\<lparr>sif := (sif sm)\<lparr>portEnabled := True, eapResp := resp \<noteq> None, eapRespData := resp\<rparr>\<rparr>) of
        Some (sm', _) \<Rightarrow> sm' | None \<Rightarrow> sm)"

definition demo_run_eap :: "(u32 \<Rightarrow> bool) \<Rightarrow> bytes list \<Rightarrow> eap_priv eap_sm" where
  "demo_run_eap zalloc resps =
     fold (\<lambda>r. demo_call zalloc (Some r)) resps (demo_call zalloc None (eap_server_sm_init False True))"

declare eap_step_loop.simps [code]

lemma demo_run_success:
  "eapSuccess (sif (demo_run_eap (\<lambda>_. True) [[2, 5, 0, 8, 1, 98, 111, 98], [2, 6, 0, 22, 4, 16] @ replicate 16 119]))"
  by code_simp

lemma demo_run_null:
  "null_deref (demo_run_eap (\<lambda>n. n \<noteq> 20) [[2, 5, 0, 8, 1, 98, 111, 98], [2, 5, 0, 5, 0]])"
  by code_simp

lemma demo_methods_ok: "eap_methods (demo_methods zalloc)"
  unfolding demo_methods_def by (rule methods.eap_methods_axioms)

lemma demo_call_reachable:
  assumes "eap_reachable (demo_methods z) aaa sm"
  shows "eap_reachable (demo_methods z) aaa (demo_call z r sm)"
proof -
  let ?sm = "sm\<lparr>sif := (sif sm)\<lparr>portEnabled := True, eapResp := r \<noteq> None, eapRespData := r\<rparr>\<rparr>"
  have "aaaSuccess (sif sm) \<longrightarrow> aaa"
    using eap_methods.reachable_success [OF demo_methods_ok assms] by (simp add: success_sound_def)
  then have "eap_reachable (demo_methods z) aaa ?sm" by (intro eap_reachable.lower [OF assms]) simp_all
  then show ?thesis unfolding demo_call_def
    using assms by (auto intro: eap_reachable.step split: option.split)
qed

lemma demo_run_reachable: "eap_reachable (demo_methods z) False (demo_run_eap z resps)"
proof -
  have "eap_reachable (demo_methods z) False (fold (\<lambda>r. demo_call z (Some r)) resps sm)"
    if "eap_reachable (demo_methods z) False sm" for sm
    using that by (induction resps arbitrary: sm) (simp_all add: demo_call_reachable)
  then show ?thesis unfolding demo_run_eap_def by (blast intro: demo_call_reachable eap_reachable.init)
qed

theorem eap_server_sm_step_returns_witness:
  "\<exists>sm' r. eap_server_sm_step (demo_methods (\<lambda>_. True)) (demo_run_eap (\<lambda>_. True) []) = Some (sm', r)"
  by (rule eap_server_sm_step_returns [OF demo_methods_ok])

theorem eap_success_justified_witness:
  "\<exists>k p sm. sm = demo_run_eap (\<lambda>_. True) [[2, 5, 0, 8, 1, 98, 111, 98], [2, 6, 0, 22, 4, 16] @ replicate 16 119] \<and>
     m sm = Some k \<and> eap_method_priv sm = Some p \<and> srv_isSuccess (demo_methods (\<lambda>_. True)) k p sm"
  using eap_success_justified [OF demo_methods_ok demo_run_reachable demo_run_success] by blast


text \<open>C19. A null method pointer is reachable: when the next method of a user cannot be initialised, the machine
  waits with no method selected and with the type \<^verbatim>\<open>EAP_TYPE_NONE\<close>, and a response of that type with the
  current identifier makes \<^verbatim>\<open>INTEGRITY_CHECK\<close> read through \<^verbatim>\<open>sm->m\<close>, which is \<^verbatim>\<open>NULL\<close>.\<close>

theorem eap_null_method_reachable:
  "\<exists>S :: eap_priv eap_srv. \<exists>sm. eap_methods S \<and> eap_reachable S False sm \<and> null_deref sm"
  using demo_methods_ok demo_run_reachable demo_run_null by blast

theorem no_password_no_access_witness:
  "\<exists>sm. eapol_sm (sta_run (ieee802_1x_env \<lparr>wpa_reaction = \<lambda>_ _. [], eap_identity = \<lambda>_. None, key_frames = \<lambda>_. 0\<rparr>
       (eap_sm_step_if (eap_server_methods (demo_env (\<lambda>_. True)) (\<lambda>_ _. None) (\<lambda>_. 5) (\<lambda>_. True)))) (\<lambda>e. e) demo_conf
       [Ev_associate 3 None, Ev_new_station True (Some (eap_server_sm_init False True)), Ev_run] sta_new) = Some sm \<and>
     auth_pae_state sm = AUTH_PAE_AUTHENTICATING \<and> authPortStatus sm \<noteq> Authorized"
proof -
  let ?run = "eapol_sm (sta_run (ieee802_1x_env \<lparr>wpa_reaction = \<lambda>_ _. [], eap_identity = \<lambda>_. None, key_frames = \<lambda>_. 0\<rparr>
       (eap_sm_step_if (eap_server_methods (demo_env (\<lambda>_. True)) (\<lambda>_ _. None) (\<lambda>_. 5) (\<lambda>_. True)))) (\<lambda>e. e) demo_conf
       [Ev_associate 3 None, Ev_new_station True (Some (eap_server_sm_init False True)), Ev_run] sta_new)"
  have "case ?run of None \<Rightarrow> False | Some sm \<Rightarrow> auth_pae_state sm = AUTH_PAE_AUTHENTICATING" by code_simp
  then obtain sm where sm: "?run = Some sm" "auth_pae_state sm = AUTH_PAE_AUTHENTICATING" by (auto split: option.splits)
  have "authPortStatus sm \<noteq> Authorized"
    using no_password_no_access [OF _ _ sm(1)] by (auto simp: grants_def event_eap_def wpa_auth_sta_get_pmksa_def)
  with sm show ?thesis by blast
qed

end
