(* ===== verification/Block_Hash.thy ===== *)
theory Block_Hash
  imports Prelude
begin

text \<open>
  What the hash functions of \<^verbatim>\<open>src/crypto\<close> have in common: a message is padded and folded through a
  transformation of 64-octet blocks, and the code takes the message in pieces, keeping the last incomplete
  block in a buffer and the length in two 32-bit words.  The locale \<open>streaming_hash\<close> is the contract of
  such an implementation: its context always represents the octets taken so far.
\<close>

section \<open>Folding blocks\<close>

function hash_blocks :: "('s \<Rightarrow> bytes \<Rightarrow> 's) \<Rightarrow> 's \<Rightarrow> bytes \<Rightarrow> 's" where
  "hash_blocks f st msg = (if length msg < 64 then st else hash_blocks f (f st (take 64 msg)) (drop 64 msg))"
  by auto
termination by (relation "measure (\<lambda>(f, st, msg). length msg)") auto

declare hash_blocks.simps [simp del]

lemma hash_blocks_short [simp]: "length msg < 64 \<Longrightarrow> hash_blocks f st msg = st"
  by (simp add: hash_blocks.simps)

lemma hash_blocks_block [simp]:
  "length b = 64 \<Longrightarrow> hash_blocks f st (b @ msg) = hash_blocks f (f st b) msg"
  by (subst hash_blocks.simps) simp

lemma hash_blocks_one [simp]: "length b = 64 \<Longrightarrow> hash_blocks f st b = f st b"
  using hash_blocks_block [of b f st "[]"] by simp

lemma hash_blocks_append:
  "length a mod 64 = 0 \<Longrightarrow> hash_blocks f st (a @ b) = hash_blocks f (hash_blocks f st a) b"
proof (induction f st a rule: hash_blocks.induct)
  case (1 f st a)
  show ?case
  proof (cases "length a < 64")
    case True
    then show ?thesis using 1 by simp
  next
    case False
    then have a: "a = take 64 a @ drop 64 a" and l: "length (take 64 a) = 64" by simp_all
    have "length (drop 64 a) mod 64 = 0" using 1(2) False by (simp add: mod_if le_mod_geq)
    then have "hash_blocks f (f st (take 64 a)) (drop 64 a @ b) =
        hash_blocks f (hash_blocks f (f st (take 64 a)) (drop 64 a)) b"
      by (rule 1(1) [OF False])
    then show ?thesis using l by (subst (1 2) a) (simp only: append_assoc hash_blocks_block)
  qed
qed

text \<open>The full blocks of a message and the octets after them.\<close>

definition full_part :: "bytes \<Rightarrow> bytes" where
  "full_part msg = take (64 * (length msg div 64)) msg"

definition rest_part :: "bytes \<Rightarrow> bytes" where
  "rest_part msg = drop (64 * (length msg div 64)) msg"

lemma parts: "full_part msg @ rest_part msg = msg"
  by (simp add: full_part_def rest_part_def)

lemma length_full [simp]: "length (full_part msg) = 64 * (length msg div 64)"
  by (simp add: full_part_def)

lemma length_rest [simp]: "length (rest_part msg) = length msg mod 64"
  by (simp add: rest_part_def minus_mult_div_eq_mod)

lemma hash_blocks_full: "hash_blocks f st (full_part msg) = hash_blocks f st msg"
proof -
  have "hash_blocks f st (full_part msg @ rest_part msg) = hash_blocks f (hash_blocks f st (full_part msg)) (rest_part msg)"
    by (rule hash_blocks_append) simp
  then show ?thesis by (simp add: parts)
qed

lemma hash_blocks_extend:
  "hash_blocks f st (msg @ d) = hash_blocks f (hash_blocks f st msg) (rest_part msg @ d)"
proof -
  have "msg @ d = full_part msg @ (rest_part msg @ d)" by (simp flip: append_assoc add: parts)
  moreover have "hash_blocks f st (full_part msg @ (rest_part msg @ d)) =
      hash_blocks f (hash_blocks f st msg) (rest_part msg @ d)"
    by (subst hash_blocks_append) (simp_all add: hash_blocks_full)
  ultimately show ?thesis by metis
qed

lemma rest_part_split:
  assumes "length a mod 64 = 0"
  shows "rest_part (a @ b) = rest_part b"
proof -
  obtain k where "length a = 64 * k" using assms by (auto simp: mod_eq_0_iff_dvd elim: dvdE)
  then show ?thesis by (simp add: rest_part_def)
qed

lemma rest_part_extend: "rest_part (msg @ d) = rest_part (rest_part msg @ d)"
proof -
  have "msg @ d = full_part msg @ (rest_part msg @ d)" by (simp flip: append_assoc add: parts)
  moreover have "rest_part (full_part msg @ (rest_part msg @ d)) = rest_part (rest_part msg @ d)"
    by (rule rest_part_split) simp
  ultimately show ?thesis by metis
qed

lemma rest_part_short [simp]: "length msg < 64 \<Longrightarrow> rest_part msg = msg"
  by (simp add: rest_part_def)

lemma rest_part_block [simp]: "length b = 64 \<Longrightarrow> rest_part (b @ msg) = rest_part msg"
  by (simp add: rest_part_split)

section \<open>Padding and length\<close>

text \<open>The padding of a message of \<open>n\<close> octets up to the place of the length field.\<close>

definition md_pad :: "nat \<Rightarrow> bytes" where
  "md_pad n = 0x80 # replicate ((119 - n mod 64) mod 64) 0"

lemma md_pad_length: "(n + length (md_pad n)) mod 64 = 56"
proof -
  define r where "r = n mod 64"
  have "(n + Suc ((119 - r) mod 64)) mod 64 = (r + Suc ((119 - r) mod 64)) mod 64"
    unfolding r_def by (metis mod_add_left_eq)
  moreover have "(r + Suc ((119 - r) mod 64)) mod 64 = 56"
  proof (cases "r \<le> 55")
    case True
    then have "119 - r = (55 - r) + 64" by simp
    then have "(119 - r) mod 64 = 55 - r" by (simp only: mod_add_self2) simp
    then show ?thesis using True by simp
  next
    case False
    moreover have "r < 64" by (simp add: r_def)
    ultimately have "(119 - r) mod 64 = 119 - r" "r + Suc (119 - r) = 120" by simp_all
    then show ?thesis by simp
  qed
  ultimately show ?thesis by (simp add: md_pad_def r_def)
qed

text \<open>The length in bits, kept in two words, low word first.\<close>

definition bit_count :: "u32 \<Rightarrow> u32 \<Rightarrow> nat \<Rightarrow> bool" where
  "bit_count lo hi n \<longleftrightarrow> (unat lo + 2 ^ 32 * unat hi) mod 2 ^ 64 = 8 * n mod 2 ^ 64"

lemma bit_count_zero [simp]: "bit_count 0 0 0"
  by (simp add: bit_count_def)

lemma bit_count_pos:
  assumes "bit_count lo hi n"
  shows "unat (drop_bit 3 lo AND 63) = n mod 64"
proof -
  have "unat lo mod 512 = (unat lo + 512 * (8388608 * unat hi)) mod 512" by (rule mod_mult_self2 [symmetric])
  also have "\<dots> = (unat lo + 2 ^ 32 * unat hi) mod 2 ^ 64 mod 512" by (simp add: mod_mod_cancel)
  also have "\<dots> = 8 * n mod 512" using assms by (simp add: bit_count_def mod_mod_cancel)
  finally have "unat lo mod 512 = 8 * (n mod 64)" by (simp add: mult_mod_right)
  then have "unat lo div 8 mod 64 = n mod 64"
    using mod_mult2_eq [of "unat lo" 8 64] mod_less_divisor [of 8 "unat lo"] by simp linarith
  moreover have "unat (drop_bit 3 lo AND 63) = unat lo div 8 mod 64"
  proof -
    have "(63 :: u32) = mask 6" by (simp add: mask_eq_exp_minus_1)
    then have "drop_bit 3 lo AND 63 = take_bit 6 (drop_bit 3 lo)" by (simp only: take_bit_eq_mask)
    then show ?thesis by (simp add: take_bit_eq_mod drop_bit_eq_div unat_div unat_mod)
  qed
  ultimately show ?thesis by simp
qed

lemma bit_count_add:
  fixes lo hi len :: u32
  assumes "bit_count lo hi n"
  defines "lo' \<equiv> lo + push_bit 3 len"
  shows "bit_count lo' ((if lo' < lo then hi + 1 else hi) + drop_bit 29 len) (n + unat len)"
proof -
  have p: "unat (push_bit 3 len) = 8 * unat len mod 2 ^ 32"
    by (simp add: push_bit_eq_mult unat_word_ariths mult.commute)
  have d: "unat (drop_bit 29 len) = unat len div 2 ^ 29"
    unfolding unat_drop_bit_eq by (simp add: drop_bit_eq_div)
  have l: "unat lo' = (unat lo + 8 * unat len mod 2 ^ 32) mod 2 ^ 32"
    by (simp add: lo'_def unat_word_ariths p)
  have lt: "unat lo < 2 ^ 32" "unat hi < 2 ^ 32" using unsigned_less [of lo] unsigned_less [of hi] by simp_all
  define q where "q = unat len div 2 ^ 29"
  define r where "r = 8 * unat len mod 2 ^ 32"
  define c where "c = (unat lo + r) div 2 ^ 32"
  have len: "8 * unat len = 2 ^ 32 * q + r"
  proof -
    have "8 * unat len div 2 ^ 32 = q" unfolding q_def by (simp add: div_mult2_eq [of "8 * unat len" 8 "2 ^ 29", simplified])
    then show ?thesis unfolding r_def by (metis mult_div_mod_eq)
  qed
  have rlt: "r < 2 ^ 32" by (simp add: r_def)
  have l': "unat lo' = (unat lo + r) mod 2 ^ 32" using l by (simp add: r_def)
  have cc: "c = (if lo' < lo then 1 else 0)"
  proof (cases "unat lo + r < 2 ^ 32")
    case True
    then show ?thesis using l' by (simp add: c_def word_less_nat_alt)
  next
    case False
    then have "(unat lo + r) div 2 ^ 32 = 1" using lt rlt by (intro div_nat_eqI) simp_all
    moreover have "(unat lo + r) mod 2 ^ 32 = unat lo + r - 2 ^ 32"
      using False lt rlt by (simp add: le_mod_geq)
    then have "unat lo' < unat lo" using l' rlt False by linarith
    ultimately show ?thesis by (simp add: c_def word_less_nat_alt)
  qed
  have h: "unat ((if lo' < lo then hi + 1 else hi) + drop_bit 29 len) = (unat hi + c + q) mod 2 ^ 32"
    by (simp add: unat_word_ariths d mod_simps cc q_def)
  have s: "unat lo' + 2 ^ 32 * c = unat lo + r"
    unfolding l' c_def by (metis add.commute mult_div_mod_eq)
  have m64: "(2 :: nat) ^ 32 * 2 ^ 32 = 2 ^ 64" by simp
  have "(unat lo' + 2 ^ 32 * unat ((if lo' < lo then hi + 1 else hi) + drop_bit 29 len)) mod 2 ^ 64 =
      (unat lo' + (2 ^ 32 * (unat hi + c + q)) mod (2 ^ 32 * 2 ^ 32)) mod 2 ^ 64"
    unfolding h by (simp only: mult_mod_right)
  also have "\<dots> = (unat lo' + 2 ^ 32 * (unat hi + c + q)) mod 2 ^ 64"
    unfolding m64 by (rule mod_add_right_eq)
  also have "\<dots> = (unat lo' + 2 ^ 32 * c + 2 ^ 32 * unat hi + 2 ^ 32 * q) mod 2 ^ 64"
    by (simp only: distrib_left add_ac)
  also have "\<dots> = (unat lo + 2 ^ 32 * unat hi + 8 * unat len) mod 2 ^ 64"
    unfolding s len by (simp add: algebra_simps)
  finally have e: "(unat lo' + 2 ^ 32 * unat ((if lo' < lo then hi + 1 else hi) + drop_bit 29 len)) mod 2 ^ 64 =
      (unat lo + 2 ^ 32 * unat hi + 8 * unat len) mod 2 ^ 64" .
  show ?thesis using assms(1) unfolding bit_count_def e by (metis distrib_left mod_add_left_eq)
qed

lemma bit_count_words:
  assumes "bit_count lo hi n"
  shows "lo = word_of_nat (8 * n)" "hi = word_of_nat (8 * n div 2 ^ 32)"
proof -
  let ?v = "unat lo + 2 ^ 32 * unat hi"
  have lt: "unat lo < 2 ^ 32" "unat hi < 2 ^ 32" using unsigned_less [of lo] unsigned_less [of hi] by simp_all
  then have "?v < 2 ^ 64" by simp
  then have v: "?v = 8 * n mod (2 ^ 32 * 2 ^ 32)" using assms by (simp add: bit_count_def)
  also have "\<dots> = 2 ^ 32 * (8 * n div 2 ^ 32 mod 2 ^ 32) + 8 * n mod 2 ^ 32" by (rule mod_mult2_eq)
  finally have e: "?v = 8 * n mod 2 ^ 32 + 2 ^ 32 * (8 * n div 2 ^ 32 mod 2 ^ 32)" by simp
  have "unat lo = ?v mod 2 ^ 32" "unat hi = ?v div 2 ^ 32" using lt by simp_all
  then have "unat lo = 8 * n mod 2 ^ 32" "unat hi = 8 * n div 2 ^ 32 mod 2 ^ 32"
    unfolding e by simp_all
  then show "lo = word_of_nat (8 * n)" "hi = word_of_nat (8 * n div 2 ^ 32)"
    by (simp_all only: word_unat_eq_iff unat_of_nat) simp_all
qed

lemma md_pad_cases:
  "md_pad n = (if n mod 64 < 56 then 0x80 # replicate (55 - n mod 64) 0 else 0x80 # replicate (119 - n mod 64) 0)"
proof (cases "n mod 64 < 56")
  case True
  then have "119 - n mod 64 = (55 - n mod 64) + 64" by simp
  then have "(119 - n mod 64) mod 64 = 55 - n mod 64" by (simp only: mod_add_self2) simp
  then show ?thesis using True by (simp add: md_pad_def)
next
  case False
  moreover have "n mod 64 < 64" by simp
  ultimately have "(119 - n mod 64) mod 64 = 119 - n mod 64" by simp
  then show ?thesis using False by (simp add: md_pad_def)
qed

text \<open>Writing the two words of the length field into the last block.\<close>

lemma overwrite_length_field:
  assumes "length a = 56" "length x = 4" "length y = 4" "length d = 8"
  shows "overwrite 60 y (overwrite 56 x (a @ d)) = a @ x @ y"
  using assms by (simp add: overwrite_def)

section \<open>The contract of an incremental hash\<close>

locale streaming_hash =
  fixes rep :: "'c \<Rightarrow> bytes \<Rightarrow> bool"
    and start :: 'c
    and update :: "'c \<Rightarrow> bytes \<Rightarrow> 'c"
    and finish :: "'c \<Rightarrow> bytes"
    and digest :: "bytes \<Rightarrow> bytes"
    and dlen :: nat
  assumes start_rep: "rep start []"
    and update_rep: "rep c msg \<Longrightarrow> length d + 64 < 2 ^ 32 \<Longrightarrow> rep (update c d) (msg @ d)"
    and finish_rep: "rep c msg \<Longrightarrow> finish c = digest msg"
    and digest_length: "length (digest msg) = dlen"
    and digest_short: "dlen < 64"
begin

lemma updates_rep:
  assumes "rep c msg" "\<forall>d \<in> set ds. length d + 64 < 2 ^ 32"
  shows "rep (foldl update c ds) (msg @ concat ds)"
  using assms
proof (induction ds arbitrary: c msg)
  case (Cons d ds)
  then show ?case using update_rep [of c msg d] Cons.IH [of "update c d" "msg @ d"] by simp
qed simp

lemma vector_digest:
  assumes "\<forall>d \<in> set ds. length d + 64 < 2 ^ 32"
  shows "finish (foldl update start ds) = digest (concat ds)"
  using finish_rep [OF updates_rep [OF start_rep assms]] by simp

end

end
