(* ===== verification/Md5.thy ===== *)
theory Md5
  imports Block_Hash
begin

text \<open>
  MD5 of \<^verbatim>\<open>src/crypto/md5-internal.c\<close> (with \<^verbatim>\<open>md5_i.h\<close>).  The context holds the chaining value, the
  two words of the bit count and the block buffer; \<^verbatim>\<open>byteReverse\<close> makes the words of the buffer
  little-endian on every host.  \<open>md5_digest\<close> is the definition of RFC 1321, and the incremental code is shown
  to compute it.
\<close>

section \<open>The code\<close>

type_synonym md5_state4 = "u32 \<times> u32 \<times> u32 \<times> u32"

record MD5Context =
  md5_buf :: md5_state4
  md5_bits0 :: u32
  md5_bits1 :: u32
  md5_in :: bytes

definition MD5_F1 :: "u32 \<Rightarrow> u32 \<Rightarrow> u32 \<Rightarrow> u32" where
  "MD5_F1 x y z = z XOR (x AND (y XOR z))"

definition MD5_F2 :: "u32 \<Rightarrow> u32 \<Rightarrow> u32 \<Rightarrow> u32" where
  "MD5_F2 x y z = MD5_F1 z x y"

definition MD5_F3 :: "u32 \<Rightarrow> u32 \<Rightarrow> u32 \<Rightarrow> u32" where
  "MD5_F3 x y z = x XOR y XOR z"

definition MD5_F4 :: "u32 \<Rightarrow> u32 \<Rightarrow> u32 \<Rightarrow> u32" where
  "MD5_F4 x y z = y XOR (x OR NOT z)"

definition MD5STEP :: "(u32 \<Rightarrow> u32 \<Rightarrow> u32 \<Rightarrow> u32) \<Rightarrow> u32 \<Rightarrow> u32 \<Rightarrow> u32 \<Rightarrow> u32 \<Rightarrow> u32 \<Rightarrow> nat \<Rightarrow> u32" where
  "MD5STEP f w x y z data s =
     (let w = w + (f x y z + data);
          w = push_bit s w OR drop_bit (32 - s) w
      in w + x)"

text \<open>The 64 steps of \<^verbatim>\<open>MD5Transform\<close>: function, word of the block, constant and shift.  The code names the
  registers of a step \<^verbatim>\<open>a,b,c,d\<close>, then \<^verbatim>\<open>d,a,b,c\<close>, \<^verbatim>\<open>c,d,a,b\<close>, \<^verbatim>\<open>b,c,d,a\<close> and so on: the registers rotate.\<close>

definition MD5_steps :: "((u32 \<Rightarrow> u32 \<Rightarrow> u32 \<Rightarrow> u32) \<times> nat \<times> u32 \<times> nat) list" where
  "MD5_steps =
     [(MD5_F1, 0, 0xd76aa478, 7), (MD5_F1, 1, 0xe8c7b756, 12), (MD5_F1, 2, 0x242070db, 17), (MD5_F1, 3, 0xc1bdceee, 22),
      (MD5_F1, 4, 0xf57c0faf, 7), (MD5_F1, 5, 0x4787c62a, 12), (MD5_F1, 6, 0xa8304613, 17), (MD5_F1, 7, 0xfd469501, 22),
      (MD5_F1, 8, 0x698098d8, 7), (MD5_F1, 9, 0x8b44f7af, 12), (MD5_F1, 10, 0xffff5bb1, 17), (MD5_F1, 11, 0x895cd7be, 22),
      (MD5_F1, 12, 0x6b901122, 7), (MD5_F1, 13, 0xfd987193, 12), (MD5_F1, 14, 0xa679438e, 17), (MD5_F1, 15, 0x49b40821, 22),
      (MD5_F2, 1, 0xf61e2562, 5), (MD5_F2, 6, 0xc040b340, 9), (MD5_F2, 11, 0x265e5a51, 14), (MD5_F2, 0, 0xe9b6c7aa, 20),
      (MD5_F2, 5, 0xd62f105d, 5), (MD5_F2, 10, 0x02441453, 9), (MD5_F2, 15, 0xd8a1e681, 14), (MD5_F2, 4, 0xe7d3fbc8, 20),
      (MD5_F2, 9, 0x21e1cde6, 5), (MD5_F2, 14, 0xc33707d6, 9), (MD5_F2, 3, 0xf4d50d87, 14), (MD5_F2, 8, 0x455a14ed, 20),
      (MD5_F2, 13, 0xa9e3e905, 5), (MD5_F2, 2, 0xfcefa3f8, 9), (MD5_F2, 7, 0x676f02d9, 14), (MD5_F2, 12, 0x8d2a4c8a, 20),
      (MD5_F3, 5, 0xfffa3942, 4), (MD5_F3, 8, 0x8771f681, 11), (MD5_F3, 11, 0x6d9d6122, 16), (MD5_F3, 14, 0xfde5380c, 23),
      (MD5_F3, 1, 0xa4beea44, 4), (MD5_F3, 4, 0x4bdecfa9, 11), (MD5_F3, 7, 0xf6bb4b60, 16), (MD5_F3, 10, 0xbebfbc70, 23),
      (MD5_F3, 13, 0x289b7ec6, 4), (MD5_F3, 0, 0xeaa127fa, 11), (MD5_F3, 3, 0xd4ef3085, 16), (MD5_F3, 6, 0x04881d05, 23),
      (MD5_F3, 9, 0xd9d4d039, 4), (MD5_F3, 12, 0xe6db99e5, 11), (MD5_F3, 15, 0x1fa27cf8, 16), (MD5_F3, 2, 0xc4ac5665, 23),
      (MD5_F4, 0, 0xf4292244, 6), (MD5_F4, 7, 0x432aff97, 10), (MD5_F4, 14, 0xab9423a7, 15), (MD5_F4, 5, 0xfc93a039, 21),
      (MD5_F4, 12, 0x655b59c3, 6), (MD5_F4, 3, 0x8f0ccc92, 10), (MD5_F4, 10, 0xffeff47d, 15), (MD5_F4, 1, 0x85845dd1, 21),
      (MD5_F4, 8, 0x6fa87e4f, 6), (MD5_F4, 15, 0xfe2ce6e0, 10), (MD5_F4, 6, 0xa3014314, 15), (MD5_F4, 13, 0x4e0811a1, 21),
      (MD5_F4, 4, 0xf7537e82, 6), (MD5_F4, 11, 0xbd3af235, 10), (MD5_F4, 2, 0x2ad7d2bb, 15), (MD5_F4, 9, 0xeb86d391, 21)]"

fun MD5_step :: "bytes \<Rightarrow> (u32 \<Rightarrow> u32 \<Rightarrow> u32 \<Rightarrow> u32) \<times> nat \<times> u32 \<times> nat \<Rightarrow> md5_state4 \<Rightarrow> md5_state4" where
  "MD5_step blk (f, i, k, s) (w, x, y, z) =
     (z, MD5STEP f w x y z (WPA_GET_LE32 (drop (4 * i) blk) + k) s, x, y)"

definition MD5Transform :: "md5_state4 \<Rightarrow> bytes \<Rightarrow> md5_state4" where
  "MD5Transform buf blk =
     (case (buf, fold (MD5_step blk) MD5_steps buf) of
        ((b0, b1, b2, b3), (a, b, c, d)) \<Rightarrow> (b0 + a, b1 + b, b2 + c, b3 + d))"

definition MD5Init :: MD5Context where
  "MD5Init = \<lparr>md5_buf = (0x67452301, 0xefcdab89, 0x98badcfe, 0x10325476), md5_bits0 = 0, md5_bits1 = 0,
     md5_in = replicate 64 0\<rparr>"

text \<open>The loop over full blocks; every block is copied into the buffer first.\<close>

function md5_block_loop :: "MD5Context \<Rightarrow> bytes \<Rightarrow> MD5Context \<times> bytes" where
  "md5_block_loop ctx buf =
     (if length buf \<ge> 64 then
        let ctx = ctx\<lparr>md5_in := overwrite 0 (take 64 buf) (md5_in ctx)\<rparr>
        in md5_block_loop (ctx\<lparr>md5_buf := MD5Transform (md5_buf ctx) (md5_in ctx)\<rparr>) (drop 64 buf)
      else (ctx, buf))"
  by auto
termination by (relation "measure (\<lambda>(ctx, buf). length buf)") auto

declare md5_block_loop.simps [simp del]

definition md5_update_blocks :: "MD5Context \<Rightarrow> bytes \<Rightarrow> MD5Context" where
  "md5_update_blocks ctx buf =
     (let (ctx, buf) = md5_block_loop ctx buf in ctx\<lparr>md5_in := overwrite 0 buf (md5_in ctx)\<rparr>)"

definition MD5Update :: "MD5Context \<Rightarrow> bytes \<Rightarrow> MD5Context" where
  "MD5Update ctx buf =
     (let len = (word_of_nat (length buf) :: u32);
          t = md5_bits0 ctx;
          ctx = ctx\<lparr>md5_bits0 := t + push_bit 3 len\<rparr>;
          ctx = (if md5_bits0 ctx < t then ctx\<lparr>md5_bits1 := md5_bits1 ctx + 1\<rparr> else ctx);
          ctx = ctx\<lparr>md5_bits1 := md5_bits1 ctx + drop_bit 29 len\<rparr>;
          t = unat (drop_bit 3 t AND 0x3f) in
      if t \<noteq> 0 then
        let p = t; t = 64 - t in
        if length buf < t then ctx\<lparr>md5_in := overwrite p buf (md5_in ctx)\<rparr>
        else
          let ctx = ctx\<lparr>md5_in := overwrite p (take t buf) (md5_in ctx)\<rparr>;
              ctx = ctx\<lparr>md5_buf := MD5Transform (md5_buf ctx) (md5_in ctx)\<rparr>
          in md5_update_blocks ctx (drop t buf)
      else md5_update_blocks ctx buf)"

text \<open>The final block; the result is the digest and the context afterwards.  The last statement of the C
  function clears \<^verbatim>\<open>sizeof(ctx)\<close> octets, the size of the pointer, which is one word of the chaining value.\<close>

definition md5_output :: "md5_state4 \<Rightarrow> bytes" where
  "md5_output buf =
     (case buf of (a, b, c, d) \<Rightarrow> WPA_PUT_LE32 a @ WPA_PUT_LE32 b @ WPA_PUT_LE32 c @ WPA_PUT_LE32 d)"

definition MD5Final :: "MD5Context \<Rightarrow> bytes \<times> MD5Context" where
  "MD5Final ctx =
     (let count = unat (drop_bit 3 (md5_bits0 ctx) AND 0x3F);
          p = count;
          ctx = ctx\<lparr>md5_in := overwrite p [0x80] (md5_in ctx)\<rparr>;
          p = p + 1;
          count = 64 - 1 - count;
          ctx = (if count < 8 then
                   let ctx = ctx\<lparr>md5_in := overwrite p (replicate count 0) (md5_in ctx)\<rparr>;
                       ctx = ctx\<lparr>md5_buf := MD5Transform (md5_buf ctx) (md5_in ctx)\<rparr>
                   in ctx\<lparr>md5_in := overwrite 0 (replicate 56 0) (md5_in ctx)\<rparr>
                 else ctx\<lparr>md5_in := overwrite p (replicate (count - 8) 0) (md5_in ctx)\<rparr>);
          ctx = ctx\<lparr>md5_in := overwrite 56 (WPA_PUT_LE32 (md5_bits0 ctx)) (md5_in ctx)\<rparr>;
          ctx = ctx\<lparr>md5_in := overwrite 60 (WPA_PUT_LE32 (md5_bits1 ctx)) (md5_in ctx)\<rparr>;
          ctx = ctx\<lparr>md5_buf := MD5Transform (md5_buf ctx) (md5_in ctx)\<rparr>
      in (md5_output (md5_buf ctx),
          ctx\<lparr>md5_buf := (case md5_buf ctx of (a, b, c, d) \<Rightarrow> (0, b, c, d))\<rparr>))"

definition md5_vector :: "bytes list \<Rightarrow> bytes" where
  "md5_vector addr = fst (MD5Final (foldl MD5Update MD5Init addr))"

section \<open>The definition of RFC 1321\<close>

definition md5_length_field :: "nat \<Rightarrow> bytes" where
  "md5_length_field n = WPA_PUT_LE32 (word_of_nat (8 * n)) @ WPA_PUT_LE32 (word_of_nat (8 * n div 2 ^ 32))"

definition md5_digest :: "bytes \<Rightarrow> bytes" where
  "md5_digest msg =
     md5_output (hash_blocks MD5Transform (0x67452301, 0xefcdab89, 0x98badcfe, 0x10325476)
       (msg @ md_pad (length msg) @ md5_length_field (length msg)))"

section \<open>The code computes the definition\<close>

definition md5_rep :: "MD5Context \<Rightarrow> bytes \<Rightarrow> bool" where
  "md5_rep ctx msg \<longleftrightarrow>
     md5_buf ctx = hash_blocks MD5Transform (md5_buf MD5Init) msg \<and>
     length (md5_in ctx) = 64 \<and> take (length msg mod 64) (md5_in ctx) = rest_part msg \<and>
     bit_count (md5_bits0 ctx) (md5_bits1 ctx) (length msg)"

lemma md5_block_loop_spec:
  "length (md5_in ctx) = 64 \<Longrightarrow>
   (case md5_block_loop ctx buf of (ctx', buf') \<Rightarrow>
      md5_buf ctx' = hash_blocks MD5Transform (md5_buf ctx) buf \<and> length (md5_in ctx') = 64 \<and>
      md5_bits0 ctx' = md5_bits0 ctx \<and> md5_bits1 ctx' = md5_bits1 ctx \<and> buf' = rest_part buf)"
proof (induction ctx buf rule: md5_block_loop.induct)
  case (1 ctx buf)
  show ?case
  proof (cases "length buf \<ge> 64")
    case True
    let ?c = "ctx\<lparr>md5_in := overwrite 0 (take 64 buf) (md5_in ctx)\<rparr>"
    have i: "md5_in ?c = take 64 buf" using 1(2) True by (simp add: overwrite_def)
    have b: "buf = take 64 buf @ drop 64 buf" by simp
    have h: "hash_blocks MD5Transform (md5_buf ctx) buf =
        hash_blocks MD5Transform (MD5Transform (md5_buf ctx) (take 64 buf)) (drop 64 buf)"
      using True by (subst b, subst hash_blocks_block) simp_all
    have r: "rest_part buf = rest_part (drop 64 buf)"
      using True by (subst b, subst rest_part_block) simp_all
    show ?thesis
      using 1(1) [OF True refl] True i 1(2) by (subst md5_block_loop.simps) (simp add: h r Let_def split: prod.split)
  next
    case False
    then show ?thesis using 1(2) by (subst md5_block_loop.simps) simp
  qed
qed

lemma md5_update_blocks_spec:
  assumes "length (md5_in ctx) = 64"
  shows "md5_buf (md5_update_blocks ctx buf) = hash_blocks MD5Transform (md5_buf ctx) buf"
    "length (md5_in (md5_update_blocks ctx buf)) = 64"
    "take (length buf mod 64) (md5_in (md5_update_blocks ctx buf)) = rest_part buf"
    "md5_bits0 (md5_update_blocks ctx buf) = md5_bits0 ctx" "md5_bits1 (md5_update_blocks ctx buf) = md5_bits1 ctx"
  using md5_block_loop_spec [OF assms, of buf] length_rest [of buf]
  by (simp_all add: md5_update_blocks_def overwrite_def split: prod.split_asm prod.split)

lemma md5_update_rep:
  assumes rep: "md5_rep ctx msg" and len: "length buf + 64 < 2 ^ 32"
  shows "md5_rep (MD5Update ctx buf) (msg @ buf)"
proof -
  let ?len = "word_of_nat (length buf) :: u32"
  define p where "p = length msg mod 64"
  define c1 where "c1 = ctx\<lparr>md5_bits0 := md5_bits0 ctx + push_bit 3 ?len,
    md5_bits1 := (if md5_bits0 ctx + push_bit 3 ?len < md5_bits0 ctx then md5_bits1 ctx + 1 else md5_bits1 ctx) +
      drop_bit 29 ?len\<rparr>"
  have n: "unat ?len = length buf" using len by (simp add: unat_of_nat)
  have r: "md5_buf ctx = hash_blocks MD5Transform (md5_buf MD5Init) msg" "length (md5_in ctx) = 64"
    "take p (md5_in ctx) = rest_part msg" "bit_count (md5_bits0 ctx) (md5_bits1 ctx) (length msg)"
    using rep by (simp_all add: md5_rep_def p_def)
  have pos: "unat (drop_bit 3 (md5_bits0 ctx) AND 0x3f) = p" using bit_count_pos [OF r(4)] by (simp add: p_def)
  have bits: "bit_count (md5_bits0 c1) (md5_bits1 c1) (length (msg @ buf))"
    using bit_count_add [OF r(4), of ?len] by (simp add: n c1_def)
  have plt: "p < 64" "length (rest_part msg) = p" by (simp_all add: p_def)
  have c1: "md5_buf c1 = md5_buf ctx" "md5_in c1 = md5_in ctx" by (simp_all add: c1_def)
  have upd: "MD5Update ctx buf =
      (if p \<noteq> 0 then
         (if length buf < 64 - p then c1\<lparr>md5_in := overwrite p buf (md5_in c1)\<rparr>
          else md5_update_blocks (c1\<lparr>md5_in := overwrite p (take (64 - p) buf) (md5_in c1),
            md5_buf := MD5Transform (md5_buf c1) (overwrite p (take (64 - p) buf) (md5_in c1))\<rparr>) (drop (64 - p) buf))
       else md5_update_blocks c1 buf)"
    by (simp add: MD5Update_def Let_def pos c1_def)
  have ext: "hash_blocks MD5Transform (md5_buf MD5Init) (msg @ buf) =
      hash_blocks MD5Transform (md5_buf ctx) (rest_part msg @ buf)" "rest_part (msg @ buf) = rest_part (rest_part msg @ buf)"
    "length (msg @ buf) mod 64 = length (rest_part msg @ buf) mod 64"
    using hash_blocks_extend [of MD5Transform "md5_buf MD5Init" msg buf] rest_part_extend [of msg buf] r(1)
    by (simp_all add: mod_simps)
  consider "p = 0" | "p \<noteq> 0" "length buf < 64 - p" | "p \<noteq> 0" "64 - p \<le> length buf" by linarith
  then show ?thesis
  proof cases
    case 1
    then have "rest_part msg = []" using plt(2) by (metis length_0_conv)
    then show ?thesis using 1 md5_update_blocks_spec [of c1 buf] r c1 bits ext upd by (simp add: md5_rep_def)
  next
    case 2
    have "overwrite p buf (md5_in ctx) = rest_part msg @ buf @ drop (p + length buf) (md5_in ctx)"
      using r(3) by (simp add: overwrite_def)
    then show ?thesis using 2 r c1 bits ext upd plt by (simp add: md5_rep_def)
  next
    case 3
    have in1: "overwrite p (take (64 - p) buf) (md5_in ctx) = rest_part msg @ take (64 - p) buf"
      using 3 r(2,3) plt by (simp add: overwrite_def)
    define b where "b = rest_part msg @ take (64 - p) buf"
    have b: "length b = 64" "rest_part msg @ buf = b @ drop (64 - p) buf" using 3 plt by (simp_all add: b_def)
    define c2 where "c2 = c1\<lparr>md5_in := b, md5_buf := MD5Transform (md5_buf ctx) b\<rparr>"
    have "MD5Update ctx buf = md5_update_blocks c2 (drop (64 - p) buf)"
      using 3 upd in1 c1 by (simp add: c2_def b_def)
    then show ?thesis
      using md5_update_blocks_spec [of c2 "drop (64 - p) buf"] b bits ext
      by (simp add: md5_rep_def c2_def)
  qed
qed

lemma md5_final_rep:
  assumes rep: "md5_rep ctx msg"
  shows "fst (MD5Final ctx) = md5_digest msg"
proof -
  define p where "p = length msg mod 64"
  have r: "md5_buf ctx = hash_blocks MD5Transform (md5_buf MD5Init) msg" "length (md5_in ctx) = 64"
    "take p (md5_in ctx) = rest_part msg" "bit_count (md5_bits0 ctx) (md5_bits1 ctx) (length msg)"
    using rep by (simp_all add: md5_rep_def p_def)
  have pos: "unat (drop_bit 3 (md5_bits0 ctx) AND 0x3f) = p" using bit_count_pos [OF r(4)] by (simp add: p_def)
  have plt: "p < 64" "length (rest_part msg) = p" by (simp_all add: p_def)
  define lf where "lf = WPA_PUT_LE32 (md5_bits0 ctx) @ WPA_PUT_LE32 (md5_bits1 ctx)"
  have lf: "md5_length_field (length msg) = lf" "length lf = 8"
    using bit_count_words [OF r(4)] by (simp_all add: md5_length_field_def lf_def)
  have dig: "md5_digest msg = md5_output (hash_blocks MD5Transform (md5_buf ctx)
      (rest_part msg @ md_pad (length msg) @ lf))"
    using hash_blocks_extend [of MD5Transform "md5_buf MD5Init" msg] r(1)
    by (simp add: md5_digest_def lf MD5Init_def)
  define i1 where "i1 = rest_part msg @ [0x80] @ drop (p + 1) (md5_in ctx)"
  have i1: "overwrite p [0x80] (md5_in ctx) = i1" "length i1 = 64"
    using r(2,3) plt by (simp_all add: overwrite_def i1_def)
  show ?thesis
  proof (cases "p < 56")
    case True
    have pad: "md_pad (length msg) = 0x80 # replicate (55 - p) 0" using True by (simp add: md_pad_cases p_def)
    have i2: "overwrite (p + 1) (replicate (63 - p - 8) 0) i1 = rest_part msg @ md_pad (length msg) @ drop 56 i1"
      using True plt by (simp add: overwrite_def i1_def pad)
    have l: "length (rest_part msg @ md_pad (length msg)) = 56" using True plt by (simp add: pad)
    have "fst (MD5Final ctx) = md5_output (MD5Transform (md5_buf ctx) (rest_part msg @ md_pad (length msg) @ lf))"
    proof -
      have "\<not> 63 - p < 8" "length (drop 56 i1) = 8" using True i1 by simp_all
      then show ?thesis
        using pos i1 i2 l overwrite_length_field [OF l, of "WPA_PUT_LE32 (md5_bits0 ctx)" "WPA_PUT_LE32 (md5_bits1 ctx)"
            "drop 56 i1"]
        by (simp add: MD5Final_def Let_def lf_def)
    qed
    then show ?thesis using dig l lf by simp
  next
    case False
    have pad: "md_pad (length msg) = (0x80 # replicate (63 - p) 0) @ replicate 56 0"
      using False plt by (simp add: md_pad_cases p_def flip: replicate_add)
    define b where "b = rest_part msg @ 0x80 # replicate (63 - p) 0"
    have b: "length b = 64" using plt by (simp add: b_def)
    have i2: "overwrite (p + 1) (replicate (63 - p) 0) i1 = b"
      using False plt r(2) by (simp add: overwrite_def i1_def b_def)
    have "fst (MD5Final ctx) = md5_output (MD5Transform (MD5Transform (md5_buf ctx) b) (replicate 56 0 @ lf))"
    proof -
      have "63 - p < 8" "overwrite 0 (replicate 56 0) b = replicate 56 0 @ drop 56 b" "length (drop 56 b) = 8"
        using False b by (simp_all add: overwrite_def)
      then show ?thesis
        using pos i1 i2 overwrite_length_field [of "replicate 56 0" "WPA_PUT_LE32 (md5_bits0 ctx)"
            "WPA_PUT_LE32 (md5_bits1 ctx)" "drop 56 b"]
        by (simp add: MD5Final_def Let_def lf_def)
    qed
    moreover have e: "rest_part msg @ md_pad (length msg) @ lf = b @ replicate 56 0 @ lf" by (simp add: pad b_def)
    ultimately show ?thesis unfolding dig e using b lf by simp
  qed
qed

interpretation md5: streaming_hash md5_rep MD5Init MD5Update "\<lambda>c. fst (MD5Final c)" md5_digest 16
proof
  show "md5_rep MD5Init []" by (simp add: md5_rep_def MD5Init_def)
  show "length (md5_digest msg) = 16" for msg
    by (simp add: md5_digest_def md5_output_def split: prod.split)
qed (simp_all add: md5_update_rep md5_final_rep)



end
