(* ===== verification/Sha1.thy ===== *)
theory Sha1
  imports Block_Hash
begin

text \<open>
  SHA-1 of \<^verbatim>\<open>src/crypto/sha1-internal.c\<close> (with \<^verbatim>\<open>sha1_i.h\<close>).  The transformation expands the message
  schedule in place, in a window of sixteen words that it uses as a ring; the reference definition is the schedule
  of FIPS 180-1 with all eighty words.  The words of a block are read little-endian, as the usual host does, and
  \<^verbatim>\<open>blk0\<close> swaps their octets.
\<close>

section \<open>The code\<close>

type_synonym sha1_state5 = "u32 \<times> u32 \<times> u32 \<times> u32 \<times> u32"

record SHA1Context =
  sha1_state :: sha1_state5
  sha1_count0 :: u32
  sha1_count1 :: u32
  sha1_buffer :: bytes

definition rol :: "u32 \<Rightarrow> nat \<Rightarrow> u32" where
  "rol value bits = push_bit bits value OR drop_bit (32 - bits) value"

definition blk0 :: "u32 list \<Rightarrow> nat \<Rightarrow> u32 list" where
  "blk0 l i = l[i := (rol (l ! i) 24 AND 0xFF00FF00) OR (rol (l ! i) 8 AND 0x00FF00FF)]"

definition blk :: "u32 list \<Rightarrow> nat \<Rightarrow> u32 list" where
  "blk l i = l[i mod 16 :=
     rol (l ! ((i + 13) mod 16) XOR l ! ((i + 8) mod 16) XOR l ! ((i + 2) mod 16) XOR l ! (i mod 16)) 1]"

text \<open>The operations \<^verbatim>\<open>R0\<close> to \<^verbatim>\<open>R4\<close>.  The registers of a round are \<^verbatim>\<open>v,w,x,y,z\<close>; they rotate from round to
  round, so the round ends with \<^verbatim>\<open>z\<close> in front.\<close>

definition sha1_R :: "(u32 \<Rightarrow> u32 \<Rightarrow> u32 \<Rightarrow> u32) \<Rightarrow> u32 \<Rightarrow> u32 \<Rightarrow> sha1_state5 \<Rightarrow> sha1_state5" where
  "sha1_R f k word st =
     (case st of (v, w, x, y, z) \<Rightarrow> (z + (f w x y + word + k + rol v 5), v, rol w 30, x, y))"

definition sha1_ch :: "u32 \<Rightarrow> u32 \<Rightarrow> u32 \<Rightarrow> u32" where
  "sha1_ch w x y = (w AND (x XOR y)) XOR y"

definition sha1_parity :: "u32 \<Rightarrow> u32 \<Rightarrow> u32 \<Rightarrow> u32" where
  "sha1_parity w x y = w XOR x XOR y"

definition sha1_maj :: "u32 \<Rightarrow> u32 \<Rightarrow> u32 \<Rightarrow> u32" where
  "sha1_maj w x y = ((w OR x) AND y) OR (w AND x)"

definition sha1_round :: "nat \<Rightarrow> u32 list \<times> sha1_state5 \<Rightarrow> u32 list \<times> sha1_state5" where
  "sha1_round i lst =
     (let (l, st) = lst;
          l = (if i < 16 then blk0 l i else blk l i);
          word = l ! (i mod 16) in
      (l, if i < 20 then sha1_R sha1_ch 0x5A827999 word st
          else if i < 40 then sha1_R sha1_parity 0x6ED9EBA1 word st
          else if i < 60 then sha1_R sha1_maj 0x8F1BBCDC word st
          else sha1_R sha1_parity 0xCA62C1D6 word st))"

definition words_le :: "bytes \<Rightarrow> u32 list" where
  "words_le buffer = map (\<lambda>i. WPA_GET_LE32 (drop (4 * i) buffer)) [0..<16]"

definition add5 :: "sha1_state5 \<Rightarrow> sha1_state5 \<Rightarrow> sha1_state5" where
  "add5 s t = (case (s, t) of ((s0, s1, s2, s3, s4), (a, b, c, d, e)) \<Rightarrow> (s0 + a, s1 + b, s2 + c, s3 + d, s4 + e))"

definition SHA1Transform :: "sha1_state5 \<Rightarrow> bytes \<Rightarrow> sha1_state5" where
  "SHA1Transform state buffer =
     (case fold sha1_round [0..<80] (words_le buffer, state) of (_, st) \<Rightarrow> add5 state st)"

definition SHA1Init :: SHA1Context where
  "SHA1Init = \<lparr>sha1_state = (0x67452301, 0xEFCDAB89, 0x98BADCFE, 0x10325476, 0xC3D2E1F0),
     sha1_count0 = 0, sha1_count1 = 0, sha1_buffer = replicate 64 0\<rparr>"

text \<open>The loop of \<^verbatim>\<open>SHA1Update\<close> over full blocks of the data, from the index \<open>i\<close> on; the last index is returned.\<close>

function sha1_data_loop :: "sha1_state5 \<Rightarrow> bytes \<Rightarrow> nat \<Rightarrow> sha1_state5 \<times> nat" where
  "sha1_data_loop st data i =
     (if i + 63 < length data
      then sha1_data_loop (SHA1Transform st (take 64 (drop i data))) data (i + 64) else (st, i))"
  by auto
termination by (relation "measure (\<lambda>(st, data, i). length data - i)") auto

declare sha1_data_loop.simps [simp del]

definition SHA1Update :: "SHA1Context \<Rightarrow> bytes \<Rightarrow> SHA1Context" where
  "SHA1Update ctx data =
     (let len = (word_of_nat (length data) :: u32);
          j = unat (drop_bit 3 (sha1_count0 ctx) AND 63);
          ctx = ctx\<lparr>sha1_count0 := sha1_count0 ctx + push_bit 3 len\<rparr>;
          ctx = (if sha1_count0 ctx < push_bit 3 len then ctx\<lparr>sha1_count1 := sha1_count1 ctx + 1\<rparr> else ctx);
          ctx = ctx\<lparr>sha1_count1 := sha1_count1 ctx + drop_bit 29 len\<rparr> in
      if word_of_nat j + len > 63 then
        let i = 64 - j;
            ctx = ctx\<lparr>sha1_buffer := overwrite j (take i data) (sha1_buffer ctx)\<rparr>;
            ctx = ctx\<lparr>sha1_state := SHA1Transform (sha1_state ctx) (sha1_buffer ctx)\<rparr>;
            (st, i) = sha1_data_loop (sha1_state ctx) data i;
            ctx = ctx\<lparr>sha1_state := st\<rparr>
        in ctx\<lparr>sha1_buffer := overwrite 0 (drop i data) (sha1_buffer ctx)\<rparr>
      else ctx\<lparr>sha1_buffer := overwrite j data (sha1_buffer ctx)\<rparr>)"

text \<open>The loop of \<^verbatim>\<open>SHA1Final\<close> that appends zero octets; the first argument bounds the iterations.\<close>

fun sha1_pad_loop :: "nat \<Rightarrow> SHA1Context \<Rightarrow> SHA1Context option" where
  "sha1_pad_loop 0 ctx = None"
| "sha1_pad_loop (Suc n) ctx =
     (if sha1_count0 ctx AND 504 \<noteq> 448 then sha1_pad_loop n (SHA1Update ctx [0]) else Some ctx)"

definition sha1_output :: "sha1_state5 \<Rightarrow> bytes" where
  "sha1_output st =
     (case st of (a, b, c, d, e) \<Rightarrow>
        WPA_PUT_BE32 a @ WPA_PUT_BE32 b @ WPA_PUT_BE32 c @ WPA_PUT_BE32 d @ WPA_PUT_BE32 e)"

definition SHA1Final :: "SHA1Context \<Rightarrow> bytes option" where
  "SHA1Final ctx =
     (let finalcount = WPA_PUT_BE32 (sha1_count1 ctx) @ WPA_PUT_BE32 (sha1_count0 ctx);
          ctx = SHA1Update ctx [0x80] in
      case sha1_pad_loop 64 ctx of
        None \<Rightarrow> None
      | Some ctx \<Rightarrow> Some (sha1_output (sha1_state (SHA1Update ctx finalcount))))"

definition sha1_vector :: "bytes list \<Rightarrow> bytes option" where
  "sha1_vector addr = SHA1Final (foldl SHA1Update SHA1Init addr)"

section \<open>The definition of FIPS 180-1\<close>

text \<open>The message schedule: the words of the block, then sixty-four derived ones.\<close>

fun schedule_ext :: "nat \<Rightarrow> u32 list \<Rightarrow> u32 list" where
  "schedule_ext 0 W = W"
| "schedule_ext (Suc n) W =
     (let t = length W
      in schedule_ext n (W @ [rol (W ! (t - 3) XOR W ! (t - 8) XOR W ! (t - 14) XOR W ! (t - 16)) 1]))"

definition words_be :: "bytes \<Rightarrow> u32 list" where
  "words_be M = map (\<lambda>i. WPA_GET_BE32 (drop (4 * i) M)) [0..<16]"

definition sha1_schedule :: "bytes \<Rightarrow> u32 list" where
  "sha1_schedule M = schedule_ext 64 (words_be M)"

definition fips_f :: "nat \<Rightarrow> u32 \<Rightarrow> u32 \<Rightarrow> u32 \<Rightarrow> u32" where
  "fips_f t B C D =
     (if t < 20 then (B AND C) OR (NOT B AND D)
      else if t < 40 then B XOR C XOR D
      else if t < 60 then (B AND C) OR (B AND D) OR (C AND D)
      else B XOR C XOR D)"

definition fips_K :: "nat \<Rightarrow> u32" where
  "fips_K t = (if t < 20 then 0x5A827999 else if t < 40 then 0x6ED9EBA1 else if t < 60 then 0x8F1BBCDC else 0xCA62C1D6)"

definition fips_round :: "u32 list \<Rightarrow> nat \<Rightarrow> sha1_state5 \<Rightarrow> sha1_state5" where
  "fips_round W t st =
     (case st of (A, B, C, D, E) \<Rightarrow> (rol A 5 + fips_f t B C D + E + W ! t + fips_K t, A, rol B 30, C, D))"

definition sha1_block :: "sha1_state5 \<Rightarrow> bytes \<Rightarrow> sha1_state5" where
  "sha1_block H M = add5 H (fold (fips_round (sha1_schedule M)) [0..<80] H)"

definition sha1_length_field :: "nat \<Rightarrow> bytes" where
  "sha1_length_field n = WPA_PUT_BE32 (word_of_nat (8 * n div 2 ^ 32)) @ WPA_PUT_BE32 (word_of_nat (8 * n))"

definition sha1_digest :: "bytes \<Rightarrow> bytes" where
  "sha1_digest msg =
     sha1_output (hash_blocks sha1_block (0x67452301, 0xEFCDAB89, 0x98BADCFE, 0x10325476, 0xC3D2E1F0)
       (msg @ md_pad (length msg) @ sha1_length_field (length msg)))"

section \<open>The transformation computes the rounds of the standard\<close>

lemma octet_bit: "bit (x :: u8) n \<Longrightarrow> n < 8"
  using bit_imp_le_length [of x n] by simp

lemma swap_le:
  "(rol (WPA_GET_LE32 b) 24 AND 0xFF00FF00) OR (rol (WPA_GET_LE32 b) 8 AND 0x00FF00FF) = WPA_GET_BE32 b"
proof -
  have m: "(0xFF00FF00 :: u32) = push_bit 8 (mask 8) OR push_bit 24 (mask 8)" "(0x00FF00FF :: u32) = mask 8 OR push_bit 16 (mask 8)"
    by (simp_all add: mask_eq_exp_minus_1)
  show ?thesis
  proof (rule bit_word_eqI)
    fix n assume "n < LENGTH(32)"
    then consider "n < 8" | "8 \<le> n" "n < 16" | "16 \<le> n" "n < 24" | "24 \<le> n" "n < 32" by fastforce
    then show "bit ((rol (WPA_GET_LE32 b) 24 AND 0xFF00FF00) OR (rol (WPA_GET_LE32 b) 8 AND 0x00FF00FF)) n =
        bit (WPA_GET_BE32 b) n"
      unfolding m rol_def WPA_GET_LE32_def WPA_GET_BE32_def
      by cases (auto simp: bit_simps dest: octet_bit)
  qed
qed

lemma sha1_functions:
  "sha1_ch B C D = (B AND C) OR (NOT B AND D)"
  "sha1_maj B C D = (B AND C) OR (B AND D) OR (C AND D)"
  by (rule bit_word_eqI; auto simp: sha1_ch_def sha1_maj_def bit_simps)+

lemma schedule_ext_length [simp]: "length (schedule_ext n W) = length W + n"
  by (induction n arbitrary: W) (simp_all add: Let_def)

lemma schedule_ext_old: "i < length W \<Longrightarrow> schedule_ext n W ! i = W ! i"
  by (induction n arbitrary: W) (simp_all add: Let_def nth_append)

lemma schedule_ext_new:
  "\<lbrakk>length W \<le> t; t < length W + n; 16 \<le> length W\<rbrakk> \<Longrightarrow>
   schedule_ext n W ! t = rol (schedule_ext n W ! (t - 3) XOR schedule_ext n W ! (t - 8) XOR
     schedule_ext n W ! (t - 14) XOR schedule_ext n W ! (t - 16)) 1"
proof (induction n arbitrary: W)
  case (Suc n)
  let ?W = "W @ [rol (W ! (length W - 3) XOR W ! (length W - 8) XOR W ! (length W - 14) XOR W ! (length W - 16)) 1]"
  show ?case
  proof (cases "t = length W")
    case True
    then show ?thesis using Suc.prems schedule_ext_old [of _ ?W n] by (simp add: Let_def nth_append)
  next
    case False
    then show ?thesis using Suc.prems Suc.IH [of ?W] by (simp add: Let_def)
  qed
qed simp

lemma schedule_first: "i < 16 \<Longrightarrow> sha1_schedule M ! i = WPA_GET_BE32 (drop (4 * i) M)"
  using schedule_ext_old [of i "words_be M" 64] by (simp add: sha1_schedule_def words_be_def)

lemma schedule_next:
  "16 \<le> t \<Longrightarrow> t < 80 \<Longrightarrow>
   sha1_schedule M ! t = rol (sha1_schedule M ! (t - 3) XOR sha1_schedule M ! (t - 8) XOR
     sha1_schedule M ! (t - 14) XOR sha1_schedule M ! (t - 16)) 1"
  using schedule_ext_new [of "words_be M" t 64] by (simp add: sha1_schedule_def words_be_def)

text \<open>The ring after \<open>t\<close> rounds: it holds the last sixteen words of the schedule.\<close>

definition ring_ok :: "bytes \<Rightarrow> nat \<Rightarrow> u32 list \<Rightarrow> bool" where
  "ring_ok M t l \<longleftrightarrow> length l = 16 \<and>
     (\<forall>i < t. t \<le> i + 16 \<longrightarrow> l ! (i mod 16) = sha1_schedule M ! i) \<and>
     (\<forall>i < 16. t \<le> i \<longrightarrow> l ! i = WPA_GET_LE32 (drop (4 * i) M))"

lemma ring_get:
  assumes "ring_ok M t l" "16 \<le> t" "k \<le> 16" "0 < k"
  shows "l ! ((t + (16 - k)) mod 16) = sha1_schedule M ! (t - k)"
proof -
  have "(t + (16 - k)) mod 16 = (t - k) mod 16"
  proof -
    have "t + (16 - k) = (t - k) + 16" using assms by simp
    then show ?thesis by (simp only: mod_add_self2)
  qed
  then show ?thesis using assms by (simp add: ring_ok_def)
qed

lemma mod16_inj: "\<lbrakk>i < t; t \<le> i + 15; i mod 16 = t mod 16\<rbrakk> \<Longrightarrow> False" for i t :: nat
  using mod_eq_dvd_iff_nat [of i t 16] dvd_imp_le [of 16 "t - i"] by simp

lemma ring_step:
  assumes "ring_ok M t l" "t < 80"
  shows "ring_ok M (Suc t) (if t < 16 then blk0 l t else blk l t)"
    and "(if t < 16 then blk0 l t else blk l t) ! (t mod 16) = sha1_schedule M ! t"
proof -
  define v where "v = sha1_schedule M ! t"
  have len: "length l = 16" using assms by (simp add: ring_ok_def)
  have upd: "(if t < 16 then blk0 l t else blk l t) = l[t mod 16 := v]"
  proof (cases "t < 16")
    case True
    then have "l ! t = WPA_GET_LE32 (drop (4 * t) M)" using assms by (simp add: ring_ok_def)
    then show ?thesis using True schedule_first [of t M] by (simp add: blk0_def swap_le v_def)
  next
    case False
    then show ?thesis
      using assms ring_get [of M t l 3] ring_get [of M t l 8] ring_get [of M t l 14] ring_get [of M t l 16]
        schedule_next [of t M] by (simp add: blk_def v_def)
  qed
  show "(if t < 16 then blk0 l t else blk l t) ! (t mod 16) = sha1_schedule M ! t"
    unfolding upd using len by (simp add: v_def)
  have "l[t mod 16 := v] ! (i mod 16) = sha1_schedule M ! i" if "i < Suc t" "Suc t \<le> i + 16" for i
  proof (cases "i = t")
    case True
    then show ?thesis using len by (simp add: v_def)
  next
    case False
    then have "i mod 16 \<noteq> t mod 16" using that mod16_inj [of i t] by auto
    then show ?thesis using assms that False by (simp add: ring_ok_def)
  qed
  moreover have "l[t mod 16 := v] ! i = WPA_GET_LE32 (drop (4 * i) M)" if "i < 16" "Suc t \<le> i" for i
    using assms that by (simp add: ring_ok_def)
  ultimately show "ring_ok M (Suc t) (if t < 16 then blk0 l t else blk l t)"
    unfolding upd using len by (simp add: ring_ok_def)
qed

lemma round_state:
  "sha1_round t (l, st) = (let l' = (if t < 16 then blk0 l t else blk l t) in
     (l', case st of (A, B, C, D, E) \<Rightarrow>
        (rol A 5 + fips_f t B C D + E + l' ! (t mod 16) + fips_K t, A, rol B 30, C, D)))"
  by (cases st) (simp add: sha1_round_def sha1_R_def fips_f_def fips_K_def sha1_functions sha1_parity_def Let_def add_ac)

lemma rounds_agree:
  "n \<le> 80 \<Longrightarrow> \<exists>l. fold sha1_round [0..<n] (words_le M, st) = (l, fold (fips_round (sha1_schedule M)) [0..<n] st) \<and>
     ring_ok M n l"
proof (induction n)
  case 0
  show ?case by (simp add: ring_ok_def words_le_def)
next
  case (Suc n)
  then obtain l where l: "fold sha1_round [0..<n] (words_le M, st) = (l, fold (fips_round (sha1_schedule M)) [0..<n] st)"
    "ring_ok M n l" by auto
  show ?case using ring_step [OF l(2)] Suc.prems l(1)
    by (cases "fold (fips_round (sha1_schedule M)) [0..<n] st")
      (simp add: round_state fips_round_def [of "sha1_schedule M" n] Let_def)
qed

lemma transform_block: "SHA1Transform st M = sha1_block st M"
  using rounds_agree [of 80 M st] by (auto simp: SHA1Transform_def sha1_block_def)

section \<open>The code computes the definition\<close>

definition sha1_rep :: "SHA1Context \<Rightarrow> bytes \<Rightarrow> bool" where
  "sha1_rep ctx msg \<longleftrightarrow>
     sha1_state ctx = hash_blocks sha1_block (sha1_state SHA1Init) msg \<and>
     length (sha1_buffer ctx) = 64 \<and> take (length msg mod 64) (sha1_buffer ctx) = rest_part msg \<and>
     bit_count (sha1_count0 ctx) (sha1_count1 ctx) (length msg)"

lemma sha1_data_loop_spec:
  "i \<le> length data \<Longrightarrow>
   (case sha1_data_loop st data i of (st', i') \<Rightarrow>
      st' = hash_blocks sha1_block st (drop i data) \<and> drop i' data = rest_part (drop i data))"
proof (induction st data i rule: sha1_data_loop.induct)
  case (1 st data i)
  show ?case
  proof (cases "i + 63 < length data")
    case True
    define b where "b = take 64 (drop i data)"
    have b: "length b = 64" "drop i data = b @ drop (i + 64) data"
      using True append_take_drop_id [of 64 "drop i data"] by (simp_all add: b_def add.commute)
    have "i + 64 \<le> length data" using True by simp
    from 1(1) [OF True this] show ?thesis
      using True b by (subst sha1_data_loop.simps) (simp add: transform_block flip: b_def)
  next
    case False
    then show ?thesis by (subst sha1_data_loop.simps) simp
  qed
qed

lemma sha1_update_rep:
  assumes rep: "sha1_rep ctx msg" and len: "length data + 64 < 2 ^ 32"
  shows "sha1_rep (SHA1Update ctx data) (msg @ data)"
proof -
  let ?len = "word_of_nat (length data) :: u32"
  define p where "p = length msg mod 64"
  define c1 where "c1 = ctx\<lparr>sha1_count0 := sha1_count0 ctx + push_bit 3 ?len,
    sha1_count1 := (if sha1_count0 ctx + push_bit 3 ?len < push_bit 3 ?len then sha1_count1 ctx + 1 else sha1_count1 ctx) +
      drop_bit 29 ?len\<rparr>"
  have n: "unat ?len = length data" using len by (simp add: unat_of_nat)
  have r: "sha1_state ctx = hash_blocks sha1_block (sha1_state SHA1Init) msg" "length (sha1_buffer ctx) = 64"
    "take p (sha1_buffer ctx) = rest_part msg" "bit_count (sha1_count0 ctx) (sha1_count1 ctx) (length msg)"
    using rep by (simp_all add: sha1_rep_def p_def)
  have pos: "unat (drop_bit 3 (sha1_count0 ctx) AND 63) = p" using bit_count_pos [OF r(4)] by (simp add: p_def)
  have carry: "x + y < y \<longleftrightarrow> x + y < x" for x y :: u32 using olen_add_eqv [of x y] by (simp add: add.commute not_le flip: not_le)
  have bits: "bit_count (sha1_count0 c1) (sha1_count1 c1) (length (msg @ data))"
    using bit_count_add [OF r(4), of ?len] by (simp add: n c1_def carry)
  have plt: "p < 64" "length (rest_part msg) = p" by (simp_all add: p_def)
  have cmp: "(word_of_nat p + ?len > 63) \<longleftrightarrow> p + length data > 63"
    using len plt by (simp add: word_less_nat_alt unat_word_ariths unat_of_nat)
  have c1: "sha1_state c1 = sha1_state ctx" "sha1_buffer c1 = sha1_buffer ctx" by (simp_all add: c1_def)
  have ext: "hash_blocks sha1_block (sha1_state SHA1Init) (msg @ data) =
      hash_blocks sha1_block (sha1_state ctx) (rest_part msg @ data)"
    "rest_part (msg @ data) = rest_part (rest_part msg @ data)"
    "length (msg @ data) mod 64 = length (rest_part msg @ data) mod 64"
    using hash_blocks_extend [of sha1_block "sha1_state SHA1Init" msg data] rest_part_extend [of msg data] r(1)
    by (simp_all add: mod_simps)
  show ?thesis
  proof (cases "p + length data > 63")
    case False
    have u: "SHA1Update ctx data = c1\<lparr>sha1_buffer := overwrite p data (sha1_buffer c1)\<rparr>"
      using False cmp by (simp add: SHA1Update_def Let_def pos c1_def)
    have "overwrite p data (sha1_buffer ctx) = rest_part msg @ data @ drop (p + length data) (sha1_buffer ctx)"
      using r(3) by (simp add: overwrite_def)
    then show ?thesis using False r c1 bits ext plt u by (simp add: sha1_rep_def)
  next
    case True
    define b where "b = rest_part msg @ take (64 - p) data"
    have b: "length b = 64" "rest_part msg @ data = b @ drop (64 - p) data"
      "overwrite p (take (64 - p) data) (sha1_buffer ctx) = b"
      using True plt r by (simp_all add: b_def overwrite_def)
    obtain st i where loop: "sha1_data_loop (sha1_block (sha1_state ctx) b) data (64 - p) = (st, i)" by fastforce
    have i: "st = hash_blocks sha1_block (sha1_block (sha1_state ctx) b) (drop (64 - p) data)"
      "drop i data = rest_part (drop (64 - p) data)"
      using sha1_data_loop_spec [of "64 - p" data "sha1_block (sha1_state ctx) b"] True loop by simp_all
    have u: "SHA1Update ctx data = c1\<lparr>sha1_buffer := overwrite 0 (drop i data) b, sha1_state := st\<rparr>"
      using True cmp loop b(3) by (simp add: SHA1Update_def Let_def pos c1_def transform_block)
    have "length (drop i data) = length (drop (64 - p) data) mod 64" unfolding i(2) by (rule length_rest)
    then show ?thesis using b bits ext i unfolding u sha1_rep_def
      by (simp add: overwrite_def del: length_drop) (simp add: c1_def)
  qed
qed

lemma count_mask:
  assumes "bit_count lo hi n"
  shows "lo AND 504 = 448 \<longleftrightarrow> n mod 64 = 56"
proof -
  have m: "(504 :: u32) = push_bit 3 (mask 6)" by (simp add: mask_eq_exp_minus_1)
  have "lo AND 504 = push_bit 3 (drop_bit 3 lo AND 63)"
  proof (rule bit_word_eqI)
    fix i assume "i < LENGTH(32)"
    have m': "(63 :: u32) = mask 6" by (simp add: mask_eq_exp_minus_1)
    show "bit (lo AND 504) i = bit (push_bit 3 (drop_bit 3 lo AND 63)) i"
      unfolding m m' by (auto simp: bit_simps)
  qed
  moreover have "unat (push_bit 3 (drop_bit 3 lo AND 63)) = 8 * (n mod 64)"
    using bit_count_pos [OF assms] by (simp add: push_bit_eq_mult unat_word_ariths)
  ultimately have "unat (lo AND 504) = 8 * (n mod 64)" by simp
  moreover have "lo AND 504 = 448 \<longleftrightarrow> unat (lo AND 504) = 448" by (simp add: word_unat_eq_iff)
  ultimately show ?thesis by linarith
qed

lemma sha1_pad_loop_spec:
  "\<lbrakk>sha1_rep ctx msg; (length msg + k) mod 64 = 56; \<forall>j < k. (length msg + j) mod 64 \<noteq> 56; k < n\<rbrakk> \<Longrightarrow>
   \<exists>ctx'. sha1_pad_loop n ctx = Some ctx' \<and> sha1_rep ctx' (msg @ replicate k 0)"
proof (induction k arbitrary: ctx msg n)
  case 0
  then obtain n' where "n = Suc n'" by (cases n) auto
  then show ?case using 0 count_mask [of "sha1_count0 ctx" "sha1_count1 ctx" "length msg"] by (simp add: sha1_rep_def)
next
  case (Suc k)
  then obtain n' where n: "n = Suc n'" by (cases n) auto
  have "length msg mod 64 \<noteq> 56" using Suc.prems(3) by (metis add_0_right zero_less_Suc)
  then have "sha1_count0 ctx AND 504 \<noteq> 448"
    using count_mask [of "sha1_count0 ctx" "sha1_count1 ctx" "length msg"] Suc.prems(1) by (simp add: sha1_rep_def)
  moreover have "\<exists>ctx'. sha1_pad_loop n' (SHA1Update ctx [0]) = Some ctx' \<and> sha1_rep ctx' ((msg @ [0]) @ replicate k 0)"
  proof (rule Suc.IH)
    show "sha1_rep (SHA1Update ctx [0]) (msg @ [0])" using sha1_update_rep [OF Suc.prems(1)] by simp
    show "\<forall>j < k. (length (msg @ [0]) + j) mod 64 \<noteq> 56"
      using Suc.prems(3) by (metis Suc_less_eq add_Suc_right add_Suc_shift length_append_singleton)
  qed (use Suc.prems n in simp_all)
  ultimately show ?case using n by simp
qed

lemma sha1_final_rep:
  assumes rep: "sha1_rep ctx msg"
  shows "SHA1Final ctx = Some (sha1_digest msg)"
proof -
  define k where "k = (119 - length msg mod 64) mod 64"
  have pad: "md_pad (length msg) = 0x80 # replicate k 0" by (simp add: md_pad_def k_def)
  define m1 where "m1 = msg @ [0x80]"
  have r1: "sha1_rep (SHA1Update ctx [0x80]) m1" using sha1_update_rep [OF rep] by (simp add: m1_def)
  have l: "(length m1 + k) mod 64 = 56" using md_pad_length [of "length msg"] by (simp add: pad m1_def)
  have k: "k < 64" by (simp add: k_def)
  have "(length m1 + j) mod 64 \<noteq> 56" if "j < k" for j
  proof
    assume "(length m1 + j) mod 64 = 56"
    then have "(length m1 + j) mod 64 = (length m1 + k) mod 64" using l by simp
    then have "64 dvd (length m1 + k) - (length m1 + j)" using that mod_eq_dvd_iff_nat [of "length m1 + j" "length m1 + k" 64] by simp
    then show False using that k dvd_imp_le [of 64 "k - j"] by simp
  qed
  then obtain c2 where c2: "sha1_pad_loop 64 (SHA1Update ctx [0x80]) = Some c2" "sha1_rep c2 (m1 @ replicate k 0)"
    using sha1_pad_loop_spec [OF r1 l _ k] by blast
  define lf where "lf = WPA_PUT_BE32 (sha1_count1 ctx) @ WPA_PUT_BE32 (sha1_count0 ctx)"
  have lf: "sha1_length_field (length msg) = lf" "length lf = 8"
    using bit_count_words [of "sha1_count0 ctx" "sha1_count1 ctx" "length msg"] rep
    by (simp_all add: sha1_length_field_def lf_def sha1_rep_def)
  have "sha1_rep (SHA1Update c2 lf) ((m1 @ replicate k 0) @ lf)" using sha1_update_rep [OF c2(2)] lf by simp
  then have "sha1_state (SHA1Update c2 lf) =
      hash_blocks sha1_block (sha1_state SHA1Init) (msg @ md_pad (length msg) @ lf)"
    by (simp add: sha1_rep_def m1_def pad)
  then show ?thesis using c2(1) lf(1) by (simp add: SHA1Final_def sha1_digest_def SHA1Init_def Let_def flip: lf_def)
qed

interpretation sha1: streaming_hash sha1_rep SHA1Init SHA1Update "\<lambda>c. the (SHA1Final c)" sha1_digest 20
proof
  show "sha1_rep SHA1Init []" by (simp add: sha1_rep_def SHA1Init_def)
  show "length (sha1_digest msg) = 20" for msg
    by (simp add: sha1_digest_def sha1_output_def split: prod.split)
qed (simp_all add: sha1_update_rep sha1_final_rep)

text \<open>C29. The incremental SHA-1, whose padding loop ends within its bound and whose transformation expands the schedule in
  a ring of sixteen words, computes the hash of FIPS 180-1 of the concatenated pieces.\<close>

theorem sha1_vector_fips180:
  assumes "\<forall>d \<in> set addr. length d + 64 < 2 ^ 32"
  shows "sha1_vector addr = Some (sha1_digest (concat addr))"
  unfolding sha1_vector_def
  using sha1_final_rep [OF sha1.updates_rep [OF sha1.start_rep assms]] by simp

theorem sha1_vector_fips180_witness:
  "sha1_vector [[0x61], [], [0x62, 0x63]] = Some (sha1_digest [0x61, 0x62, 0x63])"
  using sha1_vector_fips180 [of "[[0x61], [], [0x62, 0x63]]"] by simp

end
