(* ===== verification/Hmac.thy ===== *)
theory Hmac
  imports Md5 Sha1
begin

text \<open>
  Keyed hashing and key derivation: HMAC over a vector of fragments (\<^verbatim>\<open>src/crypto/md5.c\<close> and \<^verbatim>\<open>sha1.c\<close>), the
  pseudo-random function of IEEE 802.11i (\<^verbatim>\<open>sha1_prf\<close>) and PBKDF2 (\<^verbatim>\<open>sha1-pbkdf2.c\<close>).  The C functions return 0 or -1
  and write to a buffer; here they return the buffer, or \<open>None\<close> for -1.  \<open>hmac_vector\<close> is the common text of the two
  HMAC functions, with the hash and the length of its digest as parameters; the locale \<open>vector_hash\<close> states what it relies on.
\<close>

section \<open>HMAC\<close>

definition hmac_k_pad :: "bytes \<Rightarrow> u8 \<Rightarrow> bytes" where
  "hmac_k_pad key pad = map (\<lambda>b. b XOR pad) (overwrite 0 key (replicate 64 0))"

definition hmac_vector :: "(bytes list \<Rightarrow> bytes option) \<Rightarrow> bytes \<Rightarrow> bytes list \<Rightarrow> bytes option" where
  "hmac_vector hash key addr =
     (if length addr > 5 then None
      else case (if length key > 64 then hash [key] else Some key) of
        None \<Rightarrow> None
      | Some key \<Rightarrow>
          (case hash (hmac_k_pad key 0x36 # addr) of
             None \<Rightarrow> None
           | Some mac \<Rightarrow> hash [hmac_k_pad key 0x5c, mac]))"

definition hmac_sha1_vector :: "bytes \<Rightarrow> bytes list \<Rightarrow> bytes option" where
  "hmac_sha1_vector = hmac_vector sha1_vector"

definition hmac_sha1 :: "bytes \<Rightarrow> bytes \<Rightarrow> bytes option" where
  "hmac_sha1 key data = hmac_sha1_vector key [data]"

definition hmac_md5_vector :: "bytes \<Rightarrow> bytes list \<Rightarrow> bytes option" where
  "hmac_md5_vector = hmac_vector (\<lambda>addr. Some (md5_vector addr))"

definition hmac_md5 :: "bytes \<Rightarrow> bytes \<Rightarrow> bytes option" where
  "hmac_md5 key data = hmac_md5_vector key [data]"

section \<open>Key derivation\<close>

text \<open>The loop of \<^verbatim>\<open>sha1_prf\<close>: \<open>len\<close> octets remain to be written.\<close>

function sha1_prf_loop :: "bytes \<Rightarrow> bytes \<Rightarrow> bytes \<Rightarrow> u8 \<Rightarrow> nat \<Rightarrow> bytes option" where
  "sha1_prf_loop key label data counter len =
     (if len = 0 then Some []
      else case hmac_sha1_vector key [label, data, [counter]] of
        None \<Rightarrow> None
      | Some hash \<Rightarrow>
          if len \<ge> 20 then map_option ((@) hash) (sha1_prf_loop key label data (counter + 1) (len - 20))
          else Some (take len hash))"
  by auto
termination by (relation "measure (\<lambda>(key, label, data, counter, len). len)") auto

declare sha1_prf_loop.simps [simp del]

text \<open>The label is a C string and is hashed with its terminating NUL.\<close>

definition sha1_prf :: "bytes \<Rightarrow> bytes \<Rightarrow> bytes \<Rightarrow> nat \<Rightarrow> bytes option" where
  "sha1_prf key label data buf_len = sha1_prf_loop key (label @ [0]) data 0 buf_len"

fun pbkdf2_iterate :: "bytes \<Rightarrow> nat \<Rightarrow> bytes \<Rightarrow> bytes \<Rightarrow> bytes option" where
  "pbkdf2_iterate passphrase 0 tmp digest = Some digest"
| "pbkdf2_iterate passphrase (Suc n) tmp digest =
     (case hmac_sha1 passphrase tmp of
        None \<Rightarrow> None
      | Some tmp2 \<Rightarrow> pbkdf2_iterate passphrase n tmp2 (xor_octets digest tmp2))"

definition pbkdf2_sha1_f :: "bytes \<Rightarrow> bytes \<Rightarrow> int \<Rightarrow> u32 \<Rightarrow> bytes option" where
  "pbkdf2_sha1_f passphrase ssid iterations count =
     (case hmac_sha1_vector passphrase [ssid, WPA_PUT_BE32 count] of
        None \<Rightarrow> None
      | Some tmp \<Rightarrow> pbkdf2_iterate passphrase (nat (iterations - 1)) tmp tmp)"

function pbkdf2_loop :: "bytes \<Rightarrow> bytes \<Rightarrow> int \<Rightarrow> u32 \<Rightarrow> nat \<Rightarrow> bytes option" where
  "pbkdf2_loop passphrase ssid iterations count left =
     (if left = 0 then Some []
      else
        let count = count + 1 in
        (case pbkdf2_sha1_f passphrase ssid iterations count of
           None \<Rightarrow> None
         | Some digest \<Rightarrow>
             let plen = (if left > 20 then 20 else left) in
             map_option ((@) (take plen digest)) (pbkdf2_loop passphrase ssid iterations count (left - plen))))"
  by auto
termination by (relation "measure (\<lambda>(p, s, it, c, left). left)") auto

declare pbkdf2_loop.simps [simp del]

definition pbkdf2_sha1 :: "bytes \<Rightarrow> bytes \<Rightarrow> int \<Rightarrow> nat \<Rightarrow> bytes option" where
  "pbkdf2_sha1 passphrase ssid iterations buflen = pbkdf2_loop passphrase ssid iterations 0 buflen"

section \<open>HMAC is the construction of RFC 2104\<close>

definition hmac_rfc2104 :: "(bytes \<Rightarrow> bytes) \<Rightarrow> bytes \<Rightarrow> bytes \<Rightarrow> bytes" where
  "hmac_rfc2104 H key text =
     (let key = (if length key > 64 then H key else key);
          K = key @ replicate (64 - length key) 0
      in H (map (\<lambda>b. b XOR 0x5c) K @ H (map (\<lambda>b. b XOR 0x36) K @ text)))"

text \<open>A hash over a vector of fragments: it hashes their concatenation when no fragment is too long for the length
  arguments of the code.\<close>

abbreviation (input) short :: "bytes \<Rightarrow> bool" where "short d \<equiv> length d + 64 < 2 ^ 32"

locale vector_hash =
  fixes hash :: "bytes list \<Rightarrow> bytes option"
    and H :: "bytes \<Rightarrow> bytes"
    and L :: nat
  assumes hash_vector: "\<forall>d \<in> set ds. short d \<Longrightarrow> hash ds = Some (H (concat ds))"
    and hash_length: "length (H m) = L"
    and hash_short: "L < 64"
begin

lemma hmac_correct:
  assumes "length ds \<le> 5" "short key" "\<forall>d \<in> set ds. short d"
  shows "hmac_vector hash key ds = Some (hmac_rfc2104 H key (concat ds))"
proof -
  define k where "k = (if length key > 64 then H key else key)"
  have k: "(if length key > 64 then hash [key] else Some key) = Some k" "length k \<le> 64"
    using assms(2) hash_vector [of "[key]"] hash_length hash_short less_imp_le by (auto simp: k_def)
  have pad: "hmac_k_pad k p = map (\<lambda>b. b XOR p) (k @ replicate (64 - length k) 0)" for p
    by (simp add: hmac_k_pad_def overwrite_def)
  have "hash (hmac_k_pad k 0x36 # ds) = Some (H (hmac_k_pad k 0x36 @ concat ds))"
    using assms(3) k(2) hash_vector [of "hmac_k_pad k 0x36 # ds"] by (simp add: pad)
  moreover have "hash [hmac_k_pad k 0x5c, H m] = Some (H (hmac_k_pad k 0x5c @ H m))" for m
    using k(2) hash_length hash_short hash_vector [of "[hmac_k_pad k 0x5c, H m]"] by (simp add: pad)
  ultimately show ?thesis using assms(1) k(1)
    by (simp add: hmac_vector_def hmac_rfc2104_def pad flip: k_def)
qed

end

interpretation sha1v: vector_hash sha1_vector sha1_digest 20
proof
  show "sha1_vector ds = Some (sha1_digest (concat ds))" if "\<forall>d \<in> set ds. short d" for ds
    unfolding sha1_vector_def using sha1_final_rep [OF sha1.updates_rep [OF sha1.start_rep that]] by simp
qed (simp_all add: sha1.digest_length)

interpretation md5v: vector_hash "\<lambda>addr. Some (md5_vector addr)" md5_digest 16
proof
  show "Some (md5_vector ds) = Some (md5_digest (concat ds))" if "\<forall>d \<in> set ds. short d" for ds
    unfolding md5_vector_def using md5.vector_digest [OF that] by simp
qed (simp_all add: md5.digest_length)

abbreviation (input) HMAC_SHA1 :: "bytes \<Rightarrow> bytes \<Rightarrow> bytes" where "HMAC_SHA1 \<equiv> hmac_rfc2104 sha1_digest"
abbreviation (input) HMAC_MD5 :: "bytes \<Rightarrow> bytes \<Rightarrow> bytes" where "HMAC_MD5 \<equiv> hmac_rfc2104 md5_digest"

lemma hmac_length [simp]: "length (HMAC_SHA1 key m) = 20" "length (HMAC_MD5 key m) = 16"
  by (simp_all add: hmac_rfc2104_def Let_def sha1.digest_length md5.digest_length)

lemma hmac_sha1_vector_correct:
  "length ds \<le> 5 \<Longrightarrow> short key \<Longrightarrow> \<forall>d \<in> set ds. short d \<Longrightarrow>
   hmac_sha1_vector key ds = Some (HMAC_SHA1 key (concat ds))"
  unfolding hmac_sha1_vector_def by (rule sha1v.hmac_correct)

text \<open>C30. The HMAC functions compute the HMAC of RFC 2104 of the concatenated fragments, for up to five
  fragments and keys of any length: keys longer than a block are hashed first.\<close>

theorem hmac_vectors_rfc2104:
  assumes "length ds \<le> 5" "length key + 64 < 2 ^ 32" "\<forall>d \<in> set ds. length d + 64 < 2 ^ 32"
  shows "hmac_sha1_vector key ds = Some (hmac_rfc2104 sha1_digest key (concat ds)) \<and>
    hmac_md5_vector key ds = Some (hmac_rfc2104 md5_digest key (concat ds))"
  unfolding hmac_sha1_vector_def hmac_md5_vector_def
  using sha1v.hmac_correct [OF assms] md5v.hmac_correct [OF assms] by simp_all

theorem hmac_vectors_rfc2104_witness:
  "hmac_sha1_vector (replicate 70 1) [[1, 2], [3]] = Some (hmac_rfc2104 sha1_digest (replicate 70 1) [1, 2, 3])"
  using hmac_vectors_rfc2104 [of "[[1, 2], [3]]" "replicate 70 1"] by simp

section \<open>The pseudo-random function\<close>

text \<open>The stream of HMAC blocks from a counter on.\<close>

definition prf_blocks :: "bytes \<Rightarrow> bytes \<Rightarrow> nat \<Rightarrow> nat \<Rightarrow> bytes" where
  "prf_blocks key prefix c n = concat (map (\<lambda>i. HMAC_SHA1 key (prefix @ [word_of_nat i])) [c..<c + n])"

lemma prf_blocks_length [simp]: "length (prf_blocks key prefix c n) = 20 * n"
  by (induction n) (simp_all add: prf_blocks_def)

lemma prf_blocks_Suc: "prf_blocks key prefix c (Suc n) =
    HMAC_SHA1 key (prefix @ [word_of_nat c]) @ prf_blocks key prefix (Suc c) n"
proof -
  have "[c..<c + Suc n] = c # [Suc c..<Suc c + n]" by (simp add: upt_rec)
  then show ?thesis by (simp only: prf_blocks_def list.map concat.simps)
qed

lemma sha1_prf_loop_correct:
  assumes "short key" "short label" "short data" "n \<ge> len div 20 + 1"
  shows "sha1_prf_loop key label data (word_of_nat c) len = Some (take len (prf_blocks key (label @ data) c n))"
  using assms(4)
proof (induction len arbitrary: c n rule: less_induct)
  case (less len)
  obtain n' where n: "n = Suc n'" using less.prems by (cases n) auto
  have h: "hmac_sha1_vector key [label, data, [word_of_nat c]] = Some (HMAC_SHA1 key (label @ data @ [word_of_nat c]))"
    using assms by (subst hmac_sha1_vector_correct) simp_all
  show ?case
  proof (cases "len \<ge> 20")
    case True
    have "len div 20 = (len - 20) div 20 + 1" using True by (simp add: le_div_geq)
    then have "n' \<ge> (len - 20) div 20 + 1" using less.prems n by simp
    then have "sha1_prf_loop key label data (word_of_nat (Suc c)) (len - 20) =
        Some (take (len - 20) (prf_blocks key (label @ data) (Suc c) n'))"
      using True by (intro less.IH) simp_all
    then show ?thesis using True h n by (subst sha1_prf_loop.simps) (simp add: prf_blocks_Suc add.commute)
  next
    case False
    then show ?thesis using h n by (subst sha1_prf_loop.simps) (simp add: prf_blocks_Suc)
  qed
qed

text \<open>C31. \<^verbatim>\<open>sha1_prf\<close> is the PRF of IEEE 802.11i: the requested number of octets from the front of the
  blocks HMAC-SHA1(key, label, 0, data, counter) with the counter running from 0 in one octet.\<close>

theorem sha1_prf_80211i:
  assumes "length key + 64 < 2 ^ 32" "length label + 65 < 2 ^ 32" "length data + 64 < 2 ^ 32"
  shows "sha1_prf key label data len =
    Some (take len (concat (map (\<lambda>i. hmac_rfc2104 sha1_digest key (label @ [0] @ data @ [word_of_nat i]))
      [0..<len div 20 + 1])))"
  using sha1_prf_loop_correct [of key "label @ [0]" data len "len div 20 + 1" 0] assms
  by (simp add: sha1_prf_def prf_blocks_def)

theorem sha1_prf_80211i_witness:
  "sha1_prf [1] [2] [3] 15 = Some (take 15 (hmac_rfc2104 sha1_digest [1] [2, 0, 3, 0]))"
  using sha1_prf_80211i [of "[1]" "[2]" "[3]" 15] by simp

lemma sha1_prf_some:
  assumes "length key + 64 < 2 ^ 32" "length label + 65 < 2 ^ 32" "length data + 64 < 2 ^ 32"
  shows "\<exists>buf. sha1_prf key label data len = Some buf \<and> length buf = len"
proof -
  have "len \<le> 20 * (len div 20 + 1)" using div_mult_mod_eq [of len 20] mod_less_divisor [of 20 len] by simp
  then show ?thesis
    using sha1_prf_loop_correct [of key "label @ [0]" data len "len div 20 + 1" 0] assms
    by (simp add: sha1_prf_def)
qed

section \<open>PBKDF2\<close>

text \<open>The definition of PKCS 5: the values U, their exclusive or, and the blocks.\<close>

fun pbkdf2_U :: "bytes \<Rightarrow> bytes \<Rightarrow> nat \<Rightarrow> bytes" where
  "pbkdf2_U P S 0 = HMAC_SHA1 P S"
| "pbkdf2_U P S (Suc n) = HMAC_SHA1 P (pbkdf2_U P S n)"

definition pbkdf2_T :: "bytes \<Rightarrow> bytes \<Rightarrow> nat \<Rightarrow> nat \<Rightarrow> bytes" where
  "pbkdf2_T P S c i =
     (let S = S @ WPA_PUT_BE32 (word_of_nat i)
      in foldl xor_octets (pbkdf2_U P S 0) (map (pbkdf2_U P S) [1..<c]))"

lemma pbkdf2_U_length [simp]: "length (pbkdf2_U P S n) = 20"
  by (cases n) simp_all

lemma foldl_xor_length: "\<forall>x \<in> set xs. length x = 20 \<Longrightarrow> length a = 20 \<Longrightarrow> length (foldl xor_octets a xs) = 20"
  by (induction xs arbitrary: a) simp_all

lemma pbkdf2_T_length [simp]: "length (pbkdf2_T P S c i) = 20"
  by (simp add: pbkdf2_T_def Let_def foldl_xor_length)

lemma hmac_sha1_correct: "short key \<Longrightarrow> short data \<Longrightarrow> hmac_sha1 key data = Some (HMAC_SHA1 key data)"
  unfolding hmac_sha1_def by (subst hmac_sha1_vector_correct) simp_all

lemma pbkdf2_iterate_correct:
  "short P \<Longrightarrow> pbkdf2_iterate P n (pbkdf2_U P S k) d =
     Some (foldl xor_octets d (map (pbkdf2_U P S) [Suc k..<Suc k + n]))"
proof (induction n arbitrary: k d)
  case (Suc n)
  have "[Suc k..<Suc k + Suc n] = Suc k # [Suc (Suc k)..<Suc (Suc k) + n]" by (simp add: upt_rec)
  then show ?case
    using Suc.IH [OF Suc.prems, of "Suc k" "xor_octets d (pbkdf2_U P S (Suc k))"] Suc.prems hmac_sha1_correct [of P "pbkdf2_U P S k"]
    by simp
qed simp

lemma pbkdf2_f_correct:
  assumes "short P" "short S" "1 \<le> c"
  shows "pbkdf2_sha1_f P S (int c) (word_of_nat i) = Some (pbkdf2_T P S c i)"
proof -
  let ?S = "S @ WPA_PUT_BE32 (word_of_nat i)"
  have "hmac_sha1_vector P [S, WPA_PUT_BE32 (word_of_nat i)] = Some (pbkdf2_U P ?S 0)"
    using assms by (subst hmac_sha1_vector_correct) simp_all
  moreover have "nat (int c - 1) = c - 1" using assms(3) by simp
  moreover have "Suc 0 + (c - 1) = c" using assms(3) by simp
  ultimately show ?thesis
    using pbkdf2_iterate_correct [OF assms(1), of "c - 1" ?S 0 "pbkdf2_U P ?S 0"]
    by (simp add: pbkdf2_sha1_f_def pbkdf2_T_def Let_def)
qed

lemma pbkdf2_loop_correct:
  assumes "short P" "short S" "1 \<le> c" "n \<ge> left div 20 + 1"
  shows "pbkdf2_loop P S (int c) (word_of_nat k) left =
    Some (take left (concat (map (pbkdf2_T P S c) [Suc k..<Suc k + n])))"
  using assms(4)
proof (induction left arbitrary: k n rule: less_induct)
  case (less left)
  obtain n' where n: "n = Suc n'" using less.prems by (cases n) auto
  have u: "[Suc k..<Suc k + n] = Suc k # [Suc (Suc k)..<Suc (Suc k) + n']" unfolding n by (simp add: upt_rec)
  have f: "pbkdf2_sha1_f P S (int c) (word_of_nat k + 1) = Some (pbkdf2_T P S c (Suc k))"
    using pbkdf2_f_correct [OF assms(1-3), of "Suc k"] by (simp add: add.commute)
  show ?case
  proof (cases "left > 20")
    case True
    have "left div 20 = (left - 20) div 20 + 1" using True by (simp add: le_div_geq)
    then have "n' \<ge> (left - 20) div 20 + 1" using less.prems n by simp
    then have "pbkdf2_loop P S (int c) (word_of_nat (Suc k)) (left - 20) =
        Some (take (left - 20) (concat (map (pbkdf2_T P S c) [Suc (Suc k)..<Suc (Suc k) + n'])))"
      using True by (intro less.IH) simp_all
    then show ?thesis unfolding u using True f by (subst pbkdf2_loop.simps) (simp add: Let_def add.commute)
  next
    case False
    have z: "pbkdf2_loop P S (int c) w 0 = Some []" for w by (subst pbkdf2_loop.simps) simp
    show ?thesis unfolding u using False f z by (subst pbkdf2_loop.simps) (simp add: Let_def)
  qed
qed

text \<open>C32. \<^verbatim>\<open>pbkdf2_sha1\<close> derives keys by PBKDF2 of PKCS 5 with HMAC-SHA1: the requested octets of the blocks T(1), T(2),
  ..., each the exclusive or of \<open>c\<close> iterated HMACs.\<close>

theorem pbkdf2_sha1_pkcs5:
  assumes "length P + 64 < 2 ^ 32" "length S + 64 < 2 ^ 32" "1 \<le> c"
  shows "pbkdf2_sha1 P S (int c) buflen =
    Some (take buflen (concat (map (pbkdf2_T P S c) [1..<buflen div 20 + 2])))"
  using pbkdf2_loop_correct [OF assms, of buflen "buflen div 20 + 1" 0] by (simp add: pbkdf2_sha1_def)

theorem pbkdf2_sha1_pkcs5_witness:
  "pbkdf2_sha1 [112] [115] 2 20 = Some (take 20 (pbkdf2_T [112] [115] 2 1 @ pbkdf2_T [112] [115] 2 2))"
  using pbkdf2_sha1_pkcs5 [of "[112]" "[115]" 2 20] by (simp add: upt_rec)

end
