(* ===== verification/Rc4.thy ===== *)
theory Rc4
  imports Prelude
begin

text \<open>
  The stream cipher of \<^verbatim>\<open>src/crypto/rc4.c\<close>, used for the key frames of IEEE 802.1X and the WPA key data.
  The state is the table \<^verbatim>\<open>S\<close> with the two indices; the C function encrypts in place, here the octets
  are returned.
\<close>

section \<open>The code\<close>

definition S_SWAP :: "bytes \<Rightarrow> nat \<Rightarrow> nat \<Rightarrow> bytes" where
  "S_SWAP S a b = (let t = S ! a; S = S[a := S ! b] in S[b := t])"

text \<open>The key schedule: the table, the index \<^verbatim>\<open>j\<close> and the position in the key.\<close>

definition rc4_setup_step :: "bytes \<Rightarrow> nat \<Rightarrow> bytes \<times> nat \<times> nat \<Rightarrow> bytes \<times> nat \<times> nat" where
  "rc4_setup_step key i st =
     (case st of (S, j, kpos) \<Rightarrow>
        let j = (j + unat (S ! i) + unat (key ! kpos)) mod 256;
            kpos = kpos + 1;
            kpos = (if kpos \<ge> length key then 0 else kpos)
        in (S_SWAP S i j, j, kpos))"

definition rc4_setup :: "bytes \<Rightarrow> bytes" where
  "rc4_setup key = fst (fold (rc4_setup_step key) [0..<256] (map word_of_nat [0..<256], 0, 0))"

definition rc4_next :: "bytes \<times> nat \<times> nat \<Rightarrow> bytes \<times> nat \<times> nat" where
  "rc4_next st =
     (case st of (S, i, j) \<Rightarrow>
        let i = (i + 1) mod 256; j = (j + unat (S ! i)) mod 256 in (S_SWAP S i j, i, j))"

definition rc4_out :: "bytes \<times> nat \<times> nat \<Rightarrow> u8" where
  "rc4_out st = (case st of (S, i, j) \<Rightarrow> S ! ((unat (S ! i) + unat (S ! j)) mod 256))"

fun rc4_apply :: "bytes \<times> nat \<times> nat \<Rightarrow> bytes \<Rightarrow> bytes" where
  "rc4_apply st [] = []"
| "rc4_apply st (d # ds) = (let st = rc4_next st in (d XOR rc4_out st) # rc4_apply st ds)"

definition rc4_skip :: "bytes \<Rightarrow> nat \<Rightarrow> bytes \<Rightarrow> bytes" where
  "rc4_skip key skip data = rc4_apply ((rc4_next ^^ skip) (rc4_setup key, 0, 0)) data"

section \<open>The key stream\<close>

text \<open>The octets of the key stream from a state on.\<close>

fun rc4_stream :: "bytes \<times> nat \<times> nat \<Rightarrow> nat \<Rightarrow> bytes" where
  "rc4_stream st 0 = []"
| "rc4_stream st (Suc n) = (let st = rc4_next st in rc4_out st # rc4_stream st n)"

lemma rc4_apply_stream: "rc4_apply st data = map2 (XOR) data (rc4_stream st (length data))"
  by (induction data arbitrary: st) (simp_all add: Let_def)

lemma length_rc4_stream [simp]: "length (rc4_stream st n) = n"
  by (induction n arbitrary: st) (simp_all add: Let_def)

lemma rc4_stream_add: "rc4_stream st (m + n) = rc4_stream st m @ rc4_stream ((rc4_next ^^ m) st) n"
  by (induction m arbitrary: st) (simp_all add: Let_def funpow_swap1)

lemma rc4_apply_add: "rc4_apply st (a @ b) = rc4_apply st a @ rc4_apply ((rc4_next ^^ length a) st) b"
  by (induction a arbitrary: st) (simp_all add: Let_def funpow_swap1)

lemma length_rc4_apply [simp]: "length (rc4_apply st data) = length data"
  by (induction data arbitrary: st) (simp_all add: Let_def)

lemma rc4_apply_twice: "rc4_apply st (rc4_apply st data) = data"
  by (induction data arbitrary: st) (simp_all add: Let_def xor.assoc)

text \<open>The table stays a permutation of the octets, so that every index the code computes is in range.\<close>

definition rc4_table :: "bytes \<Rightarrow> bool" where
  "rc4_table S \<longleftrightarrow> length S = 256 \<and> distinct S"

lemma swap_table:
  assumes "rc4_table S" "a < 256" "b < 256"
  shows "rc4_table (S_SWAP S a b)"
  using assms distinct_swap [of a S b] by (simp add: rc4_table_def S_SWAP_def Let_def)

lemma rc4_start_table: "rc4_table (map word_of_nat [0..<256])"
  by (auto simp: rc4_table_def distinct_map inj_on_def word_of_nat_eq_iff take_bit_nat_eq_self)

lemma rc4_setup_table: "rc4_table (rc4_setup key)"
proof -
  have "rc4_table (fst (fold (rc4_setup_step key) xs st))" if "rc4_table (fst st)" "\<forall>x \<in> set xs. x < 256" for xs st
    using that
  proof (induction xs arbitrary: st)
    case (Cons i xs)
    then have "rc4_table (fst (rc4_setup_step key i st))"
      by (cases st) (simp add: rc4_setup_step_def Let_def swap_table)
    then show ?case using Cons by simp
  qed simp
  then show ?thesis by (simp add: rc4_setup_def rc4_start_table)
qed

definition rc4_state_ok :: "bytes \<times> nat \<times> nat \<Rightarrow> bool" where
  "rc4_state_ok st \<longleftrightarrow> (case st of (S, i, j) \<Rightarrow> rc4_table S \<and> i < 256 \<and> j < 256)"

lemma rc4_next_ok: "rc4_state_ok st \<Longrightarrow> rc4_state_ok (rc4_next st)"
  by (auto simp: rc4_state_ok_def rc4_next_def Let_def swap_table)

lemma rc4_iterate_ok: "rc4_state_ok st \<Longrightarrow> rc4_state_ok ((rc4_next ^^ n) st)"
  by (induction n) (simp_all add: rc4_next_ok)


end
