(* ===== verification/Aes_Modes.thy ===== *)
theory Aes_Modes
  imports Prelude Common_Utils
begin

text \<open>
  The modes of operation of \<^verbatim>\<open>src/crypto/aes-*.c\<close>: key wrap (RFC 3394), CBC, counter mode, OMAC1 and EAX.
  The block cipher itself comes from the crypto library the build chooses; it is a parameter, a function on
  blocks for the key in use, or \<open>None\<close> when \<^verbatim>\<open>aes_encrypt_init\<close> fails.  \<open>block_cipher\<close> is what the round trips
  need of it.  Buffers the C code changes in place are returned.
\<close>

section \<open>The block cipher\<close>

definition block_cipher :: "(bytes \<Rightarrow> bytes) \<Rightarrow> (bytes \<Rightarrow> bytes) \<Rightarrow> bool" where
  "block_cipher enc dec \<longleftrightarrow>
     (\<forall>b. length b = 16 \<longrightarrow> length (enc b) = 16 \<and> length (dec b) = 16 \<and> dec (enc b) = b \<and> enc (dec b) = b)"

definition aes_128_encrypt_block :: "(bytes \<Rightarrow> bytes) option \<Rightarrow> bytes \<Rightarrow> bytes option" where
  "aes_128_encrypt_block ctx input = (case ctx of None \<Rightarrow> None | Some enc \<Rightarrow> Some (enc input))"

section \<open>Key wrap\<close>

text \<open>One step with \<open>t = n * j + i\<close>: the variable \<^verbatim>\<open>a\<close>, and the register \<open>i\<close> (from 1) of the area \<^verbatim>\<open>r\<close>.  The
  exclusive or with \<open>t\<close> reaches only the last octet of \<^verbatim>\<open>a\<close>.\<close>

definition xor_last :: "bytes \<Rightarrow> nat \<Rightarrow> bytes" where
  "xor_last a t = a[7 := a ! 7 XOR word_of_nat t]"

definition wrap_step :: "(bytes \<Rightarrow> bytes) \<Rightarrow> nat \<Rightarrow> nat \<times> nat \<Rightarrow> bytes \<times> bytes \<Rightarrow> bytes \<times> bytes" where
  "wrap_step enc n ji st =
     (case (ji, st) of ((j, i), (a, r)) \<Rightarrow>
        let b = enc (a @ take 8 (drop (8 * (i - 1)) r))
        in (xor_last (take 8 b) (n * j + i), overwrite (8 * (i - 1)) (drop 8 b) r))"

definition wrap_order :: "nat \<Rightarrow> (nat \<times> nat) list" where
  "wrap_order n = concat (map (\<lambda>j. map (Pair j) [1..<n + 1]) [0..<6])"

definition aes_wrap :: "(bytes \<Rightarrow> bytes) option \<Rightarrow> nat \<Rightarrow> bytes \<Rightarrow> bytes option" where
  "aes_wrap ctx n plain =
     (case ctx of
        None \<Rightarrow> None
      | Some enc \<Rightarrow>
          (case fold (wrap_step enc n) (wrap_order n) (replicate 8 0xa6, take (8 * n) plain) of (a, r) \<Rightarrow> Some (a @ r)))"

definition unwrap_step :: "(bytes \<Rightarrow> bytes) \<Rightarrow> nat \<Rightarrow> nat \<times> nat \<Rightarrow> bytes \<times> bytes \<Rightarrow> bytes \<times> bytes" where
  "unwrap_step dec n ji st =
     (case (ji, st) of ((j, i), (a, r)) \<Rightarrow>
        let b = dec (xor_last a (n * j + i) @ take 8 (drop (8 * (i - 1)) r))
        in (take 8 b, overwrite (8 * (i - 1)) (drop 8 b) r))"

text \<open>The order of \<^verbatim>\<open>aes_unwrap\<close>: \<^verbatim>\<open>j\<close> from 5 down to 0, \<^verbatim>\<open>i\<close> from \<open>n\<close> down to 1.\<close>

definition unwrap_order :: "nat \<Rightarrow> (nat \<times> nat) list" where
  "unwrap_order n = concat (map (\<lambda>j. map (Pair j) (rev [1..<n + 1])) (rev [0..<6]))"

definition aes_unwrap :: "(bytes \<Rightarrow> bytes) option \<Rightarrow> nat \<Rightarrow> bytes \<Rightarrow> bytes option" where
  "aes_unwrap ctx n cipher =
     (case ctx of
        None \<Rightarrow> None
      | Some dec \<Rightarrow>
          (case fold (unwrap_step dec n) (unwrap_order n) (take 8 cipher, take (8 * n) (drop 8 cipher)) of
             (a, r) \<Rightarrow> if a = replicate 8 0xa6 then Some r else None))"

section \<open>CBC\<close>

fun cbc_encrypt_loop :: "(bytes \<Rightarrow> bytes) \<Rightarrow> nat \<Rightarrow> bytes \<Rightarrow> bytes \<Rightarrow> bytes" where
  "cbc_encrypt_loop enc 0 cbc pos = pos"
| "cbc_encrypt_loop enc (Suc n) cbc pos =
     (let cbc = enc (xor_octets cbc (take 16 pos)) in cbc @ cbc_encrypt_loop enc n cbc (drop 16 pos))"

definition aes_128_cbc_encrypt :: "(bytes \<Rightarrow> bytes) option \<Rightarrow> bytes \<Rightarrow> bytes \<Rightarrow> bytes option" where
  "aes_128_cbc_encrypt ctx iv data =
     (case ctx of None \<Rightarrow> None | Some enc \<Rightarrow> Some (cbc_encrypt_loop enc (length data div 16) iv data))"

fun cbc_decrypt_loop :: "(bytes \<Rightarrow> bytes) \<Rightarrow> nat \<Rightarrow> bytes \<Rightarrow> bytes \<Rightarrow> bytes" where
  "cbc_decrypt_loop dec 0 cbc pos = pos"
| "cbc_decrypt_loop dec (Suc n) cbc pos =
     (let tmp = take 16 pos in
      xor_octets (dec tmp) cbc @ cbc_decrypt_loop dec n tmp (drop 16 pos))"

definition aes_128_cbc_decrypt :: "(bytes \<Rightarrow> bytes) option \<Rightarrow> bytes \<Rightarrow> bytes \<Rightarrow> bytes option" where
  "aes_128_cbc_decrypt ctx iv data =
     (case ctx of None \<Rightarrow> None | Some dec \<Rightarrow> Some (cbc_decrypt_loop dec (length data div 16) iv data))"

section \<open>Counter mode\<close>

function ctr_loop :: "(bytes \<Rightarrow> bytes) \<Rightarrow> bytes \<Rightarrow> bytes \<Rightarrow> bytes" where
  "ctr_loop enc counter pos =
     (if pos = [] then []
      else
        let buf = enc counter;
            len = (if length pos < 16 then length pos else 16)
        in xor_octets (take len pos) buf @ ctr_loop enc (inc_byte_array counter) (drop len pos))"
  by auto
termination by (relation "measure (\<lambda>(enc, c, pos). length pos)") auto

declare ctr_loop.simps [simp del]

definition aes_128_ctr_encrypt :: "(bytes \<Rightarrow> bytes) option \<Rightarrow> bytes \<Rightarrow> bytes \<Rightarrow> bytes option" where
  "aes_128_ctr_encrypt ctx nonce data =
     (case ctx of None \<Rightarrow> None | Some enc \<Rightarrow> Some (ctr_loop enc nonce data))"

section \<open>OMAC1\<close>

text \<open>The shift of \<^verbatim>\<open>gf_mulx\<close>: every octet takes the top bit of the next one, the last octet a zero.\<close>

fun shift_left1 :: "bytes \<Rightarrow> bytes" where
  "shift_left1 [] = []"
| "shift_left1 [x] = [push_bit 1 x]"
| "shift_left1 (x # y # pad) = (push_bit 1 x OR drop_bit 7 y) # shift_left1 (y # pad)"

definition gf_mulx :: "bytes \<Rightarrow> bytes" where
  "gf_mulx pad =
     (let carry = pad ! 0 AND 0x80;
          pad = shift_left1 pad
      in if carry \<noteq> 0 then pad[15 := pad ! 15 XOR 0x87] else pad)"

text \<open>The cursor of \<^verbatim>\<open>omac1_aes_128_vector\<close>: what is left between \<^verbatim>\<open>pos\<close> and \<^verbatim>\<open>end\<close>, and the elements behind
  the current one.  Reading moves to the next element as soon as the current one is used up; behind the last
  element the code loads \<^verbatim>\<open>addr[num_elem]\<close>, a pointer no read may follow.  \<open>None\<close> is a read outside the
  elements.\<close>

type_synonym omac_cursor = "bytes \<times> bytes list"

definition omac_next_elem :: "bytes list \<Rightarrow> omac_cursor" where
  "omac_next_elem elems = (case elems of [] \<Rightarrow> ([], []) | x # xs \<Rightarrow> (x, xs))"

fun omac_xor :: "nat \<Rightarrow> nat \<Rightarrow> bytes \<Rightarrow> omac_cursor \<Rightarrow> (bytes \<times> omac_cursor) option" where
  "omac_xor 0 i cbc cur = Some (cbc, cur)"
| "omac_xor (Suc n) i cbc (pos, elems) =
     (case pos of
        [] \<Rightarrow> None
      | x # pos' \<Rightarrow>
          omac_xor n (i + 1) (cbc[i := cbc ! i XOR x])
            (if pos' = [] then omac_next_elem elems else (pos', elems)))"

function omac_blocks :: "(bytes \<Rightarrow> bytes) \<Rightarrow> nat \<Rightarrow> bytes \<Rightarrow> omac_cursor \<Rightarrow> (nat \<times> bytes \<times> omac_cursor) option" where
  "omac_blocks enc left cbc cur =
     (if 16 \<le> left then
        (case omac_xor 16 0 cbc cur of
           None \<Rightarrow> None
         | Some (cbc, cur) \<Rightarrow> omac_blocks enc (left - 16) (if 16 < left then enc cbc else cbc) cur)
      else Some (left, cbc, cur))"
  by auto
termination by (relation "measure (\<lambda>(enc, left, cbc, cur). left)") auto

declare omac_blocks.simps [simp del]

definition omac1_aes_128_vector :: "(bytes \<Rightarrow> bytes) option \<Rightarrow> bytes list \<Rightarrow> bytes option" where
  "omac1_aes_128_vector ctx addr =
     (case ctx of
        None \<Rightarrow> None
      | Some enc \<Rightarrow>
          let total_len = sum_list (map length addr) in
          (case omac_blocks enc total_len (replicate 16 0) (omac_next_elem addr) of
             None \<Rightarrow> None
           | Some (left, cbc, cur) \<Rightarrow>
               let pad = gf_mulx (enc (replicate 16 0)) in
               if left \<noteq> 0 \<or> total_len = 0 then
                 (case omac_xor left 0 cbc cur of
                    None \<Rightarrow> None
                  | Some (cbc, cur) \<Rightarrow>
                      Some (enc (xor_octets (gf_mulx pad) (cbc[left := cbc ! left XOR 0x80]))))
               else Some (enc (xor_octets pad cbc))))"

definition omac1_aes_128 :: "(bytes \<Rightarrow> bytes) option \<Rightarrow> bytes \<Rightarrow> bytes option" where
  "omac1_aes_128 ctx data = omac1_aes_128_vector ctx [data]"

section \<open>EAX\<close>

text \<open>The scratch buffer of the EAX routines: fifteen zeroes, the tweak and the data.\<close>

definition eax_buf :: "u8 \<Rightarrow> bytes \<Rightarrow> bytes" where
  "eax_buf t d = replicate 15 0 @ [t] @ d"

definition eax_tag :: "bytes \<Rightarrow> bytes \<Rightarrow> bytes \<Rightarrow> bytes" where
  "eax_tag nonce_mac data_mac hdr_mac = xor_octets (xor_octets nonce_mac data_mac) hdr_mac"

text \<open>Encryption returns the data and the tag.  The argument \<open>buf\<close> says whether \<^verbatim>\<open>os_malloc\<close> gives a buffer.\<close>

definition aes_128_eax_encrypt ::
  "bool \<Rightarrow> (bytes \<Rightarrow> bytes) option \<Rightarrow> bytes \<Rightarrow> bytes \<Rightarrow> bytes \<Rightarrow> (bytes \<times> bytes) option" where
  "aes_128_eax_encrypt buf ctx nonce hdr data =
     (if \<not> buf then None
      else
        (case omac1_aes_128 ctx (eax_buf 0 nonce) of None \<Rightarrow> None | Some nonce_mac \<Rightarrow>
        (case omac1_aes_128 ctx (eax_buf 1 hdr) of None \<Rightarrow> None | Some hdr_mac \<Rightarrow>
        (case aes_128_ctr_encrypt ctx nonce_mac data of None \<Rightarrow> None | Some data \<Rightarrow>
        (case omac1_aes_128 ctx (eax_buf 2 data) of None \<Rightarrow> None | Some data_mac \<Rightarrow>
           Some (data, eax_tag nonce_mac data_mac hdr_mac))))))"

text \<open>Decryption returns the C return value and the data area.\<close>

definition aes_128_eax_decrypt ::
  "bool \<Rightarrow> (bytes \<Rightarrow> bytes) option \<Rightarrow> bytes \<Rightarrow> bytes \<Rightarrow> bytes \<Rightarrow> bytes \<Rightarrow> int \<times> bytes" where
  "aes_128_eax_decrypt buf ctx nonce hdr data tag =
     (if \<not> buf then (-1, data)
      else
        (case omac1_aes_128 ctx (eax_buf 0 nonce) of None \<Rightarrow> (-1, data) | Some nonce_mac \<Rightarrow>
        (case omac1_aes_128 ctx (eax_buf 1 hdr) of None \<Rightarrow> (-1, data) | Some hdr_mac \<Rightarrow>
        (case omac1_aes_128 ctx (eax_buf 2 data) of None \<Rightarrow> (-1, data) | Some data_mac \<Rightarrow>
           if tag \<noteq> eax_tag nonce_mac data_mac hdr_mac then (-2, data)
           else
             (case aes_128_ctr_encrypt ctx nonce_mac data of None \<Rightarrow> (-1, data) | Some data \<Rightarrow> (0, data))))))"

section \<open>The modes undo each other\<close>

lemma fold_undo:
  assumes "\<And>x s. x \<in> set xs \<Longrightarrow> I s \<Longrightarrow> I (f x s) \<and> g x (f x s) = s" and "I s"
  shows "I (fold f xs s) \<and> fold g (rev xs) (fold f xs s) = s"
  using assms
proof (induction xs arbitrary: s)
  case (Cons x xs)
  have x: "I (f x s)" "g x (f x s) = s" using Cons.prems by auto
  have "I (fold f xs (f x s)) \<and> fold g (rev xs) (fold f xs (f x s)) = f x s"
    using Cons.IH [of "f x s"] Cons.prems(1) x(1) by auto
  then show ?case using x by simp
qed simp

lemma unwrap_order_rev: "unwrap_order n = rev (wrap_order n)"
  by (simp add: unwrap_order_def wrap_order_def rev_concat rev_map comp_def flip: rev_map)

lemma wrap_order_range: "(j, i) \<in> set (wrap_order n) \<Longrightarrow> 1 \<le> i \<and> i \<le> n"
  by (auto simp: wrap_order_def)

lemma overwrite_same_size:
  "length d = length e \<Longrightarrow> off \<le> length b \<Longrightarrow> overwrite off d (overwrite off e b) = overwrite off d b"
  by (simp add: overwrite_def)

lemma overwrite_part: "off + n \<le> length b \<Longrightarrow> overwrite off (take n (drop off b)) b = b"
proof -
  assume n: "off + n \<le> length b"
  have "take off b @ take n (drop off b) @ drop (off + n) b = b"
    by (metis append.assoc append_take_drop_id take_add)
  then show ?thesis using n by (simp add: overwrite_def min_def)
qed

lemma overwrite_back:
  assumes "off + n \<le> length b" "length d = n"
  shows "overwrite off (take n (drop off b)) (overwrite off d b) = b"
  using assms by (subst overwrite_same_size) (simp_all add: overwrite_part)

lemma xor_last_twice [simp]: "length a = 8 \<Longrightarrow> xor_last (xor_last a t) t = a"
  by (simp add: xor_last_def xor.assoc list_update_same_conv)

lemma length_xor_last [simp]: "length (xor_last a t) = length a"
  by (simp add: xor_last_def)

definition wrap_sizes :: "nat \<Rightarrow> bytes \<times> bytes \<Rightarrow> bool" where
  "wrap_sizes n st \<longleftrightarrow> length (fst st) = 8 \<and> length (snd st) = 8 * n"

lemma register_in_range: "1 \<le> i \<Longrightarrow> i \<le> n \<Longrightarrow> 8 * (i - 1) + 8 \<le> 8 * (n :: nat)"
  by simp

lemma unwrap_undoes_wrap:
  assumes c: "block_cipher enc dec" and i: "1 \<le> i" "i \<le> n" and s: "wrap_sizes n s"
  shows "wrap_sizes n (wrap_step enc n (j, i) s) \<and> unwrap_step dec n (j, i) (wrap_step enc n (j, i) s) = s"
proof -
  obtain a r where ar [simp]: "s = (a, r)" by (cases s)
  let ?o = "8 * (i - 1)"
  have r: "?o + 8 \<le> length r" and [simp]: "length a = 8" "length r = 8 * n"
    using register_in_range [OF i] s by (auto simp: wrap_sizes_def)
  define x where "x = a @ take 8 (drop ?o r)"
  have x: "length x = 16" using r by (simp add: x_def)
  define b where "b = enc x"
  have b: "length b = 16" "dec b = x" using c x by (auto simp: block_cipher_def b_def)
  have w: "wrap_step enc n (j, i) (a, r) = (xor_last (take 8 b) (n * j + i), overwrite ?o (drop 8 b) r)"
    by (simp add: wrap_step_def Let_def b_def x_def)
  have t: "take 8 (drop ?o (overwrite ?o (drop 8 b) r)) = drop 8 b"
    using take_drop_overwrite [of ?o r "drop 8 b"] r b by simp
  have "overwrite ?o (take 8 (drop ?o r)) (overwrite ?o (drop 8 b) r) = r"
    by (rule overwrite_back) (use r b in simp_all)
  then show ?thesis using r b
    by (auto simp: w unwrap_step_def Let_def t [simplified] w [simplified] wrap_sizes_def x_def simp del: take_drop_overwrite)
qed

lemma wrap_undoes_unwrap:
  assumes c: "block_cipher enc dec" and i: "1 \<le> i" "i \<le> n" and s: "wrap_sizes n s"
  shows "wrap_sizes n (unwrap_step dec n (j, i) s) \<and> wrap_step enc n (j, i) (unwrap_step dec n (j, i) s) = s"
proof -
  obtain a r where ar [simp]: "s = (a, r)" by (cases s)
  let ?o = "8 * (i - 1)"
  have r: "?o + 8 \<le> length r" and [simp]: "length a = 8" "length r = 8 * n"
    using register_in_range [OF i] s by (auto simp: wrap_sizes_def)
  define x where "x = xor_last a (n * j + i) @ take 8 (drop ?o r)"
  have x: "length x = 16" using r by (simp add: x_def)
  define b where "b = dec x"
  have b: "length b = 16" "enc b = x" using c x by (auto simp: block_cipher_def b_def)
  have w: "unwrap_step dec n (j, i) (a, r) = (take 8 b, overwrite ?o (drop 8 b) r)"
    by (simp add: unwrap_step_def Let_def b_def x_def)
  have t: "take 8 (drop ?o (overwrite ?o (drop 8 b) r)) = drop 8 b"
    using take_drop_overwrite [of ?o r "drop 8 b"] r b by simp
  have "overwrite ?o (take 8 (drop ?o r)) (overwrite ?o (drop 8 b) r) = r"
    by (rule overwrite_back) (use r b in simp_all)
  then show ?thesis using r b
    by (auto simp: w wrap_step_def Let_def t [simplified] w [simplified] wrap_sizes_def x_def simp del: take_drop_overwrite)
qed

lemma wrap_roundtrip:
  assumes c: "block_cipher enc dec" and p: "length plain = 8 * n"
  shows "\<exists>c. aes_wrap (Some enc) n plain = Some c \<and> length c = 8 * (n + 1) \<and> aes_unwrap (Some dec) n c = Some plain"
proof -
  let ?s = "(replicate 8 0xa6 :: bytes, plain)"
  have "wrap_sizes n (fold (wrap_step enc n) (wrap_order n) ?s) \<and>
    fold (unwrap_step dec n) (rev (wrap_order n)) (fold (wrap_step enc n) (wrap_order n) ?s) = ?s"
    by (rule fold_undo) (use unwrap_undoes_wrap [OF c] wrap_order_range p in \<open>auto simp: wrap_sizes_def\<close>)
  then show ?thesis using p
    by (auto simp: aes_wrap_def aes_unwrap_def unwrap_order_rev wrap_sizes_def split: prod.splits)
qed

lemma unwrap_sound:
  assumes c: "block_cipher enc dec" and l: "length cipher = 8 * (n + 1)"
    and u: "aes_unwrap (Some dec) n cipher = Some plain"
  shows "length plain = 8 * n \<and> aes_wrap (Some enc) n plain = Some cipher"
proof -
  let ?s = "(take 8 cipher, drop 8 cipher)"
  have f: "wrap_sizes n (fold (unwrap_step dec n) (rev (wrap_order n)) ?s) \<and>
    fold (wrap_step enc n) (rev (rev (wrap_order n))) (fold (unwrap_step dec n) (rev (wrap_order n)) ?s) = ?s"
    by (rule fold_undo) (use wrap_undoes_unwrap [OF c] wrap_order_range l in \<open>auto simp: wrap_sizes_def\<close>)
  have "take (8 * n) (drop 8 cipher) = drop 8 cipher" using l by simp
  then have "fold (unwrap_step dec n) (rev (wrap_order n)) ?s = (replicate 8 0xa6, plain)"
    using u by (auto simp: aes_unwrap_def unwrap_order_rev split: prod.splits if_splits)
  then show ?thesis using f
    by (auto simp: aes_wrap_def wrap_sizes_def)
qed

lemma cbc_roundtrip:
  assumes "block_cipher enc dec" "length iv = 16" "16 * n \<le> length d"
  shows "length (cbc_encrypt_loop enc n iv d) = length d \<and>
    cbc_decrypt_loop dec n iv (cbc_encrypt_loop enc n iv d) = d \<and>
    cbc_encrypt_loop enc n iv (cbc_decrypt_loop dec n iv d) = d"
  using assms
proof (induction n arbitrary: iv d)
  case (Suc n)
  let ?p = "take 16 d"
  define c where "c = enc (xor_octets iv ?p)"
  have p: "length ?p = 16" using Suc.prems by simp
  have c: "length c = 16" "dec c = xor_octets iv ?p"
    using Suc.prems p by (auto simp: c_def block_cipher_def)
  have x: "xor_octets (xor_octets iv ?p) iv = ?p"
    using xor_octets_cancel [of ?p iv] p Suc.prems by (simp add: xor_octets_commute)
  have q: "length (xor_octets (dec ?p) iv) = 16" "enc (xor_octets iv (xor_octets (dec ?p) iv)) = ?p"
    using Suc.prems p xor_octets_cancel [of "dec ?p" iv]
    by (auto simp: block_cipher_def xor_octets_commute [of iv])
  have e: "cbc_encrypt_loop enc (Suc n) iv d = c @ cbc_encrypt_loop enc n c (drop 16 d)"
    by (simp add: c_def Let_def)
  have g: "cbc_decrypt_loop dec (Suc n) iv d = xor_octets (dec ?p) iv @ cbc_decrypt_loop dec n ?p (drop 16 d)"
    by (simp add: Let_def)
  note IH1 = Suc.IH [of c "drop 16 d"] and IH2 = Suc.IH [of ?p "drop 16 d"]
  show ?case
    using IH1 IH2 Suc.prems c x q p
    by (intro conjI) (simp_all only: e g, simp_all add: Let_def)
qed simp

lemma length_inc_byte_array [simp]: "length (inc_byte_array c) = length c"
  using inc_byte_array_loop_correct [of "length c" c] by (simp add: inc_byte_array_def)

lemma ctr_loop_Nil [simp]: "ctr_loop enc c [] = []"
  by (simp add: ctr_loop.simps)

lemma ctr_loop_short:
  "d \<noteq> [] \<Longrightarrow> length d < 16 \<Longrightarrow> ctr_loop enc c d = xor_octets d (enc c)"
  by (subst ctr_loop.simps) (simp add: Let_def)

lemma ctr_loop_block:
  "length b = 16 \<Longrightarrow> ctr_loop enc c (b @ d) = xor_octets b (enc c) @ ctr_loop enc (inc_byte_array c) d"
  by (subst ctr_loop.simps) (auto simp: Let_def)

lemma ctr_involution:
  assumes enc: "\<And>b. length b = 16 \<Longrightarrow> length (enc b) = 16" and "length c = 16"
  shows "length (ctr_loop enc c d) = length d \<and> ctr_loop enc c (ctr_loop enc c d) = d"
  using assms(2)
proof (induction d arbitrary: c rule: length_induct)
  case (1 d)
  have e: "length (enc c) = 16" using enc 1 by simp
  show ?case
  proof (cases "length d < 16")
    case True
    show ?thesis
    proof (cases "d = []")
      case False
      have "length (xor_octets d (enc c)) = length d" using e True by simp
      then have "xor_octets d (enc c) \<noteq> []" using False by (metis length_0_conv)
      then show ?thesis using e True False by (simp add: ctr_loop_short xor_octets_cancel)
    qed simp
  next
    case False
    define p q where "p = take 16 d" and "q = drop 16 d"
    then have d: "d = p @ q" "length p = 16" "length q < length d" using False by auto
    have IH: "length (ctr_loop enc (inc_byte_array c) q) = length q"
      "ctr_loop enc (inc_byte_array c) (ctr_loop enc (inc_byte_array c) q) = q"
      using 1 d(3) by simp_all
    have "length (xor_octets p (enc c)) = 16" using d e by simp
    then show ?thesis unfolding d(1)
      by (simp add: ctr_loop_block d(2) IH xor_octets_cancel e)
  qed
qed

section \<open>OMAC1 is CMAC\<close>

text \<open>The CMAC of NIST SP 800-38B over one message: CBC over all blocks but the last, which is masked with the
  first subkey when it is complete, and padded and masked with the second one otherwise.\<close>

function cmac_from :: "(bytes \<Rightarrow> bytes) \<Rightarrow> bytes \<Rightarrow> bytes \<Rightarrow> bytes \<Rightarrow> bytes \<Rightarrow> bytes" where
  "cmac_from enc k1 k2 c m =
     (if 16 < length m then cmac_from enc k1 k2 (enc (xor_octets c (take 16 m))) (drop 16 m)
      else if length m = 16 then enc (xor_octets (xor_octets c m) k1)
      else enc (xor_octets (xor_octets c (m @ [0x80] @ replicate (15 - length m) 0)) k2))"
  by auto
termination by (relation "measure (\<lambda>(enc, k1, k2, c, m). length m)") auto

declare cmac_from.simps [simp del]

definition cmac :: "(bytes \<Rightarrow> bytes) \<Rightarrow> bytes \<Rightarrow> bytes" where
  "cmac enc m =
     (let k1 = gf_mulx (enc (replicate 16 0)) in cmac_from enc k1 (gf_mulx k1) (replicate 16 0) m)"

lemma length_shift_left1 [simp]: "length (shift_left1 p) = length p"
  by (induction p rule: shift_left1.induct) simp_all

lemma length_gf_mulx [simp]: "length (gf_mulx p) = length p"
  by (simp add: gf_mulx_def Let_def)

definition omac_stream :: "omac_cursor \<Rightarrow> bytes" where
  "omac_stream cur = fst cur @ concat (snd cur)"

definition omac_ok :: "omac_cursor \<Rightarrow> bool" where
  "omac_ok cur \<longleftrightarrow> [] \<notin> set (snd cur) \<and> (fst cur = [] \<longrightarrow> snd cur = [])"

lemma omac_next_elem_ok:
  "[] \<notin> set elems \<Longrightarrow> omac_ok (omac_next_elem elems) \<and> omac_stream (omac_next_elem elems) = concat elems"
  by (cases elems) (auto simp: omac_next_elem_def omac_ok_def omac_stream_def)

lemma omac_xor_reads:
  assumes "omac_ok cur" "n \<le> length (omac_stream cur)" "i + n \<le> length cbc"
  shows "\<exists>cur'. omac_xor n i cbc cur =
      Some (take i cbc @ xor_octets (take n (drop i cbc)) (take n (omac_stream cur)) @ drop (i + n) cbc, cur') \<and>
    omac_ok cur' \<and> omac_stream cur' = drop n (omac_stream cur)"
  using assms
proof (induction n i cbc cur rule: omac_xor.induct)
  case (1 i cbc cur)
  then show ?case by (simp add: xor_octets_def)
next
  case (2 n i cbc pos elems)
  obtain x pos' where pos: "pos = x # pos'"
    using 2(2,3) by (cases pos) (auto simp: omac_ok_def omac_stream_def)
  define cur where "cur = (if pos' = [] then omac_next_elem elems else (pos', elems))"
  have ok: "omac_ok cur" "omac_stream cur = pos' @ concat elems"
    using 2(2) omac_next_elem_ok [of elems] by (auto simp: cur_def omac_ok_def omac_stream_def)
  let ?cbc = "cbc[i := cbc ! i XOR x]"
  have i: "i < length cbc" using 2(4) by simp
  have "n \<le> length (omac_stream cur)" "i + 1 + n \<le> length ?cbc"
    using 2(3,4) ok pos by (simp_all add: omac_stream_def)
  then obtain cur' where c: "omac_xor n (i + 1) ?cbc cur =
      Some (take (i + 1) ?cbc @ xor_octets (take n (drop (i + 1) ?cbc)) (take n (omac_stream cur)) @ drop (i + 1 + n) ?cbc, cur')"
    "omac_ok cur'" "omac_stream cur' = drop n (omac_stream cur)"
    using 2(1) [OF pos, folded cur_def] ok(1) by blast
  have "take (i + 1) ?cbc @ xor_octets (take n (drop (i + 1) ?cbc)) (take n (omac_stream cur)) @ drop (i + 1 + n) ?cbc =
    take i cbc @ xor_octets (take (Suc n) (drop i cbc)) (take (Suc n) (omac_stream (pos, elems))) @ drop (i + Suc n) cbc"
    unfolding ok(2)
    using i by (simp add: take_Suc_conv_app_nth omac_stream_def pos xor_octets_def flip: Cons_nth_drop_Suc)
  moreover have "omac_stream cur' = drop (Suc n) (omac_stream (pos, elems))"
    unfolding c(3) ok(2) by (simp add: omac_stream_def pos)
  ultimately show ?case using c(1,2) pos by (simp flip: cur_def)
qed

lemma omac_blocks_cmac:
  assumes enc: "\<And>b. length b = 16 \<Longrightarrow> length (enc b) = 16"
    and "omac_ok cur" "left = length (omac_stream cur)" "left \<noteq> 0" "length cbc = 16"
  shows "\<exists>left' cbc' cur'. omac_blocks enc left cbc cur = Some (left', cbc', cur') \<and> length cbc' = 16 \<and>
    omac_ok cur' \<and> left' = length (omac_stream cur') \<and> left' < 16 \<and>
    cmac_from enc k1 k2 cbc (omac_stream cur) =
      (if left' = 0 then enc (xor_octets cbc' k1) else cmac_from enc k1 k2 cbc' (omac_stream cur'))"
  using assms(2-)
proof (induction left arbitrary: cbc cur rule: less_induct)
  case (less left)
  let ?s = "omac_stream cur"
  show ?case
  proof (cases "16 \<le> left")
    case False
    then show ?thesis using less.prems by (simp add: omac_blocks.simps)
  next
    case True
    obtain cur' where x: "omac_xor 16 0 cbc cur = Some (xor_octets cbc (take 16 ?s), cur')"
      and ok: "omac_ok cur'" "omac_stream cur' = drop 16 ?s"
      using omac_xor_reads [of cur 16 0 cbc] less.prems True by auto
    let ?c = "xor_octets cbc (take 16 ?s)"
    have lc: "length ?c = 16" using less.prems True by simp
    show ?thesis
    proof (cases "16 < left")
      case True
      have step: "omac_blocks enc left cbc cur = omac_blocks enc (left - 16) (enc ?c) cur'"
        using True x by (subst omac_blocks.simps) simp
      have "cmac_from enc k1 k2 cbc ?s = cmac_from enc k1 k2 (enc ?c) (omac_stream cur')"
        using True less.prems ok by (subst cmac_from.simps) simp
      then show ?thesis
        using less.IH [of "left - 16" cur' "enc ?c"] True less.prems ok enc [OF lc] unfolding step by simp
    next
      case False
      then have "left = 16" using \<open>16 \<le> left\<close> by simp
      then show ?thesis using x ok lc less.prems
        by (subst omac_blocks.simps) (simp add: omac_blocks.simps [of enc 0] cmac_from.simps)
    qed
  qed
qed

lemma omac_tail:
  assumes "omac_ok cur" "left = length (omac_stream cur)" "left < 16" "length cbc = 16"
  shows "\<exists>c cur'. omac_xor left 0 cbc cur = Some (c, cur') \<and>
    enc (xor_octets k2 (c[left := c ! left XOR 0x80])) = cmac_from enc k1 k2 cbc (omac_stream cur)"
proof -
  let ?s = "omac_stream cur"
  obtain cur' where x: "omac_xor left 0 cbc cur = Some (xor_octets (take left cbc) ?s @ drop left cbc, cur')"
    using omac_xor_reads [of cur left 0 cbc] assms by auto
  let ?c = "xor_octets (take left cbc) ?s @ drop left cbc"
  have "?c[left := ?c ! left XOR 0x80] = xor_octets cbc (?s @ [0x80] @ replicate (15 - left) 0)"
  proof (rule nth_equalityI)
    fix i assume "i < length (?c[left := ?c ! left XOR 0x80])"
    then have "i < 16" using assms by simp
    then show "?c[left := ?c ! left XOR 0x80] ! i = xor_octets cbc (?s @ [0x80] @ replicate (15 - left) 0) ! i"
      using assms by (cases "i < left"; cases "i = left") (auto simp: xor_octets_def nth_append nth_list_update)
  qed (use assms in simp)
  then show ?thesis using x assms by (simp add: cmac_from.simps xor_octets_commute)
qed

lemma omac1_vector_cmac:
  assumes enc: "\<And>b. length b = 16 \<Longrightarrow> length (enc b) = 16"
    and addr: "[] \<notin> set addr \<or> addr = [[]]"
  shows "omac1_aes_128_vector (Some enc) addr = Some (cmac enc (concat addr))"
proof -
  let ?z = "replicate 16 0 :: bytes"
  define k1 k2 where "k1 = gf_mulx (enc ?z)" and "k2 = gf_mulx k1"
  have cur: "omac_ok (omac_next_elem addr)" "omac_stream (omac_next_elem addr) = concat addr"
    using addr omac_next_elem_ok [of addr] by (auto simp: omac_next_elem_def omac_ok_def omac_stream_def)
  have len: "sum_list (map length addr) = length (concat addr)" by (simp add: length_concat)
  show ?thesis
  proof (cases "concat addr = []")
    case True
    then have "omac_blocks enc (length (concat addr)) ?z (omac_next_elem addr) = Some (0, ?z, omac_next_elem addr)"
      unfolding True by (simp add: omac_blocks.simps)
    then show ?thesis
      using omac_tail [OF cur(1), of 0 ?z enc k2 k1] cur(2)
      unfolding omac1_aes_128_vector_def len cmac_def True by (auto simp: Let_def k1_def k2_def)
  next
    case False
    obtain left' cbc' cur' where b: "omac_blocks enc (length (concat addr)) ?z (omac_next_elem addr) = Some (left', cbc', cur')"
      "length cbc' = 16" "omac_ok cur'" "left' = length (omac_stream cur')" "left' < 16"
      "cmac_from enc k1 k2 ?z (concat addr) =
        (if left' = 0 then enc (xor_octets cbc' k1) else cmac_from enc k1 k2 cbc' (omac_stream cur'))"
      using omac_blocks_cmac [of enc "omac_next_elem addr" "length (concat addr)" ?z k1 k2, OF enc cur(1)] False cur(2) by auto
    show ?thesis
    proof (cases "left' = 0")
      case True
      then show ?thesis using b \<open>concat addr \<noteq> []\<close>
        by (auto simp: omac1_aes_128_vector_def len cmac_def Let_def xor_octets_commute simp flip: k1_def k2_def)
    next
      case False
      then show ?thesis using b omac_tail [OF b(3,4,5,2), of enc k2 k1]
        by (auto simp: omac1_aes_128_vector_def len cmac_def Let_def simp flip: k1_def k2_def)
    qed
  qed
qed

lemma length_cmac_from:
  "(\<And>b. length b = 16 \<Longrightarrow> length (enc b) = 16) \<Longrightarrow> length k1 = 16 \<Longrightarrow> length k2 = 16 \<Longrightarrow> length c = 16 \<Longrightarrow>
   length (cmac_from enc k1 k2 c m) = 16"
proof (induction enc k1 k2 c m rule: cmac_from.induct)
  case (1 enc k1 k2 c m)
  then show ?case by (subst cmac_from.simps) simp
qed

lemma length_cmac: "(\<And>b. length b = 16 \<Longrightarrow> length (enc b) = 16) \<Longrightarrow> length (cmac enc m) = 16"
  by (simp add: cmac_def Let_def length_cmac_from)

lemma unat_double: "unat (push_bit 1 x :: u8) = 2 * unat x mod 256"
  by (simp add: push_bit_eq_mult unat_word_ariths mult.commute)

lemma unat_shift_in: "unat (push_bit 1 x OR drop_bit 7 y :: u8) = 2 * unat x mod 256 + unat y div 128"
proof -
  have y: "unat (drop_bit 7 y) = unat y div 128"
    using unat_drop_bit_eq [of 7 y] by (simp add: drop_bit_eq_div [of 7 "unat y"])
  have "push_bit 1 x AND drop_bit 7 y = 0"
    by (rule bit_word_eqI) (simp only: bit_and_iff bit_push_bit_iff bit_drop_bit_eq bit_0_eq comp_def,
        auto dest: bit_imp_le_length)
  then have "unat (push_bit 1 x) AND unat (drop_bit 7 y) = 0"
    by (simp only: unsigned_and_eq [symmetric]) simp
  then have "unat (push_bit 1 x) + unat (drop_bit 7 y) = unat (push_bit 1 x) OR unat (drop_bit 7 y)"
    by (rule disjunctive_add_eq_or)
  then show ?thesis unfolding unat_double y by (simp only: unsigned_or_eq unat_double y)
qed

lemma shift_carry:
  assumes "w < (m :: nat)" "v < (256 :: nat)"
  shows "2 * (v * m + w) div (256 * m) = v div 128"
proof (cases "v < 128")
  case True
  then obtain a where a: "v * m = a" "a \<le> 127 * m" by simp
  then have "2 * (v * m + w) < 256 * m" unfolding a(1) using a(2) assms(1) by simp
  then show ?thesis using True by simp
next
  case False
  then obtain a where a: "v * m = a" "128 * m \<le> a" "a \<le> 255 * m" using assms(2) by simp
  have "2 * (v * m + w) div (256 * m) = 1"
    unfolding a(1) using a(2,3) assms(1) by (intro div_nat_eqI) simp_all
  moreover have "v div 128 = 1" using False assms(2) by (intro div_nat_eqI) simp_all
  ultimately show ?thesis by simp
qed

lemma shift_value:
  assumes "z < (M :: nat)"
  shows "(2 * u mod 256 + 2 * z div M) * M + 2 * z mod M = 2 * (u * M + z) mod (256 * M)"
proof -
  define k r where "k = 2 * z div M" and "r = 2 * z mod M"
  have M: "0 < M" using assms by simp
  have k: "k \<le> 1" using assms less_mult_imp_div_less [of "2 * z" 2 M] by (simp add: k_def)
  have r: "r < M" using M by (simp add: r_def)
  have zkr: "2 * z = k * M + r" by (simp add: k_def r_def)
  define X where "X = 2 * u mod 256 + k"
  have "2 * u mod 256 \<le> 254" using mod_mult_mult1 [of 2 u 128] mod_less_divisor [of 128 u] by simp
  then have "X \<le> 255" using k by (simp add: X_def)
  then have "X * M \<le> 255 * M" by simp
  then have lt: "X * M + r < 256 * M" using r by linarith
  have "2 * u = 256 * (2 * u div 256) + 2 * u mod 256" by (rule mult_div_mod_eq [symmetric])
  then have "2 * u * M = (256 * (2 * u div 256) + 2 * u mod 256) * M" by simp
  then have "2 * (u * M + z) = 256 * M * (2 * u div 256) + (X * M + r)"
    using zkr by (simp add: X_def algebra_simps)
  then have "2 * (u * M + z) mod (256 * M) = (X * M + r) mod (256 * M)" by simp
  also have "\<dots> = X * M + r" using lt by simp
  finally show ?thesis by (simp add: X_def k_def r_def)
qed

lemma be_value_shift_left1: "be_value (shift_left1 p) = 2 * be_value p mod 256 ^ length p"
proof (induction p rule: shift_left1.induct)
  case 1
  then show ?case by simp
next
  case (2 x)
  then show ?case using unat_double [of x] by simp
next
  case (3 x y pad)
  let ?m = "256 ^ length pad :: nat"
  define u v w where "u = unat x" and "v = unat y" and "w = be_value pad"
  have w: "w < ?m" using be_value_less [of pad] by (simp add: w_def)
  have v: "v < 256" by (simp add: v_def)
  have "be_value (shift_left1 (x # y # pad)) = (2 * u mod 256 + v div 128) * (256 * ?m) + 2 * (v * ?m + w) mod (256 * ?m)"
    using 3 unat_shift_in [of x y] by (simp add: u_def v_def w_def)
  also have "\<dots> = 2 * (u * (256 * ?m) + (v * ?m + w)) mod (256 * (256 * ?m))"
  proof -
    have "v * ?m \<le> 255 * ?m" using v by simp
    then have "v * ?m + w < 256 * ?m" using w by linarith
    then show ?thesis using shift_value [of "v * ?m + w" "256 * ?m" u] by (simp only: shift_carry [OF w v])
  qed
  finally show ?case by (simp add: u_def v_def w_def)
qed

lemma top_bit_set: "(x :: u8) AND 0x80 \<noteq> 0 \<longleftrightarrow> 128 \<le> unat x"
proof -
  have "x AND 2 ^ 7 \<noteq> 0 \<longleftrightarrow> bit (unat x) 7"
    by (subst and_exp_eq_0_iff_not_bit) (simp add: bit_unsigned_iff)
  also have "\<dots> \<longleftrightarrow> unat x div 128 \<noteq> 0"
  proof -
    have "unat x div 128 < 2" using unat_u8_less [of x] by (intro less_mult_imp_div_less) simp
    then show ?thesis by (auto simp: bit_iff_odd less_2_cases_iff)
  qed
  finally show ?thesis by (simp add: div_greater_zero_iff)
qed

lemma be_value_xor_last:
  "be_value (p @ [x XOR c]) = be_value (p @ [x]) XOR unat c"
proof (rule bit_eqI)
  fix n
  have m: "bit ((a :: nat) * 256 + unat (z :: u8)) n = (if n < 8 then bit z n else bit a (n - 8))" for a z
  proof -
    have "push_bit 8 a AND unat z = 0"
      by (rule bit_eqI) (auto simp: bit_simps dest: bit_imp_le_length)
    then have "a * 256 + unat z = push_bit 8 a OR unat z"
      by (simp add: disjunctive_add_eq_or push_bit_eq_mult mult.commute)
    then show ?thesis by (auto simp: bit_simps dest: bit_imp_le_length)
  qed
  show "bit (be_value (p @ [x XOR c])) n = bit (be_value (p @ [x]) XOR unat c) n"
    by (auto simp: be_value_append m bit_simps dest: bit_imp_le_length)
qed

text \<open>Doubling in the field with \<open>2\<^sup>1\<^sup>2\<^sup>8\<close> elements, on the 128-bit numbers that the blocks encode.\<close>

definition gf128_double :: "nat \<Rightarrow> nat" where
  "gf128_double v = (2 * v mod 2 ^ 128) XOR (if 2 ^ 127 \<le> v then 0x87 else 0)"

lemma gf_mulx_doubles:
  assumes "length p = 16"
  shows "be_value (gf_mulx p) = gf128_double (be_value p)"
proof -
  obtain x q where p: "p = x # q" "length q = 15" using assms by (cases p) auto
  have c: "p ! 0 AND 0x80 \<noteq> 0 \<longleftrightarrow> 2 ^ 127 \<le> be_value p"
  proof -
    have "p ! 0 AND 0x80 \<noteq> 0 \<longleftrightarrow> 128 \<le> unat x"
      using top_bit_set [of x] p by simp
    also have "\<dots> \<longleftrightarrow> 2 ^ 127 \<le> be_value p"
      using be_value_less [of q] p mult_le_mono1 [of "unat x" 127 "256 ^ 15"] mult_le_mono1 [of 128 "unat x" "256 ^ 15"]
      by (cases "128 \<le> unat x") auto
    finally show ?thesis .
  qed
  have s: "be_value (shift_left1 p) = 2 * be_value p mod 2 ^ 128"
    using be_value_shift_left1 [of p] assms by simp
  obtain r y where r: "shift_left1 p = r @ [y]" "length r = 15"
    using assms by (cases "shift_left1 p" rule: rev_cases) (auto dest: arg_cong [of _ _ length])
  have "be_value ((shift_left1 p)[15 := shift_left1 p ! 15 XOR 0x87]) = be_value (shift_left1 p) XOR 0x87"
    using be_value_xor_last [where p = r and x = y and c = "0x87"] r by (simp add: list_update_append nth_append)
  then show ?thesis using c s by (simp add: gf_mulx_def gf128_double_def Let_def)
qed

section \<open>Properties\<close>

text \<open>A concrete block cipher for the witnesses: exclusive or with a fixed block after a rotation by one octet.\<close>

definition toy_key :: bytes where
  "toy_key = map word_of_nat [1..<17]"

definition toy_enc :: "bytes \<Rightarrow> bytes" where
  "toy_enc b = xor_octets (rotate1 b) toy_key"

definition toy_dec :: "bytes \<Rightarrow> bytes" where
  "toy_dec b = rotate 15 (xor_octets b toy_key)"

lemma toy_block_cipher: "block_cipher toy_enc toy_dec"
proof -
  have k: "length toy_key = 16" by (simp add: toy_key_def)
  have r: "rotate 15 (rotate1 b) = b" "rotate1 (rotate 15 b) = b" if "length b = 16" for b :: bytes
    using that rotate_conv_mod [of 16 b] rotate_Suc [of 15 b] rotate1_rotate_swap [of 15 b] by simp_all
  show ?thesis
    by (auto simp: block_cipher_def toy_enc_def toy_dec_def k r xor_octets_cancel)
qed

text \<open>C33. Key wrap and key unwrap are inverse to each other: whatever \<^verbatim>\<open>aes_wrap\<close> makes of a key of \<open>n\<close> 64-bit
  registers, \<^verbatim>\<open>aes_unwrap\<close> accepts and takes back to that key; and a cipher text that \<^verbatim>\<open>aes_unwrap\<close> accepts is
  the one that wrapping its result gives, so that no two cipher texts unwrap to the same key.\<close>

theorem aes_key_wrap_inverse:
  assumes "block_cipher enc dec" "length plain = 8 * n" "length cipher = 8 * (n + 1)"
  shows "(\<exists>c. aes_wrap (Some enc) n plain = Some c \<and> length c = 8 * (n + 1) \<and> aes_unwrap (Some dec) n c = Some plain) \<and>
    (aes_unwrap (Some dec) n cipher = Some key \<longrightarrow> length key = 8 * n \<and> aes_wrap (Some enc) n key = Some cipher)"
  using wrap_roundtrip [OF assms(1,2)] unwrap_sound [OF assms(1,3)] by blast

theorem aes_key_wrap_inverse_witness:
  "(\<exists>c. aes_wrap (Some toy_enc) 1 [1, 2, 3, 4, 5, 6, 7, 8] = Some c \<and> length c = 16 \<and>
     aes_unwrap (Some toy_dec) 1 c = Some [1, 2, 3, 4, 5, 6, 7, 8]) \<and>
   aes_wrap (Some toy_enc) 1 [1, 2, 3, 4, 5, 6, 7, 8] =
     Some [161, 167, 11, 1, 15, 1, 11, 1, 0, 9, 189, 183, 185, 183, 189, 183]"
proof -
  have "aes_unwrap (Some toy_dec) 1 [161, 167, 11, 1, 15, 1, 11, 1, 0, 9, 189, 183, 185, 183, 189, 183] =
    Some [1, 2, 3, 4, 5, 6, 7, 8]"
    by code_simp
  then show ?thesis
    using aes_key_wrap_inverse [OF toy_block_cipher, of "[1, 2, 3, 4, 5, 6, 7, 8]" 1
        "[161, 167, 11, 1, 15, 1, 11, 1, 0, 9, 189, 183, 185, 183, 189, 183]" "[1, 2, 3, 4, 5, 6, 7, 8]"] by simp
qed

text \<open>C34. Over any vector of non-empty elements the MAC computed by \<^verbatim>\<open>omac1_aes_128_vector\<close>, which walks the elements
  octet by octet, is the CMAC of NIST SP 800-38B of their concatenation, however the data is cut into elements (one
  empty element stands for the empty message); and the subkeys, which \<^verbatim>\<open>gf_mulx\<close> makes by shifting octets, are
  doubles in the field with \<open>2\<^sup>1\<^sup>2\<^sup>8\<close> elements.\<close>

theorem omac1_vector_is_cmac:
  assumes "\<forall>b. length b = 16 \<longrightarrow> length (enc b) = 16" "[] \<notin> set addr \<or> addr = [[]]" "length p = 16"
  shows "omac1_aes_128_vector (Some enc) addr = Some (cmac enc (concat addr)) \<and>
    be_value (gf_mulx p) = gf128_double (be_value p)"
  using omac1_vector_cmac [of enc addr] gf_mulx_doubles [of p] assms by blast

theorem omac1_vector_is_cmac_witness:
  "omac1_aes_128_vector (Some toy_enc) [[1, 2, 3], replicate 20 7] = Some (cmac toy_enc ([1, 2, 3] @ replicate 20 7)) \<and>
   be_value (gf_mulx (replicate 16 0x81)) = gf128_double (be_value (replicate 16 0x81))"
  using omac1_vector_is_cmac [of toy_enc "[[1, 2, 3], replicate 20 7]" "replicate 16 0x81"] toy_block_cipher
  by (simp add: block_cipher_def)

text \<open>C35. EAX: what \<^verbatim>\<open>aes_128_eax_encrypt\<close> produces under a nonce and a header, \<^verbatim>\<open>aes_128_eax_decrypt\<close> accepts under
  the same nonce and header and turns back into the data.  With any other tag it answers -2, and it then leaves the
  data area as it was: nothing is decrypted before the tag has been verified.\<close>

theorem eax_roundtrip:
  assumes "\<forall>b. length b = 16 \<longrightarrow> length (enc b) = 16"
  shows "\<exists>c tag. aes_128_eax_encrypt True (Some enc) nonce hdr data = Some (c, tag) \<and> length c = length data \<and>
    aes_128_eax_decrypt True (Some enc) nonce hdr c tag = (0, data) \<and>
    (\<forall>tag'. tag' \<noteq> tag \<longrightarrow> aes_128_eax_decrypt True (Some enc) nonce hdr c tag' = (-2, c))"
proof -
  have enc: "\<And>b. length b = 16 \<Longrightarrow> length (enc b) = 16" using assms by blast
  have o: "omac1_aes_128 (Some enc) (eax_buf t d) = Some (cmac enc (eax_buf t d))" for t d
    using omac1_vector_cmac [of enc "[eax_buf t d]", OF enc] by (simp add: omac1_aes_128_def eax_buf_def)
  show ?thesis
    using ctr_involution [of enc, OF enc length_cmac [of enc, OF enc]]
    by (simp add: aes_128_eax_encrypt_def aes_128_eax_decrypt_def o aes_128_ctr_encrypt_def)
qed

theorem eax_roundtrip_witness:
  "\<exists>c tag. aes_128_eax_encrypt True (Some toy_enc) [1] [2] [3, 4] = Some (c, tag) \<and> length c = length [3 :: u8, 4] \<and>
    aes_128_eax_decrypt True (Some toy_enc) [1] [2] c tag = (0, [3, 4]) \<and>
    (\<forall>tag'. tag' \<noteq> tag \<longrightarrow> aes_128_eax_decrypt True (Some toy_enc) [1] [2] c tag' = (-2, c))"
  using eax_roundtrip [of toy_enc "[1]" "[2]" "[3, 4]"] toy_block_cipher by (simp add: block_cipher_def)

end
