(* ===== verification/Wpa_Common.thy ===== *)
theory Wpa_Common
  imports Hmac Pmksa_Cache
begin

text \<open>
  The WPA and RSN routines that authenticator and supplicant share, \<^verbatim>\<open>src/common/wpa_common.c\<close> with
  \<^verbatim>\<open>wpa_common.h\<close> and the key management predicates of \<^verbatim>\<open>defs.h\<close>: the MIC of EAPOL-Key frames, the pairwise key
  hierarchy and the parser of the RSN information element.  Bit masks of the C type \<^verbatim>\<open>int\<close> are integers.  A parser
  returns its result code and the structure as it has been filled in.
\<close>

section \<open>Cipher and key management suites\<close>

abbreviation (input) WPA_CIPHER_NONE :: int where "WPA_CIPHER_NONE \<equiv> 1"
abbreviation (input) WPA_CIPHER_WEP40 :: int where "WPA_CIPHER_WEP40 \<equiv> 2"
abbreviation (input) WPA_CIPHER_WEP104 :: int where "WPA_CIPHER_WEP104 \<equiv> 4"
abbreviation (input) WPA_CIPHER_TKIP :: int where "WPA_CIPHER_TKIP \<equiv> 8"
abbreviation (input) WPA_CIPHER_CCMP :: int where "WPA_CIPHER_CCMP \<equiv> 16"

abbreviation (input) WPA_KEY_MGMT_IEEE8021X :: int where "WPA_KEY_MGMT_IEEE8021X \<equiv> 1"
abbreviation (input) WPA_KEY_MGMT_PSK :: int where "WPA_KEY_MGMT_PSK \<equiv> 2"
abbreviation (input) WPA_KEY_MGMT_NONE :: int where "WPA_KEY_MGMT_NONE \<equiv> 4"
abbreviation (input) WPA_KEY_MGMT_IEEE8021X_NO_WPA :: int where "WPA_KEY_MGMT_IEEE8021X_NO_WPA \<equiv> 8"
abbreviation (input) WPA_KEY_MGMT_WPA_NONE :: int where "WPA_KEY_MGMT_WPA_NONE \<equiv> 16"
abbreviation (input) WPA_KEY_MGMT_FT_IEEE8021X :: int where "WPA_KEY_MGMT_FT_IEEE8021X \<equiv> 32"
abbreviation (input) WPA_KEY_MGMT_FT_PSK :: int where "WPA_KEY_MGMT_FT_PSK \<equiv> 64"
abbreviation (input) WPA_KEY_MGMT_IEEE8021X_SHA256 :: int where "WPA_KEY_MGMT_IEEE8021X_SHA256 \<equiv> 128"
abbreviation (input) WPA_KEY_MGMT_PSK_SHA256 :: int where "WPA_KEY_MGMT_PSK_SHA256 \<equiv> 256"

abbreviation (input) WPA_PROTO_WPA :: int where "WPA_PROTO_WPA \<equiv> 1"
abbreviation (input) WPA_PROTO_RSN :: int where "WPA_PROTO_RSN \<equiv> 2"

definition wpa_key_mgmt_wpa_ieee8021x :: "int \<Rightarrow> bool" where
  "wpa_key_mgmt_wpa_ieee8021x akm \<longleftrightarrow>
     akm = WPA_KEY_MGMT_IEEE8021X \<or> akm = WPA_KEY_MGMT_FT_IEEE8021X \<or> akm = WPA_KEY_MGMT_IEEE8021X_SHA256"

definition wpa_key_mgmt_wpa_psk :: "int \<Rightarrow> bool" where
  "wpa_key_mgmt_wpa_psk akm \<longleftrightarrow>
     akm = WPA_KEY_MGMT_PSK \<or> akm = WPA_KEY_MGMT_FT_PSK \<or> akm = WPA_KEY_MGMT_PSK_SHA256"

definition wpa_key_mgmt_ft :: "int \<Rightarrow> bool" where
  "wpa_key_mgmt_ft akm \<longleftrightarrow> akm = WPA_KEY_MGMT_FT_PSK \<or> akm = WPA_KEY_MGMT_FT_IEEE8021X"

definition RSN_SELECTOR :: "u32 \<Rightarrow> u32 \<Rightarrow> u32 \<Rightarrow> u32 \<Rightarrow> u32" where
  "RSN_SELECTOR a b c d = push_bit 24 a OR push_bit 16 b OR push_bit 8 c OR d"

definition WPA_AUTH_KEY_MGMT_NONE :: u32 where "WPA_AUTH_KEY_MGMT_NONE = RSN_SELECTOR 0x00 0x50 0xf2 0"
definition WPA_AUTH_KEY_MGMT_UNSPEC_802_1X :: u32 where "WPA_AUTH_KEY_MGMT_UNSPEC_802_1X = RSN_SELECTOR 0x00 0x50 0xf2 1"
definition WPA_AUTH_KEY_MGMT_PSK_OVER_802_1X :: u32 where "WPA_AUTH_KEY_MGMT_PSK_OVER_802_1X = RSN_SELECTOR 0x00 0x50 0xf2 2"
definition WPA_CIPHER_SUITE_NONE :: u32 where "WPA_CIPHER_SUITE_NONE = RSN_SELECTOR 0x00 0x50 0xf2 0"
definition WPA_CIPHER_SUITE_WEP40 :: u32 where "WPA_CIPHER_SUITE_WEP40 = RSN_SELECTOR 0x00 0x50 0xf2 1"
definition WPA_CIPHER_SUITE_TKIP :: u32 where "WPA_CIPHER_SUITE_TKIP = RSN_SELECTOR 0x00 0x50 0xf2 2"
definition WPA_CIPHER_SUITE_CCMP :: u32 where "WPA_CIPHER_SUITE_CCMP = RSN_SELECTOR 0x00 0x50 0xf2 4"
definition WPA_CIPHER_SUITE_WEP104 :: u32 where "WPA_CIPHER_SUITE_WEP104 = RSN_SELECTOR 0x00 0x50 0xf2 5"
definition WPA_OUI_TYPE :: u32 where "WPA_OUI_TYPE = RSN_SELECTOR 0x00 0x50 0xf2 1"

definition RSN_AUTH_KEY_MGMT_UNSPEC_802_1X :: u32 where "RSN_AUTH_KEY_MGMT_UNSPEC_802_1X = RSN_SELECTOR 0x00 0x0f 0xac 1"
definition RSN_AUTH_KEY_MGMT_PSK_OVER_802_1X :: u32 where "RSN_AUTH_KEY_MGMT_PSK_OVER_802_1X = RSN_SELECTOR 0x00 0x0f 0xac 2"
definition RSN_CIPHER_SUITE_NONE :: u32 where "RSN_CIPHER_SUITE_NONE = RSN_SELECTOR 0x00 0x0f 0xac 0"
definition RSN_CIPHER_SUITE_WEP40 :: u32 where "RSN_CIPHER_SUITE_WEP40 = RSN_SELECTOR 0x00 0x0f 0xac 1"
definition RSN_CIPHER_SUITE_TKIP :: u32 where "RSN_CIPHER_SUITE_TKIP = RSN_SELECTOR 0x00 0x0f 0xac 2"
definition RSN_CIPHER_SUITE_CCMP :: u32 where "RSN_CIPHER_SUITE_CCMP = RSN_SELECTOR 0x00 0x0f 0xac 4"
definition RSN_CIPHER_SUITE_WEP104 :: u32 where "RSN_CIPHER_SUITE_WEP104 = RSN_SELECTOR 0x00 0x0f 0xac 5"

definition RSN_KEY_DATA_GROUPKEY :: u32 where "RSN_KEY_DATA_GROUPKEY = RSN_SELECTOR 0x00 0x0f 0xac 1"
definition RSN_KEY_DATA_MAC_ADDR :: u32 where "RSN_KEY_DATA_MAC_ADDR = RSN_SELECTOR 0x00 0x0f 0xac 3"
definition RSN_KEY_DATA_PMKID :: u32 where "RSN_KEY_DATA_PMKID = RSN_SELECTOR 0x00 0x0f 0xac 4"

lemmas suite_defs =
  WPA_AUTH_KEY_MGMT_NONE_def WPA_AUTH_KEY_MGMT_UNSPEC_802_1X_def WPA_AUTH_KEY_MGMT_PSK_OVER_802_1X_def
  WPA_CIPHER_SUITE_NONE_def WPA_CIPHER_SUITE_WEP40_def WPA_CIPHER_SUITE_TKIP_def WPA_CIPHER_SUITE_CCMP_def
  WPA_CIPHER_SUITE_WEP104_def WPA_OUI_TYPE_def RSN_AUTH_KEY_MGMT_UNSPEC_802_1X_def
  RSN_AUTH_KEY_MGMT_PSK_OVER_802_1X_def RSN_CIPHER_SUITE_NONE_def RSN_CIPHER_SUITE_WEP40_def
  RSN_CIPHER_SUITE_TKIP_def RSN_CIPHER_SUITE_CCMP_def RSN_CIPHER_SUITE_WEP104_def RSN_KEY_DATA_GROUPKEY_def
  RSN_KEY_DATA_MAC_ADDR_def RSN_KEY_DATA_PMKID_def RSN_SELECTOR_def

definition RSN_SELECTOR_GET :: "bytes \<Rightarrow> u32" where
  "RSN_SELECTOR_GET a = WPA_GET_BE32 a"

definition RSN_SELECTOR_PUT :: "u32 \<Rightarrow> bytes" where
  "RSN_SELECTOR_PUT val = WPA_PUT_BE32 val"

abbreviation (input) RSN_SELECTOR_LEN :: nat where "RSN_SELECTOR_LEN \<equiv> 4"
abbreviation (input) WPA_SELECTOR_LEN :: nat where "WPA_SELECTOR_LEN \<equiv> 4"
abbreviation (input) RSN_VERSION :: u16 where "RSN_VERSION \<equiv> 1"
abbreviation (input) WPA_VERSION :: u16 where "WPA_VERSION \<equiv> 1"
abbreviation (input) WLAN_EID_RSN :: u8 where "WLAN_EID_RSN \<equiv> 48"
abbreviation (input) WLAN_EID_VENDOR_SPECIFIC :: u8 where "WLAN_EID_VENDOR_SPECIFIC \<equiv> 221"
abbreviation (input) ETH_ALEN :: nat where "ETH_ALEN \<equiv> 6"
abbreviation (input) WPA_NONCE_LEN :: nat where "WPA_NONCE_LEN \<equiv> 32"

section \<open>Keys of the EAPOL-Key exchange\<close>

abbreviation (input) WPA_KEY_INFO_TYPE_HMAC_MD5_RC4 :: nat where "WPA_KEY_INFO_TYPE_HMAC_MD5_RC4 \<equiv> 1"
abbreviation (input) WPA_KEY_INFO_TYPE_HMAC_SHA1_AES :: nat where "WPA_KEY_INFO_TYPE_HMAC_SHA1_AES \<equiv> 2"
abbreviation (input) WPA_KEY_INFO_TYPE_AES_128_CMAC :: nat where "WPA_KEY_INFO_TYPE_AES_128_CMAC \<equiv> 3"

definition wpa_eapol_key_mic :: "bytes \<Rightarrow> nat \<Rightarrow> bytes \<Rightarrow> bytes option" where
  "wpa_eapol_key_mic key ver buf =
     (if ver = WPA_KEY_INFO_TYPE_HMAC_MD5_RC4 then hmac_md5 (take 16 key) buf
      else if ver = WPA_KEY_INFO_TYPE_HMAC_SHA1_AES then
        (case hmac_sha1 (take 16 key) buf of None \<Rightarrow> None | Some hash \<Rightarrow> Some (take 16 hash))
      else None)"

text \<open>The order of \<^verbatim>\<open>os_memcmp\<close>: negative exactly if the first octet that differs is smaller.\<close>

fun memcmp_less :: "bytes \<Rightarrow> bytes \<Rightarrow> bool" where
  "memcmp_less (x # xs) (y # ys) = (if x = y then memcmp_less xs ys else x < y)"
| "memcmp_less _ _ = False"

definition wpa_pmk_to_ptk ::
  "bytes \<Rightarrow> bytes \<Rightarrow> bytes \<Rightarrow> bytes \<Rightarrow> bytes \<Rightarrow> bytes \<Rightarrow> nat \<Rightarrow> bytes option" where
  "wpa_pmk_to_ptk pmk label addr1 addr2 nonce1 nonce2 ptk_len =
     (let data = (if memcmp_less addr1 addr2 then addr1 @ addr2 else addr2 @ addr1);
          data = data @ (if memcmp_less nonce1 nonce2 then nonce1 @ nonce2 else nonce2 @ nonce1)
      in sha1_prf pmk label data ptk_len)"

text \<open>The keyed hash of \<^verbatim>\<open>rsn_pmkid\<close> in a build without IEEE 802.11w.\<close>

definition rsn_pmkid_hmac :: hmac where
  "rsn_pmkid_hmac use_sha256 key msg = (case hmac_sha1_vector key msg of None \<Rightarrow> [] | Some hash \<Rightarrow> hash)"

record wpa_ptk =
  kck :: bytes
  kek :: bytes
  tk1 :: bytes
  tk2 :: bytes

definition wpa_ptk_zero :: wpa_ptk where
  "wpa_ptk_zero = \<lparr>kck = replicate 16 0, kek = replicate 16 0, tk1 = replicate 16 0, tk2 = replicate 16 0\<rparr>"

text \<open>A packed structure over the octets that a key derivation has written; octets behind them keep their value, which
  \<open>old\<close> gives.\<close>

definition wpa_ptk_of :: "bytes \<Rightarrow> wpa_ptk \<Rightarrow> wpa_ptk" where
  "wpa_ptk_of b old =
     (let m = overwrite 0 b (kck old @ kek old @ tk1 old @ tk2 old) in
      \<lparr>kck = take 16 m, kek = take 16 (drop 16 m), tk1 = take 16 (drop 32 m), tk2 = take 16 (drop 48 m)\<rparr>)"

section \<open>The RSN information element\<close>

record wpa_ie_data =
  proto :: int
  pairwise_cipher :: int
  group_cipher :: int
  key_mgmt :: int
  capabilities :: int
  pmkids :: "bytes list"
  mgmt_group_cipher :: int

definition rsn_selector_to_bitfield :: "bytes \<Rightarrow> int" where
  "rsn_selector_to_bitfield s =
     (if RSN_SELECTOR_GET s = RSN_CIPHER_SUITE_NONE then WPA_CIPHER_NONE
      else if RSN_SELECTOR_GET s = RSN_CIPHER_SUITE_WEP40 then WPA_CIPHER_WEP40
      else if RSN_SELECTOR_GET s = RSN_CIPHER_SUITE_TKIP then WPA_CIPHER_TKIP
      else if RSN_SELECTOR_GET s = RSN_CIPHER_SUITE_CCMP then WPA_CIPHER_CCMP
      else if RSN_SELECTOR_GET s = RSN_CIPHER_SUITE_WEP104 then WPA_CIPHER_WEP104
      else 0)"

definition rsn_key_mgmt_to_bitfield :: "bytes \<Rightarrow> int" where
  "rsn_key_mgmt_to_bitfield s =
     (if RSN_SELECTOR_GET s = RSN_AUTH_KEY_MGMT_UNSPEC_802_1X then WPA_KEY_MGMT_IEEE8021X
      else if RSN_SELECTOR_GET s = RSN_AUTH_KEY_MGMT_PSK_OVER_802_1X then WPA_KEY_MGMT_PSK
      else 0)"

text \<open>The loop over \<open>count\<close> suite selectors: the mask and the position behind them.\<close>

fun suite_loop :: "(bytes \<Rightarrow> int) \<Rightarrow> nat \<Rightarrow> int \<Rightarrow> bytes \<Rightarrow> int \<times> bytes" where
  "suite_loop f 0 suites pos = (suites, pos)"
| "suite_loop f (Suc count) suites pos = suite_loop f count (suites OR f pos) (drop RSN_SELECTOR_LEN pos)"

text \<open>The three groups of suites, which the parsers of the RSN and of the WPA element treat alike: the result code
  (0 to go on), the data and the position.\<close>

definition parse_group_suite :: "(bytes \<Rightarrow> int) \<Rightarrow> wpa_ie_data \<Rightarrow> bytes \<Rightarrow> int \<times> wpa_ie_data \<times> bytes" where
  "parse_group_suite f data pos =
     (if length pos \<ge> RSN_SELECTOR_LEN then (0, data\<lparr>group_cipher := f pos\<rparr>, drop RSN_SELECTOR_LEN pos)
      else if length pos > 0 then (-3, data, pos)
      else (0, data, pos))"

definition parse_pairwise_suites :: "(bytes \<Rightarrow> int) \<Rightarrow> wpa_ie_data \<Rightarrow> bytes \<Rightarrow> int \<times> wpa_ie_data \<times> bytes" where
  "parse_pairwise_suites f data pos =
     (if length pos \<ge> 2 then
        let data = data\<lparr>pairwise_cipher := 0\<rparr>;
            count = unat (WPA_GET_LE16 pos);
            pos = drop 2 pos in
        if count = 0 \<or> length pos < count * RSN_SELECTOR_LEN then (-4, data, pos)
        else
          let (suites, pos) = suite_loop f count 0 pos in (0, data\<lparr>pairwise_cipher := suites\<rparr>, pos)
      else if length pos = 1 then (-5, data, pos)
      else (0, data, pos))"

definition parse_key_mgmt_suites :: "(bytes \<Rightarrow> int) \<Rightarrow> wpa_ie_data \<Rightarrow> bytes \<Rightarrow> int \<times> wpa_ie_data \<times> bytes" where
  "parse_key_mgmt_suites f data pos =
     (if length pos \<ge> 2 then
        let data = data\<lparr>key_mgmt := 0\<rparr>;
            count = unat (WPA_GET_LE16 pos);
            pos = drop 2 pos in
        if count = 0 \<or> length pos < count * RSN_SELECTOR_LEN then (-6, data, pos)
        else
          let (suites, pos) = suite_loop f count 0 pos in (0, data\<lparr>key_mgmt := suites\<rparr>, pos)
      else if length pos = 1 then (-7, data, pos)
      else (0, data, pos))"

definition parse_capabilities :: "wpa_ie_data \<Rightarrow> bytes \<Rightarrow> wpa_ie_data \<times> bytes" where
  "parse_capabilities data pos =
     (if length pos \<ge> 2 then (data\<lparr>capabilities := uint (WPA_GET_LE16 pos)\<rparr>, drop 2 pos) else (data, pos))"

text \<open>The list of PMKIDs as the entries \<^verbatim>\<open>&data.pmkid[i * PMKID_LEN]\<close> for \<open>i < num_pmkid\<close>.\<close>

definition parse_pmkids :: "wpa_ie_data \<Rightarrow> bytes \<Rightarrow> int \<times> wpa_ie_data" where
  "parse_pmkids data pos =
     (if length pos \<ge> 2 then
        let num_pmkid = unat (WPA_GET_LE16 pos);
            pos = drop 2 pos in
        if length pos < num_pmkid * PMKID_LEN then (-9, data)
        else (0, data\<lparr>pmkids := map (\<lambda>i. take PMKID_LEN (drop (i * PMKID_LEN) pos)) [0..<num_pmkid]\<rparr>)
      else (0, data))"

definition wpa_parse_wpa_ie_rsn :: "bytes \<Rightarrow> int \<times> wpa_ie_data" where
  "wpa_parse_wpa_ie_rsn rsn_ie =
     (let data = \<lparr>proto = WPA_PROTO_RSN, pairwise_cipher = WPA_CIPHER_CCMP, group_cipher = WPA_CIPHER_CCMP,
            key_mgmt = WPA_KEY_MGMT_IEEE8021X, capabilities = 0, pmkids = [], mgmt_group_cipher = 0\<rparr> in
      if rsn_ie = [] then (-1, data)
      else if length rsn_ie < 4 then (-1, data)
      else if rsn_ie ! 0 \<noteq> WLAN_EID_RSN \<or> unat (rsn_ie ! 1) \<noteq> length rsn_ie - 2 \<or>
              WPA_GET_LE16 (drop 2 rsn_ie) \<noteq> RSN_VERSION then (-2, data)
      else
        let pos = drop 4 rsn_ie;
            (res, data, pos) = parse_group_suite rsn_selector_to_bitfield data pos in
        if res \<noteq> 0 then (res, data)
        else
          let (res, data, pos) = parse_pairwise_suites rsn_selector_to_bitfield data pos in
          if res \<noteq> 0 then (res, data)
          else
            let (res, data, pos) = parse_key_mgmt_suites rsn_key_mgmt_to_bitfield data pos in
            if res \<noteq> 0 then (res, data)
            else
              let (data, pos) = parse_capabilities data pos in parse_pmkids data pos)"

text \<open>Two elements, or \<open>None\<close> for a null pointer, are compared octet by octet; the fast transition variant is not
  built.\<close>

definition wpa_compare_rsn_ie :: "bytes option \<Rightarrow> bytes option \<Rightarrow> int" where
  "wpa_compare_rsn_ie ie1 ie2 =
     (case (ie1, ie2) of (Some a, Some b) \<Rightarrow> if a = b then 0 else -1 | _ \<Rightarrow> -1)"

definition wpa_cipher_txt :: "int \<Rightarrow> string" where
  "wpa_cipher_txt cipher =
     (if cipher = WPA_CIPHER_NONE then ''NONE''
      else if cipher = WPA_CIPHER_WEP40 then ''WEP-40''
      else if cipher = WPA_CIPHER_WEP104 then ''WEP-104''
      else if cipher = WPA_CIPHER_TKIP then ''TKIP''
      else if cipher = WPA_CIPHER_CCMP then ''CCMP''
      else if cipher = WPA_CIPHER_CCMP OR WPA_CIPHER_TKIP then ''CCMP+TKIP''
      else ''UNKNOWN'')"

definition wpa_key_mgmt_txt :: "int \<Rightarrow> int \<Rightarrow> string" where
  "wpa_key_mgmt_txt akm p =
     (if akm = WPA_KEY_MGMT_IEEE8021X then
        (if p = WPA_PROTO_RSN OR WPA_PROTO_WPA then ''WPA2+WPA/IEEE 802.1X/EAP''
         else if p = WPA_PROTO_RSN then ''WPA2/IEEE 802.1X/EAP'' else ''WPA/IEEE 802.1X/EAP'')
      else if akm = WPA_KEY_MGMT_PSK then
        (if p = WPA_PROTO_RSN OR WPA_PROTO_WPA then ''WPA2-PSK+WPA-PSK''
         else if p = WPA_PROTO_RSN then ''WPA2-PSK'' else ''WPA-PSK'')
      else if akm = WPA_KEY_MGMT_NONE then ''NONE''
      else if akm = WPA_KEY_MGMT_IEEE8021X_NO_WPA then ''IEEE 802.1X (no WPA)''
      else ''UNKNOWN'')"

section \<open>Both ends derive the same keys\<close>

lemma memcmp_less_total:
  "length x = length y \<Longrightarrow> \<not> memcmp_less x y \<Longrightarrow> \<not> memcmp_less y x \<Longrightarrow> x = y"
  by (induction x y rule: list_induct2) (auto split: if_splits)

lemma memcmp_less_asym: "memcmp_less x y \<Longrightarrow> \<not> memcmp_less y x"
  by (induction x y rule: memcmp_less.induct) (auto split: if_splits)

lemma memcmp_sorted_pair:
  "length x = length y \<Longrightarrow>
   (if memcmp_less x y then x @ y else y @ x) = (if memcmp_less y x then y @ x else x @ y)"
  using memcmp_less_total [of x y] memcmp_less_asym [of x y] by auto

text \<open>C37. The pairwise key hierarchy is the same at both ends of the 4-way handshake: authenticator and supplicant
  each call \<^verbatim>\<open>wpa_pmk_to_ptk\<close> with their own address and nonce first, and both obtain the same key of the
  requested length, because the data is put in order before it is hashed.\<close>

theorem ptk_same_at_both_ends:
  assumes "length aa = ETH_ALEN" "length spa = ETH_ALEN" "length anonce = WPA_NONCE_LEN"
    "length snonce = WPA_NONCE_LEN" "length pmk = PMK_LEN" "length label < 2 ^ 31"
  shows "wpa_pmk_to_ptk pmk label aa spa anonce snonce n = wpa_pmk_to_ptk pmk label spa aa snonce anonce n \<and>
    (\<exists>ptk. wpa_pmk_to_ptk pmk label aa spa anonce snonce n = Some ptk \<and> length ptk = n)"
proof
  show "wpa_pmk_to_ptk pmk label aa spa anonce snonce n = wpa_pmk_to_ptk pmk label spa aa snonce anonce n"
    using memcmp_sorted_pair [of aa spa] memcmp_sorted_pair [of anonce snonce] assms
    by (simp add: wpa_pmk_to_ptk_def Let_def)
  show "\<exists>ptk. wpa_pmk_to_ptk pmk label aa spa anonce snonce n = Some ptk \<and> length ptk = n"
    unfolding wpa_pmk_to_ptk_def Let_def by (rule sha1_prf_some) (use assms in auto)
qed

theorem ptk_same_at_both_ends_witness:
  "wpa_pmk_to_ptk (replicate 32 1) [0x50] (replicate 6 2) (replicate 6 3) (replicate 32 5) (replicate 32 4) 48 =
   wpa_pmk_to_ptk (replicate 32 1) [0x50] (replicate 6 3) (replicate 6 2) (replicate 32 4) (replicate 32 5) 48 \<and>
   (\<exists>ptk. wpa_pmk_to_ptk (replicate 32 1) [0x50] (replicate 6 2) (replicate 6 3) (replicate 32 5) (replicate 32 4) 48 =
      Some ptk \<and> length ptk = 48)"
  by (rule ptk_same_at_both_ends) simp_all

section \<open>Reading suites\<close>

lemma suite_loop_selectors:
  "suite_loop f (length sels) m (concat (map RSN_SELECTOR_PUT sels) @ rest) =
     (foldl (\<lambda>m s. m OR f (RSN_SELECTOR_PUT s @ [])) m sels, rest)"
  if "\<And>s r. f (RSN_SELECTOR_PUT s @ r) = f (RSN_SELECTOR_PUT s @ [])" for f
  using that
  by (induction sels arbitrary: m) (simp_all add: RSN_SELECTOR_PUT_def)

end
