(* ===== verification/Wpa_Auth_Data.thy ===== *)
theory Wpa_Auth_Data
  imports Wpa_Common Aes_Modes Rc4
begin

text \<open>
  The data of the WPA authenticator, \<^verbatim>\<open>src/ap/wpa_auth_i.h\<close> and \<^verbatim>\<open>wpa_auth.h\<close>, in the default build (without
  IEEE 802.11r, IEEE 802.11w and PeerKey).  A station pointer is an index into \<open>wa_stas\<close>, where a freed machine is
  \<open>None\<close>; a pointer to a group is the VLAN id of the group, which is unique in the list; a pointer into the PMKSA
  cache is an address of its heap.  \<open>wa_calls\<close> records the calls of the callbacks and of the event loop, the latest
  first; what a callback returns may depend on it.
\<close>

datatype wpa_ptk_states =
  WPA_PTK_INITIALIZE | WPA_PTK_DISCONNECT | WPA_PTK_DISCONNECTED | WPA_PTK_AUTHENTICATION |
  WPA_PTK_AUTHENTICATION2 | WPA_PTK_INITPMK | WPA_PTK_INITPSK | WPA_PTK_PTKSTART | WPA_PTK_PTKCALCNEGOTIATING |
  WPA_PTK_PTKCALCNEGOTIATING2 | WPA_PTK_PTKINITNEGOTIATING | WPA_PTK_PTKINITDONE

datatype wpa_ptk_group_states =
  WPA_PTK_GROUP_IDLE | WPA_PTK_GROUP_REKEYNEGOTIATING | WPA_PTK_GROUP_REKEYESTABLISHED | WPA_PTK_GROUP_KEYERROR

datatype wpa_version = WPA_VERSION_NO_WPA | WPA_VERSION_WPA | WPA_VERSION_WPA2

datatype wpa_group_states = WPA_GROUP_GTK_INIT | WPA_GROUP_SETKEYS | WPA_GROUP_SETKEYSDONE

datatype wpa_alg = WPA_ALG_NONE | WPA_ALG_WEP | WPA_ALG_TKIP | WPA_ALG_CCMP | WPA_ALG_IGTK | WPA_ALG_PMK

datatype wpa_eapol_variable =
  WPA_EAPOL_portEnabled | WPA_EAPOL_portValid | WPA_EAPOL_authorized | WPA_EAPOL_portControl_Auto |
  WPA_EAPOL_keyRun | WPA_EAPOL_keyAvailable | WPA_EAPOL_keyDone | WPA_EAPOL_inc_EapolFramesTx

datatype wpa_event =
  WPA_AUTH | WPA_ASSOC | WPA_DISASSOC | WPA_DEAUTH | WPA_REAUTH | WPA_REAUTH_EAPOL | WPA_ASSOC_FT

text \<open>The timeouts the authenticator registers with the event loop.\<close>

datatype wpa_timeout = T_rekey_gmk | T_rekey_gtk | T_rekey_ptk nat | T_send_eapol nat | T_call_step nat

datatype wpa_call =
  W_set_eapol bytes wpa_eapol_variable bool
| W_set_key int wpa_alg "bytes option" nat bytes
| W_send_eapol bytes bytes bool
| W_disconnect bytes
| W_mic_failure_report bytes
| W_malloc
| W_register_timeout nat nat wpa_timeout
| W_cancel_timeout wpa_timeout

record wpa_auth_config =
  wc_wpa :: int
  wc_wpa_key_mgmt :: int
  wc_wpa_pairwise :: int
  wc_wpa_group :: int
  wc_wpa_group_rekey :: nat
  wc_wpa_strict_rekey :: bool
  wc_wpa_gmk_rekey :: nat
  wc_wpa_ptk_rekey :: nat
  wc_rsn_pairwise :: int
  wc_rsn_preauth :: bool
  wc_eapol_version :: u8
  wc_peerkey :: bool
  wc_wmm_enabled :: bool
  wc_wmm_uapsd :: bool
  wc_okc :: bool

abbreviation (input) RSNA_MAX_EAPOL_RETRIES :: nat where "RSNA_MAX_EAPOL_RETRIES \<equiv> 4"
abbreviation (input) WPA_REPLAY_COUNTER_LEN :: nat where "WPA_REPLAY_COUNTER_LEN \<equiv> 8"
abbreviation (input) WPA_KEY_RSC_LEN :: nat where "WPA_KEY_RSC_LEN \<equiv> 8"
abbreviation (input) WPA_GMK_LEN :: nat where "WPA_GMK_LEN \<equiv> 32"

record wpa_state_machine =
  w_group :: int
  w_addr :: bytes
  wpa_ptk_state :: wpa_ptk_states
  wpa_ptk_group_state :: wpa_ptk_group_states
  Init :: bool
  DeauthenticationRequest :: bool
  AuthenticationRequest :: bool
  ReAuthenticationRequest :: bool
  Disconnect :: bool
  TimeoutCtr :: nat
  GTimeoutCtr :: nat
  TimeoutEvt :: bool
  EAPOLKeyReceived :: bool
  EAPOLKeyPairwise :: bool
  EAPOLKeyRequest :: bool
  MICVerified :: bool
  GUpdateStationKeys :: bool
  ANonce :: bytes
  SNonce :: bytes
  PMK :: bytes
  PTK :: wpa_ptk
  PTK_valid :: bool
  pairwise_set :: bool
  keycount :: nat
  w_Pair :: bool
  key_replay :: "(bytes \<times> bool) list"
  PInitAKeys :: bool
  PTKRequest :: bool
  has_GTK :: bool
  PtkGroupInit :: bool
  last_rx_eapol_key :: "bytes option"
  w_changed :: bool
  in_step_loop :: bool
  pending_deinit :: bool
  w_started :: bool
  req_replay_counter :: bytes
  req_replay_counter_used :: bool
  w_wpa_ie :: "bytes option"
  w_wpa :: wpa_version
  w_pairwise :: int
  w_wpa_key_mgmt :: int
  w_pmksa :: "nat option"
  dot11RSNAStatsTKIPLocalMICFailures :: u32
  dot11RSNAStatsTKIPRemoteMICFailures :: u32

record wpa_group =
  vlan_id :: int
  GInit :: bool
  GKeyDoneStations :: int
  GTKReKey :: bool
  GTK_len :: nat
  GN :: nat
  GM :: nat
  GTKAuthenticator :: bool
  Counter :: bytes
  wpa_group_state :: wpa_group_states
  GMK :: bytes
  GTK :: "bytes list"
  GNonce :: bytes
  g_changed :: bool

record wpa_authenticator =
  wa_group :: "wpa_group list"
  wa_StatsTKIPRemoteMICFailures :: u32
  dot11RSNAAuthenticationSuiteSelected :: u32
  dot11RSNAPairwiseCipherSelected :: u32
  dot11RSNAGroupCipherSelected :: u32
  dot11RSNAPMKIDUsed :: bytes
  dot11RSNATKIPCounterMeasuresInvoked :: u32
  dot11RSNA4WayHandshakeFailures :: u32
  wa_conf :: wpa_auth_config
  wa_wpa_ie :: bytes
  wa_addr :: bytes
  wa_pmksa :: rsn_pmksa_cache
  wa_stas :: "wpa_state_machine option list"
  wa_calls :: "wpa_call list"

text \<open>A pre-shared key of the configuration, \<^verbatim>\<open>struct hostapd_wpa_psk\<close>.\<close>

record hostapd_wpa_psk =
  psk_group :: bool
  psk_key :: bytes
  psk_addr :: bytes

text \<open>What the authenticator obtains from outside: the configured keys, and the results of the callbacks and of the
  allocator, which may depend on the calls made before.  \<open>we_aes\<close> is the block cipher for a key.\<close>

record wpa_env =
  we_psks :: "hostapd_wpa_psk list"
  we_get_eapol :: "wpa_call list \<Rightarrow> bytes \<Rightarrow> wpa_eapol_variable \<Rightarrow> int"
  we_get_msk :: "wpa_call list \<Rightarrow> bytes \<Rightarrow> bytes option"
  we_set_key :: "wpa_call list \<Rightarrow> int"
  we_get_seqnum :: "wpa_call list \<Rightarrow> nat \<Rightarrow> bytes option"
  we_malloc :: "wpa_call list \<Rightarrow> bool"
  we_aes :: "bytes \<Rightarrow> (bytes \<Rightarrow> bytes) option"

section \<open>Access through the pointers\<close>

definition log_w :: "wpa_call \<Rightarrow> wpa_authenticator \<Rightarrow> wpa_authenticator" where
  "log_w c wa = wa\<lparr>wa_calls := c # wa_calls wa\<rparr>"

definition sta :: "wpa_authenticator \<Rightarrow> nat \<Rightarrow> wpa_state_machine" where
  "sta wa i = the (wa_stas wa ! i)"

definition has_sta :: "wpa_authenticator \<Rightarrow> nat \<Rightarrow> bool" where
  "has_sta wa i \<longleftrightarrow> i < length (wa_stas wa) \<and> wa_stas wa ! i \<noteq> None"

definition upd_sta :: "nat \<Rightarrow> (wpa_state_machine \<Rightarrow> wpa_state_machine) \<Rightarrow> wpa_authenticator \<Rightarrow> wpa_authenticator" where
  "upd_sta i f wa = wa\<lparr>wa_stas := (wa_stas wa)[i := map_option f (wa_stas wa ! i)]\<rparr>"

fun find_group :: "int \<Rightarrow> wpa_group list \<Rightarrow> wpa_group option" where
  "find_group v [] = None"
| "find_group v (g # gs) = (if vlan_id g = v then Some g else find_group v gs)"

definition grp :: "wpa_authenticator \<Rightarrow> int \<Rightarrow> wpa_group" where
  "grp wa v = the (find_group v (wa_group wa))"

definition upd_grp :: "int \<Rightarrow> (wpa_group \<Rightarrow> wpa_group) \<Rightarrow> wpa_authenticator \<Rightarrow> wpa_authenticator" where
  "upd_grp v f wa = wa\<lparr>wa_group := map (\<lambda>g. if vlan_id g = v then f g else g) (wa_group wa)\<rparr>"

section \<open>Zeroed structures\<close>

text \<open>What \<^verbatim>\<open>os_zalloc\<close> returns for the structures.\<close>

definition wpa_sm_zero :: wpa_state_machine where
  "wpa_sm_zero =
     \<lparr>w_group = 0, w_addr = replicate 6 0, wpa_ptk_state = WPA_PTK_INITIALIZE, wpa_ptk_group_state = WPA_PTK_GROUP_IDLE,
      Init = False, DeauthenticationRequest = False, AuthenticationRequest = False, ReAuthenticationRequest = False,
      Disconnect = False, TimeoutCtr = 0, GTimeoutCtr = 0, TimeoutEvt = False, EAPOLKeyReceived = False,
      EAPOLKeyPairwise = False, EAPOLKeyRequest = False, MICVerified = False, GUpdateStationKeys = False,
      ANonce = replicate 32 0, SNonce = replicate 32 0, PMK = replicate 32 0, PTK = wpa_ptk_zero, PTK_valid = False,
      pairwise_set = False, keycount = 0, w_Pair = False, key_replay = replicate 4 (replicate 8 0, False),
      PInitAKeys = False, PTKRequest = False, has_GTK = False, PtkGroupInit = False, last_rx_eapol_key = None,
      w_changed = False, in_step_loop = False, pending_deinit = False, w_started = False,
      req_replay_counter = replicate 8 0, req_replay_counter_used = False, w_wpa_ie = None, w_wpa = WPA_VERSION_NO_WPA,
      w_pairwise = 0, w_wpa_key_mgmt = 0, w_pmksa = None, dot11RSNAStatsTKIPLocalMICFailures = 0,
      dot11RSNAStatsTKIPRemoteMICFailures = 0\<rparr>"

definition wpa_group_zero :: wpa_group where
  "wpa_group_zero =
     \<lparr>vlan_id = 0, GInit = False, GKeyDoneStations = 0, GTKReKey = False, GTK_len = 0, GN = 0, GM = 0,
      GTKAuthenticator = False, Counter = replicate 32 0, wpa_group_state = WPA_GROUP_GTK_INIT, GMK = replicate 32 0,
      GTK = replicate 2 (replicate 32 0), GNonce = replicate 32 0, g_changed = False\<rparr>"

text \<open>An authenticator with a configuration and an address, without groups and stations.\<close>

definition wpa_auth_zero :: "wpa_auth_config \<Rightarrow> bytes \<Rightarrow> wpa_authenticator" where
  "wpa_auth_zero conf addr =
     \<lparr>wa_group = [], wa_StatsTKIPRemoteMICFailures = 0, dot11RSNAAuthenticationSuiteSelected = 0,
      dot11RSNAPairwiseCipherSelected = 0, dot11RSNAGroupCipherSelected = 0, dot11RSNAPMKIDUsed = replicate 16 0,
      dot11RSNATKIPCounterMeasuresInvoked = 0, dot11RSNA4WayHandshakeFailures = 0, wa_conf = conf, wa_wpa_ie = [],
      wa_addr = addr, wa_pmksa = pmksa_cache_auth_init, wa_stas = [], wa_calls = []\<rparr>"

end
