(* ===== verification/Wpa_Auth_Ie.thy ===== *)
theory Wpa_Auth_Ie
  imports Wpa_Auth_Data "HOL-Library.Monad_Syntax"
begin

text \<open>
  The information elements of the authenticator, \<^verbatim>\<open>src/ap/wpa_auth_ie.c\<close>: writing the WPA and RSN elements of the
  access point, validating the element of an associating station, and building and parsing the key data of EAPOL-Key
  frames.  A writer returns the octets it puts into the buffer, \<open>None\<close> for -1.  The parser of key data reads its buffer
  through \<open>rd\<close> and \<open>rd_selector\<close>, which have no value outside of it, so that a result of the parser means that it
  stayed inside.
\<close>

section \<open>Writing the elements of the access point\<close>

text \<open>The selectors that a writer puts for the bits of a mask, in the order in which it tests them.\<close>

definition suites_of :: "int \<Rightarrow> (int \<times> u32) list \<Rightarrow> u32 list" where
  "suites_of m tests = map snd (filter (\<lambda>(bit, suite). m AND bit \<noteq> 0) tests)"

text \<open>A count and the selectors behind it; no selector is an error.\<close>

definition put_suites :: "u32 list \<Rightarrow> bytes option" where
  "put_suites suites =
     (if suites = [] then None
      else Some (WPA_PUT_LE16 (word_of_nat (length suites)) @ concat (map RSN_SELECTOR_PUT suites)))"

definition wpa_group_suite :: "int \<Rightarrow> u32 option" where
  "wpa_group_suite cipher =
     (if cipher = WPA_CIPHER_CCMP then Some WPA_CIPHER_SUITE_CCMP
      else if cipher = WPA_CIPHER_TKIP then Some WPA_CIPHER_SUITE_TKIP
      else if cipher = WPA_CIPHER_WEP104 then Some WPA_CIPHER_SUITE_WEP104
      else if cipher = WPA_CIPHER_WEP40 then Some WPA_CIPHER_SUITE_WEP40
      else None)"

definition wpa_write_wpa_ie :: "wpa_auth_config \<Rightarrow> bytes option" where
  "wpa_write_wpa_ie conf =
     do {
       group \<leftarrow> wpa_group_suite (wc_wpa_group conf);
       pairwise_suites \<leftarrow> put_suites (suites_of (wc_wpa_pairwise conf)
         [(WPA_CIPHER_CCMP, WPA_CIPHER_SUITE_CCMP), (WPA_CIPHER_TKIP, WPA_CIPHER_SUITE_TKIP),
          (WPA_CIPHER_NONE, WPA_CIPHER_SUITE_NONE)]);
       key_mgmt_suites \<leftarrow> put_suites (suites_of (wc_wpa_key_mgmt conf)
         [(WPA_KEY_MGMT_IEEE8021X, WPA_AUTH_KEY_MGMT_UNSPEC_802_1X),
          (WPA_KEY_MGMT_PSK, WPA_AUTH_KEY_MGMT_PSK_OVER_802_1X)]);
       let body = RSN_SELECTOR_PUT WPA_OUI_TYPE @ WPA_PUT_LE16 WPA_VERSION @ RSN_SELECTOR_PUT group @
             pairwise_suites @ key_mgmt_suites;
       Some (WLAN_EID_VENDOR_SPECIFIC # word_of_nat (length body) # body)
     }"

definition rsn_group_suite :: "int \<Rightarrow> u32 option" where
  "rsn_group_suite cipher =
     (if cipher = WPA_CIPHER_CCMP then Some RSN_CIPHER_SUITE_CCMP
      else if cipher = WPA_CIPHER_TKIP then Some RSN_CIPHER_SUITE_TKIP
      else if cipher = WPA_CIPHER_WEP104 then Some RSN_CIPHER_SUITE_WEP104
      else if cipher = WPA_CIPHER_WEP40 then Some RSN_CIPHER_SUITE_WEP40
      else None)"

definition rsn_capab :: "wpa_auth_config \<Rightarrow> u16" where
  "rsn_capab conf =
     (if wc_rsn_preauth conf then 1 else 0) OR (if wc_peerkey conf then push_bit 9 1 else 0) OR
     (if wc_wmm_enabled conf then push_bit 2 3 else 0)"

text \<open>\<open>len\<close> is the size of the buffer; only the PMKID is checked against it.\<close>

definition wpa_write_rsn_ie :: "wpa_auth_config \<Rightarrow> nat \<Rightarrow> bytes option \<Rightarrow> bytes option" where
  "wpa_write_rsn_ie conf len pmkid =
     do {
       group \<leftarrow> rsn_group_suite (wc_wpa_group conf);
       pairwise_suites \<leftarrow> put_suites (suites_of (wc_rsn_pairwise conf)
         [(WPA_CIPHER_CCMP, RSN_CIPHER_SUITE_CCMP), (WPA_CIPHER_TKIP, RSN_CIPHER_SUITE_TKIP),
          (WPA_CIPHER_NONE, RSN_CIPHER_SUITE_NONE)]);
       key_mgmt_suites \<leftarrow> put_suites (suites_of (wc_wpa_key_mgmt conf)
         [(WPA_KEY_MGMT_IEEE8021X, RSN_AUTH_KEY_MGMT_UNSPEC_802_1X),
          (WPA_KEY_MGMT_PSK, RSN_AUTH_KEY_MGMT_PSK_OVER_802_1X)]);
       let body = WPA_PUT_LE16 RSN_VERSION @ RSN_SELECTOR_PUT group @ pairwise_suites @ key_mgmt_suites @
             WPA_PUT_LE16 (rsn_capab conf);
       body \<leftarrow> (case pmkid of
                  None \<Rightarrow> Some body
                | Some p \<Rightarrow>
                    if 2 + length body + 2 + PMKID_LEN > len then None
                    else Some (body @ WPA_PUT_LE16 1 @ take PMKID_LEN p));
       Some (WLAN_EID_RSN # word_of_nat (length body) # body)
     }"

text \<open>The new value of \<^verbatim>\<open>wpa_auth->wpa_ie\<close>; the argument says whether \<^verbatim>\<open>os_malloc\<close> succeeds.\<close>

definition wpa_auth_gen_wpa_ie :: "bool \<Rightarrow> wpa_auth_config \<Rightarrow> bytes option" where
  "wpa_auth_gen_wpa_ie malloc conf =
     do {
       rsn \<leftarrow> (if wc_wpa conf AND WPA_PROTO_RSN \<noteq> 0 then wpa_write_rsn_ie conf 128 None else Some []);
       wpa \<leftarrow> (if wc_wpa conf AND WPA_PROTO_WPA \<noteq> 0 then wpa_write_wpa_ie conf else Some []);
       if malloc then Some (rsn @ wpa) else None
     }"

definition wpa_add_kde :: "u32 \<Rightarrow> bytes \<Rightarrow> bytes option \<Rightarrow> bytes" where
  "wpa_add_kde kde data data2 =
     (let data2_len = (case data2 of None \<Rightarrow> 0 | Some d \<Rightarrow> length d) in
      [WLAN_EID_VENDOR_SPECIFIC, word_of_nat (RSN_SELECTOR_LEN + length data + data2_len)] @
      RSN_SELECTOR_PUT kde @ data @ (case data2 of None \<Rightarrow> [] | Some d \<Rightarrow> d))"

section \<open>Parsing the WPA element\<close>

definition wpa_selector_to_bitfield :: "bytes \<Rightarrow> int" where
  "wpa_selector_to_bitfield s =
     (if RSN_SELECTOR_GET s = WPA_CIPHER_SUITE_NONE then WPA_CIPHER_NONE
      else if RSN_SELECTOR_GET s = WPA_CIPHER_SUITE_WEP40 then WPA_CIPHER_WEP40
      else if RSN_SELECTOR_GET s = WPA_CIPHER_SUITE_TKIP then WPA_CIPHER_TKIP
      else if RSN_SELECTOR_GET s = WPA_CIPHER_SUITE_CCMP then WPA_CIPHER_CCMP
      else if RSN_SELECTOR_GET s = WPA_CIPHER_SUITE_WEP104 then WPA_CIPHER_WEP104
      else 0)"

definition wpa_key_mgmt_to_bitfield :: "bytes \<Rightarrow> int" where
  "wpa_key_mgmt_to_bitfield s =
     (if RSN_SELECTOR_GET s = WPA_AUTH_KEY_MGMT_UNSPEC_802_1X then WPA_KEY_MGMT_IEEE8021X
      else if RSN_SELECTOR_GET s = WPA_AUTH_KEY_MGMT_PSK_OVER_802_1X then WPA_KEY_MGMT_PSK
      else if RSN_SELECTOR_GET s = WPA_AUTH_KEY_MGMT_NONE then WPA_KEY_MGMT_WPA_NONE
      else 0)"

definition wpa_parse_wpa_ie_wpa :: "bytes \<Rightarrow> int \<times> wpa_ie_data" where
  "wpa_parse_wpa_ie_wpa wpa_ie =
     (let data = \<lparr>proto = 0, pairwise_cipher = WPA_CIPHER_TKIP, group_cipher = WPA_CIPHER_TKIP,
            key_mgmt = WPA_KEY_MGMT_IEEE8021X, capabilities = 0, pmkids = [], mgmt_group_cipher = 0\<rparr> in
      if length wpa_ie < 8 then (-1, data)
      else if wpa_ie ! 0 \<noteq> WLAN_EID_VENDOR_SPECIFIC \<or> unat (wpa_ie ! 1) \<noteq> length wpa_ie - 2 \<or>
              RSN_SELECTOR_GET (drop 2 wpa_ie) \<noteq> WPA_OUI_TYPE \<or> WPA_GET_LE16 (drop 6 wpa_ie) \<noteq> WPA_VERSION then (-2, data)
      else
        let pos = drop 8 wpa_ie;
            (res, data, pos) = parse_group_suite wpa_selector_to_bitfield data pos in
        if res \<noteq> 0 then (res, data)
        else
          let (res, data, pos) = parse_pairwise_suites wpa_selector_to_bitfield data pos in
          if res \<noteq> 0 then (res, data)
          else
            let (res, data, pos) = parse_key_mgmt_suites wpa_key_mgmt_to_bitfield data pos in
            if res \<noteq> 0 then (res, data)
            else
              let (data, pos) = parse_capabilities data pos in
              if length pos > 0 then (-8, data) else (0, data))"

section \<open>Validating the element of a station\<close>

datatype wpa_validate_result =
  WPA_IE_OK | WPA_INVALID_IE | WPA_INVALID_GROUP | WPA_INVALID_PAIRWISE | WPA_INVALID_AKMP | WPA_NOT_ENABLED |
  WPA_ALLOC_FAIL | WPA_MGMT_FRAME_PROTECTION_VIOLATION | WPA_INVALID_MGMT_GROUP_CIPHER | WPA_INVALID_MDIE |
  WPA_INVALID_PROTO

text \<open>The first selector of a list whose bit is set, or a default: the values for the MIB.\<close>

definition selected_suite :: "u32 \<Rightarrow> int \<Rightarrow> (int \<times> u32) list \<Rightarrow> u32" where
  "selected_suite dflt m tests = (case suites_of m tests of [] \<Rightarrow> dflt | s # _ \<Rightarrow> s)"

definition rsn_cipher_tests :: "(int \<times> u32) list" where
  "rsn_cipher_tests =
     [(WPA_CIPHER_CCMP, RSN_CIPHER_SUITE_CCMP), (WPA_CIPHER_TKIP, RSN_CIPHER_SUITE_TKIP),
      (WPA_CIPHER_WEP104, RSN_CIPHER_SUITE_WEP104), (WPA_CIPHER_WEP40, RSN_CIPHER_SUITE_WEP40),
      (WPA_CIPHER_NONE, RSN_CIPHER_SUITE_NONE)]"

definition wpa_cipher_tests :: "(int \<times> u32) list" where
  "wpa_cipher_tests =
     [(WPA_CIPHER_CCMP, WPA_CIPHER_SUITE_CCMP), (WPA_CIPHER_TKIP, WPA_CIPHER_SUITE_TKIP),
      (WPA_CIPHER_WEP104, WPA_CIPHER_SUITE_WEP104), (WPA_CIPHER_WEP40, WPA_CIPHER_SUITE_WEP40),
      (WPA_CIPHER_NONE, WPA_CIPHER_SUITE_NONE)]"

text \<open>The loop that looks the PMKIDs of the element up in the cache; outer \<open>None\<close>: the lookup follows a pointer to a
  freed entry.\<close>

fun find_pmksa :: "rsn_pmksa_cache \<Rightarrow> bytes \<Rightarrow> bytes list \<Rightarrow> nat option option" where
  "find_pmksa c spa [] = Some None"
| "find_pmksa c spa (p # ps) =
     (case pmksa_cache_auth_get c (Some spa) (Some p) of
        None \<Rightarrow> None
      | Some (Some a) \<Rightarrow> Some (Some a)
      | Some None \<Rightarrow> find_pmksa c spa ps)"

text \<open>\<^verbatim>\<open>wpa_auth_okc_iter\<close> on the caches of all authenticators in turn; an entry is returned by value.\<close>

fun wpa_auth_okc_iter :: "bytes \<Rightarrow> bytes \<Rightarrow> bytes \<Rightarrow> rsn_pmksa_cache list \<Rightarrow> rsn_pmksa_cache_entry option option" where
  "wpa_auth_okc_iter aa spa pmkid [] = Some None"
| "wpa_auth_okc_iter aa spa pmkid (c # cs) =
     (case pmksa_cache_get_okc rsn_pmkid_hmac c aa spa pmkid of
        None \<Rightarrow> None
      | Some (Some a) \<Rightarrow> map_option Some (pmksa_heap c a)
      | Some None \<Rightarrow> wpa_auth_okc_iter aa spa pmkid cs)"

text \<open>The loop over the PMKIDs for opportunistic key caching: the PMKID that matches and the entry.\<close>

fun find_okc :: "bytes \<Rightarrow> bytes \<Rightarrow> rsn_pmksa_cache list \<Rightarrow> bytes list \<Rightarrow> (bytes \<times> rsn_pmksa_cache_entry) option option" where
  "find_okc aa spa caches [] = Some None"
| "find_okc aa spa caches (p # ps) =
     (case wpa_auth_okc_iter aa spa p caches of
        None \<Rightarrow> None
      | Some (Some e) \<Rightarrow> Some (Some (p, e))
      | Some None \<Rightarrow> find_okc aa spa caches ps)"

text \<open>The entry for the station: from the cache, or through opportunistic key caching.  \<open>caches\<close> are the caches of the
  authenticators that \<^verbatim>\<open>for_each_auth\<close> visits, \<open>alloc\<close> and \<open>id_malloc\<close> the allocations of \<^verbatim>\<open>pmksa_cache_add_okc\<close>.  The result
  is the pointer with the PMKID that was used, and the cache.\<close>

definition validate_pmksa ::
  "rsn_pmksa_cache list \<Rightarrow> nat option \<Rightarrow> bool \<Rightarrow> bool \<Rightarrow> bytes \<Rightarrow> bytes \<Rightarrow> bytes list \<Rightarrow> rsn_pmksa_cache \<Rightarrow>
   ((nat \<times> bytes) option \<times> rsn_pmksa_cache) option" where
  "validate_pmksa caches alloc id_malloc okc aa spa ids c =
     (case find_pmksa c spa ids of
        None \<Rightarrow> None
      | Some (Some a) \<Rightarrow>
          (case pmksa_heap c a of None \<Rightarrow> None | Some e \<Rightarrow> Some (Some (a, pe_pmkid e), c))
      | Some None \<Rightarrow>
          if \<not> okc then Some (None, c)
          else
            (case find_okc aa spa caches ids of
               None \<Rightarrow> None
             | Some None \<Rightarrow> Some (None, c)
             | Some (Some (p, e)) \<Rightarrow>
                 (case pmksa_cache_add_okc alloc id_malloc c e p of
                    None \<Rightarrow> None
                  | Some (None, c) \<Rightarrow> Some (None, c)
                  | Some (Some a, c) \<Rightarrow> Some (Some (a, p), c))))"

text \<open>\<^verbatim>\<open>wpa_validate_wpa_ie\<close> for a station that has a state machine.  \<open>ie_malloc\<close> is the result of allocating the copy of
  the element.  The value \<open>None\<close> stands for a lookup that does not return.\<close>

definition wpa_validate_wpa_ie ::
  "rsn_pmksa_cache list \<Rightarrow> nat option \<Rightarrow> bool \<Rightarrow> bool \<Rightarrow> wpa_authenticator \<Rightarrow> wpa_state_machine \<Rightarrow> bytes \<Rightarrow>
   (wpa_validate_result \<times> wpa_authenticator \<times> wpa_state_machine) option" where
  "wpa_validate_wpa_ie caches alloc id_malloc ie_malloc wa sm wpa_ie =
     (if length wpa_ie < 1 then Some (WPA_INVALID_IE, wa, sm)
      else
        let version = (if wpa_ie ! 0 = WLAN_EID_RSN then WPA_PROTO_RSN else WPA_PROTO_WPA) in
        if wc_wpa (wa_conf wa) AND version = 0 then Some (WPA_INVALID_PROTO, wa, sm)
        else
          let (res, data) = (if version = WPA_PROTO_RSN then wpa_parse_wpa_ie_rsn wpa_ie else wpa_parse_wpa_ie_wpa wpa_ie);
              wa = (if version = WPA_PROTO_RSN then
                      wa\<lparr>dot11RSNAAuthenticationSuiteSelected :=
                           selected_suite RSN_AUTH_KEY_MGMT_UNSPEC_802_1X (key_mgmt data)
                             [(WPA_KEY_MGMT_IEEE8021X, RSN_AUTH_KEY_MGMT_UNSPEC_802_1X),
                              (WPA_KEY_MGMT_PSK, RSN_AUTH_KEY_MGMT_PSK_OVER_802_1X)],
                         dot11RSNAPairwiseCipherSelected :=
                           selected_suite RSN_CIPHER_SUITE_CCMP (pairwise_cipher data) rsn_cipher_tests,
                         dot11RSNAGroupCipherSelected :=
                           selected_suite RSN_CIPHER_SUITE_CCMP (group_cipher data) rsn_cipher_tests\<rparr>
                    else
                      wa\<lparr>dot11RSNAAuthenticationSuiteSelected :=
                           selected_suite WPA_AUTH_KEY_MGMT_UNSPEC_802_1X (key_mgmt data)
                             [(WPA_KEY_MGMT_IEEE8021X, WPA_AUTH_KEY_MGMT_UNSPEC_802_1X),
                              (WPA_KEY_MGMT_PSK, WPA_AUTH_KEY_MGMT_PSK_OVER_802_1X)],
                         dot11RSNAPairwiseCipherSelected :=
                           selected_suite WPA_CIPHER_SUITE_TKIP (pairwise_cipher data) wpa_cipher_tests,
                         dot11RSNAGroupCipherSelected :=
                           selected_suite WPA_CIPHER_SUITE_TKIP (group_cipher data) wpa_cipher_tests\<rparr>) in
          if res \<noteq> 0 then Some (WPA_INVALID_IE, wa, sm)
          else if group_cipher data \<noteq> wc_wpa_group (wa_conf wa) then Some (WPA_INVALID_GROUP, wa, sm)
          else
            let akm = key_mgmt data AND wc_wpa_key_mgmt (wa_conf wa) in
            if akm = 0 then Some (WPA_INVALID_AKMP, wa, sm)
            else
              let sm = sm\<lparr>w_wpa_key_mgmt :=
                           (if akm AND WPA_KEY_MGMT_IEEE8021X \<noteq> 0 then WPA_KEY_MGMT_IEEE8021X else WPA_KEY_MGMT_PSK)\<rparr>;
                  ciphers = pairwise_cipher data AND
                    (if version = WPA_PROTO_RSN then wc_rsn_pairwise (wa_conf wa) else wc_wpa_pairwise (wa_conf wa)) in
              if ciphers = 0 then Some (WPA_INVALID_PAIRWISE, wa, sm)
              else
                let sm = sm\<lparr>w_pairwise := (if ciphers AND WPA_CIPHER_CCMP \<noteq> 0 then WPA_CIPHER_CCMP else WPA_CIPHER_TKIP),
                            w_wpa := (if wpa_ie ! 0 = WLAN_EID_RSN then WPA_VERSION_WPA2 else WPA_VERSION_WPA)\<rparr> in
                (case validate_pmksa caches alloc id_malloc (wc_okc (wa_conf wa)) (wa_addr wa) (w_addr sm)
                    (pmkids data) (wa_pmksa wa) of
                   None \<Rightarrow> None
                 | Some (r, c) \<Rightarrow>
                     let sm = sm\<lparr>w_pmksa := map_option fst r\<rparr>;
                         wa = wa\<lparr>wa_pmksa := c,
                                 dot11RSNAPMKIDUsed := (case r of None \<Rightarrow> dot11RSNAPMKIDUsed wa | Some (_, p) \<Rightarrow> p)\<rparr>;
                         grow = (case w_wpa_ie sm of None \<Rightarrow> True | Some old \<Rightarrow> length old < length wpa_ie) in
                     if grow \<and> \<not> ie_malloc then Some (WPA_ALLOC_FAIL, wa, sm\<lparr>w_wpa_ie := None\<rparr>)
                     else Some (WPA_IE_OK, wa, sm\<lparr>w_wpa_ie := Some wpa_ie\<rparr>)))"

section \<open>Parsing key data\<close>

record wpa_eapol_ie_parse =
  kde_wpa_ie :: "bytes option"
  kde_rsn_ie :: "bytes option"
  kde_pmkid :: "bytes option"
  kde_gtk :: "bytes option"
  kde_mac_addr :: "bytes option"

definition kde_none :: wpa_eapol_ie_parse where
  "kde_none = \<lparr>kde_wpa_ie = None, kde_rsn_ie = None, kde_pmkid = None, kde_gtk = None, kde_mac_addr = None\<rparr>"

definition rd :: "bytes \<Rightarrow> nat \<Rightarrow> u8 option" where
  "rd buf i = (if i < length buf then Some (buf ! i) else None)"

definition rd_selector :: "bytes \<Rightarrow> nat \<Rightarrow> u32 option" where
  "rd_selector buf i = (if i + RSN_SELECTOR_LEN \<le> length buf then Some (RSN_SELECTOR_GET (drop i buf)) else None)"

text \<open>A pointer with its length, as the part of the buffer it covers; it has no value when it does not lie in the
  buffer.\<close>

definition slice :: "bytes \<Rightarrow> nat \<Rightarrow> nat \<Rightarrow> bytes option" where
  "slice buf i n = (if i + n \<le> length buf then Some (take n (drop i buf)) else None)"

definition wpa_parse_generic :: "bytes \<Rightarrow> nat \<Rightarrow> wpa_eapol_ie_parse \<Rightarrow> (int \<times> wpa_eapol_ie_parse) option" where
  "wpa_parse_generic buf pos ie =
     do {
       b1 \<leftarrow> rd buf (pos + 1);
       let len = unat b1;
       if len = 0 then Some (1, ie)
       else do {
         is_wpa \<leftarrow> (if len \<ge> 6 then do {
                      s \<leftarrow> rd_selector buf (pos + 2);
                      if s = WPA_OUI_TYPE then do {
                        v0 \<leftarrow> rd buf (pos + 2 + WPA_SELECTOR_LEN);
                        if v0 = 1 then do { v1 \<leftarrow> rd buf (pos + 2 + WPA_SELECTOR_LEN + 1); Some (v1 = 0) }
                        else Some False }
                      else Some False }
                    else Some False);
         if is_wpa then do { s \<leftarrow> slice buf pos (len + 2); Some (0, ie\<lparr>kde_wpa_ie := Some s\<rparr>) }
         else do {
           is_pmkid \<leftarrow> (if pos + 1 + RSN_SELECTOR_LEN < length buf \<and> len \<ge> RSN_SELECTOR_LEN + PMKID_LEN
                        then map_option (\<lambda>s. s = RSN_KEY_DATA_PMKID) (rd_selector buf (pos + 2)) else Some False);
           if is_pmkid then do {
             s \<leftarrow> slice buf (pos + 2 + RSN_SELECTOR_LEN) PMKID_LEN; Some (0, ie\<lparr>kde_pmkid := Some s\<rparr>) }
           else if len > RSN_SELECTOR_LEN + 2 then do {
             s \<leftarrow> rd_selector buf (pos + 2);
             if s = RSN_KEY_DATA_GROUPKEY then do {
               p \<leftarrow> slice buf (pos + 2 + RSN_SELECTOR_LEN) (len - RSN_SELECTOR_LEN);
               Some (0, ie\<lparr>kde_gtk := Some p\<rparr>) }
             else if s = RSN_KEY_DATA_MAC_ADDR then do {
               p \<leftarrow> slice buf (pos + 2 + RSN_SELECTOR_LEN) (len - RSN_SELECTOR_LEN);
               Some (0, ie\<lparr>kde_mac_addr := Some p\<rparr>) }
             else Some (0, ie) }
           else Some (0, ie) } }
     }"

function kde_loop :: "bytes \<Rightarrow> nat \<Rightarrow> wpa_eapol_ie_parse \<Rightarrow> (int \<times> wpa_eapol_ie_parse) option" where
  "kde_loop buf pos ie =
     (if \<not> pos + 1 < length buf then Some (0, ie)
      else do {
        b0 \<leftarrow> rd buf pos;
        b1 \<leftarrow> rd buf (pos + 1);
        if b0 = 0xdd \<and> (pos = length buf - 1 \<or> b1 = 0) then Some (0, ie)
        else if pos + 2 + unat b1 > length buf then Some (-1, ie)
        else if b0 = WLAN_EID_RSN then do {
          s \<leftarrow> slice buf pos (unat b1 + 2);
          kde_loop buf (pos + (2 + unat b1)) (ie\<lparr>kde_rsn_ie := Some s\<rparr>) }
        else if b0 = WLAN_EID_VENDOR_SPECIFIC then do {
          (ret, ie) \<leftarrow> wpa_parse_generic buf pos ie;
          if ret < 0 then Some (ret, ie)
          else if ret > 0 then Some (0, ie)
          else kde_loop buf (pos + (2 + unat b1)) ie }
        else kde_loop buf (pos + (2 + unat b1)) ie })"
  by auto
termination by (relation "measure (\<lambda>(buf, pos, ie). length buf - pos)") auto

declare kde_loop.simps [simp del]

definition wpa_parse_kde_ies :: "bytes \<Rightarrow> (int \<times> wpa_eapol_ie_parse) option" where
  "wpa_parse_kde_ies buf = kde_loop buf 0 kde_none"

section \<open>Key data is read inside its buffer\<close>

lemma wpa_parse_generic_total:
  assumes "pos + 1 < length buf" "pos + 2 + unat (buf ! (pos + 1)) \<le> length buf"
  shows "\<exists>ret ie'. wpa_parse_generic buf pos ie = Some (ret, ie') \<and> (ret = 0 \<or> ret = 1)"
proof -
  obtain len where ln: "unat (buf ! Suc pos) = len" by blast
  have len: "pos + 2 + len \<le> length buf" using assms ln by simp
  have b1: "rd buf (pos + 1) = Some (buf ! Suc pos)" using assms by (simp add: rd_def)
  consider "len = 0" | "0 < len" "len < 6" | "6 \<le> len" by linarith
  then show ?thesis
  proof cases
    case 1
    then show ?thesis using b1 by (simp add: wpa_parse_generic_def ln)
  next
    case 2
    then show ?thesis using b1 by (simp add: wpa_parse_generic_def ln Let_def)
  next
    case 3
    have s: "rd_selector buf (pos + 2) = Some (RSN_SELECTOR_GET (drop (pos + 2) buf))"
      "rd buf (pos + 2 + 4) = Some (buf ! (pos + 6))" "rd buf (pos + 2 + 4 + 1) = Some (buf ! (pos + 7))"
      "slice buf pos (len + 2) = Some (take (len + 2) (drop pos buf))"
      "slice buf (pos + 2 + 4) (len - 4) = Some (take (len - 4) (drop (pos + 6) buf))"
      "20 \<le> len \<Longrightarrow> slice buf (pos + 2 + 4) 16 = Some (take 16 (drop (pos + 6) buf))"
      using 3 len by (simp_all add: rd_selector_def rd_def slice_def add.commute)
    show ?thesis using 3
      unfolding wpa_parse_generic_def b1 Option.bind.simps Let_def ln s(1-5)
      by (cases "20 \<le> len") (auto simp del: add_2_eq_Suc' simp: s(6) [simplified])
  qed
qed

lemma kde_loop_total: "\<exists>ret ie'. kde_loop buf pos ie = Some (ret, ie') \<and> (ret = 0 \<or> ret = -1)"
proof (induction "length buf - pos" arbitrary: pos ie rule: less_induct)
  case less
  show ?case
  proof (cases "pos + 1 < length buf")
    case False
    then show ?thesis by (simp add: kde_loop.simps)
  next
    case True
    let ?b0 = "buf ! pos" and ?b1 = "buf ! (pos + 1)"
    have r: "rd buf pos = Some ?b0" "rd buf (pos + 1) = Some ?b1" using True by (simp_all add: rd_def)
    show ?thesis
    proof (cases "?b0 = 0xdd \<and> (pos = length buf - 1 \<or> ?b1 = 0) \<or> pos + 2 + unat ?b1 > length buf")
      case True
      then show ?thesis using \<open>pos + 1 < length buf\<close> r by (subst kde_loop.simps) auto
    next
      case False
      then have ok: "\<not> (?b0 = 0xdd \<and> (pos = length buf - 1 \<or> ?b1 = 0))" "pos + 2 + unat ?b1 \<le> length buf" by auto
      obtain ret ie' where g: "wpa_parse_generic buf pos ie = Some (ret, ie')" "ret = 0 \<or> ret = 1"
        using wpa_parse_generic_total [OF True ok(2)] by blast
      have sl: "slice buf pos (unat ?b1 + 2) = Some (take (unat ?b1 + 2) (drop pos buf))"
        using ok by (simp add: slice_def)
      have "\<exists>ret ie''. kde_loop buf (pos + (2 + unat ?b1)) ie' = Some (ret, ie'') \<and> (ret = 0 \<or> ret = -1)" for ie'
        using True ok by (intro less) simp
      then show ?thesis
        using True r ok sl g by (subst kde_loop.simps) (auto simp: not_less)
    qed
  qed
qed

section \<open>The elements read back\<close>

lemma selector_get_put [simp]: "RSN_SELECTOR_GET (RSN_SELECTOR_PUT s @ r) = s" "RSN_SELECTOR_GET (RSN_SELECTOR_PUT s) = s"
  using WPA_BE32_roundtrip [of s r] WPA_BE32_roundtrip [of s "[]"]
  by (simp_all add: RSN_SELECTOR_GET_def RSN_SELECTOR_PUT_def)

lemma length_selector_put [simp]: "length (RSN_SELECTOR_PUT s) = 4"
  by (simp add: RSN_SELECTOR_PUT_def)

text \<open>A function of the selector at a position.\<close>

definition reads_selector :: "(bytes \<Rightarrow> int) \<Rightarrow> (u32 \<Rightarrow> int) \<Rightarrow> bool" where
  "reads_selector f h \<longleftrightarrow> (\<forall>s r. f (RSN_SELECTOR_PUT s @ r) = h s)"

lemma suite_loop_put:
  assumes "reads_selector f h"
  shows "suite_loop f (length sels) m (concat (map RSN_SELECTOR_PUT sels) @ rest) =
    (foldl (OR) m (map h sels), rest)"
  using assms by (induction sels arbitrary: m) (simp_all add: reads_selector_def)

lemma parse_group_put:
  "reads_selector f h \<Longrightarrow>
   parse_group_suite f data (RSN_SELECTOR_PUT s @ rest) = (0, data\<lparr>group_cipher := h s\<rparr>, rest)"
  by (simp add: parse_group_suite_def reads_selector_def)

lemma put_suites_cases:
  assumes "put_suites sels = Some b"
  obtains "sels \<noteq> []" "b = WPA_PUT_LE16 (word_of_nat (length sels)) @ concat (map RSN_SELECTOR_PUT sels)"
  using assms by (auto simp: put_suites_def split: if_splits)

lemma length_concat_selectors [simp]: "length (concat (map RSN_SELECTOR_PUT sels)) = length sels * 4"
  by (induction sels) simp_all

lemma unat_count: "length sels < 65536 \<Longrightarrow> unat (word_of_nat (length sels) :: u16) = length sels"
  by (simp add: unat_of_nat)

lemma suites_read:
  assumes f: "reads_selector f h" and b: "put_suites sels = Some b" and l: "length sels < 65536"
  shows "\<exists>p. b @ rest = p \<and> 2 \<le> length p \<and> unat (WPA_GET_LE16 p) = length sels \<and> 0 < length sels \<and>
    length (drop 2 p) = length sels * 4 + length rest \<and>
    suite_loop f (length sels) 0 (drop 2 p) = (foldl (OR) 0 (map h sels), rest)"
proof -
  have s: "sels \<noteq> []" and e: "b = WPA_PUT_LE16 (word_of_nat (length sels)) @ concat (map RSN_SELECTOR_PUT sels)"
    using put_suites_cases [OF b] by metis+
  show ?thesis using s suite_loop_put [OF f, of sels 0 rest] unat_count [OF l] unfolding e by simp
qed

lemma parse_pairwise_put:
  assumes "reads_selector f h" "put_suites sels = Some b" "length sels < 65536"
  shows "parse_pairwise_suites f data (b @ rest) = (0, data\<lparr>pairwise_cipher := foldl (OR) 0 (map h sels)\<rparr>, rest)"
  using suites_read [OF assms, of rest] by (auto simp: parse_pairwise_suites_def Let_def)

lemma parse_key_mgmt_put:
  assumes "reads_selector f h" "put_suites sels = Some b" "length sels < 65536"
  shows "parse_key_mgmt_suites f data (b @ rest) = (0, data\<lparr>key_mgmt := foldl (OR) 0 (map h sels)\<rparr>, rest)"
  using suites_read [OF assms, of rest] by (auto simp: parse_key_mgmt_suites_def Let_def)

lemma and_exp: "(m :: int) AND 2 ^ k = of_bool (bit m k) * 2 ^ k"
  by (rule bit_eqI) (auto simp: bit_simps)

lemma and_bit: "(m :: int) AND 1 = of_bool (bit m 0)" "m AND 2 = 2 * of_bool (bit m 1)"
    "m AND 8 = 8 * of_bool (bit m 3)" "m AND 16 = 16 * of_bool (bit m 4)"
  using and_exp [of m 0] and_exp [of m 1] and_exp [of m 3] and_exp [of m 4] by simp_all

lemma and_mask3: "(m :: int) AND 3 = (m AND 1) OR (m AND 2)"
proof -
  have "m AND 3 = m AND (1 OR 2)" by simp
  then show ?thesis by (simp only: bit.conj_disj_distrib)
qed

lemma and_mask25: "(m :: int) AND 25 = (m AND 16) OR (m AND 8) OR (m AND 1)"
proof -
  have "m AND 25 = m AND (16 OR 8 OR 1)" by simp
  then show ?thesis by (simp only: bit.conj_disj_distrib)
qed

lemma reads_rsn_cipher: "reads_selector rsn_selector_to_bitfield
    (\<lambda>s. if s = RSN_CIPHER_SUITE_NONE then 1 else if s = RSN_CIPHER_SUITE_WEP40 then 2
          else if s = RSN_CIPHER_SUITE_TKIP then 8 else if s = RSN_CIPHER_SUITE_CCMP then 16
          else if s = RSN_CIPHER_SUITE_WEP104 then 4 else 0)"
  by (simp add: reads_selector_def rsn_selector_to_bitfield_def)

lemma reads_rsn_key_mgmt: "reads_selector rsn_key_mgmt_to_bitfield
    (\<lambda>s. if s = RSN_AUTH_KEY_MGMT_UNSPEC_802_1X then 1 else if s = RSN_AUTH_KEY_MGMT_PSK_OVER_802_1X then 2 else 0)"
  by (simp add: reads_selector_def rsn_key_mgmt_to_bitfield_def)

lemma reads_wpa_cipher: "reads_selector wpa_selector_to_bitfield
    (\<lambda>s. if s = WPA_CIPHER_SUITE_NONE then 1 else if s = WPA_CIPHER_SUITE_WEP40 then 2
          else if s = WPA_CIPHER_SUITE_TKIP then 8 else if s = WPA_CIPHER_SUITE_CCMP then 16
          else if s = WPA_CIPHER_SUITE_WEP104 then 4 else 0)"
  by (simp add: reads_selector_def wpa_selector_to_bitfield_def)

lemma reads_wpa_key_mgmt: "reads_selector wpa_key_mgmt_to_bitfield
    (\<lambda>s. if s = WPA_AUTH_KEY_MGMT_UNSPEC_802_1X then 1 else if s = WPA_AUTH_KEY_MGMT_PSK_OVER_802_1X then 2
          else if s = WPA_AUTH_KEY_MGMT_NONE then 16 else 0)"
  by (simp add: reads_selector_def wpa_key_mgmt_to_bitfield_def)

lemma length_suites_of: "length (suites_of m tests) \<le> length tests"
  by (simp add: suites_of_def)

text \<open>The suites written for a mask read back as the bits that have a selector.\<close>

lemma rsn_pairwise_back:
  "foldl (OR) 0 (map (\<lambda>s. if s = RSN_CIPHER_SUITE_NONE then 1 else if s = RSN_CIPHER_SUITE_WEP40 then 2
          else if s = RSN_CIPHER_SUITE_TKIP then 8 else if s = RSN_CIPHER_SUITE_CCMP then 16
          else if s = RSN_CIPHER_SUITE_WEP104 then 4 else 0)
     (suites_of m [(16, RSN_CIPHER_SUITE_CCMP), (8, RSN_CIPHER_SUITE_TKIP), (1, RSN_CIPHER_SUITE_NONE)])) = m AND 25"
  unfolding and_mask25 suites_of_def
  by (cases "bit m 0"; cases "bit m 3"; cases "bit m 4") (simp_all add: and_bit suite_defs)

lemma wpa_pairwise_back:
  "foldl (OR) 0 (map (\<lambda>s. if s = WPA_CIPHER_SUITE_NONE then 1 else if s = WPA_CIPHER_SUITE_WEP40 then 2
          else if s = WPA_CIPHER_SUITE_TKIP then 8 else if s = WPA_CIPHER_SUITE_CCMP then 16
          else if s = WPA_CIPHER_SUITE_WEP104 then 4 else 0)
     (suites_of m [(16, WPA_CIPHER_SUITE_CCMP), (8, WPA_CIPHER_SUITE_TKIP), (1, WPA_CIPHER_SUITE_NONE)])) = m AND 25"
  unfolding and_mask25 suites_of_def
  by (cases "bit m 0"; cases "bit m 3"; cases "bit m 4") (simp_all add: and_bit suite_defs)

lemma rsn_key_mgmt_back:
  "foldl (OR) 0 (map (\<lambda>s. if s = RSN_AUTH_KEY_MGMT_UNSPEC_802_1X then 1
        else if s = RSN_AUTH_KEY_MGMT_PSK_OVER_802_1X then 2 else 0)
     (suites_of m [(1, RSN_AUTH_KEY_MGMT_UNSPEC_802_1X), (2, RSN_AUTH_KEY_MGMT_PSK_OVER_802_1X)])) = m AND 3"
  unfolding and_mask3 suites_of_def
  by (cases "bit m 0"; cases "bit m 1") (simp_all add: and_bit suite_defs)

lemma wpa_key_mgmt_back:
  "foldl (OR) 0 (map (\<lambda>s. if s = WPA_AUTH_KEY_MGMT_UNSPEC_802_1X then 1
        else if s = WPA_AUTH_KEY_MGMT_PSK_OVER_802_1X then 2 else if s = WPA_AUTH_KEY_MGMT_NONE then 16 else 0)
     (suites_of m [(1, WPA_AUTH_KEY_MGMT_UNSPEC_802_1X), (2, WPA_AUTH_KEY_MGMT_PSK_OVER_802_1X)])) = m AND 3"
  unfolding and_mask3 suites_of_def
  by (cases "bit m 0"; cases "bit m 1") (simp_all add: and_bit suite_defs)

lemma few_suites: "length (suites_of m (x # y # zs)) < 65536" if "length zs < 60000"
  using length_suites_of [of m "x # y # zs"] that by simp

lemma length_put_suites:
  "put_suites (suites_of m tests) = Some b \<Longrightarrow> length b \<le> 2 + 4 * length tests"
  using length_suites_of [of m tests] by (auto simp: put_suites_def split: if_splits)

lemma rsn_group_back:
  "rsn_group_suite c = Some g \<Longrightarrow>
   (if g = RSN_CIPHER_SUITE_NONE then 1 else if g = RSN_CIPHER_SUITE_WEP40 then 2
    else if g = RSN_CIPHER_SUITE_TKIP then 8 else if g = RSN_CIPHER_SUITE_CCMP then 16
    else if g = RSN_CIPHER_SUITE_WEP104 then 4 else 0) = c"
  by (auto simp: rsn_group_suite_def suite_defs split: if_splits)

lemma wpa_group_back:
  "wpa_group_suite c = Some g \<Longrightarrow>
   (if g = WPA_CIPHER_SUITE_NONE then 1 else if g = WPA_CIPHER_SUITE_WEP40 then 2
    else if g = WPA_CIPHER_SUITE_TKIP then 8 else if g = WPA_CIPHER_SUITE_CCMP then 16
    else if g = WPA_CIPHER_SUITE_WEP104 then 4 else 0) = c"
  by (auto simp: wpa_group_suite_def suite_defs split: if_splits)

lemma rsn_body_parses:
  assumes body: "rsn_group_suite g = Some gs"
      "put_suites (suites_of p [(16, RSN_CIPHER_SUITE_CCMP), (8, RSN_CIPHER_SUITE_TKIP), (1, RSN_CIPHER_SUITE_NONE)]) = Some ps"
      "put_suites (suites_of k [(1, RSN_AUTH_KEY_MGMT_UNSPEC_802_1X), (2, RSN_AUTH_KEY_MGMT_PSK_OVER_802_1X)]) = Some ks"
    and ie: "ie = 48 # word_of_nat (length body) # body"
      "body = WPA_PUT_LE16 1 @ RSN_SELECTOR_PUT gs @ ps @ ks @ WPA_PUT_LE16 capab @ tail" "length tail \<le> 18"
  shows "length ie \<le> 52 \<and> wpa_parse_wpa_ie_rsn ie =
    parse_pmkids \<lparr>proto = 2, pairwise_cipher = p AND 25, group_cipher = g, key_mgmt = k AND 3,
      capabilities = uint capab, pmkids = [], mgmt_group_cipher = 0\<rparr> tail"
proof -
  have len: "length body \<le> 50"
    using length_put_suites [OF body(2)] length_put_suites [OF body(3)] ie by simp
  then have u: "unat (word_of_nat (length body) :: u8) = length body" by (simp add: unat_of_nat)
  have l1: "\<not> length body < 2" using ie by simp
  have l2: "WPA_GET_LE16 (drop 2 ie) = 1" "drop 4 ie = RSN_SELECTOR_PUT gs @ ps @ ks @ WPA_PUT_LE16 capab @ tail"
    using ie by simp_all
  show ?thesis
    using len u l1 l2 rsn_group_back [OF body(1)]
    by (simp add: wpa_parse_wpa_ie_rsn_def ie(1) parse_group_put [OF reads_rsn_cipher]
        parse_pairwise_put [OF reads_rsn_cipher body(2) few_suites, unfolded rsn_pairwise_back]
        parse_key_mgmt_put [OF reads_rsn_key_mgmt body(3) few_suites, unfolded rsn_key_mgmt_back]
        parse_capabilities_def Let_def)
qed

lemma wpa_body_parses:
  assumes body: "wpa_group_suite g = Some gs"
      "put_suites (suites_of p [(16, WPA_CIPHER_SUITE_CCMP), (8, WPA_CIPHER_SUITE_TKIP), (1, WPA_CIPHER_SUITE_NONE)]) = Some ps"
      "put_suites (suites_of k [(1, WPA_AUTH_KEY_MGMT_UNSPEC_802_1X), (2, WPA_AUTH_KEY_MGMT_PSK_OVER_802_1X)]) = Some ks"
    and ie: "ie = 221 # word_of_nat (length body) # body"
      "body = RSN_SELECTOR_PUT WPA_OUI_TYPE @ WPA_PUT_LE16 1 @ RSN_SELECTOR_PUT gs @ ps @ ks"
  shows "length ie \<le> 52 \<and> wpa_parse_wpa_ie_wpa ie =
    (0, \<lparr>proto = 0, pairwise_cipher = p AND 25, group_cipher = g, key_mgmt = k AND 3, capabilities = 0,
      pmkids = [], mgmt_group_cipher = 0\<rparr>)"
proof -
  have len: "length body \<le> 50"
    using length_put_suites [OF body(2)] length_put_suites [OF body(3)] ie by simp
  then have u: "unat (word_of_nat (length body) :: u8) = length body" by (simp add: unat_of_nat)
  have l1: "\<not> length body < 6" using ie by simp
  have l2: "RSN_SELECTOR_GET body = WPA_OUI_TYPE" "WPA_GET_LE16 (drop 4 body) = 1"
    "drop 6 body = RSN_SELECTOR_PUT gs @ ps @ ks"
    using ie by simp_all
  show ?thesis
    using len u l1 l2 wpa_group_back [OF body(1)]
      parse_key_mgmt_put [OF reads_wpa_key_mgmt body(3) few_suites, of _ "[]", unfolded wpa_key_mgmt_back]
    by (simp add: wpa_parse_wpa_ie_wpa_def ie(1) parse_group_put [OF reads_wpa_cipher]
        parse_pairwise_put [OF reads_wpa_cipher body(2) few_suites, unfolded wpa_pairwise_back]
        parse_capabilities_def Let_def)
qed

text \<open>C38. The elements the access point announces say what it is configured for: the RSN element that
  \<^verbatim>\<open>wpa_write_rsn_ie\<close> writes, with or without a PMKID, is read by \<^verbatim>\<open>wpa_parse_wpa_ie_rsn\<close> as exactly the configured group
  cipher, pairwise ciphers, key management suites, capabilities and PMKID, and likewise the WPA element; each is at
  most 52 octets long, so that both fit into the buffer of 128 octets of \<^verbatim>\<open>wpa_auth_gen_wpa_ie\<close>.\<close>

theorem rsn_wpa_ie_roundtrip:
  assumes "wpa_write_rsn_ie conf len pmkid = Some rsn" "wpa_write_wpa_ie conf = Some wpa"
    "pmkid = None \<or> (\<exists>p. pmkid = Some p \<and> length p = PMKID_LEN)"
  shows "wpa_parse_wpa_ie_rsn rsn =
      (0, \<lparr>proto = WPA_PROTO_RSN, pairwise_cipher = wc_rsn_pairwise conf AND (WPA_CIPHER_CCMP OR WPA_CIPHER_TKIP OR WPA_CIPHER_NONE),
        group_cipher = wc_wpa_group conf, key_mgmt = wc_wpa_key_mgmt conf AND (WPA_KEY_MGMT_IEEE8021X OR WPA_KEY_MGMT_PSK),
        capabilities = uint (rsn_capab conf), pmkids = (case pmkid of None \<Rightarrow> [] | Some p \<Rightarrow> [p]), mgmt_group_cipher = 0\<rparr>) \<and>
    wpa_parse_wpa_ie_wpa wpa =
      (0, \<lparr>proto = 0, pairwise_cipher = wc_wpa_pairwise conf AND (WPA_CIPHER_CCMP OR WPA_CIPHER_TKIP OR WPA_CIPHER_NONE),
        group_cipher = wc_wpa_group conf, key_mgmt = wc_wpa_key_mgmt conf AND (WPA_KEY_MGMT_IEEE8021X OR WPA_KEY_MGMT_PSK),
        capabilities = 0, pmkids = [], mgmt_group_cipher = 0\<rparr>) \<and>
    length rsn \<le> 52 \<and> length wpa \<le> 52"
proof -
  obtain gs ps ks body where r: "rsn_group_suite (wc_wpa_group conf) = Some gs"
      "put_suites (suites_of (wc_rsn_pairwise conf)
         [(16, RSN_CIPHER_SUITE_CCMP), (8, RSN_CIPHER_SUITE_TKIP), (1, RSN_CIPHER_SUITE_NONE)]) = Some ps"
      "put_suites (suites_of (wc_wpa_key_mgmt conf)
         [(1, RSN_AUTH_KEY_MGMT_UNSPEC_802_1X), (2, RSN_AUTH_KEY_MGMT_PSK_OVER_802_1X)]) = Some ks"
      "rsn = 48 # word_of_nat (length body) # body"
      "body = WPA_PUT_LE16 1 @ RSN_SELECTOR_PUT gs @ ps @ ks @ WPA_PUT_LE16 (rsn_capab conf) @
        (case pmkid of None \<Rightarrow> [] | Some p \<Rightarrow> WPA_PUT_LE16 1 @ p)"
    using assms(1,3) by (auto simp: wpa_write_rsn_ie_def Let_def bind_eq_Some_conv split: option.splits if_splits)
  have rp: "length rsn \<le> 52 \<and> wpa_parse_wpa_ie_rsn rsn = parse_pmkids
      \<lparr>proto = 2, pairwise_cipher = wc_rsn_pairwise conf AND 25, group_cipher = wc_wpa_group conf,
       key_mgmt = wc_wpa_key_mgmt conf AND 3, capabilities = uint (rsn_capab conf), pmkids = [], mgmt_group_cipher = 0\<rparr>
      (case pmkid of None \<Rightarrow> [] | Some p \<Rightarrow> WPA_PUT_LE16 1 @ p)"
    by (rule rsn_body_parses [OF r]) (use assms(3) in \<open>auto split: option.splits\<close>)
  obtain gw pw kw bw where w: "wpa_group_suite (wc_wpa_group conf) = Some gw"
      "put_suites (suites_of (wc_wpa_pairwise conf)
         [(16, WPA_CIPHER_SUITE_CCMP), (8, WPA_CIPHER_SUITE_TKIP), (1, WPA_CIPHER_SUITE_NONE)]) = Some pw"
      "put_suites (suites_of (wc_wpa_key_mgmt conf)
         [(1, WPA_AUTH_KEY_MGMT_UNSPEC_802_1X), (2, WPA_AUTH_KEY_MGMT_PSK_OVER_802_1X)]) = Some kw"
      "wpa = 221 # word_of_nat (length bw) # bw"
      "bw = RSN_SELECTOR_PUT WPA_OUI_TYPE @ WPA_PUT_LE16 1 @ RSN_SELECTOR_PUT gw @ pw @ kw"
    using assms(2) by (auto simp: wpa_write_wpa_ie_def Let_def bind_eq_Some_conv)
  show ?thesis
    using rp wpa_body_parses [OF w] assms(3) by (auto simp: parse_pmkids_def Let_def)
qed

definition demo_wpa_conf :: wpa_auth_config where
  "demo_wpa_conf = \<lparr>wc_wpa = 3, wc_wpa_key_mgmt = 2, wc_wpa_pairwise = 8, wc_wpa_group = 8, wc_wpa_group_rekey = 600,
     wc_wpa_strict_rekey = False, wc_wpa_gmk_rekey = 86400, wc_wpa_ptk_rekey = 0, wc_rsn_pairwise = 16,
     wc_rsn_preauth = True, wc_eapol_version = 2, wc_peerkey = False, wc_wmm_enabled = True, wc_wmm_uapsd = False,
     wc_okc = False\<rparr>"

lemma demo_wpa_elements:
  "wpa_write_rsn_ie demo_wpa_conf 128 None =
     Some [48, 20, 1, 0, 0, 0x0f, 0xac, 2, 1, 0, 0, 0x0f, 0xac, 4, 1, 0, 0, 0x0f, 0xac, 2, 13, 0]"
  "wpa_write_wpa_ie demo_wpa_conf =
     Some [221, 22, 0, 0x50, 0xf2, 1, 1, 0, 0, 0x50, 0xf2, 2, 1, 0, 0, 0x50, 0xf2, 2, 1, 0, 0, 0x50, 0xf2, 2]"
  by (simp_all add: demo_wpa_conf_def wpa_write_rsn_ie_def wpa_write_wpa_ie_def rsn_group_suite_def wpa_group_suite_def
      put_suites_def suites_of_def rsn_capab_def suite_defs RSN_SELECTOR_PUT_def byte_order_defs Let_def)

theorem rsn_wpa_ie_roundtrip_witness:
  "wpa_parse_wpa_ie_rsn [48, 20, 1, 0, 0, 0x0f, 0xac, 2, 1, 0, 0, 0x0f, 0xac, 4, 1, 0, 0, 0x0f, 0xac, 2, 13, 0] =
     (0, \<lparr>proto = 2, pairwise_cipher = 16, group_cipher = 8, key_mgmt = 2, capabilities = 13, pmkids = [],
       mgmt_group_cipher = 0\<rparr>)"
  using rsn_wpa_ie_roundtrip [OF demo_wpa_elements(1,2)] by (simp add: demo_wpa_conf_def rsn_capab_def)

section \<open>Key data reads back\<close>

lemma unat_octet: "n < 256 \<Longrightarrow> unat (word_of_nat n :: u8) = n"
  by (simp add: unat_of_nat)

lemma kde_loop_rsn:
  assumes "length body = unat l" "pos = length pre"
  shows "kde_loop (pre @ (48 # l # body) @ rest) pos ie =
    kde_loop (pre @ (48 # l # body) @ rest) (pos + (2 + unat l)) (ie\<lparr>kde_rsn_ie := Some (48 # l # body)\<rparr>)"
  using assms by (subst kde_loop.simps) (simp add: rd_def slice_def nth_append)

lemma kde_loop_gtk:
  assumes "wpa_add_kde RSN_KEY_DATA_GROUPKEY hdr (Some gtk) = k" "length hdr = 2" "0 < length gtk" "length gtk \<le> 32"
    "pos = length pre"
  shows "kde_loop (pre @ k @ rest) pos ie =
    kde_loop (pre @ k @ rest) (pos + length k) (ie\<lparr>kde_gtk := Some (hdr @ gtk)\<rparr>)"
proof -
  define l where "l = (word_of_nat (4 + (length hdr + length gtk)) :: u8)"
  have l: "unat l = 6 + length gtk" unfolding l_def by (subst unat_octet) (use assms in simp_all)
  have k: "k = 221 # l # RSN_SELECTOR_PUT RSN_KEY_DATA_GROUPKEY @ hdr @ gtk"
    using assms(1) by (simp add: wpa_add_kde_def l_def Let_def add.assoc)
  let ?buf = "pre @ k @ rest"
  have buf: "length ?buf = pos + 8 + length gtk + length rest" "?buf ! pos = 221" "?buf ! Suc pos = l"
    "RSN_SELECTOR_GET (drop (pos + 2) ?buf) = RSN_KEY_DATA_GROUPKEY"
    "take (length gtk + 2) (drop (6 + pos) ?buf) = hdr @ gtk"
    using assms(2,5) by (simp_all add: k nth_append)
  have sel: "RSN_KEY_DATA_GROUPKEY \<noteq> WPA_OUI_TYPE" "RSN_KEY_DATA_GROUPKEY \<noteq> RSN_KEY_DATA_PMKID"
    by (simp_all add: suite_defs)
  have g: "wpa_parse_generic ?buf pos ie = Some (0, ie\<lparr>kde_gtk := Some (hdr @ gtk)\<rparr>)"
  proof -
    have s: "rd ?buf (pos + 1) = Some l" "rd_selector ?buf (pos + 2) = Some RSN_KEY_DATA_GROUPKEY"
      "slice ?buf (pos + 2 + 4) (unat l - 4) = Some (hdr @ gtk)"
      using buf l by (simp_all add: rd_def rd_selector_def slice_def add.commute)
    show ?thesis using l sel assms(3)
      unfolding wpa_parse_generic_def s Option.bind.simps Let_def by simp
  qed
  have nz: "l \<noteq> 0" using l by (metis add_is_0 unat_0 zero_neq_numeral)
  have len: "length k = 2 + unat l" using l assms(2) by (simp add: k)
  show ?thesis
    using buf l nz assms(3)
    by (subst kde_loop.simps) (simp add: rd_def g len)
qed

lemma kde_loop_end: "pad = [] \<or> (\<exists>n. pad = 0xdd # replicate n 0) \<Longrightarrow> kde_loop (pre @ pad) (length pre) ie = Some (0, ie)"
proof (elim disjE exE)
  fix n assume "pad = 0xdd # replicate n 0"
  then show ?thesis by (cases n) (subst kde_loop.simps, simp add: rd_def nth_append)+
qed (simp add: kde_loop.simps)



section \<open>Negotiation\<close>

lemma and_two_parts: "(m :: int) AND (a OR b) = (m AND a) OR (m AND b)"
  by (rule bit_eqI) (auto simp: bit_simps)

lemma common_bits: "(c :: int) AND e = c \<Longrightarrow> d AND c = (d AND c) AND e"
  by (metis and.assoc)

lemma pick_cipher:
  assumes "(c :: int) AND 24 = c" "d AND c \<noteq> 0" "(d AND c) AND 16 = 0"
  shows "8 AND c \<noteq> 0 \<and> 8 AND d \<noteq> 0"
proof -
  have "d AND c = (d AND c) AND (8 OR 16)" using common_bits [OF assms(1), of d] by simp
  then have "(d AND c) AND 8 \<noteq> 0" using assms(2,3) unfolding and_two_parts by simp
  then have "bit d 3 \<and> bit c 3" using and_bit(3) [of "d AND c"] by (cases "bit d 3"; cases "bit c 3") (simp_all add: bit_and_iff)
  then show ?thesis using and_bit(3) [of d] and_bit(3) [of c] by (simp add: and.commute)
qed

lemma pick_ccmp: "((d :: int) AND c) AND 16 \<noteq> 0 \<longleftrightarrow> 16 AND c \<noteq> 0 \<and> 16 AND d \<noteq> 0"
  using and_bit(4) [of "d AND c"] and_bit(4) [of d] and_bit(4) [of c]
  by (cases "bit d 4"; cases "bit c 4") (simp_all add: bit_and_iff and.commute)

lemma pick_akm:
  assumes "(c :: int) AND 3 = c" "d AND c \<noteq> 0"
  shows "if (d AND c) AND 1 \<noteq> 0 then 1 AND c \<noteq> 0 \<and> 1 AND d \<noteq> 0 else 2 AND c \<noteq> 0 \<and> 2 AND d \<noteq> 0"
proof -
  have "d AND c = (d AND c) AND (1 OR 2)" using common_bits [OF assms(1), of d] by simp
  then have "(d AND c) AND 1 \<noteq> 0 \<or> (d AND c) AND 2 \<noteq> 0" using assms(2) unfolding and_two_parts by auto
  then show ?thesis
    using and_bit(1,2) [of "d AND c"] and_bit(1,2) [of d] and_bit(1,2) [of c]
    by (cases "bit d 0"; cases "bit c 0"; cases "bit d 1"; cases "bit c 1") (simp_all add: bit_and_iff and.commute)
qed


lemma demo_rsn_ie_parses:
  "wpa_parse_wpa_ie_rsn [48, 20, 1, 0, 0, 0x0f, 0xac, 2, 1, 0, 0, 0x0f, 0xac, 4, 1, 0, 0, 0x0f, 0xac, 2, 13, 0] =
     (0, \<lparr>proto = 2, pairwise_cipher = 16, group_cipher = 8, key_mgmt = 2, capabilities = 13, pmkids = [],
       mgmt_group_cipher = 0\<rparr>)"
  by (simp add: wpa_parse_wpa_ie_rsn_def parse_group_suite_def parse_pairwise_suites_def parse_key_mgmt_suites_def
      parse_capabilities_def parse_pmkids_def rsn_selector_to_bitfield_def rsn_key_mgmt_to_bitfield_def suite_defs
      RSN_SELECTOR_GET_def byte_order_defs Let_def)


end
