(* ===== verification/Wpa_Auth.thy ===== *)
theory Wpa_Auth
  imports Wpa_Auth_Ie
begin

text \<open>
  The WPA authenticator, \<^verbatim>\<open>src/ap/wpa_auth.c\<close>: the 4-way handshake machine of a station, its group key machine, the
  group machine, the loop that drives them, EAPOL-Key frames in both directions, and the entry points that the rest
  of hostapd calls.  Every operation takes the environment, the index of the station and the authenticator.  Stepping
  a station can, through a group rekey, step all other stations; the recursion carries a bound, and \<open>wpa_fuel\<close> is large
  enough for it, which \<open>Wpa_Auth_Term\<close> proves.
\<close>

section \<open>Constants\<close>

abbreviation (input) dot11RSNAConfigGroupUpdateCount :: nat where "dot11RSNAConfigGroupUpdateCount \<equiv> 4"
abbreviation (input) dot11RSNAConfigPairwiseUpdateCount :: nat where "dot11RSNAConfigPairwiseUpdateCount \<equiv> 4"
abbreviation (input) eapol_key_timeout_first :: nat where "eapol_key_timeout_first \<equiv> 100"
abbreviation (input) eapol_key_timeout_subseq :: nat where "eapol_key_timeout_subseq \<equiv> 1000"

abbreviation (input) WPA_KEY_INFO_TYPE_MASK :: u16 where "WPA_KEY_INFO_TYPE_MASK \<equiv> 7"
abbreviation (input) WPA_KEY_INFO_KEY_TYPE :: u16 where "WPA_KEY_INFO_KEY_TYPE \<equiv> 0x8"
abbreviation (input) WPA_KEY_INFO_INSTALL :: u16 where "WPA_KEY_INFO_INSTALL \<equiv> 0x40"
abbreviation (input) WPA_KEY_INFO_ACK :: u16 where "WPA_KEY_INFO_ACK \<equiv> 0x80"
abbreviation (input) WPA_KEY_INFO_MIC :: u16 where "WPA_KEY_INFO_MIC \<equiv> 0x100"
abbreviation (input) WPA_KEY_INFO_SECURE :: u16 where "WPA_KEY_INFO_SECURE \<equiv> 0x200"
abbreviation (input) WPA_KEY_INFO_ERROR :: u16 where "WPA_KEY_INFO_ERROR \<equiv> 0x400"
abbreviation (input) WPA_KEY_INFO_REQUEST :: u16 where "WPA_KEY_INFO_REQUEST \<equiv> 0x800"
abbreviation (input) WPA_KEY_INFO_ENCR_KEY_DATA :: u16 where "WPA_KEY_INFO_ENCR_KEY_DATA \<equiv> 0x1000"
abbreviation (input) WPA_KEY_INFO_SMK_MESSAGE :: u16 where "WPA_KEY_INFO_SMK_MESSAGE \<equiv> 0x2000"

abbreviation (input) IEEE802_1X_TYPE_EAPOL_KEY :: u8 where "IEEE802_1X_TYPE_EAPOL_KEY \<equiv> 3"
abbreviation (input) EAPOL_KEY_TYPE_RSN :: u8 where "EAPOL_KEY_TYPE_RSN \<equiv> 2"
abbreviation (input) EAPOL_KEY_TYPE_WPA :: u8 where "EAPOL_KEY_TYPE_WPA \<equiv> 254"

section \<open>Callbacks\<close>

definition wpa_auth_set_eapol :: "bytes \<Rightarrow> wpa_eapol_variable \<Rightarrow> bool \<Rightarrow> wpa_authenticator \<Rightarrow> wpa_authenticator" where
  "wpa_auth_set_eapol addr var val = log_w (W_set_eapol addr var val)"

definition wpa_auth_get_eapol :: "wpa_env \<Rightarrow> wpa_authenticator \<Rightarrow> bytes \<Rightarrow> wpa_eapol_variable \<Rightarrow> int" where
  "wpa_auth_get_eapol E wa addr var = we_get_eapol E (wa_calls wa) addr var"

text \<open>\<^verbatim>\<open>hostapd_get_psk\<close>: a pointer to a key is the position of its entry in the list.\<close>

fun get_psk_loop :: "bytes \<Rightarrow> nat option \<Rightarrow> bool \<Rightarrow> nat \<Rightarrow> hostapd_wpa_psk list \<Rightarrow> nat option" where
  "get_psk_loop addr prev next_ok k [] = None"
| "get_psk_loop addr prev next_ok k (psk # rest) =
     (if next_ok \<and> (psk_group psk \<or> psk_addr psk = addr) then Some k
      else get_psk_loop addr prev (next_ok \<or> prev = Some k) (Suc k) rest)"

definition hostapd_get_psk :: "hostapd_wpa_psk list \<Rightarrow> bytes \<Rightarrow> nat option \<Rightarrow> nat option" where
  "hostapd_get_psk psks addr prev_psk = get_psk_loop addr prev_psk (prev_psk = None) 0 psks"

definition wpa_auth_set_key ::
  "wpa_env \<Rightarrow> int \<Rightarrow> wpa_alg \<Rightarrow> bytes option \<Rightarrow> nat \<Rightarrow> bytes \<Rightarrow> wpa_authenticator \<Rightarrow> int \<times> wpa_authenticator" where
  "wpa_auth_set_key E vlan alg addr idx key wa =
     (we_set_key E (wa_calls wa), log_w (W_set_key vlan alg addr idx key) wa)"

definition wpa_sta_disconnect :: "bytes \<Rightarrow> wpa_authenticator \<Rightarrow> wpa_authenticator" where
  "wpa_sta_disconnect addr = log_w (W_disconnect addr)"

definition wpa_alloc :: "wpa_env \<Rightarrow> wpa_authenticator \<Rightarrow> bool \<times> wpa_authenticator" where
  "wpa_alloc E wa = (we_malloc E (wa_calls wa), log_w W_malloc wa)"

section \<open>EAPOL-Key frames\<close>

text \<open>The layout of \<^verbatim>\<open>struct ieee802_1x_hdr\<close> and \<^verbatim>\<open>struct wpa_eapol_key\<close>: 4 and 95 octets, then the key data.\<close>

definition eapol_key_frame ::
  "u8 \<Rightarrow> u8 \<Rightarrow> u16 \<Rightarrow> u16 \<Rightarrow> bytes \<Rightarrow> bytes \<Rightarrow> bytes \<Rightarrow> bytes \<Rightarrow> bytes \<Rightarrow> u16 \<Rightarrow> bytes \<Rightarrow> bytes" where
  "eapol_key_frame version typ key_info key_length replay_counter key_nonce key_iv key_rsc key_mic key_data_length key_data =
     [version, IEEE802_1X_TYPE_EAPOL_KEY] @ WPA_PUT_BE16 (word_of_nat (95 + length key_data)) @
     [typ] @ WPA_PUT_BE16 key_info @ WPA_PUT_BE16 key_length @ replay_counter @ key_nonce @ key_iv @ key_rsc @
     replicate 8 0 @ key_mic @ WPA_PUT_BE16 key_data_length @ key_data"

definition wpa_replay_counter_valid :: "wpa_state_machine \<Rightarrow> bytes \<Rightarrow> bool" where
  "wpa_replay_counter_valid sm replay_counter \<longleftrightarrow>
     replay_counter \<in> set (map fst (takeWhile snd (take RSNA_MAX_EAPOL_RETRIES (key_replay sm))))"

text \<open>The counters move down by one, the first one is incremented and becomes valid.\<close>

definition key_replay_next :: "(bytes \<times> bool) list \<Rightarrow> (bytes \<times> bool) list" where
  "key_replay_next r = (inc_byte_array (fst (hd r)), True) # butlast r"

definition eapol_key_length :: "int \<Rightarrow> u16" where
  "eapol_key_length alg =
     (if alg = WPA_CIPHER_CCMP then 16 else if alg = WPA_CIPHER_TKIP then 32
      else if alg = WPA_CIPHER_WEP40 then 5 else if alg = WPA_CIPHER_WEP104 then 13 else 0)"

text \<open>The key data field: its octets, the value of its length field and of the key IV, \<open>None\<close> when the function gives up.\<close>

definition eapol_key_data ::
  "wpa_env \<Rightarrow> nat \<Rightarrow> nat \<Rightarrow> bytes option \<Rightarrow> bool \<Rightarrow> wpa_authenticator \<Rightarrow> (bytes \<times> nat \<times> bytes) option \<times> wpa_authenticator" where
  "eapol_key_data E i version kde encr wa =
     (let sm = sta wa i;
          kde_len = (case kde of None \<Rightarrow> 0 | Some k \<Rightarrow> length k);
          aes = (version = WPA_KEY_INFO_TYPE_HMAC_SHA1_AES \<or> version = WPA_KEY_INFO_TYPE_AES_128_CMAC);
          pad_len = (if aes \<and> encr \<and> kde_len mod 8 \<noteq> 0 then 8 - kde_len mod 8 else 0);
          key_data_len = (if aes \<and> encr then kde_len + pad_len + 8 else kde_len) in
      case kde of
        None \<Rightarrow> (Some (replicate key_data_len 0, 0, replicate 16 0), wa)
      | Some k \<Rightarrow>
          if \<not> encr then (Some (k, kde_len, replicate 16 0), wa)
          else
            let (ok, wa) = wpa_alloc E wa in
            if \<not> ok then (None, wa)
            else
              let buf = overwrite 0 (k @ (if pad_len \<noteq> 0 then [0xdd] else [])) (replicate key_data_len 0) in
              if aes then
                (case aes_wrap (we_aes E (kek (PTK sm))) ((key_data_len - 8) div 8) buf of
                   None \<Rightarrow> (None, wa)
                 | Some c \<Rightarrow> (Some (c, key_data_len, replicate 16 0), wa))
              else
                let c = Counter (grp wa (w_group sm));
                    key_iv = take 16 (drop (WPA_NONCE_LEN - 16) c);
                    wa = upd_grp (w_group sm) (\<lambda>g. g\<lparr>Counter := inc_byte_array c\<rparr>) wa;
                    ek = key_iv @ kek (PTK sm)
                in (Some (rc4_skip ek 256 buf, key_data_len, key_iv), wa))"

definition wpa_send_eapol_frame ::
  "wpa_env \<Rightarrow> nat \<Rightarrow> u16 \<Rightarrow> bytes option \<Rightarrow> bytes option \<Rightarrow> bytes option \<Rightarrow> nat \<Rightarrow> bool \<Rightarrow> nat \<Rightarrow> wpa_authenticator \<Rightarrow>
   wpa_authenticator" where
  "wpa_send_eapol_frame E i key_info key_rsc nonce kde keyidx encr force_version wa =
     (let sm = sta wa i;
          version = (if force_version \<noteq> 0 then force_version
                     else if w_pairwise sm = WPA_CIPHER_CCMP then WPA_KEY_INFO_TYPE_HMAC_SHA1_AES
                     else WPA_KEY_INFO_TYPE_HMAC_MD5_RC4);
          pairwise_key = (key_info AND WPA_KEY_INFO_KEY_TYPE \<noteq> 0);
          (ok, wa) = wpa_alloc E wa in
      if \<not> ok then wa
      else
        let typ = (if w_wpa sm = WPA_VERSION_WPA2 then EAPOL_KEY_TYPE_RSN else EAPOL_KEY_TYPE_WPA);
            key_info = key_info OR word_of_nat version;
            key_info = (if encr \<and> w_wpa sm = WPA_VERSION_WPA2 then key_info OR WPA_KEY_INFO_ENCR_KEY_DATA else key_info);
            key_info = (if w_wpa sm \<noteq> WPA_VERSION_WPA2 then key_info OR push_bit 4 (word_of_nat keyidx) else key_info);
            key_length = (if key_info AND WPA_KEY_INFO_SMK_MESSAGE \<noteq> 0 then 0
                          else eapol_key_length (if pairwise_key then w_pairwise sm else wc_wpa_group (wa_conf wa)));
            wa = upd_sta i (\<lambda>sm. sm\<lparr>key_replay := key_replay_next (key_replay sm)\<rparr>) wa;
            replay_counter = fst (hd (key_replay (sta wa i)));
            key_nonce = (case nonce of None \<Rightarrow> replicate WPA_NONCE_LEN 0 | Some n \<Rightarrow> n);
            rsc = (case key_rsc of None \<Rightarrow> replicate WPA_KEY_RSC_LEN 0 | Some r \<Rightarrow> r);
            (data, wa) = eapol_key_data E i version kde encr wa in
        case data of
          None \<Rightarrow> wa
        | Some (key_data, key_data_length, key_iv) \<Rightarrow>
            let frame = (\<lambda>mic. eapol_key_frame (wc_eapol_version (wa_conf wa)) typ key_info key_length replay_counter
                  key_nonce key_iv rsc mic (word_of_nat key_data_length) key_data) in
            if key_info AND WPA_KEY_INFO_MIC \<noteq> 0 \<and> \<not> PTK_valid sm then wa
            else
              let mic = (if key_info AND WPA_KEY_INFO_MIC \<noteq> 0
                         then (case wpa_eapol_key_mic (kck (PTK sm)) version (frame (replicate 16 0)) of
                                 None \<Rightarrow> replicate 16 0 | Some m \<Rightarrow> m)
                         else replicate 16 0);
                  wa = wpa_auth_set_eapol (w_addr sm) WPA_EAPOL_inc_EapolFramesTx True wa
              in log_w (W_send_eapol (w_addr sm) (frame mic) (pairwise_set sm)) wa)"

definition wpa_send_eapol ::
  "wpa_env \<Rightarrow> nat \<Rightarrow> u16 \<Rightarrow> bytes option \<Rightarrow> bytes option \<Rightarrow> bytes option \<Rightarrow> nat \<Rightarrow> bool \<Rightarrow> wpa_authenticator \<Rightarrow> wpa_authenticator" where
  "wpa_send_eapol E i key_info key_rsc nonce kde keyidx encr wa =
     (let wa = wpa_send_eapol_frame E i key_info key_rsc nonce kde keyidx encr 0 wa;
          ctr = (if key_info AND WPA_KEY_INFO_KEY_TYPE \<noteq> 0 then TimeoutCtr (sta wa i) else GTimeoutCtr (sta wa i));
          timeout_ms = (if ctr = 1 then eapol_key_timeout_first else eapol_key_timeout_subseq)
      in log_w (W_register_timeout (timeout_ms div 1000) (timeout_ms mod 1000 * 1000) (T_send_eapol i)) wa)"

text \<open>True for the return value 0.\<close>

definition wpa_verify_key_mic :: "wpa_ptk \<Rightarrow> bytes \<Rightarrow> bool" where
  "wpa_verify_key_mic ptk data \<longleftrightarrow>
     99 \<le> length data \<and>
     wpa_eapol_key_mic (kck ptk) (unat (WPA_GET_BE16 (drop 5 data) AND WPA_KEY_INFO_TYPE_MASK))
       (overwrite 81 (replicate 16 0) data) = Some (take 16 (drop 81 data))"

section \<open>Keys\<close>

definition wpa_remove_ptk :: "wpa_env \<Rightarrow> nat \<Rightarrow> wpa_authenticator \<Rightarrow> wpa_authenticator" where
  "wpa_remove_ptk E i wa =
     (let wa = upd_sta i (\<lambda>sm. sm\<lparr>PTK_valid := False, PTK := wpa_ptk_zero\<rparr>) wa;
          (_, wa) = wpa_auth_set_key E 0 WPA_ALG_NONE (Some (w_addr (sta wa i))) 0 [] wa;
          wa = upd_sta i (\<lambda>sm. sm\<lparr>pairwise_set := False\<rparr>) wa
      in log_w (W_cancel_timeout (T_rekey_ptk i)) wa)"

definition wpa_request_new_ptk :: "nat \<Rightarrow> wpa_authenticator \<Rightarrow> wpa_authenticator" where
  "wpa_request_new_ptk i = upd_sta i (\<lambda>sm. sm\<lparr>PTKRequest := True, PTK_valid := False\<rparr>)"

definition label_pairwise :: bytes where
  "label_pairwise = [80, 97, 105, 114, 119, 105, 115, 101, 32, 107, 101, 121, 32, 101, 120, 112, 97, 110, 115, 105, 111, 110]"

text \<open>The local structure that receives the key has an indeterminate content before; \<open>wpa_ptk_zero\<close> stands for it.  With
  CCMP its last 16 octets are never used.\<close>

definition wpa_derive_ptk :: "wpa_authenticator \<Rightarrow> wpa_state_machine \<Rightarrow> bytes \<Rightarrow> wpa_ptk" where
  "wpa_derive_ptk wa sm pmk =
     (let ptk_len = (if w_pairwise sm = WPA_CIPHER_CCMP then 48 else 64) in
      case wpa_pmk_to_ptk pmk label_pairwise (wa_addr wa) (w_addr sm) (ANonce sm) (SNonce sm) ptk_len of
        None \<Rightarrow> wpa_ptk_zero
      | Some b \<Rightarrow> wpa_ptk_of b wpa_ptk_zero)"

definition label_group :: bytes where
  "label_group = [71, 114, 111, 117, 112, 32, 107, 101, 121, 32, 101, 120, 112, 97, 110, 115, 105, 111, 110]"

definition wpa_gmk_to_gtk :: "bytes \<Rightarrow> bytes \<Rightarrow> bytes \<Rightarrow> nat \<Rightarrow> bytes option" where
  "wpa_gmk_to_gtk gmk addr gnonce gtk_len = sha1_prf (take WPA_GMK_LEN gmk) label_group (addr @ gnonce) gtk_len"

definition wpa_gtk_update :: "bytes \<Rightarrow> wpa_group \<Rightarrow> wpa_group" where
  "wpa_gtk_update addr g =
     (let g = g\<lparr>GNonce := Counter g\<rparr>;
          g = g\<lparr>Counter := inc_byte_array (Counter g)\<rparr> in
      case wpa_gmk_to_gtk (GMK g) addr (GNonce g) (GTK_len g) of
        None \<Rightarrow> g
      | Some k \<Rightarrow> g\<lparr>GTK := (GTK g)[GN g - 1 := overwrite 0 k (GTK g ! (GN g - 1))]\<rparr>)"

definition wpa_alg_enum :: "int \<Rightarrow> wpa_alg" where
  "wpa_alg_enum alg =
     (if alg = WPA_CIPHER_CCMP then WPA_ALG_CCMP else if alg = WPA_CIPHER_TKIP then WPA_ALG_TKIP
      else if alg = WPA_CIPHER_WEP104 \<or> alg = WPA_CIPHER_WEP40 then WPA_ALG_WEP else WPA_ALG_NONE)"

section \<open>The 4-way handshake machine\<close>

definition enter_ptk :: "wpa_ptk_states \<Rightarrow> nat \<Rightarrow> wpa_authenticator \<Rightarrow> wpa_authenticator" where
  "enter_ptk s i = upd_sta i (\<lambda>sm. sm\<lparr>w_changed := True, wpa_ptk_state := s\<rparr>)"

text \<open>The pending group key update of a station is withdrawn.\<close>

definition drop_group_update :: "nat \<Rightarrow> wpa_authenticator \<Rightarrow> wpa_authenticator" where
  "drop_group_update i wa =
     (let wa = (if GUpdateStationKeys (sta wa i)
                then upd_grp (w_group (sta wa i)) (\<lambda>g. g\<lparr>GKeyDoneStations := GKeyDoneStations g - 1\<rparr>) wa else wa)
      in upd_sta i (\<lambda>sm. sm\<lparr>GUpdateStationKeys := False\<rparr>) wa)"

definition sm_WPA_PTK_INITIALIZE_Enter :: "wpa_env \<Rightarrow> nat \<Rightarrow> wpa_authenticator \<Rightarrow> wpa_authenticator" where
  "sm_WPA_PTK_INITIALIZE_Enter E i wa =
     (let addr = w_addr (sta wa i);
          wa = enter_ptk WPA_PTK_INITIALIZE i wa;
          wa = (if Init (sta wa i) then upd_sta i (\<lambda>sm. sm\<lparr>w_changed := False\<rparr>) wa else wa);
          wa = upd_sta i (\<lambda>sm. sm\<lparr>keycount := 0\<rparr>) wa;
          wa = drop_group_update i wa;
          wa = (if w_wpa (sta wa i) = WPA_VERSION_WPA then upd_sta i (\<lambda>sm. sm\<lparr>PInitAKeys := False\<rparr>) wa else wa);
          wa = upd_sta i (\<lambda>sm. sm\<lparr>w_Pair := True\<rparr>) wa;
          wa = wpa_auth_set_eapol addr WPA_EAPOL_portEnabled False wa;
          wa = wpa_remove_ptk E i wa;
          wa = wpa_auth_set_eapol addr WPA_EAPOL_portValid False wa;
          wa = upd_sta i (\<lambda>sm. sm\<lparr>TimeoutCtr := 0\<rparr>) wa
      in if wpa_key_mgmt_wpa_psk (w_wpa_key_mgmt (sta wa i))
         then wpa_auth_set_eapol addr WPA_EAPOL_authorized False wa else wa)"

definition sm_WPA_PTK_DISCONNECT_Enter :: "nat \<Rightarrow> wpa_authenticator \<Rightarrow> wpa_authenticator" where
  "sm_WPA_PTK_DISCONNECT_Enter i wa =
     (let wa = enter_ptk WPA_PTK_DISCONNECT i wa;
          wa = upd_sta i (\<lambda>sm. sm\<lparr>Disconnect := False\<rparr>) wa
      in wpa_sta_disconnect (w_addr (sta wa i)) wa)"

definition sm_WPA_PTK_DISCONNECTED_Enter :: "nat \<Rightarrow> wpa_authenticator \<Rightarrow> wpa_authenticator" where
  "sm_WPA_PTK_DISCONNECTED_Enter i wa =
     upd_sta i (\<lambda>sm. sm\<lparr>DeauthenticationRequest := False\<rparr>) (enter_ptk WPA_PTK_DISCONNECTED i wa)"

definition sm_WPA_PTK_AUTHENTICATION_Enter :: "nat \<Rightarrow> wpa_authenticator \<Rightarrow> wpa_authenticator" where
  "sm_WPA_PTK_AUTHENTICATION_Enter i wa =
     (let wa = enter_ptk WPA_PTK_AUTHENTICATION i wa;
          wa = upd_sta i (\<lambda>sm. sm\<lparr>PTK := wpa_ptk_zero, PTK_valid := False\<rparr>) wa;
          wa = wpa_auth_set_eapol (w_addr (sta wa i)) WPA_EAPOL_portControl_Auto True wa;
          wa = wpa_auth_set_eapol (w_addr (sta wa i)) WPA_EAPOL_portEnabled True wa
      in upd_sta i (\<lambda>sm. sm\<lparr>AuthenticationRequest := False\<rparr>) wa)"

definition sm_WPA_PTK_AUTHENTICATION2_Enter :: "nat \<Rightarrow> wpa_authenticator \<Rightarrow> wpa_authenticator" where
  "sm_WPA_PTK_AUTHENTICATION2_Enter i wa =
     (let wa = enter_ptk WPA_PTK_AUTHENTICATION2 i wa;
          v = w_group (sta wa i);
          c = Counter (grp wa v);
          wa = upd_sta i (\<lambda>sm. sm\<lparr>ANonce := take WPA_NONCE_LEN c\<rparr>) wa;
          wa = upd_grp v (\<lambda>g. g\<lparr>Counter := inc_byte_array c\<rparr>) wa
      in upd_sta i (\<lambda>sm. sm\<lparr>ReAuthenticationRequest := False, TimeoutCtr := 0\<rparr>) wa)"

text \<open>\<open>we_get_msk\<close> returns the buffer of \<^verbatim>\<open>2 * PMK_LEN\<close> octets after a successful call.\<close>

definition sm_WPA_PTK_INITPMK_Enter :: "wpa_env \<Rightarrow> nat \<Rightarrow> wpa_authenticator \<Rightarrow> wpa_authenticator" where
  "sm_WPA_PTK_INITPMK_Enter E i wa =
     (let wa = enter_ptk WPA_PTK_INITPMK i wa;
          sm = sta wa i;
          wa = (case w_pmksa sm of
                  Some a \<Rightarrow>
                    (case pmksa_heap (wa_pmksa wa) a of
                       Some e \<Rightarrow> upd_sta i (\<lambda>sm. sm\<lparr>PMK := take PMK_LEN (pe_pmk e)\<rparr>) wa
                     | None \<Rightarrow> wa)
                | None \<Rightarrow>
                    (case we_get_msk E (wa_calls wa) (w_addr sm) of
                       Some msk \<Rightarrow> upd_sta i (\<lambda>sm. sm\<lparr>PMK := take PMK_LEN msk\<rparr>) wa
                     | None \<Rightarrow> wa));
          wa = upd_sta i (\<lambda>sm. sm\<lparr>req_replay_counter_used := False\<rparr>) wa
      in wpa_auth_set_eapol (w_addr sm) WPA_EAPOL_keyRun False wa)"

definition psk_at :: "wpa_env \<Rightarrow> nat \<Rightarrow> bytes" where
  "psk_at E k = take PMK_LEN (psk_key (we_psks E ! k))"

definition sm_WPA_PTK_INITPSK_Enter :: "wpa_env \<Rightarrow> nat \<Rightarrow> wpa_authenticator \<Rightarrow> wpa_authenticator" where
  "sm_WPA_PTK_INITPSK_Enter E i wa =
     (let wa = enter_ptk WPA_PTK_INITPSK i wa;
          wa = (case hostapd_get_psk (we_psks E) (w_addr (sta wa i)) None of
                  Some k \<Rightarrow> upd_sta i (\<lambda>sm. sm\<lparr>PMK := psk_at E k\<rparr>) wa
                | None \<Rightarrow> wa)
      in upd_sta i (\<lambda>sm. sm\<lparr>req_replay_counter_used := False\<rparr>) wa)"

definition ptkstart_pmkid :: "wpa_authenticator \<Rightarrow> wpa_state_machine \<Rightarrow> bytes option" where
  "ptkstart_pmkid wa sm =
     (if w_wpa sm = WPA_VERSION_WPA2 \<and> wpa_key_mgmt_wpa_ieee8021x (w_wpa_key_mgmt sm) then
        let pmkid = (case w_pmksa sm of
              Some a \<Rightarrow> (case pmksa_heap (wa_pmksa wa) a of Some e \<Rightarrow> pe_pmkid e | None \<Rightarrow> [])
            | None \<Rightarrow> rsn_pmkid rsn_pmkid_hmac (PMK sm) (wa_addr wa) (w_addr sm) (wpa_key_mgmt_sha256 (w_wpa_key_mgmt sm)))
        in Some ([WLAN_EID_VENDOR_SPECIFIC, 4 + 16] @ RSN_SELECTOR_PUT RSN_KEY_DATA_PMKID @ pmkid)
      else None)"

definition sm_WPA_PTK_PTKSTART_Enter :: "wpa_env \<Rightarrow> nat \<Rightarrow> wpa_authenticator \<Rightarrow> wpa_authenticator" where
  "sm_WPA_PTK_PTKSTART_Enter E i wa =
     (let wa = enter_ptk WPA_PTK_PTKSTART i wa;
          wa = upd_sta i (\<lambda>sm. sm\<lparr>PTKRequest := False, TimeoutEvt := False\<rparr>) wa;
          wa = upd_sta i (\<lambda>sm. sm\<lparr>TimeoutCtr := TimeoutCtr sm + 1\<rparr>) wa in
      if TimeoutCtr (sta wa i) > dot11RSNAConfigPairwiseUpdateCount then wa
      else
        wpa_send_eapol E i (WPA_KEY_INFO_ACK OR WPA_KEY_INFO_KEY_TYPE) None (Some (ANonce (sta wa i)))
          (ptkstart_pmkid wa (sta wa i)) 0 False wa)"

lemma get_psk_loop_range:
  "get_psk_loop addr prev ok k psks = Some j \<Longrightarrow>
   k \<le> j \<and> j < k + length psks \<and> (\<not> ok \<longrightarrow> (\<exists>p. prev = Some p \<and> p < j))"
proof (induction psks arbitrary: ok k)
  case (Cons psk psks)
  show ?case
  proof (cases "ok \<and> (psk_group psk \<or> psk_addr psk = addr)")
    case True
    then show ?thesis using Cons.prems by auto
  next
    case False
    then have "get_psk_loop addr prev (ok \<or> prev = Some k) (Suc k) psks = Some j" using Cons.prems by auto
    from Cons.IH [OF this] show ?thesis by auto
  qed
qed simp

lemma hostapd_get_psk_range:
  "hostapd_get_psk psks addr prev = Some j \<Longrightarrow> j < length psks \<and> (\<forall>p. prev = Some p \<longrightarrow> p < j)"
  unfolding hostapd_get_psk_def using get_psk_loop_range [of addr prev "prev = None" 0 psks j] by auto

text \<open>The search of \<^verbatim>\<open>PTKCALCNEGOTIATING\<close> among the pre-shared keys: the position of the first one after \<open>prev\<close> under which
  the frame verifies.\<close>

function find_psk :: "(nat \<Rightarrow> bool) \<Rightarrow> hostapd_wpa_psk list \<Rightarrow> bytes \<Rightarrow> nat option \<Rightarrow> nat option" where
  "find_psk verifies psks addr prev =
     (case hostapd_get_psk psks addr prev of
        None \<Rightarrow> None
      | Some k \<Rightarrow> if verifies k then Some k else find_psk verifies psks addr (Some k))"
  by auto
termination
  by (relation "measure (\<lambda>(v, psks, addr, prev). length psks - (case prev of None \<Rightarrow> 0 | Some p \<Rightarrow> Suc p))")
    (auto dest!: hostapd_get_psk_range split: option.splits)

declare find_psk.simps [simp del]

definition sm_WPA_PTK_PTKCALCNEGOTIATING_Enter :: "wpa_env \<Rightarrow> nat \<Rightarrow> wpa_authenticator \<Rightarrow> wpa_authenticator" where
  "sm_WPA_PTK_PTKCALCNEGOTIATING_Enter E i wa =
     (let wa = enter_ptk WPA_PTK_PTKCALCNEGOTIATING i wa;
          wa = upd_sta i (\<lambda>sm. sm\<lparr>EAPOLKeyReceived := False\<rparr>) wa;
          sm = sta wa i;
          frame = (case last_rx_eapol_key sm of None \<Rightarrow> [] | Some f \<Rightarrow> f);
          psk = wpa_key_mgmt_wpa_psk (w_wpa_key_mgmt sm);
          pmk = (if psk then
                   map_option (psk_at E)
                     (find_psk (\<lambda>k. wpa_verify_key_mic (wpa_derive_ptk wa sm (psk_at E k)) frame) (we_psks E) (w_addr sm) None)
                 else if wpa_verify_key_mic (wpa_derive_ptk wa sm (PMK sm)) frame then Some (PMK sm) else None) in
      case pmk of
        None \<Rightarrow> wa
      | Some pmk \<Rightarrow>
          let wa = log_w (W_cancel_timeout (T_send_eapol i)) wa;
              wa = (if psk then upd_sta i (\<lambda>sm. sm\<lparr>PMK := pmk\<rparr>) wa else wa)
          in upd_sta i (\<lambda>s. s\<lparr>MICVerified := True, PTK := wpa_derive_ptk wa sm pmk, PTK_valid := True\<rparr>) wa)"

definition sm_WPA_PTK_PTKCALCNEGOTIATING2_Enter :: "nat \<Rightarrow> wpa_authenticator \<Rightarrow> wpa_authenticator" where
  "sm_WPA_PTK_PTKCALCNEGOTIATING2_Enter i wa =
     upd_sta i (\<lambda>sm. sm\<lparr>TimeoutCtr := 0\<rparr>) (enter_ptk WPA_PTK_PTKCALCNEGOTIATING2 i wa)"

text \<open>The element for message 3/4: a station that uses WPA does not get the RSN element in front.\<close>

definition msg3_wpa_ie :: "wpa_authenticator \<Rightarrow> wpa_state_machine \<Rightarrow> bytes" where
  "msg3_wpa_ie wa sm =
     (let ie = wa_wpa_ie wa in
      if w_wpa sm = WPA_VERSION_WPA \<and> wc_wpa (wa_conf wa) AND WPA_PROTO_RSN \<noteq> 0 \<and>
         length ie > unat (ie ! 1) + 2 \<and> ie ! 0 = WLAN_EID_RSN
      then let ie = drop (unat (ie ! 1) + 2) ie in take (unat (ie ! 1) + 2) ie
      else ie)"

definition seqnum :: "wpa_env \<Rightarrow> wpa_authenticator \<Rightarrow> nat \<Rightarrow> bytes" where
  "seqnum E wa idx = (case we_get_seqnum E (wa_calls wa) idx of None \<Rightarrow> replicate WPA_KEY_RSC_LEN 0 | Some s \<Rightarrow> s)"

definition gtk_kde :: "wpa_group \<Rightarrow> bytes" where
  "gtk_kde gsm =
     wpa_add_kde RSN_KEY_DATA_GROUPKEY [word_of_nat (GN gsm) AND 0x03, 0] (Some (take (GTK_len gsm) (GTK gsm ! (GN gsm - 1))))"

definition sm_WPA_PTK_PTKINITNEGOTIATING_Enter :: "wpa_env \<Rightarrow> nat \<Rightarrow> wpa_authenticator \<Rightarrow> wpa_authenticator" where
  "sm_WPA_PTK_PTKINITNEGOTIATING_Enter E i wa =
     (let wa = enter_ptk WPA_PTK_PTKINITNEGOTIATING i wa;
          wa = upd_sta i (\<lambda>sm. sm\<lparr>TimeoutEvt := False, TimeoutCtr := TimeoutCtr sm + 1\<rparr>) wa;
          sm = sta wa i;
          gsm = grp wa (w_group sm) in
      if TimeoutCtr sm > dot11RSNAConfigPairwiseUpdateCount then wa
      else
        let rsc = seqnum E wa (GN gsm);
            wpa_ie = msg3_wpa_ie wa sm;
            rsn = (w_wpa sm = WPA_VERSION_WPA2);
            (ok, wa) = wpa_alloc E wa in
        if \<not> ok then wa
        else
          wpa_send_eapol E i
            ((if rsn then WPA_KEY_INFO_SECURE else 0) OR WPA_KEY_INFO_MIC OR WPA_KEY_INFO_ACK OR WPA_KEY_INFO_INSTALL OR
             WPA_KEY_INFO_KEY_TYPE)
            (if rsn then Some rsc else None) (Some (ANonce sm)) (Some (wpa_ie @ (if rsn then gtk_kde gsm else [])))
            (if rsn then GN gsm else 0) rsn wa)"

definition sm_WPA_PTK_PTKINITDONE_Enter :: "wpa_env \<Rightarrow> nat \<Rightarrow> wpa_authenticator \<Rightarrow> wpa_authenticator" where
  "sm_WPA_PTK_PTKINITDONE_Enter E i wa =
     (let wa = enter_ptk WPA_PTK_PTKINITDONE i wa;
          wa = upd_sta i (\<lambda>sm. sm\<lparr>EAPOLKeyReceived := False\<rparr>) wa;
          sm = sta wa i;
          addr = w_addr sm;
          (alg, klen) = (if w_pairwise sm = WPA_CIPHER_TKIP then (WPA_ALG_TKIP, 32) else (WPA_ALG_CCMP, 16));
          (fail, wa) =
            (if w_Pair sm then
               let (r, wa) = wpa_auth_set_key E 0 alg (Some addr) 0 (take klen (tk1 (PTK sm) @ tk2 (PTK sm))) wa in
               if r \<noteq> 0 then (True, wpa_sta_disconnect addr wa)
               else
                 let wa = upd_sta i (\<lambda>sm. sm\<lparr>pairwise_set := True\<rparr>) wa;
                     wa = (if wc_wpa_ptk_rekey (wa_conf wa) \<noteq> 0
                           then log_w (W_register_timeout (wc_wpa_ptk_rekey (wa_conf wa)) 0 (T_rekey_ptk i))
                                  (log_w (W_cancel_timeout (T_rekey_ptk i)) wa)
                           else wa);
                     wa = (if wpa_key_mgmt_wpa_psk (w_wpa_key_mgmt sm)
                           then wpa_auth_set_eapol addr WPA_EAPOL_authorized True wa else wa)
                 in (False, wa)
             else (False, wa)) in
      if fail then wa
      else
        let wa = wpa_auth_set_eapol addr WPA_EAPOL_portValid True wa;
            wa = wpa_auth_set_eapol addr WPA_EAPOL_keyAvailable False wa;
            wa = wpa_auth_set_eapol addr WPA_EAPOL_keyDone True wa
        in upd_sta i (\<lambda>sm. if w_wpa sm = WPA_VERSION_WPA then sm\<lparr>PInitAKeys := True\<rparr> else sm\<lparr>has_GTK := True\<rparr>) wa)"

definition handshake_failure :: "nat \<Rightarrow> wpa_authenticator \<Rightarrow> wpa_authenticator" where
  "handshake_failure i wa =
     sm_WPA_PTK_DISCONNECT_Enter i (wa\<lparr>dot11RSNA4WayHandshakeFailures := dot11RSNA4WayHandshakeFailures wa + 1\<rparr>)"

definition sm_WPA_PTK_Step :: "wpa_env \<Rightarrow> nat \<Rightarrow> wpa_authenticator \<Rightarrow> wpa_authenticator" where
  "sm_WPA_PTK_Step E i wa =
     (let sm = sta wa i in
      if Init sm then sm_WPA_PTK_INITIALIZE_Enter E i wa
      else if Disconnect sm then sm_WPA_PTK_DISCONNECT_Enter i wa
      else if DeauthenticationRequest sm then sm_WPA_PTK_DISCONNECTED_Enter i wa
      else if AuthenticationRequest sm then sm_WPA_PTK_AUTHENTICATION_Enter i wa
      else if ReAuthenticationRequest sm then sm_WPA_PTK_AUTHENTICATION2_Enter i wa
      else if PTKRequest sm then sm_WPA_PTK_PTKSTART_Enter E i wa
      else
        case wpa_ptk_state sm of
          WPA_PTK_INITIALIZE \<Rightarrow> wa
        | WPA_PTK_DISCONNECT \<Rightarrow> sm_WPA_PTK_DISCONNECTED_Enter i wa
        | WPA_PTK_DISCONNECTED \<Rightarrow> sm_WPA_PTK_INITIALIZE_Enter E i wa
        | WPA_PTK_AUTHENTICATION \<Rightarrow> sm_WPA_PTK_AUTHENTICATION2_Enter i wa
        | WPA_PTK_AUTHENTICATION2 \<Rightarrow>
            if wpa_key_mgmt_wpa_ieee8021x (w_wpa_key_mgmt sm) \<and> wpa_auth_get_eapol E wa (w_addr sm) WPA_EAPOL_keyRun > 0
            then sm_WPA_PTK_INITPMK_Enter E i wa
            else if wpa_key_mgmt_wpa_psk (w_wpa_key_mgmt sm) then sm_WPA_PTK_INITPSK_Enter E i wa
            else wa
        | WPA_PTK_INITPMK \<Rightarrow>
            if wpa_auth_get_eapol E wa (w_addr sm) WPA_EAPOL_keyAvailable > 0 then sm_WPA_PTK_PTKSTART_Enter E i wa
            else handshake_failure i wa
        | WPA_PTK_INITPSK \<Rightarrow>
            if hostapd_get_psk (we_psks E) (w_addr sm) None \<noteq> None then sm_WPA_PTK_PTKSTART_Enter E i wa
            else handshake_failure i wa
        | WPA_PTK_PTKSTART \<Rightarrow>
            if EAPOLKeyReceived sm \<and> \<not> EAPOLKeyRequest sm \<and> EAPOLKeyPairwise sm
            then sm_WPA_PTK_PTKCALCNEGOTIATING_Enter E i wa
            else if TimeoutCtr sm > dot11RSNAConfigPairwiseUpdateCount then handshake_failure i wa
            else if TimeoutEvt sm then sm_WPA_PTK_PTKSTART_Enter E i wa
            else wa
        | WPA_PTK_PTKCALCNEGOTIATING \<Rightarrow>
            if MICVerified sm then sm_WPA_PTK_PTKCALCNEGOTIATING2_Enter i wa
            else if EAPOLKeyReceived sm \<and> \<not> EAPOLKeyRequest sm \<and> EAPOLKeyPairwise sm
            then sm_WPA_PTK_PTKCALCNEGOTIATING_Enter E i wa
            else if TimeoutEvt sm then sm_WPA_PTK_PTKSTART_Enter E i wa
            else wa
        | WPA_PTK_PTKCALCNEGOTIATING2 \<Rightarrow> sm_WPA_PTK_PTKINITNEGOTIATING_Enter E i wa
        | WPA_PTK_PTKINITNEGOTIATING \<Rightarrow>
            if EAPOLKeyReceived sm \<and> \<not> EAPOLKeyRequest sm \<and> EAPOLKeyPairwise sm \<and> MICVerified sm
            then sm_WPA_PTK_PTKINITDONE_Enter E i wa
            else if TimeoutCtr sm > dot11RSNAConfigPairwiseUpdateCount then handshake_failure i wa
            else if TimeoutEvt sm then sm_WPA_PTK_PTKINITNEGOTIATING_Enter E i wa
            else wa
        | WPA_PTK_PTKINITDONE \<Rightarrow> wa)"

section \<open>The group key handshake of a station\<close>

definition enter_ptk_group :: "wpa_ptk_group_states \<Rightarrow> nat \<Rightarrow> wpa_authenticator \<Rightarrow> wpa_authenticator" where
  "enter_ptk_group s i = upd_sta i (\<lambda>sm. sm\<lparr>w_changed := True, wpa_ptk_group_state := s\<rparr>)"

definition sm_WPA_PTK_GROUP_IDLE_Enter :: "nat \<Rightarrow> wpa_authenticator \<Rightarrow> wpa_authenticator" where
  "sm_WPA_PTK_GROUP_IDLE_Enter i wa =
     (let wa = enter_ptk_group WPA_PTK_GROUP_IDLE i wa;
          wa = (if Init (sta wa i) then upd_sta i (\<lambda>sm. sm\<lparr>w_changed := False\<rparr>) wa else wa)
      in upd_sta i (\<lambda>sm. sm\<lparr>GTimeoutCtr := 0\<rparr>) wa)"

definition sm_WPA_PTK_GROUP_REKEYNEGOTIATING_Enter :: "wpa_env \<Rightarrow> nat \<Rightarrow> wpa_authenticator \<Rightarrow> wpa_authenticator" where
  "sm_WPA_PTK_GROUP_REKEYNEGOTIATING_Enter E i wa =
     (let wa = enter_ptk_group WPA_PTK_GROUP_REKEYNEGOTIATING i wa;
          wa = upd_sta i (\<lambda>sm. sm\<lparr>GTimeoutCtr := GTimeoutCtr sm + 1\<rparr>) wa in
      if GTimeoutCtr (sta wa i) > dot11RSNAConfigGroupUpdateCount then wa
      else
        let wa = (if w_wpa (sta wa i) = WPA_VERSION_WPA then upd_sta i (\<lambda>sm. sm\<lparr>PInitAKeys := False\<rparr>) wa else wa);
            wa = upd_sta i (\<lambda>sm. sm\<lparr>TimeoutEvt := False\<rparr>) wa;
            sm = sta wa i;
            gsm = grp wa (w_group sm);
            rsc = (if wpa_group_state gsm = WPA_GROUP_SETKEYSDONE then seqnum E wa (GN gsm)
                   else replicate WPA_KEY_RSC_LEN 0);
            rsn = (w_wpa sm = WPA_VERSION_WPA2);
            (ok, wa) = (if rsn then wpa_alloc E wa else (True, wa)) in
        if \<not> ok then wa
        else
          wpa_send_eapol E i
            (WPA_KEY_INFO_SECURE OR WPA_KEY_INFO_MIC OR WPA_KEY_INFO_ACK OR (if w_Pair sm then 0 else WPA_KEY_INFO_INSTALL))
            (Some rsc) (Some (GNonce gsm))
            (Some (if rsn then gtk_kde gsm else take (GTK_len gsm) (GTK gsm ! (GN gsm - 1)))) (GN gsm) True wa)"

definition sm_WPA_PTK_GROUP_REKEYESTABLISHED_Enter :: "nat \<Rightarrow> wpa_authenticator \<Rightarrow> wpa_authenticator" where
  "sm_WPA_PTK_GROUP_REKEYESTABLISHED_Enter i wa =
     (let wa = enter_ptk_group WPA_PTK_GROUP_REKEYESTABLISHED i wa;
          wa = upd_sta i (\<lambda>sm. sm\<lparr>EAPOLKeyReceived := False\<rparr>) wa;
          wa = drop_group_update i wa
      in upd_sta i (\<lambda>sm. sm\<lparr>GTimeoutCtr := 0, has_GTK := True\<rparr>) wa)"

definition sm_WPA_PTK_GROUP_KEYERROR_Enter :: "nat \<Rightarrow> wpa_authenticator \<Rightarrow> wpa_authenticator" where
  "sm_WPA_PTK_GROUP_KEYERROR_Enter i wa =
     (let wa = enter_ptk_group WPA_PTK_GROUP_KEYERROR i wa;
          wa = drop_group_update i wa
      in upd_sta i (\<lambda>sm. sm\<lparr>Disconnect := True\<rparr>) wa)"

definition sm_WPA_PTK_GROUP_Step :: "wpa_env \<Rightarrow> nat \<Rightarrow> wpa_authenticator \<Rightarrow> wpa_authenticator" where
  "sm_WPA_PTK_GROUP_Step E i wa =
     (let sm = sta wa i in
      if Init sm \<or> PtkGroupInit sm then
        upd_sta i (\<lambda>sm. sm\<lparr>PtkGroupInit := False\<rparr>) (sm_WPA_PTK_GROUP_IDLE_Enter i wa)
      else
        case wpa_ptk_group_state sm of
          WPA_PTK_GROUP_IDLE \<Rightarrow>
            if GUpdateStationKeys sm \<or> w_wpa sm = WPA_VERSION_WPA \<and> PInitAKeys sm
            then sm_WPA_PTK_GROUP_REKEYNEGOTIATING_Enter E i wa else wa
        | WPA_PTK_GROUP_REKEYNEGOTIATING \<Rightarrow>
            if EAPOLKeyReceived sm \<and> \<not> EAPOLKeyRequest sm \<and> \<not> EAPOLKeyPairwise sm \<and> MICVerified sm
            then sm_WPA_PTK_GROUP_REKEYESTABLISHED_Enter i wa
            else if GTimeoutCtr sm > dot11RSNAConfigGroupUpdateCount then sm_WPA_PTK_GROUP_KEYERROR_Enter i wa
            else if TimeoutEvt sm then sm_WPA_PTK_GROUP_REKEYNEGOTIATING_Enter E i wa
            else wa
        | WPA_PTK_GROUP_KEYERROR \<Rightarrow> sm_WPA_PTK_GROUP_IDLE_Enter i wa
        | WPA_PTK_GROUP_REKEYESTABLISHED \<Rightarrow> sm_WPA_PTK_GROUP_IDLE_Enter i wa)"

section \<open>The group machine and the loop\<close>

definition wpa_group_gtk_init :: "int \<Rightarrow> wpa_authenticator \<Rightarrow> wpa_authenticator" where
  "wpa_group_gtk_init v wa =
     upd_grp v (\<lambda>g. wpa_gtk_update (wa_addr wa)
       (g\<lparr>g_changed := False, wpa_group_state := WPA_GROUP_GTK_INIT, GTK := replicate 2 (replicate 32 0), GN := 1, GM := 2\<rparr>)) wa"

text \<open>\<open>step\<close> is \<^verbatim>\<open>wpa_sm_step\<close>.\<close>

definition wpa_group_update_sta ::
  "(nat \<Rightarrow> wpa_authenticator \<Rightarrow> wpa_authenticator option) \<Rightarrow> nat \<Rightarrow> wpa_authenticator \<Rightarrow> wpa_authenticator option" where
  "wpa_group_update_sta step j wa =
     (if wpa_ptk_state (sta wa j) \<noteq> WPA_PTK_PTKINITDONE then Some wa
      else if GUpdateStationKeys (sta wa j) then step j wa
      else
        step j (upd_sta j (\<lambda>sm. sm\<lparr>GUpdateStationKeys := True\<rparr>)
          (upd_grp (w_group (sta wa j)) (\<lambda>g. g\<lparr>GKeyDoneStations := GKeyDoneStations g + 1\<rparr>) wa)))"

text \<open>\<^verbatim>\<open>hostapd_wpa_auth_for_each_sta\<close>: new stations stand at the head of the list of stations.\<close>

fun for_each_sta ::
  "(nat \<Rightarrow> wpa_authenticator \<Rightarrow> wpa_authenticator option) \<Rightarrow> nat list \<Rightarrow> wpa_authenticator \<Rightarrow> wpa_authenticator option" where
  "for_each_sta cb [] wa = Some wa"
| "for_each_sta cb (j # js) wa =
     (if has_sta wa j then (case cb j wa of None \<Rightarrow> None | Some wa \<Rightarrow> for_each_sta cb js wa)
      else for_each_sta cb js wa)"

definition all_stas :: "wpa_authenticator \<Rightarrow> nat list" where
  "all_stas wa = rev [0..<length (wa_stas wa)]"

definition wpa_group_setkeys ::
  "(nat \<Rightarrow> wpa_authenticator \<Rightarrow> wpa_authenticator option) \<Rightarrow> int \<Rightarrow> wpa_authenticator \<Rightarrow> wpa_authenticator option" where
  "wpa_group_setkeys step v wa =
     (let wa = upd_grp v (\<lambda>g. wpa_gtk_update (wa_addr wa)
            (g\<lparr>g_changed := True, wpa_group_state := WPA_GROUP_SETKEYS, GTKReKey := False, GM := GN g, GN := GM g\<rparr>)) wa
      in for_each_sta (wpa_group_update_sta step) (all_stas wa) wa)"

definition wpa_group_setkeysdone :: "wpa_env \<Rightarrow> int \<Rightarrow> wpa_authenticator \<Rightarrow> wpa_authenticator" where
  "wpa_group_setkeysdone E v wa =
     (let wa = upd_grp v (\<lambda>g. g\<lparr>g_changed := True, wpa_group_state := WPA_GROUP_SETKEYSDONE\<rparr>) wa;
          g = grp wa v
      in snd (wpa_auth_set_key E v (wpa_alg_enum (wc_wpa_group (wa_conf wa))) None (GN g)
           (take (GTK_len g) (GTK g ! (GN g - 1))) wa))"

definition wpa_group_sm_step ::
  "wpa_env \<Rightarrow> (nat \<Rightarrow> wpa_authenticator \<Rightarrow> wpa_authenticator option) \<Rightarrow> int \<Rightarrow> wpa_authenticator \<Rightarrow> wpa_authenticator option" where
  "wpa_group_sm_step E step v wa =
     (let g = grp wa v in
      if GInit g then Some (wpa_group_gtk_init v wa)
      else if wpa_group_state g = WPA_GROUP_GTK_INIT \<and> GTKAuthenticator g then Some (wpa_group_setkeysdone E v wa)
      else if wpa_group_state g = WPA_GROUP_SETKEYSDONE \<and> GTKReKey g then wpa_group_setkeys step v wa
      else if wpa_group_state g = WPA_GROUP_SETKEYS then
        if GKeyDoneStations g = 0 then Some (wpa_group_setkeysdone E v wa)
        else if GTKReKey g then wpa_group_setkeys step v wa
        else Some wa
      else Some wa)"

text \<open>The group at the head of the list, \<^verbatim>\<open>wpa_auth->group\<close>.\<close>

definition head_group :: "wpa_authenticator \<Rightarrow> int" where
  "head_group wa = vlan_id (hd (wa_group wa))"

definition wpa_free_sta_sm :: "nat \<Rightarrow> wpa_authenticator \<Rightarrow> wpa_authenticator" where
  "wpa_free_sta_sm i wa = wa\<lparr>wa_stas := (wa_stas wa)[i := None]\<rparr>"

text \<open>\<^verbatim>\<open>wpa_sm_step\<close> around its loop: the return value and the authenticator, in which the machine is gone when the loop
  left it to be freed.\<close>

definition wpa_sm_guard ::
  "(nat \<Rightarrow> wpa_authenticator \<Rightarrow> wpa_authenticator option) \<Rightarrow> nat \<Rightarrow> wpa_authenticator \<Rightarrow> (int \<times> wpa_authenticator) option" where
  "wpa_sm_guard loop i wa =
     (if in_step_loop (sta wa i) then Some (0, wa)
      else case loop i (upd_sta i (\<lambda>sm. sm\<lparr>in_step_loop := True\<rparr>) wa) of
        None \<Rightarrow> None
      | Some wa \<Rightarrow>
          let wa = upd_sta i (\<lambda>sm. sm\<lparr>in_step_loop := False\<rparr>) wa in
          if pending_deinit (sta wa i) then Some (1, wpa_free_sta_sm i wa) else Some (0, wa))"

text \<open>One pass through the machines before the group machine; the flag tells that the loop is left because of a pending
  deinitialisation.\<close>

definition wpa_sm_pass :: "wpa_env \<Rightarrow> nat \<Rightarrow> wpa_authenticator \<Rightarrow> bool \<times> wpa_authenticator" where
  "wpa_sm_pass E i wa =
     (if pending_deinit (sta wa i) then (True, wa)
      else
        let wa = upd_sta i (\<lambda>sm. sm\<lparr>w_changed := False\<rparr>) wa;
            wa = upd_grp (head_group wa) (\<lambda>g. g\<lparr>g_changed := False\<rparr>) wa;
            wa = sm_WPA_PTK_Step E i wa in
        if pending_deinit (sta wa i) then (True, wa)
        else
          let wa = sm_WPA_PTK_GROUP_Step E i wa
          in (pending_deinit (sta wa i), wa))"

primrec wpa_sm_loop :: "nat \<Rightarrow> wpa_env \<Rightarrow> nat \<Rightarrow> wpa_authenticator \<Rightarrow> wpa_authenticator option" where
  "wpa_sm_loop 0 E i wa = None"
| "wpa_sm_loop (Suc n) E i wa =
     (let (stop, wa) = wpa_sm_pass E i wa in
      if stop then Some wa
      else
        case wpa_group_sm_step E (\<lambda>j wa. map_option snd (wpa_sm_guard (wpa_sm_loop n E) j wa)) (w_group (sta wa i)) wa of
          None \<Rightarrow> None
        | Some wa \<Rightarrow>
            if w_changed (sta wa i) \<or> g_changed (grp wa (head_group wa)) then wpa_sm_loop n E i wa else Some wa)"

text \<open>The bound on the number of passes, nested ones included: every pass that leads to another one lowers it.\<close>

fun ptk_rank :: "wpa_ptk_states \<Rightarrow> nat" where
  "ptk_rank WPA_PTK_INITIALIZE = 0"
| "ptk_rank WPA_PTK_DISCONNECTED = 1"
| "ptk_rank WPA_PTK_DISCONNECT = 2"
| "ptk_rank WPA_PTK_PTKINITDONE = 3"
| "ptk_rank WPA_PTK_PTKINITNEGOTIATING = 70"
| "ptk_rank WPA_PTK_PTKCALCNEGOTIATING2 = 71"
| "ptk_rank WPA_PTK_PTKCALCNEGOTIATING = 72"
| "ptk_rank WPA_PTK_PTKSTART = 73"
| "ptk_rank WPA_PTK_INITPSK = 74"
| "ptk_rank WPA_PTK_INITPMK = 74"
| "ptk_rank WPA_PTK_AUTHENTICATION2 = 75"
| "ptk_rank WPA_PTK_AUTHENTICATION = 76"

definition flag :: "bool \<Rightarrow> nat \<Rightarrow> nat" where
  "flag b n = (if b then n else 0)"

definition ptk_group_rank :: "wpa_ptk_group_states \<Rightarrow> bool \<Rightarrow> nat \<Rightarrow> nat" where
  "ptk_group_rank s update ctr =
     (case s of
        WPA_PTK_GROUP_IDLE \<Rightarrow> flag update 30
      | WPA_PTK_GROUP_REKEYNEGOTIATING \<Rightarrow> 12 + (5 - ctr)
      | WPA_PTK_GROUP_REKEYESTABLISHED \<Rightarrow> 2 + flag update 29
      | WPA_PTK_GROUP_KEYERROR \<Rightarrow> 2 + flag update 29)"

definition sta_rank :: "wpa_state_machine \<Rightarrow> nat" where
  "sta_rank sm =
     (if Init sm then 0
      else ptk_rank (wpa_ptk_state sm) + flag (Disconnect sm) 3 + flag (DeauthenticationRequest sm) 2 +
        flag (AuthenticationRequest sm) 77 + flag (ReAuthenticationRequest sm) 76 + flag (PTKRequest sm) 74 +
        flag (TimeoutEvt sm) 2 + flag (EAPOLKeyReceived sm) 1 +
        flag (w_wpa sm = WPA_VERSION_WPA \<and> PInitAKeys sm) 60 + flag (PtkGroupInit sm) 31 +
        ptk_group_rank (wpa_ptk_group_state sm) (GUpdateStationKeys sm) (GTimeoutCtr sm))"

definition group_rank :: "nat \<Rightarrow> wpa_group \<Rightarrow> nat" where
  "group_rank n g =
     (if GInit g then 0
      else flag (wpa_group_state g \<noteq> WPA_GROUP_SETKEYSDONE) 1 + flag (GTKReKey g) (2 + 30 * n))"

definition wpa_rank :: "wpa_authenticator \<Rightarrow> nat" where
  "wpa_rank wa =
     sum_list (map (\<lambda>s. case s of None \<Rightarrow> 0 | Some sm \<Rightarrow> sta_rank sm) (wa_stas wa)) +
     sum_list (map (group_rank (length (wa_stas wa))) (wa_group wa))"

definition wpa_sm_step :: "wpa_env \<Rightarrow> nat \<Rightarrow> wpa_authenticator \<Rightarrow> (int \<times> wpa_authenticator) option" where
  "wpa_sm_step E i wa = wpa_sm_guard (wpa_sm_loop (Suc (wpa_rank wa)) E) i wa"

section \<open>Timers\<close>

definition wpa_rekey_gmk :: "bytes option \<Rightarrow> wpa_authenticator \<Rightarrow> wpa_authenticator" where
  "wpa_rekey_gmk random wa =
     (let wa = (case random of None \<Rightarrow> wa | Some r \<Rightarrow> upd_grp (head_group wa) (\<lambda>g. g\<lparr>GMK := r\<rparr>) wa) in
      if wc_wpa_gmk_rekey (wa_conf wa) \<noteq> 0
      then log_w (W_register_timeout (wc_wpa_gmk_rekey (wa_conf wa)) 0 T_rekey_gmk) wa else wa)"

text \<open>The loop of \<^verbatim>\<open>wpa_rekey_gtk\<close> for one group, and the walk over the groups.\<close>

primrec wpa_group_loop :: "nat \<Rightarrow> wpa_env \<Rightarrow> int \<Rightarrow> wpa_authenticator \<Rightarrow> wpa_authenticator option" where
  "wpa_group_loop 0 E v wa = None"
| "wpa_group_loop (Suc n) E v wa =
     (case wpa_group_sm_step E (\<lambda>j wa. map_option snd (wpa_sm_step E j wa)) v (upd_grp v (\<lambda>g. g\<lparr>g_changed := False\<rparr>) wa) of
        None \<Rightarrow> None
      | Some wa \<Rightarrow> if g_changed (grp wa v) then wpa_group_loop n E v wa else Some wa)"

fun rekey_groups :: "wpa_env \<Rightarrow> int list \<Rightarrow> wpa_authenticator \<Rightarrow> wpa_authenticator option" where
  "rekey_groups E [] wa = Some wa"
| "rekey_groups E (v # vs) wa =
     (let wa = upd_grp v (\<lambda>g. g\<lparr>GTKReKey := True\<rparr>) wa in
      case wpa_group_loop (Suc (wpa_rank wa)) E v wa of None \<Rightarrow> None | Some wa \<Rightarrow> rekey_groups E vs wa)"

definition wpa_rekey_gtk :: "wpa_env \<Rightarrow> wpa_authenticator \<Rightarrow> wpa_authenticator option" where
  "wpa_rekey_gtk E wa =
     (case rekey_groups E (map vlan_id (wa_group wa)) wa of
        None \<Rightarrow> None
      | Some wa \<Rightarrow>
          Some (if wc_wpa_group_rekey (wa_conf wa) \<noteq> 0
                then log_w (W_register_timeout (wc_wpa_group_rekey (wa_conf wa)) 0 T_rekey_gtk) wa else wa))"

definition wpa_rekey_ptk :: "wpa_env \<Rightarrow> nat \<Rightarrow> wpa_authenticator \<Rightarrow> wpa_authenticator option" where
  "wpa_rekey_ptk E i wa = map_option snd (wpa_sm_step E i (wpa_request_new_ptk i wa))"

definition wpa_send_eapol_timeout :: "wpa_env \<Rightarrow> nat \<Rightarrow> wpa_authenticator \<Rightarrow> wpa_authenticator option" where
  "wpa_send_eapol_timeout E i wa = map_option snd (wpa_sm_step E i (upd_sta i (\<lambda>sm. sm\<lparr>TimeoutEvt := True\<rparr>) wa))"

definition wpa_sm_call_step :: "wpa_env \<Rightarrow> nat \<Rightarrow> wpa_authenticator \<Rightarrow> wpa_authenticator option" where
  "wpa_sm_call_step E i wa = map_option snd (wpa_sm_step E i wa)"

definition wpa_auth_sm_notify :: "nat \<Rightarrow> wpa_authenticator \<Rightarrow> wpa_authenticator" where
  "wpa_auth_sm_notify i = log_w (W_register_timeout 0 0 (T_call_step i))"

section \<open>Received frames\<close>

datatype wpa_msg = PAIRWISE_2 | PAIRWISE_4 | GROUP_2 | REQUEST | SMK_M1 | SMK_M3 | SMK_ERROR

abbreviation (input) key_info_of :: "bytes \<Rightarrow> u16" where "key_info_of data \<equiv> WPA_GET_BE16 (drop 5 data)"
abbreviation (input) replay_counter_of :: "bytes \<Rightarrow> bytes" where
  "replay_counter_of data \<equiv> take WPA_REPLAY_COUNTER_LEN (drop 9 data)"
abbreviation (input) key_data_length_of :: "bytes \<Rightarrow> nat" where "key_data_length_of data \<equiv> unat (WPA_GET_BE16 (drop 97 data))"
abbreviation (input) key_data_of :: "bytes \<Rightarrow> bytes" where "key_data_of data \<equiv> take (key_data_length_of data) (drop 99 data)"

definition has_flag :: "u16 \<Rightarrow> u16 \<Rightarrow> bool" where
  "has_flag key_info f \<longleftrightarrow> key_info AND f \<noteq> 0"

definition wpa_msg_of :: "bytes \<Rightarrow> wpa_msg" where
  "wpa_msg_of data =
     (let key_info = key_info_of data in
      if key_info AND (WPA_KEY_INFO_SMK_MESSAGE OR WPA_KEY_INFO_REQUEST) = (WPA_KEY_INFO_SMK_MESSAGE OR WPA_KEY_INFO_REQUEST) then
        if has_flag key_info WPA_KEY_INFO_ERROR then SMK_ERROR else SMK_M1
      else if has_flag key_info WPA_KEY_INFO_SMK_MESSAGE then SMK_M3
      else if has_flag key_info WPA_KEY_INFO_REQUEST then REQUEST
      else if \<not> has_flag key_info WPA_KEY_INFO_KEY_TYPE then GROUP_2
      else if key_data_length_of data = 0 then PAIRWISE_4
      else PAIRWISE_2)"

text \<open>The tests on the frame and the state before the message is looked at; \<^verbatim>\<open>wpa_use_aes_cmac\<close> is 0 in the default build.\<close>

definition eapol_key_accepted :: "wpa_authenticator \<Rightarrow> wpa_state_machine \<Rightarrow> bytes \<Rightarrow> bool" where
  "eapol_key_accepted wa sm data \<longleftrightarrow>
     wc_wpa (wa_conf wa) \<noteq> 0 \<and>
     99 \<le> length data \<and> key_data_length_of data \<le> length data - 99 \<and>
     data ! 4 = (if w_wpa sm = WPA_VERSION_WPA2 then EAPOL_KEY_TYPE_RSN else EAPOL_KEY_TYPE_WPA) \<and>
     (wpa_msg_of data \<in> {REQUEST, PAIRWISE_2, PAIRWISE_4, GROUP_2} \<and> w_pairwise sm = WPA_CIPHER_CCMP \<longrightarrow>
        unat (key_info_of data AND WPA_KEY_INFO_TYPE_MASK) = WPA_KEY_INFO_TYPE_HMAC_SHA1_AES) \<and>
     (if has_flag (key_info_of data) WPA_KEY_INFO_REQUEST
      then \<not> (req_replay_counter_used sm \<and>
        (memcmp_less (replay_counter_of data) (req_replay_counter sm) \<or> replay_counter_of data = req_replay_counter sm))
      else wpa_replay_counter_valid sm (replay_counter_of data))"

datatype wpa_verdict = Msg_ok | Msg_dropped | Msg_disconnect

text \<open>The switch over the message.  The outer option: the parser of the key data returned.\<close>

definition eapol_key_msg_check :: "wpa_state_machine \<Rightarrow> bytes \<Rightarrow> wpa_verdict option" where
  "eapol_key_msg_check sm data =
     (case wpa_msg_of data of
        PAIRWISE_2 \<Rightarrow>
          if wpa_ptk_state sm \<noteq> WPA_PTK_PTKSTART \<and> wpa_ptk_state sm \<noteq> WPA_PTK_PTKCALCNEGOTIATING then Some Msg_dropped
          else
            (case wpa_parse_kde_ies (key_data_of data) of
               None \<Rightarrow> None
             | Some (ret, kde) \<Rightarrow>
                 if ret < 0 then Some Msg_dropped
                 else
                   let eapol_key_ie = (if kde_rsn_ie kde \<noteq> None then kde_rsn_ie kde else kde_wpa_ie kde) in
                   if w_wpa_ie sm = None \<or> wpa_compare_rsn_ie (w_wpa_ie sm) eapol_key_ie \<noteq> 0 then Some Msg_disconnect
                   else Some Msg_ok)
      | PAIRWISE_4 \<Rightarrow>
          Some (if wpa_ptk_state sm \<noteq> WPA_PTK_PTKINITNEGOTIATING \<or> \<not> PTK_valid sm then Msg_dropped else Msg_ok)
      | GROUP_2 \<Rightarrow>
          Some (if wpa_ptk_group_state sm \<noteq> WPA_PTK_GROUP_REKEYNEGOTIATING \<or> \<not> PTK_valid sm then Msg_dropped else Msg_ok)
      | REQUEST \<Rightarrow> Some Msg_ok
      | _ \<Rightarrow> Some Msg_dropped)"

text \<open>A request with a verified MIC.\<close>

definition eapol_key_request :: "wpa_env \<Rightarrow> nat \<Rightarrow> bytes \<Rightarrow> wpa_authenticator \<Rightarrow> wpa_authenticator option" where
  "eapol_key_request E i data wa =
     (let wa = upd_sta i (\<lambda>sm. sm\<lparr>req_replay_counter_used := True, req_replay_counter := replay_counter_of data\<rparr>) wa in
      if has_flag (key_info_of data) WPA_KEY_INFO_ERROR then
        let wa = log_w (W_mic_failure_report (w_addr (sta wa i))) wa;
            wa = upd_sta i (\<lambda>sm. sm\<lparr>dot11RSNAStatsTKIPRemoteMICFailures := dot11RSNAStatsTKIPRemoteMICFailures sm + 1\<rparr>) wa;
            wa = wa\<lparr>wa_StatsTKIPRemoteMICFailures := wa_StatsTKIPRemoteMICFailures wa + 1\<rparr>
        in Some (wpa_request_new_ptk i wa)
      else if has_flag (key_info_of data) WPA_KEY_INFO_KEY_TYPE then Some (wpa_request_new_ptk i wa)
      else
        case (if key_data_length_of data > 0 then map_option Some (wpa_parse_kde_ies (key_data_of data)) else Some None) of
          None \<Rightarrow> None
        | Some r \<Rightarrow>
            if (case r of None \<Rightarrow> False | Some (ret, kde) \<Rightarrow> ret = 0 \<and> kde_mac_addr kde \<noteq> None) then Some wa
            else wpa_rekey_gtk E (log_w (W_cancel_timeout T_rekey_gtk) wa))"

text \<open>The end of the function: the frame is stored for the state machines.\<close>

definition eapol_key_store :: "wpa_env \<Rightarrow> nat \<Rightarrow> bytes \<Rightarrow> wpa_authenticator \<Rightarrow> wpa_authenticator option" where
  "eapol_key_store E i data wa =
     (let (ok, wa) = wpa_alloc E wa in
      if \<not> ok then Some (upd_sta i (\<lambda>sm. sm\<lparr>last_rx_eapol_key := None\<rparr>) wa)
      else
        map_option snd (wpa_sm_step E i (upd_sta i (\<lambda>sm. sm\<lparr>last_rx_eapol_key := Some data,
          EAPOLKeyReceived := True,
          EAPOLKeyPairwise := has_flag (key_info_of data) WPA_KEY_INFO_KEY_TYPE,
          EAPOLKeyRequest := has_flag (key_info_of data) WPA_KEY_INFO_REQUEST,
          SNonce := take WPA_NONCE_LEN (drop 17 data)\<rparr>) wa)))"

definition wpa_receive :: "wpa_env \<Rightarrow> nat \<Rightarrow> bytes \<Rightarrow> wpa_authenticator \<Rightarrow> wpa_authenticator option" where
  "wpa_receive E i data wa =
     (let sm = sta wa i; key_info = key_info_of data in
      if \<not> eapol_key_accepted wa sm data then Some wa
      else
        case eapol_key_msg_check sm data of
          None \<Rightarrow> None
        | Some Msg_dropped \<Rightarrow> Some wa
        | Some Msg_disconnect \<Rightarrow> Some (wpa_sta_disconnect (w_addr sm) wa)
        | Some Msg_ok \<Rightarrow>
            if has_flag key_info WPA_KEY_INFO_ACK then Some wa
            else if \<not> has_flag key_info WPA_KEY_INFO_MIC then Some wa
            else
              let wa = upd_sta i (\<lambda>sm. sm\<lparr>MICVerified := False\<rparr>) wa in
              if PTK_valid sm \<and> \<not> wpa_verify_key_mic (PTK sm) data then Some wa
              else
                let wa = (if PTK_valid sm
                          then log_w (W_cancel_timeout (T_send_eapol i)) (upd_sta i (\<lambda>sm. sm\<lparr>MICVerified := True\<rparr>) wa)
                          else wa) in
                if has_flag key_info WPA_KEY_INFO_REQUEST then
                  if \<not> MICVerified (sta wa i) then Some wa
                  else
                    (case eapol_key_request E i data wa of None \<Rightarrow> None | Some wa \<Rightarrow> eapol_key_store E i data wa)
                else
                  eapol_key_store E i data
                    (upd_sta i (\<lambda>sm. sm\<lparr>key_replay := (key_replay sm)[0 := (fst (key_replay sm ! 0), False)]\<rparr>) wa))"

section \<open>Stations\<close>

definition wpa_auth_sta_init :: "wpa_env \<Rightarrow> bytes \<Rightarrow> wpa_authenticator \<Rightarrow> nat option \<times> wpa_authenticator" where
  "wpa_auth_sta_init E addr wa =
     (let (ok, wa) = wpa_alloc E wa in
      if \<not> ok then (None, wa)
      else
        (Some (length (wa_stas wa)),
         wa\<lparr>wa_stas := wa_stas wa @ [Some (wpa_sm_zero\<lparr>w_addr := addr, w_group := head_group wa\<rparr>)]\<rparr>))"

text \<open>The first steps of a machine: \<^verbatim>\<open>Init\<close> is set around one call, then \<open>wpa_sm_step\<close> is left to the caller.\<close>

definition wpa_sm_init_step :: "wpa_env \<Rightarrow> nat \<Rightarrow> wpa_authenticator \<Rightarrow> (int \<times> wpa_authenticator) option" where
  "wpa_sm_init_step E i wa =
     (case wpa_sm_step E i (upd_sta i (\<lambda>sm. sm\<lparr>w_started := True, Init := True\<rparr>) wa) of
        None \<Rightarrow> None
      | Some (r, wa) \<Rightarrow>
          if r = 1 then Some (1, wa)
          else Some (0, upd_sta i (\<lambda>sm. sm\<lparr>Init := False, AuthenticationRequest := True\<rparr>) wa))"

definition wpa_auth_sta_associated :: "wpa_env \<Rightarrow> nat \<Rightarrow> wpa_authenticator \<Rightarrow> (int \<times> wpa_authenticator) option" where
  "wpa_auth_sta_associated E i wa =
     (if wc_wpa (wa_conf wa) = 0 then Some (-1, wa)
      else if w_started (sta wa i) then
        wpa_sm_step E i (upd_sta i (\<lambda>sm. sm\<lparr>key_replay := replicate RSNA_MAX_EAPOL_RETRIES (replicate WPA_REPLAY_COUNTER_LEN 0, False),
          ReAuthenticationRequest := True\<rparr>) wa)
      else
        case wpa_sm_init_step E i wa of
          None \<Rightarrow> None
        | Some (r, wa) \<Rightarrow> if r = 1 then Some (1, wa) else wpa_sm_step E i wa)"

definition wpa_auth_sta_no_wpa :: "nat \<Rightarrow> wpa_authenticator \<Rightarrow> wpa_authenticator" where
  "wpa_auth_sta_no_wpa i = upd_sta i (\<lambda>sm. sm\<lparr>w_wpa_key_mgmt := 0\<rparr>)"

definition wpa_auth_sta_deinit :: "nat \<Rightarrow> wpa_authenticator \<Rightarrow> wpa_authenticator" where
  "wpa_auth_sta_deinit i wa =
     (let wa = (if wc_wpa_strict_rekey (wa_conf wa) \<and> has_GTK (sta wa i)
                then log_w (W_register_timeout 0 500000 T_rekey_gtk) (log_w (W_cancel_timeout T_rekey_gtk) wa) else wa);
          wa = log_w (W_cancel_timeout (T_send_eapol i)) wa;
          wa = log_w (W_cancel_timeout (T_call_step i)) wa;
          wa = log_w (W_cancel_timeout (T_rekey_ptk i)) wa in
      if in_step_loop (sta wa i) then upd_sta i (\<lambda>sm. sm\<lparr>pending_deinit := True\<rparr>) wa
      else wpa_free_sta_sm i wa)"

definition wpa_auth_sm_event :: "wpa_env \<Rightarrow> wpa_event \<Rightarrow> nat \<Rightarrow> wpa_authenticator \<Rightarrow> (int \<times> wpa_authenticator) option" where
  "wpa_auth_sm_event E event i wa =
     (let r = (case event of
            WPA_AUTH \<Rightarrow> Some (0, wa)
          | WPA_ASSOC \<Rightarrow> Some (0, wa)
          | WPA_DEAUTH \<Rightarrow> Some (0, upd_sta i (\<lambda>sm. sm\<lparr>DeauthenticationRequest := True\<rparr>) wa)
          | WPA_DISASSOC \<Rightarrow> Some (0, upd_sta i (\<lambda>sm. sm\<lparr>DeauthenticationRequest := True\<rparr>) wa)
          | WPA_ASSOC_FT \<Rightarrow> Some (0, wa)
          | _ \<Rightarrow>
              if \<not> w_started (sta wa i) then wpa_sm_init_step E i wa
              else
                let wa = (if GUpdateStationKeys (sta wa i)
                          then upd_sta i (\<lambda>sm. sm\<lparr>PtkGroupInit := True\<rparr>) (drop_group_update i wa) else wa)
                in Some (0, upd_sta i (\<lambda>sm. sm\<lparr>ReAuthenticationRequest := True\<rparr>) wa)) in
      case r of
        None \<Rightarrow> None
      | Some (r, wa) \<Rightarrow>
          if r = 1 then Some (1, wa)
          else
            let wa = upd_sta i (\<lambda>sm. sm\<lparr>PTK_valid := False, PTK := wpa_ptk_zero\<rparr>) wa;
                wa = (if event \<noteq> WPA_REAUTH_EAPOL then wpa_remove_ptk E i wa else wa)
            in wpa_sm_step E i wa)"

section \<open>Groups and the authenticator\<close>

definition wpa_group_set_key_len :: "int \<Rightarrow> wpa_group \<Rightarrow> wpa_group" where
  "wpa_group_set_key_len cipher g =
     (if cipher = WPA_CIPHER_CCMP then g\<lparr>GTK_len := 16\<rparr>
      else if cipher = WPA_CIPHER_TKIP then g\<lparr>GTK_len := 32\<rparr>
      else if cipher = WPA_CIPHER_WEP104 then g\<lparr>GTK_len := 13\<rparr>
      else if cipher = WPA_CIPHER_WEP40 then g\<lparr>GTK_len := 5\<rparr>
      else g)"

text \<open>Stepping a group with \<^verbatim>\<open>GInit\<close> set and once more with it cleared.\<close>

definition wpa_group_restart :: "wpa_env \<Rightarrow> int \<Rightarrow> wpa_authenticator \<Rightarrow> wpa_authenticator option" where
  "wpa_group_restart E v wa =
     (let step = (\<lambda>j wa. map_option snd (wpa_sm_step E j wa)) in
      case wpa_group_sm_step E step v (upd_grp v (\<lambda>g. g\<lparr>GInit := True\<rparr>) wa) of
        None \<Rightarrow> None
      | Some wa \<Rightarrow> wpa_group_sm_step E step v (upd_grp v (\<lambda>g. g\<lparr>GInit := False\<rparr>) wa))"

definition label_init_counter :: bytes where
  "label_init_counter = [73, 110, 105, 116, 32, 67, 111, 117, 110, 116, 101, 114]"

text \<open>A new group, and its place in the list: at the head if the list is empty, otherwise after the head.  In the
  source the caller links the group after the two steps, which reach only this group.  \<open>seed\<close> are the two random
  strings, \<open>now\<close> the time and \<open>ptr\<close> the octets of the pointer that enters the counter.\<close>

definition wpa_group_init ::
  "wpa_env \<Rightarrow> (bytes \<times> bytes) option \<Rightarrow> u32 \<times> u32 \<Rightarrow> bytes \<Rightarrow> int \<Rightarrow> wpa_authenticator \<Rightarrow> (bool \<times> wpa_authenticator) option" where
  "wpa_group_init E seed now ptr v wa =
     (let (ok, wa) = wpa_alloc E wa in
      if \<not> ok then Some (False, wa)
      else
        let g = wpa_group_set_key_len (wc_wpa_group (wa_conf wa)) (wpa_group_zero\<lparr>GTKAuthenticator := True, vlan_id := v\<rparr>);
            buf = wa_addr wa @ wpa_get_ntp_timestamp (fst now) (snd now) @ ptr in
        case seed of
          None \<Rightarrow> Some (False, wa)
        | Some (rkey, gmk) \<Rightarrow>
            let g = g\<lparr>GMK := gmk, Counter := (case sha1_prf rkey label_init_counter buf WPA_NONCE_LEN of
                        None \<Rightarrow> Counter g | Some c \<Rightarrow> c)\<rparr>;
                wa = wa\<lparr>wa_group := (case wa_group wa of [] \<Rightarrow> [g] | h # gs \<Rightarrow> h # g # gs)\<rparr>
            in map_option (\<lambda>wa. (True, wa)) (wpa_group_restart E v wa))"

text \<open>\<open>None\<close>: a step did not return; \<open>Some None\<close>: the null pointer.\<close>

definition wpa_init ::
  "wpa_env \<Rightarrow> (bytes \<times> bytes) option \<Rightarrow> u32 \<times> u32 \<Rightarrow> bytes \<Rightarrow> bytes \<Rightarrow> wpa_auth_config \<Rightarrow> wpa_authenticator option option" where
  "wpa_init E seed now ptr addr conf =
     (let (ok, wa) = wpa_alloc E (wpa_auth_zero conf addr) in
      if \<not> ok then Some None
      else
        let (ie_ok, wa) = (if wpa_auth_gen_wpa_ie True conf = None then (False, wa) else wpa_alloc E wa) in
        case wpa_auth_gen_wpa_ie ie_ok conf of
          None \<Rightarrow> Some None
        | Some ie \<Rightarrow>
            (case wpa_group_init E seed now ptr 0 (wa\<lparr>wa_wpa_ie := ie\<rparr>) of
               None \<Rightarrow> None
             | Some (False, _) \<Rightarrow> Some None
             | Some (True, wa) \<Rightarrow>
                 let (cache_ok, wa) = wpa_alloc E wa in
                 if \<not> cache_ok then Some None
                 else
                   let wa = (if wc_wpa_gmk_rekey conf \<noteq> 0
                             then log_w (W_register_timeout (wc_wpa_gmk_rekey conf) 0 T_rekey_gmk) wa else wa);
                       wa = (if wc_wpa_group_rekey conf \<noteq> 0
                             then log_w (W_register_timeout (wc_wpa_group_rekey conf) 0 T_rekey_gtk) wa else wa)
                   in Some (Some wa)))"

definition wpa_reconfig :: "wpa_env \<Rightarrow> wpa_auth_config \<Rightarrow> wpa_authenticator \<Rightarrow> (int \<times> wpa_authenticator) option" where
  "wpa_reconfig E conf wa =
     (let wa = wa\<lparr>wa_conf := conf\<rparr>;
          (ie_ok, wa) = (if wpa_auth_gen_wpa_ie True conf = None then (False, wa) else wpa_alloc E wa) in
      case wpa_auth_gen_wpa_ie ie_ok conf of
        None \<Rightarrow> Some (-1, if wpa_auth_gen_wpa_ie True conf \<noteq> None then wa\<lparr>wa_wpa_ie := []\<rparr> else wa)
      | Some ie \<Rightarrow>
          let wa = wa\<lparr>wa_wpa_ie := ie\<rparr>;
              wa = upd_grp (head_group wa) (wpa_group_set_key_len (wc_wpa_group conf)) wa
          in map_option (\<lambda>wa. (0, wa)) (wpa_group_restart E (head_group wa) wa))"

definition wpa_gtk_rekey :: "wpa_authenticator \<Rightarrow> wpa_authenticator" where
  "wpa_gtk_rekey wa =
     (let rekey = (\<lambda>g. wpa_gtk_update (wa_addr wa) (g\<lparr>GM := GN g, GN := GM g\<rparr>))
      in upd_grp (head_group wa) (\<lambda>g. rekey (rekey g)) wa)"

definition wpa_auth_add_group ::
  "wpa_env \<Rightarrow> (bytes \<times> bytes) option \<Rightarrow> u32 \<times> u32 \<Rightarrow> bytes \<Rightarrow> int \<Rightarrow> wpa_authenticator \<Rightarrow> (bool \<times> wpa_authenticator) option" where
  "wpa_auth_add_group E seed now ptr v wa =
     (if wa_group wa = [] then Some (False, wa) else wpa_group_init E seed now ptr v wa)"

definition wpa_auth_sta_set_vlan ::
  "wpa_env \<Rightarrow> (bytes \<times> bytes) option \<Rightarrow> u32 \<times> u32 \<Rightarrow> bytes \<Rightarrow> nat \<Rightarrow> int \<Rightarrow> wpa_authenticator \<Rightarrow> (int \<times> wpa_authenticator) option" where
  "wpa_auth_sta_set_vlan E seed now ptr i v wa =
     (case (if find_group v (wa_group wa) \<noteq> None then Some (True, wa) else wpa_auth_add_group E seed now ptr v wa) of
        None \<Rightarrow> None
      | Some (found, wa) \<Rightarrow> if \<not> found then Some (-1, wa) else Some (0, upd_sta i (\<lambda>sm. sm\<lparr>w_group := v\<rparr>) wa))"

section \<open>The PMKSA cache and queries\<close>

definition wpa_auth_pmksa_clear_cb :: "nat \<Rightarrow> wpa_state_machine \<Rightarrow> wpa_state_machine" where
  "wpa_auth_pmksa_clear_cb a sm = (if w_pmksa sm = Some a then sm\<lparr>w_pmksa := None\<rparr> else sm)"

definition wpa_auth_pmksa_free_cb :: "nat \<Rightarrow> wpa_authenticator \<Rightarrow> wpa_authenticator" where
  "wpa_auth_pmksa_free_cb a wa = wa\<lparr>wa_stas := map (map_option (wpa_auth_pmksa_clear_cb a)) (wa_stas wa)\<rparr>"

text \<open>An operation on the cache: the callback runs for every entry it frees.\<close>

definition pmksa_update :: "rsn_pmksa_cache \<Rightarrow> wpa_authenticator \<Rightarrow> wpa_authenticator" where
  "pmksa_update c wa =
     fold wpa_auth_pmksa_free_cb (filter (\<lambda>a. a \<notin> set (pmksa_list c)) (pmksa_list (wa_pmksa wa))) (wa\<lparr>wa_pmksa := c\<rparr>)"

definition wpa_auth_pmksa_add ::
  "int \<Rightarrow> nat option \<Rightarrow> bool \<Rightarrow> nat \<Rightarrow> bytes \<Rightarrow> int \<Rightarrow> 'e eapol_state_machine option \<Rightarrow> int \<Rightarrow> wpa_authenticator \<Rightarrow>
   (int \<times> wpa_authenticator) option" where
  "wpa_auth_pmksa_add now alloc id_malloc i pmk session_timeout eapol vlan wa =
     (if w_wpa (sta wa i) \<noteq> WPA_VERSION_WPA2 then Some (-1, wa)
      else case pmksa_cache_auth_add rsn_pmkid_hmac now alloc id_malloc (wa_pmksa wa) (take PMK_LEN pmk) (wa_addr wa)
          (w_addr (sta wa i)) session_timeout eapol vlan (w_wpa_key_mgmt (sta wa i)) of
        None \<Rightarrow> None
      | Some (r, c) \<Rightarrow> Some (if r \<noteq> None then 0 else -1, pmksa_update c wa))"

definition wpa_auth_pmksa_add_preauth ::
  "int \<Rightarrow> nat option \<Rightarrow> bool \<Rightarrow> bytes \<Rightarrow> bytes \<Rightarrow> int \<Rightarrow> 'e eapol_state_machine option \<Rightarrow> int \<Rightarrow> wpa_authenticator \<Rightarrow>
   (int \<times> wpa_authenticator) option" where
  "wpa_auth_pmksa_add_preauth now alloc id_malloc pmk sta_addr session_timeout eapol vlan wa =
     (case pmksa_cache_auth_add rsn_pmkid_hmac now alloc id_malloc (wa_pmksa wa) pmk (wa_addr wa) sta_addr
         session_timeout eapol vlan WPA_KEY_MGMT_IEEE8021X of
        None \<Rightarrow> None
      | Some (r, c) \<Rightarrow> Some (if r \<noteq> None then 0 else -1, pmksa_update c wa))"

definition wpa_auth_sta_clear_pmksa :: "nat \<Rightarrow> nat option \<Rightarrow> wpa_authenticator \<Rightarrow> int \<times> wpa_authenticator" where
  "wpa_auth_sta_clear_pmksa i entry wa =
     (if w_pmksa (sta wa i) \<noteq> entry then (-1, wa) else (0, upd_sta i (\<lambda>sm. sm\<lparr>w_pmksa := None\<rparr>) wa))"

definition wpa_auth_sta_local_mic_failure_report :: "nat \<Rightarrow> wpa_authenticator \<Rightarrow> wpa_authenticator" where
  "wpa_auth_sta_local_mic_failure_report i =
     upd_sta i (\<lambda>sm. sm\<lparr>dot11RSNAStatsTKIPLocalMICFailures := dot11RSNAStatsTKIPLocalMICFailures sm + 1\<rparr>)"

definition wpa_auth_countermeasures_start :: "wpa_authenticator \<Rightarrow> wpa_authenticator" where
  "wpa_auth_countermeasures_start wa =
     wa\<lparr>dot11RSNATKIPCounterMeasuresInvoked := dot11RSNATKIPCounterMeasuresInvoked wa + 1\<rparr>"

definition wpa_cipher_bits :: "int \<Rightarrow> nat" where
  "wpa_cipher_bits cipher =
     (if cipher = WPA_CIPHER_CCMP then 128 else if cipher = WPA_CIPHER_TKIP then 256
      else if cipher = WPA_CIPHER_WEP104 then 104 else if cipher = WPA_CIPHER_WEP40 then 40 else 0)"

end
