(* ===== verification/Wpa_Auth_Frame.thy ===== *)
theory Wpa_Auth_Frame
  imports Wpa_Auth
begin

text \<open>
  What the operations of the WPA authenticator leave alone.  \<open>rest i\<close> is the authenticator without station \<open>i\<close>, the
  counters of the groups and the record of calls: the machines of a station keep it.
\<close>

section \<open>Access through the pointers\<close>

lemma has_sta_upd [simp]:
  "has_sta (upd_sta i f wa) j = has_sta wa j" "has_sta (upd_grp v g wa) j = has_sta wa j" "has_sta (log_w c wa) j = has_sta wa j"
  by (cases "i = j"; auto simp: has_sta_def upd_sta_def upd_grp_def log_w_def)+

lemma sta_upd [simp]:
  "has_sta wa i \<Longrightarrow> sta (upd_sta i f wa) i = f (sta wa i)" "j \<noteq> i \<Longrightarrow> sta (upd_sta i f wa) j = sta wa j"
  "sta (upd_grp v g wa) j = sta wa j" "sta (log_w c wa) j = sta wa j"
  by (auto simp: has_sta_def sta_def upd_sta_def upd_grp_def log_w_def)

lemma wa_fields_upd [simp]:
  "wa_group (upd_sta i f wa) = wa_group wa" "wa_conf (upd_sta i f wa) = wa_conf wa" "wa_addr (upd_sta i f wa) = wa_addr wa"
  "wa_pmksa (upd_sta i f wa) = wa_pmksa wa" "wa_wpa_ie (upd_sta i f wa) = wa_wpa_ie wa" "wa_calls (upd_sta i f wa) = wa_calls wa"
  "length (wa_stas (upd_sta i f wa)) = length (wa_stas wa)"
  "wa_stas (upd_grp v g wa) = wa_stas wa" "wa_conf (upd_grp v g wa) = wa_conf wa" "wa_addr (upd_grp v g wa) = wa_addr wa"
  "wa_pmksa (upd_grp v g wa) = wa_pmksa wa" "wa_wpa_ie (upd_grp v g wa) = wa_wpa_ie wa" "wa_calls (upd_grp v g wa) = wa_calls wa"
  "length (wa_group (upd_grp v g wa)) = length (wa_group wa)"
  "wa_group (log_w c wa) = wa_group wa" "wa_conf (log_w c wa) = wa_conf wa" "wa_addr (log_w c wa) = wa_addr wa"
  "wa_pmksa (log_w c wa) = wa_pmksa wa" "wa_wpa_ie (log_w c wa) = wa_wpa_ie wa" "wa_stas (log_w c wa) = wa_stas wa"
  "wa_calls (log_w c wa) = c # wa_calls wa"
  by (simp_all add: upd_sta_def upd_grp_def log_w_def)

lemma grp_upd [simp]:
  "grp (upd_sta i f wa) v = grp wa v" "grp (log_w c wa) v = grp wa v"
  by (simp_all add: grp_def)

definition keeps_id :: "(wpa_group \<Rightarrow> wpa_group) \<Rightarrow> bool" where
  "keeps_id f \<longleftrightarrow> (\<forall>g. vlan_id (f g) = vlan_id g)"

lemma keeps_idI [intro]: "(\<And>g. vlan_id (f g) = vlan_id g) \<Longrightarrow> keeps_id f"
  by (simp add: keeps_id_def)

lemma find_group_map:
  "keeps_id f \<Longrightarrow> find_group w (map (\<lambda>g. if vlan_id g = v then f g else g) gs) =
     (if w = v then map_option f (find_group w gs) else find_group w gs)"
  by (induction gs) (auto simp: keeps_id_def)

lemma find_group_some: "find_group v gs \<noteq> None \<longleftrightarrow> v \<in> vlan_id ` set gs"
  by (induction gs) auto

definition vlans :: "wpa_authenticator \<Rightarrow> int list" where
  "vlans wa = map vlan_id (wa_group wa)"

lemma grp_upd_grp:
  assumes "keeps_id f"
  shows "v \<in> set (vlans wa) \<Longrightarrow> grp (upd_grp v f wa) v = f (grp wa v)" "w \<noteq> v \<Longrightarrow> grp (upd_grp v f wa) w = grp wa w"
  using assms by (auto simp: grp_def upd_grp_def find_group_map vlans_def find_group_some [symmetric])

lemma vlans_upd [simp]:
  "vlans (upd_sta i f wa) = vlans wa" "vlans (log_w c wa) = vlans wa" "keeps_id g \<Longrightarrow> vlans (upd_grp v g wa) = vlans wa"
  by (auto simp: vlans_def upd_grp_def keeps_id_def)

section \<open>Frames\<close>

definition gview :: "wpa_group \<Rightarrow> wpa_group" where
  "gview g = g\<lparr>Counter := [], GKeyDoneStations := 0\<rparr>"

definition rest :: "nat \<Rightarrow> wpa_authenticator \<Rightarrow> _" where
  "rest i wa = ((wa_stas wa)[i := None], map gview (wa_group wa), wa_conf wa, wa_addr wa, wa_pmksa wa, wa_wpa_ie wa)"

lemma rest_upd [simp]:
  "rest i (upd_sta i f wa) = rest i wa" "rest i (log_w c wa) = rest i wa"
  "(\<And>g. gview (h g) = gview g) \<Longrightarrow> rest i (upd_grp v h wa) = rest i wa"
  "rest i (wa\<lparr>dot11RSNA4WayHandshakeFailures := n\<rparr>) = rest i wa"
  by (auto simp: rest_def upd_sta_def upd_grp_def)

lemma gview_upd [simp]:
  "gview (g\<lparr>Counter := c\<rparr>) = gview g" "gview (g\<lparr>GKeyDoneStations := n\<rparr>) = gview g"
  by (simp_all add: gview_def)

lemma wpa_alloc_frame [simp]:
  "rest i (snd (wpa_alloc E wa)) = rest i wa" "sta (snd (wpa_alloc E wa)) j = sta wa j" "has_sta (snd (wpa_alloc E wa)) j = has_sta wa j"
  "grp (snd (wpa_alloc E wa)) v = grp wa v"
  by (simp_all add: wpa_alloc_def)

lemma set_eapol_frame [simp]:
  "rest i (wpa_auth_set_eapol a v b wa) = rest i wa" "sta (wpa_auth_set_eapol a v b wa) j = sta wa j"
  "has_sta (wpa_auth_set_eapol a v b wa) j = has_sta wa j" "grp (wpa_auth_set_eapol a v b wa) v' = grp wa v'"
  by (simp_all add: wpa_auth_set_eapol_def)

lemma set_key_frame [simp]:
  "rest i (snd (wpa_auth_set_key E v alg a k key wa)) = rest i wa" "sta (snd (wpa_auth_set_key E v alg a k key wa)) j = sta wa j"
  "has_sta (snd (wpa_auth_set_key E v alg a k key wa)) j = has_sta wa j" "grp (snd (wpa_auth_set_key E v alg a k key wa)) v' = grp wa v'"
  by (simp_all add: wpa_auth_set_key_def)

lemma case_option_same [simp]: "(case x of None \<Rightarrow> y | Some _ \<Rightarrow> y) = y"
  by (cases x) auto

lemma key_data_frame [simp]:
  "rest k (snd (eapol_key_data E i version kde encr wa)) = rest k wa"
  "sta (snd (eapol_key_data E i version kde encr wa)) j = sta wa j"
  "has_sta (snd (eapol_key_data E i version kde encr wa)) j = has_sta wa j"
  by (auto simp: eapol_key_data_def Let_def case_prod_beta split: option.splits)

lemmas send_distribs =
  if_distrib [where f = "rest i" for i] if_distrib [where f = "\<lambda>wa. has_sta wa j" for j] if_distrib [where f = "\<lambda>wa. sta wa j" for j]
  option.case_distrib [where h = "rest i" for i] option.case_distrib [where h = "\<lambda>wa. has_sta wa j" for j]
  option.case_distrib [where h = "\<lambda>wa. sta wa j" for j]

lemma send_frame_frame [simp]:
  "rest i (wpa_send_eapol_frame E i ki rsc nonce kde idx encr ver wa) = rest i wa"
  "has_sta (wpa_send_eapol_frame E i ki rsc nonce kde idx encr ver wa) j = has_sta wa j"
  unfolding wpa_send_eapol_frame_def Let_def case_prod_beta
  by (simp_all add: send_distribs case_prod_beta split del: if_split cong: if_cong option.case_cong)

text \<open>A frame uses up a replay counter once its buffer is allocated, whether or not it is sent.\<close>

lemma send_frame_sta:
  assumes "has_sta wa i"
  shows "sta (wpa_send_eapol_frame E i ki rsc nonce kde idx encr ver wa) i =
    (if fst (wpa_alloc E wa) then (sta wa i)\<lparr>key_replay := key_replay_next (key_replay (sta wa i))\<rparr> else sta wa i)"
  unfolding wpa_send_eapol_frame_def Let_def case_prod_beta using assms
  by (auto simp: send_distribs case_prod_beta split del: if_split cong: if_cong option.case_cong split: if_split)

lemma send_sta:
  assumes "has_sta wa i"
  shows "sta (wpa_send_eapol E i ki rsc nonce kde idx encr wa) i =
    (if fst (wpa_alloc E wa) then (sta wa i)\<lparr>key_replay := key_replay_next (key_replay (sta wa i))\<rparr> else sta wa i)"
  using assms by (simp add: wpa_send_eapol_def Let_def send_frame_sta)

lemma send_fields [simp]:
  assumes "has_sta wa i"
  shows
  "w_group (sta (wpa_send_eapol E i ki rsc nonce kde idx encr wa) i) = w_group (sta wa i)"
  "w_addr (sta (wpa_send_eapol E i ki rsc nonce kde idx encr wa) i) = w_addr (sta wa i)"
  "wpa_ptk_state (sta (wpa_send_eapol E i ki rsc nonce kde idx encr wa) i) = wpa_ptk_state (sta wa i)"
  "wpa_ptk_group_state (sta (wpa_send_eapol E i ki rsc nonce kde idx encr wa) i) = wpa_ptk_group_state (sta wa i)"
  "Init (sta (wpa_send_eapol E i ki rsc nonce kde idx encr wa) i) = Init (sta wa i)"
  "DeauthenticationRequest (sta (wpa_send_eapol E i ki rsc nonce kde idx encr wa) i) = DeauthenticationRequest (sta wa i)"
  "AuthenticationRequest (sta (wpa_send_eapol E i ki rsc nonce kde idx encr wa) i) = AuthenticationRequest (sta wa i)"
  "ReAuthenticationRequest (sta (wpa_send_eapol E i ki rsc nonce kde idx encr wa) i) = ReAuthenticationRequest (sta wa i)"
  "Disconnect (sta (wpa_send_eapol E i ki rsc nonce kde idx encr wa) i) = Disconnect (sta wa i)"
  "TimeoutCtr (sta (wpa_send_eapol E i ki rsc nonce kde idx encr wa) i) = TimeoutCtr (sta wa i)"
  "GTimeoutCtr (sta (wpa_send_eapol E i ki rsc nonce kde idx encr wa) i) = GTimeoutCtr (sta wa i)"
  "TimeoutEvt (sta (wpa_send_eapol E i ki rsc nonce kde idx encr wa) i) = TimeoutEvt (sta wa i)"
  "EAPOLKeyReceived (sta (wpa_send_eapol E i ki rsc nonce kde idx encr wa) i) = EAPOLKeyReceived (sta wa i)"
  "EAPOLKeyPairwise (sta (wpa_send_eapol E i ki rsc nonce kde idx encr wa) i) = EAPOLKeyPairwise (sta wa i)"
  "EAPOLKeyRequest (sta (wpa_send_eapol E i ki rsc nonce kde idx encr wa) i) = EAPOLKeyRequest (sta wa i)"
  "MICVerified (sta (wpa_send_eapol E i ki rsc nonce kde idx encr wa) i) = MICVerified (sta wa i)"
  "GUpdateStationKeys (sta (wpa_send_eapol E i ki rsc nonce kde idx encr wa) i) = GUpdateStationKeys (sta wa i)"
  "ANonce (sta (wpa_send_eapol E i ki rsc nonce kde idx encr wa) i) = ANonce (sta wa i)"
  "SNonce (sta (wpa_send_eapol E i ki rsc nonce kde idx encr wa) i) = SNonce (sta wa i)"
  "PMK (sta (wpa_send_eapol E i ki rsc nonce kde idx encr wa) i) = PMK (sta wa i)"
  "PTK (sta (wpa_send_eapol E i ki rsc nonce kde idx encr wa) i) = PTK (sta wa i)"
  "PTK_valid (sta (wpa_send_eapol E i ki rsc nonce kde idx encr wa) i) = PTK_valid (sta wa i)"
  "pairwise_set (sta (wpa_send_eapol E i ki rsc nonce kde idx encr wa) i) = pairwise_set (sta wa i)"
  "w_Pair (sta (wpa_send_eapol E i ki rsc nonce kde idx encr wa) i) = w_Pair (sta wa i)"
  "PInitAKeys (sta (wpa_send_eapol E i ki rsc nonce kde idx encr wa) i) = PInitAKeys (sta wa i)"
  "PTKRequest (sta (wpa_send_eapol E i ki rsc nonce kde idx encr wa) i) = PTKRequest (sta wa i)"
  "has_GTK (sta (wpa_send_eapol E i ki rsc nonce kde idx encr wa) i) = has_GTK (sta wa i)"
  "PtkGroupInit (sta (wpa_send_eapol E i ki rsc nonce kde idx encr wa) i) = PtkGroupInit (sta wa i)"
  "last_rx_eapol_key (sta (wpa_send_eapol E i ki rsc nonce kde idx encr wa) i) = last_rx_eapol_key (sta wa i)"
  "w_changed (sta (wpa_send_eapol E i ki rsc nonce kde idx encr wa) i) = w_changed (sta wa i)"
  "in_step_loop (sta (wpa_send_eapol E i ki rsc nonce kde idx encr wa) i) = in_step_loop (sta wa i)"
  "pending_deinit (sta (wpa_send_eapol E i ki rsc nonce kde idx encr wa) i) = pending_deinit (sta wa i)"
  "w_started (sta (wpa_send_eapol E i ki rsc nonce kde idx encr wa) i) = w_started (sta wa i)"
  "w_wpa (sta (wpa_send_eapol E i ki rsc nonce kde idx encr wa) i) = w_wpa (sta wa i)"
  "w_pairwise (sta (wpa_send_eapol E i ki rsc nonce kde idx encr wa) i) = w_pairwise (sta wa i)"
  "w_wpa_key_mgmt (sta (wpa_send_eapol E i ki rsc nonce kde idx encr wa) i) = w_wpa_key_mgmt (sta wa i)"
  "w_pmksa (sta (wpa_send_eapol E i ki rsc nonce kde idx encr wa) i) = w_pmksa (sta wa i)"
  "w_wpa_ie (sta (wpa_send_eapol E i ki rsc nonce kde idx encr wa) i) = w_wpa_ie (sta wa i)"
  using assms by (simp_all add: send_sta)

lemma send_frame [simp]:
  "rest i (wpa_send_eapol E i ki rsc nonce kde idx encr wa) = rest i wa"
  "has_sta (wpa_send_eapol E i ki rsc nonce kde idx encr wa) j = has_sta wa j"
  by (simp_all add: wpa_send_eapol_def Let_def)

section \<open>The machines of a station\<close>

lemmas ptk_enter_defs =
  sm_WPA_PTK_INITIALIZE_Enter_def sm_WPA_PTK_DISCONNECT_Enter_def sm_WPA_PTK_DISCONNECTED_Enter_def
  sm_WPA_PTK_AUTHENTICATION_Enter_def sm_WPA_PTK_AUTHENTICATION2_Enter_def sm_WPA_PTK_INITPMK_Enter_def
  sm_WPA_PTK_INITPSK_Enter_def sm_WPA_PTK_PTKSTART_Enter_def sm_WPA_PTK_PTKCALCNEGOTIATING_Enter_def
  sm_WPA_PTK_PTKCALCNEGOTIATING2_Enter_def sm_WPA_PTK_PTKINITNEGOTIATING_Enter_def sm_WPA_PTK_PTKINITDONE_Enter_def
  handshake_failure_def

lemmas ptk_group_enter_defs =
  sm_WPA_PTK_GROUP_IDLE_Enter_def sm_WPA_PTK_GROUP_REKEYNEGOTIATING_Enter_def sm_WPA_PTK_GROUP_REKEYESTABLISHED_Enter_def
  sm_WPA_PTK_GROUP_KEYERROR_Enter_def

lemmas enter_helper_defs = enter_ptk_def enter_ptk_group_def drop_group_update_def wpa_remove_ptk_def wpa_sta_disconnect_def

lemma failures_upd [simp]:
  "has_sta (wa\<lparr>dot11RSNA4WayHandshakeFailures := n\<rparr>) j = has_sta wa j" "sta (wa\<lparr>dot11RSNA4WayHandshakeFailures := n\<rparr>) j = sta wa j"
  "grp (wa\<lparr>dot11RSNA4WayHandshakeFailures := n\<rparr>) v = grp wa v" "vlans (wa\<lparr>dot11RSNA4WayHandshakeFailures := n\<rparr>) = vlans wa"
  by (simp_all add: has_sta_def sta_def grp_def vlans_def)

lemma ptk_enter_rest [simp]:
  "rest i (sm_WPA_PTK_INITIALIZE_Enter E i wa) = rest i wa" "rest i (sm_WPA_PTK_DISCONNECT_Enter i wa) = rest i wa"
  "rest i (sm_WPA_PTK_DISCONNECTED_Enter i wa) = rest i wa" "rest i (sm_WPA_PTK_AUTHENTICATION_Enter i wa) = rest i wa"
  "rest i (sm_WPA_PTK_AUTHENTICATION2_Enter i wa) = rest i wa" "rest i (sm_WPA_PTK_INITPMK_Enter E i wa) = rest i wa"
  "rest i (sm_WPA_PTK_INITPSK_Enter E i wa) = rest i wa" "rest i (sm_WPA_PTK_PTKSTART_Enter E i wa) = rest i wa"
  "rest i (sm_WPA_PTK_PTKCALCNEGOTIATING_Enter E i wa) = rest i wa" "rest i (sm_WPA_PTK_PTKCALCNEGOTIATING2_Enter i wa) = rest i wa"
  "rest i (sm_WPA_PTK_PTKINITNEGOTIATING_Enter E i wa) = rest i wa" "rest i (sm_WPA_PTK_PTKINITDONE_Enter E i wa) = rest i wa"
  "rest i (handshake_failure i wa) = rest i wa"
  by (simp_all add: ptk_enter_defs enter_helper_defs Let_def case_prod_beta split: option.split)

lemma ptk_enter_has_sta [simp]:
  "has_sta (sm_WPA_PTK_INITIALIZE_Enter E i wa) j = has_sta wa j" "has_sta (sm_WPA_PTK_DISCONNECT_Enter i wa) j = has_sta wa j"
  "has_sta (sm_WPA_PTK_DISCONNECTED_Enter i wa) j = has_sta wa j" "has_sta (sm_WPA_PTK_AUTHENTICATION_Enter i wa) j = has_sta wa j"
  "has_sta (sm_WPA_PTK_AUTHENTICATION2_Enter i wa) j = has_sta wa j" "has_sta (sm_WPA_PTK_INITPMK_Enter E i wa) j = has_sta wa j"
  "has_sta (sm_WPA_PTK_INITPSK_Enter E i wa) j = has_sta wa j" "has_sta (sm_WPA_PTK_PTKSTART_Enter E i wa) j = has_sta wa j"
  "has_sta (sm_WPA_PTK_PTKCALCNEGOTIATING_Enter E i wa) j = has_sta wa j"
  "has_sta (sm_WPA_PTK_PTKCALCNEGOTIATING2_Enter i wa) j = has_sta wa j"
  "has_sta (sm_WPA_PTK_PTKINITNEGOTIATING_Enter E i wa) j = has_sta wa j" "has_sta (sm_WPA_PTK_PTKINITDONE_Enter E i wa) j = has_sta wa j"
  "has_sta (handshake_failure i wa) j = has_sta wa j"
  by (simp_all add: ptk_enter_defs enter_helper_defs Let_def case_prod_beta split: option.split)

lemma ptk_group_enter_frame [simp]:
  "rest i (sm_WPA_PTK_GROUP_IDLE_Enter i wa) = rest i wa" "has_sta (sm_WPA_PTK_GROUP_IDLE_Enter i wa) j = has_sta wa j"
  "rest i (sm_WPA_PTK_GROUP_REKEYNEGOTIATING_Enter E i wa) = rest i wa"
  "has_sta (sm_WPA_PTK_GROUP_REKEYNEGOTIATING_Enter E i wa) j = has_sta wa j"
  "rest i (sm_WPA_PTK_GROUP_REKEYESTABLISHED_Enter i wa) = rest i wa"
  "has_sta (sm_WPA_PTK_GROUP_REKEYESTABLISHED_Enter i wa) j = has_sta wa j"
  "rest i (sm_WPA_PTK_GROUP_KEYERROR_Enter i wa) = rest i wa" "has_sta (sm_WPA_PTK_GROUP_KEYERROR_Enter i wa) j = has_sta wa j"
  by (simp_all add: ptk_group_enter_defs enter_helper_defs Let_def case_prod_beta)

lemma ptk_step_frame [simp]:
  "rest i (sm_WPA_PTK_Step E i wa) = rest i wa" "has_sta (sm_WPA_PTK_Step E i wa) j = has_sta wa j"
  "rest i (sm_WPA_PTK_GROUP_Step E i wa) = rest i wa" "has_sta (sm_WPA_PTK_GROUP_Step E i wa) j = has_sta wa j"
  by (simp_all add: sm_WPA_PTK_Step_def sm_WPA_PTK_GROUP_Step_def Let_def split: wpa_ptk_states.split wpa_ptk_group_states.split)

section \<open>The effect of entering a state on the station\<close>

lemma initialize_sta:
  assumes "has_sta wa i"
  shows "sta (sm_WPA_PTK_INITIALIZE_Enter E i wa) i =
    (sta wa i)\<lparr>w_changed := \<not> Init (sta wa i), wpa_ptk_state := WPA_PTK_INITIALIZE, keycount := 0, GUpdateStationKeys := False,
      PInitAKeys := (if w_wpa (sta wa i) = WPA_VERSION_WPA then False else PInitAKeys (sta wa i)), w_Pair := True,
      PTK_valid := False, PTK := wpa_ptk_zero, pairwise_set := False, TimeoutCtr := 0\<rparr>"
  using assms
  by (cases "Init (sta wa i)"; cases "GUpdateStationKeys (sta wa i)"; cases "w_wpa (sta wa i) = WPA_VERSION_WPA")
    (simp_all add: sm_WPA_PTK_INITIALIZE_Enter_def enter_helper_defs Let_def case_prod_beta)

lemma disconnect_sta:
  assumes "has_sta wa i"
  shows "sta (sm_WPA_PTK_DISCONNECT_Enter i wa) i =
      (sta wa i)\<lparr>w_changed := True, wpa_ptk_state := WPA_PTK_DISCONNECT, Disconnect := False\<rparr>"
    "sta (handshake_failure i wa) i = (sta wa i)\<lparr>w_changed := True, wpa_ptk_state := WPA_PTK_DISCONNECT, Disconnect := False\<rparr>"
    "sta (sm_WPA_PTK_DISCONNECTED_Enter i wa) i =
      (sta wa i)\<lparr>w_changed := True, wpa_ptk_state := WPA_PTK_DISCONNECTED, DeauthenticationRequest := False\<rparr>"
  using assms
  by (simp_all add: sm_WPA_PTK_DISCONNECT_Enter_def sm_WPA_PTK_DISCONNECTED_Enter_def handshake_failure_def enter_helper_defs Let_def)

lemma authentication_sta:
  assumes "has_sta wa i"
  shows "sta (sm_WPA_PTK_AUTHENTICATION_Enter i wa) i =
      (sta wa i)\<lparr>w_changed := True, wpa_ptk_state := WPA_PTK_AUTHENTICATION, PTK := wpa_ptk_zero, PTK_valid := False,
        AuthenticationRequest := False\<rparr>"
    "sta (sm_WPA_PTK_AUTHENTICATION2_Enter i wa) i =
      (sta wa i)\<lparr>w_changed := True, wpa_ptk_state := WPA_PTK_AUTHENTICATION2,
        ANonce := take 32 (Counter (grp wa (w_group (sta wa i)))), ReAuthenticationRequest := False, TimeoutCtr := 0\<rparr>"
  using assms
  by (simp_all add: sm_WPA_PTK_AUTHENTICATION_Enter_def sm_WPA_PTK_AUTHENTICATION2_Enter_def enter_helper_defs Let_def)

text \<open>The PMK after \<^verbatim>\<open>INITPMK\<close> and \<^verbatim>\<open>INITPSK\<close>.\<close>

definition initpmk :: "wpa_env \<Rightarrow> wpa_authenticator \<Rightarrow> wpa_state_machine \<Rightarrow> bytes" where
  "initpmk E wa sm =
     (case w_pmksa sm of
        Some a \<Rightarrow> (case pmksa_heap (wa_pmksa wa) a of Some e \<Rightarrow> take PMK_LEN (pe_pmk e) | None \<Rightarrow> PMK sm)
      | None \<Rightarrow> (case we_get_msk E (wa_calls wa) (w_addr sm) of Some msk \<Rightarrow> take PMK_LEN msk | None \<Rightarrow> PMK sm))"

definition initpsk :: "wpa_env \<Rightarrow> wpa_state_machine \<Rightarrow> bytes" where
  "initpsk E sm = (case hostapd_get_psk (we_psks E) (w_addr sm) None of Some k \<Rightarrow> psk_at E k | None \<Rightarrow> PMK sm)"

lemma initpmk_sta:
  assumes "has_sta wa i"
  shows "sta (sm_WPA_PTK_INITPMK_Enter E i wa) i =
      (sta wa i)\<lparr>w_changed := True, wpa_ptk_state := WPA_PTK_INITPMK, PMK := initpmk E wa (sta wa i), req_replay_counter_used := False\<rparr>"
    "sta (sm_WPA_PTK_INITPSK_Enter E i wa) i =
      (sta wa i)\<lparr>w_changed := True, wpa_ptk_state := WPA_PTK_INITPSK, PMK := initpsk E (sta wa i), req_replay_counter_used := False\<rparr>"
  using assms
  by (auto simp: sm_WPA_PTK_INITPMK_Enter_def sm_WPA_PTK_INITPSK_Enter_def enter_ptk_def initpmk_def initpsk_def Let_def
      split: option.split)

text \<open>A frame may have been sent: the replay counters have moved on.\<close>

definition sent :: "wpa_state_machine \<Rightarrow> wpa_state_machine \<Rightarrow> bool" where
  "sent sm sm' \<longleftrightarrow> sm' = sm \<or> sm' = sm\<lparr>key_replay := key_replay_next (key_replay sm)\<rparr>"

lemma sent_refl [simp]: "sent sm sm" "sent sm (sm\<lparr>key_replay := key_replay_next (key_replay sm)\<rparr>)"
  by (simp_all add: sent_def)

lemma sent_send: "has_sta wa i \<Longrightarrow> sent (sta wa i) (sta (wpa_send_eapol E i ki rsc nonce kde idx encr wa) i)"
  by (simp add: send_sta)

lemma ptkstart_sta:
  assumes "has_sta wa i"
  shows "sent ((sta wa i)\<lparr>w_changed := True, wpa_ptk_state := WPA_PTK_PTKSTART, PTKRequest := False, TimeoutEvt := False,
        TimeoutCtr := TimeoutCtr (sta wa i) + 1\<rparr>) (sta (sm_WPA_PTK_PTKSTART_Enter E i wa) i)"
proof -
  define wa' where "wa' = upd_sta i (\<lambda>sm. sm\<lparr>TimeoutCtr := TimeoutCtr sm + 1\<rparr>)
    (upd_sta i (\<lambda>sm. sm\<lparr>PTKRequest := False, TimeoutEvt := False\<rparr>) (enter_ptk WPA_PTK_PTKSTART i wa))"
  have h: "has_sta wa' i" and s: "sta wa' i = (sta wa i)\<lparr>w_changed := True, wpa_ptk_state := WPA_PTK_PTKSTART,
      PTKRequest := False, TimeoutEvt := False, TimeoutCtr := TimeoutCtr (sta wa i) + 1\<rparr>"
    using assms by (simp_all add: wa'_def enter_ptk_def)
  show ?thesis
    unfolding sm_WPA_PTK_PTKSTART_Enter_def Let_def wa'_def [symmetric] s [symmetric] by (simp add: sent_send [OF h])
qed

text \<open>The PMK under which the received frame verifies, if there is one.\<close>

definition verified_pmk :: "wpa_env \<Rightarrow> wpa_authenticator \<Rightarrow> wpa_state_machine \<Rightarrow> bytes option" where
  "verified_pmk E wa sm =
     (let frame = (case last_rx_eapol_key sm of None \<Rightarrow> [] | Some f \<Rightarrow> f) in
      if wpa_key_mgmt_wpa_psk (w_wpa_key_mgmt sm) then
        map_option (psk_at E)
          (find_psk (\<lambda>k. wpa_verify_key_mic (wpa_derive_ptk wa sm (psk_at E k)) frame) (we_psks E) (w_addr sm) None)
      else if wpa_verify_key_mic (wpa_derive_ptk wa sm (PMK sm)) frame then Some (PMK sm) else None)"

lemma derive_ptk_cong:
  assumes "wa_addr wa' = wa_addr wa" "w_pairwise sm' = w_pairwise sm" "w_addr sm' = w_addr sm" "ANonce sm' = ANonce sm" "SNonce sm' = SNonce sm"
  shows "wpa_derive_ptk wa' sm' pmk = wpa_derive_ptk wa sm pmk"
  using assms by (simp add: wpa_derive_ptk_def)

lemma ptkcalc_sta:
  assumes "has_sta wa i"
  shows "sta (sm_WPA_PTK_PTKCALCNEGOTIATING_Enter E i wa) i =
      (let sm = (sta wa i)\<lparr>w_changed := True, wpa_ptk_state := WPA_PTK_PTKCALCNEGOTIATING, EAPOLKeyReceived := False\<rparr> in
       case verified_pmk E wa sm of
         None \<Rightarrow> sm
       | Some pmk \<Rightarrow> sm\<lparr>PMK := pmk, MICVerified := True, PTK := wpa_derive_ptk wa sm pmk, PTK_valid := True\<rparr>)"
  using assms
  apply (cases "wpa_key_mgmt_wpa_psk (w_wpa_key_mgmt (sta wa i))")
  apply (auto simp: sm_WPA_PTK_PTKCALCNEGOTIATING_Enter_def enter_ptk_def verified_pmk_def Let_def wpa_derive_ptk_def split: option.split)
  done

lemma ptkcalc2_sta:
  assumes "has_sta wa i"
  shows "sta (sm_WPA_PTK_PTKCALCNEGOTIATING2_Enter i wa) i =
      (sta wa i)\<lparr>w_changed := True, wpa_ptk_state := WPA_PTK_PTKCALCNEGOTIATING2, TimeoutCtr := 0\<rparr>"
  using assms by (simp add: sm_WPA_PTK_PTKCALCNEGOTIATING2_Enter_def enter_ptk_def)

lemma ptkinitneg_sta:
  assumes "has_sta wa i"
  shows "sent ((sta wa i)\<lparr>w_changed := True, wpa_ptk_state := WPA_PTK_PTKINITNEGOTIATING, TimeoutEvt := False,
        TimeoutCtr := TimeoutCtr (sta wa i) + 1\<rparr>) (sta (sm_WPA_PTK_PTKINITNEGOTIATING_Enter E i wa) i)"
proof -
  define wa' where "wa' = upd_sta i (\<lambda>sm. sm\<lparr>TimeoutEvt := False, TimeoutCtr := TimeoutCtr sm + 1\<rparr>)
    (enter_ptk WPA_PTK_PTKINITNEGOTIATING i wa)"
  have h: "has_sta wa' i" and s: "sta wa' i = (sta wa i)\<lparr>w_changed := True, wpa_ptk_state := WPA_PTK_PTKINITNEGOTIATING,
      TimeoutEvt := False, TimeoutCtr := TimeoutCtr (sta wa i) + 1\<rparr>"
    using assms by (simp_all add: wa'_def enter_ptk_def)
  have "sent (sta wa' i) (sta (wpa_send_eapol E i ki rsc nonce kde idx encr (snd (wpa_alloc E wa'))) i)"
    for ki rsc nonce kde idx encr
    using sent_send [of "snd (wpa_alloc E wa')" i] h by simp
  then show ?thesis
    unfolding sm_WPA_PTK_PTKINITNEGOTIATING_Enter_def Let_def wa'_def [symmetric] s [symmetric] by (simp add: case_prod_beta)
qed

text \<open>\<^verbatim>\<open>PTKINITDONE\<close> may fail to install the key, and then stops.\<close>

definition initdone :: "bool \<Rightarrow> bool \<Rightarrow> wpa_state_machine \<Rightarrow> wpa_state_machine" where
  "initdone p s sm =
     (let sm = sm\<lparr>w_changed := True, wpa_ptk_state := WPA_PTK_PTKINITDONE, EAPOLKeyReceived := False, pairwise_set := s\<rparr> in
      if p then (if w_wpa sm = WPA_VERSION_WPA then sm\<lparr>PInitAKeys := True\<rparr> else sm\<lparr>has_GTK := True\<rparr>) else sm)"

lemma ptkinitdone_sta:
  assumes "has_sta wa i"
  shows "\<exists>p s. sta (sm_WPA_PTK_PTKINITDONE_Enter E i wa) i = initdone p s (sta wa i)"
proof -
  define wa' where "wa' = upd_sta i (\<lambda>sm. sm\<lparr>EAPOLKeyReceived := False\<rparr>) (enter_ptk WPA_PTK_PTKINITDONE i wa)"
  have h: "has_sta wa' i" and s: "sta wa' i = (sta wa i)\<lparr>w_changed := True, wpa_ptk_state := WPA_PTK_PTKINITDONE, EAPOLKeyReceived := False\<rparr>"
    using assms by (simp_all add: wa'_def enter_ptk_def)
  obtain alg klen where alg: "(if w_pairwise (sta wa' i) = WPA_CIPHER_TKIP then (WPA_ALG_TKIP, 32) else (WPA_ALG_CCMP, 16)) = (alg, klen :: nat)"
    by (metis surj_pair)
  show ?thesis
  proof (cases "w_Pair (sta wa' i)")
    case False
    then have "sta (sm_WPA_PTK_PTKINITDONE_Enter E i wa) i = initdone True (pairwise_set (sta wa i)) (sta wa i)"
      unfolding sm_WPA_PTK_PTKINITDONE_Enter_def Let_def wa'_def [symmetric] alg
      using h s by (simp add: initdone_def Let_def)
    then show ?thesis by blast
  next
    case True
    define r where "r = wpa_auth_set_key E 0 alg (Some (w_addr (sta wa' i))) 0 (take klen (tk1 (PTK (sta wa' i)) @ tk2 (PTK (sta wa' i)))) wa'"
    have r: "has_sta (snd r) i" "sta (snd r) i = sta wa' i" using h by (simp_all add: r_def)
    have "sta (sm_WPA_PTK_PTKINITDONE_Enter E i wa) i =
      (if fst r \<noteq> 0 then initdone False (pairwise_set (sta wa i)) (sta wa i) else initdone True True (sta wa i))"
      unfolding sm_WPA_PTK_PTKINITDONE_Enter_def Let_def wa'_def [symmetric] alg prod.case r_def [symmetric]
      using r s True
      by (cases "fst r \<noteq> 0") (simp_all add: initdone_def Let_def case_prod_beta send_distribs wpa_sta_disconnect_def
          split del: if_split cong: if_cong)
    then show ?thesis by (cases "fst r \<noteq> 0") auto
  qed
qed

lemma group_idle_sta:
  assumes "has_sta wa i"
  shows "sta (sm_WPA_PTK_GROUP_IDLE_Enter i wa) i =
    (sta wa i)\<lparr>w_changed := \<not> Init (sta wa i), wpa_ptk_group_state := WPA_PTK_GROUP_IDLE, GTimeoutCtr := 0\<rparr>"
  using assms by (simp add: sm_WPA_PTK_GROUP_IDLE_Enter_def enter_ptk_group_def Let_def)

lemma group_rekey_sta:
  assumes "has_sta wa i"
  shows "sent (let sm = (sta wa i)\<lparr>w_changed := True, wpa_ptk_group_state := WPA_PTK_GROUP_REKEYNEGOTIATING,
                GTimeoutCtr := GTimeoutCtr (sta wa i) + 1\<rparr> in
     if GTimeoutCtr sm > 4 then sm
     else sm\<lparr>PInitAKeys := (if w_wpa sm = WPA_VERSION_WPA then False else PInitAKeys sm), TimeoutEvt := False\<rparr>)
    (sta (sm_WPA_PTK_GROUP_REKEYNEGOTIATING_Enter E i wa) i)"
proof -
  define wa' where "wa' = upd_sta i (\<lambda>sm. sm\<lparr>GTimeoutCtr := GTimeoutCtr sm + 1\<rparr>) (enter_ptk_group WPA_PTK_GROUP_REKEYNEGOTIATING i wa)"
  define wb where "wb = upd_sta i (\<lambda>sm. sm\<lparr>TimeoutEvt := False\<rparr>)
    (if w_wpa (sta wa' i) = WPA_VERSION_WPA then upd_sta i (\<lambda>sm. sm\<lparr>PInitAKeys := False\<rparr>) wa' else wa')"
  have a: "has_sta wa' i" "sta wa' i = (sta wa i)\<lparr>w_changed := True, wpa_ptk_group_state := WPA_PTK_GROUP_REKEYNEGOTIATING,
      GTimeoutCtr := GTimeoutCtr (sta wa i) + 1\<rparr>"
    using assms by (simp_all add: wa'_def enter_ptk_group_def)
  have b: "has_sta wb i" "sta wb i = (sta wa' i)\<lparr>PInitAKeys := (if w_wpa (sta wa' i) = WPA_VERSION_WPA then False else PInitAKeys (sta wa' i)),
      TimeoutEvt := False\<rparr>"
    using a by (simp_all add: wb_def)
  have "sent (sta wb i) (sta (wpa_send_eapol E i ki rsc nonce kde idx encr wb) i)"
    "sent (sta wb i) (sta (wpa_send_eapol E i ki rsc nonce kde idx encr (snd (wpa_alloc E wb))) i)" for ki rsc nonce kde idx encr
    using sent_send [of wb i] sent_send [of "snd (wpa_alloc E wb)" i] b(1) by simp_all
  then show ?thesis
    unfolding sm_WPA_PTK_GROUP_REKEYNEGOTIATING_Enter_def Let_def wa'_def [symmetric] wb_def [symmetric] a(2) [symmetric] b(2) [symmetric]
    by (cases "4 < GTimeoutCtr (sta wa' i)"; cases "w_wpa (sta wb i) = WPA_VERSION_WPA2") (simp_all add: case_prod_beta)
qed

lemma group_done_sta:
  assumes "has_sta wa i"
  shows "sta (sm_WPA_PTK_GROUP_REKEYESTABLISHED_Enter i wa) i =
    (sta wa i)\<lparr>w_changed := True, wpa_ptk_group_state := WPA_PTK_GROUP_REKEYESTABLISHED, EAPOLKeyReceived := False,
      GUpdateStationKeys := False, GTimeoutCtr := 0, has_GTK := True\<rparr>"
    "sta (sm_WPA_PTK_GROUP_KEYERROR_Enter i wa) i =
    (sta wa i)\<lparr>w_changed := True, wpa_ptk_group_state := WPA_PTK_GROUP_KEYERROR, GUpdateStationKeys := False, Disconnect := True\<rparr>"
  using assms
  by (simp_all add: sm_WPA_PTK_GROUP_REKEYESTABLISHED_Enter_def sm_WPA_PTK_GROUP_KEYERROR_Enter_def enter_helper_defs Let_def)

end
