(* ===== verification/Wpa_Auth_Term.thy ===== *)
theory Wpa_Auth_Term
  imports Wpa_Auth_Frame
begin

text \<open>
  The loop of \<^verbatim>\<open>wpa_sm_step\<close> ends, the steps of other stations that a group rekey starts inside of it included.  Every pass
  that calls for another one lowers \<open>wpa_rank\<close>.
\<close>

section \<open>The machines of a station\<close>

definition sta_ok :: "wpa_state_machine \<Rightarrow> bool" where
  "sta_ok sm \<longleftrightarrow> \<not> pending_deinit sm \<and> (wpa_ptk_group_state sm = WPA_PTK_GROUP_IDLE \<longrightarrow> GTimeoutCtr sm = 0)"

text \<open>What no step of a machine changes: where a station belongs and what it negotiated.\<close>

definition ident :: "wpa_state_machine \<Rightarrow> _" where
  "ident sm = (w_group sm, w_addr sm, w_pmksa sm, w_wpa_key_mgmt sm, w_wpa sm, w_pairwise sm, w_wpa_ie sm, w_started sm)"

definition settings :: "wpa_authenticator \<Rightarrow> _" where
  "settings wa = (wa_conf wa, wa_addr wa, wa_pmksa wa, wa_wpa_ie wa)"

lemma settings_upd [simp]:
  "settings (upd_sta i f wa) = settings wa" "settings (upd_grp v g wa) = settings wa" "settings (log_w c wa) = settings wa"
  by (simp_all add: settings_def)

text \<open>What a machine step does to the station it steps: the rank falls when a state has been entered.\<close>

definition lowers :: "wpa_state_machine \<Rightarrow> wpa_state_machine \<Rightarrow> bool" where
  "lowers sm sm' \<longleftrightarrow>
     sta_rank sm' \<le> sta_rank sm \<and> (w_changed sm' \<longrightarrow> w_changed sm \<or> sta_rank sm' < sta_rank sm) \<and>
     ident sm' = ident sm \<and> in_step_loop sm' = in_step_loop sm \<and> Init sm' = Init sm \<and>
     pending_deinit sm' = pending_deinit sm \<and> sta_ok sm'"

lemma lowers_trans: "lowers a b \<Longrightarrow> lowers b c \<Longrightarrow> lowers a c"
  by (auto simp: lowers_def)

lemma flag_simps [simp]: "flag True n = n" "flag False n = 0"
  by (simp_all add: flag_def)

lemma ptk_group_rank_update:
  "ptk_group_rank s False c \<le> ptk_group_rank s u c" "ptk_group_rank s True c \<le> ptk_group_rank s u c + 30"
  "ptk_group_rank WPA_PTK_GROUP_IDLE u 0 \<le> 30"
  by (auto simp: ptk_group_rank_def flag_def split: wpa_ptk_group_states.split)

lemmas rank_defs = ident_def lowers_def sta_rank_def sta_ok_def

lemma lowers_sent: "sent sm' sm'' \<Longrightarrow> lowers sm sm'' \<longleftrightarrow> lowers sm sm'"
  unfolding sent_def by (elim disjE) (simp_all add: rank_defs)

lemma initdone_lowers:
  assumes "sta_ok sm" "\<not> Init sm" "wpa_ptk_state sm = WPA_PTK_PTKINITNEGOTIATING"
  shows "lowers sm (initdone p s sm)"
  using assms by (cases p; cases "w_wpa sm = WPA_VERSION_WPA") (auto simp: initdone_def rank_defs)

lemmas ptk_enter_sta =
  initialize_sta disconnect_sta authentication_sta initpmk_sta ptkcalc_sta ptkcalc2_sta

lemma ptk_step_lowers:
  assumes "has_sta wa i" "sta_ok (sta wa i)"
  shows "lowers (sta wa i) (sta (sm_WPA_PTK_Step E i wa) i)"
proof -
  define sm where "sm = sta wa i"
  have same: "lowers sm sm" using assms by (simp add: sm_def lowers_def)
  note e = ptk_enter_sta [OF assms(1), folded sm_def]
  note ok = assms(2) [folded sm_def]
  have plain:
    "Init sm \<or> wpa_ptk_state sm = WPA_PTK_DISCONNECTED \<Longrightarrow> lowers sm (sta (sm_WPA_PTK_INITIALIZE_Enter E i wa) i)"
    "\<not> Init sm \<Longrightarrow> Disconnect sm \<Longrightarrow> lowers sm (sta (sm_WPA_PTK_DISCONNECT_Enter i wa) i)"
    "\<not> Init sm \<Longrightarrow> 2 < ptk_rank (wpa_ptk_state sm) \<Longrightarrow> lowers sm (sta (handshake_failure i wa) i)"
    "\<not> Init sm \<Longrightarrow> DeauthenticationRequest sm \<or> wpa_ptk_state sm = WPA_PTK_DISCONNECT \<Longrightarrow>
      lowers sm (sta (sm_WPA_PTK_DISCONNECTED_Enter i wa) i)"
    "\<not> Init sm \<Longrightarrow> AuthenticationRequest sm \<Longrightarrow> lowers sm (sta (sm_WPA_PTK_AUTHENTICATION_Enter i wa) i)"
    "\<not> Init sm \<Longrightarrow> ReAuthenticationRequest sm \<or> wpa_ptk_state sm = WPA_PTK_AUTHENTICATION \<Longrightarrow>
      lowers sm (sta (sm_WPA_PTK_AUTHENTICATION2_Enter i wa) i)"
    "\<not> Init sm \<Longrightarrow> wpa_ptk_state sm = WPA_PTK_AUTHENTICATION2 \<Longrightarrow> lowers sm (sta (sm_WPA_PTK_INITPMK_Enter E i wa) i)"
    "\<not> Init sm \<Longrightarrow> wpa_ptk_state sm = WPA_PTK_AUTHENTICATION2 \<Longrightarrow> lowers sm (sta (sm_WPA_PTK_INITPSK_Enter E i wa) i)"
    "\<not> Init sm \<Longrightarrow> EAPOLKeyReceived sm \<Longrightarrow> wpa_ptk_state sm \<in> {WPA_PTK_PTKSTART, WPA_PTK_PTKCALCNEGOTIATING} \<Longrightarrow>
      lowers sm (sta (sm_WPA_PTK_PTKCALCNEGOTIATING_Enter E i wa) i)"
    "\<not> Init sm \<Longrightarrow> wpa_ptk_state sm = WPA_PTK_PTKCALCNEGOTIATING \<Longrightarrow>
      lowers sm (sta (sm_WPA_PTK_PTKCALCNEGOTIATING2_Enter i wa) i)"
    using ok ptk_group_rank_update(1) [of "wpa_ptk_group_state sm" "GTimeoutCtr sm" "GUpdateStationKeys sm"] unfolding e by (auto simp: rank_defs Let_def split: option.splits)
  have start: "\<not> Init sm \<Longrightarrow> PTKRequest sm \<or> 73 < ptk_rank (wpa_ptk_state sm) \<or>
      TimeoutEvt sm \<and> wpa_ptk_state sm \<in> {WPA_PTK_PTKSTART, WPA_PTK_PTKCALCNEGOTIATING} \<Longrightarrow>
    lowers sm (sta (sm_WPA_PTK_PTKSTART_Enter E i wa) i)"
    using ok unfolding lowers_sent [OF ptkstart_sta [OF assms(1), folded sm_def]]
    by (auto simp: rank_defs)
  have neg: "\<not> Init sm \<Longrightarrow> wpa_ptk_state sm = WPA_PTK_PTKCALCNEGOTIATING2 \<or>
      TimeoutEvt sm \<and> wpa_ptk_state sm = WPA_PTK_PTKINITNEGOTIATING \<Longrightarrow>
    lowers sm (sta (sm_WPA_PTK_PTKINITNEGOTIATING_Enter E i wa) i)"
    using ok unfolding lowers_sent [OF ptkinitneg_sta [OF assms(1), folded sm_def]]
    by (auto simp: rank_defs)
  have fin: "\<not> Init sm \<Longrightarrow> wpa_ptk_state sm = WPA_PTK_PTKINITNEGOTIATING \<Longrightarrow>
    lowers sm (sta (sm_WPA_PTK_PTKINITDONE_Enter E i wa) i)"
    using ok ptkinitdone_sta [OF assms(1), folded sm_def, of E] initdone_lowers [of sm] by auto
  show ?thesis
    unfolding sm_WPA_PTK_Step_def Let_def sm_def [symmetric]
    using same plain start neg fin
    by (cases "wpa_ptk_state sm") (simp_all add: sm_def [symmetric])
qed

lemma ptk_group_step_lowers:
  assumes "has_sta wa i" "sta_ok (sta wa i)"
  shows "lowers (sta wa i) (sta (sm_WPA_PTK_GROUP_Step E i wa) i)"
proof -
  define sm where "sm = sta wa i"
  have same: "lowers sm sm" using assms by (simp add: sm_def lowers_def)
  note ok = assms(2) [folded sm_def]
  note e = group_idle_sta [OF assms(1), folded sm_def] group_done_sta [OF assms(1), folded sm_def]
  have idle: "Init sm \<or> PtkGroupInit sm \<Longrightarrow>
      lowers sm (sta (upd_sta i (\<lambda>sm. sm\<lparr>PtkGroupInit := False\<rparr>) (sm_WPA_PTK_GROUP_IDLE_Enter i wa)) i)"
    "\<not> Init sm \<Longrightarrow> wpa_ptk_group_state sm \<in> {WPA_PTK_GROUP_REKEYESTABLISHED, WPA_PTK_GROUP_KEYERROR} \<Longrightarrow>
      lowers sm (sta (sm_WPA_PTK_GROUP_IDLE_Enter i wa) i)"
    using ok assms(1) by (auto simp: e rank_defs ptk_group_rank_def flag_def)
  have fin: "\<not> Init sm \<Longrightarrow> wpa_ptk_group_state sm = WPA_PTK_GROUP_REKEYNEGOTIATING \<Longrightarrow>
      lowers sm (sta (sm_WPA_PTK_GROUP_REKEYESTABLISHED_Enter i wa) i)"
    "\<not> Init sm \<Longrightarrow> wpa_ptk_group_state sm = WPA_PTK_GROUP_REKEYNEGOTIATING \<Longrightarrow>
      lowers sm (sta (sm_WPA_PTK_GROUP_KEYERROR_Enter i wa) i)"
    using ok by (auto simp: e rank_defs ptk_group_rank_def flag_def)
  have neg: "\<not> Init sm \<Longrightarrow>
      wpa_ptk_group_state sm = WPA_PTK_GROUP_IDLE \<and> (GUpdateStationKeys sm \<or> w_wpa sm = WPA_VERSION_WPA \<and> PInitAKeys sm) \<or>
      wpa_ptk_group_state sm = WPA_PTK_GROUP_REKEYNEGOTIATING \<and> GTimeoutCtr sm \<le> 4 \<and> TimeoutEvt sm \<Longrightarrow>
      lowers sm (sta (sm_WPA_PTK_GROUP_REKEYNEGOTIATING_Enter E i wa) i)"
    using ok unfolding lowers_sent [OF group_rekey_sta [OF assms(1), folded sm_def]]
    by (auto simp: rank_defs ptk_group_rank_def Let_def)
  show ?thesis
    unfolding sm_WPA_PTK_GROUP_Step_def Let_def sm_def [symmetric]
    using same idle fin neg by (cases "wpa_ptk_group_state sm") (simp_all add: sm_def [symmetric])
qed

section \<open>The rank of the authenticator\<close>

lemma sum_list_split:
  "i < length xs \<Longrightarrow> sum_list (map f xs) = f (xs ! i) + sum_list (map (f :: 'a \<Rightarrow> nat) (take i xs @ drop (Suc i) xs))"
  by (subst id_take_nth_drop [of i xs]) auto

definition opt_rank :: "wpa_state_machine option \<Rightarrow> nat" where
  "opt_rank s = (case s of None \<Rightarrow> 0 | Some sm \<Rightarrow> sta_rank sm)"

definition rest_rank :: "wpa_state_machine option list \<Rightarrow> wpa_group list \<Rightarrow> nat" where
  "rest_rank ss gs = sum_list (map opt_rank ss) + sum_list (map (group_rank (length ss)) gs)"

lemma group_rank_gview [simp]: "group_rank n (gview g) = group_rank n g"
  by (simp add: group_rank_def gview_def)

lemma group_rank_upd [simp]:
  "group_rank n (g\<lparr>g_changed := b\<rparr>) = group_rank n g" "group_rank n (g\<lparr>GKeyDoneStations := k\<rparr>) = group_rank n g"
  by (simp_all add: group_rank_def)

lemma rank_rest:
  assumes "has_sta wa i"
  shows "wpa_rank wa = sta_rank (sta wa i) + rest_rank (fst (rest i wa)) (fst (snd (rest i wa)))"
proof -
  have i: "i < length (wa_stas wa)" and s: "wa_stas wa ! i = Some (sta wa i)" using assms by (auto simp: has_sta_def sta_def)
  have r: "(\<lambda>s. case s of None \<Rightarrow> 0 | Some sm \<Rightarrow> sta_rank sm) = opt_rank" by (simp add: opt_rank_def fun_eq_iff)
  have m: "map (group_rank n) (map gview gs) = map (group_rank n) gs" for n gs by simp
  show ?thesis
    unfolding wpa_rank_def r rest_rank_def rest_def fst_conv snd_conv m length_list_update
    using sum_list_split [OF i, of opt_rank] sum_list_split [of i "(wa_stas wa)[i := None]" opt_rank] i s
    by (simp add: opt_rank_def)
qed

lemma rank_upd_grp:
  assumes "keeps_id f" "distinct (vlans wa)" "v \<in> set (vlans wa)"
  shows "wpa_rank (upd_grp v f wa) + group_rank (length (wa_stas wa)) (grp wa v) =
    wpa_rank wa + group_rank (length (wa_stas wa)) (f (grp wa v))"
proof -
  have "sum_list (map r (map (\<lambda>g. if vlan_id g = v then f g else g) gs)) + r (the (find_group v gs)) =
      sum_list (map r gs) + r (f (the (find_group v gs)))"
    if "distinct (map vlan_id gs)" "v \<in> set (map vlan_id gs)" for gs and r :: "wpa_group \<Rightarrow> nat"
    using that
  proof (induction gs)
    case (Cons g gs)
    have "\<forall>x\<in>set gs. vlan_id x \<noteq> vlan_id g" using Cons.prems(1) by (simp add: image_iff) metis
    then have "vlan_id g = v \<Longrightarrow> map (\<lambda>g. if vlan_id g = v then f g else g) gs = gs" by (auto intro!: map_idI)
    then show ?case using Cons by (auto simp: algebra_simps simp del: map_map)
  qed simp
  from this [of "wa_group wa" "group_rank (length (wa_stas wa))"] assms(2,3) show ?thesis
    by (simp add: wpa_rank_def upd_grp_def vlans_def grp_def)
qed

text \<open>An authenticator as its operations keep it.\<close>

definition wpa_wf :: "wpa_authenticator \<Rightarrow> bool" where
  "wpa_wf wa \<longleftrightarrow> wa_group wa \<noteq> [] \<and> distinct (vlans wa) \<and>
     (\<forall>i. has_sta wa i \<longrightarrow> sta_ok (sta wa i) \<and> w_group (sta wa i) \<in> set (vlans wa))"

definition same_shape :: "wpa_authenticator \<Rightarrow> wpa_authenticator \<Rightarrow> bool" where
  "same_shape wa wa' \<longleftrightarrow> length (wa_stas wa') = length (wa_stas wa) \<and> vlans wa' = vlans wa \<and> settings wa' = settings wa \<and>
     (\<forall>i. has_sta wa' i = has_sta wa i) \<and>
     (\<forall>i. has_sta wa i \<longrightarrow> in_step_loop (sta wa' i) = in_step_loop (sta wa i) \<and> ident (sta wa' i) = ident (sta wa i))"

lemma same_shape_refl [simp]: "same_shape wa wa"
  by (simp add: same_shape_def)

lemma same_shape_trans: "same_shape a b \<Longrightarrow> same_shape b c \<Longrightarrow> same_shape a c"
  by (simp add: same_shape_def)

lemma rest_others:
  assumes "rest i wa' = rest i wa" "\<And>j. has_sta wa' j = has_sta wa j"
  shows "j \<noteq> i \<Longrightarrow> has_sta wa j \<Longrightarrow> sta wa' j = sta wa j" "vlans wa' = vlans wa" "length (wa_stas wa') = length (wa_stas wa)"
    "wa_group wa' = [] \<longleftrightarrow> wa_group wa = []" "settings wa' = settings wa"
proof -
  have l: "(wa_stas wa')[i := None] = (wa_stas wa)[i := None]" and g: "map gview (wa_group wa') = map gview (wa_group wa)"
    using assms(1) by (simp_all add: rest_def)
  show "settings wa' = settings wa" using assms(1) by (simp add: rest_def settings_def)
  show "length (wa_stas wa') = length (wa_stas wa)" using arg_cong [OF l, of length] by simp
  show "sta wa' j = sta wa j" if "j \<noteq> i" using arg_cong [OF l, of "\<lambda>xs. xs ! j"] that by (simp add: sta_def)
  have "vlan_id \<circ> gview = vlan_id" by (simp add: gview_def fun_eq_iff)
  then show "vlans wa' = vlans wa" using arg_cong [OF g, of "map vlan_id"] by (simp add: vlans_def)
  show "wa_group wa' = [] \<longleftrightarrow> wa_group wa = []" using arg_cong [OF g, of length] by auto
qed

lemma head_group_vlans:
  assumes "wpa_wf wa"
  shows "head_group wa = hd (vlans wa)" "head_group wa \<in> set (vlans wa)"
  using assms hd_map [of "wa_group wa" vlan_id] by (auto simp: wpa_wf_def vlans_def head_group_def)

section \<open>One pass\<close>

lemma upd_sta_wf:
  assumes "wpa_wf wa" "has_sta wa i" "\<And>sm. sta_ok sm \<Longrightarrow> sta_ok (f sm) \<and> w_group (f sm) = w_group sm"
  shows "wpa_wf (upd_sta i f wa)"
  unfolding wpa_wf_def
proof (intro conjI allI impI)
  fix j assume "has_sta (upd_sta i f wa) j"
  then show "sta_ok (sta (upd_sta i f wa) j)" "w_group (sta (upd_sta i f wa) j) \<in> set (vlans (upd_sta i f wa))"
    using assms by (cases "j = i"; simp add: wpa_wf_def)+
qed (use assms in \<open>simp_all add: wpa_wf_def\<close>)

lemma upd_grp_wf:
  assumes "wpa_wf wa" "keeps_id f"
  shows "wpa_wf (upd_grp v f wa)"
proof -
  have "wa_group (upd_grp v f wa) = [] \<longleftrightarrow> wa_group wa = []" by (simp add: upd_grp_def)
  then show ?thesis using assms by (simp add: wpa_wf_def)
qed

lemma wpa_sm_pass_spec:
  assumes "wpa_wf wa" "has_sta wa i"
  shows "\<exists>wa'. wpa_sm_pass E i wa = (False, wa') \<and> wpa_wf wa' \<and> same_shape wa wa' \<and> (\<forall>j. j \<noteq> i \<longrightarrow> has_sta wa j \<longrightarrow> sta wa' j = sta wa j) \<and>
    wpa_rank wa' \<le> wpa_rank wa \<and> (w_changed (sta wa' i) \<longrightarrow> wpa_rank wa' < wpa_rank wa) \<and>
    \<not> g_changed (grp wa' (head_group wa'))"
proof -
  define w0 where "w0 = upd_grp (head_group (upd_sta i (\<lambda>sm. sm\<lparr>w_changed := False\<rparr>) wa)) (\<lambda>g. g\<lparr>g_changed := False\<rparr>)
    (upd_sta i (\<lambda>sm. sm\<lparr>w_changed := False\<rparr>) wa)"
  define w1 where "w1 = sm_WPA_PTK_Step E i w0"
  define w2 where "w2 = sm_WPA_PTK_GROUP_Step E i w1"
  have k: "keeps_id (\<lambda>g. g\<lparr>g_changed := False\<rparr>)" by (rule keeps_idI) simp
  have hd: "head_group wa \<in> set (vlans wa)" using assms(1) by (simp add: wpa_wf_def head_group_def vlans_def)
  have h: "head_group (upd_sta i f wa) = head_group wa" for f by (simp add: head_group_def)
  have h0: "has_sta w0 j = has_sta wa j" "has_sta w1 j = has_sta wa j" "has_sta w2 j = has_sta wa j" for j
    by (simp_all add: w0_def w1_def w2_def)
  have s0: "sta w0 i = (sta wa i)\<lparr>w_changed := False\<rparr>" "j \<noteq> i \<Longrightarrow> sta w0 j = sta wa j" for j
    using assms(2) by (simp_all add: w0_def)
  have ok0: "sta_ok (sta w0 i)" using assms by (simp add: s0 wpa_wf_def sta_ok_def)
  have l1: "lowers (sta w0 i) (sta w1 i)" unfolding w1_def using ok0 assms(2) h0 by (intro ptk_step_lowers) auto
  have l2: "lowers (sta w1 i) (sta w2 i)" unfolding w2_def using l1 assms(2) h0 by (intro ptk_group_step_lowers) (auto simp: lowers_def)
  have l: "lowers (sta w0 i) (sta w2 i)" using l1 l2 by (rule lowers_trans)
  have r: "rest i w2 = rest i w0" by (simp add: w2_def w1_def)
  note o = rest_others [OF r, simplified h0, OF refl]
  have vl0: "vlans w0 = vlans wa" using k by (simp add: w0_def)
  have g0: "\<not> g_changed (grp w0 (head_group wa))"
    using hd by (simp add: w0_def h grp_upd_grp(1) [OF k])
  have gg: "find_group v (map gview gs) = map_option gview (find_group v gs)" for v gs
    by (induction gs) (auto simp: gview_def)
  have gc: "g_changed (grp w2 v) = g_changed (grp w0 v)" if "v \<in> set (vlans wa)" for v
  proof -
    have "map_option gview (find_group v (wa_group w2)) = map_option gview (find_group v (wa_group w0))"
      using r gg by (metis (no_types, lifting) fst_conv snd_conv rest_def)
    moreover have "find_group v (wa_group w0) \<noteq> None" 
      using that vl0 unfolding find_group_some by (metis list.set_map vlans_def)
    ultimately obtain a b where ab: "find_group v (wa_group w2) = Some a" "find_group v (wa_group w0) = Some b" "gview a = gview b"
      by (cases "find_group v (wa_group w2)"; cases "find_group v (wa_group w0)") auto
    then have "g_changed (gview a) = g_changed (gview b)" by simp
    then show ?thesis using ab by (simp add: grp_def gview_def)
  qed
  have head: "head_group w2 = head_group wa"
    using o(2) vl0 assms(1) unfolding head_group_def vlans_def wpa_wf_def by (metis list.map_sel(1) map_is_Nil_conv)
  have rk0: "wpa_rank w0 \<le> wpa_rank wa"
  proof -
    have "wpa_rank w0 = wpa_rank (upd_sta i (\<lambda>sm. sm\<lparr>w_changed := False\<rparr>) wa)"
      using rank_upd_grp [OF k, of "upd_sta i (\<lambda>sm. sm\<lparr>w_changed := False\<rparr>) wa" "head_group wa"] hd assms(1)
      by (simp add: w0_def h wpa_wf_def)
    also have "\<dots> = wpa_rank wa" using assms(2) rank_rest [of "upd_sta i (\<lambda>sm. sm\<lparr>w_changed := False\<rparr>) wa" i]
      rank_rest [of wa i] by (simp add: sta_rank_def)
    finally show ?thesis by simp
  qed
  have rk: "wpa_rank w2 \<le> wpa_rank wa" "w_changed (sta w2 i) \<Longrightarrow> wpa_rank w2 < wpa_rank wa"
    using rk0 l rank_rest [of w2 i] rank_rest [of w0 i] assms(2) h0 r s0 by (auto simp: lowers_def)
  have "\<not> pending_deinit (sta wa i)" "\<not> pending_deinit (sta w1 i)" "\<not> pending_deinit (sta w2 i)"
    using assms l1 l by (auto simp: wpa_wf_def sta_ok_def lowers_def s0)
  then have "wpa_sm_pass E i wa = (False, w2)"
    unfolding wpa_sm_pass_def Let_def w0_def [symmetric] w1_def [symmetric] w2_def [symmetric] by simp
  moreover have sh: "same_shape wa w2"
    unfolding same_shape_def
  proof (intro conjI allI impI)
    fix j assume "has_sta wa j"
    then show "in_step_loop (sta w2 j) = in_step_loop (sta wa j)" "ident (sta w2 j) = ident (sta wa j)"
      using l o(1) s0 by (cases "j = i"; simp add: lowers_def ident_def)+
  qed (use o vl0 h0 in \<open>simp_all add: w0_def\<close>)
  moreover have "wpa_wf w2"
    unfolding wpa_wf_def
  proof (intro conjI allI impI)
    fix j assume j: "has_sta w2 j"
    show "sta_ok (sta w2 j)" using assms(1) j h0 l o(1) s0 by (cases "j = i") (auto simp: lowers_def wpa_wf_def)
    show "w_group (sta w2 j) \<in> set (vlans w2)" using assms(1) j h0 sh by (auto simp: same_shape_def wpa_wf_def ident_def)
  qed (use assms(1) o vl0 in \<open>auto simp: wpa_wf_def w0_def upd_grp_def\<close>)
  ultimately show ?thesis using rk g0 gc [OF hd] head o(1) s0 by auto
qed

section \<open>The group machine\<close>

text \<open>A call of \<^verbatim>\<open>wpa_sm_step\<close> that returns: what the group machine relies on, for ranks below a bound.\<close>

definition steps_return :: "nat \<Rightarrow> (nat \<Rightarrow> wpa_authenticator \<Rightarrow> wpa_authenticator option) \<Rightarrow> bool" where
  "steps_return n st \<longleftrightarrow>
     (\<forall>j wa. wpa_wf wa \<longrightarrow> has_sta wa j \<longrightarrow> wpa_rank wa < n \<longrightarrow>
        (\<exists>wa'. st j wa = Some wa' \<and> wpa_wf wa' \<and> same_shape wa wa' \<and> wpa_rank wa' \<le> wpa_rank wa))"

lemma rank_mark:
  assumes "wpa_wf wa" "has_sta wa j"
  shows "wpa_rank (upd_sta j (\<lambda>sm. sm\<lparr>GUpdateStationKeys := True\<rparr>)
    (upd_grp (w_group (sta wa j)) (\<lambda>g. g\<lparr>GKeyDoneStations := GKeyDoneStations g + 1\<rparr>) wa)) \<le> wpa_rank wa + 30"
    (is "wpa_rank (upd_sta j ?f ?w) \<le> _")
proof -
  have r: "rest j (upd_sta j ?f ?w) = rest j wa" by simp
  have "sta (upd_sta j ?f ?w) j = ?f (sta wa j)" using assms(2) by simp
  moreover have "sta_rank (?f (sta wa j)) \<le> sta_rank (sta wa j) + 30"
    using ptk_group_rank_update(2) [of "wpa_ptk_group_state (sta wa j)" "GTimeoutCtr (sta wa j)" "GUpdateStationKeys (sta wa j)"]
    by (simp add: sta_rank_def)
  ultimately show ?thesis using rank_rest [of "upd_sta j ?f ?w" j] rank_rest [of wa j] r assms(2) by simp
qed

lemma upd_same_shape:
  assumes "\<And>sm. ident (f sm) = ident sm \<and> in_step_loop (f sm) = in_step_loop sm"
  shows "has_sta wa i \<Longrightarrow> same_shape wa (upd_sta i f wa)"
  unfolding same_shape_def
proof (intro conjI allI impI)
  fix j assume "has_sta wa i" "has_sta wa j"
  then show "in_step_loop (sta (upd_sta i f wa) j) = in_step_loop (sta wa j)" "ident (sta (upd_sta i f wa) j) = ident (sta wa j)"
    using assms by (cases "j = i"; simp)+
qed simp_all

lemma upd_grp_same_shape: "keeps_id f \<Longrightarrow> same_shape wa (upd_grp v f wa)"
  by (simp add: same_shape_def)

lemma for_each_sta_returns:
  assumes "steps_return n st"
  shows "wpa_wf wa \<Longrightarrow> wpa_rank wa + 30 * length js < n \<Longrightarrow>
    \<exists>wa'. for_each_sta (wpa_group_update_sta st) js wa = Some wa' \<and> wpa_wf wa' \<and> same_shape wa wa' \<and>
      wpa_rank wa' \<le> wpa_rank wa + 30 * length js"
proof (induction js arbitrary: wa)
  case (Cons j js)
  show ?case
  proof (cases "has_sta wa j")
    case False
    have "wpa_rank wa + 30 * length js < n" using Cons.prems(2) by simp
    from Cons.IH [OF Cons.prems(1) this] obtain w where "for_each_sta (wpa_group_update_sta st) js wa = Some w" "wpa_wf w"
      "same_shape wa w" "wpa_rank w \<le> wpa_rank wa + 30 * length js" by blast
    then show ?thesis using False by (intro exI [of _ w]) simp
  next
    case True
    let ?m = "upd_sta j (\<lambda>sm. sm\<lparr>GUpdateStationKeys := True\<rparr>)
      (upd_grp (w_group (sta wa j)) (\<lambda>g. g\<lparr>GKeyDoneStations := GKeyDoneStations g + 1\<rparr>) wa)"
    have k: "keeps_id (\<lambda>g. g\<lparr>GKeyDoneStations := GKeyDoneStations g + 1\<rparr>)" by (rule keeps_idI) simp
    let ?g = "upd_grp (w_group (sta wa j)) (\<lambda>g. g\<lparr>GKeyDoneStations := GKeyDoneStations g + 1\<rparr>) wa"
    have g: "wpa_wf ?g" "has_sta ?g j" "same_shape wa ?g"
      using upd_grp_wf [OF Cons.prems(1) k] True upd_grp_same_shape [OF k] by simp_all
    have m: "wpa_wf ?m" by (rule upd_sta_wf [OF g(1,2)]) (simp add: sta_ok_def)
    have m2: "same_shape wa ?m" by (rule same_shape_trans [OF g(3) upd_same_shape [OF _ g(2)]]) (simp add: ident_def)
    have m3: "wpa_rank ?m \<le> wpa_rank wa + 30" "has_sta ?m j" using rank_mark [OF Cons.prems(1) True] True by simp_all
    obtain w1 where w1: "wpa_group_update_sta st j wa = Some w1" "wpa_wf w1" "same_shape wa w1" "wpa_rank w1 \<le> wpa_rank wa + 30"
    proof (cases "wpa_ptk_state (sta wa j) = WPA_PTK_PTKINITDONE")
      case False
      then show ?thesis using that [of wa] Cons.prems(1) by (simp add: wpa_group_update_sta_def)
    next
      case init: True
      show ?thesis
      proof (cases "GUpdateStationKeys (sta wa j)")
        case upd: True
        obtain w' where "st j wa = Some w'" "wpa_wf w'" "same_shape wa w'" "wpa_rank w' \<le> wpa_rank wa"
          using assms Cons.prems True unfolding steps_return_def by (metis add_lessD1)
        then show ?thesis using that [of w'] init upd by (simp add: wpa_group_update_sta_def)
      next
        case upd: False
        have "wpa_rank ?m < n" using m3(1) Cons.prems(2) by simp
        then obtain w' where "st j ?m = Some w'" "wpa_wf w'" "same_shape ?m w'" "wpa_rank w' \<le> wpa_rank ?m"
          using assms m m3(2) unfolding steps_return_def by blast
        then show ?thesis using that [of w'] init upd m3(1) same_shape_trans [OF m2] by (simp add: wpa_group_update_sta_def)
      qed
    qed
    have "wpa_rank w1 + 30 * length js < n" using w1(4) Cons.prems(2) by simp
    from Cons.IH [OF w1(2) this] obtain w where "for_each_sta (wpa_group_update_sta st) js w1 = Some w" "wpa_wf w"
      "same_shape w1 w" "wpa_rank w \<le> wpa_rank w1 + 30 * length js" by blast
    then show ?thesis using True w1(1,4) same_shape_trans [OF w1(3)] by (intro exI [of _ w]) simp
  qed
qed simp

lemma gtk_update_fields [simp]:
  "vlan_id (wpa_gtk_update a g) = vlan_id g" "GInit (wpa_gtk_update a g) = GInit g" "GTKReKey (wpa_gtk_update a g) = GTKReKey g"
  "wpa_group_state (wpa_gtk_update a g) = wpa_group_state g" "g_changed (wpa_gtk_update a g) = g_changed g"
  "GKeyDoneStations (wpa_gtk_update a g) = GKeyDoneStations g" "GN (wpa_gtk_update a g) = GN g" "GM (wpa_gtk_update a g) = GM g"
  "GTKAuthenticator (wpa_gtk_update a g) = GTKAuthenticator g"
  by (simp_all add: wpa_gtk_update_def Let_def split: option.split)

text \<open>What the group machine may leave behind: a lower rank, or unchanged stations and no new change of a group.\<close>

definition quiet :: "wpa_authenticator \<Rightarrow> wpa_authenticator \<Rightarrow> bool" where
  "quiet wa wa' \<longleftrightarrow> (\<forall>j. sta wa' j = sta wa j) \<and>
     (\<forall>v\<in>set (vlans wa). g_changed (grp wa' v) \<longrightarrow> g_changed (grp wa v))"

lemma quiet_refl [simp]: "quiet wa wa"
  by (simp add: quiet_def)

lemma gtk_init_quiet:
  assumes "wpa_wf wa" "v \<in> set (vlans wa)" "GInit (grp wa v)"
  shows "wpa_wf (wpa_group_gtk_init v wa)" "same_shape wa (wpa_group_gtk_init v wa)"
    "wpa_rank (wpa_group_gtk_init v wa) = wpa_rank wa" "quiet wa (wpa_group_gtk_init v wa)"
proof -
  let ?f = "\<lambda>g. wpa_gtk_update (wa_addr wa) (g\<lparr>g_changed := False, wpa_group_state := WPA_GROUP_GTK_INIT,
    GTK := replicate 2 (replicate 32 0), GN := 1, GM := 2\<rparr>)"
  have k: "keeps_id ?f" by (rule keeps_idI) simp
  show "wpa_wf (wpa_group_gtk_init v wa)" unfolding wpa_group_gtk_init_def by (rule upd_grp_wf [OF assms(1) k])
  show "same_shape wa (wpa_group_gtk_init v wa)" unfolding wpa_group_gtk_init_def by (rule upd_grp_same_shape [OF k])
  show "wpa_rank (wpa_group_gtk_init v wa) = wpa_rank wa"
    using rank_upd_grp [OF k _ assms(2)] assms(1,3) by (simp add: wpa_group_gtk_init_def wpa_wf_def group_rank_def)
  have "g_changed (grp (upd_grp v ?f wa) w) \<longrightarrow> g_changed (grp wa w)" if "w \<in> set (vlans wa)" for w
    using grp_upd_grp [OF k] assms(2) by (cases "w = v") auto
  then show "quiet wa (wpa_group_gtk_init v wa)" by (simp add: quiet_def wpa_group_gtk_init_def)
qed

lemma setkeysdone_lowers:
  assumes "wpa_wf wa" "v \<in> set (vlans wa)" "\<not> GInit (grp wa v)" "wpa_group_state (grp wa v) \<noteq> WPA_GROUP_SETKEYSDONE"
  shows "wpa_wf (wpa_group_setkeysdone E v wa)" "same_shape wa (wpa_group_setkeysdone E v wa)"
    "wpa_rank (wpa_group_setkeysdone E v wa) < wpa_rank wa"
proof -
  let ?f = "\<lambda>g. g\<lparr>g_changed := True, wpa_group_state := WPA_GROUP_SETKEYSDONE\<rparr>"
  have k: "keeps_id ?f" by (rule keeps_idI) simp
  have log: "wpa_wf (snd (wpa_auth_set_key E a b c d e w)) = wpa_wf w"
    "same_shape wa (snd (wpa_auth_set_key E a b c d e w)) = same_shape wa w"
    "wpa_rank (snd (wpa_auth_set_key E a b c d e w)) = wpa_rank w" for a b c d e w
    by (simp_all add: wpa_auth_set_key_def wpa_wf_def same_shape_def wpa_rank_def)
  show "wpa_wf (wpa_group_setkeysdone E v wa)" unfolding wpa_group_setkeysdone_def Let_def log by (rule upd_grp_wf [OF assms(1) k])
  show "same_shape wa (wpa_group_setkeysdone E v wa)" unfolding wpa_group_setkeysdone_def Let_def log by (rule upd_grp_same_shape [OF k])
  show "wpa_rank (wpa_group_setkeysdone E v wa) < wpa_rank wa"
    unfolding wpa_group_setkeysdone_def Let_def log
    using rank_upd_grp [OF k _ assms(2)] assms(1,3,4) by (simp add: wpa_wf_def group_rank_def)
qed

lemma setkeys_returns:
  assumes "steps_return n st" "wpa_wf wa" "v \<in> set (vlans wa)" "wpa_rank wa \<le> n" "\<not> GInit (grp wa v)" "GTKReKey (grp wa v)"
  shows "\<exists>wa'. wpa_group_setkeys st v wa = Some wa' \<and> wpa_wf wa' \<and> same_shape wa wa' \<and> wpa_rank wa' < wpa_rank wa"
proof -
  let ?f = "\<lambda>g. wpa_gtk_update (wa_addr wa)
    (g\<lparr>g_changed := True, wpa_group_state := WPA_GROUP_SETKEYS, GTKReKey := False, GM := GN g, GN := GM g\<rparr>)"
  have k: "keeps_id ?f" by (rule keeps_idI) simp
  have wf: "wpa_wf (upd_grp v ?f wa)" by (rule upd_grp_wf [OF assms(2) k])
  have sh: "same_shape wa (upd_grp v ?f wa)" by (rule upd_grp_same_shape [OF k])
  have rk: "wpa_rank (upd_grp v ?f wa) + 30 * length (wa_stas wa) < wpa_rank wa"
    using rank_upd_grp [OF k _ assms(3)] assms(2,5,6) by (simp add: wpa_wf_def group_rank_def flag_def split: if_splits)
  have ln: "length (all_stas (upd_grp v ?f wa)) = length (wa_stas wa)" by (simp add: all_stas_def)
  obtain w where "for_each_sta (wpa_group_update_sta st) (all_stas (upd_grp v ?f wa)) (upd_grp v ?f wa) = Some w" "wpa_wf w"
    "same_shape (upd_grp v ?f wa) w" "wpa_rank w \<le> wpa_rank (upd_grp v ?f wa) + 30 * length (wa_stas wa)"
    using for_each_sta_returns [OF assms(1) wf, of "all_stas (upd_grp v ?f wa)"] rk assms(4) ln by auto
  then show ?thesis using rk same_shape_trans [OF sh] by (intro exI [of _ w]) (simp add: wpa_group_setkeys_def Let_def)
qed

lemma group_step_returns:
  assumes "steps_return n st" "wpa_wf wa" "v \<in> set (vlans wa)" "wpa_rank wa \<le> n"
  shows "\<exists>wa'. wpa_group_sm_step E st v wa = Some wa' \<and> wpa_wf wa' \<and> same_shape wa wa' \<and> wpa_rank wa' \<le> wpa_rank wa \<and>
    (wpa_rank wa' < wpa_rank wa \<or> quiet wa wa')"
proof -
  note sk = setkeys_returns [OF assms]
  note kd = setkeysdone_lowers [OF assms(2,3), of E]
  note gi = gtk_init_quiet [OF assms(2,3)]
  show ?thesis
  proof (cases "GInit (grp wa v)")
    case True
    then show ?thesis using gi by (simp add: wpa_group_sm_step_def)
  next
    case False
    show ?thesis
    proof (cases "GTKReKey (grp wa v)")
      case rekey: True
      then obtain w where "wpa_group_setkeys st v wa = Some w" "wpa_wf w" "same_shape wa w" "wpa_rank w < wpa_rank wa"
        using sk False by blast
      then show ?thesis using kd False rekey assms(2)
        by (cases "wpa_group_state (grp wa v)") (auto simp: wpa_group_sm_step_def Let_def)
    next
      case rekey: False
      then show ?thesis using kd False assms(2)
        by (cases "wpa_group_state (grp wa v)") (auto simp: wpa_group_sm_step_def Let_def)
    qed
  qed
qed

section \<open>The loop\<close>

lemma in_loop_shape:
  assumes "wpa_wf wa" "has_sta wa i"
  shows "wpa_wf (upd_sta i (\<lambda>sm. sm\<lparr>in_step_loop := b\<rparr>) wa)" "wpa_rank (upd_sta i (\<lambda>sm. sm\<lparr>in_step_loop := b\<rparr>) wa) = wpa_rank wa"
proof -
  show "wpa_wf (upd_sta i (\<lambda>sm. sm\<lparr>in_step_loop := b\<rparr>) wa)" by (rule upd_sta_wf [OF assms]) (simp add: sta_ok_def)
  show "wpa_rank (upd_sta i (\<lambda>sm. sm\<lparr>in_step_loop := b\<rparr>) wa) = wpa_rank wa"
    using rank_rest [of "upd_sta i (\<lambda>sm. sm\<lparr>in_step_loop := b\<rparr>) wa" i] rank_rest [of wa i] assms(2) by (simp add: sta_rank_def)
qed

definition loop_returns :: "nat \<Rightarrow> wpa_env \<Rightarrow> bool" where
  "loop_returns n E \<longleftrightarrow>
     (\<forall>i wa. wpa_wf wa \<longrightarrow> has_sta wa i \<longrightarrow> wpa_rank wa < n \<longrightarrow>
        (\<exists>wa'. wpa_sm_loop n E i wa = Some wa' \<and> wpa_wf wa' \<and> same_shape wa wa' \<and> wpa_rank wa' \<le> wpa_rank wa))"

lemma guard_returns:
  assumes "loop_returns n E" "wpa_wf wa" "has_sta wa j" "wpa_rank wa < n"
  shows "\<exists>wa'. wpa_sm_guard (wpa_sm_loop n E) j wa = Some (0, wa') \<and> wpa_wf wa' \<and> same_shape wa wa' \<and> wpa_rank wa' \<le> wpa_rank wa"
proof (cases "in_step_loop (sta wa j)")
  case True
  then show ?thesis using assms(2) by (simp add: wpa_sm_guard_def)
next
  case False
  let ?w = "upd_sta j (\<lambda>sm. sm\<lparr>in_step_loop := True\<rparr>) wa"
  obtain w1 where w1: "wpa_sm_loop n E j ?w = Some w1" "wpa_wf w1" "same_shape ?w w1" "wpa_rank w1 \<le> wpa_rank ?w"
    using assms in_loop_shape [OF assms(2,3), of True] unfolding loop_returns_def by fastforce
  let ?r = "upd_sta j (\<lambda>sm. sm\<lparr>in_step_loop := False\<rparr>) w1"
  have h: "has_sta w1 i = has_sta wa i" for i using w1(3) by (simp add: same_shape_def)
  have "\<not> pending_deinit (sta ?r j)" using w1(2) assms(3) h by (simp add: wpa_wf_def sta_ok_def)
  then have "wpa_sm_guard (wpa_sm_loop n E) j wa = Some (0, ?r)" using False w1(1) by (simp add: wpa_sm_guard_def Let_def)
  moreover have "wpa_wf ?r" "wpa_rank ?r \<le> wpa_rank wa"
    using in_loop_shape [OF w1(2), of j False] h assms(3) w1(4) in_loop_shape(2) [OF assms(2,3), of True] by simp_all
  moreover have "same_shape wa ?r"
    unfolding same_shape_def
  proof (intro conjI allI impI)
    fix i assume "has_sta wa i"
    then show "in_step_loop (sta ?r i) = in_step_loop (sta wa i)" "ident (sta ?r i) = ident (sta wa i)"
      using w1(3) False h assms(3) by (cases "i = j"; simp add: same_shape_def ident_def)+
  qed (use w1(3) in \<open>simp_all add: same_shape_def\<close>)
  ultimately show ?thesis by blast
qed

lemma guard_steps_return:
  assumes "loop_returns n E"
  shows "steps_return n (\<lambda>j wa. map_option snd (wpa_sm_guard (wpa_sm_loop n E) j wa))"
  unfolding steps_return_def using guard_returns [OF assms] by fastforce

lemma loop_returns: "loop_returns n E"
proof (induction n)
  case 0
  then show ?case by (simp add: loop_returns_def)
next
  case (Suc n)
  show ?case
    unfolding loop_returns_def
  proof (intro allI impI)
    fix i wa assume wf: "wpa_wf wa" and i: "has_sta wa i" and n: "wpa_rank wa < Suc n"
    obtain w1 where p: "wpa_sm_pass E i wa = (False, w1)" and w1: "wpa_wf w1" "same_shape wa w1" "wpa_rank w1 \<le> wpa_rank wa"
        "w_changed (sta w1 i) \<longrightarrow> wpa_rank w1 < wpa_rank wa" "\<not> g_changed (grp w1 (head_group w1))"
      using wpa_sm_pass_spec [OF wf i, of E] by blast
    have i1: "has_sta w1 i" using w1(2) i by (simp add: same_shape_def)
    then have v: "w_group (sta w1 i) \<in> set (vlans w1)" using w1(1) by (simp add: wpa_wf_def)
    have "wpa_rank w1 \<le> n" using w1(3) n by simp
    from group_step_returns [OF guard_steps_return [OF Suc] w1(1) v this, of E]
    obtain w2 where g: "wpa_group_sm_step E (\<lambda>j wa. map_option snd (wpa_sm_guard (wpa_sm_loop n E) j wa)) (w_group (sta w1 i)) w1 = Some w2"
      and w2: "wpa_wf w2" "same_shape w1 w2" "wpa_rank w2 \<le> wpa_rank w1" "wpa_rank w2 < wpa_rank w1 \<or> quiet w1 w2"
      by blast
    have sh: "same_shape wa w2" by (rule same_shape_trans [OF w1(2) w2(2)])
    show "\<exists>wa'. wpa_sm_loop (Suc n) E i wa = Some wa' \<and> wpa_wf wa' \<and> same_shape wa wa' \<and> wpa_rank wa' \<le> wpa_rank wa"
    proof (cases "w_changed (sta w2 i) \<or> g_changed (grp w2 (head_group w2))")
      case False
      then show ?thesis using p g w2(1,3) sh w1(3) by (intro exI [of _ w2]) simp
    next
      case True
      have hd: "head_group w2 = head_group w1" "head_group w1 \<in> set (vlans w1)"
        using head_group_vlans [OF w1(1)] head_group_vlans [OF w2(1)] w2(2) by (simp_all add: same_shape_def)
      have "wpa_rank w2 < wpa_rank wa"
        using True w2(3,4) w1(3,4,5) hd by (auto simp: quiet_def)
      then have "wpa_rank w2 < n" using n by simp
      moreover have "has_sta w2 i" using sh i by (simp add: same_shape_def)
      ultimately obtain w3 where "wpa_sm_loop n E i w2 = Some w3" "wpa_wf w3" "same_shape w2 w3" "wpa_rank w3 \<le> wpa_rank w2"
        using Suc w2(1) unfolding loop_returns_def by blast
      then show ?thesis using p g True same_shape_trans [OF sh] w2(3) w1(3) by (intro exI [of _ w3]) simp
    qed
  qed
qed

section \<open>The operations\<close>

lemma wpa_sm_step_returns:
  assumes "wpa_wf wa" "has_sta wa i"
  shows "\<exists>wa'. wpa_sm_step E i wa = Some (0, wa') \<and> wpa_wf wa' \<and> same_shape wa wa' \<and> wpa_rank wa' \<le> wpa_rank wa"
  unfolding wpa_sm_step_def by (rule guard_returns [OF loop_returns assms]) simp

lemma sm_steps_return: "steps_return n (\<lambda>j wa. map_option snd (wpa_sm_step E j wa))"
  unfolding steps_return_def using wpa_sm_step_returns by fastforce

lemma group_loop_returns:
  assumes "wpa_wf wa" "v \<in> set (vlans wa)" "wpa_rank wa < n"
  shows "\<exists>wa'. wpa_group_loop n E v wa = Some wa' \<and> wpa_wf wa' \<and> same_shape wa wa' \<and> wpa_rank wa' \<le> wpa_rank wa"
  using assms
proof (induction n arbitrary: wa)
  case (Suc n)
  let ?f = "\<lambda>g. g\<lparr>g_changed := False\<rparr>"
  have k: "keeps_id ?f" by (rule keeps_idI) simp
  let ?w = "upd_grp v ?f wa"
  have w: "wpa_wf ?w" "same_shape wa ?w" "v \<in> set (vlans ?w)" "wpa_rank ?w = wpa_rank wa"
    using upd_grp_wf [OF Suc.prems(1) k] upd_grp_same_shape [OF k] Suc.prems rank_upd_grp [OF k, of wa v] k by (simp_all add: wpa_wf_def)
  from group_step_returns [OF sm_steps_return w(1,3) order_refl, of E E] obtain w2
    where g: "wpa_group_sm_step E (\<lambda>j wa. map_option snd (wpa_sm_step E j wa)) v ?w = Some w2"
      and w2: "wpa_wf w2" "same_shape ?w w2" "wpa_rank w2 \<le> wpa_rank ?w" "wpa_rank w2 < wpa_rank ?w \<or> quiet ?w w2"
    by blast
  have sh: "same_shape wa w2" by (rule same_shape_trans [OF w(2) w2(2)])
  show ?case
  proof (cases "g_changed (grp w2 v)")
    case False
    then show ?thesis using g w2(1,3) sh w(4) by (intro exI [of _ w2]) simp
  next
    case True
    have "\<not> g_changed (grp ?w v)" using grp_upd_grp(1) [OF k Suc.prems(2)] by simp
    then have "wpa_rank w2 < n" using True w2(4) w(3,4) Suc.prems(3) by (auto simp: quiet_def)
    then obtain w3 where "wpa_group_loop n E v w2 = Some w3" "wpa_wf w3" "same_shape w2 w3" "wpa_rank w3 \<le> wpa_rank w2"
      using Suc.IH [OF w2(1)] sh Suc.prems(2) by (auto simp: same_shape_def)
    then show ?thesis using g True same_shape_trans [OF sh] w2(3) w(4) by (intro exI [of _ w3]) simp
  qed
qed simp

lemma rekey_groups_returns:
  "wpa_wf wa \<Longrightarrow> set vs \<subseteq> set (vlans wa) \<Longrightarrow> \<exists>wa'. rekey_groups E vs wa = Some wa' \<and> wpa_wf wa' \<and> same_shape wa wa'"
proof (induction vs arbitrary: wa)
  case (Cons v vs)
  let ?f = "\<lambda>g. g\<lparr>GTKReKey := True\<rparr>"
  have k: "keeps_id ?f" by (rule keeps_idI) simp
  obtain w1 where w1: "wpa_group_loop (Suc (wpa_rank (upd_grp v ?f wa))) E v (upd_grp v ?f wa) = Some w1" "wpa_wf w1"
      "same_shape (upd_grp v ?f wa) w1"
    using group_loop_returns [OF upd_grp_wf [OF Cons.prems(1) k], of v v "Suc (wpa_rank (upd_grp v ?f wa))" E] Cons.prems(2) k
    by (auto simp del: wpa_group_loop.simps)
  have sh: "same_shape wa w1" by (rule same_shape_trans [OF upd_grp_same_shape [OF k] w1(3)])
  then have "set vs \<subseteq> set (vlans w1)" using Cons.prems(2) by (simp add: same_shape_def)
  then obtain w2 where "rekey_groups E vs w1 = Some w2" "wpa_wf w2" "same_shape w1 w2" using Cons.IH [OF w1(2)] by blast
  then show ?case using w1(1) same_shape_trans [OF sh] by (auto simp: Let_def simp del: wpa_group_loop.simps)
qed simp

lemma log_w_wf [simp]: "wpa_wf (log_w c wa) = wpa_wf wa" "same_shape wa (log_w c wa') = same_shape wa wa'"
  by (simp_all add: wpa_wf_def same_shape_def)

lemma wpa_rekey_gtk_returns:
  assumes "wpa_wf wa"
  shows "\<exists>wa'. wpa_rekey_gtk E wa = Some wa' \<and> wpa_wf wa' \<and> same_shape wa wa'"
  using rekey_groups_returns [OF assms, of "vlans wa" E] by (auto simp: wpa_rekey_gtk_def vlans_def)

end
