(* ===== verification/Wpa_Auth_Run.thy ===== *)
theory Wpa_Auth_Run
  imports Wpa_Auth_Term
begin

text \<open>
  Runs of the WPA authenticator: the calls that the rest of hostapd, the event loop and received frames make.  The locale
  \<open>wpa_invariant\<close> reduces an invariant of the step functions, with their nested calls, to one pass and the moves of the
  group machine.
\<close>

section \<open>Invariants of a step\<close>

definition setkeys_move :: "int \<Rightarrow> wpa_authenticator \<Rightarrow> wpa_authenticator" where
  "setkeys_move v wa = upd_grp v (\<lambda>g. wpa_gtk_update (wa_addr wa)
     (g\<lparr>g_changed := True, wpa_group_state := WPA_GROUP_SETKEYS, GTKReKey := False, GM := GN g, GN := GM g\<rparr>)) wa"

definition mark_move :: "nat \<Rightarrow> wpa_authenticator \<Rightarrow> wpa_authenticator" where
  "mark_move j wa = upd_sta j (\<lambda>sm. sm\<lparr>GUpdateStationKeys := True\<rparr>)
     (upd_grp (w_group (sta wa j)) (\<lambda>g. g\<lparr>GKeyDoneStations := GKeyDoneStations g + 1\<rparr>) wa)"

lemma mark_wf:
  assumes "wpa_wf wa" "has_sta wa j"
  shows "wpa_wf (mark_move j wa)" "same_shape wa (mark_move j wa)" "has_sta (mark_move j wa) i = has_sta wa i"
proof -
  have k: "keeps_id (\<lambda>g. g\<lparr>GKeyDoneStations := GKeyDoneStations g + 1\<rparr>)" by (rule keeps_idI) simp
  show "wpa_wf (mark_move j wa)" unfolding mark_move_def
    by (rule upd_sta_wf [OF upd_grp_wf [OF assms(1) k]]) (use assms(2) in \<open>simp_all add: sta_ok_def\<close>)
  show "same_shape wa (mark_move j wa)" unfolding mark_move_def
    by (rule same_shape_trans [OF upd_grp_same_shape [OF k] upd_same_shape]) (use assms(2) in \<open>simp_all add: ident_def\<close>)
  show "has_sta (mark_move j wa) i = has_sta wa i" by (simp add: mark_move_def)
qed

lemma step_flag_shape:
  assumes "same_shape (upd_sta j (\<lambda>sm. sm\<lparr>in_step_loop := True\<rparr>) wa) w1" "\<not> in_step_loop (sta wa j)" "has_sta wa j"
  shows "same_shape wa (upd_sta j (\<lambda>sm. sm\<lparr>in_step_loop := False\<rparr>) w1)"
  unfolding same_shape_def
proof (intro conjI allI impI)
  fix i assume "has_sta wa i"
  then show "in_step_loop (sta (upd_sta j (\<lambda>sm. sm\<lparr>in_step_loop := False\<rparr>) w1) i) = in_step_loop (sta wa i)"
    "ident (sta (upd_sta j (\<lambda>sm. sm\<lparr>in_step_loop := False\<rparr>) w1) i) = ident (sta wa i)"
    using assms by (cases "i = j"; simp add: same_shape_def ident_def)+
qed (use assms in \<open>simp_all add: same_shape_def\<close>)

locale wpa_invariant =
  fixes E :: wpa_env and outer :: "nat set" and L :: "wpa_state_machine \<Rightarrow> bool" and I :: "wpa_authenticator \<Rightarrow> bool"
  assumes outer_looping: "I wa \<Longrightarrow> i \<in> outer \<Longrightarrow> in_step_loop (sta wa i)"
    and loop_leave: "wpa_wf wa \<Longrightarrow> has_sta wa i \<Longrightarrow> in_step_loop (sta wa i) \<Longrightarrow> wpa_sm_loop n E i wa = Some wa' \<Longrightarrow> L (sta wa' i)"
    and pass_inv: "I wa \<Longrightarrow> wpa_wf wa \<Longrightarrow> has_sta wa i \<Longrightarrow> in_step_loop (sta wa i) \<Longrightarrow> i \<notin> outer \<Longrightarrow> I (snd (wpa_sm_pass E i wa))"
    and gtk_init_inv: "I wa \<Longrightarrow> wpa_wf wa \<Longrightarrow> v \<in> set (vlans wa) \<Longrightarrow> I (wpa_group_gtk_init v wa)"
    and setkeysdone_inv: "I wa \<Longrightarrow> wpa_wf wa \<Longrightarrow> v \<in> set (vlans wa) \<Longrightarrow> I (wpa_group_setkeysdone E v wa)"
    and setkeys_inv: "I wa \<Longrightarrow> wpa_wf wa \<Longrightarrow> v \<in> set (vlans wa) \<Longrightarrow> I (setkeys_move v wa)"
    and mark_inv: "I wa \<Longrightarrow> wpa_wf wa \<Longrightarrow> has_sta wa j \<Longrightarrow> wpa_ptk_state (sta wa j) = WPA_PTK_PTKINITDONE \<Longrightarrow>
      \<not> GUpdateStationKeys (sta wa j) \<Longrightarrow> I (mark_move j wa)"
    and enter_inv: "I wa \<Longrightarrow> has_sta wa i \<Longrightarrow> \<not> in_step_loop (sta wa i) \<Longrightarrow> I (upd_sta i (\<lambda>sm. sm\<lparr>in_step_loop := True\<rparr>) wa)"
    and leave_inv: "I wa \<Longrightarrow> has_sta wa i \<Longrightarrow> i \<notin> outer \<Longrightarrow> L (sta wa i) \<Longrightarrow> I (upd_sta i (\<lambda>sm. sm\<lparr>in_step_loop := False\<rparr>) wa)"
    and rekey_inv: "I wa \<Longrightarrow> wpa_wf wa \<Longrightarrow> I (upd_grp v (\<lambda>g. g\<lparr>GTKReKey := True\<rparr>) wa)"
    and changed_inv: "I wa \<Longrightarrow> wpa_wf wa \<Longrightarrow> I (upd_grp v (\<lambda>g. g\<lparr>g_changed := False\<rparr>) wa)"
    and log_inv: "I wa \<Longrightarrow> I (log_w (W_register_timeout s us T_rekey_gtk) wa)"
begin

definition steps_inv :: "(nat \<Rightarrow> wpa_authenticator \<Rightarrow> wpa_authenticator option) \<Rightarrow> bool" where
  "steps_inv st \<longleftrightarrow> (\<forall>j wa wa'. I wa \<longrightarrow> wpa_wf wa \<longrightarrow> has_sta wa j \<longrightarrow> st j wa = Some wa' \<longrightarrow> I wa' \<and> wpa_wf wa' \<and> same_shape wa wa')"

lemma steps_invD:
  "steps_inv st \<Longrightarrow> I wa \<Longrightarrow> wpa_wf wa \<Longrightarrow> has_sta wa j \<Longrightarrow> st j wa = Some wa' \<Longrightarrow> I wa' \<and> wpa_wf wa' \<and> same_shape wa wa'"
  unfolding steps_inv_def by blast

lemma for_each_inv:
  assumes "steps_inv st"
  shows "I wa \<Longrightarrow> wpa_wf wa \<Longrightarrow> for_each_sta (wpa_group_update_sta st) js wa = Some wa' \<Longrightarrow> I wa' \<and> wpa_wf wa' \<and> same_shape wa wa'"
proof (induction js arbitrary: wa)
  case (Cons j js)
  show ?case
  proof (cases "has_sta wa j")
    case False
    then show ?thesis using Cons by simp
  next
    case True
    then obtain w1 where w1: "wpa_group_update_sta st j wa = Some w1" "for_each_sta (wpa_group_update_sta st) js w1 = Some wa'"
      using Cons.prems(3) by (auto split: option.splits)
    have "I w1 \<and> wpa_wf w1 \<and> same_shape wa w1"
    proof (cases "wpa_ptk_state (sta wa j) = WPA_PTK_PTKINITDONE \<and> \<not> GUpdateStationKeys (sta wa j)")
      case True
      then have "st j (mark_move j wa) = Some w1" using w1(1) by (simp add: wpa_group_update_sta_def mark_move_def)
      note m = mark_wf [OF Cons.prems(2) \<open>has_sta wa j\<close>]
      have "I (mark_move j wa)" by (rule mark_inv [OF Cons.prems(1,2) \<open>has_sta wa j\<close>]) (use True in auto)
      from steps_invD [OF assms this m(1) _ \<open>st j (mark_move j wa) = Some w1\<close>] \<open>has_sta wa j\<close> m(3)
      show ?thesis using same_shape_trans [OF m(2)] by simp
    next
      case False
      then have "w1 = wa \<or> st j wa = Some w1" using w1(1) by (auto simp: wpa_group_update_sta_def split: if_splits)
      then show ?thesis using steps_invD [OF assms Cons.prems(1,2) \<open>has_sta wa j\<close>] Cons.prems(1,2) by auto
    qed
    then show ?thesis using Cons.IH [of w1] w1(2) same_shape_trans [of wa w1] by blast
  qed
qed simp

lemma group_step_inv:
  assumes "steps_inv st" "I wa" "wpa_wf wa" "v \<in> set (vlans wa)" "wpa_group_sm_step E st v wa = Some wa'"
  shows "I wa' \<and> wpa_wf wa' \<and> same_shape wa wa'"
proof -
  have k: "keeps_id (\<lambda>g. wpa_gtk_update (wa_addr wa)
     (g\<lparr>g_changed := True, wpa_group_state := WPA_GROUP_SETKEYS, GTKReKey := False, GM := GN g, GN := GM g\<rparr>))"
    by (rule keeps_idI) simp
  have m: "wpa_wf (setkeys_move v wa)" "same_shape wa (setkeys_move v wa)"
    unfolding setkeys_move_def using upd_grp_wf [OF assms(3) k] upd_grp_same_shape [OF k] by simp_all
  have sk: "wpa_group_setkeys st v wa = Some wa' \<Longrightarrow> I wa' \<and> wpa_wf wa' \<and> same_shape wa wa'"
    using for_each_inv [OF assms(1) setkeys_inv [OF assms(2-4)] m(1)] same_shape_trans [OF m(2)]
    unfolding wpa_group_setkeys_def Let_def setkeys_move_def [symmetric] by blast
  note kd = setkeysdone_lowers(1,2) [OF assms(3,4), of E] setkeysdone_inv [OF assms(2-4)]
  note gi = gtk_init_quiet(1,2) [OF assms(3,4)] gtk_init_inv [OF assms(2-4)]
  show ?thesis using assms(5) sk kd gi assms(2,3)
    by (cases "wpa_group_state (grp wa v)") (auto simp: wpa_group_sm_step_def Let_def split: if_splits)
qed

definition loop_inv :: "nat \<Rightarrow> bool" where
  "loop_inv n \<longleftrightarrow> (\<forall>i wa wa'. I wa \<longrightarrow> wpa_wf wa \<longrightarrow> has_sta wa i \<longrightarrow> i \<notin> outer \<longrightarrow> in_step_loop (sta wa i) \<longrightarrow>
     wpa_sm_loop n E i wa = Some wa' \<longrightarrow>
     I wa' \<and> wpa_wf wa' \<and> same_shape wa wa')"

lemma loop_invD:
  "loop_inv n \<Longrightarrow> I wa \<Longrightarrow> wpa_wf wa \<Longrightarrow> has_sta wa i \<Longrightarrow> i \<notin> outer \<Longrightarrow> in_step_loop (sta wa i) \<Longrightarrow>
   wpa_sm_loop n E i wa = Some wa' \<Longrightarrow> I wa' \<and> wpa_wf wa' \<and> same_shape wa wa'"
  unfolding loop_inv_def by blast

lemma guard_enter:
  assumes "loop_inv n" and I: "I (upd_sta j (\<lambda>sm. sm\<lparr>in_step_loop := True\<rparr>) wa)" and wf: "wpa_wf wa" and j: "has_sta wa j"
    and il: "\<not> in_step_loop (sta wa j)" and out: "j \<notin> outer"
    and st: "map_option snd (wpa_sm_guard (wpa_sm_loop n E) j wa) = Some wa'"
  shows "I wa' \<and> wpa_wf wa' \<and> same_shape wa wa'"
proof -
  let ?w = "upd_sta j (\<lambda>sm. sm\<lparr>in_step_loop := True\<rparr>) wa"
  obtain w1 where l: "wpa_sm_loop n E j ?w = Some w1"
    using st il by (auto simp: wpa_sm_guard_def split: option.splits)
  have w1: "I w1" "wpa_wf w1" "same_shape ?w w1"
    using loop_invD [OF assms(1) I in_loop_shape(1) [OF wf j] _ out _ l] j by simp_all
  have h: "has_sta w1 j" using w1(3) j by (simp add: same_shape_def)
  have L: "L (sta w1 j)" using loop_leave [OF in_loop_shape(1) [OF wf j] _ _ l] j by simp
  have e: "wa' = upd_sta j (\<lambda>sm. sm\<lparr>in_step_loop := False\<rparr>) w1"
    using st il l w1(2) h by (auto simp: wpa_sm_guard_def Let_def wpa_wf_def sta_ok_def split: if_splits)
  show ?thesis unfolding e
    using leave_inv [OF w1(1) h out L] in_loop_shape(1) [OF w1(2) h] step_flag_shape [OF w1(3) il j] by simp
qed

lemma guard_inv:
  assumes "loop_inv n"
  shows "steps_inv (\<lambda>j wa. map_option snd (wpa_sm_guard (wpa_sm_loop n E) j wa))"
  unfolding steps_inv_def
proof (intro allI impI)
  fix j wa wa'
  assume I: "I wa" and wf: "wpa_wf wa" and j: "has_sta wa j"
    and st: "map_option snd (wpa_sm_guard (wpa_sm_loop n E) j wa) = Some wa'"
  show "I wa' \<and> wpa_wf wa' \<and> same_shape wa wa'"
  proof (cases "in_step_loop (sta wa j)")
    case True
    then show ?thesis using st I wf by (simp add: wpa_sm_guard_def)
  next
    case False
    then have "j \<notin> outer" using outer_looping [OF I] by blast
    then show ?thesis using guard_enter [OF assms enter_inv [OF I j False] wf j False _ st] by blast
  qed
qed

lemma loop_keeps: "loop_inv n"
proof (induction n)
  case (Suc n)
  show ?case
    unfolding loop_inv_def
  proof (intro allI impI)
    fix i wa wa'
    assume I: "I wa" and wf: "wpa_wf wa" and i: "has_sta wa i" and out: "i \<notin> outer"
      and il: "in_step_loop (sta wa i)" and l: "wpa_sm_loop (Suc n) E i wa = Some wa'"
    obtain w1 where p: "wpa_sm_pass E i wa = (False, w1)" and w1: "wpa_wf w1" "same_shape wa w1"
      using wpa_sm_pass_spec [OF wf i, of E] by blast
    have I1: "I w1" using pass_inv [OF I wf i il out] p by simp
    have i1: "has_sta w1 i" using w1(2) i by (simp add: same_shape_def)
    then have v: "w_group (sta w1 i) \<in> set (vlans w1)" using w1(1) by (simp add: wpa_wf_def)
    obtain w2 where g: "wpa_group_sm_step E (\<lambda>j wa. map_option snd (wpa_sm_guard (wpa_sm_loop n E) j wa)) (w_group (sta w1 i)) w1 = Some w2"
      and r: "wa' = w2 \<or> wpa_sm_loop n E i w2 = Some wa'"
      using l p by (auto split: option.splits if_splits)
    have w2: "I w2" "wpa_wf w2" "same_shape wa w2"
      using group_step_inv [OF guard_inv [OF Suc] I1 w1(1) v g] same_shape_trans [OF w1(2)] by blast+
    then have "has_sta w2 i" "in_step_loop (sta w2 i)" using i il by (simp_all add: same_shape_def)
    then show "I wa' \<and> wpa_wf wa' \<and> same_shape wa wa'"
      using r w2 loop_invD [OF Suc w2(1,2) _ out, of wa'] same_shape_trans [OF w2(3)] by blast
  qed
qed (simp add: loop_inv_def)

lemma step_inv:
  assumes "I wa" "wpa_wf wa" "has_sta wa i" "wpa_sm_step E i wa = Some (r, wa')"
  shows "I wa'"
  using steps_invD [OF guard_inv [OF loop_keeps] assms(1-3), of "Suc (wpa_rank wa)" wa'] assms(4) by (simp add: wpa_sm_step_def)

lemma step_enter:
  assumes "I (upd_sta i (\<lambda>sm. sm\<lparr>in_step_loop := True\<rparr>) wa)" "wpa_wf wa" "has_sta wa i" "\<not> in_step_loop (sta wa i)" "i \<notin> outer"
    "map_option snd (wpa_sm_step E i wa) = Some wa'"
  shows "I wa'"
  using guard_enter [OF loop_keeps assms(1-5), of "Suc (wpa_rank wa)"] assms(6) by (simp add: wpa_sm_step_def)

lemma sm_steps_inv: "steps_inv (\<lambda>j wa. map_option snd (wpa_sm_step E j wa))"
  using guard_inv [OF loop_keeps] unfolding steps_inv_def wpa_sm_step_def by blast

lemma group_loop_inv:
  "I wa \<Longrightarrow> wpa_wf wa \<Longrightarrow> v \<in> set (vlans wa) \<Longrightarrow> wpa_group_loop n E v wa = Some wa' \<Longrightarrow> I wa' \<and> wpa_wf wa' \<and> same_shape wa wa'"
proof (induction n arbitrary: wa)
  case (Suc n)
  let ?w = "upd_grp v (\<lambda>g. g\<lparr>g_changed := False\<rparr>) wa"
  have k: "keeps_id (\<lambda>g. g\<lparr>g_changed := False\<rparr>)" by (rule keeps_idI) simp
  have w: "I ?w" "wpa_wf ?w" "same_shape wa ?w" "v \<in> set (vlans ?w)"
    using changed_inv [OF Suc.prems(1,2)] upd_grp_wf [OF Suc.prems(2) k] upd_grp_same_shape [OF k] Suc.prems(3) k by simp_all
  obtain w2 where g: "wpa_group_sm_step E (\<lambda>j wa. map_option snd (wpa_sm_step E j wa)) v ?w = Some w2"
    and r: "wa' = w2 \<or> wpa_group_loop n E v w2 = Some wa'"
    using Suc.prems(4) by (auto split: option.splits if_splits)
  have w2: "I w2" "wpa_wf w2" "same_shape wa w2"
    using group_step_inv [OF sm_steps_inv w(1,2,4) g] same_shape_trans [OF w(3)] by blast+
  then have "v \<in> set (vlans w2)" using Suc.prems(3) by (simp add: same_shape_def)
  then show ?case using r w2 Suc.IH [of w2] same_shape_trans [OF w2(3)] by blast
qed simp

lemma rekey_groups_inv:
  "I wa \<Longrightarrow> wpa_wf wa \<Longrightarrow> set vs \<subseteq> set (vlans wa) \<Longrightarrow> rekey_groups E vs wa = Some wa' \<Longrightarrow> I wa'"
proof (induction vs arbitrary: wa)
  case (Cons v vs)
  let ?w = "upd_grp v (\<lambda>g. g\<lparr>GTKReKey := True\<rparr>) wa"
  have k: "keeps_id (\<lambda>g. g\<lparr>GTKReKey := True\<rparr>)" by (rule keeps_idI) simp
  have w: "I ?w" "wpa_wf ?w" "set (v # vs) \<subseteq> set (vlans ?w)"
    using rekey_inv [OF Cons.prems(1,2)] upd_grp_wf [OF Cons.prems(2) k] Cons.prems(3) k by simp_all
  obtain w1 where w1: "wpa_group_loop (Suc (wpa_rank ?w)) E v ?w = Some w1" "rekey_groups E vs w1 = Some wa'"
    using Cons.prems(4) by (auto simp: Let_def simp del: wpa_group_loop.simps split: option.splits)
  have "I w1 \<and> wpa_wf w1 \<and> same_shape ?w w1" by (rule group_loop_inv [OF w(1,2) _ w1(1)]) (use w(3) in simp)
  then show ?case using Cons.IH [of w1] w1(2) w(3) by (simp add: same_shape_def)
qed simp

lemma rekey_gtk_inv:
  assumes "I wa" "wpa_wf wa" "wpa_rekey_gtk E wa = Some wa'"
  shows "I wa'"
  using assms(3) rekey_groups_inv [OF assms(1,2), of "vlans wa"] log_inv
  by (auto simp: wpa_rekey_gtk_def vlans_def split: option.splits)

lemma restart_inv:
  assumes "I wa" "wpa_wf wa" "v \<in> set (vlans wa)" "wpa_group_restart E v wa = Some wa'"
    and ginit: "\<And>b wa. I wa \<Longrightarrow> I (upd_grp v (\<lambda>g. g\<lparr>GInit := b\<rparr>) wa)"
  shows "I wa'"
proof -
  let ?g = "\<lambda>b. upd_grp v (\<lambda>g. g\<lparr>GInit := b\<rparr>)"
  have k: "keeps_id (\<lambda>g. g\<lparr>GInit := b\<rparr>)" for b by (rule keeps_idI) simp
  have w: "I (?g b w)" "wpa_wf (?g b w)" "v \<in> set (vlans (?g b w))" if "I w" "wpa_wf w" "v \<in> set (vlans w)" for b w
    using that ginit upd_grp_wf [OF that(2) k] k by simp_all
  obtain w1 where w1: "wpa_group_sm_step E (\<lambda>j wa. map_option snd (wpa_sm_step E j wa)) v (?g True wa) = Some w1"
      "wpa_group_sm_step E (\<lambda>j wa. map_option snd (wpa_sm_step E j wa)) v (?g False w1) = Some wa'"
    using assms(4) by (auto simp: wpa_group_restart_def Let_def split: option.splits)
  have i1: "I w1" "wpa_wf w1" "v \<in> set (vlans w1)"
    using group_step_inv [OF sm_steps_inv w [OF assms(1-3)] w1(1)] w(3) [OF assms(1-3), of True] by (simp_all add: same_shape_def)
  show ?thesis using group_step_inv [OF sm_steps_inv w [OF i1] w1(2)] by blast
qed

end

section \<open>A station at rest\<close>

text \<open>A received pairwise key frame that is not a request and that the machine has not taken up yet.\<close>

definition armed :: "wpa_state_machine \<Rightarrow> bool" where
  "armed sm \<longleftrightarrow> EAPOLKeyReceived sm \<and> \<not> EAPOLKeyRequest sm \<and> EAPOLKeyPairwise sm"

text \<open>What holds of a machine when the loop of \<^verbatim>\<open>wpa_sm_step\<close> is left.\<close>

definition idle :: "wpa_state_machine \<Rightarrow> bool" where
  "idle sm \<longleftrightarrow> (if Init sm then wpa_ptk_state sm = WPA_PTK_INITIALIZE
     else \<not> Disconnect sm \<and> \<not> DeauthenticationRequest sm \<and> \<not> AuthenticationRequest sm \<and> \<not> ReAuthenticationRequest sm \<and>
       \<not> PTKRequest sm \<and>
       (case wpa_ptk_state sm of
          WPA_PTK_PTKSTART \<Rightarrow> \<not> armed sm \<and> \<not> TimeoutEvt sm
        | WPA_PTK_PTKCALCNEGOTIATING \<Rightarrow> \<not> armed sm \<and> \<not> MICVerified sm \<and> \<not> TimeoutEvt sm
        | WPA_PTK_PTKINITNEGOTIATING \<Rightarrow> \<not> (armed sm \<and> MICVerified sm) \<and> \<not> TimeoutEvt sm
        | s \<Rightarrow> s \<in> {WPA_PTK_INITIALIZE, WPA_PTK_AUTHENTICATION2, WPA_PTK_PTKINITDONE}))"

lemma changed_sent: "sent a b \<Longrightarrow> w_changed b = w_changed a"
  by (auto simp: sent_def)

lemma initdone_changed: "w_changed (initdone p s sm)"
  by (simp add: initdone_def Let_def)

lemma ptk_step_quiet:
  assumes "has_sta wa i" "\<not> w_changed (sta (sm_WPA_PTK_Step E i wa) i)"
  shows "idle (sta (sm_WPA_PTK_Step E i wa) i)"
proof -
  define sm where "sm = sta wa i"
  note e = ptk_enter_sta [OF assms(1), folded sm_def]
  have ch: "w_changed (sta (sm_WPA_PTK_DISCONNECT_Enter i wa) i)" "w_changed (sta (handshake_failure i wa) i)"
    "w_changed (sta (sm_WPA_PTK_DISCONNECTED_Enter i wa) i)" "w_changed (sta (sm_WPA_PTK_AUTHENTICATION_Enter i wa) i)"
    "w_changed (sta (sm_WPA_PTK_AUTHENTICATION2_Enter i wa) i)" "w_changed (sta (sm_WPA_PTK_INITPMK_Enter E i wa) i)"
    "w_changed (sta (sm_WPA_PTK_INITPSK_Enter E i wa) i)" "w_changed (sta (sm_WPA_PTK_PTKCALCNEGOTIATING_Enter E i wa) i)"
    "w_changed (sta (sm_WPA_PTK_PTKCALCNEGOTIATING2_Enter i wa) i)"
    unfolding e by (simp_all add: Let_def split: option.split)
  have ini: "sta (sm_WPA_PTK_INITIALIZE_Enter E i wa) i = sm\<lparr>w_changed := \<not> Init sm, wpa_ptk_state := WPA_PTK_INITIALIZE, keycount := 0, GUpdateStationKeys := False,
      PInitAKeys := (if w_wpa sm = WPA_VERSION_WPA then False else PInitAKeys sm), w_Pair := True,
      PTK_valid := False, PTK := wpa_ptk_zero, pairwise_set := False, TimeoutCtr := 0\<rparr>"
    using initialize_sta [OF assms(1)] by (simp add: sm_def)
  have ch': "w_changed (sta (sm_WPA_PTK_PTKSTART_Enter E i wa) i)" "w_changed (sta (sm_WPA_PTK_PTKINITNEGOTIATING_Enter E i wa) i)"
    "w_changed (sta (sm_WPA_PTK_PTKINITDONE_Enter E i wa) i)"
    using changed_sent [OF ptkstart_sta [OF assms(1)]] changed_sent [OF ptkinitneg_sta [OF assms(1)]]
      ptkinitdone_sta [OF assms(1), of E] initdone_changed by auto
  have P: "w_changed (sta (sm_WPA_PTK_Step E i wa) i) \<or> idle (sta (sm_WPA_PTK_Step E i wa) i)"
    unfolding sm_WPA_PTK_Step_def Let_def sm_def [symmetric]
    by (cases "wpa_ptk_state sm") (simp_all add: ch ch' ini idle_def armed_def sm_def [symmetric])
  then show ?thesis using assms(2) by blast
qed

lemma group_step_quiet:
  assumes "has_sta wa i" "\<not> w_changed (sta (sm_WPA_PTK_GROUP_Step E i wa) i)" "Init (sta wa i) \<longrightarrow> \<not> w_changed (sta wa i)"
  shows "\<not> w_changed (sta wa i) \<and> (idle (sta wa i) \<longrightarrow> idle (sta (sm_WPA_PTK_GROUP_Step E i wa) i))"
proof -
  define sm where "sm = sta wa i"
  note e = group_idle_sta [OF assms(1), folded sm_def] group_done_sta [OF assms(1), folded sm_def]
  have ch: "w_changed (sta (sm_WPA_PTK_GROUP_REKEYNEGOTIATING_Enter E i wa) i)"
    using changed_sent [OF group_rekey_sta [OF assms(1)]] by (simp add: Let_def)
  have id: "idle (s\<lparr>w_changed := c, wpa_ptk_group_state := g, GTimeoutCtr := 0, PtkGroupInit := False\<rparr>) = idle s" for s c g
    by (simp add: idle_def armed_def cong: wpa_ptk_states.case_cong)
  have ini: "sta (upd_sta i (\<lambda>sm. sm\<lparr>PtkGroupInit := False\<rparr>) (sm_WPA_PTK_GROUP_IDLE_Enter i wa)) i =
      sm\<lparr>w_changed := \<not> Init sm, wpa_ptk_group_state := WPA_PTK_GROUP_IDLE, GTimeoutCtr := 0, PtkGroupInit := False\<rparr>"
    using assms(1) by (simp add: e(1))
  have P: "w_changed (sta (sm_WPA_PTK_GROUP_Step E i wa) i) \<or> \<not> w_changed sm \<and> (idle sm \<longrightarrow> idle (sta (sm_WPA_PTK_GROUP_Step E i wa) i))"
    using assms(3) unfolding sm_WPA_PTK_GROUP_Step_def Let_def sm_def [symmetric]
    by (cases "wpa_ptk_group_state sm"; cases "Init sm") (simp_all add: ch ini id e sm_def [symmetric])
  then show ?thesis using assms(2) unfolding sm_def by blast
qed

lemma pass_idle:
  assumes "wpa_wf wa" "has_sta wa i" "wpa_sm_pass E i wa = (False, w)" "\<not> w_changed (sta w i)"
  shows "idle (sta w i)"
proof -
  define w0 where "w0 = upd_grp (head_group (upd_sta i (\<lambda>sm. sm\<lparr>w_changed := False\<rparr>) wa)) (\<lambda>g. g\<lparr>g_changed := False\<rparr>)
    (upd_sta i (\<lambda>sm. sm\<lparr>w_changed := False\<rparr>) wa)"
  define w1 where "w1 = sm_WPA_PTK_Step E i w0"
  have h: "has_sta w0 i" "has_sta w1 i" using assms(2) by (simp_all add: w0_def w1_def)
  have w: "w = sm_WPA_PTK_GROUP_Step E i w1"
    using assms(3) unfolding wpa_sm_pass_def Let_def w0_def [symmetric] w1_def [symmetric] by (auto split: if_splits)
  have ok: "sta_ok (sta w0 i)" using assms(1,2) by (simp add: w0_def wpa_wf_def sta_ok_def)
  have "Init (sta w1 i) = Init (sta w0 i)" using ptk_step_lowers [OF h(1) ok] by (simp add: w1_def lowers_def)
  then have "Init (sta w1 i) \<longrightarrow> \<not> w_changed (sta w1 i)"
    using initialize_sta [OF h(1)] by (auto simp: w1_def sm_WPA_PTK_Step_def Let_def)
  from group_step_quiet [OF h(2) assms(4) [unfolded w] this] show ?thesis
    using ptk_step_quiet [OF h(1), of E] by (simp add: w w1_def)
qed

text \<open>A station in its loop is left alone by the steps that start in its loop, but for the mark of a pending group key.\<close>

definition unmarked :: "wpa_state_machine \<Rightarrow> wpa_state_machine" where
  "unmarked sm = sm\<lparr>GUpdateStationKeys := False\<rparr>"

definition held :: "nat \<Rightarrow> wpa_state_machine \<Rightarrow> wpa_authenticator \<Rightarrow> bool" where
  "held i sm wa \<longleftrightarrow> has_sta wa i \<and> in_step_loop (sta wa i) \<and> unmarked (sta wa i) = sm"

lemma unmarked_idle: "idle (unmarked sm) = idle sm" "w_changed (unmarked sm) = w_changed sm"
  by (simp_all add: idle_def armed_def unmarked_def cong: wpa_ptk_states.case_cong)

lemma held_upd [simp]:
  "held i sm (upd_grp v f wa) = held i sm wa" "held i sm (log_w c wa) = held i sm wa"
  "j \<noteq> i \<Longrightarrow> held i sm (upd_sta j g wa) = held i sm wa"
  by (simp_all add: held_def)

lemma pass_others:
  assumes "wpa_wf wa" "has_sta wa i" "j \<noteq> i" "has_sta wa j"
  shows "sta (snd (wpa_sm_pass E i wa)) j = sta wa j" "has_sta (snd (wpa_sm_pass E i wa)) j"
  using wpa_sm_pass_spec [OF assms(1,2), of E] assms(3,4) by (auto simp: same_shape_def)

interpretation hold: wpa_invariant E "{i}" "\<lambda>_. True" "held i sm" for E i sm
proof
  fix wa j
  show "held i sm wa \<Longrightarrow> wpa_wf wa \<Longrightarrow> has_sta wa j \<Longrightarrow> in_step_loop (sta wa j) \<Longrightarrow> j \<notin> {i} \<Longrightarrow> held i sm (snd (wpa_sm_pass E j wa))"
    using pass_others [of wa j i E] by (simp add: held_def)
  show "held i sm wa \<Longrightarrow> has_sta wa j \<Longrightarrow> \<not> in_step_loop (sta wa j) \<Longrightarrow> held i sm (upd_sta j (\<lambda>sm. sm\<lparr>in_step_loop := True\<rparr>) wa)"
    by (cases "j = i") (auto simp: held_def)
  show "held i sm wa \<Longrightarrow> held i sm (mark_move j wa)" if "has_sta wa j"
    using that by (cases "j = i") (simp_all add: mark_move_def held_def unmarked_def)
qed (simp_all add: held_def wpa_group_gtk_init_def wpa_group_setkeysdone_def setkeys_move_def Let_def)

lemma loop_idle:
  "wpa_wf wa \<Longrightarrow> has_sta wa i \<Longrightarrow> in_step_loop (sta wa i) \<Longrightarrow> wpa_sm_loop n E i wa = Some wa' \<Longrightarrow> idle (sta wa' i)"
proof (induction n arbitrary: wa)
  case (Suc n)
  obtain w1 where p: "wpa_sm_pass E i wa = (False, w1)" and w1: "wpa_wf w1" "same_shape wa w1"
    using wpa_sm_pass_spec [OF Suc.prems(1,2), of E] by blast
  have i1: "has_sta w1 i" "in_step_loop (sta w1 i)" using w1(2) Suc.prems(2,3) by (simp_all add: same_shape_def)
  then have v: "w_group (sta w1 i) \<in> set (vlans w1)" using w1(1) by (simp add: wpa_wf_def)
  obtain w2 where g: "wpa_group_sm_step E (\<lambda>j wa. map_option snd (wpa_sm_guard (wpa_sm_loop n E) j wa)) (w_group (sta w1 i)) w1 = Some w2"
    and r: "wa' = w2 \<and> \<not> w_changed (sta w2 i) \<or> wpa_sm_loop n E i w2 = Some wa'"
    using Suc.prems(4) p by (auto split: option.splits if_splits)
  have "held i (unmarked (sta w1 i)) w1" using i1 by (simp add: held_def)
  then have w2: "held i (unmarked (sta w1 i)) w2" "wpa_wf w2"
    using hold.group_step_inv [OF hold.guard_inv [OF hold.loop_keeps] _ w1(1) v g] by blast+
  have same: "idle (sta w2 i) = idle (sta w1 i)" "w_changed (sta w2 i) = w_changed (sta w1 i)"
    using w2(1) unmarked_idle [of "sta w2 i"] unmarked_idle [of "sta w1 i"] by (simp_all add: held_def)
  from r show ?case
  proof
    assume "wa' = w2 \<and> \<not> w_changed (sta w2 i)"
    then show ?thesis using same pass_idle [OF Suc.prems(1,2) p] by simp
  next
    assume "wpa_sm_loop n E i w2 = Some wa'"
    then show ?thesis using Suc.IH [of w2] w2 by (simp add: held_def)
  qed
qed simp

end
