(* ===== verification/Wpa_Auth_System.thy ===== *)
theory Wpa_Auth_System
  imports Wpa_Auth_Run
begin

text \<open>
  The WPA authenticator as hostapd drives it: the entry points of \<^verbatim>\<open>src/ap/wpa_auth.c\<close> as inputs, runs of inputs, and
  that every run returns and keeps the data structures well formed.
\<close>

section \<open>Inputs\<close>

text \<open>The calls from the rest of hostapd, received frames and the timeouts of the event loop.  The arguments that are not
  parameters of the C functions are what the environment supplies: results of allocations, random numbers and the time.\<close>

datatype wpa_input =
  In_sta_init bytes
| In_validate nat bool bytes
| In_associated nat
| In_no_wpa nat
| In_event wpa_event nat
| In_notify nat
| In_receive nat bytes
| In_deinit nat
| In_set_vlan "(bytes \<times> bytes) option" "u32 \<times> u32" bytes nat int
| In_local_mic_failure nat
| In_countermeasures
| In_gtk_rekey
| In_timeout "bytes option" wpa_timeout
| In_pmksa_add int bool bool nat bytes int int
| In_pmksa_add_preauth int bool bool bytes bytes int int
| In_pmksa_expire int
| In_clear_pmksa nat "nat option"

text \<open>The event loop calls a handler that has been registered and not cancelled since.\<close>

fun timer_pending :: "wpa_timeout \<Rightarrow> wpa_call list \<Rightarrow> bool" where
  "timer_pending t [] = False"
| "timer_pending t (c # cs) =
     (case c of
        W_register_timeout _ _ t' \<Rightarrow> t' = t \<or> timer_pending t cs
      | W_cancel_timeout t' \<Rightarrow> t' \<noteq> t \<and> timer_pending t cs
      | _ \<Rightarrow> timer_pending t cs)"

definition wpa_timer :: "wpa_env \<Rightarrow> bytes option \<Rightarrow> wpa_timeout \<Rightarrow> wpa_authenticator \<Rightarrow> wpa_authenticator option" where
  "wpa_timer E random t wa =
     (case t of
        T_rekey_gmk \<Rightarrow> Some (wpa_rekey_gmk random wa)
      | T_rekey_gtk \<Rightarrow> wpa_rekey_gtk E wa
      | T_rekey_ptk i \<Rightarrow> if has_sta wa i then wpa_rekey_ptk E i wa else Some wa
      | T_send_eapol i \<Rightarrow> if has_sta wa i then wpa_send_eapol_timeout E i wa else Some wa
      | T_call_step i \<Rightarrow> if has_sta wa i then wpa_sm_call_step E i wa else Some wa)"

text \<open>An unused address of the heap of the PMKSA cache.\<close>

definition fresh_entry :: "bool \<Rightarrow> wpa_authenticator \<Rightarrow> nat option" where
  "fresh_entry ok wa = (if ok then Some (Suc (fold max (pmksa_list (wa_pmksa wa)) 0)) else None)"

text \<open>\<^verbatim>\<open>wpa_validate_wpa_ie\<close> on the machine of a station.  Opportunistic key caching is off.\<close>

definition validate_sta :: "nat \<Rightarrow> bool \<Rightarrow> bytes \<Rightarrow> wpa_authenticator \<Rightarrow> wpa_authenticator option" where
  "validate_sta i ie_malloc wpa_ie wa =
     (case wpa_validate_wpa_ie [] None False ie_malloc wa (sta wa i) wpa_ie of
        None \<Rightarrow> None
      | Some (_, wa, sm) \<Rightarrow> Some (upd_sta i (\<lambda>_. sm) wa))"

definition wpa_do :: "wpa_env \<Rightarrow> wpa_input \<Rightarrow> wpa_authenticator \<Rightarrow> wpa_authenticator option" where
  "wpa_do E inp wa =
     (let on = (\<lambda>i r. if has_sta wa i then r else Some wa) in
      case inp of
        In_sta_init addr \<Rightarrow> Some (snd (wpa_auth_sta_init E addr wa))
      | In_validate i ie_malloc wpa_ie \<Rightarrow> on i (validate_sta i ie_malloc wpa_ie wa)
      | In_associated i \<Rightarrow> on i (map_option snd (wpa_auth_sta_associated E i wa))
      | In_no_wpa i \<Rightarrow> on i (Some (wpa_auth_sta_no_wpa i wa))
      | In_event event i \<Rightarrow> on i (map_option snd (wpa_auth_sm_event E event i wa))
      | In_notify i \<Rightarrow> on i (Some (wpa_auth_sm_notify i wa))
      | In_receive i data \<Rightarrow> on i (wpa_receive E i data wa)
      | In_deinit i \<Rightarrow> on i (Some (wpa_auth_sta_deinit i wa))
      | In_set_vlan seed now ptr i v \<Rightarrow> on i (map_option snd (wpa_auth_sta_set_vlan E seed now ptr i v wa))
      | In_local_mic_failure i \<Rightarrow> on i (Some (wpa_auth_sta_local_mic_failure_report i wa))
      | In_countermeasures \<Rightarrow> Some (wpa_auth_countermeasures_start wa)
      | In_gtk_rekey \<Rightarrow> Some (wpa_gtk_rekey wa)
      | In_timeout random t \<Rightarrow> if timer_pending t (wa_calls wa) then wpa_timer E random t wa else Some wa
      | In_pmksa_add now ok id_malloc i pmk session_timeout vlan \<Rightarrow>
          on i (map_option snd (wpa_auth_pmksa_add now (fresh_entry ok wa) id_malloc i pmk session_timeout
            (None :: unit eapol_state_machine option) vlan wa))
      | In_pmksa_add_preauth now ok id_malloc pmk addr session_timeout vlan \<Rightarrow>
          map_option snd (wpa_auth_pmksa_add_preauth now (fresh_entry ok wa) id_malloc pmk addr session_timeout
            (None :: unit eapol_state_machine option) vlan wa)
      | In_pmksa_expire now \<Rightarrow> map_option (\<lambda>c. pmksa_update c wa) (pmksa_cache_expire now (wa_pmksa wa))
      | In_clear_pmksa i entry \<Rightarrow> on i (Some (snd (wpa_auth_sta_clear_pmksa i entry wa))))"

fun wpa_run :: "wpa_env \<Rightarrow> wpa_input list \<Rightarrow> wpa_authenticator \<Rightarrow> wpa_authenticator option" where
  "wpa_run E [] wa = Some wa"
| "wpa_run E (inp # ins) wa = (case wpa_do E inp wa of None \<Rightarrow> None | Some wa \<Rightarrow> wpa_run E ins wa)"

section \<open>Well-formed authenticators\<close>

text \<open>Between inputs no machine is in its loop, and no machine refers to a PMKSA entry that has been freed.\<close>

definition wpa_ok :: "wpa_authenticator \<Rightarrow> bool" where
  "wpa_ok wa \<longleftrightarrow> wpa_wf wa \<and> pmksa_wf (wa_pmksa wa) \<and> \<not> wc_okc (wa_conf wa) \<and>
     (\<forall>i. has_sta wa i \<longrightarrow> \<not> in_step_loop (sta wa i) \<and>
        (\<forall>a. w_pmksa (sta wa i) = Some a \<longrightarrow> a \<in> dom (pmksa_heap (wa_pmksa wa))))"

lemma ok_shape:
  assumes "wpa_ok wa" "wpa_wf wa'" "same_shape wa wa'"
  shows "wpa_ok wa'"
proof -
  have "wa_conf wa' = wa_conf wa" "wa_pmksa wa' = wa_pmksa wa" "has_sta wa' i = has_sta wa i"
    "has_sta wa i \<Longrightarrow> in_step_loop (sta wa' i) = in_step_loop (sta wa i) \<and> w_pmksa (sta wa' i) = w_pmksa (sta wa i)" for i
    using assms(3) by (simp_all add: same_shape_def settings_def ident_def)
  then show ?thesis using assms(1,2) by (simp add: wpa_ok_def)
qed

lemma ok_upd:
  assumes "wpa_ok wa" "has_sta wa i" "sta_ok (sta wa i) \<Longrightarrow> sta_ok (f (sta wa i))" "w_group (f (sta wa i)) \<in> set (vlans wa)"
    "in_step_loop (f (sta wa i)) = in_step_loop (sta wa i)"
    "\<And>a. w_pmksa (f (sta wa i)) = Some a \<Longrightarrow> w_pmksa (sta wa i) = Some a \<or> a \<in> dom (pmksa_heap (wa_pmksa wa))"
  shows "wpa_ok (upd_sta i f wa)"
proof -
  have "sta_ok (sta (upd_sta i f wa) j) \<and> w_group (sta (upd_sta i f wa) j) \<in> set (vlans wa) \<and> \<not> in_step_loop (sta (upd_sta i f wa) j) \<and>
      (\<forall>a. w_pmksa (sta (upd_sta i f wa) j) = Some a \<longrightarrow> a \<in> dom (pmksa_heap (wa_pmksa wa)))" if "has_sta wa j" for j
  proof (cases "j = i")
    case True
    then show ?thesis using assms by (simp add: wpa_ok_def wpa_wf_def) blast
  next
    case False
    then show ?thesis using assms(1) that by (simp add: wpa_ok_def wpa_wf_def)
  qed
  then show ?thesis using assms(1) by (simp add: wpa_ok_def wpa_wf_def)
qed

lemma ok_group: "wpa_ok wa \<Longrightarrow> has_sta wa i \<Longrightarrow> w_group (sta wa i) \<in> set (vlans wa)"
  by (simp add: wpa_ok_def wpa_wf_def)

text \<open>A change of fields that well-formedness does not look at.\<close>

lemma ok_plain:
  assumes "wpa_ok wa" "has_sta wa i"
    "\<And>sm. sta_ok (f sm) = sta_ok sm \<and> w_group (f sm) = w_group sm \<and> in_step_loop (f sm) = in_step_loop sm \<and> w_pmksa (f sm) = w_pmksa sm"
  shows "wpa_ok (upd_sta i f wa)"
  using assms ok_group [OF assms(1,2)] by (intro ok_upd) auto

lemma ok_grp:
  assumes "wpa_ok wa" "keeps_id f"
  shows "wpa_ok (upd_grp v f wa)"
  using ok_shape [OF assms(1) upd_grp_wf [OF _ assms(2)] upd_grp_same_shape [OF assms(2)]] assms(1) by (simp add: wpa_ok_def)

lemma ok_log [simp]: "wpa_ok (log_w c wa) = wpa_ok wa"
  by (simp add: wpa_ok_def)

lemma ok_step:
  assumes "wpa_ok wa" "has_sta wa i"
  shows "\<exists>wa'. wpa_sm_step E i wa = Some (0, wa') \<and> wpa_ok wa' \<and> same_shape wa wa'"
  using wpa_sm_step_returns [OF _ assms(2), of E] ok_shape [OF assms(1)] assms(1) by (auto simp: wpa_ok_def)

definition returns :: "wpa_authenticator option \<Rightarrow> bool" where
  "returns r \<longleftrightarrow> (\<exists>wa'. r = Some wa' \<and> wpa_ok wa')"

lemma returnsI [simp]: "returns (Some wa) = wpa_ok wa"
  by (simp add: returns_def)

lemma returns_step:
  assumes "wpa_ok wa" "has_sta wa i"
  shows "returns (map_option snd (wpa_sm_step E i wa))"
  using ok_step [OF assms, of E] by auto

lemma returns_bind:
  assumes "returns r" "\<And>wa. r = Some wa \<Longrightarrow> wpa_ok wa \<Longrightarrow> returns (f wa)"
  shows "returns (case r of None \<Rightarrow> None | Some wa \<Rightarrow> f wa)"
  using assms by (auto simp: returns_def)

lemma ok_rekey_gtk:
  assumes "wpa_ok wa"
  shows "\<exists>wa'. wpa_rekey_gtk E wa = Some wa' \<and> wpa_ok wa' \<and> same_shape wa wa'"
  using wpa_rekey_gtk_returns [of wa E] ok_shape [OF assms] assms by (auto simp: wpa_ok_def)

lemma remove_ptk_ok:
  assumes "wpa_ok wa" "has_sta wa i"
  shows "wpa_ok (wpa_remove_ptk E i wa)"
  unfolding wpa_remove_ptk_def Let_def
  by (simp add: wpa_auth_set_key_def, rule ok_plain, simp, rule ok_plain) (use assms in \<open>simp_all add: sta_ok_def\<close>)

lemma drop_update_ok:
  assumes "wpa_ok wa" "has_sta wa i"
  shows "wpa_ok (drop_group_update i wa)"
proof -
  have k: "keeps_id (\<lambda>g. g\<lparr>GKeyDoneStations := GKeyDoneStations g - 1\<rparr>)" by (rule keeps_idI) simp
  show ?thesis unfolding drop_group_update_def Let_def
    by (rule ok_plain) (use assms ok_grp [OF assms(1) k] in \<open>simp_all add: sta_ok_def\<close>)
qed

section \<open>Every input returns\<close>

lemma init_step_returns:
  assumes "wpa_ok wa" "has_sta wa i"
  shows "\<exists>wa'. wpa_sm_init_step E i wa = Some (0, wa') \<and> wpa_ok wa' \<and> has_sta wa' i"
proof -
  have "wpa_ok (upd_sta i (\<lambda>sm. sm\<lparr>w_started := True, Init := True\<rparr>) wa)"
    by (rule ok_plain [OF assms]) (simp add: sta_ok_def)
  from ok_step [OF this, of i E] assms(2) obtain w
    where w: "wpa_sm_step E i (upd_sta i (\<lambda>sm. sm\<lparr>w_started := True, Init := True\<rparr>) wa) = Some (0, w)" "wpa_ok w" "has_sta w i"
    by (auto simp: same_shape_def)
  have "wpa_ok (upd_sta i (\<lambda>sm. sm\<lparr>Init := False, AuthenticationRequest := True\<rparr>) w)"
    by (rule ok_plain [OF w(2,3)]) (simp add: sta_ok_def)
  then show ?thesis using w by (simp add: wpa_sm_init_step_def)
qed

lemma associated_returns:
  assumes "wpa_ok wa" "has_sta wa i"
  shows "returns (map_option snd (wpa_auth_sta_associated E i wa))"
proof -
  obtain w where w: "wpa_sm_init_step E i wa = Some (0, w)" "wpa_ok w" "has_sta w i" using init_step_returns [OF assms] by blast
  let ?r = "upd_sta i (\<lambda>sm. sm\<lparr>key_replay := replicate RSNA_MAX_EAPOL_RETRIES (replicate WPA_REPLAY_COUNTER_LEN 0, False),
    ReAuthenticationRequest := True\<rparr>) wa"
  have "wpa_ok ?r" by (rule ok_plain [OF assms]) (simp add: sta_ok_def)
  then show ?thesis
    using w assms returns_step [OF w(2,3), of E] returns_step [of ?r i E]
    by (simp add: wpa_auth_sta_associated_def)
qed

lemma remove_ptk_has_sta [simp]: "has_sta (wpa_remove_ptk E i wa) j = has_sta wa j"
  by (simp add: wpa_remove_ptk_def wpa_auth_set_key_def Let_def)

lemma drop_update_has_sta [simp]: "has_sta (drop_group_update i wa) j = has_sta wa j"
  by (simp add: drop_group_update_def Let_def)

text \<open>\<^verbatim>\<open>wpa_auth_sm_event\<close> in two parts: the request, and what all events have in common.\<close>

definition event_request :: "wpa_env \<Rightarrow> wpa_event \<Rightarrow> nat \<Rightarrow> wpa_authenticator \<Rightarrow> (int \<times> wpa_authenticator) option" where
  "event_request E ev i wa =
     (case ev of
        WPA_AUTH \<Rightarrow> Some (0, wa) | WPA_ASSOC \<Rightarrow> Some (0, wa) | WPA_ASSOC_FT \<Rightarrow> Some (0, wa)
      | WPA_DEAUTH \<Rightarrow> Some (0, upd_sta i (\<lambda>sm. sm\<lparr>DeauthenticationRequest := True\<rparr>) wa)
      | WPA_DISASSOC \<Rightarrow> Some (0, upd_sta i (\<lambda>sm. sm\<lparr>DeauthenticationRequest := True\<rparr>) wa)
      | _ \<Rightarrow> if \<not> w_started (sta wa i) then wpa_sm_init_step E i wa
          else Some (0, upd_sta i (\<lambda>sm. sm\<lparr>ReAuthenticationRequest := True\<rparr>)
            (if GUpdateStationKeys (sta wa i) then upd_sta i (\<lambda>sm. sm\<lparr>PtkGroupInit := True\<rparr>) (drop_group_update i wa) else wa)))"

definition event_clear :: "wpa_env \<Rightarrow> wpa_event \<Rightarrow> nat \<Rightarrow> wpa_authenticator \<Rightarrow> wpa_authenticator" where
  "event_clear E ev i wa =
     (let wa = upd_sta i (\<lambda>sm. sm\<lparr>PTK_valid := False, PTK := wpa_ptk_zero\<rparr>) wa
      in if ev \<noteq> WPA_REAUTH_EAPOL then wpa_remove_ptk E i wa else wa)"

lemma event_split:
  "wpa_auth_sm_event E ev i wa =
     (case event_request E ev i wa of
        None \<Rightarrow> None | Some (r, wa) \<Rightarrow> if r = 1 then Some (1, wa) else wpa_sm_step E i (event_clear E ev i wa))"
  by (simp add: wpa_auth_sm_event_def event_request_def event_clear_def Let_def split: wpa_event.split option.split)

lemma event_request_ok:
  assumes "wpa_ok wa" "has_sta wa i"
  shows "\<exists>w. event_request E ev i wa = Some (0, w) \<and> wpa_ok w \<and> has_sta w i"
proof -
  have d: "wpa_ok (upd_sta i (\<lambda>sm. sm\<lparr>DeauthenticationRequest := True\<rparr>) wa)"
    by (rule ok_plain [OF assms]) (simp add: sta_ok_def)
  have "wpa_ok (upd_sta i (\<lambda>sm. sm\<lparr>PtkGroupInit := True\<rparr>) (drop_group_update i wa))"
    by (rule ok_plain [OF drop_update_ok [OF assms]]) (use assms(2) in \<open>simp_all add: sta_ok_def\<close>)
  then have "wpa_ok (upd_sta i (\<lambda>sm. sm\<lparr>ReAuthenticationRequest := True\<rparr>)
      (if GUpdateStationKeys (sta wa i) then upd_sta i (\<lambda>sm. sm\<lparr>PtkGroupInit := True\<rparr>) (drop_group_update i wa) else wa))"
    by (intro ok_plain) (use assms in \<open>simp_all add: sta_ok_def\<close>)
  then show ?thesis using d assms init_step_returns [OF assms, of E] by (cases ev) (simp_all add: event_request_def)
qed

lemma event_clear_ok:
  assumes "wpa_ok wa" "has_sta wa i"
  shows "wpa_ok (event_clear E ev i wa)" "has_sta (event_clear E ev i wa) i"
proof -
  have o: "wpa_ok (upd_sta i (\<lambda>sm. sm\<lparr>PTK_valid := False, PTK := wpa_ptk_zero\<rparr>) wa)"
    by (rule ok_plain [OF assms]) (simp add: sta_ok_def)
  then show "wpa_ok (event_clear E ev i wa)" using remove_ptk_ok [OF o] assms(2) by (simp add: event_clear_def Let_def)
qed (use assms(2) in \<open>simp add: event_clear_def Let_def\<close>)

lemma event_returns:
  assumes "wpa_ok wa" "has_sta wa i"
  shows "returns (map_option snd (wpa_auth_sm_event E ev i wa))"
proof -
  obtain w where w: "event_request E ev i wa = Some (0, w)" "wpa_ok w" "has_sta w i" using event_request_ok [OF assms] by blast
  then show ?thesis using returns_step [OF event_clear_ok [OF w(2,3)], of E] by (simp add: event_split)
qed

text \<open>Frames.\<close>

lemma kde_parser_returns: "\<exists>ret ie. wpa_parse_kde_ies d = Some (ret, ie)"
  unfolding wpa_parse_kde_ies_def using kde_loop_total by blast

lemma msg_check_returns: "\<exists>v. eapol_key_msg_check sm data = Some v"
  using kde_parser_returns [of "key_data_of data"]
  by (cases "wpa_msg_of data") (auto simp: eapol_key_msg_check_def Let_def)

lemma store_returns:
  assumes "wpa_ok wa" "has_sta wa i"
  shows "returns (eapol_key_store E i data wa)"
  unfolding eapol_key_store_def wpa_alloc_def Let_def
  by (auto intro!: returns_step ok_plain simp: assms sta_ok_def)

lemma request_returns:
  assumes "wpa_ok wa" "has_sta wa i"
  shows "\<exists>wa'. eapol_key_request E i data wa = Some wa' \<and> wpa_ok wa' \<and> has_sta wa' i"
proof -
  let ?w = "upd_sta i (\<lambda>sm. sm\<lparr>req_replay_counter_used := True, req_replay_counter := replay_counter_of data\<rparr>) wa"
  have w: "wpa_ok ?w" "has_sta ?w i" using assms by (auto intro!: ok_plain simp: sta_ok_def)
  have n: "wpa_ok (wpa_request_new_ptk i w)" if "wpa_ok w" "has_sta w i" for w
    unfolding wpa_request_new_ptk_def by (rule ok_plain [OF that]) (simp add: sta_ok_def)
  have s: "wpa_ok (wa\<lparr>wa_StatsTKIPRemoteMICFailures := k\<rparr>) = wpa_ok wa" "has_sta (wa\<lparr>wa_StatsTKIPRemoteMICFailures := k\<rparr>) i = has_sta wa i" for wa k
    by (simp_all add: wpa_ok_def wpa_wf_def has_sta_def vlans_def sta_def)
  have e: "wpa_ok (upd_sta i (\<lambda>sm. sm\<lparr>dot11RSNAStatsTKIPRemoteMICFailures := dot11RSNAStatsTKIPRemoteMICFailures sm + 1\<rparr>) (log_w c ?w))" for c
    by (rule ok_plain) (use w in \<open>simp_all add: sta_ok_def\<close>)
  obtain r where r: "wpa_rekey_gtk E (log_w (W_cancel_timeout T_rekey_gtk) ?w) = Some r" "wpa_ok r" "has_sta r i"
    using ok_rekey_gtk [of "log_w (W_cancel_timeout T_rekey_gtk) ?w" E] w by (auto simp: same_shape_def)
  obtain ret ie where k: "wpa_parse_kde_ies (key_data_of data) = Some (ret, ie)" using kde_parser_returns by blast
  have nh: "has_sta (wpa_request_new_ptk i w) i = has_sta w i" for w by (simp add: wpa_request_new_ptk_def)
  show ?thesis
    unfolding eapol_key_request_def Let_def k using n w s e nh r by simp
qed

lemma receive_returns:
  assumes "wpa_ok wa" "has_sta wa i"
  shows "returns (wpa_receive E i data wa)"
proof -
  have m: "wpa_ok (upd_sta i (\<lambda>sm. sm\<lparr>MICVerified := b\<rparr>) w)" if "wpa_ok w" "has_sta w i" for b w
    by (rule ok_plain [OF that]) (simp add: sta_ok_def)
  have kr: "wpa_ok (upd_sta i (\<lambda>sm. sm\<lparr>key_replay := f sm\<rparr>) w)" if "wpa_ok w" "has_sta w i" for f w
    by (rule ok_plain [OF that]) (simp add: sta_ok_def)
  have rq: "returns (case eapol_key_request E i data w of None \<Rightarrow> None | Some wa \<Rightarrow> eapol_key_store E i data wa)"
    if "wpa_ok w" "has_sta w i" for w
    using request_returns [OF that, of E data] store_returns [of _ i E data] by auto
  obtain v where v: "eapol_key_msg_check (sta wa i) data = Some v" using msg_check_returns by blast
  show ?thesis
    unfolding wpa_receive_def Let_def v
    using assms m [OF assms] by (cases v) (auto intro!: store_returns rq kr m simp: wpa_sta_disconnect_def)
qed

text \<open>Stations and groups.\<close>

lemma vlans_append:
  "wa_group wa \<noteq> [] \<Longrightarrow> set (vlans (wa\<lparr>wa_group := (case wa_group wa of [] \<Rightarrow> [g] | h # gs \<Rightarrow> h # g # gs)\<rparr>)) = insert (vlan_id g) (set (vlans wa))"
  by (cases "wa_group wa") (auto simp: vlans_def)

lemma ok_add_group:
  assumes "wpa_ok wa" "vlan_id g \<notin> set (vlans wa)"
  shows "wpa_ok (wa\<lparr>wa_group := (case wa_group wa of [] \<Rightarrow> [g] | h # gs \<Rightarrow> h # g # gs)\<rparr>)"
  using assms by (cases "wa_group wa") (auto simp: wpa_ok_def wpa_wf_def vlans_def has_sta_def sta_def)

lemma ok_group_step:
  assumes "wpa_ok wa" "v \<in> set (vlans wa)"
  shows "\<exists>wa'. wpa_group_sm_step E (\<lambda>j wa. map_option snd (wpa_sm_step E j wa)) v wa = Some wa' \<and> wpa_ok wa' \<and> same_shape wa wa'"
  using group_step_returns [OF sm_steps_return _ assms(2) order_refl, of E E] ok_shape [OF assms(1)] assms(1) by (auto simp: wpa_ok_def)

lemma ok_restart:
  assumes "wpa_ok wa" "v \<in> set (vlans wa)"
  shows "\<exists>wa'. wpa_group_restart E v wa = Some wa' \<and> wpa_ok wa' \<and> same_shape wa wa'"
proof -
  have k: "keeps_id (\<lambda>g. g\<lparr>GInit := b\<rparr>)" for b by (rule keeps_idI) simp
  obtain w1 where w1: "wpa_group_sm_step E (\<lambda>j wa. map_option snd (wpa_sm_step E j wa)) v (upd_grp v (\<lambda>g. g\<lparr>GInit := True\<rparr>) wa) = Some w1"
      "wpa_ok w1" "same_shape (upd_grp v (\<lambda>g. g\<lparr>GInit := True\<rparr>) wa) w1"
    using ok_group_step [OF ok_grp [OF assms(1) k]] assms(2) k by force
  then have v: "v \<in> set (vlans (upd_grp v (\<lambda>g. g\<lparr>GInit := False\<rparr>) w1))" using assms(2) k by (simp add: same_shape_def)
  obtain w2 where w2: "wpa_group_sm_step E (\<lambda>j wa. map_option snd (wpa_sm_step E j wa)) v (upd_grp v (\<lambda>g. g\<lparr>GInit := False\<rparr>) w1) = Some w2"
      "wpa_ok w2" "same_shape (upd_grp v (\<lambda>g. g\<lparr>GInit := False\<rparr>) w1) w2"
    using ok_group_step [OF ok_grp [OF w1(2) k] v] by blast
  have "same_shape wa w2"
    by (rule same_shape_trans [OF upd_grp_same_shape [OF k] same_shape_trans [OF w1(3) same_shape_trans [OF upd_grp_same_shape [OF k] w2(3)]]])
  then show ?thesis using w1(1) w2(1,2) by (simp add: wpa_group_restart_def Let_def)
qed

lemma set_key_len_vlan [simp]: "vlan_id (wpa_group_set_key_len c g) = vlan_id g"
  by (simp add: wpa_group_set_key_len_def)

lemma set_vlan_returns:
  assumes "wpa_ok wa" "has_sta wa i"
  shows "returns (map_option snd (wpa_auth_sta_set_vlan E seed now ptr i v wa))"
proof -
  have mv: "wpa_ok (upd_sta i (\<lambda>sm. sm\<lparr>w_group := v\<rparr>) w)" if "wpa_ok w" "has_sta w i" "v \<in> set (vlans w)" for w
    using that by (intro ok_upd) (auto simp: sta_ok_def)
  have "\<exists>ok w. wpa_auth_add_group E seed now ptr v wa = Some (ok, w) \<and> wpa_ok w \<and> has_sta w i \<and> (ok \<longrightarrow> v \<in> set (vlans w))"
    if "v \<notin> set (vlans wa)"
  proof -
    define w0 where "w0 = log_w W_malloc wa"
    define g where "g rkey gmk = (wpa_group_set_key_len (wc_wpa_group (wa_conf w0)) (wpa_group_zero\<lparr>GTKAuthenticator := True, vlan_id := v\<rparr>))
      \<lparr>GMK := gmk, Counter := (case sha1_prf rkey label_init_counter (wa_addr w0 @ wpa_get_ntp_timestamp (fst now) (snd now) @ ptr) WPA_NONCE_LEN of
         None \<Rightarrow> Counter (wpa_group_set_key_len (wc_wpa_group (wa_conf w0)) (wpa_group_zero\<lparr>GTKAuthenticator := True, vlan_id := v\<rparr>)) | Some c \<Rightarrow> c)\<rparr>" for rkey gmk
    define w1 where "w1 rkey gmk = w0\<lparr>wa_group := (case wa_group w0 of [] \<Rightarrow> [g rkey gmk] | h # gs \<Rightarrow> h # g rkey gmk # gs)\<rparr>" for rkey gmk
    have gid: "vlan_id (g r m) = v" for r m by (simp add: g_def)
    have o0: "wpa_ok w0" "wa_group w0 \<noteq> []" using assms(1) by (simp_all add: w0_def wpa_ok_def wpa_wf_def)
    have o1: "wpa_ok (w1 r m)" "v \<in> set (vlans (w1 r m))" "has_sta (w1 r m) i" for r m
      using ok_add_group [OF o0(1), of "g r m"] vlans_append [OF o0(2), of "g r m"] that gid assms(2)
      by (simp_all add: w1_def w0_def has_sta_def)
    have "\<exists>w. wpa_group_restart E v (w1 r m) = Some w \<and> wpa_ok w \<and> has_sta w i \<and> v \<in> set (vlans w)" for r m
      using ok_restart [OF o1(1) o1(2), of E r m] o1 by (auto simp: same_shape_def)
    then show ?thesis
      unfolding wpa_auth_add_group_def wpa_group_init_def wpa_alloc_def Let_def prod.case w0_def [symmetric]
      using o0 assms(2) unfolding g_def [symmetric] w1_def [symmetric]
      by (cases seed) (auto simp: w0_def, blast)
  qed
  moreover have "find_group v (wa_group wa) \<noteq> None \<longleftrightarrow> v \<in> set (vlans wa)" by (simp only: find_group_some vlans_def list.set_map)
  ultimately show ?thesis using assms mv [OF assms]
    by (cases "v \<in> set (vlans wa)") (auto simp: wpa_auth_sta_set_vlan_def intro!: mv)
qed

lemma deinit_ok:
  assumes "wpa_ok wa" "has_sta wa i"
  shows "wpa_ok (wpa_auth_sta_deinit i wa)"
proof -
  have "wpa_ok (wpa_free_sta_sm i w)" if "wpa_ok w" for w
  proof -
    have h: "has_sta (wpa_free_sta_sm i w) j \<longleftrightarrow> has_sta w j \<and> j \<noteq> i" "j \<noteq> i \<Longrightarrow> sta (wpa_free_sta_sm i w) j = sta w j" for j
      by (cases "j = i"; auto simp: has_sta_def sta_def wpa_free_sta_sm_def)+
    show ?thesis using that unfolding wpa_ok_def wpa_wf_def by (simp add: h vlans_def) (simp add: wpa_free_sta_sm_def, blast)
  qed
  moreover have "\<not> in_step_loop (sta wa i)" using assms by (simp add: wpa_ok_def)
  ultimately show ?thesis using assms by (simp add: wpa_auth_sta_deinit_def Let_def)
qed

lemma sta_init_ok:
  assumes "wpa_ok wa"
  shows "wpa_ok (snd (wpa_auth_sta_init E addr wa))"
proof -
  have ne: "wa_group wa \<noteq> []" using assms by (simp add: wpa_ok_def wpa_wf_def)
  have h: "head_group wa \<in> set (vlans wa)" using ne by (simp add: head_group_def vlans_def)
  show ?thesis
    using assms h by (auto simp: wpa_auth_sta_init_def wpa_alloc_def Let_def wpa_ok_def wpa_wf_def has_sta_def sta_def nth_append
        vlans_def log_w_def head_group_def sta_ok_def wpa_sm_zero_def less_Suc_eq split: if_splits)
qed

text \<open>The PMKSA cache.\<close>

lemma fold_max_ge: "x \<in> set xs \<or> x \<le> m \<Longrightarrow> x \<le> fold max xs (m :: nat)"
  by (induction xs arbitrary: m) (auto simp: le_max_iff_disj)

lemma fresh_entry_unused:
  assumes "pmksa_wf (wa_pmksa wa)"
  shows "pred_option (\<lambda>a. pmksa_heap (wa_pmksa wa) a = None) (fresh_entry ok wa)"
proof -
  have "Suc (fold max (pmksa_list (wa_pmksa wa)) 0) \<notin> set (pmksa_list (wa_pmksa wa))"
    using fold_max_ge [of "Suc (fold max (pmksa_list (wa_pmksa wa)) 0)" "pmksa_list (wa_pmksa wa)" 0] by auto
  then show ?thesis using assms by (auto simp: fresh_entry_def pmksa_wf_def domIff)
qed

lemma free_cbs:
  "wa_stas (fold wpa_auth_pmksa_free_cb as wa) =
     map (map_option (\<lambda>sm. if \<exists>a\<in>set as. w_pmksa sm = Some a then sm\<lparr>w_pmksa := None\<rparr> else sm)) (wa_stas wa) \<and>
   vlans (fold wpa_auth_pmksa_free_cb as wa) = vlans wa \<and> wa_group (fold wpa_auth_pmksa_free_cb as wa) = wa_group wa \<and>
   wa_conf (fold wpa_auth_pmksa_free_cb as wa) = wa_conf wa \<and> wa_addr (fold wpa_auth_pmksa_free_cb as wa) = wa_addr wa \<and>
   wa_calls (fold wpa_auth_pmksa_free_cb as wa) = wa_calls wa \<and> wa_pmksa (fold wpa_auth_pmksa_free_cb as wa) = wa_pmksa wa"
proof (induction as arbitrary: wa)
  case Nil
  show ?case by (simp add: option.map_ident)
next
  case (Cons a as)
  then show ?case
    by (auto simp: wpa_auth_pmksa_free_cb_def wpa_auth_pmksa_clear_cb_def vlans_def option.map_comp o_def
        intro!: map_option_cong split: option.split)
qed

lemma update_sta:
  "has_sta (pmksa_update c wa) i = has_sta wa i" "vlans (pmksa_update c wa) = vlans wa"
  "wa_conf (pmksa_update c wa) = wa_conf wa" "wa_addr (pmksa_update c wa) = wa_addr wa"
  "wa_calls (pmksa_update c wa) = wa_calls wa" "wa_pmksa (pmksa_update c wa) = c" "wa_group (pmksa_update c wa) = wa_group wa"
  "has_sta wa i \<Longrightarrow> \<exists>p. sta (pmksa_update c wa) i = (sta wa i)\<lparr>w_pmksa := p\<rparr> \<and>
     (\<forall>a. p = Some a \<longrightarrow> w_pmksa (sta wa i) = Some a \<and> (a \<in> set (pmksa_list (wa_pmksa wa)) \<longrightarrow> a \<in> set (pmksa_list c)))"
proof -
  let ?as = "filter (\<lambda>a. a \<notin> set (pmksa_list c)) (pmksa_list (wa_pmksa wa))"
  note f = free_cbs [of ?as "wa\<lparr>wa_pmksa := c\<rparr>"]
  show "has_sta (pmksa_update c wa) i = has_sta wa i" "vlans (pmksa_update c wa) = vlans wa"
    "wa_conf (pmksa_update c wa) = wa_conf wa" "wa_addr (pmksa_update c wa) = wa_addr wa"
    "wa_calls (pmksa_update c wa) = wa_calls wa" "wa_pmksa (pmksa_update c wa) = c" "wa_group (pmksa_update c wa) = wa_group wa"
    using f by (auto simp: pmksa_update_def has_sta_def vlans_def)
  assume h: "has_sta wa i"
  then have s: "sta (pmksa_update c wa) i = (if \<exists>a\<in>set ?as. w_pmksa (sta wa i) = Some a then (sta wa i)\<lparr>w_pmksa := None\<rparr> else sta wa i)"
    using f by (auto simp: pmksa_update_def has_sta_def sta_def)
  show "\<exists>p. sta (pmksa_update c wa) i = (sta wa i)\<lparr>w_pmksa := p\<rparr> \<and>
     (\<forall>a. p = Some a \<longrightarrow> w_pmksa (sta wa i) = Some a \<and> (a \<in> set (pmksa_list (wa_pmksa wa)) \<longrightarrow> a \<in> set (pmksa_list c)))"
  proof (cases "\<exists>a\<in>set ?as. w_pmksa (sta wa i) = Some a")
    case True
    then show ?thesis using s by (intro exI [of _ None]) simp
  next
    case False
    then show ?thesis using s by (intro exI [of _ "w_pmksa (sta wa i)"]) auto
  qed
qed

lemma ok_pmksa_update:
  assumes "wpa_ok wa" "pmksa_wf c"
  shows "wpa_ok (pmksa_update c wa)"
proof -
  have "sta_ok (sta (pmksa_update c wa) i) \<and> w_group (sta (pmksa_update c wa) i) \<in> set (vlans wa) \<and>
      \<not> in_step_loop (sta (pmksa_update c wa) i) \<and>
      (\<forall>a. w_pmksa (sta (pmksa_update c wa) i) = Some a \<longrightarrow> a \<in> dom (pmksa_heap c))" if h: "has_sta wa i" for i
  proof -
    obtain p where p: "sta (pmksa_update c wa) i = (sta wa i)\<lparr>w_pmksa := p\<rparr>"
      "\<forall>a. p = Some a \<longrightarrow> w_pmksa (sta wa i) = Some a \<and> (a \<in> set (pmksa_list (wa_pmksa wa)) \<longrightarrow> a \<in> set (pmksa_list c))"
      using update_sta(8) [OF h] by blast
    have d: "set (pmksa_list (wa_pmksa wa)) = dom (pmksa_heap (wa_pmksa wa))" "set (pmksa_list c) = dom (pmksa_heap c)"
      using assms by (simp_all add: wpa_ok_def pmksa_wf_def)
    show ?thesis using assms(1) h p unfolding wpa_ok_def wpa_wf_def d by (simp add: sta_ok_def)
  qed
  then show ?thesis using assms by (simp add: wpa_ok_def wpa_wf_def update_sta)
qed

lemma cache_add_returns:
  assumes "pmksa_wf c" "pred_option (\<lambda>a. pmksa_heap c a = None) addr"
  shows "\<exists>r c'. pmksa_cache_auth_add hmac now addr im c pmk aa spa st eapol vlan akmp = Some (r, c') \<and> pmksa_wf c'"
proof (cases "length pmk \<le> PMK_LEN \<and> addr \<noteq> None")
  case True
  then obtain a where a: "addr = Some a" by auto
  obtain c' where "pmksa_cache_auth_add hmac now (Some a) im c pmk aa spa st eapol vlan akmp = Some (Some a, c')" "pmksa_wf c'"
    by (rule auth_add_wf [OF assms(1), of a pmk hmac now im aa spa st eapol vlan akmp]) (use True assms(2) a in auto)
  then show ?thesis using a by blast
next
  case False
  then show ?thesis using assms by (cases addr) (auto simp: pmksa_cache_auth_add_def)
qed

lemma pmksa_add_returns:
  assumes "wpa_ok wa"
  shows "returns (map_option snd (wpa_auth_pmksa_add now (fresh_entry ok wa) im i pmk st eapol vlan wa))"
    "returns (map_option snd (wpa_auth_pmksa_add_preauth now (fresh_entry ok wa) im pmk addr st eapol vlan wa))"
    "returns (map_option (\<lambda>c. pmksa_update c wa) (pmksa_cache_expire now (wa_pmksa wa)))"
proof -
  have wf: "pmksa_wf (wa_pmksa wa)" using assms by (simp add: wpa_ok_def)
  note add = cache_add_returns [OF wf fresh_entry_unused [OF wf]]
  show "returns (map_option snd (wpa_auth_pmksa_add now (fresh_entry ok wa) im i pmk st eapol vlan wa))"
    using add [of rsn_pmkid_hmac now ok im "take PMK_LEN pmk" "wa_addr wa" "w_addr (sta wa i)" st eapol vlan "w_wpa_key_mgmt (sta wa i)"]
      ok_pmksa_update [OF assms] assms by (auto simp: wpa_auth_pmksa_add_def)
  show "returns (map_option snd (wpa_auth_pmksa_add_preauth now (fresh_entry ok wa) im pmk addr st eapol vlan wa))"
    using add [of rsn_pmkid_hmac now ok im pmk "wa_addr wa" addr st eapol vlan WPA_KEY_MGMT_IEEE8021X]
      ok_pmksa_update [OF assms] by (auto simp: wpa_auth_pmksa_add_preauth_def)
  show "returns (map_option (\<lambda>c. pmksa_update c wa) (pmksa_cache_expire now (wa_pmksa wa)))"
    using expire_wf [OF wf, of now] ok_pmksa_update [OF assms] by auto
qed

lemma find_pmksa_returns:
  assumes "pmksa_wf c"
  shows "\<exists>r. find_pmksa c spa ids = Some r \<and> (\<forall>a. r = Some a \<longrightarrow> a \<in> dom (pmksa_heap c))"
proof (induction ids)
  case (Cons p ids)
  obtain r where r: "pmksa_cache_auth_get c (Some spa) (Some p) = Some r"
    "case r of None \<Rightarrow> True | Some a \<Rightarrow> a \<in> dom (pmksa_heap c)"
    using auth_get_spec [OF assms, of "Some spa" "Some p"] by (fastforce split: option.splits)
  then show ?case using Cons by (cases r) auto
qed simp

text \<open>Validating the element of a station changes what it negotiated and the statistics only.\<close>

definition unnegotiated :: "wpa_state_machine \<Rightarrow> wpa_state_machine" where
  "unnegotiated sm = sm\<lparr>w_wpa_key_mgmt := 0, w_pairwise := 0, w_wpa := WPA_VERSION_NO_WPA, w_pmksa := None, w_wpa_ie := None\<rparr>"

definition validated :: "wpa_authenticator \<Rightarrow> wpa_state_machine \<Rightarrow> wpa_authenticator \<Rightarrow> wpa_state_machine \<Rightarrow> bool" where
  "validated wa sm wa' sm' \<longleftrightarrow>
     wa_group wa' = wa_group wa \<and> wa_stas wa' = wa_stas wa \<and> wa_calls wa' = wa_calls wa \<and> settings wa' = settings wa \<and>
     unnegotiated sm' = unnegotiated sm \<and>
     (w_wpa_key_mgmt sm' = w_wpa_key_mgmt sm \<or> w_wpa_key_mgmt sm' = WPA_KEY_MGMT_PSK \<or>
      w_wpa_key_mgmt sm' = WPA_KEY_MGMT_IEEE8021X \<and> (\<exists>m. (m AND wc_wpa_key_mgmt (wa_conf wa)) AND WPA_KEY_MGMT_IEEE8021X \<noteq> 0)) \<and>
     (w_pmksa sm' = w_pmksa sm \<or> (\<forall>a. w_pmksa sm' = Some a \<longrightarrow> a \<in> dom (pmksa_heap (wa_pmksa wa))))"

lemma validate_returns:
  assumes "pmksa_wf (wa_pmksa wa)" "\<not> wc_okc (wa_conf wa)"
  shows "\<exists>res wa' sm'. wpa_validate_wpa_ie [] None False m wa sm ie = Some (res, wa', sm') \<and> validated wa sm wa' sm'"
proof -
  have vp: "\<exists>r. validate_pmksa [] None False False aa spa ids (wa_pmksa wa) = Some (r, wa_pmksa wa) \<and>
      (\<forall>a p. r = Some (a, p) \<longrightarrow> a \<in> dom (pmksa_heap (wa_pmksa wa)))" for aa spa ids
  proof -
    obtain r where "find_pmksa (wa_pmksa wa) spa ids = Some r" "\<forall>a. r = Some a \<longrightarrow> a \<in> dom (pmksa_heap (wa_pmksa wa))"
      using find_pmksa_returns [OF assms(1)] by blast
    then show ?thesis by (cases r) (auto simp: validate_pmksa_def)
  qed
  obtain res d where p: "(if ie ! 0 = WLAN_EID_RSN then wpa_parse_wpa_ie_rsn ie else wpa_parse_wpa_ie_wpa ie) = (res, d)"
    by (metis surj_pair)
  obtain r where r: "validate_pmksa [] None False False (wa_addr wa) (w_addr sm) (pmkids d) (wa_pmksa wa) = Some (r, wa_pmksa wa)"
    "\<forall>a p. r = Some (a, p) \<longrightarrow> a \<in> dom (pmksa_heap (wa_pmksa wa))" using vp by blast
  have x: "map_option fst r = Some a \<Longrightarrow> a \<in> dom (pmksa_heap (wa_pmksa wa))" for a using r(2) by (cases r) auto
  show ?thesis
    using p r(1) assms(2) x
    by (cases "ie ! 0 = WLAN_EID_RSN")
      (simp_all add: wpa_validate_wpa_ie_def Let_def validated_def unnegotiated_def settings_def del: map_option_eq_Some, auto)
qed

lemma validate_sta_ok:
  assumes "wpa_ok wa" "has_sta wa i"
  shows "\<exists>wa' sm'. validate_sta i m ie wa = Some (upd_sta i (\<lambda>_. sm') wa') \<and> validated wa (sta wa i) wa' sm' \<and>
    wpa_ok (upd_sta i (\<lambda>_. sm') wa')"
proof -
  obtain res wa' sm' where v: "wpa_validate_wpa_ie [] None False m wa (sta wa i) ie = Some (res, wa', sm')" "validated wa (sta wa i) wa' sm'"
    using validate_returns [of wa m "sta wa i" ie] assms(1) by (auto simp: wpa_ok_def)
  have wa': "wpa_ok wa'" "has_sta wa' i" "sta wa' i = sta wa i" "vlans wa' = vlans wa" "wa_pmksa wa' = wa_pmksa wa"
    using assms v(2) by (simp_all add: validated_def wpa_ok_def wpa_wf_def has_sta_def sta_def vlans_def settings_def)
  have "sta_ok (unnegotiated s) = sta_ok s" "w_group (unnegotiated s) = w_group s" "in_step_loop (unnegotiated s) = in_step_loop s" for s
    by (simp_all add: unnegotiated_def sta_ok_def)
  then have "sta_ok sm' = sta_ok (sta wa i)" "w_group sm' = w_group (sta wa i)" "in_step_loop sm' = in_step_loop (sta wa i)"
    using v(2) unfolding validated_def by metis+
  then have "wpa_ok (upd_sta i (\<lambda>_. sm') wa')"
    using wa' v(2) ok_group [OF assms] by (intro ok_upd) (auto simp: validated_def)
  then show ?thesis using v by (auto simp: validate_sta_def)
qed

lemma timer_returns:
  assumes "wpa_ok wa"
  shows "returns (wpa_timer E random t wa)"
proof (cases t)
  case T_rekey_gmk
  have k: "keeps_id (\<lambda>g. g\<lparr>GMK := r\<rparr>)" for r by (rule keeps_idI) simp
  show ?thesis using T_rekey_gmk assms ok_grp [OF assms k] by (simp add: wpa_timer_def wpa_rekey_gmk_def Let_def split: option.split)
next
  case T_rekey_gtk
  then show ?thesis using ok_rekey_gtk [OF assms, of E] by (auto simp: wpa_timer_def)
qed (auto simp: wpa_timer_def wpa_rekey_ptk_def wpa_send_eapol_timeout_def wpa_sm_call_step_def wpa_request_new_ptk_def assms
    intro!: returns_step ok_plain simp: sta_ok_def)

lemma wpa_do_returns:
  assumes "wpa_ok wa"
  shows "returns (wpa_do E inp wa)"
proof (cases inp)
  case (In_validate i m ie)
  then show ?thesis using assms validate_sta_ok [OF assms, of i m ie] by (auto simp: wpa_do_def)
next
  case In_gtk_rekey
  have "keeps_id (\<lambda>g. wpa_gtk_update (wa_addr wa) ((wpa_gtk_update (wa_addr wa) (g\<lparr>GM := GN g, GN := GM g\<rparr>))\<lparr>
      GM := GN (wpa_gtk_update (wa_addr wa) (g\<lparr>GM := GN g, GN := GM g\<rparr>)), GN := GM (wpa_gtk_update (wa_addr wa) (g\<lparr>GM := GN g, GN := GM g\<rparr>))\<rparr>))"
    by (rule keeps_idI) simp
  then show ?thesis using In_gtk_rekey ok_grp [OF assms] by (simp add: wpa_do_def wpa_gtk_rekey_def Let_def)
next
  case In_countermeasures
  then show ?thesis using assms
    by (simp add: wpa_do_def wpa_auth_countermeasures_start_def wpa_ok_def wpa_wf_def has_sta_def sta_def vlans_def)
next
  case (In_no_wpa i)
  then show ?thesis using assms by (auto simp: wpa_do_def wpa_auth_sta_no_wpa_def sta_ok_def intro!: ok_plain)
next
  case (In_local_mic_failure i)
  then show ?thesis using assms by (auto simp: wpa_do_def wpa_auth_sta_local_mic_failure_report_def sta_ok_def intro!: ok_plain)
next
  case (In_clear_pmksa i entry)
  then show ?thesis using assms ok_group [OF assms]
    by (auto simp: wpa_do_def wpa_auth_sta_clear_pmksa_def sta_ok_def intro!: ok_upd)
qed (use assms in \<open>simp_all add: wpa_do_def Let_def associated_returns event_returns receive_returns deinit_ok sta_init_ok
      set_vlan_returns timer_returns pmksa_add_returns wpa_auth_sm_notify_def\<close>)

lemma wpa_run_returns: "wpa_ok wa \<Longrightarrow> returns (wpa_run E ins wa)"
proof (induction ins arbitrary: wa)
  case (Cons inp ins)
  show ?case using wpa_do_returns [OF Cons.prems, of E inp] Cons.IH by (auto simp: returns_def)
qed simp

lemma wpa_init_returns:
  assumes "\<not> wc_okc conf"
  shows "\<exists>r. wpa_init E seed now ptr addr conf = Some r \<and> (\<forall>wa. r = Some wa \<longrightarrow> wpa_ok wa)"
proof -
  have ok: "wpa_ok w" if "wa_group w = [g]" "wa_stas w = []" "wa_conf w = conf" "wa_pmksa w = pmksa_cache_auth_init" for w g
    using that assms by (simp add: wpa_ok_def wpa_wf_def has_sta_def vlans_def pmksa_init_wf)
  have gi: "\<exists>b w'. wpa_group_init E seed now ptr 0 w = Some (b, w') \<and> (b \<longrightarrow> wpa_ok w')"
    if w: "wa_group w = []" "wa_stas w = []" "wa_conf w = conf" "wa_pmksa w = pmksa_cache_auth_init" for w
  proof -
    have R: "\<exists>b w'. map_option (\<lambda>wa. (True, wa)) (wpa_group_restart E 0 (log_w W_malloc w\<lparr>wa_group := [g]\<rparr>)) = Some (b, w') \<and> (b \<longrightarrow> wpa_ok w')"
      if "vlan_id g = 0" for g
      using ok_restart [OF ok [of "log_w W_malloc w\<lparr>wa_group := [g]\<rparr>" g], of 0 E] that w by (auto simp: vlans_def)
    show ?thesis
      by (cases seed) (auto simp: wpa_group_init_def wpa_alloc_def Let_def w simp del: map_option_eq_Some intro!: R)
  qed
  let ?z = "\<lambda>ie. (log_w W_malloc (log_w W_malloc (wpa_auth_zero conf addr)))\<lparr>wa_wpa_ie := ie\<rparr>"
  have gz: "\<exists>b w'. wpa_group_init E seed now ptr 0 (?z ie) = Some (b, w') \<and> (b \<longrightarrow> wpa_ok w')" for ie
    by (rule gi) (simp_all add: wpa_auth_zero_def)
  have no: "wpa_auth_gen_wpa_ie False conf = None" by (simp add: wpa_auth_gen_wpa_ie_def Let_def split: option.splits if_splits)
  show ?thesis
  proof (cases "wpa_auth_gen_wpa_ie True conf")
    case None
    then show ?thesis by (simp add: wpa_init_def wpa_alloc_def Let_def no)
  next
    case (Some ie)
    obtain b w where "wpa_group_init E seed now ptr 0 (?z ie) = Some (b, w)" "b \<longrightarrow> wpa_ok w" using gz by blast
    then show ?thesis using Some
      by (cases b; cases "we_malloc E [W_malloc]") (auto simp: wpa_init_def wpa_alloc_def Let_def no wpa_auth_zero_def)
  qed
qed

section \<open>Runs return\<close>

text \<open>An environment in which allocations and key installation succeed, with one pre-shared key for all stations.\<close>

definition demo_wpa_env :: wpa_env where
  "demo_wpa_env =
     \<lparr>we_psks = [\<lparr>psk_group = True, psk_key = replicate 32 7, psk_addr = replicate 6 0\<rparr>],
      we_get_eapol = (\<lambda>_ _ _. 0), we_get_msk = (\<lambda>_ _. None), we_set_key = (\<lambda>_. 0), we_get_seqnum = (\<lambda>_ _. None),
      we_malloc = (\<lambda>_. True), we_aes = (\<lambda>_. None)\<rparr>"

text \<open>C6.  \<^verbatim>\<open>wpa_init\<close> returns, and from the authenticator it creates every sequence of inputs returns: the nested loops of
  \<^verbatim>\<open>wpa_sm_step\<close> and \<^verbatim>\<open>wpa_rekey_gtk\<close> end in every state that can be reached, whatever frames, timeouts, results of
  callbacks and failures of allocations occur.  After every run the groups have distinct VLANs, every station belongs to one of them, no machine
  is left in its loop or waiting to be freed, the PMKSA cache is well formed and no station refers to a freed entry of it.\<close>

theorem wpa_authenticator_returns:
  assumes "\<not> wc_okc conf"
  shows "\<exists>r. wpa_init E seed now ptr addr conf = Some r \<and>
    (\<forall>wa ins. r = Some wa \<longrightarrow> (\<exists>wa'. wpa_run E ins wa = Some wa' \<and> wpa_ok wa'))"
  using wpa_init_returns [OF assms, of E seed now ptr addr] wpa_run_returns unfolding returns_def by blast

lemma init_succeeds:
  assumes "\<not> wc_okc conf" "\<And>c. we_malloc E c" "wpa_auth_gen_wpa_ie True conf = Some ie"
  shows "\<exists>wa. wpa_init E (Some seed) now ptr addr conf = Some (Some wa)"
proof -
  obtain r where r: "wpa_init E (Some seed) now ptr addr conf = Some r" using wpa_init_returns [OF assms(1)] by blast
  have "r \<noteq> None" using r assms(2,3)
    by (cases seed) (auto simp: wpa_init_def wpa_group_init_def wpa_alloc_def Let_def split: option.splits if_splits)
  then show ?thesis using r by auto
qed

lemma demo_init:
  "\<not> wc_okc demo_wpa_conf"
  "\<exists>wa. wpa_init demo_wpa_env (Some (replicate 32 1, replicate 32 2)) (0, 0) [] (replicate 6 2) demo_wpa_conf = Some (Some wa)"
proof -
  show c: "\<not> wc_okc demo_wpa_conf" by (simp add: demo_wpa_conf_def)
  have "\<exists>ie. wpa_auth_gen_wpa_ie True demo_wpa_conf = Some ie" by (simp add: wpa_auth_gen_wpa_ie_def demo_wpa_elements)
  moreover have "we_malloc demo_wpa_env l" for l by (simp add: demo_wpa_env_def)
  ultimately show "\<exists>wa. wpa_init demo_wpa_env (Some (replicate 32 1, replicate 32 2)) (0, 0) [] (replicate 6 2) demo_wpa_conf = Some (Some wa)"
    using init_succeeds [OF c] by blast
qed

theorem wpa_authenticator_returns_witness:
  "\<exists>wa wa'. wpa_init demo_wpa_env (Some (replicate 32 1, replicate 32 2)) (0, 0) [] (replicate 6 2) demo_wpa_conf = Some (Some wa) \<and>
    wpa_run demo_wpa_env [In_sta_init (replicate 6 3), In_associated 0, In_receive 0 (replicate 99 0), In_timeout None (T_send_eapol 0)] wa =
      Some wa' \<and> wpa_ok wa'"
proof -
  obtain wa where "wpa_init demo_wpa_env (Some (replicate 32 1, replicate 32 2)) (0, 0) [] (replicate 6 2) demo_wpa_conf = Some (Some wa)"
    using demo_init(2) by blast
  then show ?thesis
    using wpa_authenticator_returns [OF demo_init(1), of demo_wpa_env "Some (replicate 32 1, replicate 32 2)" "(0, 0)" "[]" "replicate 6 2"]
    by (simp del: wpa_run.simps)
qed

end
