(* ===== verification/Wpa_Auth_Safe.thy ===== *)
theory Wpa_Auth_Safe
  imports Wpa_Auth_System
begin

text \<open>
  What the installation of a pairwise key presupposes.  In a network with pre-shared keys the authenticator installs a
  key for a station, and reports the station as authorized, only after a frame that was received for it has been
  verified with keys derived from a pre-shared key of that station.
\<close>

section \<open>Keys and calls\<close>

text \<open>The PTK of a handshake between two addresses.\<close>

definition handshake_ptk :: "bytes \<Rightarrow> bytes \<Rightarrow> int \<Rightarrow> bytes \<Rightarrow> bytes \<Rightarrow> bytes \<Rightarrow> wpa_ptk" where
  "handshake_ptk own addr cipher anonce snonce pmk =
     (case wpa_pmk_to_ptk pmk label_pairwise own addr anonce snonce (if cipher = WPA_CIPHER_CCMP then 48 else 64) of
        None \<Rightarrow> wpa_ptk_zero
      | Some b \<Rightarrow> wpa_ptk_of b wpa_ptk_zero)"

lemma derive_handshake:
  "wpa_derive_ptk wa sm pmk = handshake_ptk (wa_addr wa) (w_addr sm) (w_pairwise sm) (ANonce sm) (SNonce sm) pmk"
  by (simp add: wpa_derive_ptk_def handshake_ptk_def Let_def)

text \<open>The pre-shared keys that the configuration gives a station.\<close>

definition usable_psk :: "wpa_env \<Rightarrow> bytes \<Rightarrow> nat \<Rightarrow> bool" where
  "usable_psk E addr k \<longleftrightarrow> k < length (we_psks E) \<and> (psk_group (we_psks E ! k) \<or> psk_addr (we_psks E ! k) = addr)"

definition pmk_ok :: "wpa_env \<Rightarrow> bytes \<Rightarrow> bytes \<Rightarrow> bool" where
  "pmk_ok E addr pmk \<longleftrightarrow> (\<exists>k. usable_psk E addr k \<and> pmk = psk_at E k)"

text \<open>A received frame has been verified with a PTK that belongs to a pre-shared key of the station.\<close>

definition proven :: "wpa_env \<Rightarrow> bytes set \<Rightarrow> bytes \<Rightarrow> bytes \<Rightarrow> wpa_ptk \<Rightarrow> bool" where
  "proven E frames own addr ptk \<longleftrightarrow>
     (\<exists>k cipher anonce snonce. usable_psk E addr k \<and> ptk = handshake_ptk own addr cipher anonce snonce (psk_at E k)) \<and>
     (\<exists>data\<in>frames. wpa_verify_key_mic ptk data)"

lemma proven_mono: "proven E R own a ptk \<Longrightarrow> R \<subseteq> R' \<Longrightarrow> proven E R' own a ptk"
  by (auto simp: proven_def)

lemma get_psk_loop_usable:
  "get_psk_loop addr prev ok k psks = Some j \<Longrightarrow> k \<le> j \<and> j - k < length psks \<and> (psk_group (psks ! (j - k)) \<or> psk_addr (psks ! (j - k)) = addr)"
proof (induction psks arbitrary: ok k)
  case (Cons p ps)
  show ?case
  proof (cases "ok \<and> (psk_group p \<or> psk_addr p = addr)")
    case True
    then show ?thesis using Cons.prems by auto
  next
    case False
    then have "get_psk_loop addr prev (ok \<or> prev = Some k) (Suc k) ps = Some j" using Cons.prems by auto
    from Cons.IH [OF this] show ?thesis by (auto simp: nth_Cons' Suc_diff_le)
  qed
qed simp

lemma get_psk_usable: "hostapd_get_psk (we_psks E) addr prev = Some k \<Longrightarrow> usable_psk E addr k"
  using get_psk_loop_usable [of addr prev "prev = None" 0 "we_psks E" k] by (simp add: hostapd_get_psk_def usable_psk_def)

lemma find_psk_usable: "find_psk v (we_psks E) addr prev = Some k \<Longrightarrow> usable_psk E addr k \<and> v k"
proof (induction v "we_psks E" addr prev rule: find_psk.induct)
  case (1 v addr prev)
  show ?case
  proof (cases "hostapd_get_psk (we_psks E) addr prev")
    case None
    then show ?thesis using 1(2) by (simp add: find_psk.simps [of v "we_psks E"])
  next
    case (Some j)
    then show ?thesis using 1 get_psk_usable [OF Some]
      by (cases "v j") (auto simp: find_psk.simps [of v "we_psks E" addr prev])
  qed
qed

text \<open>The calls that give a station access: a key for its address, the authorization of its port, and the timer after
  which the key is renewed.\<close>

fun key_call :: "wpa_call \<Rightarrow> bool" where
  "key_call (W_set_key v alg (Some addr) idx key) = (alg \<noteq> WPA_ALG_NONE)"
| "key_call (W_set_eapol addr WPA_EAPOL_authorized b) = b"
| "key_call (W_register_timeout s us (T_rekey_ptk i)) = True"
| "key_call _ = False"

definition key_calls :: "wpa_authenticator \<Rightarrow> wpa_call list" where
  "key_calls wa = filter key_call (wa_calls wa)"

lemma key_calls_upd [simp]:
  "key_calls (upd_sta i f wa) = key_calls wa" "key_calls (upd_grp v g wa) = key_calls wa"
  "key_calls (log_w c wa) = (if key_call c then c # key_calls wa else key_calls wa)"
  by (simp_all add: key_calls_def)

lemma key_calls_callbacks [simp]:
  "key_calls (snd (wpa_alloc E wa)) = key_calls wa"
  "v \<noteq> WPA_EAPOL_authorized \<or> \<not> b \<Longrightarrow> key_calls (wpa_auth_set_eapol a v b wa) = key_calls wa"
  "key_calls (snd (wpa_auth_set_key E vl WPA_ALG_NONE addr idx key wa)) = key_calls wa"
  "key_calls (snd (wpa_auth_set_key E vl alg None idx key wa)) = key_calls wa"
  "key_calls (wa\<lparr>dot11RSNA4WayHandshakeFailures := n\<rparr>) = key_calls wa"
  by (cases v; cases addr; simp add: wpa_alloc_def wpa_auth_set_eapol_def wpa_auth_set_key_def key_calls_def)+

lemmas calls_distribs =
  if_distrib [where f = key_calls] option.case_distrib [where h = key_calls]

lemma key_calls_key_data [simp]: "key_calls (snd (eapol_key_data E i version kde encr wa)) = key_calls wa"
  by (auto simp: eapol_key_data_def Let_def case_prod_beta split: option.splits)

lemma key_calls_send [simp]: "key_calls (wpa_send_eapol E i ki rsc nonce kde idx encr wa) = key_calls wa"
proof -
  have "key_calls (wpa_send_eapol_frame E i ki rsc nonce kde idx encr ver w) = key_calls w" for ver w
    unfolding wpa_send_eapol_frame_def Let_def case_prod_beta
    by (simp add: calls_distribs case_prod_beta split del: if_split cong: if_cong option.case_cong)
  then show ?thesis by (simp add: wpa_send_eapol_def Let_def)
qed

lemma key_calls_enter [simp]:
  "key_calls (sm_WPA_PTK_INITIALIZE_Enter E i wa) = key_calls wa" "key_calls (sm_WPA_PTK_DISCONNECT_Enter i wa) = key_calls wa"
  "key_calls (sm_WPA_PTK_DISCONNECTED_Enter i wa) = key_calls wa" "key_calls (sm_WPA_PTK_AUTHENTICATION_Enter i wa) = key_calls wa"
  "key_calls (sm_WPA_PTK_AUTHENTICATION2_Enter i wa) = key_calls wa" "key_calls (sm_WPA_PTK_INITPMK_Enter E i wa) = key_calls wa"
  "key_calls (sm_WPA_PTK_INITPSK_Enter E i wa) = key_calls wa" "key_calls (sm_WPA_PTK_PTKSTART_Enter E i wa) = key_calls wa"
  "key_calls (sm_WPA_PTK_PTKCALCNEGOTIATING_Enter E i wa) = key_calls wa"
  "key_calls (sm_WPA_PTK_PTKCALCNEGOTIATING2_Enter i wa) = key_calls wa"
  "key_calls (sm_WPA_PTK_PTKINITNEGOTIATING_Enter E i wa) = key_calls wa" "key_calls (handshake_failure i wa) = key_calls wa"
  by (simp_all add: ptk_enter_defs enter_helper_defs Let_def case_prod_beta split: option.split)

lemma key_calls_group_enter [simp]:
  "key_calls (sm_WPA_PTK_GROUP_IDLE_Enter i wa) = key_calls wa"
  "key_calls (sm_WPA_PTK_GROUP_REKEYNEGOTIATING_Enter E i wa) = key_calls wa"
  "key_calls (sm_WPA_PTK_GROUP_REKEYESTABLISHED_Enter i wa) = key_calls wa"
  "key_calls (sm_WPA_PTK_GROUP_KEYERROR_Enter i wa) = key_calls wa"
  by (simp_all add: ptk_group_enter_defs enter_helper_defs Let_def case_prod_beta)

text \<open>The one state that makes such calls, with the keys of the machine.\<close>

definition own_call :: "nat \<Rightarrow> wpa_state_machine \<Rightarrow> wpa_call \<Rightarrow> bool" where
  "own_call i sm c \<longleftrightarrow> (case c of
      W_set_key v alg addr idx key \<Rightarrow> v = 0 \<and> idx = 0 \<and> addr = Some (w_addr sm) \<and>
        (alg = WPA_ALG_TKIP \<and> key = take 32 (tk1 (PTK sm) @ tk2 (PTK sm)) \<or> alg = WPA_ALG_CCMP \<and> key = take 16 (tk1 (PTK sm) @ tk2 (PTK sm)))
    | W_set_eapol addr var b \<Rightarrow> addr = w_addr sm
    | W_register_timeout s us t \<Rightarrow> t = T_rekey_ptk i
    | _ \<Rightarrow> False)"

definition adds :: "(wpa_call \<Rightarrow> bool) \<Rightarrow> wpa_authenticator \<Rightarrow> wpa_authenticator \<Rightarrow> bool" where
  "adds P wa wa' \<longleftrightarrow> (\<exists>cs. key_calls wa' = cs @ key_calls wa \<and> list_all P cs)"

lemma adds_simps [simp]:
  "adds P wa wa" "adds P wa (upd_sta i f w) = adds P wa w" "\<not> key_call c \<Longrightarrow> adds P wa (log_w c w) = adds P wa w"
  by (simp_all add: adds_def)

lemma adds_log: "adds P wa w \<Longrightarrow> (key_call c \<Longrightarrow> P c) \<Longrightarrow> adds P wa (log_w c w)"
  unfolding adds_def by (cases "key_call c") (auto intro: exI [of _ "c # cs" for cs])

lemma adds_same: "key_calls wa' = key_calls wa \<Longrightarrow> adds P wa wa'"
  by (simp add: adds_def)

lemma key_calls_done:
  assumes "has_sta wa i"
  shows "adds (own_call i (sta wa i)) wa (sm_WPA_PTK_PTKINITDONE_Enter E i wa)"
proof -
  define wa' where "wa' = upd_sta i (\<lambda>sm. sm\<lparr>EAPOLKeyReceived := False\<rparr>) (enter_ptk WPA_PTK_PTKINITDONE i wa)"
  have s: "sta wa' i = (sta wa i)\<lparr>w_changed := True, wpa_ptk_state := WPA_PTK_PTKINITDONE, EAPOLKeyReceived := False\<rparr>"
    "adds P wa wa'" for P using assms by (simp_all add: wa'_def enter_ptk_def)
  obtain alg klen where alg: "(if w_pairwise (sta wa' i) = WPA_CIPHER_TKIP then (WPA_ALG_TKIP, 32) else (WPA_ALG_CCMP, 16)) = (alg, klen :: nat)"
    by (metis surj_pair)
  then have k: "own_call i (sta wa i) (W_set_key 0 alg (Some (w_addr (sta wa' i))) 0 (take klen (tk1 (PTK (sta wa' i)) @ tk2 (PTK (sta wa' i)))))"
    using s by (auto simp: own_call_def split: if_splits)
  have e: "own_call i (sta wa i) (W_set_eapol (w_addr (sta wa' i)) v b)" "own_call i (sta wa i) (W_register_timeout x y (T_rekey_ptk i))" for v b x y
    using s by (simp_all add: own_call_def)
  show ?thesis
    unfolding sm_WPA_PTK_PTKINITDONE_Enter_def Let_def wa'_def [symmetric] alg wpa_auth_set_key_def wpa_auth_set_eapol_def wpa_sta_disconnect_def
    using s(2) k e by (auto intro!: adds_log)
qed

section \<open>The invariant of a station\<close>

definition pmk_used :: "wpa_ptk_states \<Rightarrow> bool" where
  "pmk_used s \<longleftrightarrow> s \<in> {WPA_PTK_PTKSTART, WPA_PTK_PTKCALCNEGOTIATING, WPA_PTK_PTKCALCNEGOTIATING2, WPA_PTK_PTKINITNEGOTIATING,
     WPA_PTK_PTKINITDONE}"

text \<open>A key that is valid has been proven; a frame that the machine has yet to take up in the late states of the handshake
  has been verified with it; and the machine gets to the states that use the PMK with a pre-shared key only.  \<open>renew\<close>: the
  timer that renews the key has been registered before.\<close>

definition psk_sta :: "wpa_env \<Rightarrow> bytes set \<Rightarrow> bytes \<Rightarrow> bool \<Rightarrow> wpa_state_machine \<Rightarrow> bool" where
  "psk_sta E frames own renew sm \<longleftrightarrow>
     (PTK_valid sm \<longrightarrow> proven E frames own (w_addr sm) (PTK sm)) \<and>
     (\<forall>f. last_rx_eapol_key sm = Some f \<longrightarrow> f \<in> frames) \<and>
     \<not> wpa_key_mgmt_wpa_ieee8021x (w_wpa_key_mgmt sm) \<and>
     (renew \<or> PTK_valid sm \<or> PTKRequest sm \<or> pmk_used (wpa_ptk_state sm) \<longrightarrow> pmk_ok E (w_addr sm) (PMK sm)) \<and>
     (wpa_ptk_state sm = WPA_PTK_INITPSK \<and> hostapd_get_psk (we_psks E) (w_addr sm) None \<noteq> None \<longrightarrow> pmk_ok E (w_addr sm) (PMK sm)) \<and>
     (armed sm \<and> wpa_ptk_state sm \<in> {WPA_PTK_PTKCALCNEGOTIATING2, WPA_PTK_PTKINITNEGOTIATING} \<longrightarrow> MICVerified sm) \<and>
     (armed sm \<and> MICVerified sm \<and>
      wpa_ptk_state sm \<in> {WPA_PTK_PTKCALCNEGOTIATING, WPA_PTK_PTKCALCNEGOTIATING2, WPA_PTK_PTKINITNEGOTIATING} \<longrightarrow> PTK_valid sm) \<and>
     wpa_ptk_state sm \<noteq> WPA_PTK_INITPMK"

lemma psk_sta_sent: "sent sm sm' \<Longrightarrow> psk_sta E R own b sm' \<longleftrightarrow> psk_sta E R own b sm"
  unfolding sent_def by (elim disjE) (simp_all add: psk_sta_def armed_def)

lemma verified_pmk_proven:
  assumes "verified_pmk E wa sm = Some pmk" "\<forall>f. last_rx_eapol_key sm = Some f \<longrightarrow> f \<in> R" "pmk_ok E (w_addr sm) (PMK sm)"
  shows "proven E R (wa_addr wa) (w_addr sm) (wpa_derive_ptk wa sm pmk)" "pmk_ok E (w_addr sm) pmk"
proof -
  let ?f = "case last_rx_eapol_key sm of None \<Rightarrow> [] | Some f \<Rightarrow> f"
  have v: "wpa_verify_key_mic (wpa_derive_ptk wa sm pmk) ?f" and p: "pmk_ok E (w_addr sm) pmk"
    using assms(1,3) find_psk_usable [of _ E "w_addr sm" None] unfolding verified_pmk_def Let_def
    by (auto simp: pmk_ok_def split: if_splits)
  have "?f \<in> R" using v assms(2) by (cases "last_rx_eapol_key sm") (auto simp: wpa_verify_key_mic_def)
  then show "proven E R (wa_addr wa) (w_addr sm) (wpa_derive_ptk wa sm pmk)" "pmk_ok E (w_addr sm) pmk"
    using v p by (auto simp: proven_def derive_handshake pmk_ok_def)
qed

lemmas psk_defs = psk_sta_def armed_def pmk_used_def

lemma enter_psk_plain:
  assumes "has_sta wa i" "psk_sta E R own b (sta wa i)"
  shows "psk_sta E R own b (sta (sm_WPA_PTK_INITIALIZE_Enter E i wa) i)" "psk_sta E R own b (sta (sm_WPA_PTK_DISCONNECT_Enter i wa) i)"
    "psk_sta E R own b (sta (handshake_failure i wa) i)" "psk_sta E R own b (sta (sm_WPA_PTK_DISCONNECTED_Enter i wa) i)"
    "psk_sta E R own b (sta (sm_WPA_PTK_AUTHENTICATION_Enter i wa) i)" "psk_sta E R own b (sta (sm_WPA_PTK_AUTHENTICATION2_Enter i wa) i)"
    "wpa_ptk_state (sta wa i) = WPA_PTK_PTKCALCNEGOTIATING \<Longrightarrow> MICVerified (sta wa i) \<Longrightarrow>
     psk_sta E R own b (sta (sm_WPA_PTK_PTKCALCNEGOTIATING2_Enter i wa) i)"
  using assms(2) unfolding ptk_enter_sta [OF assms(1)] by (simp_all add: psk_defs)

lemma enter_psk_initpsk:
  assumes "has_sta wa i" "psk_sta E R own b (sta wa i)"
  shows "psk_sta E R own b (sta (sm_WPA_PTK_INITPSK_Enter E i wa) i)"
proof (cases "hostapd_get_psk (we_psks E) (w_addr (sta wa i)) None")
  case None
  then show ?thesis using assms(2) unfolding ptk_enter_sta [OF assms(1)] initpsk_def by (simp add: psk_defs)
next
  case (Some k)
  then have "pmk_ok E (w_addr (sta wa i)) (psk_at E k)" using get_psk_usable [of E] unfolding pmk_ok_def by blast
  then show ?thesis using assms(2) Some unfolding ptk_enter_sta [OF assms(1)] initpsk_def by (simp add: psk_defs)
qed

lemma enter_psk_send:
  assumes "has_sta wa i" "psk_sta E R own b (sta wa i)"
  shows "pmk_ok E (w_addr (sta wa i)) (PMK (sta wa i)) \<Longrightarrow> psk_sta E R own b (sta (sm_WPA_PTK_PTKSTART_Enter E i wa) i)"
    "wpa_ptk_state (sta wa i) = WPA_PTK_PTKCALCNEGOTIATING2 \<or> wpa_ptk_state (sta wa i) = WPA_PTK_PTKINITNEGOTIATING \<Longrightarrow>
      psk_sta E R own b (sta (sm_WPA_PTK_PTKINITNEGOTIATING_Enter E i wa) i)"
  unfolding psk_sta_sent [OF ptkstart_sta [OF assms(1)]] psk_sta_sent [OF ptkinitneg_sta [OF assms(1)]]
  using assms(2) by (simp_all add: psk_defs) blast

lemma enter_psk_done:
  assumes "has_sta wa i" "psk_sta E R own b (sta wa i)" "wpa_ptk_state (sta wa i) = WPA_PTK_PTKINITNEGOTIATING"
  shows "psk_sta E R own b (sta (sm_WPA_PTK_PTKINITDONE_Enter E i wa) i)"
proof -
  obtain p s where "sta (sm_WPA_PTK_PTKINITDONE_Enter E i wa) i = initdone p s (sta wa i)" using ptkinitdone_sta [OF assms(1)] by blast
  then show ?thesis using assms(2,3) by (simp add: psk_defs initdone_def Let_def)
qed

lemma enter_psk_calc:
  assumes "has_sta wa i" "psk_sta E R (wa_addr wa) b (sta wa i)" "wpa_ptk_state (sta wa i) = WPA_PTK_PTKSTART \<or> wpa_ptk_state (sta wa i) = WPA_PTK_PTKCALCNEGOTIATING"
  shows "psk_sta E R (wa_addr wa) b (sta (sm_WPA_PTK_PTKCALCNEGOTIATING_Enter E i wa) i)"
proof -
  define s where "s = (sta wa i)\<lparr>w_changed := True, wpa_ptk_state := WPA_PTK_PTKCALCNEGOTIATING, EAPOLKeyReceived := False\<rparr>"
  have s: "psk_sta E R (wa_addr wa) b s" "\<forall>f. last_rx_eapol_key s = Some f \<longrightarrow> f \<in> R" "pmk_ok E (w_addr s) (PMK s)"
    using assms(2,3) by (simp_all add: psk_defs s_def, blast+)
  show ?thesis
  proof (cases "verified_pmk E wa s")
    case None
    then show ?thesis using s unfolding ptkcalc_sta [OF assms(1)] s_def [symmetric] Let_def by simp
  next
    case (Some pmk)
    then show ?thesis using s(1) verified_pmk_proven [OF Some s(2,3)]
      unfolding ptkcalc_sta [OF assms(1)] s_def [symmetric] Let_def by (simp add: psk_defs)
  qed
qed

lemma ptk_step_psk:
  assumes "has_sta wa i" "psk_sta E R (wa_addr wa) b (sta wa i)"
  shows "psk_sta E R (wa_addr wa) b (sta (sm_WPA_PTK_Step E i wa) i)"
proof -
  have q: "\<not> wpa_key_mgmt_wpa_ieee8021x (w_wpa_key_mgmt (sta wa i))" "wpa_ptk_state (sta wa i) \<noteq> WPA_PTK_INITPMK"
    "PTKRequest (sta wa i) \<or> pmk_used (wpa_ptk_state (sta wa i)) \<Longrightarrow> pmk_ok E (w_addr (sta wa i)) (PMK (sta wa i))"
    "wpa_ptk_state (sta wa i) = WPA_PTK_INITPSK \<Longrightarrow> hostapd_get_psk (we_psks E) (w_addr (sta wa i)) None \<noteq> None \<Longrightarrow>
      pmk_ok E (w_addr (sta wa i)) (PMK (sta wa i))"
    using assms(2) by (auto simp: psk_sta_def)
  note e = enter_psk_plain [OF assms] enter_psk_initpsk [OF assms] enter_psk_send [OF assms] enter_psk_done [OF assms] enter_psk_calc [OF assms]
  show ?thesis
    unfolding sm_WPA_PTK_Step_def Let_def using assms(2) e q
    by (cases "wpa_ptk_state (sta wa i)") (simp_all add: pmk_used_def)
qed

lemma group_enter_psk:
  assumes "has_sta wa i" "psk_sta E R own b (sta wa i)"
  shows "psk_sta E R own b (sta (sm_WPA_PTK_GROUP_Step E i wa) i)"
proof -
  have r: "psk_sta E R own b (sta (sm_WPA_PTK_GROUP_REKEYNEGOTIATING_Enter E i wa) i)"
    unfolding psk_sta_sent [OF group_rekey_sta [OF assms(1)]] using assms(2) by (simp add: psk_defs Let_def)
  have e: "psk_sta E R own b (sta (upd_sta i (\<lambda>sm. sm\<lparr>PtkGroupInit := False\<rparr>) (sm_WPA_PTK_GROUP_IDLE_Enter i wa)) i)"
    "psk_sta E R own b (sta (sm_WPA_PTK_GROUP_IDLE_Enter i wa) i)"
    "psk_sta E R own b (sta (sm_WPA_PTK_GROUP_REKEYESTABLISHED_Enter i wa) i)" "psk_sta E R own b (sta (sm_WPA_PTK_GROUP_KEYERROR_Enter i wa) i)"
    using assms by (simp_all add: group_idle_sta group_done_sta psk_defs)
  show ?thesis unfolding sm_WPA_PTK_GROUP_Step_def Let_def
    using assms(2) r e by (cases "wpa_ptk_group_state (sta wa i)") simp_all
qed

lemma group_step_calls [simp]: "key_calls (sm_WPA_PTK_GROUP_Step E i wa) = key_calls wa"
  by (simp add: sm_WPA_PTK_GROUP_Step_def Let_def split: wpa_ptk_group_states.split)

lemma ptk_step_calls:
  assumes "has_sta wa i" "psk_sta E R own b (sta wa i)"
  shows "adds (\<lambda>c. proven E R own (w_addr (sta wa i)) (PTK (sta wa i)) \<and> pmk_ok E (w_addr (sta wa i)) (PMK (sta wa i)) \<and>
    own_call i (sta wa i) c) wa (sm_WPA_PTK_Step E i wa)"
proof (cases "\<not> Init (sta wa i) \<and> \<not> Disconnect (sta wa i) \<and> \<not> DeauthenticationRequest (sta wa i) \<and> \<not> AuthenticationRequest (sta wa i) \<and>
    \<not> ReAuthenticationRequest (sta wa i) \<and> \<not> PTKRequest (sta wa i) \<and> wpa_ptk_state (sta wa i) = WPA_PTK_PTKINITNEGOTIATING \<and>
    armed (sta wa i) \<and> MICVerified (sta wa i)")
  case True
  then have "proven E R own (w_addr (sta wa i)) (PTK (sta wa i))" "pmk_ok E (w_addr (sta wa i)) (PMK (sta wa i))"
    using assms(2) by (auto simp: psk_sta_def)
  then show ?thesis using True key_calls_done [OF assms(1), of E] by (simp add: sm_WPA_PTK_Step_def Let_def armed_def)
next
  case False
  then have "key_calls (sm_WPA_PTK_Step E i wa) = key_calls wa"
    unfolding sm_WPA_PTK_Step_def Let_def armed_def by (cases "wpa_ptk_state (sta wa i)") (simp_all, blast)
  then show ?thesis by (rule adds_same)
qed

section \<open>The invariant of the authenticator\<close>

definition call_ok :: "wpa_env \<Rightarrow> bytes set \<Rightarrow> bytes \<Rightarrow> wpa_call \<Rightarrow> bool" where
  "call_ok E frames own c \<longleftrightarrow> (case c of
      W_set_key v alg addr idx key \<Rightarrow>
        (\<exists>a ptk. addr = Some a \<and> proven E frames own a ptk \<and> key = take (if alg = WPA_ALG_TKIP then 32 else 16) (tk1 ptk @ tk2 ptk))
    | W_set_eapol addr var b \<Rightarrow> (\<exists>ptk. proven E frames own addr ptk)
    | _ \<Rightarrow> True)"

definition renewing :: "wpa_authenticator \<Rightarrow> nat \<Rightarrow> bool" where
  "renewing wa i \<longleftrightarrow> (\<exists>s us. W_register_timeout s us (T_rekey_ptk i) \<in> set (key_calls wa))"

text \<open>Outside of its loop a machine has no frame to take up in the late states of the handshake.\<close>

definition at_rest :: "wpa_state_machine \<Rightarrow> bool" where
  "at_rest sm \<longleftrightarrow> wpa_ptk_state sm \<noteq> WPA_PTK_PTKCALCNEGOTIATING2 \<and>
     (wpa_ptk_state sm \<in> {WPA_PTK_PTKCALCNEGOTIATING, WPA_PTK_PTKINITNEGOTIATING} \<longrightarrow> \<not> armed sm)"

definition psk_inv :: "wpa_env \<Rightarrow> bytes set \<Rightarrow> wpa_authenticator \<Rightarrow> bool" where
  "psk_inv E frames wa \<longleftrightarrow>
     (\<forall>i. has_sta wa i \<longrightarrow> psk_sta E frames (wa_addr wa) (renewing wa i) (sta wa i) \<and> (\<not> in_step_loop (sta wa i) \<longrightarrow> at_rest (sta wa i))) \<and>
     (\<forall>c\<in>set (key_calls wa). call_ok E frames (wa_addr wa) c) \<and> wc_wpa_key_mgmt (wa_conf wa) = WPA_KEY_MGMT_PSK \<and>
     (\<forall>i. renewing wa i \<longrightarrow> i < length (wa_stas wa))"

lemma psk_inv_cong:
  assumes "psk_inv E R wa" "wa_conf wa' = wa_conf wa" "wa_addr wa' = wa_addr wa" "length (wa_stas wa') = length (wa_stas wa)" "key_calls wa' = key_calls wa"
    "\<And>i. has_sta wa' i \<Longrightarrow> has_sta wa i"
    "\<And>i. has_sta wa' i \<Longrightarrow> psk_sta E R (wa_addr wa) (renewing wa i) (sta wa' i) \<and> (\<not> in_step_loop (sta wa' i) \<longrightarrow> at_rest (sta wa' i))"
  shows "psk_inv E R wa'"
  using assms by (simp add: psk_inv_def renewing_def)

lemma psk_inv_upd:
  assumes "psk_inv E R wa" "psk_sta E R (wa_addr wa) (renewing wa i) (sta wa i) \<Longrightarrow> psk_sta E R (wa_addr wa) (renewing wa i) (f (sta wa i))"
    "\<not> in_step_loop (f (sta wa i)) \<Longrightarrow> (\<not> in_step_loop (sta wa i) \<Longrightarrow> at_rest (sta wa i)) \<Longrightarrow> at_rest (f (sta wa i))"
  shows "psk_inv E R (upd_sta i f wa)"
proof (rule psk_inv_cong [OF assms(1)])
  fix j assume "has_sta (upd_sta i f wa) j"
  then show "psk_sta E R (wa_addr wa) (renewing wa j) (sta (upd_sta i f wa) j) \<and>
      (\<not> in_step_loop (sta (upd_sta i f wa) j) \<longrightarrow> at_rest (sta (upd_sta i f wa) j))"
    using assms by (cases "j = i") (auto simp: psk_inv_def)
qed simp_all

lemma psk_inv_grp [simp]: "psk_inv E R (upd_grp v f wa) = psk_inv E R wa"
  by (simp add: psk_inv_def renewing_def)

lemma psk_inv_log [simp]: "\<not> key_call c \<Longrightarrow> psk_inv E R (log_w c wa) = psk_inv E R wa"
  by (simp add: psk_inv_def renewing_def)

lemma pass_psk:
  assumes "psk_inv E R wa" "wpa_wf wa" "has_sta wa i" "in_step_loop (sta wa i)"
  shows "psk_inv E R (snd (wpa_sm_pass E i wa))"
proof -
  define w0 where "w0 = upd_grp (head_group (upd_sta i (\<lambda>sm. sm\<lparr>w_changed := False\<rparr>) wa)) (\<lambda>g. g\<lparr>g_changed := False\<rparr>)
    (upd_sta i (\<lambda>sm. sm\<lparr>w_changed := False\<rparr>) wa)"
  define w1 where "w1 = sm_WPA_PTK_Step E i w0"
  define w2 where "w2 = sm_WPA_PTK_GROUP_Step E i w1"
  obtain w where "wpa_sm_pass E i wa = (False, w)" and sh: "same_shape wa w"
    and oth: "\<forall>j. j \<noteq> i \<longrightarrow> has_sta wa j \<longrightarrow> sta w j = sta wa j" using wpa_sm_pass_spec [OF assms(2,3), of E] by blast
  then have p: "snd (wpa_sm_pass E i wa) = w" "w = w2"
    unfolding wpa_sm_pass_def Let_def w0_def [symmetric] w1_def [symmetric] w2_def [symmetric] by (auto split: if_splits)
  have addr: "wa_conf w2 = wa_conf wa" "wa_addr w2 = wa_addr wa" "length (wa_stas w2) = length (wa_stas wa)" "has_sta w2 j = has_sta wa j"
    "in_step_loop (sta w2 i)" for j
    using sh p assms(3,4) by (simp_all add: same_shape_def settings_def)
  have s0: "has_sta w0 i" "psk_sta E R (wa_addr w0) (renewing wa i) (sta w0 i)" "key_calls w0 = key_calls wa" "wa_addr w0 = wa_addr wa"
    using assms(1,3) by (simp_all add: w0_def psk_inv_def psk_defs)
  have step: "psk_sta E R (wa_addr wa) b (sta w2 i)" if "psk_sta E R (wa_addr w0) b (sta w0 i)" for b
  proof -
    have "psk_sta E R (wa_addr wa) b (sta w1 i)" using ptk_step_psk [OF s0(1) that] s0(4) by (simp add: w1_def)
    then show ?thesis using group_enter_psk [of w1 i] s0(1) by (simp add: w1_def w2_def)
  qed
  obtain cs where cs: "key_calls w2 = cs @ key_calls wa"
    "\<forall>c\<in>set cs. proven E R (wa_addr wa) (w_addr (sta w0 i)) (PTK (sta w0 i)) \<and> pmk_ok E (w_addr (sta w0 i)) (PMK (sta w0 i)) \<and> own_call i (sta w0 i) c"
    using ptk_step_calls [OF s0(1,2)] s0(3,4) by (auto simp: adds_def w1_def w2_def list_all_iff)
  have ren: "renewing w2 j \<Longrightarrow> renewing wa j \<or> j = i \<and> psk_sta E R (wa_addr wa) True (sta w2 i)" for j
  proof -
    assume "renewing w2 j"
    then obtain s us where "W_register_timeout s us (T_rekey_ptk j) \<in> set cs \<or> renewing wa j" by (auto simp: renewing_def cs)
    then show ?thesis
    proof
      assume c: "W_register_timeout s us (T_rekey_ptk j) \<in> set cs"
      then have "j = i" "psk_sta E R (wa_addr w0) True (sta w0 i)" using cs(2) s0(2) by (auto simp: own_call_def psk_sta_def)
      then show ?thesis using step by blast
    qed simp
  qed
  have sta2: "psk_sta E R (wa_addr w2) (renewing w2 j) (sta w2 j) \<and> (\<not> in_step_loop (sta w2 j) \<longrightarrow> at_rest (sta w2 j))" if "has_sta w2 j" for j
  proof (cases "j = i")
    case True
    have "psk_sta E R (wa_addr wa) (renewing w2 i) (sta w2 i)"
      using step [OF s0(2)] ren [of i] unfolding psk_sta_def by blast
    then show ?thesis using True addr by simp
  next
    case False
    then have "sta w2 j = sta wa j" "renewing w2 j = renewing wa j"
      using oth that addr p ren [of j] by (auto simp: renewing_def cs(1))
    then show ?thesis using assms(1) that addr by (simp add: psk_inv_def)
  qed
  have "call_ok E R (wa_addr wa) c" if "c \<in> set cs" for c
    using cs(2) that by (cases c) (force simp: own_call_def call_ok_def)+
  then have "\<forall>c\<in>set (key_calls w2). call_ok E R (wa_addr w2) c" using assms(1) cs(1) addr by (auto simp: psk_inv_def)
  moreover have "renewing w2 j \<Longrightarrow> j < length (wa_stas w2)" for j
    using ren [of j] assms(1,3) addr by (auto simp: psk_inv_def has_sta_def)
  ultimately show ?thesis using sta2 p assms(1) addr(1) by (simp add: psk_inv_def)
qed

lemma idle_at_rest: "psk_sta E R own b sm \<Longrightarrow> idle sm \<Longrightarrow> at_rest (sm\<lparr>in_step_loop := False\<rparr>)"
  by (cases "wpa_ptk_state sm") (auto simp: psk_defs idle_def at_rest_def split: if_splits)

lemma psk_sta_loop [simp]: "psk_sta E R own b (sm\<lparr>in_step_loop := c\<rparr>) = psk_sta E R own b sm"
  by (simp add: psk_defs)

interpretation psk: wpa_invariant E "{}" idle "psk_inv E R" for E R
proof
  fix wa :: wpa_authenticator and i j v n b s us t and wa' :: wpa_authenticator
  show "wpa_wf wa \<Longrightarrow> has_sta wa i \<Longrightarrow> in_step_loop (sta wa i) \<Longrightarrow> wpa_sm_loop n E i wa = Some wa' \<Longrightarrow> idle (sta wa' i)"
    by (rule loop_idle)
  show "psk_inv E R wa \<Longrightarrow> wpa_wf wa \<Longrightarrow> has_sta wa i \<Longrightarrow> in_step_loop (sta wa i) \<Longrightarrow> psk_inv E R (snd (wpa_sm_pass E i wa))"
    by (rule pass_psk)
  show "psk_inv E R wa \<Longrightarrow> psk_inv E R (mark_move j wa)"
    unfolding mark_move_def by (rule psk_inv_upd) (simp_all add: psk_defs at_rest_def)
  show "psk_inv E R wa \<Longrightarrow> psk_inv E R (upd_sta i (\<lambda>sm. sm\<lparr>in_step_loop := True\<rparr>) wa)"
    by (rule psk_inv_upd) (simp_all add: psk_defs)
  show "psk_inv E R wa \<Longrightarrow> has_sta wa i \<Longrightarrow> idle (sta wa i) \<Longrightarrow> psk_inv E R (upd_sta i (\<lambda>sm. sm\<lparr>in_step_loop := False\<rparr>) wa)"
    by (rule psk_inv_upd) (auto simp: psk_inv_def intro: idle_at_rest [of E R])
qed (simp_all add: wpa_group_gtk_init_def wpa_group_setkeysdone_def setkeys_move_def Let_def wpa_auth_set_key_def)

section \<open>Inputs\<close>

lemma psk_sta_mono: "psk_sta E R own b sm \<Longrightarrow> R \<subseteq> R' \<Longrightarrow> psk_sta E R' own b sm"
  unfolding psk_sta_def using proven_mono [of E R own] by blast

lemma call_ok_mono: "call_ok E R own c \<Longrightarrow> R \<subseteq> R' \<Longrightarrow> call_ok E R' own c"
  unfolding call_ok_def using proven_mono [of E R own _ _ R'] by (auto split: wpa_call.splits) blast+

lemma psk_inv_mono: "psk_inv E R wa \<Longrightarrow> R \<subseteq> R' \<Longrightarrow> psk_inv E R' wa"
  unfolding psk_inv_def using psk_sta_mono call_ok_mono by blast

text \<open>A machine outside of its loop whose keys are withdrawn.\<close>

lemma step_psk:
  assumes "psk_inv E R wa" "wpa_ok wa" "has_sta wa i" "map_option snd (wpa_sm_step E i wa) = Some wa'"
  shows "psk_inv E R wa'"
  using assms psk.step_inv [OF assms(1) _ assms(3)] by (auto simp: wpa_ok_def)

lemma rest_upd_psk:
  assumes "psk_inv E R wa" "wpa_ok wa" "has_sta wa i"
    "psk_sta E R (wa_addr wa) (renewing wa i) (sta wa i) \<Longrightarrow> at_rest (sta wa i) \<Longrightarrow>
     psk_sta E R (wa_addr wa) (renewing wa i) (f (sta wa i)) \<and> at_rest (f (sta wa i))"
  shows "psk_inv E R (upd_sta i f wa)"
  using assms(1-3) assms(4) by (intro psk_inv_upd) (auto simp: psk_inv_def wpa_ok_def)

lemmas rest_defs = psk_defs at_rest_def

lemma sta_init_psk:
  assumes "psk_inv E R wa"
  shows "psk_inv E R (snd (wpa_auth_sta_init E addr wa))"
proof -
  have z: "psk_sta E R own False (wpa_sm_zero\<lparr>w_addr := addr, w_group := g\<rparr>)" "at_rest (wpa_sm_zero\<lparr>w_addr := addr, w_group := g\<rparr>)" for own g
    by (simp_all add: rest_defs wpa_sm_zero_def wpa_key_mgmt_wpa_ieee8021x_def)
  have r: "\<not> renewing wa (length (wa_stas wa))" using assms by (auto simp: psk_inv_def)
  show ?thesis
    using assms z r
    by (auto simp: wpa_auth_sta_init_def wpa_alloc_def Let_def psk_inv_def renewing_def key_calls_def has_sta_def sta_def nth_append
        log_w_def less_Suc_eq split: if_splits)
qed

lemma init_step_psk:
  assumes "psk_inv E R wa" "wpa_ok wa" "has_sta wa i" "wpa_sm_init_step E i wa = Some (r, wa')"
  shows "psk_inv E R wa'"
proof -
  let ?w = "upd_sta i (\<lambda>sm. sm\<lparr>w_started := True, Init := True\<rparr>) wa"
  have w: "psk_inv E R ?w" "wpa_ok ?w" "has_sta ?w i"
    using rest_upd_psk [OF assms(1-3), of "\<lambda>sm. sm\<lparr>w_started := True, Init := True\<rparr>"] ok_plain [OF assms(2,3)] assms(3)
    by (simp_all add: rest_defs sta_ok_def)
  obtain w' where st: "wpa_sm_step E i ?w = Some (0, w')" "wpa_ok w'" "has_sta w' i"
    using ok_step [OF w(2,3), of E] w(3) by (auto simp: same_shape_def)
  then have "psk_inv E R w'" using step_psk [OF w] by simp
  then have "psk_inv E R (upd_sta i (\<lambda>sm. sm\<lparr>Init := False, AuthenticationRequest := True\<rparr>) w')"
    using rest_upd_psk [OF _ st(2,3)] by (simp add: rest_defs)
  then show ?thesis using assms(4) st(1) by (auto simp: wpa_sm_init_step_def)
qed

lemma associated_psk:
  assumes "psk_inv E R wa" "wpa_ok wa" "has_sta wa i" "map_option snd (wpa_auth_sta_associated E i wa) = Some wa'"
  shows "psk_inv E R wa'"
proof -
  let ?w = "upd_sta i (\<lambda>sm. sm\<lparr>key_replay := replicate RSNA_MAX_EAPOL_RETRIES (replicate WPA_REPLAY_COUNTER_LEN 0, False),
    ReAuthenticationRequest := True\<rparr>) wa"
  have w: "psk_inv E R ?w" "wpa_ok ?w" "has_sta ?w i"
    using rest_upd_psk [OF assms(1-3), of "\<lambda>sm. sm\<lparr>key_replay := replicate RSNA_MAX_EAPOL_RETRIES (replicate WPA_REPLAY_COUNTER_LEN 0, False),
      ReAuthenticationRequest := True\<rparr>"] ok_plain [OF assms(2,3)] assms(3)
    by (simp_all add: rest_defs sta_ok_def)
  obtain w0 where i: "wpa_sm_init_step E i wa = Some (0, w0)" "wpa_ok w0" "has_sta w0 i" using init_step_returns [OF assms(2,3)] by blast
  show ?thesis
    using assms(1,4) step_psk [OF w, of wa'] step_psk [OF init_step_psk [OF assms(1-3) i(1)] i(2,3), of wa'] i(1)
    by (auto simp: wpa_auth_sta_associated_def split: if_splits)
qed

lemma remove_ptk_psk:
  assumes "psk_inv E R wa" "wpa_ok wa" "has_sta wa i"
  shows "psk_inv E R (wpa_remove_ptk E i wa)"
proof -
  let ?f = "\<lambda>sm. sm\<lparr>PTK_valid := False, PTK := wpa_ptk_zero\<rparr>"
  have "psk_inv E R (upd_sta i ?f wa)" by (rule rest_upd_psk [OF assms]) (auto simp: rest_defs)
  moreover have "wpa_ok (upd_sta i ?f wa)" by (rule ok_plain [OF assms(2,3)]) (simp add: sta_ok_def)
  ultimately have "psk_inv E R (upd_sta i (\<lambda>sm. sm\<lparr>pairwise_set := False\<rparr>) (log_w (W_set_key 0 WPA_ALG_NONE (Some a) 0 []) (upd_sta i ?f wa)))" for a
    by (intro rest_upd_psk) (use assms(3) in \<open>simp_all add: rest_defs\<close>)
  then show ?thesis by (simp add: wpa_remove_ptk_def wpa_auth_set_key_def Let_def)
qed

lemma event_psk:
  assumes "psk_inv E R wa" "wpa_ok wa" "has_sta wa i" "map_option snd (wpa_auth_sm_event E ev i wa) = Some wa'"
  shows "psk_inv E R wa'"
proof -
  obtain w where w: "event_request E ev i wa = Some (0, w)" "wpa_ok w" "has_sta w i" using event_request_ok [OF assms(2,3)] by blast
  have d: "psk_inv E R (drop_group_update i wa)"
    unfolding drop_group_update_def Let_def by (rule rest_upd_psk) (use assms in \<open>simp_all add: rest_defs ok_grp keeps_idI\<close>)
  have "psk_inv E R (upd_sta i (\<lambda>sm. sm\<lparr>PtkGroupInit := True\<rparr>) (drop_group_update i wa))"
    by (rule rest_upd_psk [OF d drop_update_ok [OF assms(2,3)]]) (use assms(3) in \<open>simp_all add: rest_defs\<close>)
  moreover have "wpa_ok (upd_sta i (\<lambda>sm. sm\<lparr>PtkGroupInit := True\<rparr>) (drop_group_update i wa))"
    by (rule ok_plain [OF drop_update_ok [OF assms(2,3)]]) (use assms(3) in \<open>simp_all add: sta_ok_def\<close>)
  ultimately have re: "psk_inv E R (upd_sta i (\<lambda>sm. sm\<lparr>ReAuthenticationRequest := True\<rparr>)
      (if GUpdateStationKeys (sta wa i) then upd_sta i (\<lambda>sm. sm\<lparr>PtkGroupInit := True\<rparr>) (drop_group_update i wa) else wa))"
    by (intro rest_upd_psk) (use assms(1-3) in \<open>simp_all add: rest_defs\<close>)
  have de: "psk_inv E R (upd_sta i (\<lambda>sm. sm\<lparr>DeauthenticationRequest := True\<rparr>) wa)"
    by (rule rest_upd_psk [OF assms(1-3)]) (simp add: rest_defs)
  have "psk_inv E R w"
    using w(1) assms(1) re de init_step_psk [OF assms(1-3)] by (cases ev) (auto simp: event_request_def split: if_splits)
  then have c: "psk_inv E R (upd_sta i (\<lambda>sm. sm\<lparr>PTK_valid := False, PTK := wpa_ptk_zero\<rparr>) w)"
    by (rule rest_upd_psk [OF _ w(2,3)]) (auto simp: rest_defs)
  have o: "wpa_ok (upd_sta i (\<lambda>sm. sm\<lparr>PTK_valid := False, PTK := wpa_ptk_zero\<rparr>) w)"
    by (rule ok_plain [OF w(2,3)]) (simp add: sta_ok_def)
  have "psk_inv E R (event_clear E ev i w)"
    using c remove_ptk_psk [OF c o] w(3) by (simp add: event_clear_def Let_def)
  then show ?thesis
    using step_psk [OF _ event_clear_ok [OF w(2,3)], of E R E ev wa'] assms(4) w(1) by (simp add: event_split)
qed

text \<open>A frame is stored: the machine starts its loop with a frame to take up.\<close>

lemma store_psk:
  assumes "psk_inv E R wa" "wpa_ok wa" "has_sta wa i" "data \<in> R" "eapol_key_store E i data wa = Some wa'"
    "\<not> has_flag (key_info_of data) WPA_KEY_INFO_REQUEST \<Longrightarrow> has_flag (key_info_of data) WPA_KEY_INFO_KEY_TYPE \<Longrightarrow>
     (wpa_ptk_state (sta wa i) = WPA_PTK_PTKINITNEGOTIATING \<longrightarrow> MICVerified (sta wa i)) \<and> (MICVerified (sta wa i) \<longrightarrow> PTK_valid (sta wa i))"
  shows "psk_inv E R wa'"
proof -
  let ?a = "log_w W_malloc wa"
  let ?f = "\<lambda>sm. sm\<lparr>last_rx_eapol_key := Some data, EAPOLKeyReceived := True,
    EAPOLKeyPairwise := has_flag (key_info_of data) WPA_KEY_INFO_KEY_TYPE, EAPOLKeyRequest := has_flag (key_info_of data) WPA_KEY_INFO_REQUEST,
    SNonce := take WPA_NONCE_LEN (drop 17 data)\<rparr>"
  have a: "psk_inv E R ?a" "wpa_ok ?a" "has_sta ?a i" using assms(1-3) by simp_all
  have il: "\<not> in_step_loop (sta wa i)" "at_rest (sta wa i)" using assms(1-3) by (auto simp: wpa_ok_def psk_inv_def)
  have e: "upd_sta i (\<lambda>sm. sm\<lparr>in_step_loop := True\<rparr>) (upd_sta i ?f ?a) = upd_sta i (\<lambda>sm. (?f sm)\<lparr>in_step_loop := True\<rparr>) ?a"
    using assms(3) by (simp add: upd_sta_def has_sta_def option.map_comp o_def)
  have "psk_inv E R (upd_sta i (\<lambda>sm. (?f sm)\<lparr>in_step_loop := True\<rparr>) ?a)"
    by (rule psk_inv_upd [OF a(1)]) (use assms(4,6) il(2) in \<open>auto simp: rest_defs\<close>)
  moreover have "wpa_wf (upd_sta i ?f ?a)" using ok_plain [OF a(2,3), of ?f] by (simp add: sta_ok_def wpa_ok_def)
  ultimately have "map_option snd (wpa_sm_step E i (upd_sta i ?f ?a)) = Some wa' \<Longrightarrow> psk_inv E R wa'"
    using psk.step_enter [of E R i "upd_sta i ?f ?a" wa'] a(3) il(1) unfolding e by simp
  moreover have "psk_inv E R (upd_sta i (\<lambda>sm. sm\<lparr>last_rx_eapol_key := None\<rparr>) ?a)"
    by (rule rest_upd_psk [OF a]) (simp add: rest_defs)
  ultimately show ?thesis using assms(5) by (auto simp: eapol_key_store_def wpa_alloc_def Let_def split: if_splits)
qed

lemma request_psk:
  assumes "psk_inv E R wa" "wpa_ok wa" "has_sta wa i" "PTK_valid (sta wa i)" "eapol_key_request E i data wa = Some wa'"
  shows "psk_inv E R wa'"
proof -
  let ?w = "upd_sta i (\<lambda>sm. sm\<lparr>req_replay_counter_used := True, req_replay_counter := replay_counter_of data\<rparr>) wa"
  have w: "psk_inv E R ?w" "wpa_ok ?w" "has_sta ?w i" "PTK_valid (sta ?w i)"
    using rest_upd_psk [OF assms(1-3), of "\<lambda>sm. sm\<lparr>req_replay_counter_used := True, req_replay_counter := replay_counter_of data\<rparr>"]
      ok_plain [OF assms(2,3)] assms(3,4) by (simp_all add: rest_defs sta_ok_def)
  have n: "psk_inv E R (wpa_request_new_ptk i w)" if "psk_inv E R w" "wpa_ok w" "has_sta w i" "PTK_valid (sta w i)" for w
    unfolding wpa_request_new_ptk_def by (rule rest_upd_psk [OF that(1-3)]) (use that(4) in \<open>auto simp: rest_defs\<close>)
  let ?e = "upd_sta i (\<lambda>sm. sm\<lparr>dot11RSNAStatsTKIPRemoteMICFailures := dot11RSNAStatsTKIPRemoteMICFailures sm + 1\<rparr>)
    (log_w (W_mic_failure_report (w_addr (sta ?w i))) ?w)"
  let ?s = "?e\<lparr>wa_StatsTKIPRemoteMICFailures := wa_StatsTKIPRemoteMICFailures ?e + 1\<rparr>"
  have e: "psk_inv E R ?e" "wpa_ok ?e" "has_sta ?e i"
    using rest_upd_psk [of E R "log_w (W_mic_failure_report (w_addr (sta ?w i))) ?w" i]
      ok_plain [of "log_w (W_mic_failure_report (w_addr (sta ?w i))) ?w" i] w by (simp_all add: rest_defs sta_ok_def)
  have st: "has_sta ?s j = has_sta ?e j" "sta ?s j = sta ?e j" "key_calls ?s = key_calls ?e" for j
    by (simp_all add: has_sta_def sta_def key_calls_def)
  have s: "psk_inv E R ?s" "wpa_ok ?s" "has_sta ?s i" "PTK_valid (sta ?s i)"
    using e w(4) assms(3) unfolding psk_inv_def wpa_ok_def wpa_wf_def renewing_def st by (simp_all add: vlans_def)
  have r: "wpa_rekey_gtk E (log_w (W_cancel_timeout T_rekey_gtk) ?w) = Some wa' \<Longrightarrow> psk_inv E R wa'"
    using psk.rekey_gtk_inv [of E R "log_w (W_cancel_timeout T_rekey_gtk) ?w" wa'] w by (simp add: wpa_ok_def)
  show ?thesis
    using assms(5) n [OF s] n [OF w] r w(1) unfolding eapol_key_request_def Let_def
    by (auto split: if_splits option.splits)
qed

lemma msg_check_state:
  assumes "eapol_key_msg_check sm data = Some Msg_ok" "\<not> has_flag (key_info_of data) WPA_KEY_INFO_REQUEST"
    "has_flag (key_info_of data) WPA_KEY_INFO_KEY_TYPE" "wpa_ptk_state sm = WPA_PTK_PTKINITNEGOTIATING"
  shows "PTK_valid sm"
  using assms unfolding eapol_key_msg_check_def by (cases "wpa_msg_of data") (auto simp: wpa_msg_of_def Let_def split: if_splits)

lemma receive_psk:
  assumes "psk_inv E R wa" "wpa_ok wa" "has_sta wa i" "data \<in> R" "wpa_receive E i data wa = Some wa'"
  shows "psk_inv E R wa'"
proof -
  let ?v = "\<lambda>b. upd_sta i (\<lambda>sm. sm\<lparr>MICVerified := b\<rparr>)"
  let ?n = "?v False wa"
  define mm where "mm = (if PTK_valid (sta wa i) then log_w (W_cancel_timeout (T_send_eapol i)) (?v True ?n) else ?n)"
  let ?k = "\<lambda>w. upd_sta i (\<lambda>sm. sm\<lparr>key_replay := (key_replay sm)[0 := (fst (key_replay sm ! 0), False)]\<rparr>) w"
  have n: "psk_inv E R ?n" "wpa_ok ?n" "has_sta ?n i"
    using rest_upd_psk [OF assms(1-3), of "\<lambda>sm. sm\<lparr>MICVerified := False\<rparr>"] ok_plain [OF assms(2,3), of "\<lambda>sm. sm\<lparr>MICVerified := False\<rparr>"] assms(3)
    by (auto simp: rest_defs sta_ok_def)
  have m: "psk_inv E R mm" "wpa_ok mm" "has_sta mm i"
    using rest_upd_psk [OF n, of "\<lambda>sm. sm\<lparr>MICVerified := True\<rparr>"] ok_plain [OF n(2,3), of "\<lambda>sm. sm\<lparr>MICVerified := True\<rparr>"] n assms(3)
    by (auto simp: rest_defs sta_ok_def mm_def)
  have s: "MICVerified (sta mm i) = PTK_valid (sta wa i)" "PTK_valid (sta mm i) = PTK_valid (sta wa i)"
    "wpa_ptk_state (sta mm i) = wpa_ptk_state (sta wa i)" using assms(3) by (simp_all add: mm_def)
  have rq: "psk_inv E R wa'"
    if "PTK_valid (sta wa i)" "has_flag (key_info_of data) WPA_KEY_INFO_REQUEST"
      "(case eapol_key_request E i data mm of None \<Rightarrow> None | Some wa \<Rightarrow> eapol_key_store E i data wa) = Some wa'"
  proof -
    obtain w where w: "eapol_key_request E i data mm = Some w" "wpa_ok w" "has_sta w i" using request_returns [OF m(2,3)] by blast
    have "psk_inv E R w" by (rule request_psk [OF m _ w(1)]) (use s that in simp)
    then show ?thesis using store_psk [OF _ w(2,3) assms(4), of E wa'] that w(1) by simp
  qed
  have nr: "psk_inv E R wa'"
    if "eapol_key_msg_check (sta wa i) data = Some Msg_ok" "\<not> has_flag (key_info_of data) WPA_KEY_INFO_REQUEST"
      "eapol_key_store E i data (?k mm) = Some wa'"
  proof -
    have k: "psk_inv E R (?k mm)" "wpa_ok (?k mm)" "has_sta (?k mm) i"
      using rest_upd_psk [OF m, of "\<lambda>sm. sm\<lparr>key_replay := (key_replay sm)[0 := (fst (key_replay sm ! 0), False)]\<rparr>"]
        ok_plain [OF m(2,3), of "\<lambda>sm. sm\<lparr>key_replay := (key_replay sm)[0 := (fst (key_replay sm ! 0), False)]\<rparr>"] m(3)
      by (simp_all add: rest_defs sta_ok_def)
    show ?thesis
      by (rule store_psk [OF k assms(4) that(3)])
        (use msg_check_state [OF that(1,2)] s m(3) in simp)
  qed
  show ?thesis
  proof (cases "eapol_key_accepted wa (sta wa i) data \<and> eapol_key_msg_check (sta wa i) data = Some Msg_ok \<and>
      \<not> has_flag (key_info_of data) WPA_KEY_INFO_ACK \<and> has_flag (key_info_of data) WPA_KEY_INFO_MIC \<and>
      (PTK_valid (sta wa i) \<longrightarrow> wpa_verify_key_mic (PTK (sta wa i)) data)")
    case True
    show ?thesis
    proof (cases "has_flag (key_info_of data) WPA_KEY_INFO_REQUEST")
      case r: True
      show ?thesis
      proof (cases "PTK_valid (sta wa i)")
        case v: True
        then show ?thesis using assms(3,5) True r rq by (simp add: wpa_receive_def Let_def mm_def)
      next
        case False
        then show ?thesis using assms(3,5) True r n(1) by (simp add: wpa_receive_def Let_def)
      qed
    next
      case r: False
      then show ?thesis using assms(5) True nr unfolding wpa_receive_def Let_def mm_def [symmetric] by (auto split: if_splits)
    qed
  next
    case False
    then have "wa' = wa \<or> wa' = wpa_sta_disconnect (w_addr (sta wa i)) wa \<or> wa' = ?n"
      using assms(5) unfolding wpa_receive_def Let_def by (auto split: if_splits option.splits wpa_verdict.splits)
    then show ?thesis using assms(1) n(1) by (auto simp: wpa_sta_disconnect_def)
  qed
qed

lemma restart_psk:
  assumes "psk_inv E R wa" "wpa_ok wa" "v \<in> set (vlans wa)" "wpa_group_restart E v wa = Some wa'"
  shows "psk_inv E R wa'"
  by (rule psk.restart_inv [OF assms(1) _ assms(3,4)]) (use assms(2) in \<open>simp_all add: wpa_ok_def\<close>)

lemma add_group_psk:
  assumes "psk_inv E R wa" "wpa_ok wa" "v \<notin> set (vlans wa)" "wpa_auth_add_group E seed now ptr v wa = Some (ok, wa')"
  shows "psk_inv E R wa'"
proof -
  have r: "psk_inv E R w'"
    if "wpa_group_restart E v (log_w W_malloc wa\<lparr>wa_group := (case wa_group wa of [] \<Rightarrow> [g] | h # gs \<Rightarrow> h # g # gs)\<rparr>) = Some w'" "vlan_id g = v" for g w'
  proof (rule restart_psk [OF _ _ _ that(1)])
    have "wpa_ok (log_w W_malloc wa)" "vlan_id g \<notin> set (vlans (log_w W_malloc wa))" using assms(2,3) that(2) by simp_all
    from ok_add_group [OF this] show "wpa_ok (log_w W_malloc wa\<lparr>wa_group := (case wa_group wa of [] \<Rightarrow> [g] | h # gs \<Rightarrow> h # g # gs)\<rparr>)" by simp
    have "wa_group (log_w W_malloc wa) \<noteq> []" using assms(2) by (simp add: wpa_ok_def wpa_wf_def)
    from vlans_append [OF this, of g] show "v \<in> set (vlans (log_w W_malloc wa\<lparr>wa_group := (case wa_group wa of [] \<Rightarrow> [g] | h # gs \<Rightarrow> h # g # gs)\<rparr>))"
      using that(2) by simp
    have "psk_inv E R (log_w W_malloc wa)" using assms(1) by simp
    then show "psk_inv E R (log_w W_malloc wa\<lparr>wa_group := (case wa_group wa of [] \<Rightarrow> [g] | h # gs \<Rightarrow> h # g # gs)\<rparr>)"
      by (simp add: psk_inv_def renewing_def key_calls_def has_sta_def sta_def)
  qed
  have "psk_inv E R (log_w W_malloc wa)" using assms(1) by simp
  then show ?thesis using assms(1,4) r
    by (auto simp: wpa_auth_add_group_def wpa_group_init_def wpa_alloc_def Let_def split: if_splits option.splits)
qed

lemma set_vlan_psk:
  assumes "psk_inv E R wa" "wpa_ok wa" "has_sta wa i" "map_option snd (wpa_auth_sta_set_vlan E seed now ptr i v wa) = Some wa'"
  shows "psk_inv E R wa'"
proof -
  have mv: "psk_inv E R w \<Longrightarrow> psk_inv E R (upd_sta i (\<lambda>sm. sm\<lparr>w_group := v\<rparr>) w)" for w
    by (rule psk_inv_upd) (simp_all add: rest_defs)
  have f: "find_group v (wa_group wa) \<noteq> None \<longleftrightarrow> v \<in> set (vlans wa)" by (simp only: find_group_some vlans_def list.set_map)
  show ?thesis
  proof (cases "v \<in> set (vlans wa)")
    case True
    then show ?thesis using assms(1,4) mv f by (auto simp: wpa_auth_sta_set_vlan_def)
  next
    case False
    then show ?thesis using assms(4) mv f add_group_psk [OF assms(1,2) False, of seed now ptr]
      by (auto simp: wpa_auth_sta_set_vlan_def split: option.splits if_splits)
  qed
qed

lemma deinit_psk:
  assumes "psk_inv E R wa" "wpa_ok wa" "has_sta wa i"
  shows "psk_inv E R (wpa_auth_sta_deinit i wa)"
proof -
  have "psk_inv E R (wpa_free_sta_sm i w)" if "psk_inv E R w" for w
  proof (rule psk_inv_cong [OF that])
    fix j assume j: "has_sta (wpa_free_sta_sm i w) j"
    then show h: "has_sta w j" by (cases "j = i") (auto simp: has_sta_def wpa_free_sta_sm_def)
    have "sta (wpa_free_sta_sm i w) j = sta w j" using j by (cases "j = i") (auto simp: has_sta_def sta_def wpa_free_sta_sm_def)
    then show "psk_sta E R (wa_addr w) (renewing w j) (sta (wpa_free_sta_sm i w) j) \<and>
        (\<not> in_step_loop (sta (wpa_free_sta_sm i w) j) \<longrightarrow> at_rest (sta (wpa_free_sta_sm i w) j))"
      using that h by (simp add: psk_inv_def)
  qed (simp_all add: wpa_free_sta_sm_def key_calls_def)
  moreover have "\<not> in_step_loop (sta wa i)" using assms by (simp add: wpa_ok_def)
  ultimately show ?thesis using assms(1) by (simp add: wpa_auth_sta_deinit_def Let_def)
qed

lemma pmksa_update_psk:
  assumes "psk_inv E R wa"
  shows "psk_inv E R (pmksa_update c wa)"
proof (rule psk_inv_cong [OF assms])
  show "length (wa_stas (pmksa_update c wa)) = length (wa_stas wa)"
    using free_cbs [of "filter (\<lambda>a. a \<notin> set (pmksa_list c)) (pmksa_list (wa_pmksa wa))" "wa\<lparr>wa_pmksa := c\<rparr>"] by (simp add: pmksa_update_def)
  fix j assume j: "has_sta (pmksa_update c wa) j"
  then show h: "has_sta wa j" by (simp add: update_sta)
  obtain p where p: "sta (pmksa_update c wa) j = (sta wa j)\<lparr>w_pmksa := p\<rparr>" using update_sta(8) [OF h] by blast
  show "psk_sta E R (wa_addr wa) (renewing wa j) (sta (pmksa_update c wa) j) \<and>
      (\<not> in_step_loop (sta (pmksa_update c wa) j) \<longrightarrow> at_rest (sta (pmksa_update c wa) j))"
    using assms h unfolding p by (simp add: psk_inv_def rest_defs)
qed (simp_all add: update_sta key_calls_def)

lemma validate_psk:
  assumes "psk_inv E R wa" "wpa_ok wa" "has_sta wa i" "validate_sta i m ie wa = Some wa'"
  shows "psk_inv E R wa'"
proof -
  obtain w sm where v: "wa' = upd_sta i (\<lambda>_. sm) w" "validated wa (sta wa i) w sm"
    using validate_sta_ok [OF assms(2,3), of m ie] assms(4) by auto
  have w: "psk_inv E R w" "has_sta w i" "sta w i = sta wa i" "renewing w i = renewing wa i" "wa_addr w = wa_addr wa"
    using assms(1,3) v(2) by (simp_all add: validated_def psk_inv_def renewing_def key_calls_def has_sta_def sta_def settings_def)
  have "(m AND WPA_KEY_MGMT_PSK) AND WPA_KEY_MGMT_IEEE8021X = 0" for m :: int by (simp add: and.assoc)
  then have "w_wpa_key_mgmt sm = w_wpa_key_mgmt (sta wa i) \<or> w_wpa_key_mgmt sm = WPA_KEY_MGMT_PSK"
    using v(2) assms(1) by (auto simp: validated_def psk_inv_def)
  moreover have np: "\<not> wpa_key_mgmt_wpa_ieee8021x (w_wpa_key_mgmt (sta wa i))" using assms(1,3) by (simp add: psk_inv_def psk_sta_def)
  ultimately have k: "\<not> wpa_key_mgmt_wpa_ieee8021x (w_wpa_key_mgmt sm)" by (auto simp: wpa_key_mgmt_wpa_ieee8021x_def)
  have u: "psk_sta E R own b (sm\<lparr>w_wpa_key_mgmt := 0\<rparr>) = psk_sta E R own b (unnegotiated sm)" "at_rest (unnegotiated sm) = at_rest sm"
    "in_step_loop (unnegotiated sm) = in_step_loop sm" for own b sm
    by (simp_all add: rest_defs unnegotiated_def)
  have k0: "\<not> wpa_key_mgmt_wpa_ieee8021x (w_wpa_key_mgmt sm) \<Longrightarrow> psk_sta E R own b (sm\<lparr>w_wpa_key_mgmt := 0\<rparr>) = psk_sta E R own b sm" for own b sm
    by (simp add: rest_defs wpa_key_mgmt_wpa_ieee8021x_def)
  have eq: "unnegotiated sm = unnegotiated (sta wa i)" using v(2) by (simp add: validated_def)
  have p: "psk_sta E R own b sm = psk_sta E R own b (sta wa i)" for own b
    using k0 [OF k] k0 [OF np] u(1) [of own b sm] u(1) [of own b "sta wa i"] eq by simp
  have r: "at_rest sm = at_rest (sta wa i)" "in_step_loop sm = in_step_loop (sta wa i)"
    using u(2,3) [of sm] u(2,3) [of "sta wa i"] eq by simp_all
  show ?thesis unfolding v(1) by (rule psk_inv_upd [OF w(1)]) (use p r w(3) in auto)
qed

section \<open>The address of the authenticator\<close>

lemma step_addr:
  assumes "wpa_ok wa" "has_sta wa i" "wpa_sm_step E i wa = Some (r, wa')"
  shows "wa_addr wa' = wa_addr wa"
  using ok_step [OF assms(1,2), of E] assms(3) by (auto simp: same_shape_def settings_def)

lemma init_step_addr:
  assumes "wpa_ok wa" "has_sta wa i" "wpa_sm_init_step E i wa = Some (r, wa')"
  shows "wa_addr wa' = wa_addr wa"
proof -
  let ?w = "upd_sta i (\<lambda>sm. sm\<lparr>w_started := True, Init := True\<rparr>) wa"
  have "wpa_ok ?w" by (rule ok_plain [OF assms(1,2)]) (simp add: sta_ok_def)
  then show ?thesis using assms(2,3) step_addr [of ?w i E] by (auto simp: wpa_sm_init_step_def split: option.splits if_splits)
qed

lemma associated_addr:
  assumes "wpa_ok wa" "has_sta wa i" "map_option snd (wpa_auth_sta_associated E i wa) = Some wa'"
  shows "wa_addr wa' = wa_addr wa"
proof -
  let ?w = "upd_sta i (\<lambda>sm. sm\<lparr>key_replay := replicate RSNA_MAX_EAPOL_RETRIES (replicate WPA_REPLAY_COUNTER_LEN 0, False),
    ReAuthenticationRequest := True\<rparr>) wa"
  have w: "wpa_ok ?w" by (rule ok_plain [OF assms(1,2)]) (simp add: sta_ok_def)
  obtain w0 where i: "wpa_sm_init_step E i wa = Some (0, w0)" "wpa_ok w0" "has_sta w0 i" using init_step_returns [OF assms(1,2)] by blast
  show ?thesis using assms(2,3) step_addr [OF w, of i E] step_addr [OF i(2,3), of E] init_step_addr [OF assms(1,2) i(1)] i(1)
    by (auto simp: wpa_auth_sta_associated_def split: if_splits)
qed

lemma event_addr:
  assumes "wpa_ok wa" "has_sta wa i" "map_option snd (wpa_auth_sm_event E ev i wa) = Some wa'"
  shows "wa_addr wa' = wa_addr wa"
proof -
  obtain w where w: "event_request E ev i wa = Some (0, w)" "wpa_ok w" "has_sta w i" using event_request_ok [OF assms(1,2)] by blast
  have "wa_addr w = wa_addr wa"
    using w(1) init_step_addr [OF assms(1,2), of E] by (cases ev) (auto simp: event_request_def drop_group_update_def Let_def split: if_splits)
  moreover have "wa_addr (event_clear E ev i w) = wa_addr w"
    by (simp add: event_clear_def wpa_remove_ptk_def wpa_auth_set_key_def Let_def)
  ultimately show ?thesis using assms(3) w(1) step_addr [OF event_clear_ok [OF w(2,3)], of E] by (auto simp: event_split)
qed

lemma store_addr:
  assumes "wpa_ok wa" "has_sta wa i" "eapol_key_store E i data wa = Some wa'"
  shows "wa_addr wa' = wa_addr wa"
proof -
  let ?f = "\<lambda>sm. sm\<lparr>last_rx_eapol_key := Some data, EAPOLKeyReceived := True,
    EAPOLKeyPairwise := has_flag (key_info_of data) WPA_KEY_INFO_KEY_TYPE, EAPOLKeyRequest := has_flag (key_info_of data) WPA_KEY_INFO_REQUEST,
    SNonce := take WPA_NONCE_LEN (drop 17 data)\<rparr>"
  have "wpa_ok (upd_sta i ?f (log_w W_malloc wa))" by (rule ok_plain) (use assms(1,2) in \<open>simp_all add: sta_ok_def\<close>)
  then show ?thesis using assms(2,3) step_addr [of "upd_sta i ?f (log_w W_malloc wa)" i E]
    by (auto simp: eapol_key_store_def wpa_alloc_def Let_def split: if_splits)
qed

lemma rekey_gtk_addr:
  assumes "wpa_ok wa" "wpa_rekey_gtk E wa = Some wa'"
  shows "wa_addr wa' = wa_addr wa"
  using ok_rekey_gtk [OF assms(1), of E] assms(2) by (auto simp: same_shape_def settings_def)

lemma request_addr:
  assumes "wpa_ok wa" "has_sta wa i" "eapol_key_request E i data wa = Some wa'"
  shows "wa_addr wa' = wa_addr wa"
proof -
  let ?w = "upd_sta i (\<lambda>sm. sm\<lparr>req_replay_counter_used := True, req_replay_counter := replay_counter_of data\<rparr>) wa"
  have "wpa_ok ?w" by (rule ok_plain [OF assms(1,2)]) (simp add: sta_ok_def)
  then have "wpa_rekey_gtk E (log_w (W_cancel_timeout T_rekey_gtk) ?w) = Some wa' \<Longrightarrow> wa_addr wa' = wa_addr wa"
    using rekey_gtk_addr [of "log_w (W_cancel_timeout T_rekey_gtk) ?w" E wa'] by simp
  then show ?thesis using assms(3) unfolding eapol_key_request_def Let_def wpa_request_new_ptk_def by (auto split: if_splits option.splits)
qed

lemma receive_addr:
  assumes "wpa_ok wa" "has_sta wa i" "wpa_receive E i data wa = Some wa'"
  shows "wa_addr wa' = wa_addr wa"
proof -
  have m: "wpa_ok (upd_sta i (\<lambda>sm. sm\<lparr>MICVerified := b\<rparr>) w)" if "wpa_ok w" "has_sta w i" for b w
    by (rule ok_plain [OF that]) (simp add: sta_ok_def)
  have k: "wpa_ok (upd_sta i (\<lambda>sm. sm\<lparr>key_replay := f sm\<rparr>) w)" if "wpa_ok w" "has_sta w i" for f w
    by (rule ok_plain [OF that]) (simp add: sta_ok_def)
  let ?n = "upd_sta i (\<lambda>sm. sm\<lparr>MICVerified := False\<rparr>) wa"
  let ?m = "log_w (W_cancel_timeout (T_send_eapol i)) (upd_sta i (\<lambda>sm. sm\<lparr>MICVerified := True\<rparr>) ?n)"
  let ?k = "upd_sta i (\<lambda>sm. sm\<lparr>key_replay := (key_replay sm)[0 := (fst (key_replay sm ! 0), False)]\<rparr>)"
  have n: "wpa_ok ?n" "wpa_ok ?m" "has_sta ?n i" "has_sta ?m i" using m assms by simp_all
  have st: "eapol_key_store E i data (?k ?n) = Some wa' \<Longrightarrow> wa_addr wa' = wa_addr wa" "eapol_key_store E i data (?k ?m) = Some wa' \<Longrightarrow> wa_addr wa' = wa_addr wa"
    using store_addr [of "?k ?n" i E data wa'] store_addr [of "?k ?m" i E data wa'] k [OF n(1,3)] k [OF n(2,4)] n by simp_all
  have rq: "eapol_key_request E i data ?m = Some w1 \<Longrightarrow> eapol_key_store E i data w1 = Some wa' \<Longrightarrow> wa_addr wa' = wa_addr wa" for w1
    using request_addr [OF n(2,4), of E data w1] request_returns [OF n(2,4), of E data] store_addr [of w1 i E data wa'] by auto
  show ?thesis using assms(2,3) st rq
    unfolding wpa_receive_def Let_def
    by (auto simp: wpa_sta_disconnect_def split: if_splits option.splits wpa_verdict.splits)
qed

lemma set_vlan_addr:
  assumes "wpa_ok wa" "has_sta wa i" "map_option snd (wpa_auth_sta_set_vlan E seed now ptr i v wa) = Some wa'"
  shows "wa_addr wa' = wa_addr wa"
proof -
  have r: "wa_addr w' = wa_addr wa"
    if "wpa_group_restart E v (log_w W_malloc wa\<lparr>wa_group := (case wa_group wa of [] \<Rightarrow> [g] | h # gs \<Rightarrow> h # g # gs)\<rparr>) = Some w'" "vlan_id g = v" "v \<notin> set (vlans wa)" for g w'
  proof -
    have "wpa_ok (log_w W_malloc wa)" "vlan_id g \<notin> set (vlans (log_w W_malloc wa))" using assms that(2,3) by simp_all
    from ok_add_group [OF this] have ok: "wpa_ok (log_w W_malloc wa\<lparr>wa_group := (case wa_group wa of [] \<Rightarrow> [g] | h # gs \<Rightarrow> h # g # gs)\<rparr>)" by simp
    have "wa_group (log_w W_malloc wa) \<noteq> []" using assms(1) by (simp add: wpa_ok_def wpa_wf_def)
    from vlans_append [OF this, of g] have "v \<in> set (vlans (log_w W_malloc wa\<lparr>wa_group := (case wa_group wa of [] \<Rightarrow> [g] | h # gs \<Rightarrow> h # g # gs)\<rparr>))"
      using that(2) by simp
    from ok_restart [OF ok this, of E] show ?thesis using that(1) by (auto simp: same_shape_def settings_def)
  qed
  have "find_group v (wa_group wa) = None \<Longrightarrow> v \<notin> set (vlans wa)" using find_group_some [of v "wa_group wa"] by (auto simp: vlans_def)
  then show ?thesis using assms(3) r
    by (auto simp: wpa_auth_sta_set_vlan_def wpa_auth_add_group_def wpa_group_init_def wpa_alloc_def Let_def split: option.splits if_splits)
qed

lemma timer_addr:
  assumes "wpa_ok wa" "wpa_timer E random t wa = Some wa'"
  shows "wa_addr wa' = wa_addr wa"
proof -
  have "wpa_ok (upd_sta i (\<lambda>sm. sm\<lparr>PTKRequest := True, PTK_valid := False\<rparr>) wa)" "wpa_ok (upd_sta i (\<lambda>sm. sm\<lparr>TimeoutEvt := True\<rparr>) wa)"
    if "has_sta wa i" for i by (rule ok_plain [OF assms(1) that]; simp add: sta_ok_def)+
  then have st: "wa_addr wa' = wa_addr wa" if "has_sta wa i"
    "wpa_sm_step E i (upd_sta i (\<lambda>sm. sm\<lparr>PTKRequest := True, PTK_valid := False\<rparr>) wa) = Some (r, wa') \<or>
     wpa_sm_step E i (upd_sta i (\<lambda>sm. sm\<lparr>TimeoutEvt := True\<rparr>) wa) = Some (r, wa') \<or> wpa_sm_step E i wa = Some (r, wa')" for i r
    using that step_addr [of _ i E r wa'] assms(1) by fastforce
  show ?thesis
  proof (cases t)
    case T_rekey_gmk
    then show ?thesis using assms(2) by (auto simp: wpa_timer_def wpa_rekey_gmk_def Let_def split: option.splits if_splits)
  next
    case T_rekey_gtk
    then show ?thesis using assms rekey_gtk_addr by (simp add: wpa_timer_def)
  qed (use assms(2) st in \<open>fastforce simp: wpa_timer_def wpa_rekey_ptk_def wpa_send_eapol_timeout_def wpa_sm_call_step_def
        wpa_request_new_ptk_def split: if_splits\<close>)+
qed

lemma wpa_do_addr:
  assumes "wpa_ok wa" "wpa_do E inp wa = Some wa'"
  shows "wa_addr wa' = wa_addr wa"
proof (cases inp)
  case (In_validate i m ie)
  then show ?thesis using assms validate_sta_ok [OF assms(1), of i m ie]
    by (auto simp: wpa_do_def validated_def settings_def split: if_splits)
qed (use assms associated_addr event_addr receive_addr set_vlan_addr timer_addr in \<open>auto simp: wpa_do_def Let_def wpa_auth_sta_init_def
    wpa_auth_sta_no_wpa_def wpa_auth_sm_notify_def wpa_auth_sta_deinit_def wpa_free_sta_sm_def wpa_auth_sta_local_mic_failure_report_def
    wpa_auth_countermeasures_start_def wpa_gtk_rekey_def wpa_auth_pmksa_add_def wpa_auth_pmksa_add_preauth_def wpa_auth_sta_clear_pmksa_def
    wpa_alloc_def update_sta split: if_splits option.splits\<close>)

lemma wpa_run_addr: "wpa_ok wa \<Longrightarrow> wpa_run E ins wa = Some wa' \<Longrightarrow> wa_addr wa' = wa_addr wa"
proof (induction ins arbitrary: wa)
  case (Cons inp ins)
  obtain w where w: "wpa_do E inp wa = Some w" "wpa_run E ins w = Some wa'" using Cons.prems(2) by (auto split: option.splits)
  then show ?case using Cons.IH [of w] wpa_do_returns [OF Cons.prems(1), of E inp] wpa_do_addr [OF Cons.prems(1)] by simp
qed simp

section \<open>Runs\<close>

text \<open>The frames that a run receives.\<close>

fun frames_of :: "wpa_input list \<Rightarrow> bytes set" where
  "frames_of [] = {}"
| "frames_of (In_receive i data # ins) = insert data (frames_of ins)"
| "frames_of (_ # ins) = frames_of ins"

lemma pending_registered: "timer_pending t cs \<Longrightarrow> \<exists>s us. W_register_timeout s us t \<in> set cs"
  by (induction cs) (auto split: wpa_call.splits)

lemma timer_psk:
  assumes "psk_inv E R wa" "wpa_ok wa" "timer_pending t (wa_calls wa)" "wpa_timer E random t wa = Some wa'"
  shows "psk_inv E R wa'"
proof (cases t)
  case T_rekey_gmk
  then show ?thesis using assms(1,4) by (auto simp: wpa_timer_def wpa_rekey_gmk_def Let_def split: option.splits if_splits)
next
  case T_rekey_gtk
  then show ?thesis using assms(1,2,4) psk.rekey_gtk_inv by (auto simp: wpa_timer_def wpa_ok_def)
next
  case (T_rekey_ptk i)
  show ?thesis
  proof (cases "has_sta wa i")
    case True
    have "renewing wa i" using pending_registered [OF assms(3)] T_rekey_ptk by (auto simp: renewing_def key_calls_def)
    then have "psk_inv E R (wpa_request_new_ptk i wa)"
      unfolding wpa_request_new_ptk_def by (intro rest_upd_psk [OF assms(1,2) True]) (auto simp: rest_defs)
    moreover have "wpa_ok (wpa_request_new_ptk i wa)"
      unfolding wpa_request_new_ptk_def by (rule ok_plain [OF assms(2) True]) (simp add: sta_ok_def)
    ultimately show ?thesis using step_psk [of E R "wpa_request_new_ptk i wa" i wa'] True assms(4) T_rekey_ptk
      by (simp add: wpa_timer_def wpa_rekey_ptk_def wpa_request_new_ptk_def)
  qed (use assms T_rekey_ptk in \<open>simp add: wpa_timer_def\<close>)
next
  case (T_send_eapol i)
  show ?thesis
  proof (cases "has_sta wa i")
    case True
    have "psk_inv E R (upd_sta i (\<lambda>sm. sm\<lparr>TimeoutEvt := True\<rparr>) wa)" by (rule rest_upd_psk [OF assms(1,2) True]) (simp add: rest_defs)
    moreover have "wpa_ok (upd_sta i (\<lambda>sm. sm\<lparr>TimeoutEvt := True\<rparr>) wa)" by (rule ok_plain [OF assms(2) True]) (simp add: sta_ok_def)
    ultimately show ?thesis using step_psk [of E R "upd_sta i (\<lambda>sm. sm\<lparr>TimeoutEvt := True\<rparr>) wa" i wa'] True assms(4) T_send_eapol
      by (simp add: wpa_timer_def wpa_send_eapol_timeout_def)
  qed (use assms T_send_eapol in \<open>simp add: wpa_timer_def\<close>)
next
  case (T_call_step i)
  then show ?thesis using step_psk [OF assms(1,2), of i wa'] assms(1,4) by (auto simp: wpa_timer_def wpa_sm_call_step_def split: if_splits)
qed

lemma wpa_do_psk:
  assumes "psk_inv E R wa" "wpa_ok wa" "frames_of [inp] \<subseteq> R" "wpa_do E inp wa = Some wa'"
  shows "psk_inv E R wa'"
proof (cases inp)
  case (In_associated i)
  then show ?thesis using assms associated_psk [OF assms(1,2), of i wa'] by (auto simp: wpa_do_def split: if_splits)
next
  case (In_event ev i)
  then show ?thesis using assms event_psk [OF assms(1,2), of i ev wa'] by (auto simp: wpa_do_def split: if_splits)
next
  case (In_receive i data)
  then show ?thesis using assms receive_psk [OF assms(1,2), of i data wa'] by (auto simp: wpa_do_def split: if_splits)
next
  case (In_validate i m ie)
  then show ?thesis using assms validate_psk [OF assms(1,2), of i m ie wa'] by (auto simp: wpa_do_def split: if_splits)
next
  case (In_set_vlan seed now ptr i v)
  then show ?thesis using assms set_vlan_psk [OF assms(1,2), of i seed now ptr v wa'] by (auto simp: wpa_do_def split: if_splits)
next
  case (In_timeout random t)
  then show ?thesis using assms timer_psk [OF assms(1,2), of t random wa'] by (auto simp: wpa_do_def split: if_splits)
next
  case (In_no_wpa i)
  have "psk_inv E R (wpa_auth_sta_no_wpa i wa)"
    unfolding wpa_auth_sta_no_wpa_def by (rule psk_inv_upd [OF assms(1)]) (simp_all add: rest_defs wpa_key_mgmt_wpa_ieee8021x_def)
  then show ?thesis using In_no_wpa assms by (auto simp: wpa_do_def split: if_splits)
next
  case (In_local_mic_failure i)
  have "psk_inv E R (wpa_auth_sta_local_mic_failure_report i wa)"
    unfolding wpa_auth_sta_local_mic_failure_report_def by (rule psk_inv_upd [OF assms(1)]) (simp_all add: rest_defs)
  then show ?thesis using In_local_mic_failure assms by (auto simp: wpa_do_def split: if_splits)
next
  case (In_clear_pmksa i entry)
  have "psk_inv E R (upd_sta i (\<lambda>sm. sm\<lparr>w_pmksa := None\<rparr>) wa)" by (rule psk_inv_upd [OF assms(1)]) (simp_all add: rest_defs)
  then show ?thesis using In_clear_pmksa assms by (auto simp: wpa_do_def wpa_auth_sta_clear_pmksa_def split: if_splits)
next
  case In_countermeasures
  have "psk_inv E R (wa\<lparr>dot11RSNATKIPCounterMeasuresInvoked := n\<rparr>)" for n
    by (rule psk_inv_cong [OF assms(1)]) (use assms(1) in \<open>simp_all add: psk_inv_def key_calls_def has_sta_def sta_def\<close>)
  then show ?thesis using assms(4) In_countermeasures by (auto simp: wpa_do_def wpa_auth_countermeasures_start_def)
qed (use assms in \<open>auto simp: wpa_do_def Let_def sta_init_psk deinit_psk wpa_auth_sm_notify_def wpa_gtk_rekey_def
      wpa_auth_pmksa_add_def wpa_auth_pmksa_add_preauth_def pmksa_update_psk split: if_splits option.splits\<close>)

lemma wpa_run_psk:
  "psk_inv E R wa \<Longrightarrow> wpa_ok wa \<Longrightarrow> frames_of ins \<subseteq> R \<Longrightarrow> wpa_run E ins wa = Some wa' \<Longrightarrow> psk_inv E R wa'"
proof (induction ins arbitrary: wa)
  case (Cons inp ins)
  obtain w where w: "wpa_do E inp wa = Some w" "wpa_run E ins w = Some wa'" using Cons.prems(4) by (auto split: option.splits)
  have "wpa_ok w" using wpa_do_returns [OF Cons.prems(2), of E inp] w(1) by simp
  moreover have f: "frames_of [inp] \<subseteq> R" "frames_of ins \<subseteq> R" using Cons.prems(3) by (cases inp; simp)+
  ultimately show ?case using Cons.IH [OF wpa_do_psk [OF Cons.prems(1,2) f(1) w(1)]] w(2) f(2) by blast
qed simp

lemma wpa_init_psk:
  assumes "wpa_init E seed now ptr addr conf = Some (Some wa)" "wc_wpa_key_mgmt conf = WPA_KEY_MGMT_PSK" "\<not> wc_okc conf"
  shows "psk_inv E {} wa \<and> wa_addr wa = addr"
proof -
  define good where "good w \<longleftrightarrow> psk_inv E {} w \<and> wa_addr w = addr" for w
  have ini: "psk_inv E {} w" if "wa_stas w = []" "key_calls w = []" "wa_conf w = conf" for w
    using that assms(2) by (simp add: psk_inv_def renewing_def has_sta_def)
  have r: "good w'" if "wpa_group_restart E 0 w = Some w'" "wa_stas w = []" "key_calls w = []" "wa_conf w = conf" "wa_addr w = addr"
    "wa_group w = [g]" "vlan_id g = 0" "wa_pmksa w = pmksa_cache_auth_init" for w w' g
  proof -
    have ok: "wpa_ok w" "0 \<in> set (vlans w)" using that assms(3) by (simp_all add: wpa_ok_def wpa_wf_def has_sta_def vlans_def pmksa_init_wf)
    then have "wa_addr w' = wa_addr w" using ok_restart [OF ok, of E] that(1) by (auto simp: same_shape_def settings_def)
    then show ?thesis using restart_psk [OF _ ok that(1), of "{}"] ini [of w] that by (simp add: good_def)
  qed
  have g: "good w" if "wpa_group_init E seed now ptr 0 ((log_w W_malloc (log_w W_malloc (wpa_auth_zero conf addr)))\<lparr>wa_wpa_ie := ie\<rparr>) = Some (True, w)" for ie w
    using that by (auto simp: wpa_group_init_def wpa_alloc_def Let_def wpa_auth_zero_def key_calls_def log_w_def
        split: option.splits if_splits elim!: r)
  show ?thesis
  proof (cases "wpa_auth_gen_wpa_ie True conf")
    case None
    then show ?thesis using assms(1) by (auto simp: wpa_init_def wpa_alloc_def Let_def wpa_auth_gen_wpa_ie_def split: if_splits option.splits)
  next
    case (Some ie)
    have no: "wpa_auth_gen_wpa_ie False conf = None" by (simp add: wpa_auth_gen_wpa_ie_def Let_def split: option.splits if_splits)
    have m: "we_malloc E [W_malloc]" using assms(1) no
      by (cases "we_malloc E [W_malloc]") (auto simp: wpa_init_def wpa_alloc_def Let_def wpa_auth_zero_def split: if_splits)
    obtain b w where "wpa_group_init E seed now ptr 0 ((log_w W_malloc (log_w W_malloc (wpa_auth_zero conf addr)))\<lparr>wa_wpa_ie := ie\<rparr>) = Some (b, w)"
      using assms(1) Some m by (auto simp: wpa_init_def wpa_alloc_def Let_def wpa_auth_zero_def split: if_splits option.splits)
    then show ?thesis using Some m assms(1) g [of ie w]
      by (cases b) (auto simp: wpa_init_def wpa_alloc_def Let_def wpa_auth_zero_def good_def split: if_splits)
  qed
qed

text \<open>C4.  In a network whose key management is WPA-PSK, every pairwise key that the authenticator installs in the driver, and every
  station that it reports as authorized, has the evidence of a handshake: the run received a frame whose MIC verifies under a PTK that is
  derived from a pre-shared key of the configuration for this address, and the installed key is the temporal key of that PTK.  In
  particular no sequence of forged, replayed or reordered frames, timeouts, association events and failures of allocations makes the
  authenticator install the all-zero key that it keeps between handshakes.\<close>

theorem psk_installation_requires_proof:
  assumes "wc_wpa_key_mgmt conf = WPA_KEY_MGMT_PSK" "\<not> wc_okc conf"
    and "wpa_init E seed now ptr own conf = Some (Some wa0)" "wpa_run E ins wa0 = Some wa"
  shows "(\<forall>v alg addr idx key. W_set_key v alg (Some addr) idx key \<in> set (wa_calls wa) \<and> alg \<noteq> WPA_ALG_NONE \<longrightarrow>
      (\<exists>k cipher anonce snonce data. usable_psk E addr k \<and> data \<in> frames_of ins \<and>
         (let ptk = handshake_ptk own addr cipher anonce snonce (psk_at E k)
          in wpa_verify_key_mic ptk data \<and> key = take (if alg = WPA_ALG_TKIP then 32 else 16) (tk1 ptk @ tk2 ptk)))) \<and>
    (\<forall>addr. W_set_eapol addr WPA_EAPOL_authorized True \<in> set (wa_calls wa) \<longrightarrow>
      (\<exists>k cipher anonce snonce data. usable_psk E addr k \<and> data \<in> frames_of ins \<and>
         wpa_verify_key_mic (handshake_ptk own addr cipher anonce snonce (psk_at E k)) data))"
proof -
  have i: "psk_inv E {} wa0" "wa_addr wa0 = own" "wpa_ok wa0"
    using wpa_init_psk [OF assms(3,1,2)] wpa_init_returns [OF assms(2), of E seed now ptr own] assms(3) by auto
  have "psk_inv E (frames_of ins) wa"
    by (rule wpa_run_psk [OF psk_inv_mono [OF i(1)] i(3) _ assms(4)]) auto
  moreover have "wa_addr wa = own" using wpa_run_addr [OF i(3) assms(4)] i(2) by simp
  ultimately have ok: "c \<in> set (wa_calls wa) \<Longrightarrow> key_call c \<Longrightarrow> call_ok E (frames_of ins) own c" for c
    by (auto simp: psk_inv_def key_calls_def)
  show ?thesis
  proof (intro conjI allI impI)
    fix v alg addr idx key assume "W_set_key v alg (Some addr) idx key \<in> set (wa_calls wa) \<and> alg \<noteq> WPA_ALG_NONE"
    then have "call_ok E (frames_of ins) own (W_set_key v alg (Some addr) idx key)" using ok by simp
    then obtain ptk where ptk: "proven E (frames_of ins) own addr ptk" "key = take (if alg = WPA_ALG_TKIP then 32 else 16) (tk1 ptk @ tk2 ptk)"
      unfolding call_ok_def wpa_call.case by blast
    show "\<exists>k cipher anonce snonce data. usable_psk E addr k \<and> data \<in> frames_of ins \<and>
        (let ptk = handshake_ptk own addr cipher anonce snonce (psk_at E k)
         in wpa_verify_key_mic ptk data \<and> key = take (if alg = WPA_ALG_TKIP then 32 else 16) (tk1 ptk @ tk2 ptk))"
      using ptk unfolding proven_def Let_def by blast
  next
    fix addr assume "W_set_eapol addr WPA_EAPOL_authorized True \<in> set (wa_calls wa)"
    then have "call_ok E (frames_of ins) own (W_set_eapol addr WPA_EAPOL_authorized True)" using ok by simp
    then show "\<exists>k cipher anonce snonce data. usable_psk E addr k \<and> data \<in> frames_of ins \<and>
        wpa_verify_key_mic (handshake_ptk own addr cipher anonce snonce (psk_at E k)) data"
      unfolding call_ok_def wpa_call.case proven_def by blast
  qed
qed

theorem psk_installation_requires_proof_witness:
  "\<exists>wa0 wa. wpa_init demo_wpa_env (Some (replicate 32 1, replicate 32 2)) (0, 0) [] (replicate 6 2) demo_wpa_conf = Some (Some wa0) \<and>
    wpa_run demo_wpa_env [In_sta_init (replicate 6 3), In_associated 0, In_receive 0 (replicate 99 0), In_timeout None (T_send_eapol 0)] wa0 = Some wa \<and>
    (\<forall>addr. W_set_eapol addr WPA_EAPOL_authorized True \<notin> set (wa_calls wa))"
proof -
  let ?ins = "[In_sta_init (replicate 6 3), In_associated 0, In_receive 0 (replicate 99 0), In_timeout None (T_send_eapol 0)]"
  obtain wa0 where i: "wpa_init demo_wpa_env (Some (replicate 32 1, replicate 32 2)) (0, 0) [] (replicate 6 2) demo_wpa_conf = Some (Some wa0)"
    using demo_init(2) by blast
  then have "wpa_ok wa0" using wpa_init_returns [OF demo_init(1), of demo_wpa_env "Some (replicate 32 1, replicate 32 2)" "(0, 0)" "[]" "replicate 6 2"] by simp
  then obtain wa where r: "wpa_run demo_wpa_env ?ins wa0 = Some wa" using wpa_run_returns [of wa0 demo_wpa_env ?ins] by (auto simp: returns_def simp del: wpa_run.simps)
  have k: "wc_wpa_key_mgmt demo_wpa_conf = WPA_KEY_MGMT_PSK" by (simp add: demo_wpa_conf_def)
  have "\<not> wpa_verify_key_mic ptk (replicate 99 0)" for ptk
    by (simp add: wpa_verify_key_mic_def wpa_eapol_key_mic_def WPA_GET_BE16_def)
  then have "\<forall>addr. W_set_eapol addr WPA_EAPOL_authorized True \<notin> set (wa_calls wa)"
    using psk_installation_requires_proof [OF k demo_init(1) i r] by simp
  then show ?thesis using i r by blast
qed

end
