(* ===== verification/Wpa_Auth_Live.thy ===== *)
theory Wpa_Auth_Live
  imports Wpa_Auth_Safe
begin

text \<open>
  Progress of the WPA authenticator: a station that holds a pre-shared key gets through the 4-way handshake.
\<close>

section \<open>Calls since a point of a run\<close>

text \<open>\<open>newly c w wa\<close>: on the way from \<open>w\<close> to \<open>wa\<close> the call \<open>c\<close> was made; \<open>since w wa\<close>: the calls of \<open>wa\<close> continue those of \<open>w\<close>.\<close>

definition since :: "wpa_authenticator \<Rightarrow> wpa_authenticator \<Rightarrow> bool" where
  "since w wa \<longleftrightarrow> (\<exists>cs. wa_calls wa = cs @ wa_calls w)"

definition newly :: "wpa_call \<Rightarrow> wpa_authenticator \<Rightarrow> wpa_authenticator \<Rightarrow> bool" where
  "newly c w wa \<longleftrightarrow> (\<exists>cs. wa_calls wa = cs @ wa_calls w \<and> c \<in> set cs)"

lemma since_simps [simp]:
  "since w w" "since w (upd_sta i f wa) = since w wa" "since w (upd_grp v g wa) = since w wa"
  "since (upd_sta i f w) wa = since w wa" "since (upd_grp v g w) wa = since w wa"
  "newly c w (upd_sta i f wa) = newly c w wa" "newly c w (upd_grp v g wa) = newly c w wa"
  "newly c (upd_sta i f w) wa = newly c w wa" "newly c (upd_grp v g w) wa = newly c w wa"
  by (simp_all add: since_def newly_def)

lemma since_log: "since w wa \<Longrightarrow> since w (log_w c wa)"
  by (auto simp: since_def log_w_def)

lemma newly_log: "since w wa \<Longrightarrow> newly c w (log_w c wa)" "newly c w wa \<Longrightarrow> newly c w (log_w d wa)"
  unfolding since_def newly_def log_w_def by (auto intro: exI [of _ "d # cs" for d cs])

lemma newly_trans:
  "since w u \<Longrightarrow> newly c u wa \<Longrightarrow> newly c w wa" "newly c w u \<Longrightarrow> since u wa \<Longrightarrow> newly c w wa" "since w u \<Longrightarrow> since u wa \<Longrightarrow> since w wa"
  by (auto simp: since_def newly_def)

lemma since_callbacks:
  "since w wa \<Longrightarrow> since w (snd (wpa_alloc E wa))" "since w wa \<Longrightarrow> since w (wpa_auth_set_eapol a v b wa)"
  "since w wa \<Longrightarrow> since w (wpa_sta_disconnect a wa)" "since w wa \<Longrightarrow> since w (snd (wpa_auth_set_key E vl alg addr idx key wa))"
  by (simp_all add: wpa_alloc_def wpa_auth_set_eapol_def wpa_auth_set_key_def wpa_sta_disconnect_def since_log)

lemma since_key_data: "since w wa \<Longrightarrow> since w (snd (eapol_key_data E i version kde encr wa))"
  unfolding eapol_key_data_def Let_def case_prod_beta
  by (cases kde; cases encr) (simp_all add: since_callbacks split: option.split)

lemma since_send_frame: "since w wa \<Longrightarrow> since w (wpa_send_eapol_frame E i ki rsc nonce kde idx encr ver wa)"
  unfolding wpa_send_eapol_frame_def Let_def case_prod_beta
  by (simp add: if_distrib [where f = "since w"] option.case_distrib [where h = "since w"] since_log since_callbacks since_key_data case_prod_beta
    split del: if_split cong: if_cong option.case_cong)

lemma since_enter:
  "since wa (sm_WPA_PTK_PTKCALCNEGOTIATING_Enter E i wa)" "since wa (sm_WPA_PTK_PTKCALCNEGOTIATING2_Enter i wa)"
  "since wa (enter_ptk s i wa)"
  unfolding sm_WPA_PTK_PTKCALCNEGOTIATING_Enter_def sm_WPA_PTK_PTKCALCNEGOTIATING2_Enter_def enter_ptk_def Let_def
  by (auto simp: since_log split: option.split)

section \<open>The loop when the group has nothing to do\<close>

definition group_quiet :: "wpa_authenticator \<Rightarrow> int \<Rightarrow> bool" where
  "group_quiet wa v \<longleftrightarrow> (let g = grp wa v in \<not> GInit g \<and> \<not> GTKReKey g \<and> wpa_group_state g = WPA_GROUP_SETKEYSDONE)"

lemma group_quiet_step: "group_quiet wa v \<Longrightarrow> wpa_group_sm_step E st v wa = Some wa"
  by (simp add: group_quiet_def wpa_group_sm_step_def Let_def)

lemma find_group_view: "find_group v (map gview gs) = map_option gview (find_group v gs)"
  by (induction gs) (auto simp: gview_def)

lemma group_quiet_view:
  assumes "rest i wa' = rest i wa" "v \<in> set (vlans wa)"
  shows "group_quiet wa' v = group_quiet wa v"
proof -
  have "map_option gview (find_group v (wa_group wa')) = map_option gview (find_group v (wa_group wa))"
    using assms(1) find_group_view by (metis (no_types, lifting) fst_conv snd_conv rest_def)
  moreover have "find_group v (wa_group wa) \<noteq> None"
    using assms(2) unfolding find_group_some by (metis list.set_map vlans_def)
  ultimately obtain a b where ab: "find_group v (wa_group wa') = Some a" "find_group v (wa_group wa) = Some b" "gview a = gview b"
    by (cases "find_group v (wa_group wa')"; cases "find_group v (wa_group wa)") auto
  have "GInit a = GInit (gview a)" "GTKReKey a = GTKReKey (gview a)" "wpa_group_state a = wpa_group_state (gview a)"
    "GInit b = GInit (gview b)" "GTKReKey b = GTKReKey (gview b)" "wpa_group_state b = wpa_group_state (gview b)"
    by (simp_all add: gview_def)
  then show ?thesis using ab by (simp add: group_quiet_def grp_def)
qed

text \<open>One pass of the machines of the station, without the bookkeeping.\<close>

definition machine_pass :: "wpa_env \<Rightarrow> nat \<Rightarrow> wpa_authenticator \<Rightarrow> wpa_authenticator" where
  "machine_pass E i wa = sm_WPA_PTK_GROUP_Step E i (sm_WPA_PTK_Step E i
     (upd_grp (head_group wa) (\<lambda>g. g\<lparr>g_changed := False\<rparr>) (upd_sta i (\<lambda>sm. sm\<lparr>w_changed := False\<rparr>) wa)))"

lemma pass_machine:
  assumes "wpa_wf wa" "has_sta wa i"
  shows "wpa_sm_pass E i wa = (False, machine_pass E i wa)"
proof -
  obtain w where p: "wpa_sm_pass E i wa = (False, w)" using wpa_sm_pass_spec [OF assms, of E] by blast
  have h: "head_group (upd_sta i f wa) = head_group wa" for f by (simp add: head_group_def)
  show ?thesis using p unfolding wpa_sm_pass_def Let_def h machine_pass_def by (auto split: if_splits)
qed

lemma quiet_loop:
  assumes "wpa_wf wa" "has_sta wa i" "group_quiet wa (w_group (sta wa i))"
  shows "wpa_sm_loop (Suc n) E i wa =
      (let w = machine_pass E i wa in if w_changed (sta w i) then wpa_sm_loop n E i w else Some w)"
    "wpa_wf (machine_pass E i wa)" "has_sta (machine_pass E i wa) i" "w_group (sta (machine_pass E i wa) i) = w_group (sta wa i)"
    "group_quiet (machine_pass E i wa) (w_group (sta wa i))"
    "ident (sta (machine_pass E i wa) i) = ident (sta wa i)" "settings (machine_pass E i wa) = settings wa"
proof -
  let ?w = "machine_pass E i wa"
  let ?z = "upd_grp (head_group wa) (\<lambda>g. g\<lparr>g_changed := False\<rparr>) (upd_sta i (\<lambda>sm. sm\<lparr>w_changed := False\<rparr>) wa)"
  have p: "wpa_wf ?w" "same_shape wa ?w" "\<not> g_changed (grp ?w (head_group ?w))"
    using wpa_sm_pass_spec [OF assms(1,2), of E] pass_machine [OF assms(1,2), of E] by auto
  have k: "keeps_id (\<lambda>g. g\<lparr>g_changed := False\<rparr>)" by (rule keeps_idI) simp
  have v: "w_group (sta wa i) \<in> set (vlans wa)" using assms(1,2) by (simp add: wpa_wf_def)
  have "group_quiet ?z (w_group (sta wa i))"
    using assms(3) v grp_upd_grp(1) [OF k, of "head_group wa" "upd_sta i (\<lambda>sm. sm\<lparr>w_changed := False\<rparr>) wa"]
      grp_upd_grp(2) [OF k, of "w_group (sta wa i)" "head_group wa" "upd_sta i (\<lambda>sm. sm\<lparr>w_changed := False\<rparr>) wa"]
    by (cases "w_group (sta wa i) = head_group wa") (simp_all add: group_quiet_def Let_def)
  moreover have "rest i ?w = rest i ?z" by (simp add: machine_pass_def)
  ultimately show q: "group_quiet ?w (w_group (sta wa i))" using group_quiet_view [of i ?w ?z] v k by simp
  show "wpa_wf ?w" "has_sta ?w i" "w_group (sta ?w i) = w_group (sta wa i)" "ident (sta ?w i) = ident (sta wa i)" "settings ?w = settings wa"
    using p assms(2) by (simp_all add: same_shape_def ident_def)
  then show "wpa_sm_loop (Suc n) E i wa = (let w = machine_pass E i wa in if w_changed (sta w i) then wpa_sm_loop n E i w else Some w)"
    using p(3) q pass_machine [OF assms(1,2), of E] group_quiet_step by (simp add: Let_def)
qed

section \<open>The passes of a handshake\<close>

text \<open>A machine that only the 4-way handshake moves: nothing else is requested of it, and the group key is up to date.\<close>

definition only_handshake :: "wpa_state_machine \<Rightarrow> bool" where
  "only_handshake sm \<longleftrightarrow> \<not> Init sm \<and> \<not> Disconnect sm \<and> \<not> DeauthenticationRequest sm \<and> \<not> AuthenticationRequest sm \<and>
     \<not> ReAuthenticationRequest sm \<and> \<not> PTKRequest sm \<and> \<not> PtkGroupInit sm \<and> wpa_ptk_group_state sm = WPA_PTK_GROUP_IDLE \<and>
     \<not> GUpdateStationKeys sm \<and> w_wpa sm = WPA_VERSION_WPA2"

lemma group_machine_idle:
  assumes "only_handshake (sta wa i)"
  shows "sm_WPA_PTK_GROUP_Step E i wa = wa"
  using assms by (simp add: sm_WPA_PTK_GROUP_Step_def only_handshake_def Let_def)

abbreviation unchanged :: "nat \<Rightarrow> wpa_authenticator \<Rightarrow> wpa_authenticator" where
  "unchanged i wa \<equiv> upd_grp (head_group wa) (\<lambda>g. g\<lparr>g_changed := False\<rparr>) (upd_sta i (\<lambda>sm. sm\<lparr>w_changed := False\<rparr>) wa)"

lemma pass_calc:
  assumes "has_sta wa i" "only_handshake (sta wa i)" "wpa_ptk_state (sta wa i) = WPA_PTK_PTKSTART" "armed (sta wa i)"
    and pmk: "verified_pmk E wa (sta wa i) = Some pmk"
  shows "sta (machine_pass E i wa) i = (sta wa i)\<lparr>w_changed := True, wpa_ptk_state := WPA_PTK_PTKCALCNEGOTIATING, EAPOLKeyReceived := False,
      PMK := pmk, MICVerified := True, PTK := wpa_derive_ptk wa (sta wa i) pmk, PTK_valid := True\<rparr>"
    "since wa (machine_pass E i wa)"
proof -
  let ?u = "unchanged i wa"
  let ?s = "(sta wa i)\<lparr>w_changed := True, wpa_ptk_state := WPA_PTK_PTKCALCNEGOTIATING, EAPOLKeyReceived := False\<rparr>"
  have e: "sm_WPA_PTK_Step E i ?u = sm_WPA_PTK_PTKCALCNEGOTIATING_Enter E i ?u"
    using assms by (simp add: sm_WPA_PTK_Step_def Let_def only_handshake_def armed_def)
  have d: "wpa_derive_ptk ?u ?s p = wpa_derive_ptk wa (sta wa i) p" for p by (simp add: derive_handshake)
  have "verified_pmk E ?u ?s = Some pmk" using pmk unfolding verified_pmk_def d Let_def by (auto split: if_splits)
  then have s: "sta (sm_WPA_PTK_Step E i ?u) i = ?s\<lparr>PMK := pmk, MICVerified := True, PTK := wpa_derive_ptk wa (sta wa i) pmk, PTK_valid := True\<rparr>"
    unfolding e using ptkcalc_sta [of ?u i E] assms(1) d by (simp add: Let_def)
  then have "only_handshake (sta (sm_WPA_PTK_Step E i ?u) i)" using assms(2) by (simp add: only_handshake_def)
  from group_machine_idle [OF this] have m: "machine_pass E i wa = sm_WPA_PTK_Step E i ?u" by (simp add: machine_pass_def)
  show "sta (machine_pass E i wa) i = (sta wa i)\<lparr>w_changed := True, wpa_ptk_state := WPA_PTK_PTKCALCNEGOTIATING, EAPOLKeyReceived := False,
      PMK := pmk, MICVerified := True, PTK := wpa_derive_ptk wa (sta wa i) pmk, PTK_valid := True\<rparr>"
    unfolding m s by simp
  show "since wa (machine_pass E i wa)" using since_enter(1) [of ?u E i] unfolding m e by simp
qed

lemma pass_calc2:
  assumes "has_sta wa i" "only_handshake (sta wa i)" "wpa_ptk_state (sta wa i) = WPA_PTK_PTKCALCNEGOTIATING" "MICVerified (sta wa i)"
  shows "sta (machine_pass E i wa) i = (sta wa i)\<lparr>w_changed := True, wpa_ptk_state := WPA_PTK_PTKCALCNEGOTIATING2, TimeoutCtr := 0\<rparr>"
    "since wa (machine_pass E i wa)"
proof -
  let ?u = "unchanged i wa"
  have e: "sm_WPA_PTK_Step E i ?u = sm_WPA_PTK_PTKCALCNEGOTIATING2_Enter i ?u"
    using assms by (simp add: sm_WPA_PTK_Step_def Let_def only_handshake_def)
  have s: "sta (sm_WPA_PTK_Step E i ?u) i = (sta wa i)\<lparr>w_changed := True, wpa_ptk_state := WPA_PTK_PTKCALCNEGOTIATING2, TimeoutCtr := 0\<rparr>"
    unfolding e using assms(1) ptkcalc2_sta [of ?u i] by simp
  then have "only_handshake (sta (sm_WPA_PTK_Step E i ?u) i)" using assms(2) by (simp add: only_handshake_def)
  from group_machine_idle [OF this] have m: "machine_pass E i wa = sm_WPA_PTK_Step E i ?u" by (simp add: machine_pass_def)
  show "sta (machine_pass E i wa) i = (sta wa i)\<lparr>w_changed := True, wpa_ptk_state := WPA_PTK_PTKCALCNEGOTIATING2, TimeoutCtr := 0\<rparr>"
    unfolding m s by simp
  show "since wa (machine_pass E i wa)" using since_enter(2) [of ?u i] unfolding m e by simp
qed

lemma pass_initneg:
  assumes "has_sta wa i" "only_handshake (sta wa i)" "wpa_ptk_state (sta wa i) = WPA_PTK_PTKCALCNEGOTIATING2"
  shows "sent ((sta wa i)\<lparr>w_changed := True, wpa_ptk_state := WPA_PTK_PTKINITNEGOTIATING, TimeoutEvt := False,
        TimeoutCtr := TimeoutCtr (sta wa i) + 1\<rparr>) (sta (machine_pass E i wa) i)"
    "machine_pass E i wa = sm_WPA_PTK_PTKINITNEGOTIATING_Enter E i (unchanged i wa)"
proof -
  let ?u = "unchanged i wa"
  have e: "sm_WPA_PTK_Step E i ?u = sm_WPA_PTK_PTKINITNEGOTIATING_Enter E i ?u"
    using assms by (simp add: sm_WPA_PTK_Step_def Let_def only_handshake_def)
  have s: "sent ((sta wa i)\<lparr>w_changed := True, wpa_ptk_state := WPA_PTK_PTKINITNEGOTIATING, TimeoutEvt := False,
        TimeoutCtr := TimeoutCtr (sta wa i) + 1\<rparr>) (sta (sm_WPA_PTK_Step E i ?u) i)"
    unfolding e using ptkinitneg_sta [of ?u i E] assms(1) by simp
  then have "only_handshake (sta (sm_WPA_PTK_Step E i ?u) i)" using assms(2) by (auto simp: only_handshake_def sent_def)
  then have "machine_pass E i wa = sm_WPA_PTK_Step E i ?u" unfolding machine_pass_def by (rule group_machine_idle)
  then show "sent ((sta wa i)\<lparr>w_changed := True, wpa_ptk_state := WPA_PTK_PTKINITNEGOTIATING, TimeoutEvt := False,
        TimeoutCtr := TimeoutCtr (sta wa i) + 1\<rparr>) (sta (machine_pass E i wa) i)"
    "machine_pass E i wa = sm_WPA_PTK_PTKINITNEGOTIATING_Enter E i (unchanged i wa)"
    using s e by simp_all
qed

lemma pass_done:
  assumes "has_sta wa i" "only_handshake (sta wa i)" "wpa_ptk_state (sta wa i) = WPA_PTK_PTKINITNEGOTIATING" "armed (sta wa i)" "MICVerified (sta wa i)"
  shows "machine_pass E i wa = sm_WPA_PTK_PTKINITDONE_Enter E i (unchanged i wa)"
    "\<exists>p s. sta (machine_pass E i wa) i = initdone p s ((sta wa i)\<lparr>w_changed := False\<rparr>)"
proof -
  let ?u = "unchanged i wa"
  have e: "sm_WPA_PTK_Step E i ?u = sm_WPA_PTK_PTKINITDONE_Enter E i ?u"
    using assms by (simp add: sm_WPA_PTK_Step_def Let_def only_handshake_def armed_def)
  obtain p s where s: "sta (sm_WPA_PTK_Step E i ?u) i = initdone p s ((sta wa i)\<lparr>w_changed := False\<rparr>)"
    unfolding e using ptkinitdone_sta [of ?u i E] assms(1) by auto
  then have "only_handshake (sta (sm_WPA_PTK_Step E i ?u) i)" using assms(2) by (simp add: only_handshake_def initdone_def Let_def)
  then have m: "machine_pass E i wa = sm_WPA_PTK_Step E i ?u" unfolding machine_pass_def by (rule group_machine_idle)
  then show "machine_pass E i wa = sm_WPA_PTK_PTKINITDONE_Enter E i (unchanged i wa)" using e by simp
  show "\<exists>p s. sta (machine_pass E i wa) i = initdone p s ((sta wa i)\<lparr>w_changed := False\<rparr>)" using m s by auto
qed

lemma pass_nothing:
  assumes "has_sta wa i" "only_handshake (sta wa i)"
    "wpa_ptk_state (sta wa i) = WPA_PTK_PTKINITNEGOTIATING \<and> \<not> armed (sta wa i) \<and> TimeoutCtr (sta wa i) \<le> 4 \<and> \<not> TimeoutEvt (sta wa i) \<or>
     wpa_ptk_state (sta wa i) = WPA_PTK_PTKINITDONE"
  shows "machine_pass E i wa = unchanged i wa"
proof -
  define u where "u = unchanged i wa"
  have su: "sta u i = (sta wa i)\<lparr>w_changed := False\<rparr>" using assms(1) by (simp add: u_def)
  have "sm_WPA_PTK_Step E i u = u"
    using assms(2,3) by (elim disjE) (simp_all add: sm_WPA_PTK_Step_def Let_def only_handshake_def armed_def su, blast)
  moreover have "only_handshake (sta u i)" using assms(2) by (simp add: only_handshake_def su)
  ultimately show ?thesis unfolding machine_pass_def u_def [symmetric] by (simp add: group_machine_idle)
qed

lemma unchanged_sta: "has_sta wa i \<Longrightarrow> sta (unchanged i wa) i = (sta wa i)\<lparr>w_changed := False\<rparr>"
  by simp

text \<open>From message 2/4 to the state that waits for message 4/4.\<close>

lemma loop_message2:
  assumes wf: "wpa_wf wa" "has_sta wa i" "group_quiet wa (w_group (sta wa i))"
    and h: "only_handshake (sta wa i)" "wpa_ptk_state (sta wa i) = WPA_PTK_PTKSTART" "armed (sta wa i)"
    and pmk: "verified_pmk E wa (sta wa i) = Some pmk"
  shows "\<exists>w2 w3. wpa_sm_loop (Suc (Suc (Suc (Suc n)))) E i wa = Some (unchanged i w3) \<and> wpa_wf w3 \<and> has_sta w3 i \<and>
      w3 = sm_WPA_PTK_PTKINITNEGOTIATING_Enter E i (unchanged i w2) \<and> has_sta w2 i \<and> PTK_valid (sta w2 i) \<and> TimeoutCtr (sta w2 i) = 0 \<and>
      ident (sta w2 i) = ident (sta wa i) \<and> since wa w2 \<and>
      only_handshake (sta w3 i) \<and> wpa_ptk_state (sta w3 i) = WPA_PTK_PTKINITNEGOTIATING \<and> \<not> armed (sta w3 i) \<and>
      PTK_valid (sta w3 i) \<and> PTK (sta w3 i) = wpa_derive_ptk wa (sta wa i) pmk \<and> group_quiet w3 (w_group (sta wa i)) \<and>
      ident (sta w3 i) = ident (sta wa i) \<and> settings w3 = settings wa \<and> w_Pair (sta w3 i) = w_Pair (sta wa i) \<and>
      length (fst (hd (key_replay (sta w3 i)))) = length (fst (hd (key_replay (sta wa i)))) \<and>
      (key_replay (sta wa i) \<noteq> [] \<longrightarrow> key_replay (sta w3 i) \<noteq> [])"
proof -
  define w1 where "w1 = machine_pass E i wa"
  define w2 where "w2 = machine_pass E i w1"
  define w3 where "w3 = machine_pass E i w2"
  note q1 = quiet_loop [OF wf, where E = E, folded w1_def]
  have q1': "group_quiet w1 (w_group (sta w1 i))" using q1(4,5) by simp
  note q2 = quiet_loop [OF q1(2,3) q1', where E = E, folded w2_def]
  have q2': "group_quiet w2 (w_group (sta w2 i))" using q2(4,5) by simp
  note q3 = quiet_loop [OF q2(2,3) q2', where E = E, folded w3_def]
  have q3': "group_quiet w3 (w_group (sta w3 i))" using q3(4,5) by simp
  note q4 = quiet_loop(1) [OF q3(2,3) q3', where E = E]
  have s1: "sta w1 i = (sta wa i)\<lparr>w_changed := True, wpa_ptk_state := WPA_PTK_PTKCALCNEGOTIATING, EAPOLKeyReceived := False,
      PMK := pmk, MICVerified := True, PTK := wpa_derive_ptk wa (sta wa i) pmk, PTK_valid := True\<rparr>"
    unfolding w1_def by (rule pass_calc(1) [OF wf(2) h pmk])
  have s2: "sta w2 i = (sta w1 i)\<lparr>w_changed := True, wpa_ptk_state := WPA_PTK_PTKCALCNEGOTIATING2, TimeoutCtr := 0\<rparr>"
    unfolding w2_def by (rule pass_calc2(1) [OF q1(3)]) (use h(1) s1 in \<open>simp_all add: only_handshake_def\<close>)
  have "since w1 w2"
    unfolding w2_def by (rule pass_calc2(2) [OF q1(3)]) (use h(1) s1 in \<open>simp_all add: only_handshake_def\<close>)
  then have c2: "since wa w2" using pass_calc(2) [OF wf(2) h pmk] newly_trans(3) unfolding w1_def by blast
  have o2: "only_handshake (sta w2 i)" "wpa_ptk_state (sta w2 i) = WPA_PTK_PTKCALCNEGOTIATING2" using h(1) s1 s2 by (simp_all add: only_handshake_def)
  note p3 = pass_initneg [OF q2(3) o2, of E, folded w3_def]
  have s3: "only_handshake (sta w3 i)" "wpa_ptk_state (sta w3 i) = WPA_PTK_PTKINITNEGOTIATING" "\<not> armed (sta w3 i)" "TimeoutCtr (sta w3 i) = 1"
    "\<not> TimeoutEvt (sta w3 i)" "PTK_valid (sta w3 i)" "PTK (sta w3 i) = wpa_derive_ptk wa (sta wa i) pmk" "w_changed (sta w3 i)"
    "w_Pair (sta w3 i) = w_Pair (sta wa i)" "length (fst (hd (key_replay (sta w3 i)))) = length (fst (hd (key_replay (sta wa i))))"
    "key_replay (sta wa i) \<noteq> [] \<longrightarrow> key_replay (sta w3 i) \<noteq> []"
    using p3(1) h(1) s1 s2 by (auto simp: sent_def only_handshake_def armed_def key_replay_next_def)
  have p4: "machine_pass E i w3 = unchanged i w3" by (rule pass_nothing [OF q3(3) s3(1)]) (use s3 in simp)
  have "wpa_sm_loop (Suc (Suc (Suc (Suc n)))) E i wa = Some (unchanged i w3)"
    using q1(1) [of "Suc (Suc (Suc n))"] q2(1) [of "Suc (Suc n)"] q3(1) [of "Suc n"] q4 [of n] s1 s2 s3(8) q3(3)
    unfolding p4 Let_def by (simp del: wpa_sm_loop.simps)
  moreover have "PTK_valid (sta w2 i)" "TimeoutCtr (sta w2 i) = 0" using s1 s2 by simp_all
  ultimately show ?thesis using q3 q2 q1 s3 p3(2) c2 by (intro exI [of _ w2] exI [of _ w3]) simp
qed

text \<open>Message 4/4 is taken up: the key is installed.\<close>

definition pairwise_alg :: "int \<Rightarrow> wpa_alg \<times> nat" where
  "pairwise_alg cipher = (if cipher = WPA_CIPHER_TKIP then (WPA_ALG_TKIP, 32) else (WPA_ALG_CCMP, 16))"

lemma done_installs:
  assumes "has_sta wa i" "w_Pair (sta wa i)" "\<And>c. we_set_key E c = 0" "wpa_key_mgmt_wpa_psk (w_wpa_key_mgmt (sta wa i))"
    and alg: "pairwise_alg (w_pairwise (sta wa i)) = (alg, klen)"
  shows "newly (W_set_key 0 alg (Some (w_addr (sta wa i))) 0 (take klen (tk1 (PTK (sta wa i)) @ tk2 (PTK (sta wa i)))))
      wa (sm_WPA_PTK_PTKINITDONE_Enter E i wa)"
    "newly (W_set_eapol (w_addr (sta wa i)) WPA_EAPOL_authorized True) wa (sm_WPA_PTK_PTKINITDONE_Enter E i wa)"
proof -
  define wa' where "wa' = upd_sta i (\<lambda>sm. sm\<lparr>EAPOLKeyReceived := False\<rparr>) (enter_ptk WPA_PTK_PTKINITDONE i wa)"
  have s: "has_sta wa' i" "sta wa' i = (sta wa i)\<lparr>w_changed := True, wpa_ptk_state := WPA_PTK_PTKINITDONE, EAPOLKeyReceived := False\<rparr>"
    using assms(1) by (simp_all add: wa'_def enter_ptk_def)
  have "(if w_pairwise (sta wa' i) = WPA_CIPHER_TKIP then (WPA_ALG_TKIP, 32) else (WPA_ALG_CCMP, 16)) = (alg, klen)"
    using alg by (simp add: pairwise_alg_def s)
  note u = this
  have c: "since wa wa'" using since_enter(3) by (simp add: wa'_def)
  show "newly (W_set_key 0 alg (Some (w_addr (sta wa i))) 0 (take klen (tk1 (PTK (sta wa i)) @ tk2 (PTK (sta wa i)))))
      wa (sm_WPA_PTK_PTKINITDONE_Enter E i wa)"
    "newly (W_set_eapol (w_addr (sta wa i)) WPA_EAPOL_authorized True) wa (sm_WPA_PTK_PTKINITDONE_Enter E i wa)"
    unfolding sm_WPA_PTK_PTKINITDONE_Enter_def Let_def wa'_def [symmetric] u wpa_auth_set_key_def wpa_auth_set_eapol_def
    using s assms(2-4) c by (simp_all add: newly_log since_log)
qed

lemma loop_message4:
  assumes wf: "wpa_wf wa" "has_sta wa i" "group_quiet wa (w_group (sta wa i))"
    and h: "only_handshake (sta wa i)" "wpa_ptk_state (sta wa i) = WPA_PTK_PTKINITNEGOTIATING" "armed (sta wa i)" "MICVerified (sta wa i)"
  shows "\<exists>w1. wpa_sm_loop (Suc (Suc n)) E i wa = Some (unchanged i w1) \<and> has_sta w1 i \<and>
      w1 = sm_WPA_PTK_PTKINITDONE_Enter E i (unchanged i wa) \<and> wpa_ptk_state (sta w1 i) = WPA_PTK_PTKINITDONE \<and> wpa_wf w1"
proof -
  define w1 where "w1 = machine_pass E i wa"
  note q1 = quiet_loop [OF wf, where E = E, folded w1_def]
  have q1': "group_quiet w1 (w_group (sta w1 i))" using q1(4,5) by simp
  note q2 = quiet_loop(1) [OF q1(2,3) q1', where E = E]
  note d = pass_done [OF wf(2) h, of E, folded w1_def]
  obtain p s where "sta w1 i = initdone p s ((sta wa i)\<lparr>w_changed := False\<rparr>)" using d(2) by blast
  then have s1: "only_handshake (sta w1 i)" "wpa_ptk_state (sta w1 i) = WPA_PTK_PTKINITDONE" "w_changed (sta w1 i)"
    using h(1) by (simp_all add: only_handshake_def initdone_def Let_def)
  have p2: "machine_pass E i w1 = unchanged i w1" by (rule pass_nothing [OF q1(3) s1(1)]) (use s1 in simp)
  have "wpa_sm_loop (Suc (Suc n)) E i wa = Some (unchanged i w1)"
    using q1(1) [of "Suc n"] q2 [of n] s1(3) q1(3) unfolding p2 Let_def by (simp del: wpa_sm_loop.simps)
  then show ?thesis using q1(2,3) d(1) s1(2) by blast
qed

section \<open>Pre-shared keys are found\<close>

lemma get_psk_loop_finds:
  "j < length psks \<Longrightarrow> psk_group (psks ! j) \<or> psk_addr (psks ! j) = addr \<Longrightarrow> ok \<or> (\<exists>p. prev = Some p \<and> k \<le> p \<and> p < k + j) \<Longrightarrow>
   \<exists>r. get_psk_loop addr prev ok k psks = Some r \<and> r \<le> k + j"
proof (induction psks arbitrary: ok k j)
  case (Cons psk psks)
  show ?case
  proof (cases "ok \<and> (psk_group psk \<or> psk_addr psk = addr)")
    case True
    then show ?thesis by auto
  next
    case False
    obtain j' where j': "j = Suc j'" using Cons.prems(2,3) False by (cases j) auto
    have "(ok \<or> prev = Some k) \<or> (\<exists>p. prev = Some p \<and> Suc k \<le> p \<and> p < Suc k + j')" using Cons.prems(3) j' by fastforce
    then show ?thesis using Cons.IH [of j' "ok \<or> prev = Some k" "Suc k"] Cons.prems(1,2) j' False by auto
  qed
qed simp

lemma get_psk_finds:
  assumes "usable_psk E addr j" "\<forall>p. prev = Some p \<longrightarrow> p < j"
  shows "\<exists>r. hostapd_get_psk (we_psks E) addr prev = Some r \<and> r \<le> j"
  using get_psk_loop_finds [of j "we_psks E" addr "prev = None" prev 0] assms
  by (cases prev) (auto simp: hostapd_get_psk_def usable_psk_def)

lemma find_psk_finds:
  assumes "usable_psk E addr j" "v j" "\<forall>p. prev = Some p \<longrightarrow> p < j"
  shows "\<exists>r. find_psk v (we_psks E) addr prev = Some r"
  using assms
proof (induction v "we_psks E" addr prev rule: find_psk.induct)
  case (1 v addr prev)
  obtain r where r: "hostapd_get_psk (we_psks E) addr prev = Some r" "r \<le> j" using get_psk_finds [OF 1(2,4)] by blast
  show ?case
  proof (cases "v r")
    case True
    then show ?thesis using r by (simp add: find_psk.simps [of v "we_psks E" addr prev])
  next
    case False
    then have "r < j" using r(2) 1(3) by (cases "r = j") auto
    then show ?thesis using 1(1) [OF r(1) False 1(2,3)] r(1) False by (simp add: find_psk.simps [of v "we_psks E" addr prev])
  qed
qed

section \<open>The frames of a station\<close>

lemma key_frame_fields:
  assumes "length c = 8" "length nonce = 32" "length iv = 16" "length r = 8" "length mic = 16"
  shows "length (eapol_key_frame v t ki kl c nonce iv r mic n d) = 99 + length d" "eapol_key_frame v t ki kl c nonce iv r mic n d ! 4 = t"
    "drop 5 (eapol_key_frame v t ki kl c nonce iv r mic n d) = WPA_PUT_BE16 ki @ WPA_PUT_BE16 kl @ c @ nonce @ iv @ r @ replicate 8 0 @ mic @
       WPA_PUT_BE16 n @ d"
    "take 8 (drop 9 (eapol_key_frame v t ki kl c nonce iv r mic n d)) = c"
    "take 32 (drop 17 (eapol_key_frame v t ki kl c nonce iv r mic n d)) = nonce"
    "take 16 (drop 81 (eapol_key_frame v t ki kl c nonce iv r mic n d)) = mic"
    "drop 97 (eapol_key_frame v t ki kl c nonce iv r mic n d) = WPA_PUT_BE16 n @ d"
    "drop 99 (eapol_key_frame v t ki kl c nonce iv r mic n d) = d"
    "length z = 16 \<Longrightarrow> overwrite 81 z (eapol_key_frame v t ki kl c nonce iv r mic n d) = eapol_key_frame v t ki kl c nonce iv r z n d"
  using assms by (simp_all add: eapol_key_frame_def WPA_PUT_BE16_def overwrite_def)

text \<open>A frame that a station sends in the handshake, with key information \<open>ki\<close>, replay counter \<open>c\<close> and key data \<open>d\<close>: the MIC is
  computed over the frame with zeros in its place.\<close>

definition station_frame :: "wpa_ptk \<Rightarrow> u16 \<Rightarrow> bytes \<Rightarrow> bytes \<Rightarrow> bytes \<Rightarrow> bytes" where
  "station_frame ptk ki c nonce d =
     (let f = (\<lambda>mic. eapol_key_frame 1 EAPOL_KEY_TYPE_RSN ki 0 c nonce (replicate 16 0) (replicate 8 0) mic (word_of_nat (length d)) d)
      in f (take 16 (HMAC_SHA1 (take 16 (kck ptk)) (f (replicate 16 0)))))"

lemma station_frame_fields:
  assumes "length c = 8" "length nonce = 32" "length d < 256"
  shows "length (station_frame ptk ki c nonce d) = 99 + length d" "station_frame ptk ki c nonce d ! 4 = EAPOL_KEY_TYPE_RSN"
    "key_info_of (station_frame ptk ki c nonce d) = ki" "replay_counter_of (station_frame ptk ki c nonce d) = c"
    "take WPA_NONCE_LEN (drop 17 (station_frame ptk ki c nonce d)) = nonce"
    "key_data_length_of (station_frame ptk ki c nonce d) = length d" "key_data_of (station_frame ptk ki c nonce d) = d"
proof -
  let ?f = "eapol_key_frame 1 EAPOL_KEY_TYPE_RSN ki 0 c nonce (replicate 16 0) (replicate 8 0)"
  define mic where "mic = take 16 (HMAC_SHA1 (take 16 (kck ptk)) (?f (replicate 16 0) (word_of_nat (length d)) d))"
  have m: "length mic = 16" by (simp add: mic_def)
  have e: "station_frame ptk ki c nonce d = ?f mic (word_of_nat (length d)) d" by (simp add: station_frame_def Let_def mic_def)
  have g: "WPA_GET_BE16 (WPA_PUT_BE16 x @ y) = x" for x y using WPA_BE16_roundtrip [of x] by (simp add: WPA_GET_BE16_def WPA_PUT_BE16_def)
  have u: "unat (word_of_nat (length d) :: u16) = length d" using assms(3) by (simp add: unat_of_nat)
  note k = key_frame_fields [OF assms(1,2) length_replicate length_replicate m]
  show "length (station_frame ptk ki c nonce d) = 99 + length d" "station_frame ptk ki c nonce d ! 4 = EAPOL_KEY_TYPE_RSN"
    "key_info_of (station_frame ptk ki c nonce d) = ki" "replay_counter_of (station_frame ptk ki c nonce d) = c"
    "take WPA_NONCE_LEN (drop 17 (station_frame ptk ki c nonce d)) = nonce"
    "key_data_length_of (station_frame ptk ki c nonce d) = length d"
    unfolding e k(2-8) by (simp_all add: k g u)
  then show "key_data_of (station_frame ptk ki c nonce d) = d" unfolding e by (simp add: k g u)
qed

lemma station_frame_verifies:
  assumes "length c = 8" "length nonce = 32" "length d < 256" "unat (ki AND WPA_KEY_INFO_TYPE_MASK) = WPA_KEY_INFO_TYPE_HMAC_SHA1_AES"
  shows "wpa_verify_key_mic ptk (station_frame ptk ki c nonce d)"
proof -
  let ?f = "\<lambda>mic. eapol_key_frame 1 EAPOL_KEY_TYPE_RSN ki 0 c nonce (replicate 16 0) (replicate 8 0) mic (word_of_nat (length d)) d"
  define mic where "mic = take 16 (HMAC_SHA1 (take 16 (kck ptk)) (?f (replicate 16 0)))"
  have m: "length mic = 16" by (simp add: mic_def)
  have e: "station_frame ptk ki c nonce d = ?f mic" by (simp add: station_frame_def Let_def mic_def)
  note k = key_frame_fields [OF assms(1,2) length_replicate length_replicate m]
  have z: "length (?f (replicate 16 0)) = 99 + length d" using key_frame_fields(1) [OF assms(1,2)] by simp
  have h: "hmac_sha1 (take 16 (kck ptk)) (?f (replicate 16 0)) = Some (HMAC_SHA1 (take 16 (kck ptk)) (?f (replicate 16 0)))"
    by (rule hmac_sha1_correct) (use assms(3) z in \<open>auto simp: min_def\<close>)
  have "wpa_eapol_key_mic (kck ptk) (unat (key_info_of (station_frame ptk ki c nonce d) AND WPA_KEY_INFO_TYPE_MASK)) (?f (replicate 16 0)) = Some mic"
    unfolding station_frame_fields(3) [OF assms(1-3)] assms(4) by (simp add: wpa_eapol_key_mic_def h mic_def)
  moreover have "overwrite 81 (replicate 16 0) (?f mic) = ?f (replicate 16 0)" by (rule k(9)) simp
  ultimately show ?thesis
    unfolding wpa_verify_key_mic_def using station_frame_fields(1) [OF assms(1-3), of ptk ki] k(6) by (simp add: e)
qed
section \<open>The handshake completes\<close>

text \<open>A pairwise answer of a station that the authenticator takes up in its present state.\<close>

definition answers :: "wpa_authenticator \<Rightarrow> wpa_state_machine \<Rightarrow> bytes \<Rightarrow> bool" where
  "answers wa sm data \<longleftrightarrow> eapol_key_accepted wa sm data \<and> eapol_key_msg_check sm data = Some Msg_ok \<and>
     \<not> has_flag (key_info_of data) WPA_KEY_INFO_ACK \<and> has_flag (key_info_of data) WPA_KEY_INFO_MIC \<and>
     \<not> has_flag (key_info_of data) WPA_KEY_INFO_REQUEST \<and> has_flag (key_info_of data) WPA_KEY_INFO_KEY_TYPE"

text \<open>The authenticator has sent message 1/4 to a station that uses RSN with a pre-shared key, and waits.\<close>

definition awaiting_message2 :: "wpa_authenticator \<Rightarrow> nat \<Rightarrow> bool" where
  "awaiting_message2 wa i \<longleftrightarrow> has_sta wa i \<and> only_handshake (sta wa i) \<and> wpa_ptk_state (sta wa i) = WPA_PTK_PTKSTART \<and>
     \<not> PTK_valid (sta wa i) \<and> w_Pair (sta wa i) \<and> wpa_key_mgmt_wpa_psk (w_wpa_key_mgmt (sta wa i)) \<and>
     group_quiet wa (w_group (sta wa i)) \<and> key_replay (sta wa i) \<noteq> [] \<and> length (fst (hd (key_replay (sta wa i)))) = 8"

lemma step_fuel:
  assumes "has_sta wa i" "\<not> Init (sta wa i)" "n \<le> ptk_rank (wpa_ptk_state (sta wa i))" 
  shows "\<exists>m. Suc (wpa_rank wa) = Suc (n + m)"
proof -
  have "n \<le> sta_rank (sta wa i)" using assms(2,3) by (simp add: sta_rank_def)
  then have "n \<le> wpa_rank wa" using rank_rest [of wa i] assms(1) by simp
  then show ?thesis by (intro exI [of _ "wpa_rank wa - n"]) simp
qed

lemma step_from_loop:
  assumes "\<not> in_step_loop (sta wa i)" "has_sta wa i" "wpa_sm_loop (Suc (wpa_rank wa)) E i (upd_sta i (\<lambda>sm. sm\<lparr>in_step_loop := True\<rparr>) wa) = Some w"
    "has_sta w i" "\<not> pending_deinit (sta w i)"
  shows "map_option snd (wpa_sm_step E i wa) = Some (upd_sta i (\<lambda>sm. sm\<lparr>in_step_loop := False\<rparr>) w)"
  using assms by (simp add: wpa_sm_step_def wpa_sm_guard_def Let_def)

text \<open>The machine before the step that takes up a frame, in its loop.\<close>

definition taken_up :: "bytes \<Rightarrow> bool \<Rightarrow> wpa_state_machine \<Rightarrow> wpa_state_machine" where
  "taken_up data verified sm = sm\<lparr>MICVerified := verified, key_replay := (key_replay sm)[0 := (fst (key_replay sm ! 0), False)],
     last_rx_eapol_key := Some data, EAPOLKeyReceived := True, EAPOLKeyPairwise := True, EAPOLKeyRequest := False,
     SNonce := take WPA_NONCE_LEN (drop 17 data)\<rparr>"

lemma receive_answer:
  assumes "has_sta wa i" "answers wa (sta wa i) data" "\<And>c. we_malloc E c" "wpa_ok wa" "PTK_valid (sta wa i) \<Longrightarrow> wpa_verify_key_mic (PTK (sta wa i)) data"
  shows "\<exists>w. wpa_receive E i data wa = map_option snd (wpa_sm_step E i w) \<and> has_sta w i \<and> wpa_ok w \<and>
    sta w i = taken_up data (PTK_valid (sta wa i)) (sta wa i) \<and> since wa w \<and> settings w = settings wa \<and> vlans w = vlans wa \<and>
    (\<forall>v. group_quiet w v = group_quiet wa v)"
proof -
  let ?n = "upd_sta i (\<lambda>sm. sm\<lparr>MICVerified := False\<rparr>) wa"
  let ?m = "if PTK_valid (sta wa i) then log_w (W_cancel_timeout (T_send_eapol i)) (upd_sta i (\<lambda>sm. sm\<lparr>MICVerified := True\<rparr>) ?n) else ?n"
  let ?k = "upd_sta i (\<lambda>sm. sm\<lparr>key_replay := (key_replay sm)[0 := (fst (key_replay sm ! 0), False)]\<rparr>) ?m"
  let ?w = "upd_sta i (\<lambda>sm. sm\<lparr>last_rx_eapol_key := Some data, EAPOLKeyReceived := True,
      EAPOLKeyPairwise := has_flag (key_info_of data) WPA_KEY_INFO_KEY_TYPE, EAPOLKeyRequest := has_flag (key_info_of data) WPA_KEY_INFO_REQUEST,
      SNonce := take WPA_NONCE_LEN (drop 17 data)\<rparr>) (log_w W_malloc ?k)"
  have "wpa_receive E i data wa = eapol_key_store E i data ?k"
    using assms(2,5) unfolding answers_def wpa_receive_def Let_def by auto
  also have "\<dots> = map_option snd (wpa_sm_step E i ?w)" using assms(3) by (simp add: eapol_key_store_def wpa_alloc_def Let_def)
  finally have r: "wpa_receive E i data wa = map_option snd (wpa_sm_step E i ?w)" .
  have f: "sta ?w i = taken_up data (PTK_valid (sta wa i)) (sta wa i)"
    using assms(1,2) by (cases "PTK_valid (sta wa i)") (simp_all add: taken_up_def answers_def)
  have "since wa ?w" by (cases "PTK_valid (sta wa i)") (simp_all add: since_log)
  note f = f this
  have g: "has_sta ?w i" "settings ?w = settings wa" "vlans ?w = vlans wa" "group_quiet ?w v = group_quiet wa v" for v
    using assms(1) by (cases "PTK_valid (sta wa i)"; simp add: group_quiet_def)+
  have "wpa_ok ?n" by (rule ok_plain [OF assms(4,1)]) (simp add: sta_ok_def)
  then have "wpa_ok ?m" using assms(1) by (auto intro!: ok_plain simp: sta_ok_def)
  then have "wpa_ok ?k" by (rule ok_plain) (use assms(1) in \<open>simp_all add: sta_ok_def\<close>)
  then have "wpa_ok ?w" by (intro ok_plain) (use assms(1) in \<open>simp_all add: sta_ok_def\<close>)
  then show ?thesis using r f g by blast
qed

text \<open>Message 3/4 leaves the authenticator.\<close>

lemma wrap_given:
  assumes "\<And>k. we_aes E k \<noteq> None"
  shows "\<exists>c. aes_wrap (we_aes E k) n p = Some c"
  using assms [of k] by (auto simp: aes_wrap_def Let_def split: prod.split)

lemma key_data_given:
  assumes "\<And>c. we_malloc E c" "\<And>k. we_aes E k \<noteq> None"
  shows "fst (eapol_key_data E i ver kde encr w) \<noteq> None"
proof -
  obtain f where f: "\<And>k n p. aes_wrap (we_aes E k) n p = Some (f k n p)" using wrap_given [OF assms(2)] by metis
  have m: "wpa_alloc E w = (True, log_w W_malloc w)" for w using assms(1) by (simp add: wpa_alloc_def)
  show ?thesis unfolding eapol_key_data_def Let_def m by (cases kde; cases encr) (simp_all add: f)
qed
lemma send_logged:
  assumes "has_sta wa i" "\<And>c. we_malloc E c" "\<And>k. we_aes E k \<noteq> None" "PTK_valid (sta wa i)"
  shows "\<exists>v t x kl iv r mic n d b. newly (W_send_eapol (w_addr (sta wa i)) (eapol_key_frame v t (ki OR x) kl
      (fst (hd (key_replay_next (key_replay (sta wa i))))) nonce iv r mic n d) b) wa (wpa_send_eapol E i ki rsc (Some nonce) kde idx encr wa)"
proof -
  define w where "w = upd_sta i (\<lambda>sm. sm\<lparr>key_replay := key_replay_next (key_replay sm)\<rparr>) (log_w W_malloc wa)"
  have m: "wpa_alloc E wa = (True, log_w W_malloc wa)" using assms(2) by (simp add: wpa_alloc_def)
  have "\<exists>x y z u. eapol_key_data E i ver kde encr w = (Some (x, y, z), u)" for ver
    using key_data_given [of E i ver kde encr w, OF assms(2,3)] by (cases "eapol_key_data E i ver kde encr w") auto
  then obtain x y z u where d: "\<And>ver. eapol_key_data E i ver kde encr w = (Some (x ver, y ver, z ver), u ver)" by metis
  have "since wa w" by (simp add: w_def since_log)
  then have u: "since wa (wpa_auth_set_eapol a v b (u ver))" for ver a v b
    using since_key_data [of wa w E i ver kde encr] d [of ver] by (simp add: since_callbacks)
  have r: "key_replay (sta w i) = key_replay_next (key_replay (sta wa i))" using assms(1) by (simp add: w_def)
  have o: "(if c then (ki OR p) OR q else ki OR p) = ki OR (if c then p OR q else p)" for c p q
    by (cases c) (simp_all only: or.assoc if_True if_False)
  have "\<exists>v t x kl iv r mic n d b. newly (W_send_eapol (w_addr (sta wa i)) (eapol_key_frame v t (ki OR x) kl
      (fst (hd (key_replay_next (key_replay (sta wa i))))) nonce iv r mic n d) b) wa (wpa_send_eapol_frame E i ki rsc (Some nonce) kde idx encr 0 wa)"
    unfolding wpa_send_eapol_frame_def m Let_def prod.case w_def [symmetric] d option.case r o
    apply (simp only: assms(4) simp_thms if_False if_True option.case)
    apply (intro exI)
    apply (rule newly_log(1))
    apply (rule u)
    done
  then show ?thesis unfolding wpa_send_eapol_def Let_def by (blast intro: newly_log(2))
qed

text \<open>A frame that is message 3/4 for a machine: it carries the nonce of the handshake and the replay counter whose answer is awaited, a
  MIC and the request to install the key.\<close>

definition message3 :: "wpa_state_machine \<Rightarrow> bytes \<Rightarrow> bool" where
  "message3 sm f \<longleftrightarrow> snd (hd (key_replay sm)) \<and> (\<exists>v t ki kl iv r mic n d.
     f = eapol_key_frame v t ki kl (fst (hd (key_replay sm))) (ANonce sm) iv r mic n d \<and>
     has_flag ki WPA_KEY_INFO_INSTALL \<and> has_flag ki WPA_KEY_INFO_MIC \<and> has_flag ki WPA_KEY_INFO_ACK)"

lemma message3I:
  assumes "key_replay sm = (c, True) # rs" "ANonce sm = nonce"
    "has_flag ki WPA_KEY_INFO_INSTALL" "has_flag ki WPA_KEY_INFO_MIC" "has_flag ki WPA_KEY_INFO_ACK"
  shows "message3 sm (eapol_key_frame v t ki kl c nonce iv r mic n d)"
  unfolding message3_def using assms(3-5) by (simp only: assms(1,2) list.sel prod.sel) blast

lemma initneg_sends:
  assumes "has_sta wa i" "\<And>c. we_malloc E c" "\<And>k. we_aes E k \<noteq> None" "PTK_valid (sta wa i)" "TimeoutCtr (sta wa i) = 0"
  shows "\<exists>f b. message3 (sta (sm_WPA_PTK_PTKINITNEGOTIATING_Enter E i wa) i) f \<and>
    newly (W_send_eapol (w_addr (sta wa i)) f b) wa (sm_WPA_PTK_PTKINITNEGOTIATING_Enter E i wa)"
proof -
  define wa' where "wa' = upd_sta i (\<lambda>sm. sm\<lparr>TimeoutEvt := False, TimeoutCtr := TimeoutCtr sm + 1\<rparr>)
    (enter_ptk WPA_PTK_PTKINITNEGOTIATING i wa)"
  have h: "has_sta wa' i" "TimeoutCtr (sta wa' i) = 1" "PTK_valid (sta wa' i)" "w_addr (sta wa' i) = w_addr (sta wa i)"
    using assms by (simp_all add: wa'_def enter_ptk_def)
  define w where "w = log_w W_malloc wa'"
  have hw: "has_sta w i" "PTK_valid (sta w i)" "sta w i = sta wa' i" "since wa w"
    using h since_enter(3) by (simp_all add: w_def since_log wa'_def)
  have m: "wpa_alloc E wa' = (True, w)" using assms(2) by (simp add: wpa_alloc_def w_def)
  define ki :: u16 where "ki = (if w_wpa (sta wa' i) = WPA_VERSION_WPA2 then WPA_KEY_INFO_SECURE else 0) OR WPA_KEY_INFO_MIC OR WPA_KEY_INFO_ACK OR
      WPA_KEY_INFO_INSTALL OR WPA_KEY_INFO_KEY_TYPE"
  have flags: "has_flag (ki OR x) WPA_KEY_INFO_INSTALL" "has_flag (ki OR x) WPA_KEY_INFO_MIC" "has_flag (ki OR x) WPA_KEY_INFO_ACK" for x
    by (simp_all add: ki_def has_flag_def bit.conj_disj_distrib2)
  have s: "sta (wpa_send_eapol E i ki rsc n kde idx encr w) i = (sta w i)\<lparr>key_replay := key_replay_next (key_replay (sta w i))\<rparr>" for rsc n kde idx encr
    using send_sta [OF hw(1)] assms(2) by (simp add: wpa_alloc_def)
  have *: "\<exists>f b. message3 (sta (wpa_send_eapol E i ki rsc (Some (ANonce (sta wa' i))) kde idx encr w) i) f \<and>
      newly (W_send_eapol (w_addr (sta wa i)) f b) wa (wpa_send_eapol E i ki rsc (Some (ANonce (sta wa' i))) kde idx encr w)" for rsc kde idx encr
  proof -
    obtain v t x kl iv r mic n d b where "newly (W_send_eapol (w_addr (sta w i)) (eapol_key_frame v t (ki OR x) kl
        (fst (hd (key_replay_next (key_replay (sta w i))))) (ANonce (sta wa' i)) iv r mic n d) b) w
        (wpa_send_eapol E i ki rsc (Some (ANonce (sta wa' i))) kde idx encr w)"
      using send_logged [OF hw(1) assms(2,3) hw(2), of ki "ANonce (sta wa' i)" rsc kde idx encr] by (elim exE)
    note new = newly_trans(1) [OF hw(4) this]
    have "message3 (sta (wpa_send_eapol E i ki rsc (Some (ANonce (sta wa' i))) kde idx encr w) i) (eapol_key_frame v t (ki OR x) kl
        (fst (hd (key_replay_next (key_replay (sta w i))))) (ANonce (sta wa' i)) iv r mic n d)"
      unfolding s by (rule message3I) (use flags in \<open>simp_all add: key_replay_next_def hw(3)\<close>)
    then show ?thesis using new hw(3) h(4) by auto
  qed
  show ?thesis
    unfolding sm_WPA_PTK_PTKINITNEGOTIATING_Enter_def Let_def wa'_def [symmetric] m prod.case ki_def [symmetric]
    using h(2) * by simp
qed

text \<open>The end of a call: the loop came to rest.\<close>

lemma step_settles:
  assumes "wpa_ok w" "has_sta w i" "wpa_sm_loop (Suc (wpa_rank w)) E i (upd_sta i (\<lambda>sm. sm\<lparr>in_step_loop := True\<rparr>) w) = Some (unchanged i u)"
    "wpa_wf u" "has_sta u i"
  shows "\<exists>wa'. map_option snd (wpa_sm_step E i w) = Some wa' \<and> wpa_ok wa' \<and> has_sta wa' i \<and> wa_calls wa' = wa_calls u \<and>
    sta wa' i = (sta u i)\<lparr>w_changed := False, in_step_loop := False\<rparr> \<and> settings wa' = settings u \<and>
    group_quiet wa' (w_group (sta u i)) = group_quiet u (w_group (sta u i))"
proof -
  define wa' where "wa' = upd_sta i (\<lambda>sm. sm\<lparr>in_step_loop := False\<rparr>) (unchanged i u)"
  have nl: "\<not> in_step_loop (sta w i)" using assms(1,2) by (simp add: wpa_ok_def)
  have np: "\<not> pending_deinit (sta u i)" and v: "w_group (sta u i) \<in> set (vlans u)" using assms(4,5) by (simp_all add: wpa_wf_def sta_ok_def)
  have r: "map_option snd (wpa_sm_step E i w) = Some wa'"
    unfolding wa'_def by (rule step_from_loop [OF nl assms(2,3)]) (use assms(5) np in simp_all)
  then have "wpa_ok wa'" using returns_step [OF assms(1,2), of E] by auto
  moreover have "group_quiet wa' (w_group (sta u i)) = group_quiet u (w_group (sta u i))"
    using v grp_upd_grp [of "\<lambda>g. g\<lparr>g_changed := False\<rparr>"] keeps_idI
    by (cases "w_group (sta u i) = head_group u") (simp_all add: wa'_def group_quiet_def Let_def)
  ultimately show ?thesis using r assms(5) by (intro exI [of _ wa']) (simp add: wa'_def)
qed

lemma message2_taken:
  assumes "wpa_ok wa" "awaiting_message2 wa i" "answers wa (sta wa i) data" "\<And>c. we_malloc E c" "\<And>k. we_aes E k \<noteq> None"
    and k: "usable_psk E (w_addr (sta wa i)) k"
      "wpa_verify_key_mic (handshake_ptk (wa_addr wa) (w_addr (sta wa i)) (w_pairwise (sta wa i)) (ANonce (sta wa i))
        (take WPA_NONCE_LEN (drop 17 data)) (psk_at E k)) data"
  shows "\<exists>wa' j. wpa_receive E i data wa = Some wa' \<and> wpa_ok wa' \<and> has_sta wa' i \<and> only_handshake (sta wa' i) \<and>
    wpa_ptk_state (sta wa' i) = WPA_PTK_PTKINITNEGOTIATING \<and> PTK_valid (sta wa' i) \<and> usable_psk E (w_addr (sta wa i)) j \<and>
    PTK (sta wa' i) = handshake_ptk (wa_addr wa) (w_addr (sta wa i)) (w_pairwise (sta wa i)) (ANonce (sta wa i))
      (take WPA_NONCE_LEN (drop 17 data)) (psk_at E j) \<and> wpa_verify_key_mic (PTK (sta wa' i)) data \<and>
    ident (sta wa' i) = ident (sta wa i) \<and> w_Pair (sta wa' i) \<and> group_quiet wa' (w_group (sta wa' i)) \<and>
    settings wa' = settings wa \<and> key_replay (sta wa' i) \<noteq> [] \<and> length (fst (hd (key_replay (sta wa' i)))) = 8 \<and>
    (\<exists>f b. message3 (sta wa' i) f \<and> newly (W_send_eapol (w_addr (sta wa i)) f b) wa wa')"
proof -
  define sm where "sm = sta wa i"
  have a: "has_sta wa i" "only_handshake sm" "wpa_ptk_state sm = WPA_PTK_PTKSTART" "\<not> PTK_valid sm" "w_Pair sm"
    "wpa_key_mgmt_wpa_psk (w_wpa_key_mgmt sm)" "group_quiet wa (w_group sm)"
    "key_replay sm \<noteq> []" "length (fst (hd (key_replay sm))) = 8"
    using assms(2) by (simp_all add: awaiting_message2_def sm_def)
  obtain w where w: "wpa_receive E i data wa = map_option snd (wpa_sm_step E i w)" "has_sta w i" "wpa_ok w"
      "sta w i = taken_up data False sm" "since wa w" "settings w = settings wa" "vlans w = vlans wa" "\<forall>v. group_quiet w v = group_quiet wa v"
    using receive_answer [OF a(1) assms(3,4,1)] a(4) unfolding sm_def by auto
  define w0 where "w0 = upd_sta i (\<lambda>sm. sm\<lparr>in_step_loop := True\<rparr>) w"
  have s0: "sta w0 i = (taken_up data False sm)\<lparr>in_step_loop := True\<rparr>" "has_sta w0 i" using w(2,4) by (simp_all add: w0_def)
  have wf0: "wpa_wf w0" unfolding w0_def by (rule in_loop_shape(1)) (use w(2,3) in \<open>simp_all add: wpa_ok_def\<close>)
  have q0: "group_quiet w0 (w_group (sta w0 i))" using w(8) a(7) s0(1) by (simp add: w0_def group_quiet_def taken_up_def)
  have addr: "wa_addr w0 = wa_addr wa" using w(6) by (simp add: w0_def settings_def)
  let ?p = "\<lambda>k. handshake_ptk (wa_addr wa) (w_addr sm) (w_pairwise sm) (ANonce sm) (take WPA_NONCE_LEN (drop 17 data)) (psk_at E k)"
  obtain j where j: "find_psk (\<lambda>k. wpa_verify_key_mic (?p k) data) (we_psks E) (w_addr sm) None = Some j"
    using find_psk_finds [OF k(1), of "\<lambda>k. wpa_verify_key_mic (?p k) data" None] k(2) unfolding sm_def by auto
  then have ju: "usable_psk E (w_addr sm) j" "wpa_verify_key_mic (?p j) data" using find_psk_usable [OF j] by auto
  have v: "verified_pmk E w0 (sta w0 i) = Some (psk_at E j)"
    using j a(6) by (simp add: verified_pmk_def s0(1) taken_up_def derive_handshake addr)
  have o0: "only_handshake (sta w0 i)" "wpa_ptk_state (sta w0 i) = WPA_PTK_PTKSTART" "armed (sta w0 i)"
    using a(2,3) by (simp_all add: s0(1) taken_up_def only_handshake_def armed_def)
  obtain n where n: "Suc (wpa_rank w) = Suc (Suc (Suc (Suc n)))"
    using step_fuel [OF w(2), of 3] a(2,3) by (auto simp: w(4) taken_up_def only_handshake_def numeral_3_eq_3)
  obtain w2 w3 where w3: "wpa_sm_loop (Suc (Suc (Suc (Suc n)))) E i w0 = Some (unchanged i w3)" "wpa_wf w3" "has_sta w3 i"
      "w3 = sm_WPA_PTK_PTKINITNEGOTIATING_Enter E i (unchanged i w2)" "has_sta w2 i" "PTK_valid (sta w2 i)" "TimeoutCtr (sta w2 i) = 0"
      "ident (sta w2 i) = ident (sta w0 i)" "since w0 w2" "only_handshake (sta w3 i)" "wpa_ptk_state (sta w3 i) = WPA_PTK_PTKINITNEGOTIATING"
      "PTK_valid (sta w3 i)" "PTK (sta w3 i) = wpa_derive_ptk w0 (sta w0 i) (psk_at E j)" "group_quiet w3 (w_group (sta w0 i))"
      "ident (sta w3 i) = ident (sta w0 i)" "w_Pair (sta w3 i) = w_Pair (sta w0 i)"
      "settings w3 = settings w0" "length (fst (hd (key_replay (sta w3 i)))) = length (fst (hd (key_replay (sta w0 i))))"
      "key_replay (sta w0 i) \<noteq> [] \<longrightarrow> key_replay (sta w3 i) \<noteq> []"
    using loop_message2 [OF wf0 s0(2) q0 o0 v, of n] by blast
  obtain wa' where s': "map_option snd (wpa_sm_step E i w) = Some wa'" "wpa_ok wa'" "has_sta wa' i" "wa_calls wa' = wa_calls w3"
      "sta wa' i = (sta w3 i)\<lparr>w_changed := False, in_step_loop := False\<rparr>" "settings wa' = settings w3"
      "group_quiet wa' (w_group (sta w3 i)) = group_quiet w3 (w_group (sta w3 i))"
    using step_settles [OF w(3,2), unfolded n, folded w0_def, OF w3(1-3)] by blast
  have r: "wpa_receive E i data wa = Some wa'" using w(1) s'(1) by simp
  have id: "ident (sta wa' i) = ident sm" using w3(15) s0(1) by (simp add: s'(5) ident_def taken_up_def)
  have p: "PTK (sta wa' i) = ?p j" using w3(13) by (simp add: s'(5) derive_handshake addr s0(1) taken_up_def)
  have g: "group_quiet wa' (w_group (sta wa' i))" using s'(5,7) w3(14,15) by (simp add: ident_def)
  obtain f b where f: "message3 (sta w3 i) f" "newly (W_send_eapol (w_addr (sta (unchanged i w2) i)) f b) (unchanged i w2) w3"
    using initneg_sends [of "unchanged i w2" i E] w3(5-7) assms(4,5) unfolding w3(4) by auto
  have "since wa w2" using w(5) w3(9) newly_trans(3) [of wa w w2] by (simp add: w0_def)
  then have "newly (W_send_eapol (w_addr sm) f b) wa wa'"
    using newly_trans(1) [of wa w2 _ w3] f(2) w3(5,8) s0(1) s'(4) by (simp add: taken_up_def ident_def newly_def)
  then have m3: "\<exists>f b. message3 (sta wa' i) f \<and> newly (W_send_eapol (w_addr sm) f b) wa wa'"
    using f(1) unfolding s'(5) message3_def by (intro exI [of _ f] exI [of _ b]) simp
  moreover have "settings wa' = settings wa" using w3(17) w(6) s'(6) by (simp add: w0_def)
  moreover have "key_replay (sta wa' i) \<noteq> []" "length (fst (hd (key_replay (sta wa' i)))) = 8"
    using w3(18,19) a(8,9) by (cases "key_replay sm"; simp add: s'(5) s0(1) taken_up_def)+
  moreover have "only_handshake (sta wa' i)" "wpa_ptk_state (sta wa' i) = WPA_PTK_PTKINITNEGOTIATING" "PTK_valid (sta wa' i)" "w_Pair (sta wa' i)"
    using w3(10-12,16) a(5) s0(1) by (simp_all add: s'(5) only_handshake_def taken_up_def)
  ultimately show ?thesis using r s'(2,3) id p g ju m3 unfolding sm_def by (intro exI [of _ wa'] exI [of _ j]) auto
qed

lemma message4_taken:
  assumes "wpa_ok wa" "has_sta wa i" "only_handshake (sta wa i)" "wpa_ptk_state (sta wa i) = WPA_PTK_PTKINITNEGOTIATING" "PTK_valid (sta wa i)"
    "w_Pair (sta wa i)" "wpa_key_mgmt_wpa_psk (w_wpa_key_mgmt (sta wa i))" "group_quiet wa (w_group (sta wa i))"
    and "answers wa (sta wa i) data" "wpa_verify_key_mic (PTK (sta wa i)) data" "\<And>c. we_malloc E c" "\<And>c. we_set_key E c = 0"
    and alg: "pairwise_alg (w_pairwise (sta wa i)) = (alg, klen)"
  shows "\<exists>wa'. wpa_receive E i data wa = Some wa' \<and> wpa_ptk_state (sta wa' i) = WPA_PTK_PTKINITDONE \<and>
    newly (W_set_key 0 alg (Some (w_addr (sta wa i))) 0 (take klen (tk1 (PTK (sta wa i)) @ tk2 (PTK (sta wa i))))) wa wa' \<and>
    newly (W_set_eapol (w_addr (sta wa i)) WPA_EAPOL_authorized True) wa wa'"
proof -
  obtain w where w: "wpa_receive E i data wa = map_option snd (wpa_sm_step E i w)" "has_sta w i" "wpa_ok w"
      "sta w i = taken_up data True (sta wa i)" "since wa w" "\<forall>v. group_quiet w v = group_quiet wa v"
    using receive_answer [OF assms(2,9,11,1,10)] assms(5) by auto
  define w0 where "w0 = upd_sta i (\<lambda>sm. sm\<lparr>in_step_loop := True\<rparr>) w"
  have s0: "sta w0 i = (taken_up data True (sta wa i))\<lparr>in_step_loop := True\<rparr>" "has_sta w0 i" using w(2,4) by (simp_all add: w0_def)
  have wf0: "wpa_wf w0" unfolding w0_def by (rule in_loop_shape(1)) (use w(2,3) in \<open>simp_all add: wpa_ok_def\<close>)
  have q0: "group_quiet w0 (w_group (sta w0 i))" using w(6) assms(8) s0(1) by (simp add: w0_def group_quiet_def taken_up_def)
  have o0: "only_handshake (sta w0 i)" "wpa_ptk_state (sta w0 i) = WPA_PTK_PTKINITNEGOTIATING" "armed (sta w0 i)" "MICVerified (sta w0 i)"
    using assms(3,4) by (simp_all add: s0(1) taken_up_def only_handshake_def armed_def)
  obtain n where n: "Suc (wpa_rank w) = Suc (Suc n)"
    using step_fuel [OF w(2), of 1] assms(3,4) by (auto simp: w(4) taken_up_def only_handshake_def)
  obtain w1 where w1: "wpa_sm_loop (Suc (Suc n)) E i w0 = Some (unchanged i w1)" "has_sta w1 i"
      "w1 = sm_WPA_PTK_PTKINITDONE_Enter E i (unchanged i w0)" "wpa_ptk_state (sta w1 i) = WPA_PTK_PTKINITDONE" "wpa_wf w1"
    using loop_message4 [OF wf0 s0(2) q0 o0, of n E] by blast
  obtain wa' where s': "map_option snd (wpa_sm_step E i w) = Some wa'" "wa_calls wa' = wa_calls w1"
      "sta wa' i = (sta w1 i)\<lparr>w_changed := False, in_step_loop := False\<rparr>"
    using step_settles [OF w(3,2), unfolded n, folded w0_def, OF w1(1,5,2)] by blast
  have su: "sta (unchanged i w0) i = (sta w0 i)\<lparr>w_changed := False\<rparr>" "has_sta (unchanged i w0) i" using s0(2) by simp_all
  note inst = done_installs [OF su(2), of E alg klen, folded w1(3)]
  have "newly (W_set_key 0 alg (Some (w_addr (sta wa i))) 0 (take klen (tk1 (PTK (sta wa i)) @ tk2 (PTK (sta wa i))))) w0 w1"
    "newly (W_set_eapol (w_addr (sta wa i)) WPA_EAPOL_authorized True) w0 w1"
    using inst assms(6,7,12) alg unfolding su(1) s0(1) by (simp_all add: taken_up_def)
  then show ?thesis using w(1) s' w1(4) newly_trans(1) [OF w(5)] by (simp add: newly_def w0_def)
qed

text \<open>A station can always answer message 3/4: its message 4/4 is taken up.\<close>

lemma message4_answers:
  assumes "wpa_ptk_state sm = WPA_PTK_PTKINITNEGOTIATING" "PTK_valid sm" "w_wpa sm = WPA_VERSION_WPA2" "wc_wpa (wa_conf wa) \<noteq> 0"
    "key_replay sm \<noteq> []" "snd (hd (key_replay sm))" "length (fst (hd (key_replay sm))) = 8"
  shows "answers wa sm (station_frame ptk 0x30a (fst (hd (key_replay sm))) (replicate 32 0) [])"
proof -
  note f = station_frame_fields [OF assms(7), where nonce = "replicate 32 0" and d = "[]" and ptk = ptk and ki = "0x30a"]
  have "wpa_replay_counter_valid sm (fst (hd (key_replay sm)))"
    using assms(5,6) by (cases "key_replay sm") (auto simp: wpa_replay_counter_valid_def)
  then show ?thesis
    using assms(1-4) f unfolding answers_def eapol_key_accepted_def eapol_key_msg_check_def wpa_msg_of_def Let_def by (simp add: has_flag_def)
qed

text \<open>C3.  A station that holds a pre-shared key gets access.  When the authenticator has sent message 1/4 and waits, a message 2/4
  whose MIC verifies under any of the pre-shared keys of the station (not only the first one) makes it send message 3/4 with the next
  replay counter; the station can answer, and every answer with a valid MIC makes the authenticator install the temporal key and report
  the station as authorized, within the call that receives it.  Allocations, the installation of the key and the block cipher are assumed
  to succeed, and the group to have no rekey in progress.\<close>

theorem psk_handshake_completes:
  assumes "wpa_ok wa" "awaiting_message2 wa i" "\<forall>c. we_malloc E c" "\<forall>k. we_aes E k \<noteq> None" "\<forall>c. we_set_key E c = 0"
    and "answers wa (sta wa i) m2" "usable_psk E (w_addr (sta wa i)) k"
    and "wpa_verify_key_mic (handshake_ptk (wa_addr wa) (w_addr (sta wa i)) (w_pairwise (sta wa i)) (ANonce (sta wa i))
        (take WPA_NONCE_LEN (drop 17 m2)) (psk_at E k)) m2"
  shows "\<exists>wa' f b. wpa_receive E i m2 wa = Some wa' \<and> wpa_ptk_state (sta wa' i) = WPA_PTK_PTKINITNEGOTIATING \<and>
    wpa_verify_key_mic (PTK (sta wa' i)) m2 \<and>
    message3 (sta wa' i) f \<and> newly (W_send_eapol (w_addr (sta wa i)) f b) wa wa' \<and>
    (\<exists>m4. answers wa' (sta wa' i) m4 \<and> wpa_verify_key_mic (PTK (sta wa' i)) m4) \<and>
    (\<forall>m4. answers wa' (sta wa' i) m4 \<and> wpa_verify_key_mic (PTK (sta wa' i)) m4 \<longrightarrow>
      (\<exists>wa'' alg klen. wpa_receive E i m4 wa' = Some wa'' \<and> wpa_ptk_state (sta wa'' i) = WPA_PTK_PTKINITDONE \<and>
        pairwise_alg (w_pairwise (sta wa i)) = (alg, klen) \<and>
        newly (W_set_key 0 alg (Some (w_addr (sta wa i))) 0 (take klen (tk1 (PTK (sta wa' i)) @ tk2 (PTK (sta wa' i))))) wa' wa'' \<and>
        newly (W_set_eapol (w_addr (sta wa i)) WPA_EAPOL_authorized True) wa' wa''))"
proof -
  have e: "\<And>c. we_malloc E c" "\<And>k. we_aes E k \<noteq> None" "\<And>c. we_set_key E c = 0" using assms(3-5) by simp_all
  obtain wa' where r: "wpa_receive E i m2 wa = Some wa'" "wpa_ok wa'" "has_sta wa' i" "only_handshake (sta wa' i)"
      "wpa_ptk_state (sta wa' i) = WPA_PTK_PTKINITNEGOTIATING" "PTK_valid (sta wa' i)" "wpa_verify_key_mic (PTK (sta wa' i)) m2"
      "ident (sta wa' i) = ident (sta wa i)" "w_Pair (sta wa' i)" "group_quiet wa' (w_group (sta wa' i))" "settings wa' = settings wa"
      "key_replay (sta wa' i) \<noteq> []" "length (fst (hd (key_replay (sta wa' i)))) = 8"
      "\<exists>f b. message3 (sta wa' i) f \<and> newly (W_send_eapol (w_addr (sta wa i)) f b) wa wa'"
    using message2_taken [OF assms(1,2,6) e(1,2) assms(7,8)] by blast
  then obtain f b where f: "message3 (sta wa' i) f" "newly (W_send_eapol (w_addr (sta wa i)) f b) wa wa'" by blast
  have c: "w_wpa (sta wa' i) = WPA_VERSION_WPA2" "wc_wpa (wa_conf wa') \<noteq> 0" "snd (hd (key_replay (sta wa' i)))"
    using r(4,11) assms(6) f(1) by (simp_all add: only_handshake_def settings_def answers_def eapol_key_accepted_def message3_def)
  let ?m4 = "station_frame (PTK (sta wa' i)) 0x30a (fst (hd (key_replay (sta wa' i)))) (replicate 32 0) []"
  have "answers wa' (sta wa' i) ?m4" by (rule message4_answers) (use r(5,6,12,13) c in simp_all)
  moreover have "wpa_verify_key_mic (PTK (sta wa' i)) ?m4" by (rule station_frame_verifies) (use r(13) in simp_all)
  ultimately have m4: "\<exists>m4. answers wa' (sta wa' i) m4 \<and> wpa_verify_key_mic (PTK (sta wa' i)) m4" by blast
  obtain alg klen where alg: "pairwise_alg (w_pairwise (sta wa' i)) = (alg, klen)" by force
  have id: "w_addr (sta wa' i) = w_addr (sta wa i)" "w_pairwise (sta wa' i) = w_pairwise (sta wa i)" "wpa_key_mgmt_wpa_psk (w_wpa_key_mgmt (sta wa' i))"
    using r(8) assms(2) by (auto simp: ident_def awaiting_message2_def)
  have "answers wa' (sta wa' i) m4 \<Longrightarrow> wpa_verify_key_mic (PTK (sta wa' i)) m4 \<Longrightarrow>
      \<exists>wa''. wpa_receive E i m4 wa' = Some wa'' \<and> wpa_ptk_state (sta wa'' i) = WPA_PTK_PTKINITDONE \<and>
        newly (W_set_key 0 alg (Some (w_addr (sta wa i))) 0 (take klen (tk1 (PTK (sta wa' i)) @ tk2 (PTK (sta wa' i))))) wa' wa'' \<and>
        newly (W_set_eapol (w_addr (sta wa i)) WPA_EAPOL_authorized True) wa' wa''" for m4
    using message4_taken [OF r(2-6,9) id(3) r(10) _ _ e(1,3) alg] unfolding id(1) by blast
  then show ?thesis using r(1,5,7) f m4 alg unfolding id(2) by blast
qed

text \<open>An authenticator that waits for message 2/4 of its only station.\<close>

definition demo_sta_ie :: bytes where
  "demo_sta_ie = [48, 20, 1, 0, 0, 0x0f, 0xac, 2, 1, 0, 0, 0x0f, 0xac, 4, 1, 0, 0, 0x0f, 0xac, 2, 13, 0]"

definition demo_waiting :: wpa_authenticator where
  "demo_waiting = (wpa_auth_zero demo_wpa_conf (replicate 6 2))\<lparr>wa_group := [wpa_group_zero\<lparr>wpa_group_state := WPA_GROUP_SETKEYSDONE, GN := 1, GM := 2\<rparr>],
     wa_stas := [Some (wpa_sm_zero\<lparr>w_addr := replicate 6 3, wpa_ptk_state := WPA_PTK_PTKSTART, w_Pair := True, w_wpa := WPA_VERSION_WPA2,
       w_pairwise := WPA_CIPHER_CCMP, w_wpa_key_mgmt := WPA_KEY_MGMT_PSK, w_wpa_ie := Some demo_sta_ie, TimeoutCtr := 1,
       key_replay := (replicate 7 0 @ [1], True) # replicate 3 (replicate 8 0, False)\<rparr>)], wa_calls := [W_malloc]\<rparr>"

definition demo_live_env :: wpa_env where
  "demo_live_env = demo_wpa_env\<lparr>we_aes := \<lambda>_. Some (\<lambda>b. b)\<rparr>"

definition demo_message2 :: bytes where
  "demo_message2 = station_frame (handshake_ptk (replicate 6 2) (replicate 6 3) WPA_CIPHER_CCMP (replicate 32 0) (replicate 32 5)
     (psk_at demo_live_env 0)) 0x10a (replicate 7 0 @ [1]) (replicate 32 5) demo_sta_ie"

lemma demo_sta_ie_parsed: "wpa_parse_kde_ies demo_sta_ie = Some (0, kde_none\<lparr>kde_rsn_ie := Some demo_sta_ie\<rparr>)"
proof -
  have "length demo_sta_ie = 22" by (simp add: demo_sta_ie_def)
  then have "kde_loop demo_sta_ie 22 ie = Some (0, ie)" for ie using kde_loop_end [of "[]" demo_sta_ie] by simp
  then show ?thesis using kde_loop_rsn [of "drop 2 demo_sta_ie" 20 0 "[]" "[]" kde_none] by (simp add: wpa_parse_kde_ies_def demo_sta_ie_def)
qed

lemma demo_waiting_sta:
  "sta demo_waiting 0 = wpa_sm_zero\<lparr>w_addr := replicate 6 3, wpa_ptk_state := WPA_PTK_PTKSTART, w_Pair := True, w_wpa := WPA_VERSION_WPA2,
       w_pairwise := WPA_CIPHER_CCMP, w_wpa_key_mgmt := WPA_KEY_MGMT_PSK, w_wpa_ie := Some demo_sta_ie, TimeoutCtr := 1,
       key_replay := (replicate 7 0 @ [1], True) # replicate 3 (replicate 8 0, False)\<rparr>"
  "has_sta demo_waiting i \<longleftrightarrow> i = 0"
  by (auto simp: demo_waiting_def sta_def has_sta_def wpa_auth_zero_def)

lemma demo_waiting_ok: "wpa_ok demo_waiting" "awaiting_message2 demo_waiting 0"
proof -
  have "vlans demo_waiting = [0]" "wa_group demo_waiting \<noteq> []" "wa_pmksa demo_waiting = pmksa_cache_auth_init" "\<not> wc_okc (wa_conf demo_waiting)"
    by (simp_all add: demo_waiting_def vlans_def wpa_group_zero_def wpa_auth_zero_def demo_wpa_conf_def)
  then show "wpa_ok demo_waiting"
    using pmksa_init_wf by (auto simp: wpa_ok_def wpa_wf_def demo_waiting_sta wpa_sm_zero_def sta_ok_def)
  have "group_quiet demo_waiting 0" by (simp add: group_quiet_def grp_def demo_waiting_def wpa_group_zero_def)
  then show "awaiting_message2 demo_waiting 0"
    by (simp add: awaiting_message2_def only_handshake_def demo_waiting_sta wpa_sm_zero_def wpa_key_mgmt_wpa_psk_def)
qed

lemma demo_message2_answers: "answers demo_waiting (sta demo_waiting 0) demo_message2"
proof -
  have l: "length demo_sta_ie < 256" "length (replicate 7 (0::u8) @ [1]) = 8" "length (replicate 32 (5::u8)) = 32" by (simp_all add: demo_sta_ie_def)
  have "wpa_replay_counter_valid (sta demo_waiting 0) (replicate 7 0 @ [1])" by (simp add: wpa_replay_counter_valid_def demo_waiting_sta)
  moreover have "demo_sta_ie \<noteq> []" by (simp add: demo_sta_ie_def)
  moreover have "wc_wpa (wa_conf demo_waiting) \<noteq> 0" by (simp add: demo_waiting_def wpa_auth_zero_def demo_wpa_conf_def)
  moreover have "take (length demo_sta_ie) (drop 99 (station_frame ptk 0x10a (replicate 7 0 @ [1]) (replicate 32 5) demo_sta_ie)) = demo_sta_ie" for ptk
    using station_frame_fields(6,7) [OF l(2,3,1)] by simp
  ultimately show ?thesis
    unfolding answers_def eapol_key_accepted_def eapol_key_msg_check_def wpa_msg_of_def Let_def demo_message2_def
      station_frame_fields(1-6) [OF l(2,3,1)]
    by (simp add: demo_sta_ie_parsed has_flag_def demo_waiting_sta kde_none_def wpa_compare_rsn_ie_def)
qed

lemma demo_usable: "usable_psk demo_live_env (w_addr (sta demo_waiting 0)) 0"
  by (simp add: usable_psk_def demo_live_env_def demo_wpa_env_def)

lemma demo_message2_verifies:
  "wpa_verify_key_mic (handshake_ptk (wa_addr demo_waiting) (w_addr (sta demo_waiting 0)) (w_pairwise (sta demo_waiting 0))
      (ANonce (sta demo_waiting 0)) (take WPA_NONCE_LEN (drop 17 demo_message2)) (psk_at demo_live_env 0)) demo_message2"
proof -
  have l: "length demo_sta_ie < 256" "length (replicate 7 (0::u8) @ [1]) = 8" "length (replicate 32 (5::u8)) = 32" by (simp_all add: demo_sta_ie_def)
  have n: "take WPA_NONCE_LEN (drop 17 demo_message2) = replicate 32 5" "wa_addr demo_waiting = replicate 6 2"
    using station_frame_fields(5) [OF l(2,3,1)] by (simp_all add: demo_message2_def demo_waiting_def wpa_auth_zero_def)
  have f: "w_addr (sta demo_waiting 0) = replicate 6 3" "w_pairwise (sta demo_waiting 0) = WPA_CIPHER_CCMP" "ANonce (sta demo_waiting 0) = replicate 32 0"
    by (simp_all add: demo_waiting_sta wpa_sm_zero_def)
  show ?thesis unfolding n f unfolding demo_message2_def by (rule station_frame_verifies [OF l(2,3,1)]) simp
qed

theorem psk_handshake_completes_witness:
  "\<exists>wa' m4 wa''. wpa_receive demo_live_env 0 demo_message2 demo_waiting = Some wa' \<and>
    wpa_receive demo_live_env 0 m4 wa' = Some wa'' \<and> wpa_ptk_state (sta wa'' 0) = WPA_PTK_PTKINITDONE \<and>
    newly (W_set_eapol (replicate 6 3) WPA_EAPOL_authorized True) wa' wa''"
proof -
  have e: "\<forall>c. we_malloc demo_live_env c" "\<forall>k. we_aes demo_live_env k \<noteq> None" "\<forall>c. we_set_key demo_live_env c = 0"
    by (simp_all add: demo_live_env_def demo_wpa_env_def)
  have f: "w_addr (sta demo_waiting 0) = replicate 6 3" by (simp add: demo_waiting_sta)
  show ?thesis
    using psk_handshake_completes [OF demo_waiting_ok e demo_message2_answers demo_usable demo_message2_verifies] unfolding f by blast
qed

end
