(* ===== verification/Wpa_Auth_Replay.thy ===== *)
theory Wpa_Auth_Replay
  imports Wpa_Auth_Live
begin

text \<open>
  The replay counters of \<^verbatim>\<open>src/ap/wpa_auth.c\<close>: a frame that answers the authenticator is taken up at most once.
\<close>

section \<open>The window of counters\<close>

text \<open>The counters whose answer is awaited are those before the first invalid one.\<close>

definition awaited :: "(bytes \<times> bool) list \<Rightarrow> bytes set" where
  "awaited k = set (map fst (takeWhile snd k))"

definition window_typed :: "(bytes \<times> bool) list \<Rightarrow> bool" where
  "window_typed k \<longleftrightarrow> length k = 4 \<and> (\<forall>x\<in>set k. length (fst x) = 8)"

text \<open>At most \<open>n\<close> counters have been used, and no awaited counter is above the last one that was used.\<close>

definition window_ok :: "nat \<Rightarrow> (bytes \<times> bool) list \<Rightarrow> bool" where
  "window_ok n k \<longleftrightarrow> be_value (fst (hd k)) \<le> n \<and> (\<forall>c\<in>awaited k. be_value c \<le> be_value (fst (hd k)))"

text \<open>An answer with counter \<open>m\<close> is outdated.\<close>

definition past :: "nat \<Rightarrow> (bytes \<times> bool) list \<Rightarrow> bool" where
  "past m k \<longleftrightarrow> m \<le> be_value (fst (hd k)) \<and> (\<forall>c\<in>awaited k. m < be_value c)"

lemma inc_value: "be_value (inc_byte_array c) = (be_value c + 1) mod 256 ^ length c"
  using inc_byte_array_loop_correct [of "length c" c] by (auto simp: inc_byte_array_def)

lemma awaited_next: "window_typed k \<Longrightarrow> awaited (key_replay_next k) \<subseteq> insert (inc_byte_array (fst (hd k))) (awaited k)"
proof -
  have "set (takeWhile P (butlast k)) \<subseteq> set (takeWhile P k)" for P
    by (induction k) (auto dest: set_takeWhileD)
  then show ?thesis by (auto simp: awaited_def key_replay_next_def)
qed

lemma window_next:
  assumes "window_typed k" "window_ok n k" "Suc n < 2 ^ 64"
  shows "window_typed (key_replay_next k)" "window_ok (Suc n) (key_replay_next k)" "past m k \<Longrightarrow> past m (key_replay_next k)"
proof -
  have ne: "k \<noteq> []" using assms(1) by (auto simp: window_typed_def)
  then have l: "length (fst (hd k)) = 8" using assms(1) by (simp add: window_typed_def)
  have v: "be_value (inc_byte_array (fst (hd k))) = be_value (fst (hd k)) + 1"
    using assms(2,3) l by (simp add: inc_value window_ok_def)
  have h: "fst (hd (key_replay_next k)) = inc_byte_array (fst (hd k))" by (simp add: key_replay_next_def)
  have a: "c \<in> awaited (key_replay_next k) \<Longrightarrow> c = inc_byte_array (fst (hd k)) \<or> c \<in> awaited k" for c using awaited_next [OF assms(1)] by blast
  show "window_typed (key_replay_next k)"
    using assms(1) l ne by (auto simp: window_typed_def key_replay_next_def dest: in_set_butlastD)
  show "window_ok (Suc n) (key_replay_next k)"
    using assms(2) v a unfolding window_ok_def h by fastforce
  show "past m k \<Longrightarrow> past m (key_replay_next k)"
    using v a unfolding past_def h by fastforce
qed

lemma typed_next: "window_typed k \<Longrightarrow> window_typed (key_replay_next k)"
  by (cases k) (auto simp: window_typed_def key_replay_next_def dest: in_set_butlastD)

text \<open>An answer is taken up: no counter is awaited until the next frame is sent.\<close>

lemma window_used:
  assumes "window_typed k"
  shows "awaited (k[0 := (fst (k ! 0), False)]) = {}" "window_typed (k[0 := (fst (k ! 0), False)])" "fst (hd (k[0 := (fst (k ! 0), False)])) = fst (hd k)"
  using assms by (cases k; auto simp: awaited_def window_typed_def)+

definition fresh_window :: "(bytes \<times> bool) list" where
  "fresh_window = replicate RSNA_MAX_EAPOL_RETRIES (replicate WPA_REPLAY_COUNTER_LEN 0, False)"

lemma be_value_zeros [simp]: "be_value (replicate n 0) = 0"
  by (induction n) simp_all

lemma window_fresh: "window_typed fresh_window" "window_ok n fresh_window"
  by (simp_all add: fresh_window_def window_typed_def window_ok_def awaited_def)

section \<open>The invariant\<close>

text \<open>Every counter that is used is one of the calls, so that the counters do not wrap in a run of less than \<open>2\<^sup>6\<^sup>4\<close> calls.  The
  optional argument names a station and the counter of an answer that was taken up from it.\<close>

definition replay_inv :: "(nat \<times> nat) option \<Rightarrow> wpa_authenticator \<Rightarrow> bool" where
  "replay_inv a wa \<longleftrightarrow> (\<forall>i m. a = Some (i, m) \<longrightarrow> i < length (wa_stas wa)) \<and>
     (\<forall>i. has_sta wa i \<longrightarrow> window_typed (key_replay (sta wa i))) \<and>
     (length (wa_calls wa) < 2 ^ 64 \<longrightarrow> (\<forall>i. has_sta wa i \<longrightarrow> window_ok (length (wa_calls wa)) (key_replay (sta wa i)) \<and>
        (\<forall>m. a = Some (i, m) \<longrightarrow> past m (key_replay (sta wa i)))))"

lemma replay_inv_cong:
  assumes "length (wa_stas wa') = length (wa_stas wa)" "length (wa_calls wa') = length (wa_calls wa)" "\<And>j. has_sta wa' j = has_sta wa j"
    "\<And>j. has_sta wa j \<Longrightarrow> key_replay (sta wa' j) = key_replay (sta wa j)"
  shows "replay_inv a wa' = replay_inv a wa"
  unfolding replay_inv_def assms(1-3) using assms(4) by simp

lemma key_replay_upd:
  assumes "\<And>sm. key_replay (f sm) = key_replay sm" "has_sta wa j"
  shows "key_replay (sta (upd_sta i f wa) j) = key_replay (sta wa j)"
  using assms by (cases "j = i") simp_all

lemma replay_inv_simps [simp]:
  "(\<And>sm. key_replay (f sm) = key_replay sm) \<Longrightarrow> replay_inv a (upd_sta i f wa) = replay_inv a wa"
  "replay_inv a (upd_grp v g wa) = replay_inv a wa"
  "replay_inv a (wa\<lparr>dot11RSNA4WayHandshakeFailures := n\<rparr>) = replay_inv a wa"
  by (rule replay_inv_cong; simp add: key_replay_upd)+

lemma window_ok_mono: "window_ok n k \<Longrightarrow> n \<le> m \<Longrightarrow> window_ok m k"
  by (simp add: window_ok_def)

lemma replay_log: "replay_inv a wa \<Longrightarrow> replay_inv a (log_w c wa)"
  unfolding replay_inv_def using window_ok_mono [of "length (wa_calls wa)" _ "Suc (length (wa_calls wa))"]
  by (auto simp: log_w_def has_sta_def sta_def)

text \<open>A counter is used, in a call that has an allocation before it.\<close>

lemma replay_tick:
  assumes "replay_inv a wa"
  shows "replay_inv a (upd_sta i (\<lambda>sm. sm\<lparr>key_replay := key_replay_next (key_replay sm)\<rparr>) (log_w c wa))"
proof -
  let ?f = "\<lambda>sm. sm\<lparr>key_replay := key_replay_next (key_replay sm)\<rparr>"
  let ?w = "upd_sta i ?f (log_w c wa)"
  have l: "length (wa_calls ?w) = Suc (length (wa_calls wa))" "length (wa_stas ?w) = length (wa_stas wa)" by (simp_all add: upd_sta_def log_w_def)
  have k: "window_typed (key_replay (sta wa j))"
    "Suc (length (wa_calls wa)) < 2 ^ 64 \<Longrightarrow> window_ok (length (wa_calls wa)) (key_replay (sta wa j)) \<and> (\<forall>m. a = Some (j, m) \<longrightarrow> past m (key_replay (sta wa j)))"
    if "has_sta wa j" for j using assms that by (auto simp: replay_inv_def)
  have "window_typed (key_replay (sta ?w j)) \<and> (Suc (length (wa_calls wa)) < 2 ^ 64 \<longrightarrow>
      window_ok (Suc (length (wa_calls wa))) (key_replay (sta ?w j)) \<and> (\<forall>m. a = Some (j, m) \<longrightarrow> past m (key_replay (sta ?w j))))"
    if "has_sta wa j" for j
    using k [OF that] that window_next [OF k(1) [OF that]] typed_next [OF k(1) [OF that]]
      window_ok_mono [of "length (wa_calls wa)" "key_replay (sta wa j)" "Suc (length (wa_calls wa))"]
    by (cases "j = i") auto
  then show ?thesis using assms unfolding replay_inv_def l by simp
qed

lemma replay_callbacks:
  "replay_inv a wa \<Longrightarrow> replay_inv a (snd (wpa_alloc E wa))" "replay_inv a wa \<Longrightarrow> replay_inv a (wpa_auth_set_eapol ad v b wa)"
  "replay_inv a wa \<Longrightarrow> replay_inv a (wpa_sta_disconnect ad wa)" "replay_inv a wa \<Longrightarrow> replay_inv a (snd (wpa_auth_set_key E vl alg addr idx key wa))"
  by (simp_all add: wpa_alloc_def wpa_auth_set_eapol_def wpa_auth_set_key_def wpa_sta_disconnect_def replay_log)

lemma replay_key_data: "replay_inv a wa \<Longrightarrow> replay_inv a (snd (eapol_key_data E i version kde encr wa))"
  unfolding eapol_key_data_def Let_def case_prod_beta
  by (cases kde; cases encr) (simp_all add: replay_callbacks split: option.split)

lemma replay_send_frame:
  assumes "replay_inv a wa"
  shows "replay_inv a (wpa_send_eapol_frame E i ki rsc nonce kde idx encr ver wa)"
proof -
  define w where "w = upd_sta i (\<lambda>sm. sm\<lparr>key_replay := key_replay_next (key_replay sm)\<rparr>) (log_w W_malloc wa)"
  have w: "replay_inv a w" "replay_inv a (log_w W_malloc wa)" using replay_tick [OF assms] replay_log [OF assms] by (simp_all add: w_def)
  show ?thesis
    unfolding wpa_send_eapol_frame_def Let_def case_prod_beta wpa_alloc_def fst_conv snd_conv w_def [symmetric]
    using w by (simp add: if_distrib [where f = "replay_inv a"] option.case_distrib [where h = "replay_inv a"] replay_log replay_callbacks
      replay_key_data case_prod_beta split del: if_split cong: if_cong option.case_cong)
qed

lemma replay_send: "replay_inv a wa \<Longrightarrow> replay_inv a (wpa_send_eapol E i ki rsc nonce kde idx encr wa)"
  by (simp add: wpa_send_eapol_def Let_def replay_log replay_send_frame)

lemmas replay_intros = replay_log replay_callbacks replay_send

lemma replay_enter:
  assumes "replay_inv a wa"
  shows "replay_inv a (sm_WPA_PTK_INITIALIZE_Enter E i wa)" "replay_inv a (sm_WPA_PTK_DISCONNECT_Enter i wa)"
    "replay_inv a (sm_WPA_PTK_DISCONNECTED_Enter i wa)" "replay_inv a (sm_WPA_PTK_AUTHENTICATION_Enter i wa)"
    "replay_inv a (sm_WPA_PTK_AUTHENTICATION2_Enter i wa)" "replay_inv a (sm_WPA_PTK_INITPMK_Enter E i wa)"
    "replay_inv a (sm_WPA_PTK_INITPSK_Enter E i wa)" "replay_inv a (sm_WPA_PTK_PTKSTART_Enter E i wa)"
    "replay_inv a (sm_WPA_PTK_PTKCALCNEGOTIATING_Enter E i wa)" "replay_inv a (sm_WPA_PTK_PTKCALCNEGOTIATING2_Enter i wa)"
    "replay_inv a (sm_WPA_PTK_PTKINITNEGOTIATING_Enter E i wa)" "replay_inv a (handshake_failure i wa)"
  using assms
  by (simp_all add: ptk_enter_defs enter_helper_defs Let_def case_prod_beta replay_intros split: option.split)

lemma replay_done: "replay_inv a wa \<Longrightarrow> replay_inv a (sm_WPA_PTK_PTKINITDONE_Enter E i wa)"
  by (simp add: sm_WPA_PTK_PTKINITDONE_Enter_def enter_ptk_def Let_def case_prod_beta replay_intros)

lemma replay_group_enter:
  assumes "replay_inv a wa"
  shows "replay_inv a (sm_WPA_PTK_GROUP_IDLE_Enter i wa)" "replay_inv a (sm_WPA_PTK_GROUP_REKEYNEGOTIATING_Enter E i wa)"
    "replay_inv a (sm_WPA_PTK_GROUP_REKEYESTABLISHED_Enter i wa)" "replay_inv a (sm_WPA_PTK_GROUP_KEYERROR_Enter i wa)"
  using assms by (simp_all add: ptk_group_enter_defs enter_helper_defs Let_def case_prod_beta replay_intros)

lemma replay_ptk_step: "replay_inv a wa \<Longrightarrow> replay_inv a (sm_WPA_PTK_Step E i wa)"
  by (cases "wpa_ptk_state (sta wa i)") (simp_all add: sm_WPA_PTK_Step_def Let_def replay_enter replay_done)

lemma replay_group_step: "replay_inv a wa \<Longrightarrow> replay_inv a (sm_WPA_PTK_GROUP_Step E i wa)"
  by (cases "wpa_ptk_group_state (sta wa i)") (simp_all add: sm_WPA_PTK_GROUP_Step_def Let_def replay_group_enter)

lemma replay_pass: "replay_inv a wa \<Longrightarrow> replay_inv a (snd (wpa_sm_pass E i wa))"
  by (simp add: wpa_sm_pass_def Let_def replay_ptk_step replay_group_step)

interpretation replay: wpa_invariant E "{}" "\<lambda>_. True" "replay_inv a" for E a
  by unfold_locales (simp_all add: replay_pass wpa_group_gtk_init_def wpa_group_setkeysdone_def setkeys_move_def mark_move_def Let_def
    replay_intros case_prod_beta)

section \<open>Inputs\<close>

lemma replay_step:
  assumes "replay_inv a wa" "wpa_ok wa" "has_sta wa i" "map_option snd (wpa_sm_step E i wa) = Some wa'"
  shows "replay_inv a wa'"
  using assms replay.step_inv [OF assms(1) _ assms(3)] by (auto simp: wpa_ok_def)

lemma replay_upd_step:
  assumes "replay_inv a wa" "wpa_ok wa" "has_sta wa i" "\<And>sm. key_replay (f sm) = key_replay sm" "wpa_ok (upd_sta i f wa)"
    "map_option snd (wpa_sm_step E i (upd_sta i f wa)) = Some wa'"
  shows "replay_inv a wa'"
  by (rule replay_step [OF _ assms(5) _ assms(6)]) (use assms(1,3,4) in simp_all)

lemma replay_init_step:
  assumes "replay_inv a wa" "wpa_ok wa" "has_sta wa i" "wpa_sm_init_step E i wa = Some (r, wa')"
  shows "replay_inv a wa'"
proof -
  let ?w = "upd_sta i (\<lambda>sm. sm\<lparr>w_started := True, Init := True\<rparr>) wa"
  have o: "wpa_ok ?w" by (rule ok_plain [OF assms(2,3)]) (simp add: sta_ok_def)
  obtain w' where st: "wpa_sm_step E i ?w = Some (0, w')" using ok_step [OF o, of i E] assms(3) by auto
  then have "replay_inv a w'" using replay_upd_step [OF assms(1-3) _ o, of E w'] by simp
  then show ?thesis using assms(4) st by (auto simp: wpa_sm_init_step_def)
qed

lemma replay_associated:
  assumes "replay_inv a wa" "wpa_ok wa" "has_sta wa i" "\<And>m. a \<noteq> Some (i, m)" "map_option snd (wpa_auth_sta_associated E i wa) = Some wa'"
  shows "replay_inv a wa'"
proof -
  let ?w = "upd_sta i (\<lambda>sm. sm\<lparr>key_replay := fresh_window, ReAuthenticationRequest := True\<rparr>) wa"
  have o: "wpa_ok ?w" by (rule ok_plain [OF assms(2,3)]) (simp add: sta_ok_def)
  have "key_replay (sta ?w j) = (if j = i then fresh_window else key_replay (sta wa j))" for j using assms(3) by simp
  then have w: "replay_inv a ?w" using assms(1,4) window_fresh by (auto simp: replay_inv_def)
  obtain w0 where i: "wpa_sm_init_step E i wa = Some (0, w0)" "wpa_ok w0" "has_sta w0 i" using init_step_returns [OF assms(2,3)] by blast
  show ?thesis
    using assms(1,3,5) replay_step [OF w o, of i E wa'] replay_step [OF replay_init_step [OF assms(1-3) i(1)] i(2,3), of E wa'] i(1)
    by (auto simp: wpa_auth_sta_associated_def fresh_window_def split: if_splits)
qed

lemma replay_event:
  assumes "replay_inv a wa" "wpa_ok wa" "has_sta wa i" "map_option snd (wpa_auth_sm_event E ev i wa) = Some wa'"
  shows "replay_inv a wa'"
proof -
  obtain w where w: "event_request E ev i wa = Some (0, w)" "wpa_ok w" "has_sta w i" using event_request_ok [OF assms(2,3)] by blast
  have "replay_inv a w"
    using w(1) assms(1) replay_init_step [OF assms(1-3)] by (cases ev) (auto simp: event_request_def drop_group_update_def Let_def split: if_splits)
  then have "replay_inv a (event_clear E ev i w)"
    by (simp add: event_clear_def wpa_remove_ptk_def Let_def case_prod_beta replay_intros)
  then show ?thesis
    using replay_step [OF _ event_clear_ok [OF w(2,3)], of a E ev E wa'] assms(4) w(1) by (simp add: event_split)
qed

lemma replay_store:
  assumes "replay_inv a wa" "wpa_ok wa" "has_sta wa i" "eapol_key_store E i data wa = Some wa'"
  shows "replay_inv a wa'"
proof -
  let ?f = "\<lambda>sm. sm\<lparr>last_rx_eapol_key := Some data, EAPOLKeyReceived := True,
    EAPOLKeyPairwise := has_flag (key_info_of data) WPA_KEY_INFO_KEY_TYPE, EAPOLKeyRequest := has_flag (key_info_of data) WPA_KEY_INFO_REQUEST,
    SNonce := take WPA_NONCE_LEN (drop 17 data)\<rparr>"
  have w: "replay_inv a (log_w W_malloc wa)" "wpa_ok (log_w W_malloc wa)" "has_sta (log_w W_malloc wa) i" using assms(1-3) by (simp_all add: replay_log)
  have o: "wpa_ok (upd_sta i ?f (log_w W_malloc wa))" by (rule ok_plain [OF w(2,3)]) (simp add: sta_ok_def)
  show ?thesis using assms(4) replay_upd_step [OF w _ o, of E wa'] w(1) by (auto simp: eapol_key_store_def wpa_alloc_def Let_def split: if_splits)
qed

lemma replay_request:
  assumes "replay_inv a wa" "wpa_ok wa" "has_sta wa i" "eapol_key_request E i data wa = Some wa'"
  shows "replay_inv a wa'"
proof -
  let ?w = "upd_sta i (\<lambda>sm. sm\<lparr>req_replay_counter_used := True, req_replay_counter := replay_counter_of data\<rparr>) wa"
  have w: "replay_inv a ?w" "wpa_ok ?w" using assms(1) ok_plain [OF assms(2,3)] by (simp_all add: sta_ok_def)
  have s: "replay_inv a (w\<lparr>wa_StatsTKIPRemoteMICFailures := n\<rparr>) = replay_inv a w" for n w by (rule replay_inv_cong) (simp_all add: has_sta_def sta_def)
  have r: "wpa_rekey_gtk E (log_w (W_cancel_timeout T_rekey_gtk) ?w) = Some wa' \<Longrightarrow> replay_inv a wa'"
    using replay.rekey_gtk_inv [of a "log_w (W_cancel_timeout T_rekey_gtk) ?w" E wa'] w by (simp add: wpa_ok_def replay_log)
  show ?thesis
    using assms(4) r w(1) assms(1) unfolding eapol_key_request_def Let_def wpa_request_new_ptk_def
    by (auto simp: replay_log s split: if_splits option.splits)
qed

text \<open>A frame that is not a request gets to the state machines.\<close>

definition taken :: "wpa_authenticator \<Rightarrow> nat \<Rightarrow> bytes \<Rightarrow> bool" where
  "taken wa i data \<longleftrightarrow> has_sta wa i \<and> eapol_key_accepted wa (sta wa i) data \<and> eapol_key_msg_check (sta wa i) data = Some Msg_ok \<and>
     \<not> has_flag (key_info_of data) WPA_KEY_INFO_ACK \<and> has_flag (key_info_of data) WPA_KEY_INFO_MIC \<and>
     \<not> has_flag (key_info_of data) WPA_KEY_INFO_REQUEST \<and> (PTK_valid (sta wa i) \<longrightarrow> wpa_verify_key_mic (PTK (sta wa i)) data)"

lemma taken_awaited:
  assumes "taken wa i data" "replay_inv a wa"
  shows "replay_counter_of data \<in> awaited (key_replay (sta wa i))"
proof -
  have "window_typed (key_replay (sta wa i))" using assms by (auto simp: taken_def replay_inv_def)
  then have "take 4 (key_replay (sta wa i)) = key_replay (sta wa i)" by (simp add: window_typed_def)
  moreover have "wpa_replay_counter_valid (sta wa i) (replay_counter_of data)" using assms(1) by (simp add: taken_def eapol_key_accepted_def)
  ultimately show ?thesis by (simp add: wpa_replay_counter_valid_def awaited_def)
qed

lemma replay_receive_taken:
  assumes "replay_inv a wa" "wpa_ok wa" "taken wa i data" "wpa_receive E i data wa = Some wa'"
    and b: "b = a \<or> b = Some (i, be_value (replay_counter_of data))"
  shows "replay_inv b wa'"
proof -
  let ?v = "\<lambda>b. upd_sta i (\<lambda>sm. sm\<lparr>MICVerified := b\<rparr>)"
  define w where "w = (if PTK_valid (sta wa i) then log_w (W_cancel_timeout (T_send_eapol i)) (?v True (?v False wa)) else ?v False wa)"
  let ?k = "upd_sta i (\<lambda>sm. sm\<lparr>key_replay := (key_replay sm)[0 := (fst (key_replay sm ! 0), False)]\<rparr>) w"
  have i: "has_sta wa i" using assms(3) by (simp add: taken_def)
  have w: "replay_inv a w" "has_sta w j = has_sta wa j" "key_replay (sta w i) = key_replay (sta wa i)" for j
    using assms(1) i by (simp_all add: w_def replay_log)
  have mv: "wpa_ok x \<Longrightarrow> has_sta x i \<Longrightarrow> wpa_ok (?v c x)" for c x by (rule ok_plain) (simp_all add: sta_ok_def)
  have "wpa_ok w" using assms(2) i mv by (simp add: w_def)
  then have o: "wpa_ok ?k" by (rule ok_plain) (use w(2) i in \<open>simp_all add: sta_ok_def\<close>)
  let ?c = "be_value (replay_counter_of data)"
  have t: "window_typed (key_replay (sta w i))" using w(1,2) i by (simp add: replay_inv_def)
  note u = window_used [OF t]
  have c: "window_ok n (key_replay (sta w i)) \<Longrightarrow> ?c \<le> be_value (fst (hd (key_replay (sta w i))))" for n
    using taken_awaited [OF assms(3,1)] w(3) by (auto simp: window_ok_def)
  have "replay_inv b ?k"
  proof -
    have "window_typed (key_replay (sta ?k j)) \<and> (length (wa_calls w) < 2 ^ 64 \<longrightarrow> window_ok (length (wa_calls w)) (key_replay (sta ?k j)) \<and>
        (\<forall>m. b = Some (j, m) \<longrightarrow> past m (key_replay (sta ?k j))))" if "has_sta w j" for j
    proof (cases "j = i")
      case True
      then show ?thesis using w(1) u c that b unfolding replay_inv_def by (auto simp: window_ok_def past_def)
    next
      case False
      then show ?thesis using w(1) that b unfolding replay_inv_def by auto
    qed
    moreover have "i < length (wa_stas w)" using w(2) [of i] i by (simp add: has_sta_def)
    ultimately show ?thesis using w(1) b unfolding replay_inv_def by auto
  qed
  moreover have "wpa_receive E i data wa = eapol_key_store E i data ?k"
    using assms(3) unfolding taken_def wpa_receive_def Let_def w_def by auto
  ultimately show ?thesis using replay_store [OF _ o, of b i E data wa'] w(2) i assms(4) by simp
qed

lemma replay_receive:
  assumes "replay_inv a wa" "wpa_ok wa" "has_sta wa i" "wpa_receive E i data wa = Some wa'"
  shows "replay_inv a wa'"
proof (cases "taken wa i data")
  case True
  then show ?thesis using replay_receive_taken [OF assms(1,2) _ assms(4)] by blast
next
  case False
  let ?n = "upd_sta i (\<lambda>sm. sm\<lparr>MICVerified := False\<rparr>) wa"
  let ?m = "log_w (W_cancel_timeout (T_send_eapol i)) (upd_sta i (\<lambda>sm. sm\<lparr>MICVerified := True\<rparr>) ?n)"
  have mv: "wpa_ok x \<Longrightarrow> has_sta x i \<Longrightarrow> wpa_ok (upd_sta i (\<lambda>sm. sm\<lparr>MICVerified := c\<rparr>) x)" for c x by (rule ok_plain) (simp_all add: sta_ok_def)
  have m: "replay_inv a ?m" "wpa_ok ?m" "has_sta ?m i" using assms(1-3) mv by (simp_all add: replay_log)
  have rq: "eapol_key_request E i data ?m = Some w \<Longrightarrow> eapol_key_store E i data w = Some wa' \<Longrightarrow> replay_inv a wa'" for w
    using replay_request [OF m, of E data w] request_returns [OF m(2,3), of E data] replay_store [of a w i E data wa'] by auto
  show ?thesis using assms(1,3,4) False rq
    unfolding wpa_receive_def Let_def taken_def
    by (auto simp: wpa_sta_disconnect_def replay_log split: if_splits option.splits wpa_verdict.splits)
qed

lemma replay_restart:
  assumes "replay_inv a wa" "wpa_ok wa" "v \<in> set (vlans wa)" "wpa_group_restart E v wa = Some wa'"
  shows "replay_inv a wa'"
  by (rule replay.restart_inv [OF assms(1) _ assms(3,4)]) (use assms(2) in \<open>simp_all add: wpa_ok_def\<close>)

lemma replay_groups: "replay_inv a (wa\<lparr>wa_group := gs\<rparr>) = replay_inv a wa"
  by (rule replay_inv_cong) (simp_all add: has_sta_def sta_def)

lemma replay_set_vlan:
  assumes "replay_inv a wa" "wpa_ok wa" "has_sta wa i" "map_option snd (wpa_auth_sta_set_vlan E seed now ptr i v wa) = Some wa'"
  shows "replay_inv a wa'"
proof -
  let ?gs = "\<lambda>g. case wa_group wa of [] \<Rightarrow> [g] | h # gs \<Rightarrow> h # g # gs"
  have r: "replay_inv a w'"
    if "wpa_group_restart E v (log_w W_malloc wa\<lparr>wa_group := ?gs g\<rparr>) = Some w'" "vlan_id g = v" "v \<notin> set (vlans wa)" for g w'
  proof (rule replay_restart [OF _ _ _ that(1)])
    have "wpa_ok (log_w W_malloc wa)" "vlan_id g \<notin> set (vlans (log_w W_malloc wa))" using assms(2) that(2,3) by simp_all
    from ok_add_group [OF this] show "wpa_ok (log_w W_malloc wa\<lparr>wa_group := ?gs g\<rparr>)" by simp
    have "wa_group (log_w W_malloc wa) \<noteq> []" using assms(2) by (simp add: wpa_ok_def wpa_wf_def)
    from vlans_append [OF this, of g] show "v \<in> set (vlans (log_w W_malloc wa\<lparr>wa_group := ?gs g\<rparr>))"
      using that(2) by simp
    show "replay_inv a (log_w W_malloc wa\<lparr>wa_group := ?gs g\<rparr>)" using replay_log [OF assms(1)] by (simp add: replay_groups)
  qed
  have "find_group v (wa_group wa) = None \<Longrightarrow> v \<notin> set (vlans wa)" using find_group_some [of v "wa_group wa"] by (auto simp: vlans_def)
  then show ?thesis using assms(1,4) r
    by (auto simp: wpa_auth_sta_set_vlan_def wpa_auth_add_group_def wpa_group_init_def wpa_alloc_def Let_def replay_log split: option.splits if_splits)
qed

lemma replay_drop:
  assumes "replay_inv a wa" "length (wa_stas wa') = length (wa_stas wa)" "wa_calls wa' = wa_calls wa"
    "\<And>j. has_sta wa' j \<Longrightarrow> has_sta wa j \<and> key_replay (sta wa' j) = key_replay (sta wa j)"
  shows "replay_inv a wa'"
  using assms unfolding replay_inv_def by auto

lemma replay_deinit:
  assumes "replay_inv a wa" "wpa_ok wa" "has_sta wa i"
  shows "replay_inv a (wpa_auth_sta_deinit i wa)"
proof -
  have "replay_inv a (wpa_free_sta_sm i w)" if "replay_inv a w" for w
  proof (rule replay_drop [OF that])
    fix j assume j: "has_sta (wpa_free_sta_sm i w) j"
    then show "has_sta w j \<and> key_replay (sta (wpa_free_sta_sm i w) j) = key_replay (sta w j)"
      by (cases "j = i") (auto simp: has_sta_def sta_def wpa_free_sta_sm_def)
  qed (simp_all add: wpa_free_sta_sm_def)
  moreover have "\<not> in_step_loop (sta wa i)" using assms by (simp add: wpa_ok_def)
  ultimately show ?thesis using assms(1) by (simp add: wpa_auth_sta_deinit_def Let_def replay_log)
qed

lemma replay_sta_init:
  assumes "replay_inv a wa"
  shows "replay_inv a (snd (wpa_auth_sta_init E addr wa))"
proof -
  define w where "w = log_w W_malloc wa"
  define sm where "sm = wpa_sm_zero\<lparr>w_addr := addr, w_group := head_group w\<rparr>"
  let ?w = "w\<lparr>wa_stas := wa_stas w @ [Some sm]\<rparr>"
  have w: "replay_inv a w" using assms by (simp add: w_def replay_log)
  have z: "key_replay sm = fresh_window" by (simp add: sm_def wpa_sm_zero_def fresh_window_def)
  have s: "has_sta ?w j \<longleftrightarrow> has_sta w j \<or> j = length (wa_stas w)" "has_sta w j \<Longrightarrow> sta ?w j = sta w j" "sta ?w (length (wa_stas w)) = sm" for j
    by (auto simp: has_sta_def sta_def nth_append less_Suc_eq)
  have n: "has_sta w j \<Longrightarrow> j < length (wa_stas w)" for j by (simp add: has_sta_def)
  have "replay_inv a ?w"
    using w n window_fresh unfolding replay_inv_def s(1) by (auto simp: s(2,3) z)
  then show ?thesis using w by (simp add: wpa_auth_sta_init_def wpa_alloc_def Let_def w_def sm_def)
qed

lemma replay_pmksa_update: "replay_inv a wa \<Longrightarrow> replay_inv a (pmksa_update c wa)"
proof (erule replay_drop)
  show "length (wa_stas (pmksa_update c wa)) = length (wa_stas wa)"
    using free_cbs [of "filter (\<lambda>a. a \<notin> set (pmksa_list c)) (pmksa_list (wa_pmksa wa))" "wa\<lparr>wa_pmksa := c\<rparr>"] by (simp add: pmksa_update_def)
  fix j assume "has_sta (pmksa_update c wa) j"
  then have h: "has_sta wa j" by (simp add: update_sta)
  then obtain p where "sta (pmksa_update c wa) j = (sta wa j)\<lparr>w_pmksa := p\<rparr>" using update_sta(8) by blast
  then show "has_sta wa j \<and> key_replay (sta (pmksa_update c wa) j) = key_replay (sta wa j)" using h by simp
qed (simp add: update_sta)

lemma replay_validate:
  assumes "replay_inv a wa" "wpa_ok wa" "has_sta wa i" "validate_sta i m ie wa = Some wa'"
  shows "replay_inv a wa'"
proof -
  obtain w sm where v: "wa' = upd_sta i (\<lambda>_. sm) w" "validated wa (sta wa i) w sm"
    using validate_sta_ok [OF assms(2,3), of m ie] assms(4) by auto
  have "key_replay (unnegotiated s) = key_replay s" for s by (simp add: unnegotiated_def)
  then have k: "key_replay sm = key_replay (sta wa i)" using v(2) unfolding validated_def by metis
  have w: "wa_stas w = wa_stas wa" "wa_calls w = wa_calls wa" using v(2) by (simp_all add: validated_def)
  show ?thesis
  proof (rule replay_drop [OF assms(1)])
    fix j assume "has_sta wa' j"
    then show "has_sta wa j \<and> key_replay (sta wa' j) = key_replay (sta wa j)"
      using k w assms(3) by (cases "j = i") (auto simp: v(1) has_sta_def sta_def upd_sta_def)
  qed (simp_all add: v(1) w upd_sta_def)
qed

lemma replay_timer:
  assumes "replay_inv a wa" "wpa_ok wa" "wpa_timer E random t wa = Some wa'"
  shows "replay_inv a wa'"
proof -
  have o: "wpa_ok (upd_sta i (\<lambda>sm. sm\<lparr>PTKRequest := True, PTK_valid := False\<rparr>) wa)" "wpa_ok (upd_sta i (\<lambda>sm. sm\<lparr>TimeoutEvt := True\<rparr>) wa)"
    if "has_sta wa i" for i by (rule ok_plain [OF assms(2) that]; simp add: sta_ok_def)+
  show ?thesis
  proof (cases t)
    case T_rekey_gmk
    then show ?thesis using assms(1,3) by (auto simp: wpa_timer_def wpa_rekey_gmk_def Let_def replay_log replay_groups split: option.splits if_splits)
  next
    case T_rekey_gtk
    then show ?thesis using assms replay.rekey_gtk_inv by (auto simp: wpa_timer_def wpa_ok_def)
  next
    case (T_rekey_ptk i)
    then show ?thesis using assms replay_upd_step [OF assms(1,2) _ _ o(1), of i E wa']
      by (auto simp: wpa_timer_def wpa_rekey_ptk_def wpa_request_new_ptk_def split: if_splits)
  next
    case (T_send_eapol i)
    then show ?thesis using assms replay_upd_step [OF assms(1,2) _ _ o(2), of i E wa']
      by (auto simp: wpa_timer_def wpa_send_eapol_timeout_def split: if_splits)
  next
    case (T_call_step i)
    then show ?thesis using replay_step [OF assms(1,2), of i E wa'] assms(1,3) by (auto simp: wpa_timer_def wpa_sm_call_step_def split: if_splits)
  qed
qed

lemma replay_do:
  assumes "replay_inv a wa" "wpa_ok wa" "\<And>i m. a = Some (i, m) \<Longrightarrow> inp \<noteq> In_associated i" "wpa_do E inp wa = Some wa'"
  shows "replay_inv a wa'"
proof (cases inp)
  case (In_associated i)
  then show ?thesis using assms replay_associated [OF assms(1,2), of i E wa'] by (auto simp: wpa_do_def split: if_splits)
next
  case (In_countermeasures)
  have "replay_inv a (wa\<lparr>dot11RSNATKIPCounterMeasuresInvoked := n\<rparr>)" for n
    by (rule replay_drop [OF assms(1)]) (simp_all add: has_sta_def sta_def)
  then show ?thesis using assms(4) In_countermeasures by (auto simp: wpa_do_def wpa_auth_countermeasures_start_def)
next
  case (In_event ev i)
  then show ?thesis using assms replay_event [OF assms(1,2), of i E ev wa'] by (auto simp: wpa_do_def split: if_splits)
next
  case (In_receive i data)
  then show ?thesis using assms replay_receive [OF assms(1,2), of i E data wa'] by (auto simp: wpa_do_def split: if_splits)
next
  case (In_validate i m ie)
  then show ?thesis using assms replay_validate [OF assms(1,2), of i m ie wa'] by (auto simp: wpa_do_def split: if_splits)
next
  case (In_set_vlan seed now ptr i v)
  then show ?thesis using assms replay_set_vlan [OF assms(1,2), of i E seed now ptr v wa'] by (auto simp: wpa_do_def split: if_splits)
next
  case (In_timeout random t)
  then show ?thesis using assms replay_timer [OF assms(1,2), of E random t wa'] by (auto simp: wpa_do_def split: if_splits)
qed (use assms(1,2,4) in \<open>auto simp: wpa_do_def Let_def replay_sta_init replay_deinit wpa_auth_sm_notify_def wpa_gtk_rekey_def wpa_auth_sta_no_wpa_def
    wpa_auth_sta_local_mic_failure_report_def wpa_auth_sta_clear_pmksa_def wpa_auth_pmksa_add_def wpa_auth_pmksa_add_preauth_def
    replay_pmksa_update replay_log split: if_splits option.splits\<close>)

lemma replay_run:
  "replay_inv a wa \<Longrightarrow> wpa_ok wa \<Longrightarrow> (\<And>i m. a = Some (i, m) \<Longrightarrow> In_associated i \<notin> set ins) \<Longrightarrow> wpa_run E ins wa = Some wa' \<Longrightarrow> replay_inv a wa'"
proof (induction ins arbitrary: wa)
  case (Cons inp ins)
  obtain w where w: "wpa_do E inp wa = Some w" "wpa_run E ins w = Some wa'" using Cons.prems(4) by (auto split: option.splits)
  have "replay_inv a w" by (rule replay_do [OF Cons.prems(1,2) _ w(1)]) (use Cons.prems(3) in auto)
  then show ?case using Cons.IH [of w] wpa_do_returns [OF Cons.prems(2), of E inp] Cons.prems(3) w by simp
qed simp

lemma replay_init:
  assumes "wpa_init E seed now ptr addr conf = Some (Some wa)" "\<not> wc_okc conf"
  shows "replay_inv None wa"
proof -
  have ini: "replay_inv None w" if "wa_stas w = []" for w using that by (simp add: replay_inv_def has_sta_def)
  have r: "replay_inv None w'" if "wpa_group_restart E 0 w = Some w'" "wa_stas w = []" "wa_group w = [g]" "vlan_id g = 0" for w w' g
  proof -
    have "wpa_wf w" "0 \<in> set (vlans w)" using that(2-4) by (simp_all add: wpa_wf_def has_sta_def vlans_def)
    then show ?thesis using replay.restart_inv [OF ini [OF that(2)] _ _ that(1)] by simp
  qed
  have g: "replay_inv None w" if "wpa_group_init E seed now ptr 0 x = Some (True, w)" "wa_stas x = []" "wa_group x = []" for x w
    using that by (auto simp: wpa_group_init_def wpa_alloc_def Let_def log_w_def split: option.splits if_splits elim!: r)
  show ?thesis
    using assms(1) g by (auto simp: wpa_init_def wpa_alloc_def Let_def wpa_auth_zero_def replay_log split: if_splits option.splits bool.splits)
qed

text \<open>C5.  Replay protection.  In every state that a run of the authenticator reaches, each station has a window of four counters of eight octets
  in which no awaited counter is above the last one that was sent.  From such a state, when the authenticator takes up two answers of a
  station between two associations, the second one carries a greater replay counter than the first: no answer is taken up twice,
  whatever other inputs of this and other stations lie between.  (A counter has eight octets; the second alternative covers runs of
  \<open>2\<^sup>6\<^sup>4\<close> calls.)\<close>

theorem answers_taken_once:
  assumes "\<not> wc_okc conf"
  shows "(\<forall>seed now ptr own ins wa0 wa. wpa_init E seed now ptr own conf = Some (Some wa0) \<longrightarrow> wpa_run E ins wa0 = Some wa \<longrightarrow>
      replay_inv None wa) \<and>
    (\<forall>wa i d1 ins wa' d2. replay_inv None wa \<longrightarrow> wpa_ok wa \<longrightarrow> taken wa i d1 \<longrightarrow> wpa_run E (In_receive i d1 # ins) wa = Some wa' \<longrightarrow>
      In_associated i \<notin> set ins \<longrightarrow> taken wa' i d2 \<longrightarrow>
      be_value (replay_counter_of d1) < be_value (replay_counter_of d2) \<or> 2 ^ 64 \<le> length (wa_calls wa'))"
proof (intro conjI allI impI)
  fix seed now ptr own ins wa0 wa assume "wpa_init E seed now ptr own conf = Some (Some wa0)" "wpa_run E ins wa0 = Some wa"
  then show "replay_inv None wa"
    using replay_init [OF _ assms, of E seed now ptr own wa0] replay_run [of None wa0 ins E wa]
      wpa_init_returns [OF assms, of E seed now ptr own] by auto
next
  fix wa i d1 ins wa' d2
  assume a: "replay_inv None wa" "wpa_ok wa" "taken wa i d1" "wpa_run E (In_receive i d1 # ins) wa = Some wa'" "In_associated i \<notin> set ins" "taken wa' i d2"
  let ?a = "Some (i, be_value (replay_counter_of d1))"
  have i: "has_sta wa i" using a(3) by (simp add: taken_def)
  obtain w where w: "wpa_receive E i d1 wa = Some w" "wpa_run E ins w = Some wa'"
    using a(4) i by (auto simp: wpa_do_def split: option.splits)
  have "wpa_ok w" using wpa_do_returns [OF a(2), of E "In_receive i d1"] w(1) i by (simp add: wpa_do_def)
  moreover have "replay_inv ?a w" by (rule replay_receive_taken [OF a(1-3) w(1)]) simp
  ultimately have r: "replay_inv ?a wa'" using replay_run [OF _ _ _ w(2)] a(5) by auto
  have "has_sta wa' i" using a(6) by (simp add: taken_def)
  then have "length (wa_calls wa') < 2 ^ 64 \<Longrightarrow> past (be_value (replay_counter_of d1)) (key_replay (sta wa' i))" using r by (simp add: replay_inv_def)
  then show "be_value (replay_counter_of d1) < be_value (replay_counter_of d2) \<or> 2 ^ 64 \<le> length (wa_calls wa')"
    using taken_awaited [OF a(6) r] unfolding past_def by (meson not_le)
qed

theorem answers_taken_once_witness:
  "\<exists>wa' m4. wpa_run demo_live_env [In_receive 0 demo_message2] demo_waiting = Some wa' \<and> taken wa' 0 m4 \<and>
     (be_value (replay_counter_of demo_message2) < be_value (replay_counter_of m4) \<or> 2 ^ 64 \<le> length (wa_calls wa'))"
proof -
  have e: "we_malloc demo_live_env c" "we_aes demo_live_env k \<noteq> None" for c k by (simp_all add: demo_live_env_def demo_wpa_env_def)
  obtain wa' where r: "wpa_receive demo_live_env 0 demo_message2 demo_waiting = Some wa'" "has_sta wa' 0" "only_handshake (sta wa' 0)"
      "wpa_ptk_state (sta wa' 0) = WPA_PTK_PTKINITNEGOTIATING" "PTK_valid (sta wa' 0)" "settings wa' = settings demo_waiting"
      "key_replay (sta wa' 0) \<noteq> []" "length (fst (hd (key_replay (sta wa' 0)))) = 8" "\<exists>f. message3 (sta wa' 0) f"
    using message2_taken [OF demo_waiting_ok demo_message2_answers e demo_usable demo_message2_verifies] by blast
  let ?m4 = "station_frame (PTK (sta wa' 0)) 0x30a (fst (hd (key_replay (sta wa' 0)))) (replicate 32 0) []"
  have "wc_wpa (wa_conf wa') \<noteq> 0" using r(6) demo_message2_answers by (simp add: settings_def answers_def eapol_key_accepted_def)
  then have "answers wa' (sta wa' 0) ?m4"
    by (intro message4_answers) (use r in \<open>auto simp: only_handshake_def message3_def\<close>)
  moreover have "wpa_verify_key_mic (PTK (sta wa' 0)) ?m4" by (rule station_frame_verifies) (use r(8) in simp_all)
  ultimately have t: "taken wa' 0 ?m4" using r(2) by (simp add: taken_def answers_def)
  have w: "replay_inv None demo_waiting"
    by (auto simp: replay_inv_def demo_waiting_sta window_typed_def window_ok_def awaited_def) (simp_all add: demo_waiting_def be_value_append)
  have "taken demo_waiting 0 demo_message2"
    using demo_message2_answers by (simp add: taken_def answers_def demo_waiting_sta wpa_sm_zero_def)
  moreover have n: "wpa_run demo_live_env [In_receive 0 demo_message2] demo_waiting = Some wa'" using r(1) by (simp add: wpa_do_def demo_waiting_sta)
  ultimately have "be_value (replay_counter_of demo_message2) < be_value (replay_counter_of ?m4) \<or> 2 ^ 64 \<le> length (wa_calls wa')"
    using answers_taken_once [OF demo_init(1), of demo_live_env] w demo_waiting_ok(1) t by (simp del: wpa_run.simps)
  then show ?thesis using n t by blast
qed

end
