(* ===== verification/Pmksa_Refine.thy ===== *)
theory Pmksa_Refine
  imports Pmksa_Cache
begin

text \<open>
  The PMKSA cache of \<^verbatim>\<open>src/ap/pmksa_cache_auth.c\<close> as a queue: the linked entries, the hash table and the count implement a
  list of entries in the order of their expiration, without addresses.
\<close>

section \<open>The abstract cache\<close>

type_synonym pmksa_queue = "rsn_pmksa_cache_entry list"

fun drop_first :: "('a \<Rightarrow> bool) \<Rightarrow> 'a list \<Rightarrow> 'a list" where
  "drop_first P [] = []"
| "drop_first P (x # xs) = (if P x then xs else x # drop_first P xs)"

text \<open>Behind the entries that expire at the same time.\<close>

definition queue_insert :: "rsn_pmksa_cache_entry \<Rightarrow> pmksa_queue \<Rightarrow> pmksa_queue" where
  "queue_insert e q =
     takeWhile (\<lambda>d. pe_expiration d \<le> pe_expiration e) q @ e # dropWhile (\<lambda>d. pe_expiration d \<le> pe_expiration e) q"

text \<open>A new entry replaces that of its station; a full cache gives up the entry that expires first.\<close>

definition queue_add :: "rsn_pmksa_cache_entry \<Rightarrow> pmksa_queue \<Rightarrow> pmksa_queue" where
  "queue_add e q =
     (let q = drop_first (\<lambda>d. pe_spa d = pe_spa e) q;
          q = (if length q \<ge> 1024 then tl q else q)
      in queue_insert e q)"

definition queue_expire :: "int \<Rightarrow> pmksa_queue \<Rightarrow> pmksa_queue" where
  "queue_expire now q = dropWhile (\<lambda>e. pe_expiration e \<le> now) q"

definition pmksa_abs :: "rsn_pmksa_cache \<Rightarrow> pmksa_queue" where
  "pmksa_abs c = map (\<lambda>a. the (pmksa_heap c a)) (pmksa_list c)"

section \<open>The operations refine it\<close>

lemma abs_heap_upd: "a \<notin> set xs \<Longrightarrow> map (\<lambda>b. the ((H(a := x)) b)) xs = map (\<lambda>b. the (H b)) xs"
  by auto

lemma drop_first_found: "find (\<lambda>a. P (f a)) xs = Some a \<Longrightarrow> map f (remove1 a xs) = drop_first P (map f xs)"
proof (induction xs)
  case (Cons x xs)
  show ?case
  proof (cases "P (f x)")
    case False
    then have f: "find (\<lambda>a. P (f a)) xs = Some a" using Cons.prems by simp
    then have "P (f a)" by (auto simp: find_Some_iff)
    then have "x \<noteq> a" using False by auto
    then show ?thesis using Cons.IH [OF f] False by simp
  qed (use Cons.prems in simp)
qed simp

lemma drop_first_none: "find (\<lambda>a. P (f a)) xs = None \<Longrightarrow> drop_first P (map f xs) = map f xs"
  by (induction xs) (auto split: if_splits)

lemma free_entry_abs:
  assumes "pmksa_wf c" "pmksa_heap c a = Some e" "pmksa_cache_free_entry c a = Some c'"
  shows "pmksa_abs c' = map (\<lambda>b. the (pmksa_heap c b)) (remove1 a (pmksa_list c))"
proof -
  have "a \<notin> set (remove1 a (pmksa_list c))" using assms(1) by (simp add: pmksa_wf_def)
  moreover have "pmksa_heap c' = (pmksa_heap c)(a := None)" "pmksa_list c' = remove1 a (pmksa_list c)"
    using assms(3) by (auto simp: pmksa_cache_free_entry_def unlink_remove1 Let_def split: option.splits)
  ultimately show ?thesis using abs_heap_upd by (simp only: pmksa_abs_def)
qed

lemma link_pos_abs:
  "link_pos H (pe_expiration e) a xs = Some l \<Longrightarrow> set xs \<subseteq> dom H \<Longrightarrow> H a = Some e \<Longrightarrow>
   map (\<lambda>b. the (H b)) l = queue_insert e (map (\<lambda>b. the (H b)) xs)"
proof (induction xs arbitrary: l)
  case (Cons b xs)
  then obtain d where "H b = Some d" by auto
  then show ?case using Cons by (auto simp: queue_insert_def split: if_splits)
qed (simp add: queue_insert_def)

lemma link_entry_abs:
  assumes "pmksa_wf c" "pmksa_heap c a = None" "pmksa_cache_link_entry c a e = Some c'"
  shows "pmksa_abs c' = queue_insert e (pmksa_abs c)"
proof -
  have a: "a \<notin> set (pmksa_list c)" "set (pmksa_list c) \<subseteq> dom ((pmksa_heap c)(a \<mapsto> e))" using assms(1,2) by (auto simp: pmksa_wf_def)
  obtain l where "link_pos ((pmksa_heap c)(a \<mapsto> e)) (pe_expiration e) a (pmksa_list c) = Some l"
      "pmksa_list c' = l" "pmksa_heap c' = (pmksa_heap c)(a \<mapsto> e)"
    using assms(3) by (auto simp: pmksa_cache_link_entry_def Let_def split: option.splits)
  then show ?thesis using link_pos_abs [OF _ a(2), of e a l] abs_heap_upd [OF a(1), of "pmksa_heap c" "Some e"]
    unfolding pmksa_abs_def by (simp only: fun_upd_same)
qed

lemma replace_abs:
  assumes "pmksa_wf c" "Option.bind (pmksa_cache_auth_get c (Some spa) None)
       (\<lambda>pos. case pos of None \<Rightarrow> Some c | Some p \<Rightarrow> pmksa_cache_free_entry c p) = Some c'"
  shows "pmksa_abs c' = drop_first (\<lambda>d. pe_spa d = spa) (pmksa_abs c)" "pmksa_wf c'" "pmksa_heap c' \<subseteq>\<^sub>m pmksa_heap c"
proof -
  have sub: "set (pmksa_list c) \<subseteq> dom (pmksa_heap c)" using assms(1) by (auto simp: pmksa_wf_def)
  have g: "pmksa_cache_auth_get c (Some spa) None = Some (find (\<lambda>a. pe_spa (the (pmksa_heap c a)) = spa) (pmksa_list c))"
    using auth_get_loop_spec [OF sub, of "Some spa" None] by (simp add: pmksa_cache_auth_get_def pmksa_match_def)
  show "pmksa_abs c' = drop_first (\<lambda>d. pe_spa d = spa) (pmksa_abs c)"
  proof (cases "find (\<lambda>a. pe_spa (the (pmksa_heap c a)) = spa) (pmksa_list c)")
    case None
    then show ?thesis using assms(2) drop_first_none [of "\<lambda>d. pe_spa d = spa" "\<lambda>b. the (pmksa_heap c b)" "pmksa_list c"] None g by (simp add: pmksa_abs_def)
  next
    case (Some p)
    then have "p \<in> set (pmksa_list c)" by (auto simp: find_Some_iff)
    then obtain e where e: "pmksa_heap c p = Some e" using sub by auto
    show ?thesis using assms(2) free_entry_abs [OF assms(1) e] drop_first_found [of "\<lambda>d. pe_spa d = spa" "\<lambda>b. the (pmksa_heap c b)" "pmksa_list c" p] g Some by (simp add: pmksa_abs_def)
  qed
  show "pmksa_wf c'" "pmksa_heap c' \<subseteq>\<^sub>m pmksa_heap c"
    using replace_old_wf [OF assms(1), of spa "pmksa_wf c' \<and> pmksa_heap c' \<subseteq>\<^sub>m pmksa_heap c"] assms(2) by auto
qed

lemma make_room_abs:
  assumes "pmksa_wf c" "(if pmksa_count c \<ge> pmksa_cache_max_entries \<and> pmksa_list c \<noteq> []
      then pmksa_cache_free_entry c (hd (pmksa_list c)) else Some c) = Some c'"
  shows "pmksa_abs c' = (if length (pmksa_abs c) \<ge> 1024 then tl (pmksa_abs c) else pmksa_abs c)" "pmksa_wf c'" "pmksa_heap c' \<subseteq>\<^sub>m pmksa_heap c"
proof -
  have n: "pmksa_count c = int (length (pmksa_abs c))" using assms(1) by (simp add: pmksa_wf_def pmksa_abs_def)
  show "pmksa_abs c' = (if length (pmksa_abs c) \<ge> 1024 then tl (pmksa_abs c) else pmksa_abs c)"
  proof (cases "pmksa_list c")
    case Nil
    then show ?thesis using assms(2) by (simp add: pmksa_abs_def)
  next
    case (Cons a xs)
    then obtain e where e: "pmksa_heap c a = Some e" using assms(1) by (force simp: pmksa_wf_def)
    then show ?thesis using assms(2) Cons free_entry_abs [OF assms(1) e, of c'] n by (auto simp: pmksa_abs_def split: if_splits)
  qed
  show "pmksa_wf c'" "pmksa_heap c' \<subseteq>\<^sub>m pmksa_heap c"
    using make_room_wf [OF assms(1), of "pmksa_wf c' \<and> pmksa_heap c' \<subseteq>\<^sub>m pmksa_heap c"] assms(2) by auto
qed

lemma auth_add_abs:
  assumes "pmksa_wf c" "pmksa_heap c a = None" "length pmk \<le> PMK_LEN"
  shows "\<exists>c'. pmksa_cache_auth_add hmac now (Some a) im c pmk aa spa st eapol vlan akmp = Some (Some a, c') \<and> pmksa_wf c' \<and>
    pmksa_abs c' = queue_add (new_pmksa_entry hmac now im pmk aa spa st eapol vlan akmp) (pmksa_abs c)"
proof -
  let ?e = "new_pmksa_entry hmac now im pmk aa spa st eapol vlan akmp"
  obtain c1 where c1: "Option.bind (pmksa_cache_auth_get c (Some spa) None)
       (\<lambda>pos. case pos of None \<Rightarrow> Some c | Some p \<Rightarrow> pmksa_cache_free_entry c p) = Some c1" by (rule replace_old_wf [OF assms(1)])
  note r = replace_abs [OF assms(1) c1]
  obtain c2 where c2: "(if pmksa_count c1 \<ge> pmksa_cache_max_entries \<and> pmksa_list c1 \<noteq> []
      then pmksa_cache_free_entry c1 (hd (pmksa_list c1)) else Some c1) = Some c2" by (rule make_room_wf [OF r(2)])
  note m = make_room_abs [OF r(2) c2]
  have a2: "pmksa_heap c2 a = None" using assms(2) map_le_trans [OF m(3) r(3)] by (auto simp: map_le_def dom_def)
  obtain c' where c': "pmksa_cache_link_entry c2 a ?e = Some c'" "pmksa_wf c'" by (rule link_entry_wf [OF m(2) a2]) blast
  have "pmksa_cache_auth_add hmac now (Some a) im c pmk aa spa st eapol vlan akmp = Some (Some a, c')"
    using assms(3) c1 c2 c'(1)
    by (cases "pmksa_cache_auth_get c (Some spa) None") (simp_all add: pmksa_cache_auth_add_def Let_def new_pmksa_entry_def)
  then show ?thesis using c'(2) link_entry_abs [OF m(2) a2 c'(1)] r(1) m(1) by (simp add: queue_add_def Let_def)
qed

lemma expire_loop_abs:
  assumes "pmksa_wf c" "pmksa_cache_expire_loop now c = Some c'"
  shows "pmksa_abs c' = queue_expire now (pmksa_abs c)"
  using assms
proof (induction now c rule: pmksa_cache_expire_loop.induct)
  case (1 now c)
  show ?case
  proof (cases "pmksa_list c")
    case Nil
    then show ?thesis using 1 by (simp add: pmksa_cache_expire_loop.simps [of now c] pmksa_abs_def queue_expire_def)
  next
    case (Cons a xs)
    then obtain e where e: "pmksa_heap c a = Some e" using "1.prems"(1) by (force simp: pmksa_wf_def)
    note fh = free_head [OF "1.prems"(1) Cons]
    show ?thesis
    proof (cases "pe_expiration e \<le> now")
      case True
      obtain c1 where c1: "pmksa_cache_free_entry c a = Some c1" "pmksa_wf c1" by (rule free_entry_wf [OF "1.prems"(1) e]) blast
      have "pmksa_cache_expire_loop now c1 = Some c'"
        using "1.prems"(2) Cons e True c1(1) fh by (simp add: pmksa_cache_expire_loop.simps [of now c])
      then have "pmksa_abs c' = queue_expire now (pmksa_abs c1)" using "1.IH" [OF Cons e True _ c1(2)] c1(1) fh by simp
      moreover have "pmksa_abs c1 = map (\<lambda>b. the (pmksa_heap c b)) xs" using free_entry_abs [OF "1.prems"(1) e c1(1)] Cons by simp
      ultimately show ?thesis using Cons e True by (simp add: pmksa_abs_def queue_expire_def)
    next
      case False
      then show ?thesis using "1.prems"(2) Cons e by (auto simp: pmksa_cache_expire_loop.simps [of now c] pmksa_abs_def queue_expire_def)
    qed
  qed
qed

lemma expire_abs:
  assumes "pmksa_wf c"
  shows "\<exists>c'. pmksa_cache_expire now c = Some c' \<and> pmksa_wf c' \<and> pmksa_abs c' = queue_expire now (pmksa_abs c) \<and>
    (expire_timer c' = None \<longleftrightarrow> pmksa_abs c' = [])"
proof -
  obtain c1 where c1: "pmksa_cache_expire_loop now c = Some c1" "pmksa_wf c1" using expire_loop_wf [OF assms] by blast
  obtain t where "pmksa_cache_set_expiration now c1 = Some (c1\<lparr>expire_timer := t\<rparr>)" using set_expiration_wf [OF c1(2)] by blast
  then show ?thesis using c1 expire_loop_abs [OF assms c1(1)] expire_wf [OF assms, of now] by (auto simp: pmksa_cache_expire_def pmksa_abs_def)
qed

lemma get_abs:
  assumes "pmksa_wf c"
  shows "\<exists>r. pmksa_cache_auth_get c spa pmkid = Some r \<and>
    (case r of None \<Rightarrow> \<forall>e\<in>set (pmksa_abs c). \<not> pmksa_match spa pmkid e
     | Some a \<Rightarrow> \<exists>e\<in>set (pmksa_abs c). pmksa_heap c a = Some e \<and> pmksa_match spa pmkid e)"
proof -
  have m: "e \<in> set (pmksa_abs c) \<longleftrightarrow> (\<exists>a. pmksa_heap c a = Some e)" for e
    using assms by (auto simp: pmksa_abs_def pmksa_wf_def image_iff) force+
  obtain r where r: "pmksa_cache_auth_get c spa pmkid = Some r"
    "case r of None \<Rightarrow> \<forall>a e. pmksa_heap c a = Some e \<longrightarrow> \<not> pmksa_match spa pmkid e
     | Some a \<Rightarrow> \<exists>e. pmksa_heap c a = Some e \<and> pmksa_match spa pmkid e"
    using auth_get_spec [OF assms] by blast
  show ?thesis by (rule exI [of _ r]) (use r m in \<open>auto split: option.splits\<close>)
qed

lemma add_okc_abs:
  assumes "pmksa_wf c" "pmksa_heap c a = None"
  shows "\<exists>c' e. pmksa_cache_add_okc (Some a) im c old pmkid = Some (Some a, c') \<and> pmksa_wf c' \<and>
    pmksa_abs c' = queue_insert e (pmksa_abs c) \<and> pe_pmkid e = pmkid \<and> pe_pmk e = pe_pmk old \<and> pe_expiration e = pe_expiration old \<and>
    pe_spa e = pe_spa old \<and> pe_opportunistic e"
proof -
  define e where "e = pmksa_entry_zero\<lparr>pe_pmkid := pmkid, pe_pmk := pe_pmk old, pe_expiration := pe_expiration old, pe_akmp := pe_akmp old,
    pe_spa := pe_spa old, pe_opportunistic := True, pe_identity := (if im then pe_identity old else None),
    pe_radius_class := pe_radius_class old, pe_eap_type_authsrv := pe_eap_type_authsrv old, pe_vlan_id := pe_vlan_id old\<rparr>"
  obtain c' where c': "pmksa_cache_link_entry c a e = Some c'" "pmksa_wf c'" by (rule link_entry_wf [OF assms]) blast
  have "pmksa_cache_add_okc (Some a) im c old pmkid = Some (Some a, c')" using c'(1) by (simp add: pmksa_cache_add_okc_def e_def Let_def)
  then show ?thesis using c' link_entry_abs [OF assms c'(1)] by (intro exI [of _ c'] exI [of _ e]) (simp add: e_def)
qed

text \<open>C21.  The cache refines the queue.  From every well formed cache the operations run without following a dangling pointer, keep the
  cache well formed, and act on its entries as the operations of the queue: an addition replaces the entry of the station, gives up
  the entry that expires first when the cache is full and inserts by expiration time; an opportunistic addition only inserts;
  expiration drops the entries in front whose time has come and leaves a timer running exactly if entries remain; and a lookup, through the hash table or along the list, finds an entry
  exactly if the queue holds one that matches.\<close>

theorem pmksa_cache_refines_queue:
  assumes "pmksa_wf c"
  shows "(\<forall>a. pmksa_heap c a = None \<longrightarrow> length pmk \<le> PMK_LEN \<longrightarrow>
      (\<exists>c'. pmksa_cache_auth_add hmac now (Some a) im c pmk aa spa st eapol vlan akmp = Some (Some a, c') \<and> pmksa_wf c' \<and>
        pmksa_abs c' = queue_add (new_pmksa_entry hmac now im pmk aa spa st eapol vlan akmp) (pmksa_abs c))) \<and>
    (\<forall>a. pmksa_heap c a = None \<longrightarrow>
      (\<exists>c' e. pmksa_cache_add_okc (Some a) im c old pmkid = Some (Some a, c') \<and> pmksa_wf c' \<and>
        pmksa_abs c' = queue_insert e (pmksa_abs c) \<and> pe_pmkid e = pmkid \<and> pe_pmk e = pe_pmk old \<and> pe_expiration e = pe_expiration old \<and>
        pe_spa e = pe_spa old \<and> pe_opportunistic e)) \<and>
    (\<exists>c'. pmksa_cache_expire now c = Some c' \<and> pmksa_wf c' \<and> pmksa_abs c' = queue_expire now (pmksa_abs c) \<and>
      (expire_timer c' = None \<longleftrightarrow> pmksa_abs c' = [])) \<and>
    (\<exists>r. pmksa_cache_auth_get c get_spa get_pmkid = Some r \<and>
      (case r of None \<Rightarrow> \<forall>e\<in>set (pmksa_abs c). \<not> pmksa_match get_spa get_pmkid e
       | Some a \<Rightarrow> \<exists>e\<in>set (pmksa_abs c). pmksa_heap c a = Some e \<and> pmksa_match get_spa get_pmkid e))"
proof (intro conjI allI impI)
  fix a assume a: "pmksa_heap c a = None"
  then show "\<exists>c' e. pmksa_cache_add_okc (Some a) im c old pmkid = Some (Some a, c') \<and> pmksa_wf c' \<and>
      pmksa_abs c' = queue_insert e (pmksa_abs c) \<and> pe_pmkid e = pmkid \<and> pe_pmk e = pe_pmk old \<and> pe_expiration e = pe_expiration old \<and>
      pe_spa e = pe_spa old \<and> pe_opportunistic e"
    by (rule add_okc_abs [OF assms])
qed (use auth_add_abs [OF assms] expire_abs [OF assms] get_abs [OF assms] in simp_all)

theorem pmksa_cache_refines_queue_witness:
  "\<exists>c c'. pmksa_cache_auth_add (\<lambda>_ _ _. replicate 20 7) 100 (Some 1) True pmksa_cache_auth_init
      (replicate 32 1) (replicate 6 2) (replicate 6 3) 0 (None :: unit eapol_state_machine option) 0 1 = Some (Some 1, c) \<and>
    length (pmksa_abs c) = 1 \<and> pmksa_cache_expire 50000 c = Some c' \<and> pmksa_abs c' = []"
proof -
  note r = pmksa_cache_refines_queue [where im = True and aa = "replicate 6 2" and spa = "replicate 6 3" and st = 0 and
    eapol = "None :: unit eapol_state_machine option" and vlan = 0 and akmp = 1 and hmac = "\<lambda>_ _ _. replicate 20 7" and pmk = "replicate 32 1"]
  have i: "pmksa_heap pmksa_cache_auth_init 1 = None" "pmksa_abs pmksa_cache_auth_init = []"
    by (simp_all add: pmksa_cache_auth_init_def pmksa_abs_def)
  obtain c where c: "pmksa_cache_auth_add (\<lambda>_ _ _. replicate 20 7) 100 (Some 1) True pmksa_cache_auth_init
      (replicate 32 1) (replicate 6 2) (replicate 6 3) 0 (None :: unit eapol_state_machine option) 0 1 = Some (Some 1, c)" "pmksa_wf c"
      "pmksa_abs c = queue_add (new_pmksa_entry (\<lambda>_ _ _. replicate 20 7) 100 True (replicate 32 1) (replicate 6 2) (replicate 6 3) 0
        (None :: unit eapol_state_machine option) 0 1) []"
    using conjunct1 [OF r [OF pmksa_init_wf, of 100]] i by auto
  moreover obtain c' where "pmksa_cache_expire 50000 c = Some c'" "pmksa_abs c' = queue_expire 50000 (pmksa_abs c)"
    using r [OF c(2), of 50000] by blast
  ultimately show ?thesis by (simp add: queue_add_def queue_insert_def queue_expire_def new_pmksa_entry_def pmksa_cache_from_eapol_data_def)
qed

end
