(* ===== verification/Radius.thy ===== *)
theory Radius
  imports Wpabuf Md5 Hmac "HOL-Library.Sublist"
begin

text \<open>
  RADIUS messages: \<^verbatim>\<open>src/radius/radius.c\<close>.  A message is a buffer with the positions of its attributes in it; \<^verbatim>\<open>hdr\<close>
  always points to the start of the buffer and \<^verbatim>\<open>attr_used\<close> is the length of the list of positions.  An operation takes
  a function that says which of its allocations succeed, by their number within the operation and their size.  The result \<open>Abort\<close>
  is the end of the program in \<^verbatim>\<open>wpabuf_overflow\<close>, or an access outside of an allocated block.
\<close>

section \<open>Messages\<close>

abbreviation (input) RADIUS_MAX_ATTR_LEN :: nat where "RADIUS_MAX_ATTR_LEN \<equiv> 253"
abbreviation (input) RADIUS_DEFAULT_MSG_SIZE :: u32 where "RADIUS_DEFAULT_MSG_SIZE \<equiv> 1024"
abbreviation (input) RADIUS_DEFAULT_ATTR_COUNT :: nat where "RADIUS_DEFAULT_ATTR_COUNT \<equiv> 16"
abbreviation (input) MD5_MAC_LEN :: nat where "MD5_MAC_LEN \<equiv> 16"

abbreviation (input) RADIUS_ATTR_USER_PASSWORD :: u8 where "RADIUS_ATTR_USER_PASSWORD \<equiv> 2"
abbreviation (input) RADIUS_ATTR_VENDOR_SPECIFIC :: u8 where "RADIUS_ATTR_VENDOR_SPECIFIC \<equiv> 26"
abbreviation (input) RADIUS_ATTR_TUNNEL_TYPE :: u8 where "RADIUS_ATTR_TUNNEL_TYPE \<equiv> 64"
abbreviation (input) RADIUS_ATTR_TUNNEL_MEDIUM_TYPE :: u8 where "RADIUS_ATTR_TUNNEL_MEDIUM_TYPE \<equiv> 65"
abbreviation (input) RADIUS_ATTR_EAP_MESSAGE :: u8 where "RADIUS_ATTR_EAP_MESSAGE \<equiv> 79"
abbreviation (input) RADIUS_ATTR_MESSAGE_AUTHENTICATOR :: u8 where "RADIUS_ATTR_MESSAGE_AUTHENTICATOR \<equiv> 80"
abbreviation (input) RADIUS_ATTR_TUNNEL_PRIVATE_GROUP_ID :: u8 where "RADIUS_ATTR_TUNNEL_PRIVATE_GROUP_ID \<equiv> 81"
abbreviation (input) RADIUS_TUNNEL_TAGS :: nat where "RADIUS_TUNNEL_TAGS \<equiv> 32"
abbreviation (input) RADIUS_TUNNEL_TYPE_VLAN :: u32 where "RADIUS_TUNNEL_TYPE_VLAN \<equiv> 13"
abbreviation (input) RADIUS_TUNNEL_MEDIUM_TYPE_802 :: u32 where "RADIUS_TUNNEL_MEDIUM_TYPE_802 \<equiv> 6"
abbreviation (input) RADIUS_VENDOR_ID_CISCO :: u32 where "RADIUS_VENDOR_ID_CISCO \<equiv> 9"
abbreviation (input) RADIUS_CISCO_AV_PAIR :: u8 where "RADIUS_CISCO_AV_PAIR \<equiv> 1"
abbreviation (input) RADIUS_VENDOR_ID_MICROSOFT :: u32 where "RADIUS_VENDOR_ID_MICROSOFT \<equiv> 311"
abbreviation (input) RADIUS_VENDOR_ATTR_MS_MPPE_SEND_KEY :: u8 where "RADIUS_VENDOR_ATTR_MS_MPPE_SEND_KEY \<equiv> 16"
abbreviation (input) RADIUS_VENDOR_ATTR_MS_MPPE_RECV_KEY :: u8 where "RADIUS_VENDOR_ATTR_MS_MPPE_RECV_KEY \<equiv> 17"

record radius_msg =
  rm_buf :: wpabuf
  attr_pos :: "nat list"
  attr_size :: nat

type_synonym os_alloc = "nat \<Rightarrow> u32 \<Rightarrow> bool"

text \<open>The octets of a message, and an assignment to some of them.\<close>

abbreviation radius_octets :: "radius_msg \<Rightarrow> bytes" where "radius_octets msg \<equiv> wpabuf_contents (rm_buf msg)"

definition radius_write :: "nat \<Rightarrow> bytes \<Rightarrow> radius_msg \<Rightarrow> radius_msg" where
  "radius_write off d msg = msg\<lparr>rm_buf := (rm_buf msg)\<lparr>wb_area := overwrite off d (wb_area (rm_buf msg))\<rparr>\<rparr>"

text \<open>The fields of \<^verbatim>\<open>struct radius_hdr\<close> and, for an attribute at position \<open>p\<close>, of \<^verbatim>\<open>struct radius_attr_hdr\<close>.\<close>

definition hdr_code :: "radius_msg \<Rightarrow> u8" where "hdr_code msg = wb_area (rm_buf msg) ! 0"
definition hdr_identifier :: "radius_msg \<Rightarrow> u8" where "hdr_identifier msg = wb_area (rm_buf msg) ! 1"
definition hdr_authenticator :: "radius_msg \<Rightarrow> bytes" where "hdr_authenticator msg = take 16 (drop 4 (wb_area (rm_buf msg)))"

definition attr_type :: "radius_msg \<Rightarrow> nat \<Rightarrow> u8" where "attr_type msg p = wb_area (rm_buf msg) ! p"
definition attr_length :: "radius_msg \<Rightarrow> nat \<Rightarrow> nat" where "attr_length msg p = unat (wb_area (rm_buf msg) ! (p + 1))"
definition attr_data :: "radius_msg \<Rightarrow> nat \<Rightarrow> bytes" where
  "attr_data msg p = take (attr_length msg p - 2) (drop (p + 2) (wb_area (rm_buf msg)))"

definition radius_get_attr_hdr :: "radius_msg \<Rightarrow> nat \<Rightarrow> nat" where
  "radius_get_attr_hdr msg idx = attr_pos msg ! idx"

definition radius_msg_set_hdr :: "radius_msg \<Rightarrow> u8 \<Rightarrow> u8 \<Rightarrow> radius_msg" where
  "radius_msg_set_hdr msg code identifier = radius_write 1 [identifier] (radius_write 0 [code] msg)"

definition radius_msg_initialize :: "(u32 \<Rightarrow> bool) \<Rightarrow> wpabuf \<Rightarrow> radius_msg option" where
  "radius_msg_initialize os_zalloc buf =
     (if os_zalloc (word_of_nat (RADIUS_DEFAULT_ATTR_COUNT * 4))
      then Some \<lparr>rm_buf = buf, attr_pos = [], attr_size = RADIUS_DEFAULT_ATTR_COUNT\<rparr> else None)"

definition radius_msg_new :: "os_alloc \<Rightarrow> u8 \<Rightarrow> u8 \<Rightarrow> radius_msg option outcome" where
  "radius_msg_new os_alloc code identifier =
     (if \<not> os_alloc 0 20 then Done None
      else case wpabuf_alloc (os_alloc 1) RADIUS_DEFAULT_MSG_SIZE of
        None \<Rightarrow> Done None
      | Some buf \<Rightarrow>
          (case radius_msg_initialize (os_alloc 2) buf of
             None \<Rightarrow> Done None
           | Some msg \<Rightarrow>
               (case wpabuf_put (rm_buf msg) 20 of
                  Abort \<Rightarrow> Abort
                | Done (hdr, buf) \<Rightarrow> Done (Some (radius_msg_set_hdr (msg\<lparr>rm_buf := buf\<rparr>) code identifier)))))"

section \<open>Attributes\<close>

definition radius_msg_add_attr_to_array :: "(u32 \<Rightarrow> bool) \<Rightarrow> nat \<Rightarrow> radius_msg \<Rightarrow> radius_msg option" where
  "radius_msg_add_attr_to_array os_realloc attr msg =
     (if length (attr_pos msg) \<ge> attr_size msg then
        let nlen = attr_size msg * 2 in
        if \<not> os_realloc (word_of_nat (nlen * 4)) then None
        else Some (msg\<lparr>attr_size := nlen, attr_pos := attr_pos msg @ [attr]\<rparr>)
      else Some (msg\<lparr>attr_pos := attr_pos msg @ [attr]\<rparr>))"

text \<open>The result is the position of the new attribute, or none where the code returns \<^verbatim>\<open>NULL\<close>.\<close>

definition radius_msg_add_attr :: "os_alloc \<Rightarrow> u8 \<Rightarrow> bytes \<Rightarrow> radius_msg \<Rightarrow> (nat option \<times> radius_msg) outcome" where
  "radius_msg_add_attr os_alloc type data msg =
     (if length data > RADIUS_MAX_ATTR_LEN then Done (None, msg)
      else
        let buf_needed = 2 + word_of_nat (length data);
            (res, buf) = (if wpabuf_tailroom (rm_buf msg) < buf_needed
                          then wpabuf_resize (os_alloc 0) (Some (rm_buf msg)) buf_needed
                          else (0, Some (rm_buf msg)))
        in case buf of
             None \<Rightarrow> Abort
           | Some buf \<Rightarrow>
               if res < 0 then Done (None, msg\<lparr>rm_buf := buf\<rparr>)
               else
                 let attr = unat (wb_used buf) in
                 (case wpabuf_put_data buf [type, word_of_nat (2 + length data)] of
                    Abort \<Rightarrow> Abort
                  | Done buf \<Rightarrow>
                      (case wpabuf_put_data buf data of
                         Abort \<Rightarrow> Abort
                       | Done buf \<Rightarrow>
                           (case radius_msg_add_attr_to_array (os_alloc 1) attr (msg\<lparr>rm_buf := buf\<rparr>) of
                              None \<Rightarrow> Done (None, msg\<lparr>rm_buf := buf\<rparr>)
                            | Some msg \<Rightarrow> Done (Some attr, msg)))))"

lemma add_to_array_buf: "radius_msg_add_attr_to_array al attr msg = Some msg' \<Longrightarrow> rm_buf msg' = rm_buf msg"
  by (auto simp: radius_msg_add_attr_to_array_def Let_def split: if_splits)

function radius_parse_attrs :: "os_alloc \<Rightarrow> nat \<Rightarrow> radius_msg \<Rightarrow> radius_msg option" where
  "radius_parse_attrs os_alloc pos msg =
     (let octets = radius_octets msg; end = length octets in
      if \<not> pos < end then Some msg
      else if end - pos < 2 then None
      else if pos + unat (octets ! (pos + 1)) > end \<or> unat (octets ! (pos + 1)) < 2 then None
      else case radius_msg_add_attr_to_array (os_alloc 0) pos msg of
        None \<Rightarrow> None
      | Some msg \<Rightarrow> radius_parse_attrs (\<lambda>k. os_alloc (k + 1)) (pos + unat (octets ! (pos + 1))) msg)"
  by auto
termination
  by (relation "measure (\<lambda>(al, pos, msg). length (radius_octets msg) - pos)") (auto simp: add_to_array_buf)

declare radius_parse_attrs.simps [simp del]

definition radius_msg_parse :: "os_alloc \<Rightarrow> bytes \<Rightarrow> radius_msg option outcome" where
  "radius_msg_parse os_alloc data =
     (if length data < 20 then Done None
      else
        let msg_len = unat (WPA_GET_BE16 (drop 2 data)) in
        if msg_len < 20 \<or> msg_len > length data then Done None
        else if \<not> os_alloc 0 20 then Done None
        else case wpabuf_alloc_copy (os_alloc 1) (take msg_len data) of
          Abort \<Rightarrow> Abort
        | Done None \<Rightarrow> Done None
        | Done (Some buf) \<Rightarrow>
            (case radius_msg_initialize (os_alloc 2) buf of
               None \<Rightarrow> Done None
             | Some msg \<Rightarrow> Done (radius_parse_attrs (\<lambda>k. os_alloc (k + 3)) 20 msg)))"

function radius_msg_add_eap :: "os_alloc \<Rightarrow> bytes \<Rightarrow> radius_msg \<Rightarrow> (bool \<times> radius_msg) outcome" where
  "radius_msg_add_eap os_alloc data msg =
     (if data = [] then Done (True, msg)
      else
        let len = (if length data > RADIUS_MAX_ATTR_LEN then RADIUS_MAX_ATTR_LEN else length data) in
        case radius_msg_add_attr os_alloc RADIUS_ATTR_EAP_MESSAGE (take len data) msg of
          Abort \<Rightarrow> Abort
        | Done (None, msg) \<Rightarrow> Done (False, msg)
        | Done (Some attr, msg) \<Rightarrow> radius_msg_add_eap (\<lambda>k. os_alloc (k + 2)) (drop len data) msg)"
  by auto
termination
  by (relation "measure (\<lambda>(al, data, msg). length data)") (auto split: if_splits)

declare radius_msg_add_eap.simps [simp del]

text \<open>The loops over the attributes visit the positions in the order of the array.\<close>

definition radius_msg_get_eap :: "(u32 \<Rightarrow> bool) \<Rightarrow> radius_msg \<Rightarrow> bytes option" where
  "radius_msg_get_eap os_malloc msg =
     (let attrs = filter (\<lambda>p. attr_type msg p = RADIUS_ATTR_EAP_MESSAGE) (attr_pos msg);
          len = sum_list (map (\<lambda>p. attr_length msg p - 2) attrs)
      in if len = 0 then None
         else if \<not> os_malloc (word_of_nat len) then None
         else Some (concat (map (attr_data msg) attrs)))"

fun radius_msg_copy_attr :: "os_alloc \<Rightarrow> radius_msg \<Rightarrow> radius_msg \<Rightarrow> u8 \<Rightarrow> nat list \<Rightarrow> nat \<Rightarrow> (int \<times> radius_msg) outcome" where
  "radius_msg_copy_attr os_alloc dst src type [] count = Done (int count, dst)"
| "radius_msg_copy_attr os_alloc dst src type (p # ps) count =
     (if attr_type src p = type then
        case radius_msg_add_attr os_alloc type (attr_data src p) dst of
          Abort \<Rightarrow> Abort
        | Done (None, dst) \<Rightarrow> Done (-1, dst)
        | Done (Some attr, dst) \<Rightarrow> radius_msg_copy_attr (\<lambda>k. os_alloc (k + 2)) dst src type ps (Suc count)
      else radius_msg_copy_attr os_alloc dst src type ps count)"

text \<open>The length of the first attribute of a type and the first octets of its value; none stands for -1.\<close>

definition radius_msg_get_attr :: "radius_msg \<Rightarrow> u8 \<Rightarrow> nat \<Rightarrow> (nat \<times> bytes) option" where
  "radius_msg_get_attr msg type len =
     (case filter (\<lambda>p. attr_type msg p = type) (attr_pos msg) of
        [] \<Rightarrow> None
      | p # _ \<Rightarrow>
          let dlen = attr_length msg p - 2
          in Some (dlen, take (if dlen > len then len else dlen) (drop (p + 2) (wb_area (rm_buf msg)))))"

text \<open>A pointer into the message is a position.\<close>

definition radius_msg_get_attr_ptr :: "radius_msg \<Rightarrow> u8 \<Rightarrow> nat option \<Rightarrow> (nat \<times> nat) option" where
  "radius_msg_get_attr_ptr msg type start =
     (case filter (\<lambda>p. attr_type msg p = type \<and> (case start of None \<Rightarrow> True | Some s \<Rightarrow> p > s)) (attr_pos msg) of
        [] \<Rightarrow> None
      | p # _ \<Rightarrow> Some (p + 2, attr_length msg p - 2))"

definition radius_msg_count_attr :: "radius_msg \<Rightarrow> u8 \<Rightarrow> nat \<Rightarrow> nat" where
  "radius_msg_count_attr msg type min_len =
     length (filter (\<lambda>p. attr_type msg p = type \<and> attr_length msg p \<ge> 2 + min_len) (attr_pos msg))"

definition radius_msg_add_attr_int32 :: "os_alloc \<Rightarrow> radius_msg \<Rightarrow> u8 \<Rightarrow> u32 \<Rightarrow> (bool \<times> radius_msg) outcome" where
  "radius_msg_add_attr_int32 os_alloc msg type val =
     (case radius_msg_add_attr os_alloc type (WPA_PUT_BE32 val) msg of
        Abort \<Rightarrow> Abort
      | Done (attr, msg) \<Rightarrow> Done (attr \<noteq> None, msg))"

definition radius_msg_get_attr_int32 :: "radius_msg \<Rightarrow> u8 \<Rightarrow> u32 option" where
  "radius_msg_get_attr_int32 msg type =
     (case radius_msg_get_attr msg type 4 of
        None \<Rightarrow> None
      | Some (res, val) \<Rightarrow> if res \<noteq> 4 then None else Some (WPA_GET_BE32 val))"

section \<open>Authenticators\<close>

definition hdr_set_length :: "radius_msg \<Rightarrow> radius_msg" where
  "hdr_set_length msg = radius_write 2 (WPA_PUT_BE16 (ucast (wpabuf_len (rm_buf msg)))) msg"

definition too_long :: "radius_msg \<Rightarrow> bool" where
  "too_long msg \<longleftrightarrow> wpabuf_len (rm_buf msg) > 0xffff"

text \<open>\<^verbatim>\<open>hmac_md5\<close> writes the value of the attribute, if it does not fail.\<close>

definition put_hmac :: "bytes \<Rightarrow> nat \<Rightarrow> radius_msg \<Rightarrow> radius_msg" where
  "put_hmac secret attr msg =
     (case hmac_md5 secret (radius_octets msg) of None \<Rightarrow> msg | Some mac \<Rightarrow> radius_write (attr + 2) mac msg)"

definition radius_msg_finish :: "os_alloc \<Rightarrow> bytes option \<Rightarrow> radius_msg \<Rightarrow> (int \<times> radius_msg) outcome" where
  "radius_msg_finish os_alloc secret msg =
     (let finish = (\<lambda>msg. Done (if too_long msg then -1 else 0, msg)) in
      case secret of
        None \<Rightarrow> finish (hdr_set_length msg)
      | Some secret \<Rightarrow>
          (case radius_msg_add_attr os_alloc RADIUS_ATTR_MESSAGE_AUTHENTICATOR (replicate MD5_MAC_LEN 0) msg of
             Abort \<Rightarrow> Abort
           | Done (None, msg) \<Rightarrow> Done (-1, msg)
           | Done (Some attr, msg) \<Rightarrow> finish (put_hmac secret attr (hdr_set_length msg))))"

definition response_auth :: "bytes \<Rightarrow> bytes \<Rightarrow> radius_msg \<Rightarrow> bytes" where
  "response_auth secret req_authenticator msg =
     md5_vector [take 4 (radius_octets msg), req_authenticator, drop 20 (radius_octets msg), secret]"

definition radius_msg_finish_srv :: "os_alloc \<Rightarrow> bytes \<Rightarrow> bytes \<Rightarrow> radius_msg \<Rightarrow> (int \<times> radius_msg) outcome" where
  "radius_msg_finish_srv os_alloc secret req_authenticator msg =
     (case radius_msg_add_attr os_alloc RADIUS_ATTR_MESSAGE_AUTHENTICATOR (replicate MD5_MAC_LEN 0) msg of
        Abort \<Rightarrow> Abort
      | Done (None, msg) \<Rightarrow> Done (-1, msg)
      | Done (Some attr, msg) \<Rightarrow>
          let msg = hdr_set_length msg;
              msg = radius_write 4 req_authenticator msg;
              msg = put_hmac secret attr msg;
              msg = radius_write 4 (response_auth secret req_authenticator msg) msg
          in Done (if too_long msg then -1 else 0, msg))"

definition radius_msg_finish_acct :: "bytes \<Rightarrow> radius_msg \<Rightarrow> radius_msg" where
  "radius_msg_finish_acct secret msg =
     (let msg = hdr_set_length msg;
          msg = radius_write 4 (replicate MD5_MAC_LEN 0) msg
      in radius_write 4 (md5_vector [radius_octets msg, secret]) msg)"

text \<open>The value of the only Message-Authenticator is taken out, computed again and put back.  The code copies sixteen octets
  whatever the length of the attribute is.\<close>

definition radius_msg_verify_msg_auth :: "bytes \<Rightarrow> bytes option \<Rightarrow> radius_msg \<Rightarrow> (int \<times> radius_msg) outcome" where
  "radius_msg_verify_msg_auth secret req_auth msg =
     (case filter (\<lambda>p. attr_type msg p = RADIUS_ATTR_MESSAGE_AUTHENTICATOR) (attr_pos msg) of
        [attr] \<Rightarrow>
          if attr + 2 + MD5_MAC_LEN > length (wb_area (rm_buf msg)) then Abort
          else
            let orig = take MD5_MAC_LEN (drop (attr + 2) (wb_area (rm_buf msg)));
                orig_authenticator = hdr_authenticator msg;
                msg = radius_write (attr + 2) (replicate MD5_MAC_LEN 0) msg;
                msg = (case req_auth of None \<Rightarrow> msg | Some a \<Rightarrow> radius_write 4 a msg) in
            (case hmac_md5 secret (radius_octets msg) of
               None \<Rightarrow> Abort
             | Some auth \<Rightarrow>
                 let msg = radius_write (attr + 2) orig msg;
                     msg = (case req_auth of None \<Rightarrow> msg | Some _ \<Rightarrow> radius_write 4 orig_authenticator msg)
                 in Done (if orig \<noteq> auth then 1 else 0, msg))
      | _ \<Rightarrow> Done (1, msg))"

definition radius_msg_verify :: "bytes \<Rightarrow> radius_msg option \<Rightarrow> bool \<Rightarrow> radius_msg \<Rightarrow> (int \<times> radius_msg) outcome" where
  "radius_msg_verify secret sent_msg auth msg =
     (case sent_msg of
        None \<Rightarrow> Done (1, msg)
      | Some sent_msg \<Rightarrow>
          (case (if auth then radius_msg_verify_msg_auth secret (Some (hdr_authenticator sent_msg)) msg else Done (0, msg)) of
             Abort \<Rightarrow> Abort
           | Done (res, msg) \<Rightarrow>
               if res \<noteq> 0 then Done (1, msg)
               else Done (if response_auth secret (hdr_authenticator sent_msg) msg \<noteq> hdr_authenticator msg then 1 else 0, msg)))"

text \<open>\<open>tv\<close> and \<open>l\<close> are the octets of the time and of the random number.\<close>

definition radius_msg_make_authenticator :: "bytes \<Rightarrow> bytes \<Rightarrow> bytes \<Rightarrow> radius_msg \<Rightarrow> radius_msg" where
  "radius_msg_make_authenticator tv l data msg = radius_write 4 (md5_vector [tv, data, l]) msg"

section \<open>Keys and passwords\<close>

text \<open>The sub-attributes of a vendor: the value of the first one with the type.\<close>

function vendor_attr_loop :: "u8 \<Rightarrow> bytes \<Rightarrow> bytes option" where
  "vendor_attr_loop subtype pos =
     (if length pos < 2 then None
      else if unat (pos ! 1) > length pos \<or> unat (pos ! 1) < 2 then None
      else if pos ! 0 \<noteq> subtype then vendor_attr_loop subtype (drop (unat (pos ! 1)) pos)
      else Some (take (unat (pos ! 1) - 2) (drop 2 pos)))"
  by auto
termination
  by (relation "measure (\<lambda>(s, pos). length pos)") auto

declare vendor_attr_loop.simps [simp del]

fun vendor_attrs :: "radius_msg \<Rightarrow> u32 \<Rightarrow> u8 \<Rightarrow> nat list \<Rightarrow> bytes option" where
  "vendor_attrs msg vendor subtype [] = None"
| "vendor_attrs msg vendor subtype (p # ps) =
     (if attr_type msg p \<noteq> RADIUS_ATTR_VENDOR_SPECIFIC then vendor_attrs msg vendor subtype ps
      else if attr_length msg p - 2 < 4 then vendor_attrs msg vendor subtype ps
      else if WPA_GET_BE32 (attr_data msg p) \<noteq> vendor then vendor_attrs msg vendor subtype ps
      else case vendor_attr_loop subtype (drop 4 (attr_data msg p)) of
        None \<Rightarrow> vendor_attrs msg vendor subtype ps
      | Some data \<Rightarrow> Some data)"

definition radius_msg_get_vendor_attr :: "(u32 \<Rightarrow> bool) \<Rightarrow> radius_msg \<Rightarrow> u32 \<Rightarrow> u8 \<Rightarrow> bytes option" where
  "radius_msg_get_vendor_attr os_malloc msg vendor subtype =
     (case vendor_attrs msg vendor subtype (attr_pos msg) of
        None \<Rightarrow> None
      | Some data \<Rightarrow> if os_malloc (word_of_nat (length data)) then Some data else None)"

text \<open>The chain of MD5 values that hides a key: \<open>b\<close> holds the fragments that are hashed after the secret, for the first block
  from the caller and then the preceding encrypted block.\<close>

function md5_chain_decrypt :: "bytes \<Rightarrow> bytes list \<Rightarrow> bytes \<Rightarrow> bytes" where
  "md5_chain_decrypt secret b pos =
     (if pos = [] then []
      else xor_octets (take MD5_MAC_LEN pos) (md5_vector (secret # b)) @
        md5_chain_decrypt secret [take MD5_MAC_LEN pos] (drop MD5_MAC_LEN pos))"
  by auto
termination
  by (relation "measure (\<lambda>(s, b, pos). length pos)") auto

function md5_chain_encrypt :: "bytes \<Rightarrow> bytes list \<Rightarrow> bytes \<Rightarrow> bytes" where
  "md5_chain_encrypt secret b pos =
     (if pos = [] then []
      else let c = xor_octets (take MD5_MAC_LEN pos) (md5_vector (secret # b))
           in c @ md5_chain_encrypt secret [c] (drop MD5_MAC_LEN pos))"
  by auto
termination
  by (relation "measure (\<lambda>(s, b, pos). length pos)") auto

declare md5_chain_decrypt.simps [simp del] md5_chain_encrypt.simps [simp del]

definition decrypt_ms_key :: "os_alloc \<Rightarrow> bytes \<Rightarrow> bytes \<Rightarrow> bytes \<Rightarrow> bytes option" where
  "decrypt_ms_key os_malloc key req_authenticator secret =
     (if length key < 2 + 16 then None
      else
        let pos = drop 2 key in
        if length pos mod 16 \<noteq> 0 then None
        else if \<not> os_malloc 0 (word_of_nat (length pos)) then None
        else
          let plain = md5_chain_decrypt secret [req_authenticator, take 2 key] pos in
          if plain ! 0 = 0 \<or> unat (plain ! 0) > length pos - 1 then None
          else if \<not> os_malloc 1 (ucast (plain ! 0)) then None
          else Some (take (unat (plain ! 0)) (drop 1 plain)))"

text \<open>\<open>ebuf\<close> is the block from the given pointer to its end; the result is the length that is returned in \<^verbatim>\<open>elen\<close> and the block.\<close>

definition encrypt_ms_key :: "bytes \<Rightarrow> u16 \<Rightarrow> bytes \<Rightarrow> bytes \<Rightarrow> bytes \<Rightarrow> (nat \<times> bytes) outcome" where
  "encrypt_ms_key key salt req_authenticator secret ebuf =
     (let len = 1 + length key;
          len = (if len AND 0x0f \<noteq> 0 then (len AND 0xf0) + 16 else len) in
      if len > length ebuf \<or> 1 + length key > length ebuf then Abort
      else
        let ebuf = overwrite 0 (replicate len 0) ebuf;
            ebuf = overwrite 0 [word_of_nat (length key)] ebuf;
            ebuf = overwrite 1 key ebuf
        in Done (len, overwrite 0 (md5_chain_encrypt secret [req_authenticator, WPA_PUT_BE16 salt] (take len ebuf)) ebuf))"

record radius_ms_mppe_keys =
  mk_send :: "bytes option"
  mk_recv :: "bytes option"

definition radius_msg_get_ms_keys :: "os_alloc \<Rightarrow> radius_msg \<Rightarrow> radius_msg option \<Rightarrow> bytes \<Rightarrow> radius_ms_mppe_keys option" where
  "radius_msg_get_ms_keys os_malloc msg sent_msg secret =
     (case sent_msg of
        None \<Rightarrow> None
      | Some sent_msg \<Rightarrow>
          if \<not> os_malloc 0 16 then None
          else
            let decrypt = (\<lambda>n k. case k of None \<Rightarrow> None
                  | Some key \<Rightarrow> decrypt_ms_key (\<lambda>i. os_malloc (n + i)) key (hdr_authenticator sent_msg) secret)
            in Some
              \<lparr>mk_send = decrypt 2 (radius_msg_get_vendor_attr (os_malloc 1) msg RADIUS_VENDOR_ID_MICROSOFT
                           RADIUS_VENDOR_ATTR_MS_MPPE_SEND_KEY),
               mk_recv = decrypt 5 (radius_msg_get_vendor_attr (os_malloc 4) msg RADIUS_VENDOR_ID_MICROSOFT
                           RADIUS_VENDOR_ATTR_MS_MPPE_RECV_KEY)\<rparr>)"

definition leap_session_key :: bytes where
  "leap_session_key = map (\<lambda>c. of_char c) ''leap:session-key=''"

definition radius_msg_get_cisco_keys :: "os_alloc \<Rightarrow> radius_msg \<Rightarrow> radius_msg option \<Rightarrow> bytes \<Rightarrow> radius_ms_mppe_keys option" where
  "radius_msg_get_cisco_keys os_malloc msg sent_msg secret =
     (case sent_msg of
        None \<Rightarrow> None
      | Some sent_msg \<Rightarrow>
          if \<not> os_malloc 0 16 then None
          else Some
            \<lparr>mk_send = None,
             mk_recv =
               (case radius_msg_get_vendor_attr (os_malloc 1) msg RADIUS_VENDOR_ID_CISCO RADIUS_CISCO_AV_PAIR of
                  None \<Rightarrow> None
                | Some key \<Rightarrow>
                    if length key = 51 \<and> take 17 key = leap_session_key
                    then decrypt_ms_key (\<lambda>i. os_malloc (2 + i)) (drop 17 key) (hdr_authenticator sent_msg) secret
                    else None)\<rparr>)"

text \<open>One of the two attributes, in a block of \<open>bsize\<close> octets; all octets of the block that are read have been written.\<close>

definition add_mppe_key ::
  "os_alloc \<Rightarrow> u8 \<Rightarrow> nat \<Rightarrow> u16 \<Rightarrow> bytes \<Rightarrow> bytes \<Rightarrow> bytes \<Rightarrow> radius_msg \<Rightarrow> (bool \<times> radius_msg) outcome" where
  "add_mppe_key os_alloc vendor_type bsize salt req_authenticator secret key msg =
     (let hlen = 4 + 2 + 2 in
      if \<not> os_alloc 0 (word_of_nat bsize) then Done (False, msg)
      else case encrypt_ms_key key salt req_authenticator secret (replicate (bsize - hlen) 0) of
        Abort \<Rightarrow> Abort
      | Done (elen, ebuf) \<Rightarrow>
          let buf = WPA_PUT_BE32 RADIUS_VENDOR_ID_MICROSOFT @ [vendor_type, word_of_nat (hlen + elen - 4)] @
                    WPA_PUT_BE16 salt @ ebuf in
          (case radius_msg_add_attr (\<lambda>k. os_alloc (k + 1)) RADIUS_ATTR_VENDOR_SPECIFIC (take (hlen + elen) buf) msg of
             Abort \<Rightarrow> Abort
           | Done (attr, msg) \<Rightarrow> Done (attr \<noteq> None, msg)))"

text \<open>Both blocks are allocated with the length of the send key.\<close>

definition radius_msg_add_mppe_keys ::
  "os_alloc \<Rightarrow> u16 \<Rightarrow> bytes \<Rightarrow> bytes \<Rightarrow> bytes \<Rightarrow> bytes \<Rightarrow> radius_msg \<Rightarrow> (bool \<times> radius_msg) outcome" where
  "radius_msg_add_mppe_keys os_alloc random req_authenticator secret send_key recv_key msg =
     (let hlen = 4 + 2 + 2; salt = random OR 0x8000 in
      case add_mppe_key os_alloc RADIUS_VENDOR_ATTR_MS_MPPE_SEND_KEY (hlen + length send_key + 16) salt
             req_authenticator secret send_key msg of
        Abort \<Rightarrow> Abort
      | Done (False, msg) \<Rightarrow> Done (False, msg)
      | Done (True, msg) \<Rightarrow>
          add_mppe_key (\<lambda>k. os_alloc (k + 3)) RADIUS_VENDOR_ATTR_MS_MPPE_RECV_KEY (hlen + length send_key + 16) (salt XOR 1)
            req_authenticator secret recv_key msg)"

definition radius_msg_add_attr_user_password ::
  "os_alloc \<Rightarrow> radius_msg \<Rightarrow> bytes \<Rightarrow> bytes \<Rightarrow> (nat option \<times> radius_msg) outcome" where
  "radius_msg_add_attr_user_password os_alloc msg data secret =
     (if length data > 128 then Done (None, msg)
      else
        let padlen = length data mod 16;
            buf = data @ (if padlen \<noteq> 0 then replicate (16 - padlen) 0 else [])
        in radius_msg_add_attr os_alloc RADIUS_ATTR_USER_PASSWORD (md5_chain_encrypt secret [hdr_authenticator msg] buf) msg)"

section \<open>VLAN and Class attributes\<close>

record radius_tunnel_attrs =
  tag_used :: nat
  tun_type :: u32
  tun_medium_type :: u32
  tun_vlanid :: int

definition tunnel_zero :: radius_tunnel_attrs where
  "tunnel_zero = \<lparr>tag_used = 0, tun_type = 0, tun_medium_type = 0, tun_vlanid = 0\<rparr>"

text \<open>\<^verbatim>\<open>atoi\<close> of a string of at most nine octets, so that the number fits an \<^verbatim>\<open>int\<close>.\<close>

definition atoi_digits :: "bytes \<Rightarrow> int" where
  "atoi_digits s = foldl (\<lambda>n c. 10 * n + (uint c - 48)) 0 (takeWhile (\<lambda>c. 48 \<le> c \<and> c \<le> 57) s)"

definition atoi :: "bytes \<Rightarrow> int" where
  "atoi s =
     (let s = dropWhile (\<lambda>c. c = 32 \<or> 9 \<le> c \<and> c \<le> 13) s in
      if s \<noteq> [] \<and> hd s = 45 then - atoi_digits (tl s)
      else if s \<noteq> [] \<and> hd s = 43 then atoi_digits (tl s)
      else atoi_digits s)"

definition tunnel_attr :: "radius_msg \<Rightarrow> radius_tunnel_attrs list \<Rightarrow> nat \<Rightarrow> radius_tunnel_attrs list" where
  "tunnel_attr msg tunnel p =
     (let data = attr_data msg p; len = attr_length msg p in
      if len < 3 then tunnel
      else
        let tag = unat (data ! 0);
            t = (if tag \<ge> RADIUS_TUNNEL_TAGS then 0 else tag);
            tun = tunnel ! t in
        if attr_type msg p = RADIUS_ATTR_TUNNEL_TYPE then
          if len \<noteq> 6 then tunnel
          else tunnel[t := tun\<lparr>tag_used := tag_used tun + 1, tun_type := WPA_GET_BE24 (drop 1 data)\<rparr>]
        else if attr_type msg p = RADIUS_ATTR_TUNNEL_MEDIUM_TYPE then
          if len \<noteq> 6 then tunnel
          else tunnel[t := tun\<lparr>tag_used := tag_used tun + 1, tun_medium_type := WPA_GET_BE24 (drop 1 data)\<rparr>]
        else if attr_type msg p = RADIUS_ATTR_TUNNEL_PRIVATE_GROUP_ID then
          let data = (if tag < RADIUS_TUNNEL_TAGS then drop 1 data else data) in
          if length data \<ge> 10 then tunnel
          else tunnel[t := tun\<lparr>tag_used := tag_used tun + 1, tun_vlanid := atoi data\<rparr>]
        else tunnel)"

definition radius_msg_get_vlanid :: "radius_msg \<Rightarrow> int" where
  "radius_msg_get_vlanid msg =
     (case find (\<lambda>tun. tag_used tun \<noteq> 0 \<and> tun_type tun = RADIUS_TUNNEL_TYPE_VLAN \<and>
                  tun_medium_type tun = RADIUS_TUNNEL_MEDIUM_TYPE_802 \<and> tun_vlanid tun > 0)
             (foldl (tunnel_attr msg) (replicate RADIUS_TUNNEL_TAGS tunnel_zero) (attr_pos msg)) of
        None \<Rightarrow> -1
      | Some tun \<Rightarrow> tun_vlanid tun)"

text \<open>The values of the Class attributes of a station; none is a null pointer.\<close>

type_synonym radius_class_data = "bytes list option"

definition radius_free_class :: "radius_class_data \<Rightarrow> radius_class_data" where
  "radius_free_class c = None"

definition radius_copy_class :: "os_alloc \<Rightarrow> radius_class_data \<Rightarrow> radius_class_data \<Rightarrow> int \<times> radius_class_data" where
  "radius_copy_class os_alloc dst src =
     (case src of
        None \<Rightarrow> (0, dst)
      | Some attrs \<Rightarrow>
          if \<not> os_alloc 0 (word_of_nat (length attrs * 8)) then (-1, None)
          else (0, Some (map snd (takeWhile (\<lambda>(i, d). os_alloc (Suc i) (word_of_nat (length d))) (enumerate 0 attrs)))))"

end
