(* ===== verification/Radius_Rep.thy ===== *)
theory Radius_Rep
  imports Radius
begin

text \<open>
  What a RADIUS message holds: a header of 20 octets and a list of attributes, each a type and a value.  The operations of
  \<^verbatim>\<open>src/radius/radius.c\<close> act on these.
\<close>

section \<open>The attributes of a message\<close>

definition attr_octets :: "u8 \<times> bytes \<Rightarrow> bytes" where
  "attr_octets a = fst a # word_of_nat (2 + length (snd a)) # snd a"

abbreviation attrs_octets :: "(u8 \<times> bytes) list \<Rightarrow> bytes" where "attrs_octets as \<equiv> concat (map attr_octets as)"

fun attr_offsets :: "nat \<Rightarrow> (u8 \<times> bytes) list \<Rightarrow> nat list" where
  "attr_offsets p [] = []"
| "attr_offsets p (a # as) = p # attr_offsets (p + length (attr_octets a)) as"

text \<open>The buffer holds the attributes \<open>as\<close>; the array of positions may lack some of them, as after a failed allocation.\<close>

definition radius_rep :: "radius_msg \<Rightarrow> bytes \<Rightarrow> (u8 \<times> bytes) list \<Rightarrow> bool" where
  "radius_rep msg hdr as \<longleftrightarrow>
     wpabuf_wf (rm_buf msg) \<and> length hdr = 20 \<and> radius_octets msg = hdr @ attrs_octets as \<and>
     (\<forall>a\<in>set as. length (snd a) \<le> RADIUS_MAX_ATTR_LEN) \<and> subseq (attr_pos msg) (attr_offsets 20 as) \<and>
     length (attr_pos msg) \<le> attr_size msg \<and> 0 < attr_size msg"

text \<open>All attributes are in the array.\<close>

definition radius_holds :: "radius_msg \<Rightarrow> bytes \<Rightarrow> (u8 \<times> bytes) list \<Rightarrow> bool" where
  "radius_holds msg hdr as \<longleftrightarrow> radius_rep msg hdr as \<and> attr_pos msg = attr_offsets 20 as"

lemma length_attr_octets [simp]: "length (attr_octets a) = 2 + length (snd a)"
  by (simp add: attr_octets_def)

lemma attr_offsets_append:
  "attr_offsets p (as @ bs) = attr_offsets p as @ attr_offsets (p + length (attrs_octets as)) bs"
  by (induction as arbitrary: p) (simp_all add: add.assoc)

lemma area_octets:
  assumes "wpabuf_wf buf"
  shows "wb_area buf = wpabuf_contents buf @ drop (unat (wb_used buf)) (wb_area buf)"
  by (simp add: wpabuf_contents_def)

lemma unat_octet_of: "m < 256 \<Longrightarrow> unat (word_of_nat m :: u8) = m"
  by (simp add: unat_of_nat)

text \<open>Reading at the position of an attribute gives its fields.\<close>

lemma attr_fields:
  assumes "radius_rep msg hdr (as @ a # bs)"
  defines "p \<equiv> 20 + length (attrs_octets as)"
  shows "attr_type msg p = fst a" "attr_length msg p = 2 + length (snd a)" "attr_data msg p = snd a"
proof -
  have w: "wpabuf_wf (rm_buf msg)" using assms(1) by (simp add: radius_rep_def)
  have ar: "wb_area (rm_buf msg) = (hdr @ attrs_octets as) @ attr_octets a @ attrs_octets bs @ drop (unat (wb_used (rm_buf msg))) (wb_area (rm_buf msg))"
    using area_octets [OF w] assms(1) by (simp add: radius_rep_def)
  have l: "length (hdr @ attrs_octets as) = p" using assms(1) by (simp add: radius_rep_def p_def)
  have n: "unat (word_of_nat (2 + length (snd a)) :: u8) = 2 + length (snd a)"
    by (rule unat_octet_of) (use assms(1) in \<open>simp add: radius_rep_def\<close>)
  have d: "drop p (wb_area (rm_buf msg)) = attr_octets a @ attrs_octets bs @ drop (unat (wb_used (rm_buf msg))) (wb_area (rm_buf msg))"
    by (subst ar) (simp flip: l)
  have le: "p + 2 \<le> length (wb_area (rm_buf msg))" by (subst ar) (use l in simp)
  have i: "wb_area (rm_buf msg) ! (p + k) = drop p (wb_area (rm_buf msg)) ! k" if "k < 2" for k using le that by simp
  show "attr_type msg p = fst a" using i [of 0] by (simp add: attr_type_def d attr_octets_def)
  show len: "attr_length msg p = 2 + length (snd a)" using i [of 1] n by (simp add: attr_length_def d attr_octets_def)
  have "drop (p + 2) (wb_area (rm_buf msg)) = drop 2 (drop p (wb_area (rm_buf msg)))" by (simp add: add.commute)
  then show "attr_data msg p = snd a" unfolding attr_data_def len by (simp add: d attr_octets_def)
qed

definition radius_attrs :: "radius_msg \<Rightarrow> (u8 \<times> bytes) list" where
  "radius_attrs msg = map (\<lambda>p. (attr_type msg p, attr_data msg p)) (attr_pos msg)"

lemma offset_attr:
  assumes "p \<in> set (attr_offsets q as)"
  shows "\<exists>bs a cs. as = bs @ a # cs \<and> p = q + length (attrs_octets bs)"
  using assms
proof (induction as arbitrary: q)
  case (Cons a as)
  show ?case
  proof (cases "p = q")
    case True
    then have "a # as = [] @ a # as \<and> p = q + length (attrs_octets [])" by simp
    then show ?thesis by blast
  next
    case False
    then have "p \<in> set (attr_offsets (q + length (attr_octets a)) as)" using Cons.prems by simp
    then obtain bs c cs where "as = bs @ c # cs" "p = q + length (attr_octets a) + length (attrs_octets bs)"
      using Cons.IH by blast
    then have "a # as = (a # bs) @ c # cs \<and> p = q + length (attrs_octets (a # bs))" by simp
    then show ?thesis by blast
  qed
qed simp

lemma rep_attr:
  assumes "radius_rep msg hdr as" "p \<in> set (attr_pos msg)"
  shows "\<exists>bs a cs. as = bs @ a # cs \<and> p = 20 + length (attrs_octets bs) \<and> attr_type msg p = fst a \<and> attr_length msg p = 2 + length (snd a) \<and> attr_data msg p = snd a"
proof -
  have "p \<in> set (attr_offsets 20 as)" using assms by (auto simp: radius_rep_def elim: list_emb_set)
  then obtain bs a cs where a: "as = bs @ a # cs" "p = 20 + length (attrs_octets bs)" using offset_attr by blast
  then show ?thesis using attr_fields [of msg hdr bs a cs] assms(1) by blast
qed

lemma holds_attrs: "radius_holds msg hdr as \<Longrightarrow> radius_attrs msg = as"
proof -
  assume h: "radius_holds msg hdr as"
  then have r: "radius_rep msg hdr as" by (simp add: radius_holds_def)
  have "map (\<lambda>p. (attr_type msg p, attr_data msg p)) (attr_offsets (20 + length (attrs_octets bs)) cs) = cs" if "as = bs @ cs" for bs cs
    using that
  proof (induction cs arbitrary: bs)
    case (Cons c cs)
    show ?case using attr_fields [of msg hdr bs c cs] r Cons.IH [of "bs @ [c]"] Cons.prems by (simp add: add.assoc)
  qed simp
  from this [of "[]" as] show ?thesis using h by (simp add: radius_attrs_def radius_holds_def)
qed

text \<open>The fields of the header.\<close>

lemma hdr_fields:
  assumes "radius_rep msg hdr as"
  shows "hdr_code msg = hdr ! 0" "hdr_identifier msg = hdr ! 1" "hdr_authenticator msg = drop 4 hdr"
proof -
  have w: "wpabuf_wf (rm_buf msg)" and l: "length hdr = 20" using assms by (simp_all add: radius_rep_def)
  have ar: "wb_area (rm_buf msg) = hdr @ attrs_octets as @ drop (unat (wb_used (rm_buf msg))) (wb_area (rm_buf msg))"
    using area_octets [OF w] assms by (simp add: radius_rep_def)
  show "hdr_code msg = hdr ! 0" "hdr_identifier msg = hdr ! 1" "hdr_authenticator msg = drop 4 hdr"
    unfolding hdr_code_def hdr_identifier_def hdr_authenticator_def
    by (subst ar; simp add: nth_append l)+
qed

section \<open>Writing\<close>

lemma overwrite_append1: "off + length d \<le> length xs \<Longrightarrow> overwrite off d (xs @ ys) = overwrite off d xs @ ys"
  by (simp add: overwrite_def)

lemma write_octets:
  assumes "wpabuf_wf (rm_buf msg)" "off + length d \<le> length (radius_octets msg)"
  shows "radius_octets (radius_write off d msg) = overwrite off d (radius_octets msg)" "wpabuf_wf (rm_buf (radius_write off d msg))"
proof -
  have l: "length (radius_octets msg) = unat (wb_used (rm_buf msg))" using assms(1) by simp
  have "overwrite off d (wb_area (rm_buf msg)) = overwrite off d (radius_octets msg) @ drop (unat (wb_used (rm_buf msg))) (wb_area (rm_buf msg))"
    by (subst area_octets [OF assms(1)]) (rule overwrite_append1 [OF assms(2)])
  then show "radius_octets (radius_write off d msg) = overwrite off d (radius_octets msg)"
    using l assms(2) by (simp add: radius_write_def wpabuf_contents_def)
  have "length (radius_octets msg) \<le> length (wb_area (rm_buf msg))" by (simp add: wpabuf_contents_def)
  then show "wpabuf_wf (rm_buf (radius_write off d msg))"
    using assms by (simp add: radius_write_def wpabuf_wf_def)
qed

lemma write_fields [simp]:
  "attr_pos (radius_write off d msg) = attr_pos msg" "attr_size (radius_write off d msg) = attr_size msg"
  "wb_used (rm_buf (radius_write off d msg)) = wb_used (rm_buf msg)" "wb_size (rm_buf (radius_write off d msg)) = wb_size (rm_buf msg)"
  by (simp_all add: radius_write_def)

lemma write_hdr:
  assumes "radius_rep msg hdr as" "off + length d \<le> 20"
  shows "radius_rep (radius_write off d msg) (overwrite off d hdr) as"
proof -
  have l: "length hdr = 20" using assms(1) by (simp add: radius_rep_def)
  then have "off + length d \<le> length (radius_octets msg)" using assms by (simp add: radius_rep_def)
  note w = write_octets [OF _ this]
  show ?thesis using assms l w overwrite_append1 [of off d hdr "attrs_octets as"] by (simp add: radius_rep_def)
qed

lemma holds_write_hdr:
  "radius_holds msg hdr as \<Longrightarrow> off + length d \<le> 20 \<Longrightarrow> radius_holds (radius_write off d msg) (overwrite off d hdr) as"
  by (simp add: radius_holds_def write_hdr)

text \<open>Another value of the same length for an attribute.\<close>

lemma offsets_same_length: "length d = length d' \<Longrightarrow> attr_offsets p (as @ (t, d) # bs) = attr_offsets p (as @ (t, d') # bs)"
  by (induction as arbitrary: p) simp_all

lemma write_attr:
  assumes "radius_rep msg hdr (as @ (t, d) # bs)" "length d' = length d" "p = 22 + length (attrs_octets as)"
  shows "radius_rep (radius_write p d' msg) hdr (as @ (t, d') # bs)"
proof -
  have l: "length hdr = 20" "radius_octets msg = hdr @ attrs_octets (as @ (t, d) # bs)" using assms(1) by (simp_all add: radius_rep_def)
  have "p + length d' \<le> length (radius_octets msg)" unfolding l(2) using l(1) assms(2,3) by simp
  note w = write_octets [OF _ this]
  have "overwrite p d' (radius_octets msg) = hdr @ attrs_octets (as @ (t, d') # bs)"
    unfolding l(2) overwrite_def using l(1) assms(2,3) by (simp add: attr_octets_def)
  then show ?thesis using assms w offsets_same_length [OF assms(2), of 20 as t bs] by (simp add: radius_rep_def)
qed

end
