(* ===== verification/Radius_Ops.thy ===== *)
theory Radius_Ops
  imports Radius_Rep
begin

text \<open>
  Building and parsing RADIUS messages: how the operations of \<^verbatim>\<open>src/radius/radius.c\<close> change the header and the attributes that a message
  holds, and what the parser makes of received octets.
\<close>

section \<open>Building\<close>

lemma holds_rep: "radius_holds msg hdr as \<Longrightarrow> radius_rep msg hdr as"
  by (simp add: radius_holds_def)

lemma rep_length: "radius_rep msg hdr as \<Longrightarrow> unat (wb_used (rm_buf msg)) = 20 + length (attrs_octets as)"
  using length_wpabuf_contents [of "rm_buf msg"] by (simp add: radius_rep_def)

lemma new_holds:
  assumes "\<And>k n. al k n"
  shows "\<exists>msg. radius_msg_new al code idn = Done (Some msg) \<and> radius_holds msg ([code, idn] @ replicate 18 0) []"
proof -
  have "overwrite (Suc 0) [idn] (overwrite 0 [code] (replicate 1024 0)) = [code, idn] @ replicate 1022 0"
    by (simp add: overwrite_def numeral_eq_Suc)
  then show ?thesis
    by (simp add: assms radius_msg_new_def wpabuf_alloc_def radius_msg_initialize_def wpabuf_put_def radius_msg_set_hdr_def
      radius_holds_def radius_rep_def radius_write_def wpabuf_wf_def wpabuf_contents_def)
qed

lemma new_cases: "\<exists>r. radius_msg_new al code idn = Done r \<and>
  (r = None \<or> (\<exists>msg. r = Some msg \<and> radius_holds msg ([code, idn] @ replicate 18 0) []))"
proof (cases "al 0 20 \<and> al 1 1024 \<and> al 2 64")
  case True
  then have "radius_msg_new al code idn = radius_msg_new (\<lambda>_ _. True) code idn"
    by (simp add: radius_msg_new_def wpabuf_alloc_def radius_msg_initialize_def)
  then show ?thesis using new_holds [where al = "\<lambda>_ _. True" and code = code and idn = idn] by auto
next
  case False
  then show ?thesis by (auto simp: radius_msg_new_def wpabuf_alloc_def radius_msg_initialize_def split: outcome.splits)
qed

lemma make_room:
  assumes "wpabuf_wf buf" "unat (wb_used buf) + 257 < 2 ^ 32" "n \<le> 253"
  defines "need \<equiv> 2 + word_of_nat n :: u32"
  shows "\<exists>res b. (if wpabuf_tailroom buf < need then wpabuf_resize al (Some buf) need else (0, Some buf)) = (res, Some b) \<and>
    wpabuf_wf b \<and> wpabuf_contents b = wpabuf_contents buf \<and> wb_used b = wb_used buf \<and>
    (\<not> res < 0 \<longrightarrow> unat (wb_used buf) + 2 + n \<le> unat (wb_size b)) \<and> ((\<forall>k. al k) \<longrightarrow> \<not> res < 0)"
proof -
  have n: "unat need = 2 + n" using assms(3) unfolding need_def by (simp add: unat_word_ariths unat_of_nat)
  have t: "unat (wpabuf_tailroom buf) = unat (wb_size buf) - unat (wb_used buf)"
    using assms(1) by (simp add: wpabuf_tailroom_def wpabuf_wf_def unat_sub)
  have le: "unat (wb_used buf) \<le> unat (wb_size buf)" using assms(1) by (simp add: wpabuf_wf_def word_le_nat_alt)
  show ?thesis
  proof (cases "wpabuf_tailroom buf < need")
    case False
    then show ?thesis using assms(1) n t le by (simp add: word_less_nat_alt)
  next
    case True
    obtain res b where r: "wpabuf_resize al (Some buf) need = (res, Some b)" "res = 0 \<or> res = -1 \<and> b = buf" "wb_used b = wb_used buf" "(\<forall>k. al k) \<longrightarrow> res = 0"
      by (cases "wb_used buf + need > wb_size buf"; cases "al (wb_used buf + need)") (auto simp: wpabuf_resize_def)
    show ?thesis
    proof (cases "res = 0")
      case True
      then have "wpabuf_wf b" "wpabuf_contents b = wpabuf_contents buf" "unat (wb_used b) + unat need \<le> unat (wb_size b)"
        using wpabuf_resize_room [OF assms(1), of al need b] r(1) assms(2,3) n by auto
      then show ?thesis using True \<open>wpabuf_tailroom buf < need\<close> r n by auto
    next
      case False
      then show ?thesis using \<open>wpabuf_tailroom buf < need\<close> r assms(1) by auto
    qed
  qed
qed

lemma put_fits2:
  assumes "wpabuf_wf b" "unat (wb_used b) + length d1 + length d2 \<le> unat (wb_size b)"
  shows "\<exists>b1 b2. wpabuf_put_data b d1 = Done b1 \<and> wpabuf_put_data b1 d2 = Done b2 \<and> wpabuf_wf b2 \<and> wpabuf_contents b2 = wpabuf_contents b @ d1 @ d2"
proof -
  obtain b1 where b1: "wpabuf_put_data b d1 = Done b1" "wpabuf_wf b1" "wpabuf_contents b1 = wpabuf_contents b @ d1" "unat (wb_size b1) = unat (wb_size b)"
    using wb.put_fits [OF assms(1), of d1] assms by auto
  then show ?thesis using wb.put_fits [OF b1(2), of d2] assms by auto
qed

lemma rep_add:
  assumes "radius_rep msg hdr as" "wpabuf_wf b" "wpabuf_contents b = radius_octets msg @ attr_octets (t, d)" "length d \<le> 253"
  shows "radius_rep (msg\<lparr>rm_buf := b\<rparr>) hdr (as @ [(t, d)])"
  using assms by (simp add: radius_rep_def attr_offsets_append list_emb_prefix)

lemma to_array_facts:
  assumes "radius_msg_add_attr_to_array al p msg = Some msg'" "length (attr_pos msg) \<le> attr_size msg" "0 < attr_size msg"
  shows "attr_pos msg' = attr_pos msg @ [p]" "length (attr_pos msg') \<le> attr_size msg'" "0 < attr_size msg'" "rm_buf msg' = rm_buf msg"
  using assms by (auto simp: radius_msg_add_attr_to_array_def Let_def Suc_le_eq split: if_split_asm)

lemma rep_index:
  assumes "radius_rep msg hdr (as @ [a])" "subseq (attr_pos msg) (attr_offsets 20 as)"
    "radius_msg_add_attr_to_array al (20 + length (attrs_octets as)) msg = Some msg'"
  shows "radius_rep msg' hdr (as @ [a])" "attr_pos msg' = attr_pos msg @ [20 + length (attrs_octets as)]"
proof -
  have "attr_pos msg' = attr_pos msg @ [20 + length (attrs_octets as)]" "length (attr_pos msg') \<le> attr_size msg'" "0 < attr_size msg'" "rm_buf msg' = rm_buf msg"
    using to_array_facts [OF assms(3)] assms(1) by (simp_all add: radius_rep_def)
  then show "radius_rep msg' hdr (as @ [a])" "attr_pos msg' = attr_pos msg @ [20 + length (attrs_octets as)]"
    using assms(1,2) list_emb_append_mono [OF assms(2), of "[20 + length (attrs_octets as)]" "[20 + length (attrs_octets as)]"]
    by (simp_all add: radius_rep_def attr_offsets_append)
qed

text \<open>Adding an attribute appends it, or fails for want of memory; after a failed enlargement of the array it is in the buffer but not in
  the array.\<close>

lemma add_attr_cases:
  assumes rep: "radius_rep msg hdr as" and nw: "unat (wb_used (rm_buf msg)) + 257 < 2 ^ 32"
  shows "\<exists>r msg'. radius_msg_add_attr al t d msg = Done (r, msg') \<and>
    (case r of
       Some p \<Rightarrow> length d \<le> 253 \<and> p = 20 + length (attrs_octets as) \<and> radius_rep msg' hdr (as @ [(t, d)]) \<and> attr_pos msg' = attr_pos msg @ [p]
     | None \<Rightarrow> radius_rep msg' hdr as \<or> radius_rep msg' hdr (as @ [(t, d)])) \<and>
    (length d \<le> 253 \<longrightarrow> (\<forall>k n. al k n) \<longrightarrow> r \<noteq> None)"
proof (cases "length d \<le> 253")
  case False
  then show ?thesis using rep by (simp add: radius_msg_add_attr_def)
next
  case True
  have w: "wpabuf_wf (rm_buf msg)" and u: "unat (wb_used (rm_buf msg)) = 20 + length (attrs_octets as)"
    using rep rep_length by (auto simp: radius_rep_def)
  obtain res b where b: "(if wpabuf_tailroom (rm_buf msg) < 2 + word_of_nat (length d) then wpabuf_resize (al 0) (Some (rm_buf msg)) (2 + word_of_nat (length d))
      else (0, Some (rm_buf msg))) = (res, Some b)" "wpabuf_wf b" "wpabuf_contents b = radius_octets msg" "wb_used b = wb_used (rm_buf msg)"
      "\<not> res < 0 \<Longrightarrow> unat (wb_used (rm_buf msg)) + 2 + length d \<le> unat (wb_size b)" "(\<forall>k. al 0 k) \<Longrightarrow> \<not> res < 0"
    using make_room [OF w nw True, of "al 0"] by blast
  show ?thesis
  proof (cases "res < 0")
    case True
    have "radius_rep (msg\<lparr>rm_buf := b\<rparr>) hdr as" using rep b(2,3) by (simp add: radius_rep_def)
    moreover have "radius_msg_add_attr al t d msg = Done (None, msg\<lparr>rm_buf := b\<rparr>)"
      using \<open>length d \<le> 253\<close> b(1) True by (simp add: radius_msg_add_attr_def Let_def)
    ultimately show ?thesis using b(6) True by auto
  next
    case False
    obtain b1 b2 where p: "wpabuf_put_data b [t, word_of_nat (2 + length d)] = Done b1" "wpabuf_put_data b1 d = Done b2" "wpabuf_wf b2"
        "wpabuf_contents b2 = radius_octets msg @ attr_octets (t, d)"
      using put_fits2 [OF b(2), of "[t, word_of_nat (2 + length d)]" d] b(3,4) b(5) [OF False] by (auto simp: attr_octets_def)
    let ?m = "msg\<lparr>rm_buf := b2\<rparr>"
    have e: "radius_msg_add_attr al t d msg = (case radius_msg_add_attr_to_array (al 1) (20 + length (attrs_octets as)) ?m of
        None \<Rightarrow> Done (None, ?m) | Some m \<Rightarrow> Done (Some (20 + length (attrs_octets as)), m))"
      unfolding radius_msg_add_attr_def Let_def b(1) using True False p(1,2) b(4) u by (simp cong: option.case_cong)
    have r: "radius_rep ?m hdr (as @ [(t, d)])" by (rule rep_add [OF rep p(3,4) True])
    have s: "subseq (attr_pos ?m) (attr_offsets 20 as)" using rep by (simp add: radius_rep_def)
    show ?thesis
    proof (cases "radius_msg_add_attr_to_array (al 1) (20 + length (attrs_octets as)) ?m")
      case None
      then have "\<not> (\<forall>k n. al k n)" by (auto simp: radius_msg_add_attr_to_array_def Let_def split: if_splits)
      then show ?thesis using e None r by simp
    next
      case (Some m)
      then show ?thesis using e rep_index [OF r s Some] True by simp
    qed
  qed
qed

section \<open>Parsing\<close>

lemma unat_u16: "unat (w :: u16) < 65536"
  by (rule order.strict_trans2 [OF unsigned_less]) simp

lemma alloc_copy_contents:
  assumes "length d < 2 ^ 32"
  shows "\<exists>r. wpabuf_alloc_copy al d = Done r \<and> (r = None \<longrightarrow> \<not> al (word_of_nat (length d))) \<and> (\<forall>buf. r = Some buf \<longrightarrow> wpabuf_wf buf \<and> wpabuf_contents buf = d \<and> wb_area buf = d)"
proof (cases "wpabuf_alloc al (word_of_nat (length d))")
  case None
  then show ?thesis by (auto simp: wpabuf_alloc_copy_def wpabuf_alloc_def split: if_splits)
next
  case (Some b)
  have "unat (word_of_nat (length d) :: u32) = length d" using assms by (simp add: unat_of_nat)
  then obtain b' where b': "wpabuf_put_data b d = Done b'" "wpabuf_wf b'" "wpabuf_contents b' = d" "unat (wb_size b') = length d"
    using wpabuf_alloc_wf [OF Some] wb.put_fits [of b d] by auto
  then have "wb_area b' = d" using length_wpabuf_contents [of b'] by (simp add: wpabuf_wf_def wpabuf_contents_def)
  then show ?thesis using Some b' by (simp add: wpabuf_alloc_copy_def)
qed

text \<open>The loop has passed the attributes \<open>as\<close> and is in front of \<open>rest\<close>.\<close>

definition parsing :: "radius_msg \<Rightarrow> bytes \<Rightarrow> (u8 \<times> bytes) list \<Rightarrow> bytes \<Rightarrow> bool" where
  "parsing msg hdr as rest \<longleftrightarrow>
     wpabuf_wf (rm_buf msg) \<and> length hdr = 20 \<and> radius_octets msg = hdr @ attrs_octets as @ rest \<and>
     (\<forall>a\<in>set as. length (snd a) \<le> RADIUS_MAX_ATTR_LEN) \<and> attr_pos msg = attr_offsets 20 as \<and>
     length (attr_pos msg) \<le> attr_size msg \<and> 0 < attr_size msg"

lemma parsing_done: "parsing msg hdr as [] = radius_holds msg hdr as"
  by (auto simp: parsing_def radius_holds_def radius_rep_def)

lemma parsing_next:
  assumes "parsing msg hdr as (attr_octets a @ rest)" "length (snd a) \<le> 253"
    "radius_msg_add_attr_to_array al (20 + length (attrs_octets as)) msg = Some msg'"
  shows "parsing msg' hdr (as @ [a]) rest"
proof -
  have "length (attr_pos msg) \<le> attr_size msg" "0 < attr_size msg" using assms(1) unfolding parsing_def by blast+
  note to_array_facts [OF assms(3) this]
  then show ?thesis using assms(1,2) by (simp add: parsing_def attr_offsets_append)
qed

lemma to_array_some: "(\<And>n. al n) \<Longrightarrow> radius_msg_add_attr_to_array al attr msg \<noteq> None"
  by (simp add: radius_msg_add_attr_to_array_def Let_def)

text \<open>What follows the position splits into an attribute and the rest, unless the code finds it malformed.\<close>

lemma split_attr:
  assumes "2 \<le> length rest" "unat (rest ! 1) \<le> length rest" "2 \<le> unat (rest ! 1)"
  defines "a \<equiv> (rest ! 0, take (unat (rest ! 1) - 2) (drop 2 rest))"
  shows "rest = attr_octets a @ drop (unat (rest ! 1)) rest" "length (attr_octets a) = unat (rest ! 1)" "length (snd a) \<le> 253"
proof -
  obtain x y r where r: "rest = x # y # r" using assms(1) by (cases rest; cases "tl rest") auto
  obtain n where n: "unat y = 2 + n" "n \<le> length r" using assms(2,3) r by (auto simp: le_iff_add)
  have y: "word_of_nat (2 + n) = y" using n(1) by (metis word_unat_eq_iff unat_u8_less unat_octet_of)
  have "n \<le> 253" using unat_u8_le [of y] n(1) by simp
  then show "rest = attr_octets a @ drop (unat (rest ! 1)) rest" "length (attr_octets a) = unat (rest ! 1)" "length (snd a) \<le> 253"
    unfolding a_def r attr_octets_def using n y by simp_all
qed

lemma attr_octets_at: "length (snd a) \<le> 253 \<Longrightarrow> unat ((attr_octets a @ r) ! 1) = length (attr_octets a)"
  using unat_octet_of [of "2 + length (snd a)"] by (simp add: attr_octets_def)

lemma parse_attrs_sound:
  assumes "parsing msg hdr as rest" "radius_parse_attrs al (20 + length (attrs_octets as)) msg = Some msg'"
  shows "(\<exists>bs. rest = attrs_octets bs \<and> radius_holds msg' hdr (as @ bs)) \<and> rm_buf msg' = rm_buf msg"
  using assms
proof (induction "length rest" arbitrary: al msg as rest rule: less_induct)
  case less
  let ?p = "20 + length (attrs_octets as)"
  have o: "radius_octets msg = (hdr @ attrs_octets as) @ rest" "length (hdr @ attrs_octets as) = ?p" using less.prems(1) by (simp_all add: parsing_def)
  have i: "radius_octets msg ! (?p + 1) = rest ! 1" "length (radius_octets msg) = ?p + length rest"
    unfolding o(1) nth_append using o(2) by simp_all
  show ?case
  proof (cases "rest = []")
    case True
    then have "msg' = msg" using less.prems(2) i(2) by (simp add: radius_parse_attrs.simps [of al ?p])
    then show ?thesis using less.prems(1) True parsing_done by (intro conjI exI [of _ "[]"]) simp_all
  next
    case False
    then have c: "2 \<le> length rest" "unat (rest ! 1) \<le> length rest" "2 \<le> unat (rest ! 1)"
      using less.prems(2) i by (auto simp: radius_parse_attrs.simps [of al ?p] Let_def split: if_splits)
    obtain m where m: "radius_msg_add_attr_to_array (al 0) ?p msg = Some m" "radius_parse_attrs (\<lambda>k. al (k + 1)) (?p + unat (rest ! 1)) m = Some msg'"
      using less.prems(2) i c False by (auto simp: radius_parse_attrs.simps [of al ?p] Let_def split: option.splits)
    define a where "a = (rest ! 0, take (unat (rest ! 1) - 2) (drop 2 rest))"
    note s = split_attr [OF c, folded a_def]
    have n: "parsing m hdr (as @ [a]) (drop (unat (rest ! 1)) rest)" using parsing_next [OF _ s(3) m(1)] s(1) less.prems(1) by simp
    have "length (drop (unat (rest ! 1)) rest) < length rest" using c by simp
    moreover have "radius_parse_attrs (\<lambda>k. al (k + 1)) (20 + length (attrs_octets (as @ [a]))) m = Some msg'" using m(2) s(2) by (simp add: add.assoc)
    ultimately obtain bs where "drop (unat (rest ! 1)) rest = attrs_octets bs" "radius_holds msg' hdr ((as @ [a]) @ bs)" "rm_buf msg' = rm_buf m"
      using less.hyps n by blast
    then show ?thesis using s(1) add_to_array_buf [OF m(1)] by (intro conjI exI [of _ "a # bs"]) simp_all
  qed
qed

lemma parse_attrs_complete:
  assumes "parsing msg hdr as (attrs_octets bs)" "\<And>k n. al k n" "\<forall>a\<in>set bs. length (snd a) \<le> 253"
  shows "\<exists>msg'. radius_parse_attrs al (20 + length (attrs_octets as)) msg = Some msg' \<and> radius_holds msg' hdr (as @ bs)"
  using assms
proof (induction bs arbitrary: al msg as)
  case Nil
  then have "length (radius_octets msg) = 20 + length (attrs_octets as)" by (simp add: parsing_def)
  then have "radius_parse_attrs al (20 + length (attrs_octets as)) msg = Some msg" by (simp add: radius_parse_attrs.simps [of al])
  then show ?case using Nil(1) parsing_done by simp
next
  case (Cons a bs)
  let ?p = "20 + length (attrs_octets as)"
  have o: "radius_octets msg = (hdr @ attrs_octets as) @ attr_octets a @ attrs_octets bs" "length (hdr @ attrs_octets as) = ?p"
    using Cons.prems(1) by (simp_all add: parsing_def)
  have i: "unat (radius_octets msg ! (?p + 1)) = length (attr_octets a)" "length (radius_octets msg) = ?p + length (attr_octets a) + length (attrs_octets bs)"
    unfolding o(1) using o(2) attr_octets_at [of a "attrs_octets bs"] Cons.prems(3) nth_append_length_plus [of "hdr @ attrs_octets as" _ 1]
    by (simp_all del: append_assoc)
  obtain m where m: "radius_msg_add_attr_to_array (al 0) ?p msg = Some m" using to_array_some Cons.prems(2) by blast
  have "parsing m hdr (as @ [a]) (attrs_octets bs)" by (rule parsing_next [OF _ _ m]) (use Cons.prems in simp_all)
  then have "\<exists>msg'. radius_parse_attrs (\<lambda>k. al (k + 1)) (20 + length (attrs_octets (as @ [a]))) m = Some msg' \<and> radius_holds msg' hdr ((as @ [a]) @ bs)"
    by (rule Cons.IH) (use Cons.prems(2,3) in simp_all)
  moreover have "20 + length (attrs_octets (as @ [a])) = ?p + length (attr_octets a)" by simp
  moreover have "radius_parse_attrs al ?p msg = radius_parse_attrs (\<lambda>k. al (k + 1)) (?p + length (attr_octets a)) m"
    unfolding radius_parse_attrs.simps [of al ?p] Let_def i using m by simp
  ultimately show ?case by (simp only: append_assoc append.simps)
qed

lemma parse_returns:
  "\<exists>r. radius_msg_parse al data = Done r \<and>
    (\<forall>msg. r = Some msg \<longrightarrow> (\<exists>as. radius_holds msg (take 20 data) as \<and> 20 \<le> length data \<and>
      unat (WPA_GET_BE16 (drop 2 data)) \<le> length data \<and> take (unat (WPA_GET_BE16 (drop 2 data))) data = take 20 data @ attrs_octets as \<and>
      wb_area (rm_buf msg) = radius_octets msg))"
proof -
  define n where "n = unat (WPA_GET_BE16 (drop 2 data))"
  show ?thesis
  proof (cases "20 \<le> length data \<and> 20 \<le> n \<and> n \<le> length data \<and> al 0 20")
    case False
    then have "radius_msg_parse al data = Done None" by (auto simp: radius_msg_parse_def Let_def n_def)
    then show ?thesis by simp
  next
    case True
    have l: "length (take n data) < 2 ^ 32" using unat_u16 [of "WPA_GET_BE16 (drop 2 data)"] True by (simp add: n_def)
    obtain b where b: "wpabuf_alloc_copy (al 1) (take n data) = Done b" "\<And>buf. b = Some buf \<Longrightarrow> wpabuf_wf buf \<and> wpabuf_contents buf = take n data \<and> wb_area buf = take n data"
      using alloc_copy_contents [OF l] by blast
    have e: "radius_msg_parse al data = Done (case b of None \<Rightarrow> None | Some buf \<Rightarrow>
        (case radius_msg_initialize (al 2) buf of None \<Rightarrow> None | Some msg \<Rightarrow> radius_parse_attrs (\<lambda>k. al (k + 3)) 20 msg))"
      using True b(1) by (auto simp: radius_msg_parse_def Let_def split: option.splits simp flip: n_def)
    show ?thesis
    proof (cases "b = None \<or> \<not> al 2 64")
      case True
      then have "radius_msg_parse al data = Done None" using e by (auto simp: radius_msg_initialize_def split: option.splits)
      then show ?thesis by simp
    next
      case False
      then obtain buf where buf: "b = Some buf" "wpabuf_wf buf" "wpabuf_contents buf = take n data" "wb_area buf = take n data" using b(2) by auto
      let ?m = "\<lparr>rm_buf = buf, attr_pos = [], attr_size = 16\<rparr>"
      have t: "take n data = take 20 data @ drop 20 (take n data)" using True by (metis append_take_drop_id min.absorb1 take_take)
      then have p: "parsing ?m (take 20 data) [] (drop 20 (take n data))" using buf True by (simp add: parsing_def)
      have "radius_msg_parse al data = Done (radius_parse_attrs (\<lambda>k. al (k + 3)) 20 ?m)" using e buf(1) False by (simp add: radius_msg_initialize_def)
      moreover have "\<exists>as. radius_holds msg (take 20 data) as \<and> take n data = take 20 data @ attrs_octets as \<and> rm_buf msg = buf"
        if q: "radius_parse_attrs (\<lambda>k. al (k + 3)) 20 ?m = Some msg" for msg
      proof -
        obtain bs where bs: "drop 20 (take n data) = attrs_octets bs" "radius_holds msg (take 20 data) bs" "rm_buf msg = buf"
          using parse_attrs_sound [OF p, of "\<lambda>k. al (k + 3)" msg] q by auto
        from t show ?thesis unfolding bs(1) using bs(2,3) by blast
      qed
      ultimately show ?thesis using buf(3,4) True unfolding n_def [symmetric] by auto blast
    qed
  qed
qed

lemma parse_complete:
  assumes "length hdr = 20" "unat (WPA_GET_BE16 (drop 2 hdr)) = 20 + length (attrs_octets as)" "\<And>k n. al k n"
    "\<forall>a\<in>set as. length (snd a) \<le> 253"
  shows "\<exists>msg. radius_msg_parse al (hdr @ attrs_octets as @ extra) = Done (Some msg) \<and> radius_holds msg hdr as"
proof -
  let ?d = "hdr @ attrs_octets as"
  have g: "WPA_GET_BE16 (drop 2 (hdr @ x)) = WPA_GET_BE16 (drop 2 hdr)" for x using assms(1) by (simp add: WPA_GET_BE16_def nth_append)
  have l: "length ?d < 2 ^ 32" using unat_u16 [of "WPA_GET_BE16 (drop 2 hdr)"] assms(1,2) by simp
  obtain buf where b: "wpabuf_alloc_copy (al 1) ?d = Done (Some buf)" "wpabuf_wf buf" "wpabuf_contents buf = ?d"
    using alloc_copy_contents [OF l, of "al 1"] assms(3) by auto
  let ?m = "\<lparr>rm_buf = buf, attr_pos = [], attr_size = 16\<rparr>"
  have "parsing ?m hdr [] (attrs_octets as)" using b assms(1) by (simp add: parsing_def)
  from parse_attrs_complete [OF this, of "\<lambda>k. al (k + 3)"] assms(3,4)
  obtain msg where "radius_parse_attrs (\<lambda>k. al (k + 3)) 20 ?m = Some msg" "radius_holds msg hdr as" by auto
  moreover have "radius_msg_parse al (?d @ extra) = Done (radius_parse_attrs (\<lambda>k. al (k + 3)) 20 ?m)"
    unfolding radius_msg_parse_def using g [of "attrs_octets as @ extra"] assms b(1) by (simp add: radius_msg_initialize_def)
  ultimately show ?thesis by simp
qed

section \<open>Reading\<close>

lemma filter_attrs:
  "map (attr_data msg) (filter (\<lambda>p. attr_type msg p = t) ps) =
   map snd (filter (\<lambda>a. fst a = t) (map (\<lambda>p. (attr_type msg p, attr_data msg p)) ps))"
  by (induction ps) simp_all

lemma get_eap_attrs:
  assumes "radius_holds msg hdr as"
  shows "radius_msg_get_eap al msg =
    (let eap = concat (map snd (filter (\<lambda>a. fst a = RADIUS_ATTR_EAP_MESSAGE) as)) in if eap = [] \<or> \<not> al (word_of_nat (length eap)) then None else Some eap)"
proof -
  let ?ps = "filter (\<lambda>p. attr_type msg p = RADIUS_ATTR_EAP_MESSAGE) (attr_pos msg)"
  have c: "concat (map (attr_data msg) ?ps) = concat (map snd (filter (\<lambda>a. fst a = RADIUS_ATTR_EAP_MESSAGE) as))"
    using filter_attrs [of msg "RADIUS_ATTR_EAP_MESSAGE" "attr_pos msg"] holds_attrs [OF assms] by (simp add: radius_attrs_def)
  have "attr_length msg p - 2 = length (attr_data msg p)" if "p \<in> set (attr_pos msg)" for p
    using rep_attr [of msg hdr as p] assms that by (auto simp: radius_holds_def)
  then have "map (\<lambda>p. attr_length msg p - 2) ?ps = map length (map (attr_data msg) ?ps)" by simp
  then have "sum_list (map (\<lambda>p. attr_length msg p - 2) ?ps) = length (concat (map (attr_data msg) ?ps))" by (simp only: length_concat)
  then show ?thesis unfolding radius_msg_get_eap_def Let_def c by simp
qed

section \<open>EAP messages\<close>

function eap_fragments :: "bytes \<Rightarrow> bytes list" where
  "eap_fragments d = (if d = [] then [] else take 253 d # eap_fragments (drop 253 d))"
  by auto
termination
  by (relation "measure length") auto

declare eap_fragments.simps [simp del]

lemma eap_fragments_concat [simp]: "concat (eap_fragments d) = d"
  by (induction d rule: eap_fragments.induct) (simp add: eap_fragments.simps)

lemma eap_fragments_length: "f \<in> set (eap_fragments d) \<Longrightarrow> length f \<le> 253"
proof (induction d rule: eap_fragments.induct)
  case (1 d)
  then show ?case by (cases "d = []") (auto simp: eap_fragments.simps [of d] eap_fragments.simps [of "[]"])
qed

lemma add_attr_holds:
  assumes "radius_holds msg hdr as" "unat (wb_used (rm_buf msg)) + 257 < 2 ^ 32" "length d \<le> 253" "\<And>k n. al k n"
  shows "\<exists>msg'. radius_msg_add_attr al t d msg = Done (Some (20 + length (attrs_octets as)), msg') \<and> radius_holds msg' hdr (as @ [(t, d)])"
  using add_attr_cases [of msg hdr as al t d] assms by (auto simp: radius_holds_def attr_offsets_append split: option.splits)

lemma add_eap_holds:
  assumes "radius_holds msg hdr as" "unat (wb_used (rm_buf msg)) + 3 * length d + 257 < 2 ^ 32" "\<And>k n. al k n"
  shows "\<exists>msg'. radius_msg_add_eap al d msg = Done (True, msg') \<and> radius_holds msg' hdr (as @ map (Pair RADIUS_ATTR_EAP_MESSAGE) (eap_fragments d))"
  using assms
proof (induction d arbitrary: al as msg rule: eap_fragments.induct)
  case (1 d)
  show ?case
  proof (cases "d = []")
    case True
    then show ?thesis using "1.prems"(1) by (simp add: radius_msg_add_eap.simps [of al "[]"] eap_fragments.simps [of "[]"])
  next
    case False
    have t: "take (if length d > 253 then 253 else length d) d = take 253 d" "drop (if length d > 253 then 253 else length d) d = drop 253 d" by simp_all
    obtain m where m: "radius_msg_add_attr al RADIUS_ATTR_EAP_MESSAGE (take 253 d) msg = Done (Some (20 + length (attrs_octets as)), m)"
        "radius_holds m hdr (as @ [(RADIUS_ATTR_EAP_MESSAGE, take 253 d)])"
      using add_attr_holds [OF "1.prems"(1), of "take 253 d" al RADIUS_ATTR_EAP_MESSAGE] "1.prems"(2,3) by auto
    have u: "unat (wb_used (rm_buf m)) = unat (wb_used (rm_buf msg)) + 2 + length (take 253 d)"
      using rep_length [OF holds_rep [OF m(2)]] rep_length [OF holds_rep [OF "1.prems"(1)]] by simp
    have "unat (wb_used (rm_buf m)) + 3 * length (drop 253 d) + 257 < 2 ^ 32" using u "1.prems"(2) False by (cases d) auto
    from "1.IH" [OF False m(2) this, of "\<lambda>k. al (k + 2)"] "1.prems"(3) obtain msg' where
      r: "radius_msg_add_eap (\<lambda>k. al (k + 2)) (drop 253 d) m = Done (True, msg')"
        "radius_holds msg' hdr ((as @ [(RADIUS_ATTR_EAP_MESSAGE, take 253 d)]) @ map (Pair RADIUS_ATTR_EAP_MESSAGE) (eap_fragments (drop 253 d)))" by blast
    have "radius_msg_add_eap al d msg = Done (True, msg')"
      unfolding radius_msg_add_eap.simps [of al d] Let_def t using False m(1) r(1) by simp
    then show ?thesis using r(2) False by (simp add: eap_fragments.simps [of d])
  qed
qed

end
