(* ===== verification/Radius_Sign.thy ===== *)
theory Radius_Sign
  imports Radius_Ops
begin

text \<open>
  The authenticators of RADIUS messages: what \<^verbatim>\<open>radius_msg_finish_srv\<close> writes and what \<^verbatim>\<open>radius_msg_verify\<close> accepts, in the words of
  RFC 2865 and RFC 2869.
\<close>

section \<open>Hashes\<close>

lemma md5_vector_correct: "\<forall>d\<in>set ds. short d \<Longrightarrow> md5_vector ds = md5_digest (concat ds)"
  using md5v.hash_vector by blast

lemma hmac_md5_correct: "short key \<Longrightarrow> short d \<Longrightarrow> hmac_md5 key d = Some (HMAC_MD5 key d)"
  using md5v.hmac_correct [of "[d]" key] by (simp add: hmac_md5_def hmac_md5_vector_def)

section \<open>Sealing a reply\<close>

lemma overwrite_hdr:
  assumes "length hdr = 20" "length l = 2" "length a = 16"
  shows "overwrite 4 a (overwrite 2 l hdr) = take 2 hdr @ l @ a"
    "overwrite 4 a (take 2 hdr @ l @ b) = take 2 hdr @ l @ a @ drop 16 b"
  using assms by (simp_all add: overwrite_def)

lemma holds_write_attr:
  assumes "radius_holds msg hdr (as @ (t, d) # bs)" "length d' = length d" "p = 20 + length (attrs_octets as)"
  shows "radius_holds (radius_write (p + 2) d' msg) hdr (as @ (t, d') # bs)"
proof -
  have "radius_rep (radius_write (p + 2) d' msg) hdr (as @ (t, d') # bs)"
    by (rule write_attr [OF holds_rep [OF assms(1)] assms(2)]) (simp add: assms(3))
  then show ?thesis using assms(1,2) offsets_same_length [OF assms(2), of 20 as t bs] by (simp add: radius_holds_def)
qed

lemma set_length_holds:
  assumes "radius_holds msg hdr as"
  shows "radius_holds (hdr_set_length msg) (overwrite 2 (WPA_PUT_BE16 (word_of_nat (20 + length (attrs_octets as)))) hdr) as"
proof -
  have "ucast (wpabuf_len (rm_buf msg)) = (word_of_nat (20 + length (attrs_octets as)) :: u16)"
    using rep_length [OF holds_rep [OF assms]] unfolding wpabuf_len_def by (metis of_nat_unat)
  then show ?thesis unfolding hdr_set_length_def using holds_write_hdr [OF assms, of 2 "WPA_PUT_BE16 (word_of_nat (20 + length (attrs_octets as)))"] by simp
qed


lemma put_hmac_holds:
  assumes "radius_holds msg hdr (as @ [(t, replicate 16 0)])" "short secret" "unat (wb_used (rm_buf msg)) + 64 < 2 ^ 32"
  shows "radius_holds (put_hmac secret (20 + length (attrs_octets as)) msg) hdr
    (as @ [(t, HMAC_MD5 secret (hdr @ attrs_octets (as @ [(t, replicate 16 0)])))])"
proof -
  have o: "radius_octets msg = hdr @ attrs_octets (as @ [(t, replicate 16 0)])" "wpabuf_wf (rm_buf msg)"
    using assms(1) by (simp_all add: radius_holds_def radius_rep_def)
  have "short (radius_octets msg)" using assms(3) length_wpabuf_contents [OF o(2)] by simp
  then have "hmac_md5 secret (radius_octets msg) = Some (HMAC_MD5 secret (hdr @ attrs_octets (as @ [(t, replicate 16 0)])))"
    using hmac_md5_correct [OF assms(2)] unfolding o(1) by simp
  then show ?thesis using holds_write_attr [OF assms(1), of "HMAC_MD5 secret (hdr @ attrs_octets (as @ [(t, replicate 16 0)]))"]
    by (simp add: put_hmac_def)
qed

text \<open>The first four octets of a sealed message, its Message-Authenticator and its Response Authenticator.\<close>

definition sealed_start :: "bytes \<Rightarrow> (u8 \<times> bytes) list \<Rightarrow> bytes" where
  "sealed_start hdr as = take 2 hdr @ WPA_PUT_BE16 (word_of_nat (20 + length (attrs_octets as)))"

definition message_authenticator :: "bytes \<Rightarrow> bytes \<Rightarrow> bytes \<Rightarrow> (u8 \<times> bytes) list \<Rightarrow> (u8 \<times> bytes) list \<Rightarrow> bytes" where
  "message_authenticator secret start auth as bs =
     HMAC_MD5 secret (start @ auth @ attrs_octets (as @ (RADIUS_ATTR_MESSAGE_AUTHENTICATOR, replicate 16 0) # bs))"

definition response_authenticator :: "bytes \<Rightarrow> bytes \<Rightarrow> bytes \<Rightarrow> (u8 \<times> bytes) list \<Rightarrow> bytes" where
  "response_authenticator secret start auth as = md5_digest (start @ auth @ attrs_octets as @ secret)"

lemma length_authenticators [simp]:
  "length (message_authenticator secret start auth as bs) = 16" "length (response_authenticator secret start auth as) = 16"
  by (simp_all add: message_authenticator_def response_authenticator_def md5.digest_length)

lemma length_sealed_start [simp]: "length hdr = 20 \<Longrightarrow> length (sealed_start hdr as) = 4"
  by (simp add: sealed_start_def)

lemma response_auth_correct:
  assumes "radius_rep msg hdr as" "short secret" "length auth = 16" "unat (wb_used (rm_buf msg)) + 64 < 2 ^ 32"
  shows "response_auth secret auth msg = response_authenticator secret (take 4 hdr) auth as"
proof -
  have o: "radius_octets msg = hdr @ attrs_octets as" "length hdr = 20" using assms(1) by (simp_all add: radius_rep_def)
  have "short (attrs_octets as)" using assms(4) rep_length [OF assms(1)] by simp
  then show ?thesis unfolding response_auth_def response_authenticator_def o(1) using o(2) assms(2,3) by (simp add: md5_vector_correct)
qed

lemma finish_srv_holds:
  assumes "radius_holds msg hdr as" "unat (wb_used (rm_buf msg)) + 257 < 2 ^ 32" "\<And>k n. al k n" "length req = 16" "short secret"
  defines "start \<equiv> sealed_start hdr (as @ [(RADIUS_ATTR_MESSAGE_AUTHENTICATOR, replicate 16 0)])"
  defines "as' \<equiv> as @ [(RADIUS_ATTR_MESSAGE_AUTHENTICATOR, message_authenticator secret start req as [])]"
  shows "\<exists>msg'. radius_msg_finish_srv al secret req msg = Done (if 38 + length (attrs_octets as) > 65535 then -1 else 0, msg') \<and>
    radius_holds msg' (start @ response_authenticator secret start req as') as'"
proof -
  let ?z = "(RADIUS_ATTR_MESSAGE_AUTHENTICATOR, replicate 16 0 :: bytes)"
  let ?p = "20 + length (attrs_octets as)"
  have l: "length hdr = 20" using assms(1) by (simp add: radius_holds_def radius_rep_def)
  obtain m0 where m0: "radius_msg_add_attr al RADIUS_ATTR_MESSAGE_AUTHENTICATOR (replicate 16 0) msg = Done (Some ?p, m0)" "radius_holds m0 hdr (as @ [?z])"
    using add_attr_holds [OF assms(1,2), of "replicate 16 0" al RADIUS_ATTR_MESSAGE_AUTHENTICATOR] assms(3) by auto
  have u0: "unat (wb_used (rm_buf m0)) = 38 + length (attrs_octets as)" using rep_length [OF holds_rep [OF m0(2)]] by simp
  have u1: "unat (wb_used (rm_buf m0)) + 64 < 2 ^ 32" using u0 rep_length [OF holds_rep [OF assms(1)]] assms(2) by simp
  define m1 where "m1 = hdr_set_length m0"
  define m2 where "m2 = radius_write 4 req m1"
  define m3 where "m3 = put_hmac secret ?p m2"
  define m4 where "m4 = radius_write 4 (response_auth secret req m3) m3"
  have u: "wb_used (rm_buf m2) = wb_used (rm_buf m0)" "wb_used (rm_buf m3) = wb_used (rm_buf m0)" "wb_used (rm_buf m4) = wb_used (rm_buf m0)"
    by (simp_all add: m4_def m3_def m2_def m1_def hdr_set_length_def put_hmac_def split: option.splits)
  have "radius_holds m2 (start @ req) (as @ [?z])"
    using holds_write_hdr [OF set_length_holds [OF m0(2)], of 4 req] overwrite_hdr(1) [OF l, of _ req] assms(4)
    by (simp add: m2_def m1_def start_def sealed_start_def)
  then have h3: "radius_holds m3 (start @ req) as'"
    using put_hmac_holds [of m2 "start @ req" as RADIUS_ATTR_MESSAGE_AUTHENTICATOR secret] u(1) u1 assms(5)
    by (simp add: m3_def as'_def message_authenticator_def)
  have s: "take 4 (start @ req) = start" using l by (simp add: start_def)
  have "response_auth secret req m3 = response_authenticator secret start req as'"
    using response_auth_correct [OF holds_rep [OF h3] assms(5,4)] u(2) u1 s by simp
  then have "radius_holds m4 (start @ response_authenticator secret start req as') as'"
    using holds_write_hdr [OF h3, of 4 "response_authenticator secret start req as'"] l assms(4) by (simp add: m4_def overwrite_def start_def)
  moreover have "too_long m4 = (38 + length (attrs_octets as) > 65535)"
    using u0 u(3) by (simp add: too_long_def wpabuf_len_def word_less_nat_alt)
  moreover have "radius_msg_finish_srv al secret req msg = Done (if too_long m4 then -1 else 0, m4)"
    unfolding radius_msg_finish_srv_def using m0(1) by (simp add: m4_def m3_def m2_def m1_def Let_def)
  ultimately show ?thesis by auto
qed

section \<open>Verifying a message\<close>

lemma overwrite_restore: "off + length z \<le> length b \<Longrightarrow> overwrite off (take (length z) (drop off b)) (overwrite off z b) = b"
  by (simp add: overwrite_def) (metis append_take_drop_id drop_drop add.commute)

lemma overwrite_commute:
  assumes "i + length x \<le> j" "j + length y \<le> length b"
  shows "overwrite i x (overwrite j y b) = overwrite j y (overwrite i x b)"
proof -
  obtain b1 b2 where b: "b = b1 @ b2" "length b1 = j" using assms(2) by (metis add_leD1 append_take_drop_id length_take min.absorb2)
  then have "overwrite i x b1 @ b2 = overwrite i x b" "length (overwrite i x b1) = j" using assms(1) by (simp_all add: overwrite_append1)
  moreover have "overwrite j y (c @ b2) = c @ overwrite 0 y b2" if "length c = j" for c using that by (simp add: overwrite_def)
  ultimately show ?thesis using b assms(1) overwrite_append1 [of i x b1 "overwrite 0 y b2"] by metis
qed

lemma write_write:
  "radius_write i x (radius_write j y msg) = msg\<lparr>rm_buf := (rm_buf msg)\<lparr>wb_area := overwrite i x (overwrite j y (wb_area (rm_buf msg)))\<rparr>\<rparr>"
  by (simp add: radius_write_def)

text \<open>The value of the only Message-Authenticator is compared with the value that belongs there; the message is the same afterwards.  The
  value is the sixteen octets behind the header of the attribute, whatever its length.\<close>

lemma verify_msg_auth_exact:
  assumes "wpabuf_wf (rm_buf msg)" "filter (\<lambda>p. attr_type msg p = RADIUS_ATTR_MESSAGE_AUTHENTICATOR) (attr_pos msg) = [p]"
    "20 \<le> p" "p + 18 \<le> length (radius_octets msg)" "length req = 16" "short secret" "short (radius_octets msg)"
  shows "radius_msg_verify_msg_auth secret (Some req) msg =
    Done (if take 16 (drop (p + 2) (radius_octets msg)) \<noteq>
        HMAC_MD5 secret (overwrite (p + 2) (replicate 16 0) (overwrite 4 req (radius_octets msg))) then 1 else 0, msg)"
proof -
  let ?b = "wb_area (rm_buf msg)"
  let ?o = "radius_octets msg"
  have le: "length ?o \<le> length ?b" by (simp add: wpabuf_contents_def)
  have b: "p + 2 + 16 \<le> length ?b" using assms(4) le by simp
  define z :: bytes where "z = replicate 16 0"
  have z: "length z = 16" by (simp add: z_def)
  define m1 where "m1 = radius_write (p + 2) z msg"
  define m2 where "m2 = radius_write 4 req m1"
  define orig where "orig = take 16 (drop (p + 2) ?b)"
  have lo: "length orig = 16" using b by (simp add: orig_def)
  have w1: "radius_octets m1 = overwrite (p + 2) z ?o" "wpabuf_wf (rm_buf m1)"
    unfolding m1_def using write_octets [OF assms(1), of "p + 2" z] assms(4) z by simp_all
  have l1: "length (radius_octets m1) = length ?o" unfolding w1(1) using assms(4) z by simp
  have w2: "radius_octets m2 = overwrite 4 req (overwrite (p + 2) z ?o)"
    unfolding m2_def using write_octets [OF w1(2), of 4 req] l1 assms(3-5) w1(1) by simp
  then have o2: "radius_octets m2 = overwrite (p + 2) z (overwrite 4 req ?o)"
    using overwrite_commute [of 4 req "p + 2" z ?o] assms(3-5) z by simp
  have "short (radius_octets m2)" unfolding o2 using assms(3-5,7) z by simp
  then have mac: "hmac_md5 secret (radius_octets m2) = Some (HMAC_MD5 secret (overwrite (p + 2) z (overwrite 4 req ?o)))"
    using hmac_md5_correct [OF assms(6)] o2 by simp
  have or: "orig = take 16 (drop (p + 2) ?o)" unfolding orig_def by (subst area_octets [OF assms(1)]) (use assms(4) in simp)
  let ?c = "overwrite 4 req ?b"
  have d: "drop (p + 2) ?c = drop (p + 2) ?b" using assms(3,5) b by (simp add: overwrite_def)
  have "overwrite (p + 2) orig (overwrite 4 req (overwrite (p + 2) z ?b)) = ?c"
    using overwrite_commute [of 4 req "p + 2" z ?b] overwrite_restore [of "p + 2" z ?c] assms(3,5) b z d by (simp add: orig_def)
  moreover have "overwrite 4 (hdr_authenticator msg) ?c = ?b"
    using overwrite_restore [of 4 req ?b] assms(3,5) b by (simp add: hdr_authenticator_def)
  ultimately have "radius_write 4 (hdr_authenticator msg) (radius_write (p + 2) orig m2) = msg"
    by (simp add: m2_def m1_def radius_write_def)
  then show ?thesis
    unfolding radius_msg_verify_msg_auth_def assms(2) Let_def using b mac or by (simp add: m2_def m1_def orig_def z_def)
qed

text \<open>A message is authentic if it has exactly one Message-Authenticator, with the right value, and the right Response Authenticator; both
  are computed with the authenticator of the request in the place of that of the reply.\<close>

definition msg_auths :: "radius_msg \<Rightarrow> nat list" where
  "msg_auths msg = filter (\<lambda>p. attr_type msg p = RADIUS_ATTR_MESSAGE_AUTHENTICATOR) (attr_pos msg)"

definition authentic :: "bytes \<Rightarrow> bytes \<Rightarrow> radius_msg \<Rightarrow> bool" where
  "authentic secret req msg \<longleftrightarrow>
     (\<exists>p. msg_auths msg = [p] \<and> p + 18 \<le> length (radius_octets msg) \<and>
       take 16 (drop (p + 2) (radius_octets msg)) =
         HMAC_MD5 secret (overwrite (p + 2) (replicate 16 0) (overwrite 4 req (radius_octets msg)))) \<and>
     take 16 (drop 4 (radius_octets msg)) = md5_digest (take 4 (radius_octets msg) @ req @ drop 20 (radius_octets msg) @ secret)"

text \<open>A Message-Authenticator that ends behind the message.\<close>

definition auth_overrun :: "radius_msg \<Rightarrow> bool" where
  "auth_overrun msg \<longleftrightarrow> (\<exists>p. msg_auths msg = [p] \<and> p + 18 > length (radius_octets msg))"

lemma holds_pos: "radius_holds msg hdr as \<Longrightarrow> p \<in> set (attr_pos msg) \<Longrightarrow> 20 \<le> p"
  using rep_attr [OF holds_rep] by fastforce

lemma verify_exact:
  assumes h: "radius_holds msg hdr as" and a: "wb_area (rm_buf msg) = radius_octets msg"
    and s: "short secret" "short (radius_octets msg)" "length (hdr_authenticator sent) = 16"
  shows "radius_msg_verify secret (Some sent) True msg =
    (if auth_overrun msg then Abort else Done (if authentic secret (hdr_authenticator sent) msg then 0 else 1, msg))"
proof -
  let ?req = "hdr_authenticator sent"
  have w: "wpabuf_wf (rm_buf msg)" "radius_octets msg = hdr @ attrs_octets as" "length hdr = 20" using h by (simp_all add: radius_holds_def radius_rep_def)
  have "unat (wb_used (rm_buf msg)) + 64 < 2 ^ 32" using s(2) length_wpabuf_contents [OF w(1)] by simp
  from response_auth_correct [OF holds_rep [OF h] s(1,3) this]
  have r: "response_auth secret ?req msg = md5_digest (take 4 (radius_octets msg) @ ?req @ drop 20 (radius_octets msg) @ secret)"
    unfolding response_authenticator_def w(2) using w(3) by simp
  have ha: "hdr_authenticator msg = take 16 (drop 4 (radius_octets msg))" by (simp add: hdr_authenticator_def a)
  show ?thesis
  proof (cases "\<exists>p. msg_auths msg = [p]")
    case True
    then obtain p where p: "msg_auths msg = [p]" by blast
    then have "p \<in> set (msg_auths msg)" by simp
    then have p20: "20 \<le> p" using holds_pos [OF h] by (simp add: msg_auths_def)
    show ?thesis
    proof (cases "p + 18 \<le> length (radius_octets msg)")
      case True
      from verify_msg_auth_exact [OF w(1) p [unfolded msg_auths_def] p20 True s(3,1,2)] show ?thesis
        using p True r ha by (simp add: radius_msg_verify_def auth_overrun_def authentic_def)
    next
      case False
      then show ?thesis using p a by (simp add: radius_msg_verify_def radius_msg_verify_msg_auth_def auth_overrun_def msg_auths_def)
    qed
  next
    case False
    then show ?thesis by (auto simp: radius_msg_verify_def radius_msg_verify_msg_auth_def auth_overrun_def authentic_def msg_auths_def split: list.splits)
  qed
qed

text \<open>The positions of the attributes of a type are those of the list.\<close>

lemma filter_positions:
  assumes "radius_holds msg hdr (as @ a # bs)" "\<forall>x\<in>set (as @ bs). fst x \<noteq> fst a"
  shows "filter (\<lambda>p. attr_type msg p = fst a) (attr_pos msg) = [20 + length (attrs_octets as)]"
proof -
  have r: "radius_rep msg hdr (as @ a # bs)" and ps: "attr_pos msg = attr_offsets 20 as @ (20 + length (attrs_octets as)) # attr_offsets (20 + length (attrs_octets (as @ [a]))) bs"
    using assms(1) by (auto simp: radius_holds_def attr_offsets_append add.assoc)
  have f: "filter (\<lambda>p. attr_type msg p = fst a) (attr_offsets (20 + length (attrs_octets us)) vs) = []"
    if "as @ a # bs = us @ vs @ ws" "\<forall>x\<in>set vs. fst x \<noteq> fst a" for us vs ws
    using that
  proof (induction vs arbitrary: us)
    case (Cons v vs)
    then show ?case using attr_fields(1) [of msg hdr us v "vs @ ws"] r Cons.IH [of "us @ [v]"] by (simp add: add.assoc)
  qed simp
  show ?thesis unfolding ps using f [of "[]" as "a # bs"] f [of "as @ [a]" bs "[]"] attr_fields(1) [OF r] assms(2) by simp
qed

text \<open>What a server seals is authentic.\<close>

lemma sealed_authentic:
  assumes "radius_holds msg (start @ response_authenticator secret start req as') as'" "length start = 4" "length req = 16"
    "as' = as @ [(RADIUS_ATTR_MESSAGE_AUTHENTICATOR, message_authenticator secret start req as [])]"
    "\<forall>a\<in>set as. fst a \<noteq> RADIUS_ATTR_MESSAGE_AUTHENTICATOR"
  shows "authentic secret req msg" "\<not> auth_overrun msg"
proof -
  let ?p = "20 + length (attrs_octets as)"
  let ?mac = "message_authenticator secret start req as []"
  have o: "radius_octets msg = start @ response_authenticator secret start req as' @ attrs_octets as'" using assms(1) by (simp add: radius_holds_def radius_rep_def)
  have p: "msg_auths msg = [?p]" using filter_positions [of msg _ as "(RADIUS_ATTR_MESSAGE_AUTHENTICATOR, ?mac)" "[]"] assms(1,4,5) by (simp add: msg_auths_def)
  have l: "?p + 18 \<le> length (radius_octets msg)" unfolding o assms(4) using assms(2) by simp
  have "overwrite 4 req (radius_octets msg) = start @ req @ attrs_octets as'" unfolding o using assms(2,3) by (simp add: overwrite_def)
  then have "overwrite (?p + 2) (replicate 16 0) (overwrite 4 req (radius_octets msg)) =
      start @ req @ attrs_octets (as @ [(RADIUS_ATTR_MESSAGE_AUTHENTICATOR, replicate 16 0)])"
    using assms(2,3) by (simp add: overwrite_def assms(4) attr_octets_def)
  moreover have "take 16 (drop (?p + 2) (radius_octets msg)) = ?mac"
    unfolding o using assms(2) by (simp add: assms(4) attr_octets_def)
  moreover have "take 16 (drop 4 (radius_octets msg)) = md5_digest (take 4 (radius_octets msg) @ req @ drop 20 (radius_octets msg) @ secret)"
    unfolding o using assms(2) by (simp add: response_authenticator_def md5.digest_length)
  ultimately show "authentic secret req msg" using p l by (simp add: authentic_def message_authenticator_def)
  show "\<not> auth_overrun msg" using p l by (simp add: auth_overrun_def)
qed

end
