(* ===== verification/Radius_Keys.thy ===== *)
theory Radius_Keys
  imports Radius_Sign
begin

text \<open>
  The key attributes of RADIUS replies: the MD5 chain of RFC 2548 and the sub-attributes of a vendor.  A reply that a server builds and
  seals reads back completely at the client.
\<close>

section \<open>The chain of MD5 values\<close>

lemma md5_vector_length: "\<forall>d\<in>set ds. short d \<Longrightarrow> length (md5_vector ds) = 16"
  by (simp add: md5_vector_correct md5.digest_length)

lemma length_chain_encrypt:
  "short secret \<Longrightarrow> \<forall>d\<in>set b. short d \<Longrightarrow> length (md5_chain_encrypt secret b p) = length p"
proof (induction secret b p rule: md5_chain_encrypt.induct)
  case (1 secret b p)
  show ?case
  proof (cases "p = []")
    case False
    have "length (md5_vector (secret # b)) = 16" using "1.prems" by (simp add: md5_vector_length)
    then show ?thesis using "1.IH" [OF False refl] "1.prems"(1) False by (simp add: md5_chain_encrypt.simps [of secret b p] Let_def)
  qed (simp add: md5_chain_encrypt.simps)
qed

lemma chain_inverse:
  "short secret \<Longrightarrow> \<forall>d\<in>set b. short d \<Longrightarrow> length p mod 16 = 0 \<Longrightarrow>
   md5_chain_decrypt secret b (md5_chain_encrypt secret b p) = p"
proof (induction secret b p rule: md5_chain_encrypt.induct)
  case (1 secret b p)
  show ?case
  proof (cases "p = []")
    case True
    then show ?thesis by (simp add: md5_chain_encrypt.simps md5_chain_decrypt.simps)
  next
    case False
    let ?c = "xor_octets (take 16 p) (md5_vector (secret # b))"
    have h: "length (md5_vector (secret # b)) = 16" using "1.prems" by (simp add: md5_vector_length)
    have l: "16 \<le> length p" using False "1.prems"(3) by (cases "length p < 16") auto
    have c: "length ?c = 16" using h l by simp
    have e: "md5_chain_encrypt secret b p = ?c @ md5_chain_encrypt secret [?c] (drop 16 p)"
      using False by (simp add: md5_chain_encrypt.simps [of secret b p] Let_def)
    have "length (drop 16 p) mod 16 = 0" using "1.prems"(3) l by (simp add: mod_if le_mod_geq)
    then have "md5_chain_decrypt secret [?c] (md5_chain_encrypt secret [?c] (drop 16 p)) = drop 16 p"
      using "1.IH" [OF False refl] "1.prems"(1) c by simp
    moreover have "xor_octets ?c (md5_vector (secret # b)) = take 16 p" using h by (simp add: xor_octets_cancel)
    ultimately show ?thesis unfolding e using c by (subst md5_chain_decrypt.simps) auto
  qed
qed

section \<open>One key\<close>

text \<open>The length of an encrypted key: its length octet and the key, padded to whole blocks.\<close>

definition padded :: "nat \<Rightarrow> nat" where
  "padded n = 16 * ((n + 16) div 16)"

lemma nat_and_15: "(n :: nat) AND 15 = n mod 16"
proof -
  have m: "(15 :: nat) = mask 4" by (simp add: mask_eq_exp_minus_1)
  show ?thesis unfolding m by (simp flip: take_bit_eq_mask add: take_bit_eq_mod)
qed

lemma nat_and_240: "n < 256 \<Longrightarrow> (n :: nat) AND 240 = 16 * (n div 16)"
proof -
  assume n: "n < 256"
  have m: "(240 :: nat) = push_bit 4 (mask 4)" by (simp add: mask_eq_exp_minus_1 push_bit_eq_mult)
  have "n AND push_bit 4 (mask 4) = push_bit 4 (drop_bit 4 (take_bit 8 n))"
    by (rule bit_eqI) (auto simp: bit_simps)
  moreover have "take_bit 8 n = n" using n by (simp add: take_bit_nat_eq_self)
  ultimately show ?thesis by (simp add: m push_bit_eq_mult drop_bit_eq_div)
qed

lemma encrypted_length:
  assumes "n < 255"
  shows "(if (1 + n) AND 0x0f \<noteq> 0 then ((1 + n) AND 0xf0) + 16 else 1 + n) = padded n"
proof -
  define q r where "q = (1 + n) div 16" and "r = (1 + n) mod 16"
  have n: "1 + n = q * 16 + r" "r < 16" unfolding q_def r_def by simp_all
  have a: "(1 + n) AND 0xf0 = 16 * q" "(1 + n) AND 0x0f = r"
    unfolding q_def r_def by (rule nat_and_240, use assms in simp) (rule nat_and_15)
  have "(n + 16) div 16 = (if r = 0 then q else q + 1)"
  proof (cases "r = 0")
    case True
    then have "n + 16 = 15 + q * 16" using n by linarith
    then show ?thesis using True by (simp only: div_mult_self2) simp
  next
    case False
    then have "n + 16 = (r - 1) + (q + 1) * 16" using n by (cases r) auto
    moreover have "(r - 1) div 16 = 0" using n by simp
    ultimately show ?thesis using False by (simp only: div_mult_self2) simp
  qed
  then show ?thesis unfolding a padded_def using n by (cases "r = 0") simp_all
qed

lemma padded_bounds: "n + 1 \<le> padded n" "padded n \<le> n + 16" "padded n mod 16 = 0" "16 \<le> padded n"
  by (simp_all add: padded_def)

definition plain_key :: "bytes \<Rightarrow> bytes" where
  "plain_key key = word_of_nat (length key) # key @ replicate (padded (length key) - length key - 1) 0"

lemma length_plain_key [simp]: "length (plain_key key) = padded (length key)"
  using padded_bounds(1) [of "length key"] by (simp add: plain_key_def)

lemma encrypt_ms_key_result:
  assumes "length key < 255" "short secret" "length req = 16" "padded (length key) \<le> length ebuf"
  shows "encrypt_ms_key key salt req secret ebuf =
    Done (padded (length key), md5_chain_encrypt secret [req, WPA_PUT_BE16 salt] (plain_key key) @ drop (padded (length key)) ebuf)"
proof -
  let ?n = "padded (length key)"
  let ?e = "overwrite 1 key (overwrite 0 [word_of_nat (length key)] (overwrite 0 (replicate ?n 0) ebuf))"
  have n: "length key + 1 \<le> ?n" by (rule padded_bounds)
  have e: "?e = plain_key key @ drop ?n ebuf"
    using n assms(4) by (simp add: overwrite_def plain_key_def drop_Cons' flip: diff_diff_left)
  have l: "length (md5_chain_encrypt secret [req, WPA_PUT_BE16 salt] (plain_key key)) = ?n"
    using assms(2,3) by (simp add: length_chain_encrypt)
  show ?thesis unfolding encrypt_ms_key_def Let_def encrypted_length [OF assms(1)] e using n assms(4) l by (simp add: overwrite_def)
qed

lemma decrypt_ms_key_result:
  assumes "key \<noteq> []" "length key < 255" "short secret" "length req = 16" "\<And>k n. al k n"
  shows "decrypt_ms_key al (WPA_PUT_BE16 salt @ md5_chain_encrypt secret [req, WPA_PUT_BE16 salt] (plain_key key)) req secret = Some key"
proof -
  let ?c = "md5_chain_encrypt secret [req, WPA_PUT_BE16 salt] (plain_key key)"
  note b = padded_bounds [of "length key"]
  have l: "length ?c = padded (length key)" using assms(3,4) by (simp add: length_chain_encrypt)
  have d: "md5_chain_decrypt secret [req, WPA_PUT_BE16 salt] ?c = plain_key key" using assms(3,4) b by (intro chain_inverse) simp_all
  have n: "unat (word_of_nat (length key) :: u8) = length key" using assms(2) by (intro unat_octet_of) simp
  have z: "(word_of_nat (length key) :: u8) \<noteq> 0" using n assms(1) by (metis length_0_conv unat_0)
  show ?thesis unfolding decrypt_ms_key_def using l d n z b assms(5) by (simp add: plain_key_def Let_def)
qed

section \<open>Keys in messages\<close>

text \<open>The search on the list of attributes.\<close>

fun vendor_search :: "u32 \<Rightarrow> u8 \<Rightarrow> (u8 \<times> bytes) list \<Rightarrow> bytes option" where
  "vendor_search vendor subtype [] = None"
| "vendor_search vendor subtype (a # as) =
     (if fst a \<noteq> RADIUS_ATTR_VENDOR_SPECIFIC \<or> length (snd a) < 4 \<or> WPA_GET_BE32 (snd a) \<noteq> vendor then vendor_search vendor subtype as
      else case vendor_attr_loop subtype (drop 4 (snd a)) of None \<Rightarrow> vendor_search vendor subtype as | Some d \<Rightarrow> Some d)"

lemma vendor_search_append:
  "vendor_search v s (as @ bs) = (case vendor_search v s as of None \<Rightarrow> vendor_search v s bs | Some d \<Rightarrow> Some d)"
  by (induction as) (auto split: option.splits)

lemma vendor_attrs_search:
  assumes "\<forall>p\<in>set ps. attr_length msg p - 2 = length (attr_data msg p)"
  shows "vendor_attrs msg v s ps = vendor_search v s (map (\<lambda>p. (attr_type msg p, attr_data msg p)) ps)"
  using assms by (induction ps) (simp_all cong: option.case_cong)

lemma get_vendor_attr_search:
  assumes "radius_holds msg hdr as" "\<And>n. al n"
  shows "radius_msg_get_vendor_attr al msg v s = vendor_search v s as"
proof -
  have "\<forall>p\<in>set (attr_pos msg). attr_length msg p - 2 = length (attr_data msg p)"
    using rep_attr [OF holds_rep [OF assms(1)]] by fastforce
  then have "vendor_attrs msg v s (attr_pos msg) = vendor_search v s as"
    using vendor_attrs_search holds_attrs [OF assms(1)] by (simp add: radius_attrs_def)
  then show ?thesis using assms(2) by (simp add: radius_msg_get_vendor_attr_def split: option.split)
qed

text \<open>The value of a vendor attribute with one sub-attribute.\<close>

definition vendor_value :: "u32 \<Rightarrow> u8 \<Rightarrow> bytes \<Rightarrow> bytes" where
  "vendor_value vendor subtype d = WPA_PUT_BE32 vendor @ attr_octets (subtype, d)"

lemma search_vendor_value:
  assumes "length d \<le> 247"
  shows "vendor_search v s ((RADIUS_ATTR_VENDOR_SPECIFIC, vendor_value v t d) # as) = (if t = s then Some d else vendor_search v s as)"
proof -
  let ?o = "attr_octets (t, d)"
  have n: "unat (?o ! 1) = 2 + length d" "?o ! 0 = t" using attr_octets_at [of "(t, d)" "[]"] assms by (simp_all add: attr_octets_def)
  have e: "vendor_attr_loop s [] = None" by (simp add: vendor_attr_loop.simps)
  have "vendor_attr_loop s ?o = (if t = s then Some d else None)"
    unfolding vendor_attr_loop.simps [of s ?o] n using e by (simp add: attr_octets_def)
  then show ?thesis by (simp add: vendor_value_def)
qed

abbreviation (input) mppe_value :: "u8 \<Rightarrow> u16 \<Rightarrow> bytes \<Rightarrow> bytes \<Rightarrow> bytes \<Rightarrow> bytes" where
  "mppe_value t salt req secret key \<equiv> vendor_value RADIUS_VENDOR_ID_MICROSOFT t
     (WPA_PUT_BE16 salt @ md5_chain_encrypt secret [req, WPA_PUT_BE16 salt] (plain_key key))"

lemma mppe_length: "length key < 240 \<Longrightarrow> padded (length key) \<le> 240"
proof -
  assume "length key < 240"
  then have "(length key + 16) div 16 < 16" by (intro less_mult_imp_div_less) simp
  then show ?thesis by (simp add: padded_def)
qed

lemma take_known: "xs = ys @ zs \<Longrightarrow> length ys = n \<Longrightarrow> take n xs = ys"
  by simp

lemma add_mppe_key_holds:
  assumes "radius_holds msg hdr as" "unat (wb_used (rm_buf msg)) + 257 < 2 ^ 32" "\<And>k n. al k n"
    "length key < 240" "short secret" "length req = 16" "padded (length key) + 8 \<le> bsize"
  shows "\<exists>msg'. add_mppe_key al t bsize salt req secret key msg = Done (True, msg') \<and>
    radius_holds msg' hdr (as @ [(RADIUS_ATTR_VENDOR_SPECIFIC, mppe_value t salt req secret key)])"
proof -
  let ?n = "padded (length key)"
  let ?c = "md5_chain_encrypt secret [req, WPA_PUT_BE16 salt] (plain_key key)"
  have n: "?n \<le> 240" by (rule mppe_length [OF assms(4)])
  have l: "length ?c = ?n" using assms(5,6) by (simp add: length_chain_encrypt)
  have e: "encrypt_ms_key key salt req secret (replicate (bsize - 8) 0) = Done (?n, ?c @ drop ?n (replicate (bsize - 8) 0))"
    using assms(4-7) by (intro encrypt_ms_key_result) simp_all
  have h: "4 + 2 + 2 = (8 :: nat)" by simp
  let ?b = "WPA_PUT_BE32 RADIUS_VENDOR_ID_MICROSOFT @ [t, word_of_nat (8 + ?n - 4)] @ WPA_PUT_BE16 salt @ ?c @ drop ?n (replicate (bsize - 8) 0)"
  have "?b = mppe_value t salt req secret key @ drop ?n (replicate (bsize - 8) 0)" using l by (simp add: vendor_value_def attr_octets_def)
  moreover have "length (mppe_value t salt req secret key) = 8 + ?n" using l by (simp add: vendor_value_def)
  ultimately have v: "take (8 + ?n) ?b = mppe_value t salt req secret key" by (rule take_known)
  have "length (mppe_value t salt req secret key) \<le> 253" using l n by (simp add: vendor_value_def)
  then obtain m where m: "radius_msg_add_attr (\<lambda>k. al (k + 1)) RADIUS_ATTR_VENDOR_SPECIFIC (mppe_value t salt req secret key) msg =
      Done (Some (20 + length (attrs_octets as)), m)" "radius_holds m hdr (as @ [(RADIUS_ATTR_VENDOR_SPECIFIC, mppe_value t salt req secret key)])"
    using add_attr_holds [OF assms(1,2), of "mppe_value t salt req secret key" "\<lambda>k. al (k + 1)" RADIUS_ATTR_VENDOR_SPECIFIC] assms(3) by auto
  have "add_mppe_key al t bsize salt req secret key msg = Done (True, m)"
    unfolding add_mppe_key_def Let_def h using assms(3) by (simp only: e outcome.case prod.case v m(1)) simp
  then show ?thesis using m(2) by simp
qed

lemma used_after_add:
  "radius_holds msg hdr as \<Longrightarrow> radius_holds msg' hdr' (as @ bs) \<Longrightarrow>
   unat (wb_used (rm_buf msg')) = unat (wb_used (rm_buf msg)) + length (attrs_octets bs)"
  using rep_length [OF holds_rep] by fastforce

lemma add_mppe_keys_holds:
  fixes rnd :: u16
  assumes "radius_holds msg hdr as" "unat (wb_used (rm_buf msg)) + 600 < 2 ^ 32" "\<And>k n. al k n"
    "length send < 240" "length recv < 240" "padded (length recv) \<le> length send + 16" "short secret" "length req = 16"
  defines "salt \<equiv> rnd OR 0x8000"
  shows "\<exists>msg'. radius_msg_add_mppe_keys al rnd req secret send recv msg = Done (True, msg') \<and>
    radius_holds msg' hdr (as @ [(RADIUS_ATTR_VENDOR_SPECIFIC, mppe_value RADIUS_VENDOR_ATTR_MS_MPPE_SEND_KEY salt req secret send),
      (RADIUS_ATTR_VENDOR_SPECIFIC, mppe_value RADIUS_VENDOR_ATTR_MS_MPPE_RECV_KEY (salt XOR 1) req secret recv)])"
proof -
  let ?b = "4 + 2 + 2 + length send + 16"
  let ?s = "mppe_value RADIUS_VENDOR_ATTR_MS_MPPE_SEND_KEY salt req secret send"
  have b: "padded (length send) + 8 \<le> ?b" "padded (length recv) + 8 \<le> ?b" using assms(6) padded_bounds(2) [of "length send"] by simp_all
  obtain m where m: "add_mppe_key al RADIUS_VENDOR_ATTR_MS_MPPE_SEND_KEY ?b salt req secret send msg = Done (True, m)"
      "radius_holds m hdr (as @ [(RADIUS_ATTR_VENDOR_SPECIFIC, ?s)])"
    using add_mppe_key_holds [OF assms(1), of al send secret req ?b RADIUS_VENDOR_ATTR_MS_MPPE_SEND_KEY salt] assms(2-4,7,8) b(1) by auto
  have "length ?s \<le> 253" using holds_rep [OF m(2)] by (simp add: radius_rep_def)
  then have "unat (wb_used (rm_buf m)) + 257 < 2 ^ 32" using used_after_add [OF assms(1) m(2)] assms(2) by simp
  from add_mppe_key_holds [OF m(2) this, where al = "\<lambda>k. al (k + 3)" and key = recv and secret = secret and req = req and bsize = ?b and
      t = RADIUS_VENDOR_ATTR_MS_MPPE_RECV_KEY and salt = "salt XOR 1"]
  obtain m' where "add_mppe_key (\<lambda>k. al (k + 3)) RADIUS_VENDOR_ATTR_MS_MPPE_RECV_KEY ?b (salt XOR 1) req secret recv m = Done (True, m')"
      "radius_holds m' hdr ((as @ [(RADIUS_ATTR_VENDOR_SPECIFIC, ?s)]) @
        [(RADIUS_ATTR_VENDOR_SPECIFIC, mppe_value RADIUS_VENDOR_ATTR_MS_MPPE_RECV_KEY (salt XOR 1) req secret recv)])"
    using assms(3,5,7,8) b(2) by auto
  then show ?thesis using m(1) by (simp add: radius_msg_add_mppe_keys_def Let_def salt_def)
qed

lemma get_ms_keys_result:
  assumes "radius_holds msg hdr as" "\<And>k n. al k n" "hdr_authenticator sent = req" "short secret" "length req = 16"
    "send \<noteq> []" "recv \<noteq> []" "length send < 240" "length recv < 240"
    "vendor_search RADIUS_VENDOR_ID_MICROSOFT RADIUS_VENDOR_ATTR_MS_MPPE_SEND_KEY as =
      Some (WPA_PUT_BE16 s @ md5_chain_encrypt secret [req, WPA_PUT_BE16 s] (plain_key send))"
    "vendor_search RADIUS_VENDOR_ID_MICROSOFT RADIUS_VENDOR_ATTR_MS_MPPE_RECV_KEY as =
      Some (WPA_PUT_BE16 r @ md5_chain_encrypt secret [req, WPA_PUT_BE16 r] (plain_key recv))"
  shows "radius_msg_get_ms_keys al msg (Some sent) secret = Some \<lparr>mk_send = Some send, mk_recv = Some recv\<rparr>"
proof -
  have "decrypt_ms_key al' (WPA_PUT_BE16 x @ md5_chain_encrypt secret [req, WPA_PUT_BE16 x] (plain_key key)) req secret = Some key"
    if "key \<noteq> []" "length key < 240" "\<And>k n. al' k n" for al' x key
    using that assms(4,5) by (intro decrypt_ms_key_result) simp_all
  then show ?thesis using assms(2-11) get_vendor_attr_search [OF assms(1)] by (simp add: radius_msg_get_ms_keys_def)
qed

section \<open>A reply from the server to the client\<close>

lemma sealed_length:
  assumes "length hdr = 20" "20 + length (attrs_octets as) \<le> 65535"
  shows "unat (WPA_GET_BE16 (drop 2 (sealed_start hdr as @ r))) = 20 + length (attrs_octets as)"
proof -
  have "drop 2 (sealed_start hdr as @ r) = WPA_PUT_BE16 (word_of_nat (20 + length (attrs_octets as))) @ r" using assms(1) by (simp add: sealed_start_def)
  then have "WPA_GET_BE16 (drop 2 (sealed_start hdr as @ r)) = word_of_nat (20 + length (attrs_octets as))" by (simp only: WPA_BE16_roundtrip)
  moreover have "unat (word_of_nat n :: u16) = n" if "n \<le> 65535" for n using that by (simp add: unat_of_nat)
  ultimately show ?thesis using assms(2) by (simp only:)
qed

lemma fragments_octets: "length (attrs_octets (map (Pair t) (eap_fragments d))) \<le> 3 * length d"
proof (induction d rule: eap_fragments.induct)
  case (1 d)
  show ?case
  proof (cases "d = []")
    case False
    then have "1 \<le> length d" by (cases d) simp_all
    then have "2 + length (take 253 d) + 3 * length (drop 253 d) \<le> 3 * length d" unfolding length_take length_drop by linarith
    then show ?thesis using 1 [OF False] False by (simp add: eap_fragments.simps [of d])
  qed (simp add: eap_fragments.simps)
qed

text \<open>What a client reads of a sealed message that it receives, also if octets follow it.\<close>

lemma sealed_received:
  assumes "radius_holds m2 hdr as" "unat (wb_used (rm_buf m2)) + 257 < 2 ^ 32" "\<And>k n. al k n" "hdr_authenticator sent = req" "length req = 16"
    "short secret" "\<forall>a\<in>set as. fst a \<noteq> RADIUS_ATTR_MESSAGE_AUTHENTICATOR"
  shows "\<exists>m3 res. radius_msg_finish_srv al secret req m2 = Done (res, m3) \<and> (res = 0 \<longleftrightarrow> length (radius_octets m3) \<le> 65535) \<and>
    length (radius_octets m3) = unat (wb_used (rm_buf m2)) + 18 \<and>
    (res = 0 \<longrightarrow> (\<exists>m4 h mac. radius_msg_parse al (radius_octets m3 @ extra) = Done (Some m4) \<and>
      radius_holds m4 h (as @ [(RADIUS_ATTR_MESSAGE_AUTHENTICATOR, mac)]) \<and> take 2 h = take 2 hdr \<and>
      radius_msg_verify secret (Some sent) True m4 = Done (0, m4)))"
proof -
  let ?z = "(RADIUS_ATTR_MESSAGE_AUTHENTICATOR, replicate 16 0 :: bytes)"
  define start where "start = sealed_start hdr (as @ [?z])"
  define mac where "mac = message_authenticator secret start req as []"
  define as' where "as' = as @ [(RADIUS_ATTR_MESSAGE_AUTHENTICATOR, mac)]"
  define h where "h = start @ response_authenticator secret start req as'"
  have l: "length hdr = 20" using assms(1) by (simp add: radius_holds_def radius_rep_def)
  then have ls: "length start = 4" "length h = 20" by (simp_all add: start_def h_def)
  have la: "length (attrs_octets as') = 18 + length (attrs_octets as)" by (simp add: as'_def mac_def)
  obtain m3 where m3: "radius_msg_finish_srv al secret req m2 = Done (if 38 + length (attrs_octets as) > 65535 then -1 else 0, m3)" "radius_holds m3 h as'"
    using finish_srv_holds [OF assms(1,2) _ assms(5,6), of al] assms(3) unfolding h_def as'_def mac_def start_def by blast
  have o: "radius_octets m3 = h @ attrs_octets as'" and v: "\<forall>a\<in>set as'. length (snd a) \<le> 253" using m3(2) by (simp_all add: radius_holds_def radius_rep_def)
  have lo: "length (radius_octets m3) = 38 + length (attrs_octets as)" unfolding o using ls la by simp
  have u: "unat (wb_used (rm_buf m2)) + 18 = 38 + length (attrs_octets as)" using rep_length [OF holds_rep [OF assms(1)]] by simp
  have st: "take 2 h = take 2 hdr" using l by (simp add: h_def start_def sealed_start_def)
  show ?thesis
  proof (cases "38 + length (attrs_octets as) > 65535")
    case True
    then show ?thesis using m3(1) lo u by auto
  next
    case False
    have "unat (WPA_GET_BE16 (drop 2 h)) = 20 + length (attrs_octets as')"
      using sealed_length [OF l, of "as @ [?z]" "response_authenticator secret start req as'"] False la by (simp add: h_def start_def)
    from parse_complete [OF ls(2) this _ v, of al extra] obtain m4 where
      m4: "radius_msg_parse al (radius_octets m3 @ extra) = Done (Some m4)" "radius_holds m4 h as'" using o assms(3) by auto
    then have a: "wb_area (rm_buf m4) = radius_octets m4" using parse_returns [of al "radius_octets m3 @ extra"] by auto
    have "radius_octets m4 = radius_octets m3" using m4(2) o by (simp add: radius_holds_def radius_rep_def)
    then have "short (radius_octets m4)" using lo False by simp
    from verify_exact [OF m4(2) a assms(6) this, of sent] have "radius_msg_verify secret (Some sent) True m4 = Done (0, m4)"
      using sealed_authentic [OF m4(2) [unfolded h_def] ls(1) assms(5) as'_def [unfolded mac_def] assms(7)] assms(4,5) by simp
    then show ?thesis using m3(1) False lo u m4 st unfolding as'_def by auto
  qed
qed

text \<open>C8.  A RADIUS reply reads back.  When a server adds an EAP message of any length and the two session keys to a message that it
  has built, and seals it for the authenticator of a request, then the client parses the octets of the message, whatever follows them
  in the packet: it has the code, the identifier and the attributes that the server wrote, its authenticators verify, the fragments of
  the EAP message join to the original one, and the keys decrypt.  The server reports a message of more than 65535 octets.
  Allocations are assumed to succeed.\<close>

theorem radius_reply_roundtrip:
  fixes rnd :: u16
  assumes "radius_holds msg hdr as" "\<forall>a\<in>set as. fst a \<notin> {RADIUS_ATTR_VENDOR_SPECIFIC, RADIUS_ATTR_EAP_MESSAGE, RADIUS_ATTR_MESSAGE_AUTHENTICATOR}"
    and "\<forall>k n. al k n" "hdr_authenticator sent = req" "length req = 16" "length secret + 64 < 2 ^ 32"
    and "unat (wb_used (rm_buf msg)) + 3 * length eap + 1200 < 2 ^ 32" "eap \<noteq> []"
    and "send \<noteq> []" "recv \<noteq> []" "length send < 240" "length recv < 240" "padded (length recv) \<le> length send + 16"
  shows "\<exists>m1 m2 m3 res. radius_msg_add_eap al eap msg = Done (True, m1) \<and>
    radius_msg_add_mppe_keys al rnd req secret send recv m1 = Done (True, m2) \<and>
    radius_msg_finish_srv al secret req m2 = Done (res, m3) \<and> (res = 0 \<longleftrightarrow> length (radius_octets m3) \<le> 65535) \<and>
    length (radius_octets m3) \<le> unat (wb_used (rm_buf msg)) + 3 * length eap + 528 \<and>
    (res = 0 \<longrightarrow> (\<exists>m4. radius_msg_parse al (radius_octets m3 @ extra) = Done (Some m4) \<and>
      hdr_code m4 = hdr ! 0 \<and> hdr_identifier m4 = hdr ! 1 \<and> take (length as) (radius_attrs m4) = as \<and>
      radius_msg_verify secret (Some sent) True m4 = Done (0, m4) \<and>
      radius_msg_get_eap (\<lambda>_. True) m4 = Some eap \<and>
      radius_msg_get_ms_keys al m4 (Some sent) secret = Some \<lparr>mk_send = Some send, mk_recv = Some recv\<rparr>))"
proof -
  have al: "\<And>k n. al k n" using assms(3) by simp
  let ?es = "map (Pair RADIUS_ATTR_EAP_MESSAGE) (eap_fragments eap)"
  let ?s = "(RADIUS_ATTR_VENDOR_SPECIFIC, mppe_value RADIUS_VENDOR_ATTR_MS_MPPE_SEND_KEY (rnd OR 0x8000) req secret send)"
  let ?r = "(RADIUS_ATTR_VENDOR_SPECIFIC, mppe_value RADIUS_VENDOR_ATTR_MS_MPPE_RECV_KEY ((rnd OR 0x8000) XOR 1) req secret recv)"
  obtain m1 where m1: "radius_msg_add_eap al eap msg = Done (True, m1)" "radius_holds m1 hdr (as @ ?es)"
    using add_eap_holds [OF assms(1), of eap al] al assms(7) by auto
  have v1: "unat (wb_used (rm_buf m1)) \<le> unat (wb_used (rm_buf msg)) + 3 * length eap"
    using used_after_add [OF assms(1) m1(2)] fragments_octets [of RADIUS_ATTR_EAP_MESSAGE eap] by simp
  then have u1: "unat (wb_used (rm_buf m1)) + 1200 < 2 ^ 32" using assms(7) by simp
  obtain m2 where m2: "radius_msg_add_mppe_keys al rnd req secret send recv m1 = Done (True, m2)" "radius_holds m2 hdr ((as @ ?es) @ [?s, ?r])"
    using add_mppe_keys_holds [OF m1(2) _ _ assms(11,12,13,6,5), of al rnd] al u1 by auto
  have "length (attrs_octets [?s, ?r]) \<le> 510" using holds_rep [OF m2(2)] by (simp add: radius_rep_def)
  then have v2: "unat (wb_used (rm_buf m2)) \<le> unat (wb_used (rm_buf m1)) + 510" using used_after_add [OF m1(2) m2(2)] by simp
  then have u2: "unat (wb_used (rm_buf m2)) + 257 < 2 ^ 32" using u1 by simp
  have na: "\<forall>a\<in>set ((as @ ?es) @ [?s, ?r]). fst a \<noteq> RADIUS_ATTR_MESSAGE_AUTHENTICATOR" using assms(2) by auto
  obtain m3 res where m3: "radius_msg_finish_srv al secret req m2 = Done (res, m3)" "res = 0 \<longleftrightarrow> length (radius_octets m3) \<le> 65535"
      "length (radius_octets m3) = unat (wb_used (rm_buf m2)) + 18"
      "res = 0 \<Longrightarrow> \<exists>m4 h mac. radius_msg_parse al (radius_octets m3 @ extra) = Done (Some m4) \<and>
        radius_holds m4 h (((as @ ?es) @ [?s, ?r]) @ [(RADIUS_ATTR_MESSAGE_AUTHENTICATOR, mac)]) \<and> take 2 h = take 2 hdr \<and>
        radius_msg_verify secret (Some sent) True m4 = Done (0, m4)"
    using sealed_received [OF m2(2) u2 _ assms(4,5,6) na, of al extra] al by blast
  have "radius_msg_get_eap (\<lambda>_. True) m4 = Some eap \<and> take (length as) (radius_attrs m4) = as \<and>
      radius_msg_get_ms_keys al m4 (Some sent) secret = Some \<lparr>mk_send = Some send, mk_recv = Some recv\<rparr>"
    if h: "radius_holds m4 h (((as @ ?es) @ [?s, ?r]) @ [(RADIUS_ATTR_MESSAGE_AUTHENTICATOR, mac)])" for m4 h mac
  proof (intro conjI)
    have "filter (\<lambda>a. fst a = RADIUS_ATTR_EAP_MESSAGE) as = []" using assms(2) by (auto simp: filter_empty_conv)
    moreover have "map snd (filter (\<lambda>a. fst a = RADIUS_ATTR_EAP_MESSAGE) ?es) = eap_fragments eap" by (simp add: filter_map o_def)
    ultimately show "radius_msg_get_eap (\<lambda>_. True) m4 = Some eap" unfolding get_eap_attrs [OF h] Let_def using assms(8) by simp
    show "take (length as) (radius_attrs m4) = as" using holds_attrs [OF h] by simp
    show "radius_msg_get_ms_keys al m4 (Some sent) secret = Some \<lparr>mk_send = Some send, mk_recv = Some recv\<rparr>"
    proof (rule get_ms_keys_result [OF h _ assms(4,6,5,9-12)])
      let ?sv = "\<lambda>salt key. WPA_PUT_BE16 salt @ md5_chain_encrypt secret [req, WPA_PUT_BE16 salt] (plain_key key)"
      have "vendor_search v t as = None" for v t using assms(2) by (induction as) auto
      moreover have "vendor_search v t (map (Pair RADIUS_ATTR_EAP_MESSAGE) fs) = None" for v t fs by (induction fs) auto
      ultimately have e: "vendor_search v t (((as @ ?es) @ [?s, ?r]) @ x) = vendor_search v t (?s # ?r # x)" for v t x by (simp add: vendor_search_append)
      have l: "length (?sv salt key) \<le> 247" if "length key < 240" for salt key
        using that assms(5,6) mppe_length [of key] by (simp add: length_chain_encrypt)
      show "vendor_search RADIUS_VENDOR_ID_MICROSOFT RADIUS_VENDOR_ATTR_MS_MPPE_SEND_KEY (((as @ ?es) @ [?s, ?r]) @ [(RADIUS_ATTR_MESSAGE_AUTHENTICATOR, mac)]) =
          Some (?sv (rnd OR 0x8000) send)"
        unfolding e search_vendor_value [OF l [OF assms(11)]] by simp
      show "vendor_search RADIUS_VENDOR_ID_MICROSOFT RADIUS_VENDOR_ATTR_MS_MPPE_RECV_KEY (((as @ ?es) @ [?s, ?r]) @ [(RADIUS_ATTR_MESSAGE_AUTHENTICATOR, mac)]) =
          Some (?sv ((rnd OR 0x8000) XOR 1) recv)"
        unfolding e search_vendor_value [OF l [OF assms(11)]] search_vendor_value [OF l [OF assms(12)]] by simp
    qed (rule al)
  qed
  moreover have "hdr_code m4 = hdr ! 0 \<and> hdr_identifier m4 = hdr ! 1" if "radius_holds m4 h bs" "take 2 h = take 2 hdr" for m4 h bs
    using hdr_fields [OF holds_rep [OF that(1)]] that(2) nth_take [of 0 2 h] nth_take [of 1 2 h] by simp
  moreover have "length (radius_octets m3) \<le> unat (wb_used (rm_buf msg)) + 3 * length eap + 528" using m3(3) v1 v2 by simp
  ultimately show ?thesis using m1(1) m2(1) m3(1,2,4) by blast
qed

theorem radius_reply_roundtrip_witness:
  "\<exists>sent msg m1 m2 m3 m4. radius_msg_new (\<lambda>_ _. True) 1 7 = Done (Some sent) \<and> radius_msg_new (\<lambda>_ _. True) 2 7 = Done (Some msg) \<and>
    radius_msg_add_eap (\<lambda>_ _. True) [3, 7, 0, 4] msg = Done (True, m1) \<and>
    radius_msg_add_mppe_keys (\<lambda>_ _. True) 5 (replicate 16 0) [1, 2, 3] (replicate 32 8) (replicate 32 9) m1 = Done (True, m2) \<and>
    radius_msg_finish_srv (\<lambda>_ _. True) [1, 2, 3] (replicate 16 0) m2 = Done (0, m3) \<and>
    radius_msg_parse (\<lambda>_ _. True) (radius_octets m3 @ [0, 0]) = Done (Some m4) \<and>
    radius_msg_verify [1, 2, 3] (Some sent) True m4 = Done (0, m4) \<and> radius_msg_get_eap (\<lambda>_. True) m4 = Some [3, 7, 0, 4]"
proof -
  let ?al = "\<lambda>_ _. True"
  obtain sent where s: "radius_msg_new ?al 1 7 = Done (Some sent)" "radius_holds sent ([1, 7] @ replicate 18 0) []" using new_holds [of ?al 1 7] by auto
  obtain msg where m: "radius_msg_new ?al 2 7 = Done (Some msg)" "radius_holds msg ([2, 7] @ replicate 18 0) []" using new_holds [of ?al 2 7] by auto
  have r: "hdr_authenticator sent = replicate 16 0" using hdr_fields(3) [OF holds_rep [OF s(2)]] by (simp add: numeral_eq_Suc)
  have u: "unat (wb_used (rm_buf msg)) = 20" using rep_length [OF holds_rep [OF m(2)]] by simp
  show ?thesis
    using radius_reply_roundtrip [OF m(2) _ _ r, where al = ?al and secret = "[1, 2, 3]" and eap = "[3, 7, 0, 4]" and send = "replicate 32 8" and
      recv = "replicate 32 9" and rnd = 5 and extra = "[0, 0]"] s(1) m(1) u by (fastforce simp: padded_def)
qed

text \<open>Both blocks for encrypted keys have the size that the send key needs: with a longer receive key the code writes behind the block.\<close>

lemma mppe_keys_overrun:
  assumes "radius_holds msg hdr as" "unat (wb_used (rm_buf msg)) + 600 < 2 ^ 32" "\<And>k n. al k n" "length send < 240" "length recv < 255"
    "length send + 16 < padded (length recv)" "short secret" "length req = 16"
  shows "radius_msg_add_mppe_keys al rnd req secret send recv msg = Abort"
proof -
  let ?b = "4 + 2 + 2 + length send + 16"
  have "padded (length send) + 8 \<le> ?b" using padded_bounds(2) [of "length send"] by simp
  then obtain m where m: "add_mppe_key al RADIUS_VENDOR_ATTR_MS_MPPE_SEND_KEY ?b (rnd OR 0x8000) req secret send msg = Done (True, m)"
    using add_mppe_key_holds [OF assms(1), of al send secret req ?b RADIUS_VENDOR_ATTR_MS_MPPE_SEND_KEY "rnd OR 0x8000"] assms(2-4,7,8) by auto
  have "encrypt_ms_key recv salt req secret (replicate (16 + length send) 0) = Abort" for salt
    unfolding encrypt_ms_key_def Let_def encrypted_length [OF assms(5)] using assms(6) by simp
  then have "add_mppe_key (\<lambda>k. al (k + 3)) t ?b salt req secret recv m = Abort" for t salt using assms(3) by (simp add: add_mppe_key_def Let_def)
  then show ?thesis using m by (simp add: radius_msg_add_mppe_keys_def Let_def)
qed

end
