(* ===== verification/Radius_Inv.thy ===== *)
theory Radius_Inv
  imports Radius_Keys
begin

text \<open>
  The type of RADIUS messages: whatever operations of \<^verbatim>\<open>src/radius/radius.c\<close> made a message, its array holds ascending positions of
  attributes that lie within the message.
\<close>

section \<open>Every operation keeps the type\<close>

definition radius_typed :: "radius_msg \<Rightarrow> bool" where
  "radius_typed msg \<longleftrightarrow> (\<exists>hdr as. radius_rep msg hdr as)"

definition room_for :: "nat \<Rightarrow> radius_msg \<Rightarrow> bool" where
  "room_for n msg \<longleftrightarrow> unat (wb_used (rm_buf msg)) + n + 257 < 2 ^ 32"

lemma holds_typed: "radius_holds msg hdr as \<Longrightarrow> radius_typed msg"
  by (auto simp: radius_typed_def dest: holds_rep)

lemma room_for_less: "room_for n msg \<Longrightarrow> m \<le> n \<Longrightarrow> room_for m msg"
  by (simp add: room_for_def)

lemma add_attr_typed:
  assumes "radius_typed msg" "room_for n msg" "radius_msg_add_attr al t d msg = Done (r, msg')"
  shows "radius_typed msg'" "2 + length d \<le> n \<Longrightarrow> room_for (n - (2 + length d)) msg'"
proof -
  obtain hdr as where rep: "radius_rep msg hdr as" using assms(1) by (auto simp: radius_typed_def)
  have "unat (wb_used (rm_buf msg)) + 257 < 2 ^ 32" using assms(2) by (simp add: room_for_def)
  from add_attr_cases [OF rep this, of al t d] assms(3) have "radius_rep msg' hdr as \<or> radius_rep msg' hdr (as @ [(t, d)])"
    by (auto split: option.splits)
  then obtain as' where as': "radius_rep msg' hdr as'" "length (attrs_octets as') \<le> length (attrs_octets as) + 2 + length d" by force
  then show "radius_typed msg'" by (auto simp: radius_typed_def)
  show "2 + length d \<le> n \<Longrightarrow> room_for (n - (2 + length d)) msg'"
    using assms(2) rep_length [OF rep] rep_length [OF as'(1)] as'(2) by (simp add: room_for_def)
qed

lemma write_hdr_typed:
  assumes "radius_typed msg" "off + length d \<le> 20"
  shows "radius_typed (radius_write off d msg)"
proof -
  obtain hdr as where "radius_rep msg hdr as" using assms(1) by (auto simp: radius_typed_def)
  from write_hdr [OF this assms(2)] show ?thesis by (auto simp: radius_typed_def)
qed

lemma md5_vector_16 [simp]: "length (md5_vector ds) = 16"
  by (simp add: md5_vector_def MD5Final_def md5_output_def Let_def split: prod.split)

lemma hmac_md5_16: "hmac_md5 key d = Some mac \<Longrightarrow> length mac = 16"
  by (auto simp: hmac_md5_def hmac_md5_vector_def hmac_vector_def split: if_splits option.splits)

lemma set_length_typed: "radius_typed msg \<Longrightarrow> radius_typed (hdr_set_length msg)"
  by (simp add: hdr_set_length_def write_hdr_typed)

text \<open>The Message-Authenticator that was added last gets its value, after changes of the header.\<close>

lemma put_hmac_typed:
  assumes "radius_rep msg hdr (as @ [(t, replicate 16 0)])" "p = 20 + length (attrs_octets as)"
  shows "radius_typed (put_hmac secret p msg)"
proof (cases "hmac_md5 secret (radius_octets msg)")
  case None
  then show ?thesis using assms(1) by (auto simp: put_hmac_def radius_typed_def)
next
  case (Some mac)
  then show ?thesis using write_attr [OF assms(1), of mac "p + 2"] hmac_md5_16 [OF Some] assms(2) by (auto simp: put_hmac_def radius_typed_def)
qed

lemma add_attr_last:
  assumes "radius_typed msg" "room_for 0 msg" "radius_msg_add_attr al t d msg = Done (Some p, msg')"
  shows "\<exists>hdr as. radius_rep msg' hdr (as @ [(t, d)]) \<and> p = 20 + length (attrs_octets as)"
proof -
  obtain hdr as where rep: "radius_rep msg hdr as" using assms(1) by (auto simp: radius_typed_def)
  have "unat (wb_used (rm_buf msg)) + 257 < 2 ^ 32" using assms(2) by (simp add: room_for_def)
  from add_attr_cases [OF rep this, of al t d] assms(3) show ?thesis by auto
qed

lemma finish_typed:
  assumes "radius_typed msg" "room_for 0 msg"
  shows "radius_msg_finish al secret msg = Done (r, msg') \<Longrightarrow> radius_typed msg'"
    and "length req = 16 \<Longrightarrow> radius_msg_finish_srv al sec req msg = Done (r, msg') \<Longrightarrow> radius_typed msg'"
    and "radius_typed (radius_msg_finish_acct sec msg)"
proof -
  let ?add = "\<lambda>al. radius_msg_add_attr al RADIUS_ATTR_MESSAGE_AUTHENTICATOR (replicate 16 0) msg"
  have seal: "radius_typed (put_hmac k p (hdr_set_length m))" "length req = 16 \<Longrightarrow> radius_typed (put_hmac k p (radius_write 4 req (hdr_set_length m)))"
    if add: "?add al = Done (Some p, m)" for al p m k req
  proof -
    obtain hdr as where rep: "radius_rep m hdr (as @ [(RADIUS_ATTR_MESSAGE_AUTHENTICATOR, replicate 16 0)])" "p = 20 + length (attrs_octets as)"
      using add_attr_last [OF assms add] by blast
    then obtain h where h: "radius_rep (hdr_set_length m) h (as @ [(RADIUS_ATTR_MESSAGE_AUTHENTICATOR, replicate 16 0)])"
      unfolding hdr_set_length_def using write_hdr [OF rep(1), of 2 "WPA_PUT_BE16 (ucast (wpabuf_len (rm_buf m)))"] by auto
    then show "radius_typed (put_hmac k p (hdr_set_length m))" using put_hmac_typed rep(2) by blast
    show "radius_typed (put_hmac k p (radius_write 4 req (hdr_set_length m)))" if "length req = 16"
      using put_hmac_typed [OF write_hdr [OF h, of 4 req] rep(2)] that by simp
  qed
  show "radius_msg_finish al secret msg = Done (r, msg') \<Longrightarrow> radius_typed msg'"
    using seal(1) add_attr_typed(1) [OF assms] set_length_typed [OF assms(1)]
    by (auto simp: radius_msg_finish_def Let_def split: option.splits outcome.splits)
  show "radius_typed msg'" if "length req = 16" "radius_msg_finish_srv al sec req msg = Done (r, msg')"
  proof (cases "?add al")
    case Abort
    then show ?thesis using that by (simp add: radius_msg_finish_srv_def)
  next
    case (Done x)
    then show ?thesis using that seal(2) [of al _ _ req sec] add_attr_typed(1) [OF assms]
      by (cases x; cases "fst x") (auto simp: radius_msg_finish_srv_def Let_def response_auth_def intro!: write_hdr_typed)
  qed
  show "radius_typed (radius_msg_finish_acct sec msg)"
    using assms(1) by (simp add: radius_msg_finish_acct_def Let_def write_hdr_typed set_length_typed)
qed

lemma add_eap_typed:
  "radius_typed msg \<Longrightarrow> room_for (3 * length d) msg \<Longrightarrow> radius_msg_add_eap al d msg = Done (r, msg') \<Longrightarrow> radius_typed msg'"
proof (induction al d msg rule: radius_msg_add_eap.induct)
  case (1 al d msg)
  define len where "len = (if length d > RADIUS_MAX_ATTR_LEN then RADIUS_MAX_ATTR_LEN else length d)"
  show ?case
  proof (cases "d = []")
    case True
    then show ?thesis using "1.prems" by (simp add: radius_msg_add_eap.simps [of al "[]"])
  next
    case False
    obtain p m where m: "radius_msg_add_attr al RADIUS_ATTR_EAP_MESSAGE (take len d) msg = Done (p, m)"
      and e: "(case p of None \<Rightarrow> Done (False, m) | Some p \<Rightarrow> radius_msg_add_eap (\<lambda>k. al (k + 2)) (drop len d) m) = Done (r, msg')"
      using "1.prems"(3) False unfolding radius_msg_add_eap.simps [of al d] Let_def len_def [symmetric]
      by (auto split: outcome.splits option.splits prod.splits)
    have l: "2 + length (take len d) \<le> 3 * length d" "3 * length (drop len d) \<le> 3 * length d - (2 + length (take len d))"
      using False by (cases d; auto simp: len_def)+
    note t = add_attr_typed [OF "1.prems"(1,2) m]
    show ?thesis
    proof (cases p)
      case None
      then show ?thesis using e t(1) by simp
    next
      case (Some q)
      have "radius_msg_add_eap (\<lambda>k. al (k + 2)) (drop len d) m = Done (r, msg')" using e Some by simp
      moreover have "room_for (3 * length (drop len d)) m" using room_for_less [OF t(2) [OF l(1)] l(2)] .
      ultimately show ?thesis using "1.IH" [OF False len_def] m Some t(1) by auto
    qed
  qed
qed

lemma copy_attr_typed:
  "radius_typed dst \<Longrightarrow> room_for (sum_list (map (\<lambda>p. 2 + length (attr_data src p)) ps)) dst \<Longrightarrow>
   radius_msg_copy_attr al dst src t ps count = Done (r, dst') \<Longrightarrow> radius_typed dst'"
proof (induction al dst src t ps count rule: radius_msg_copy_attr.induct)
  case (2 al dst src t p ps count)
  let ?n = "sum_list (map (\<lambda>p. 2 + length (attr_data src p)) (p # ps))"
  let ?k = "sum_list (map (\<lambda>p. 2 + length (attr_data src p)) ps)"
  show ?case
  proof (cases "attr_type src p = t")
    case False
    then show ?thesis using 2 room_for_less [OF "2.prems"(2), of ?k] by simp
  next
    case True
    then obtain q m where m: "radius_msg_add_attr al t (attr_data src p) dst = Done (q, m)"
      and e: "(case q of None \<Rightarrow> Done (-1, m) | Some q \<Rightarrow> radius_msg_copy_attr (\<lambda>k. al (k + 2)) m src t ps (Suc count)) = Done (r, dst')"
      using "2.prems"(3) by (auto split: outcome.splits option.splits prod.splits)
    note t = add_attr_typed [OF "2.prems"(1,2) m]
    have "room_for ?k m" using t(2) by simp
    then show ?thesis using e t(1) "2.IH"(1) [OF True m] by (cases q) auto
  qed
qed simp

lemma mppe_key_typed:
  assumes "radius_typed msg" "room_for n msg" "add_mppe_key al t bsize salt req secret key msg = Done (r, msg')"
  shows "radius_typed msg'" "255 \<le> n \<Longrightarrow> room_for (n - 255) msg'"
proof -
  have "radius_typed msg' \<and> (255 \<le> n \<longrightarrow> room_for (n - 255) msg')"
  proof (cases "msg' = msg")
    case True
    then show ?thesis using assms(1,2) room_for_less [of n msg "n - 255"] by simp
  next
    case False
    then obtain al' d q where a: "radius_msg_add_attr al' RADIUS_ATTR_VENDOR_SPECIFIC d msg = Done (q, msg')"
      using assms(3) by (auto simp: add_mppe_key_def Let_def split: if_splits outcome.splits prod.splits)
    then have "length d \<le> 253" using False by (auto simp: radius_msg_add_attr_def split: if_splits)
    then show ?thesis using add_attr_typed [OF assms(1,2) a] room_for_less [of "n - (2 + length d)" msg' "n - 255"] by simp
  qed
  then show "radius_typed msg'" "255 \<le> n \<Longrightarrow> room_for (n - 255) msg'" by simp_all
qed

lemma mppe_keys_typed:
  assumes "radius_typed msg" "room_for 255 msg" "radius_msg_add_mppe_keys al rnd req secret send recv msg = Done (r, msg')"
  shows "radius_typed msg'"
proof -
  obtain ok m where m: "add_mppe_key al RADIUS_VENDOR_ATTR_MS_MPPE_SEND_KEY (4 + 2 + 2 + length send + 16) (rnd OR 0x8000) req secret send msg = Done (ok, m)"
    using assms(3) by (auto simp: radius_msg_add_mppe_keys_def Let_def split: outcome.splits prod.splits bool.splits)
  note t = mppe_key_typed [OF assms(1,2) m]
  show ?thesis
  proof (cases ok)
    case True
    have "room_for 0 m" using t(2) by simp
    then show ?thesis using mppe_key_typed(1) [OF t(1)] assms(3) m True by (auto simp: radius_msg_add_mppe_keys_def Let_def)
  next
    case False
    then show ?thesis using assms(3) m t(1) by (auto simp: radius_msg_add_mppe_keys_def Let_def)
  qed
qed

text \<open>Verifying leaves the message as it was.\<close>

lemma verify_restores:
  assumes "radius_typed msg" "length req = 16" "radius_msg_verify_msg_auth secret (Some req) msg = Done (r, msg')"
  shows "msg' = msg"
proof (cases "msg_auths msg")
  case (Cons p ps)
  show ?thesis
  proof (cases "ps = [] \<and> p + 2 + 16 \<le> length (wb_area (rm_buf msg))")
    case True
    let ?b = "wb_area (rm_buf msg)"
    obtain hdr as where rep: "radius_rep msg hdr as" using assms(1) by (auto simp: radius_typed_def)
    have "p \<in> set (attr_pos msg)" using Cons by (metis list.set_intros(1) msg_auths_def filter_is_subset subsetD)
    then have p: "20 \<le> p" using rep_attr [OF rep] by fastforce
    define z orig where "z = (replicate 16 0 :: bytes)" and "orig = take 16 (drop (p + 2) ?b)"
    have d: "drop (p + 2) (overwrite 4 req ?b) = drop (p + 2) ?b" using p assms(2) True by (simp add: overwrite_def)
    have "overwrite (p + 2) orig (overwrite 4 req (overwrite (p + 2) z ?b)) = overwrite 4 req ?b"
      using overwrite_commute [of 4 req "p + 2" z ?b] overwrite_restore [of "p + 2" z "overwrite 4 req ?b"] p assms(2) True d by (simp add: orig_def z_def)
    moreover have "overwrite 4 (hdr_authenticator msg) (overwrite 4 req ?b) = ?b"
      using overwrite_restore [of 4 req ?b] p assms(2) True by (simp add: hdr_authenticator_def)
    ultimately have "radius_write 4 (hdr_authenticator msg) (radius_write (p + 2) orig (radius_write 4 req (radius_write (p + 2) z msg))) = msg"
      by (simp add: radius_write_def)
    then show ?thesis using assms(3) Cons True
      by (simp add: radius_msg_verify_msg_auth_def msg_auths_def Let_def z_def orig_def split: option.splits if_splits)
  next
    case False
    then show ?thesis using assms(3) Cons by (cases ps) (auto simp: radius_msg_verify_msg_auth_def msg_auths_def split: if_splits)
  qed
qed (use assms(3) in \<open>simp add: radius_msg_verify_msg_auth_def msg_auths_def\<close>)

section \<open>Messages that the operations make\<close>

inductive radius_made :: "radius_msg \<Rightarrow> bool" where
  made_new: "radius_msg_new al code idn = Done (Some msg) \<Longrightarrow> radius_made msg"
| made_parse: "radius_msg_parse al data = Done (Some msg) \<Longrightarrow> radius_made msg"
| made_set_hdr: "radius_made msg \<Longrightarrow> radius_made (radius_msg_set_hdr msg code idn)"
| made_authenticator: "radius_made msg \<Longrightarrow> radius_made (radius_msg_make_authenticator tv l data msg)"
| made_attr: "radius_made msg \<Longrightarrow> room_for 0 msg \<Longrightarrow> radius_msg_add_attr al t d msg = Done (r, msg') \<Longrightarrow> radius_made msg'"
| made_int32: "radius_made msg \<Longrightarrow> room_for 0 msg \<Longrightarrow> radius_msg_add_attr_int32 al msg t val = Done (ok, msg') \<Longrightarrow> radius_made msg'"
| made_eap: "radius_made msg \<Longrightarrow> room_for (3 * length d) msg \<Longrightarrow> radius_msg_add_eap al d msg = Done (ok, msg') \<Longrightarrow> radius_made msg'"
| made_copy: "radius_made dst \<Longrightarrow> radius_made src \<Longrightarrow> room_for (sum_list (map (\<lambda>p. 2 + length (attr_data src p)) (attr_pos src))) dst \<Longrightarrow>
    radius_msg_copy_attr al dst src t (attr_pos src) 0 = Done (n, dst') \<Longrightarrow> radius_made dst'"
| made_password: "radius_made msg \<Longrightarrow> room_for 0 msg \<Longrightarrow> radius_msg_add_attr_user_password al msg d secret = Done (r, msg') \<Longrightarrow> radius_made msg'"
| made_mppe: "radius_made msg \<Longrightarrow> room_for 255 msg \<Longrightarrow> radius_msg_add_mppe_keys al rnd req secret send recv msg = Done (ok, msg') \<Longrightarrow> radius_made msg'"
| made_finish: "radius_made msg \<Longrightarrow> room_for 0 msg \<Longrightarrow> radius_msg_finish al sec msg = Done (n, msg') \<Longrightarrow> radius_made msg'"
| made_finish_srv: "radius_made msg \<Longrightarrow> room_for 0 msg \<Longrightarrow> length req = 16 \<Longrightarrow> radius_msg_finish_srv al secret req msg = Done (n, msg') \<Longrightarrow> radius_made msg'"
| made_finish_acct: "radius_made msg \<Longrightarrow> room_for 0 msg \<Longrightarrow> radius_made (radius_msg_finish_acct secret msg)"
| made_verify: "radius_made msg \<Longrightarrow> radius_made sent \<Longrightarrow> radius_msg_verify secret (Some sent) auth msg = Done (n, msg') \<Longrightarrow> radius_made msg'"

lemma typed_authenticator: "radius_typed msg \<Longrightarrow> length (hdr_authenticator msg) = 16"
proof -
  assume "radius_typed msg"
  then obtain hdr as where rep: "radius_rep msg hdr as" by (auto simp: radius_typed_def)
  then have "length hdr = 20" by (simp add: radius_rep_def)
  then show ?thesis by (simp add: hdr_fields(3) [OF rep])
qed

lemma made_typed: "radius_made msg \<Longrightarrow> radius_typed msg"
proof (induction rule: radius_made.induct)
  case (made_new al code idn msg)
  then show ?case using new_cases [of al code idn] holds_typed by auto
next
  case (made_parse al data msg)
  then show ?case using parse_returns [of al data] holds_typed by auto
next
  case (made_verify msg sent secret auth n msg')
  have "length (hdr_authenticator sent) = 16" by (rule typed_authenticator [OF made_verify.IH(2)])
  then have "msg' = msg" using made_verify.hyps verify_restores [OF made_verify.IH(1), of "hdr_authenticator sent" secret]
    by (auto simp: radius_msg_verify_def split: if_splits outcome.splits)
  then show ?case using made_verify.IH by simp
next
  case (made_int32 msg al t val ok msg')
  then show ?case using add_attr_typed(1) [of msg 0 al t "WPA_PUT_BE32 val"] by (auto simp: radius_msg_add_attr_int32_def split: outcome.splits)
next
  case (made_password msg al d secret r msg')
  then show ?case using add_attr_typed(1) [of msg 0 al] by (auto simp: radius_msg_add_attr_user_password_def Let_def split: if_splits)
qed (auto simp: radius_msg_set_hdr_def radius_msg_make_authenticator_def write_hdr_typed
    intro: add_attr_typed(1) add_eap_typed copy_attr_typed mppe_keys_typed finish_typed)

lemma subseq_sorted_wrt: "subseq xs ys \<Longrightarrow> sorted_wrt P ys \<Longrightarrow> sorted_wrt P xs"
  by (induction rule: list_emb.induct) (auto elim: list_emb_set)

lemma offsets_above: "q \<in> set (attr_offsets p as) \<Longrightarrow> p \<le> q"
  using offset_attr by fastforce

lemma offsets_disjoint:
  assumes "radius_rep msg hdr (us @ vs)"
  shows "sorted_wrt (\<lambda>p q. p + attr_length msg p \<le> q) (attr_offsets (20 + length (attrs_octets us)) vs)"
  using assms
proof (induction vs arbitrary: us)
  case (Cons v vs)
  have "sorted_wrt (\<lambda>p q. p + attr_length msg p \<le> q) (attr_offsets (20 + length (attrs_octets (us @ [v]))) vs)" by (rule Cons.IH) (use Cons.prems in simp)
  then show ?case using attr_fields(2) [OF Cons.prems] by (auto simp: add.assoc dest: offsets_above)
qed simp

text \<open>C9.  The type of RADIUS messages.  Every message that the operations make, also after failed allocations and from whatever octets were
  received, has a header within its buffer; the positions in its array are ascending, and each is that of an attribute with a length
  of at least two octets that ends within the message, before the next one.  So every loop over the attributes reads inside of the
  message.  (Messages stay shorter than the largest \<^verbatim>\<open>size_t\<close>.)\<close>

theorem radius_messages_typed:
  assumes "radius_made msg"
  shows "wpabuf_wf (rm_buf msg) \<and> 20 \<le> length (radius_octets msg) \<and>
    sorted_wrt (\<lambda>p q. p + attr_length msg p \<le> q) (attr_pos msg) \<and>
    (\<forall>p\<in>set (attr_pos msg). 20 \<le> p \<and> 2 \<le> attr_length msg p \<and> p + attr_length msg p \<le> length (radius_octets msg))"
proof -
  obtain hdr as where rep: "radius_rep msg hdr as" using made_typed [OF assms] by (auto simp: radius_typed_def)
  have o: "wpabuf_wf (rm_buf msg)" "radius_octets msg = hdr @ attrs_octets as" "length hdr = 20" "subseq (attr_pos msg) (attr_offsets 20 as)"
    using rep by (simp_all add: radius_rep_def)
  have "sorted_wrt (\<lambda>p q. p + attr_length msg p \<le> q) (attr_pos msg)"
    using subseq_sorted_wrt [OF o(4)] offsets_disjoint [of msg hdr "[]" as] rep by simp
  moreover have "20 \<le> p \<and> 2 \<le> attr_length msg p \<and> p + attr_length msg p \<le> length (radius_octets msg)" if "p \<in> set (attr_pos msg)" for p
    using rep_attr [OF rep that] o(2,3) by auto
  ultimately show ?thesis using o by simp
qed

theorem radius_messages_typed_witness:
  "\<exists>msg. radius_msg_parse (\<lambda>_ _. True) ([2, 1, 0, 24] @ replicate 16 0 @ [24, 4, 7, 7] @ [9]) = Done (Some msg) \<and> attr_pos msg = [20] \<and>
    20 + attr_length msg 20 \<le> length (radius_octets msg)"
proof -
  let ?h = "[2, 1, 0, 24] @ replicate 16 0 :: bytes"
  have "unat (WPA_GET_BE16 (drop 2 ?h)) = 20 + length (attrs_octets [(24, [7, 7])])" by (simp add: WPA_GET_BE16_def)
  from parse_complete [OF _ this, of "\<lambda>_ _. True" "[9]"] obtain msg where
    m: "radius_msg_parse (\<lambda>_ _. True) (?h @ [24, 4, 7, 7] @ [9]) = Done (Some msg)" "radius_holds msg ?h [(24, [7, 7])]"
    by (auto simp: attr_octets_def)
  have "attr_pos msg = [20]" using m(2) by (simp add: radius_holds_def)
  then show ?thesis using radius_messages_typed [OF made_parse [OF m(1)]] m(1) by auto
qed

end
