(* ===== verification/Radius_Glue.thy ===== *)
theory Radius_Glue
  imports Radius_Inv Ieee8021x
begin

text \<open>
  RADIUS replies at the IEEE 802.1X authenticator: \<^verbatim>\<open>ieee802_1x_receive_auth\<close> of \<^verbatim>\<open>src/ap/ieee802_1x.c\<close> on the octets of a packet.  The
  handler of the theory on IEEE 802.1X works on what it reads of a message; here this view is computed with the functions of
  \<^verbatim>\<open>src/radius/radius.c\<close>.
\<close>

section \<open>What the handler reads of a message\<close>

abbreviation (input) RADIUS_ATTR_USER_NAME :: u8 where "RADIUS_ATTR_USER_NAME \<equiv> 1"
abbreviation (input) RADIUS_ATTR_CLASS :: u8 where "RADIUS_ATTR_CLASS \<equiv> 25"
abbreviation (input) RADIUS_ATTR_SESSION_TIMEOUT :: u8 where "RADIUS_ATTR_SESSION_TIMEOUT \<equiv> 27"
abbreviation (input) RADIUS_ATTR_TERMINATION_ACTION :: u8 where "RADIUS_ATTR_TERMINATION_ACTION \<equiv> 29"
abbreviation (input) RADIUS_ATTR_ACCT_INTERIM_INTERVAL :: u8 where "RADIUS_ATTR_ACCT_INTERIM_INTERVAL \<equiv> 85"

text \<open>The inner loop over the Class attributes goes on from a pointer to the next value that is not empty; when there is none it keeps
  the last one.\<close>

lemma get_attr_ptr_next:
  assumes "radius_msg_get_attr_ptr msg t start = Some (p, len)"
  shows "\<exists>q\<in>set (attr_pos msg). p = q + 2 \<and> (case start of None \<Rightarrow> True | Some s \<Rightarrow> s < q)"
  using assms by (auto simp: radius_msg_get_attr_ptr_def filter_eq_Cons_iff split: list.splits)

lemma fewer_behind:
  assumes "q \<in> set ps" "case start of None \<Rightarrow> True | Some s \<Rightarrow> s < (q :: nat)"
  shows "length (filter (\<lambda>r. q + 2 < r) ps) < length (filter (\<lambda>r. case start of None \<Rightarrow> True | Some s \<Rightarrow> s < r) ps)"
proof -
  let ?P = "\<lambda>r. case start of None \<Rightarrow> True | Some s \<Rightarrow> s < r"
  have "filter (\<lambda>r. q + 2 < r) ps = filter (\<lambda>r. q + 2 < r) (filter ?P ps)" using assms(2) by (auto intro!: filter_cong split: option.splits)
  moreover have "length (filter (\<lambda>r. q + 2 < r) (filter ?P ps)) < length (filter ?P ps)" by (rule length_filter_less [of q]) (use assms in auto)
  ultimately show ?thesis by simp
qed

function class_search :: "radius_msg \<Rightarrow> nat option \<Rightarrow> nat \<Rightarrow> bool \<times> nat option \<times> nat" where
  "class_search msg class class_len =
     (case radius_msg_get_attr_ptr msg RADIUS_ATTR_CLASS class of
        None \<Rightarrow> (False, class, class_len)
      | Some (p, len) \<Rightarrow> if len < 1 then class_search msg (Some p) len else (True, Some p, len))"
  by auto
termination
  by (relation "measure (\<lambda>(msg, class, len). length (filter (\<lambda>r. case class of None \<Rightarrow> True | Some s \<Rightarrow> s < r) (attr_pos msg)))")
    (auto dest!: get_attr_ptr_next intro!: fewer_behind)

declare class_search.simps [simp del]

text \<open>A null pointer in the last step is an invalid access.\<close>

fun class_collect :: "os_alloc \<Rightarrow> radius_msg \<Rightarrow> nat \<Rightarrow> nat option \<Rightarrow> nat \<Rightarrow> bytes list option" where
  "class_collect os_alloc msg 0 class class_len = Some []"
| "class_collect os_alloc msg (Suc i) class class_len =
     (case class_search msg class class_len of
        (found, None, _) \<Rightarrow> None
      | (found, Some p, len) \<Rightarrow>
          if \<not> os_alloc 0 (word_of_nat len) then Some []
          else map_option ((#) (take len (drop p (wb_area (rm_buf msg)))))
            (if found then class_collect (\<lambda>k. os_alloc (k + 1)) msg i (Some p) len else Some []))"

definition radius_class_attrs :: "os_alloc \<Rightarrow> radius_msg \<Rightarrow> bytes list option" where
  "radius_class_attrs os_alloc msg =
     (let count = radius_msg_count_attr msg RADIUS_ATTR_CLASS 1 in
      if count = 0 then Some []
      else if \<not> os_alloc 0 (word_of_nat (count * 8)) then Some []
      else class_collect (\<lambda>k. os_alloc (k + 1)) msg count None 0)"

definition radius_view_of :: "os_alloc \<Rightarrow> bytes \<Rightarrow> radius_msg option \<Rightarrow> bool \<Rightarrow> bytes list \<Rightarrow> radius_msg \<Rightarrow> radius_view" where
  "radius_view_of os_alloc secret req verified cls msg =
     \<lparr>rv_code = hdr_code msg,
      rv_has_message_authenticator = (radius_msg_get_attr msg RADIUS_ATTR_MESSAGE_AUTHENTICATOR 0 \<noteq> None),
      rv_has_eap_message = (radius_msg_get_attr msg RADIUS_ATTR_EAP_MESSAGE 0 \<noteq> None),
      rv_verified = verified,
      rv_session_timeout = radius_msg_get_attr_int32 msg RADIUS_ATTR_SESSION_TIMEOUT,
      rv_termination_action = radius_msg_get_attr_int32 msg RADIUS_ATTR_TERMINATION_ACTION,
      rv_acct_interim_interval = radius_msg_get_attr_int32 msg RADIUS_ATTR_ACCT_INTERIM_INTERVAL,
      rv_vlanid = radius_msg_get_vlanid msg,
      rv_eap = radius_msg_get_eap (os_alloc 0) msg,
      rv_ms_keys =
        (case radius_msg_get_ms_keys (\<lambda>k. os_alloc (k + 1)) msg req secret of
           None \<Rightarrow> None
         | Some keys \<Rightarrow>
             (case (mk_recv keys, mk_send keys) of (Some recv, Some send) \<Rightarrow> Some (recv, send) | _ \<Rightarrow> None)),
      rv_class = cls,
      rv_user_name =
        (case radius_msg_get_attr_ptr msg RADIUS_ATTR_USER_NAME None of
           None \<Rightarrow> None
         | Some (buf, len) \<Rightarrow> Some (take len (drop buf (wb_area (rm_buf msg)))))\<rparr>"

text \<open>The handler on a message, for the station that the search by the identifier of the message finds, or for a station without a machine
  where it finds none: then nothing is verified, and neither is a rejection that has neither a
  Message-Authenticator nor an EAP message.\<close>

definition unprotected_reject :: "radius_msg \<Rightarrow> bool" where
  "unprotected_reject msg \<longleftrightarrow> hdr_code msg = RADIUS_CODE_ACCESS_REJECT \<and>
     radius_msg_get_attr msg RADIUS_ATTR_MESSAGE_AUTHENTICATOR 0 = None \<and> radius_msg_get_attr msg RADIUS_ATTR_EAP_MESSAGE 0 = None"

definition receive_auth_msg ::
  "os_alloc \<Rightarrow> hostapd_data \<Rightarrow> bytes \<Rightarrow> radius_msg option \<Rightarrow> radius_msg \<Rightarrow> 'e sta_info \<Rightarrow> (RadiusRxResult \<times> 'e sta_info) outcome" where
  "receive_auth_msg os_alloc hapd secret req msg sta =
     (if eapol_sm sta = None then Done (RADIUS_RX_UNKNOWN, sta)
      else case (if unprotected_reject msg then Done (0, msg) else radius_msg_verify secret req True msg) of
        Abort \<Rightarrow> Abort
      | Done (res, msg) \<Rightarrow>
          (case (if res = 0 \<and> hdr_code msg = RADIUS_CODE_ACCESS_ACCEPT then radius_class_attrs (\<lambda>k. os_alloc (k + 10)) msg else Some []) of
             None \<Rightarrow> Abort
           | Some cls \<Rightarrow> Done (ieee802_1x_receive_auth hapd (radius_view_of os_alloc secret req (res = 0) cls msg) sta)))"

section \<open>Packets in the run of a station\<close>

text \<open>A packet that belongs to the station comes with the request that the RADIUS client found for it and with the secret of the server.\<close>

datatype 'e net_event = Packet bytes "radius_msg option" bytes | Other "'e sta_event"

definition net_step ::
  "os_alloc \<Rightarrow> 'e eapol_env \<Rightarrow> ('e \<Rightarrow> 'e) \<Rightarrow> hostapd_data \<Rightarrow> 'e net_event \<Rightarrow> 'e sta_info \<Rightarrow> 'e sta_info outcome" where
  "net_step os_alloc E notify_cached hapd ev sta =
     (case ev of
        Other e \<Rightarrow> Done (sta_step E notify_cached hapd e sta)
      | Packet data req secret \<Rightarrow>
          (case radius_msg_parse os_alloc data of
             Abort \<Rightarrow> Abort
           | Done None \<Rightarrow> Done sta
           | Done (Some msg) \<Rightarrow>
               (case receive_auth_msg os_alloc hapd secret req msg sta of Abort \<Rightarrow> Abort | Done (_, sta) \<Rightarrow> Done sta)))"

fun net_run :: "os_alloc \<Rightarrow> 'e eapol_env \<Rightarrow> ('e \<Rightarrow> 'e) \<Rightarrow> hostapd_data \<Rightarrow> 'e net_event list \<Rightarrow> 'e sta_info \<Rightarrow> 'e sta_info outcome" where
  "net_run al E nc hapd [] sta = Done sta"
| "net_run al E nc hapd (ev # evs) sta =
     (case net_step al E nc hapd ev sta of Abort \<Rightarrow> Abort | Done sta \<Rightarrow> net_run al E nc hapd evs sta)"

text \<open>The packet is an Access-Accept that was computed with the secret for this request.\<close>

definition genuine_accept :: "os_alloc \<Rightarrow> bytes \<Rightarrow> radius_msg option \<Rightarrow> bytes \<Rightarrow> bool" where
  "genuine_accept al data req secret \<longleftrightarrow>
     (\<exists>msg sent. radius_msg_parse al data = Done (Some msg) \<and> hdr_code msg = RADIUS_CODE_ACCESS_ACCEPT \<and> req = Some sent \<and>
       authentic secret (hdr_authenticator sent) msg)"

text \<open>Nothing grants access: no cached PMKSA, no success of the EAP server and no genuine Access-Accept.\<close>

definition ungranted :: "('e \<Rightarrow> bool) \<Rightarrow> os_alloc \<Rightarrow> 'e net_event \<Rightarrow> bool" where
  "ungranted Q al ev =
     (case ev of
        Other e \<Rightarrow> \<not> grants e \<and> pred_option Q (event_eap e)
      | Packet data req secret \<Rightarrow> length secret + 64 < 2 ^ 32 \<and> pred_option radius_made req \<and> \<not> genuine_accept al data req secret)"

lemma parse_short:
  assumes "radius_msg_parse al data = Done (Some msg)"
  shows "short (radius_octets msg)"
proof -
  obtain as where "radius_holds msg (take 20 data) as" "take (unat (WPA_GET_BE16 (drop 2 data))) data = take 20 data @ attrs_octets as"
    using parse_returns [of al data] assms by auto
  then have "radius_octets msg = take (unat (WPA_GET_BE16 (drop 2 data))) data" by (simp add: radius_holds_def radius_rep_def)
  then have "length (radius_octets msg) < 65536" using unat_u16 [of "WPA_GET_BE16 (drop 2 data)"] by simp
  then show ?thesis by simp
qed

text \<open>An Access-Accept that is not genuine does not verify, and leaves the message alone.\<close>

lemma forged_accept:
  assumes "radius_msg_parse al data = Done (Some msg)" "\<not> genuine_accept al data req secret"
    "short secret" "pred_option radius_made req" "radius_msg_verify secret req True msg = Done (res, msg')"
  shows "msg' = msg \<and> (hdr_code msg = RADIUS_CODE_ACCESS_ACCEPT \<longrightarrow> res \<noteq> 0)"
proof (cases req)
  case None
  then show ?thesis using assms(5) by (simp add: radius_msg_verify_def)
next
  case (Some sent)
  then have l: "length (hdr_authenticator sent) = 16" using assms(4) made_typed typed_authenticator by auto
  obtain as where h: "radius_holds msg (take 20 data) as" "wb_area (rm_buf msg) = radius_octets msg" using parse_returns [of al data] assms(1) by auto
  have "hdr_code msg = RADIUS_CODE_ACCESS_ACCEPT \<Longrightarrow> \<not> authentic secret (hdr_authenticator sent) msg" using assms(1,2) Some by (auto simp: genuine_accept_def)
  then show ?thesis using verify_exact [OF h assms(3) parse_short [OF assms(1)] l] assms(5) Some by (auto split: if_splits)
qed

text \<open>Each packet is an event that grants nothing, or no event at all.\<close>

lemma net_step_event:
  assumes "ungranted Q al ev" "net_step al E nc hapd ev sta = Done sta'"
  shows "\<exists>evs. sta_run E nc hapd evs sta = sta' \<and> (\<forall>e\<in>set evs. \<not> grants e \<and> pred_option Q (event_eap e))"
proof -
  have idle: ?thesis if "sta' = sta" using that by (intro exI [of _ "[]"]) (simp add: sta_run_def)
  have one: ?thesis if "sta' = sta_step E nc hapd e sta" "\<not> grants e" "pred_option Q (event_eap e)" for e
    using that by (intro exI [of _ "[e]"]) (simp add: sta_run_def)
  show ?thesis
  proof (cases ev)
    case (Other e)
    then show ?thesis using one [of e] assms by (simp add: net_step_def ungranted_def)
  next
    case (Packet data req secret)
    show ?thesis
    proof (cases "radius_msg_parse al data = Done None \<or> eapol_sm sta = None")
      case True
      then show ?thesis using idle assms(2) Packet by (auto simp: net_step_def receive_auth_msg_def split: outcome.splits option.splits)
    next
      case False
      then obtain msg where p: "radius_msg_parse al data = Done (Some msg)" using assms(2) Packet by (auto simp: net_step_def split: outcome.splits option.splits)
      obtain x where x: "receive_auth_msg al hapd secret req msg sta = Done (x, sta')"
        using assms(2) Packet p by (auto simp: net_step_def split: outcome.splits)
      obtain res m where r: "(if unprotected_reject msg then Done (0, msg) else radius_msg_verify secret req True msg) = Done (res, m)"
        using x False by (cases "if unprotected_reject msg then Done (0, msg) else radius_msg_verify secret req True msg") (auto simp: receive_auth_msg_def)
      obtain cls where sta': "sta' = snd (ieee802_1x_receive_auth hapd (radius_view_of al secret req (res = 0) cls m) sta)"
        using x False unfolding receive_auth_msg_def r by (auto split: option.splits if_splits) (metis snd_conv)+
      let ?v = "radius_view_of al secret req (res = 0) cls m"
      have s: "sta' = sta_step E nc hapd (Ev_radius ?v) sta" using sta' by (simp add: sta_step_def)
      show ?thesis
      proof (cases "rv_code ?v = RADIUS_CODE_ACCESS_ACCEPT")
        case False
        then show ?thesis using one [OF s] by (simp add: grants_def event_eap_def)
      next
        case True
        then have m: "hdr_code m = RADIUS_CODE_ACCESS_ACCEPT" by (simp add: radius_view_of_def)
        have u: "\<not> unprotected_reject msg"
        proof
          assume u: "unprotected_reject msg"
          then have "m = msg" using r by simp
          then show False using u m by (simp add: unprotected_reject_def)
        qed
        have "res \<noteq> 0" using forged_accept [OF p, of req secret res m] r u m assms(1) Packet by (auto simp: ungranted_def)
        then have "sta' = sta" using sta' m by (simp add: ieee802_1x_receive_auth_def radius_view_of_def split: option.splits)
        then show ?thesis by (rule idle)
      qed
    qed
  qed
qed

lemma sta_run_append: "sta_run E nc hapd (evs @ evs') sta = sta_run E nc hapd evs' (sta_run E nc hapd evs sta)"
  by (simp add: sta_run_def)

lemma net_run_events:
  assumes "\<forall>ev\<in>set evs. ungranted Q al ev" "net_run al E nc hapd evs sta = Done sta'"
  shows "\<exists>es. sta_run E nc hapd es sta = sta' \<and> (\<forall>e\<in>set es. \<not> grants e \<and> pred_option Q (event_eap e))"
  using assms
proof (induction evs arbitrary: sta)
  case Nil
  then show ?case by (intro exI [of _ "[]"]) (simp add: sta_run_def)
next
  case (Cons ev evs)
  then obtain sta1 where s: "net_step al E nc hapd ev sta = Done sta1" "net_run al E nc hapd evs sta1 = Done sta'" by (auto split: outcome.splits)
  obtain es1 where "sta_run E nc hapd es1 sta = sta1" "\<forall>e\<in>set es1. \<not> grants e \<and> pred_option Q (event_eap e)"
    using net_step_event [OF _ s(1)] Cons.prems(1) by auto
  moreover obtain es2 where "sta_run E nc hapd es2 sta1 = sta'" "\<forall>e\<in>set es2. \<not> grants e \<and> pred_option Q (event_eap e)"
    using Cons.IH [OF _ s(2)] Cons.prems(1) by auto
  ultimately show ?case by (intro exI [of _ "es1 @ es2"]) (auto simp: sta_run_append)
qed

text \<open>C7.  Without the secret of the RADIUS server there is no access.  In every run of a station in which no cached PMKSA is presented, the
  EAP server reports no success and packets arrive in the name of the RADIUS server, of any contents, in any order and mixed with
  any other events, the port stays closed and the driver is never told to open it, as long as none of the packets is an
  Access-Accept with exactly one Message-Authenticator and a Response Authenticator that both are the keyed hashes of this packet, the
  authenticator of the request and the secret.\<close>

theorem no_access_without_radius_secret:
  assumes "eap_quiet Q S" "\<forall>ev\<in>set evs. ungranted Q al ev"
    and "net_run al (ieee802_1x_env A S) nc hapd evs sta_new = Done sta" "eapol_sm sta = Some sm"
  shows "authPortStatus sm \<noteq> Authorized \<and> True \<notin> set (port_log (cb_log sm))"
proof -
  obtain es where es: "sta_run (ieee802_1x_env A S) nc hapd es sta_new = sta" "\<forall>e\<in>set es. \<not> grants e \<and> pred_option Q (event_eap e)"
    using net_run_events [OF assms(2,3)] by blast
  then show ?thesis
    using sm_invariant.run_P [OF denied_invariant [OF assms(1)], of sta_new es A nc hapd] assms(4)
    by (simp add: sta_new_def denied_def wpa_auth_sta_get_pmksa_def)
qed

theorem no_access_without_radius_secret_witness:
  "\<exists>sent sta sm. radius_msg_new (\<lambda>_ _. True) 1 7 = Done (Some sent) \<and>
    net_run (\<lambda>_ _. True) (ieee802_1x_env demo_context demo_eap) id demo_conf
      [Other (Ev_associate 3 None), Other (Ev_new_station True (Some ())), Other Ev_run, Packet ([2, 7, 0, 20] @ replicate 16 5) (Some sent) [1, 2, 3]] sta_new = Done sta \<and>
    eapol_sm sta = Some sm \<and> authPortStatus sm \<noteq> Authorized"
proof -
  let ?al = "\<lambda>_ _. True"
  let ?h = "[2, 7, 0, 20] @ replicate 16 5 :: bytes"
  obtain sent where s: "radius_msg_new ?al 1 7 = Done (Some sent)" using new_holds [of ?al 1 7] by auto
  have "unat (WPA_GET_BE16 (drop 2 ?h)) = 20 + length (attrs_octets [])" by (simp add: WPA_GET_BE16_def)
  from parse_complete [OF _ this, of ?al "[]"] obtain msg where
    p: "radius_msg_parse ?al ?h = Done (Some msg)" "radius_holds msg ?h []" by auto
  have a: "attr_pos msg = []" "hdr_code msg = 2" using p(2) hdr_fields(1) [OF holds_rep [OF p(2)]] by (simp_all add: radius_holds_def)
  have v: "radius_msg_verify [1, 2, 3] (Some sent) True msg = Done (1, msg)" "\<not> unprotected_reject msg" "\<not> authentic k r msg" for k r
    using a by (simp_all add: radius_msg_verify_def radius_msg_verify_msg_auth_def unprotected_reject_def authentic_def msg_auths_def)
  let ?es = "[Ev_associate 3 None, Ev_new_station True (Some ()), Ev_run]"
  have "case eapol_sm (demo_run ?es) of None \<Rightarrow> False | Some sm \<Rightarrow> True" by code_simp
  then obtain sm where sm: "eapol_sm (demo_run ?es) = Some sm" by (auto split: option.splits)
  let ?evs = "[Other (Ev_associate 3 None), Other (Ev_new_station True (Some ())), Other Ev_run, Packet ?h (Some sent) [1, 2, 3]]"
  have "net_step ?al (ieee802_1x_env demo_context demo_eap) id demo_conf (Packet ?h (Some sent) [1, 2, 3]) (demo_run ?es) = Done (demo_run ?es)"
    using p(1) v a(2) sm by (simp add: net_step_def receive_auth_msg_def ieee802_1x_receive_auth_def radius_view_of_def)
  then have r: "net_run ?al (ieee802_1x_env demo_context demo_eap) id demo_conf ?evs sta_new = Done (demo_run ?es)"
    by (simp add: net_step_def [of _ _ _ _ "Other _"] sta_run_def)
  have "eap_quiet (\<lambda>_. True) demo_eap" by (auto simp: eap_quiet_def demo_eap_def)
  moreover have "\<forall>ev\<in>set ?evs. ungranted (\<lambda>_. True) ?al ev"
    using p(1) v(3) made_new [OF s] by (simp add: ungranted_def grants_def event_eap_def wpa_auth_sta_get_pmksa_def genuine_accept_def)
  ultimately have "authPortStatus sm \<noteq> Authorized" using no_access_without_radius_secret [OF _ _ r sm] by blast
  then show ?thesis using s r sm by blast
qed

section \<open>Defects\<close>

text \<open>The search for a Class attribute always has a pointer when it ends, so that nothing is read through a null pointer.\<close>

lemma class_search_pointer: "cp \<noteq> None \<Longrightarrow> class_search msg cp len = (f, c, l) \<Longrightarrow> c \<noteq> None"
proof (induction msg cp len arbitrary: f c l rule: class_search.induct)
  case (1 msg cp len)
  then show ?case by (cases "radius_msg_get_attr_ptr msg RADIUS_ATTR_CLASS cp") (auto simp: class_search.simps [of msg cp] split: if_splits)
qed

lemma class_collect_returns: "cp \<noteq> None \<or> n = 0 \<or> fst (snd (class_search msg cp len)) \<noteq> None \<Longrightarrow> class_collect al msg n cp len \<noteq> None"
proof (induction al msg n cp len rule: class_collect.induct)
  case (2 al msg i cp len)
  obtain f c l where s: "class_search msg cp len = (f, c, l)" by (cases "class_search msg cp len") auto
  then obtain p where "c = Some p" using 2(2) class_search_pointer [of cp msg len f c l] by auto
  then show ?case using 2(1) [OF s [symmetric]] s by auto
qed simp

lemma class_attrs_returns: "radius_class_attrs al msg \<noteq> None"
proof (cases "radius_msg_count_attr msg RADIUS_ATTR_CLASS 1 = 0")
  case False
  then have "filter (\<lambda>p. attr_type msg p = RADIUS_ATTR_CLASS) (attr_pos msg) \<noteq> []"
    by (auto simp: radius_msg_count_attr_def filter_empty_conv)
  then obtain p l where "radius_msg_get_attr_ptr msg RADIUS_ATTR_CLASS None = Some (p, l)"
    by (auto simp: radius_msg_get_attr_ptr_def neq_Nil_conv)
  then have "fst (snd (class_search msg None 0)) \<noteq> None"
    using class_search_pointer [of "Some p" msg l] by (cases "class_search msg (Some p) l") (auto simp: class_search.simps [of msg None])
  then show ?thesis using class_collect_returns by (simp add: radius_class_attrs_def Let_def)
qed (simp add: radius_class_attrs_def)

text \<open>The pointer to an empty value is the position of the next attribute, which the search for a greater position then skips: the Class
  attribute behind an empty one is lost, and an empty one is stored.\<close>

lemma class_behind_empty_lost:
  assumes "radius_holds msg hdr [(RADIUS_ATTR_CLASS, []), (RADIUS_ATTR_CLASS, [x])]"
  shows "radius_class_attrs (\<lambda>_ _. True) msg = Some [[]]"
proof -
  have a: "attr_pos msg = [20, 22]" "attr_type msg 20 = RADIUS_ATTR_CLASS" "attr_length msg 20 = 2" "attr_type msg 22 = RADIUS_ATTR_CLASS" "attr_length msg 22 = 3"
    using assms holds_rep [OF assms] attr_fields [of msg hdr "[]" "(RADIUS_ATTR_CLASS, [])" "[(RADIUS_ATTR_CLASS, [x])]"]
      attr_fields [of msg hdr "[(RADIUS_ATTR_CLASS, [])]" "(RADIUS_ATTR_CLASS, [x])" "[]"] by (simp_all add: radius_holds_def)
  have "radius_msg_get_attr_ptr msg RADIUS_ATTR_CLASS None = Some (22, 0)" "radius_msg_get_attr_ptr msg RADIUS_ATTR_CLASS (Some 22) = None"
    using a by (simp_all add: radius_msg_get_attr_ptr_def)
  then have "class_search msg None 0 = (False, Some 22, 0)" by (simp add: class_search.simps)
  moreover have "radius_msg_count_attr msg RADIUS_ATTR_CLASS 1 = Suc 0" using a by (simp add: radius_msg_count_attr_def)
  ultimately show ?thesis by (simp add: radius_class_attrs_def)
qed

text \<open>A Message-Authenticator of less than sixteen octets at the end of a packet makes the verification read and write behind the buffer.\<close>

lemma short_authenticator_overruns:
  "\<exists>msg. radius_msg_parse (\<lambda>_ _. True) ([2, 7, 0, 22] @ replicate 16 5 @ [80, 2]) = Done (Some msg) \<and>
    radius_msg_verify secret (Some sent) True msg = Abort"
proof -
  let ?h = "[2, 7, 0, 22] @ replicate 16 5 :: bytes"
  have "unat (WPA_GET_BE16 (drop 2 ?h)) = 20 + length (attrs_octets [(80, [])])" by (simp add: WPA_GET_BE16_def)
  from parse_complete [OF _ this, of "\<lambda>_ _. True" "[]"] obtain msg where
    p: "radius_msg_parse (\<lambda>_ _. True) (?h @ [80, 2]) = Done (Some msg)" "radius_holds msg ?h [(80, [])]" by (auto simp: attr_octets_def)
  have "attr_pos msg = [20]" "attr_type msg 20 = 80" using p(2) attr_fields(1) [of msg ?h "[]" "(80, [])" "[]"] by (simp_all add: radius_holds_def)
  moreover have "length (wb_area (rm_buf msg)) = 22"
    using parse_returns [of "\<lambda>_ _. True" "?h @ [80, 2]"] p(1) holds_rep [OF p(2)] by (auto simp: radius_rep_def)
  ultimately show ?thesis using p(1) by (auto simp: radius_msg_verify_def radius_msg_verify_msg_auth_def)
qed

text \<open>A rejection without these attributes is taken up without any verification.\<close>

lemma unprotected_reject_taken:
  assumes "unprotected_reject msg" "eapol_sm sta \<noteq> None"
  shows "\<exists>sta'. receive_auth_msg al hapd secret req msg sta = Done (RADIUS_RX_QUEUED, sta')"
proof -
  have "hdr_code msg = RADIUS_CODE_ACCESS_REJECT" using assms(1) by (simp add: unprotected_reject_def)
  then show ?thesis using assms
    by (auto simp: receive_auth_msg_def ieee802_1x_receive_auth_def radius_view_of_def unprotected_reject_def Let_def split: prod.splits)
qed

end
