(* ===== verification/Radius_Client.thy ===== *)
theory Radius_Client
  imports Radius_Inv Ieee8021x "HOL-Library.Signed_Division"
begin

text \<open>
  The RADIUS client: \<^verbatim>\<open>src/radius/radius_client.c\<close>.  Requests that are sent wait in a list for their replies; a timer sends them again,
  after longer and longer times, and changes to another server when the current one does not answer.  An entry of the list has a
  reference in the place of its address, so that the use of an entry that was freed meanwhile shows: \<open>None\<close> in a result is such a use, or
  the end of the program in a buffer overflow.  Sockets are not modelled, but for what \<^verbatim>\<open>send\<close> reports.
\<close>

section \<open>State\<close>

abbreviation (input) RADIUS_CLIENT_FIRST_WAIT :: int where "RADIUS_CLIENT_FIRST_WAIT \<equiv> 3"
abbreviation (input) RADIUS_CLIENT_MAX_WAIT :: int where "RADIUS_CLIENT_MAX_WAIT \<equiv> 120"
abbreviation (input) RADIUS_CLIENT_MAX_RETRIES :: int where "RADIUS_CLIENT_MAX_RETRIES \<equiv> 10"
abbreviation (input) RADIUS_CLIENT_MAX_ENTRIES :: u32 where "RADIUS_CLIENT_MAX_ENTRIES \<equiv> 30"
abbreviation (input) RADIUS_CLIENT_NUM_FAILOVER :: int where "RADIUS_CLIENT_NUM_FAILOVER \<equiv> 4"

datatype RadiusType = RADIUS_AUTH | RADIUS_ACCT | RADIUS_ACCT_INTERIM

text \<open>Addresses and ports are not modelled, nor the counter that the client does not change.\<close>

record hostapd_radius_server =
  rs_secret :: bytes
  rs_round_trip_time :: int
  rs_requests :: u32
  rs_retransmissions :: u32
  rs_access_accepts :: u32
  rs_access_rejects :: u32
  rs_access_challenges :: u32
  rs_responses :: u32
  rs_malformed_responses :: u32
  rs_bad_authenticators :: u32
  rs_timeouts :: u32
  rs_unknown_types :: u32

record radius_msg_list =
  rl_ref :: nat
  rl_addr :: bytes
  rl_msg :: radius_msg
  rl_type :: RadiusType
  rl_first_try :: int
  rl_next_try :: int
  rl_attempts :: int
  rl_next_wait :: int
  rl_last_attempt :: "int \<times> int"
  rl_secret :: bytes

text \<open>The current server is an index into the list of servers.  \<open>rc_timers\<close> are the delays of the pending calls of \<^verbatim>\<open>radius_client_timer\<close>,
  \<open>rc_sent\<close> the messages that were given to \<^verbatim>\<open>send\<close>.\<close>

record radius_client_data =
  rc_msgs :: "radius_msg_list list"
  rc_num_msgs :: u32
  rc_next_id :: u8
  rc_auth_servers :: "hostapd_radius_server list"
  rc_auth_server :: "nat option"
  rc_acct_servers :: "hostapd_radius_server list"
  rc_acct_server :: "nat option"
  rc_timers :: "int list"
  rc_sent :: "(RadiusType \<times> bytes) list"
  rc_refs :: nat

text \<open>The system: time, the result of \<^verbatim>\<open>send\<close>, and whether a socket can be opened, the open ones be registered with the event loop, and
  memory be allocated, each depending on what was sent before.  \<open>Send_reconnect\<close> is an error that calls for a new socket (\<^verbatim>\<open>ENOTCONN\<close>, \<^verbatim>\<open>EDESTADDRREQ\<close>, \<^verbatim>\<open>EINVAL\<close>, \<^verbatim>\<open>EBADF\<close>).\<close>

datatype send_result = Send_ok | Send_error | Send_reconnect

record radius_env =
  re_time :: "(RadiusType \<times> bytes) list \<Rightarrow> int \<times> int"
  re_send :: "(RadiusType \<times> bytes) list \<Rightarrow> send_result"
  re_socket :: "(RadiusType \<times> bytes) list \<Rightarrow> bool"
  re_register :: "(RadiusType \<times> bytes) list \<Rightarrow> bool"
  re_zalloc :: "(RadiusType \<times> bytes) list \<Rightarrow> bool"
  re_terminated :: "(RadiusType \<times> bytes) list \<Rightarrow> bool"

definition acct_type :: "RadiusType \<Rightarrow> bool" where
  "acct_type t \<longleftrightarrow> t = RADIUS_ACCT \<or> t = RADIUS_ACCT_INTERIM"

definition upd_server :: "bool \<Rightarrow> (hostapd_radius_server \<Rightarrow> hostapd_radius_server) \<Rightarrow> radius_client_data \<Rightarrow> radius_client_data" where
  "upd_server acct f rc =
     (if acct then
        case rc_acct_server rc of None \<Rightarrow> rc | Some i \<Rightarrow> rc\<lparr>rc_acct_servers := (rc_acct_servers rc)[i := f (rc_acct_servers rc ! i)]\<rparr>
      else
        case rc_auth_server rc of None \<Rightarrow> rc | Some i \<Rightarrow> rc\<lparr>rc_auth_servers := (rc_auth_servers rc)[i := f (rc_auth_servers rc ! i)]\<rparr>)"

definition server_secret :: "bool \<Rightarrow> radius_client_data \<Rightarrow> bytes" where
  "server_secret acct rc =
     (if acct then case rc_acct_server rc of None \<Rightarrow> [] | Some i \<Rightarrow> rs_secret (rc_acct_servers rc ! i)
      else case rc_auth_server rc of None \<Rightarrow> [] | Some i \<Rightarrow> rs_secret (rc_auth_servers rc ! i))"

definition entry_of :: "radius_client_data \<Rightarrow> nat \<Rightarrow> radius_msg_list option" where
  "entry_of rc r = find (\<lambda>e. rl_ref e = r) (rc_msgs rc)"

definition upd_entry :: "nat \<Rightarrow> (radius_msg_list \<Rightarrow> radius_msg_list) \<Rightarrow> radius_client_data \<Rightarrow> radius_client_data" where
  "upd_entry r f rc = rc\<lparr>rc_msgs := map (\<lambda>e. if rl_ref e = r then f e else e) (rc_msgs rc)\<rparr>"

text \<open>Unlinking and freeing all entries with a property.  Most callers count the freed ones.\<close>

definition drop_entries :: "(radius_msg_list \<Rightarrow> bool) \<Rightarrow> radius_client_data \<Rightarrow> radius_client_data" where
  "drop_entries P rc =
     rc\<lparr>rc_msgs := filter (\<lambda>e. \<not> P e) (rc_msgs rc), rc_num_msgs := rc_num_msgs rc - word_of_nat (length (filter P (rc_msgs rc)))\<rparr>"

section \<open>Servers\<close>

definition radius_client_flush :: "bool \<Rightarrow> radius_client_data \<Rightarrow> radius_client_data" where
  "radius_client_flush only_auth rc =
     (let rc = drop_entries (\<lambda>e. \<not> only_auth \<or> rl_type e = RADIUS_AUTH) rc
      in if rc_msgs rc = [] then rc\<lparr>rc_timers := []\<rparr> else rc)"

definition radius_client_update_acct_msgs :: "bytes \<Rightarrow> radius_client_data \<Rightarrow> radius_client_data" where
  "radius_client_update_acct_msgs secret rc =
     rc\<lparr>rc_msgs := map (\<lambda>e. if rl_type e = RADIUS_ACCT
          then e\<lparr>rl_secret := secret, rl_msg := radius_msg_finish_acct secret (rl_msg e)\<rparr> else e) (rc_msgs rc)\<rparr>"

text \<open>\<open>nserv\<close> and \<open>oserv\<close> are the secrets of the new and of the old server.  The entries of the type get their counters back.\<close>

definition radius_change_server :: "bytes \<Rightarrow> bytes option \<Rightarrow> bool \<Rightarrow> radius_client_data \<Rightarrow> radius_client_data" where
  "radius_change_server nserv oserv auth rc =
     (let rc = (if oserv \<noteq> Some nserv then
                  if auth then radius_client_flush True rc else radius_client_update_acct_msgs nserv rc
                else rc);
          rc = rc\<lparr>rc_msgs := map (\<lambda>e. if (auth \<and> rl_type e \<noteq> RADIUS_AUTH) \<or> (\<not> auth \<and> rl_type e \<noteq> RADIUS_ACCT) then e
                 else e\<lparr>rl_next_try := rl_first_try e + RADIUS_CLIENT_FIRST_WAIT, rl_attempts := 0,
                        rl_next_wait := RADIUS_CLIENT_FIRST_WAIT * 2\<rparr>) (rc_msgs rc)\<rparr>
      in if rc_msgs rc \<noteq> [] then rc\<lparr>rc_timers := [RADIUS_CLIENT_FIRST_WAIT]\<rparr> else rc)"

definition radius_client_init_auth :: "radius_env \<Rightarrow> radius_client_data \<Rightarrow> int \<times> radius_client_data" where
  "radius_client_init_auth E rc =
     (if \<not> re_socket E (rc_sent rc) then (-1, rc)
      else (if re_register E (rc_sent rc) then 0 else -1, radius_change_server (server_secret False rc) None True rc))"

definition radius_client_init_acct :: "radius_env \<Rightarrow> radius_client_data \<Rightarrow> int \<times> radius_client_data" where
  "radius_client_init_acct E rc =
     (if \<not> re_socket E (rc_sent rc) then (-1, rc)
      else (if re_register E (rc_sent rc) then 0 else -1, radius_change_server (server_secret True rc) None False rc))"

definition radius_client_handle_send_error :: "radius_env \<Rightarrow> RadiusType \<Rightarrow> radius_client_data \<Rightarrow> radius_client_data" where
  "radius_client_handle_send_error E msg_type rc =
     snd (if acct_type msg_type then radius_client_init_acct E rc else radius_client_init_auth E rc)"

text \<open>\<^verbatim>\<open>send\<close>, with what the callers do about its result.\<close>

definition send_msg :: "radius_env \<Rightarrow> RadiusType \<Rightarrow> radius_msg \<Rightarrow> radius_client_data \<Rightarrow> int \<times> radius_client_data" where
  "send_msg E t msg rc =
     (let rc = rc\<lparr>rc_sent := rc_sent rc @ [(t, radius_octets msg)]\<rparr> in
      case re_send E (rc_sent rc) of
        Send_ok \<Rightarrow> (int (length (radius_octets msg)), rc)
      | Send_error \<Rightarrow> (-1, rc)
      | Send_reconnect \<Rightarrow> (-1, radius_client_handle_send_error E t rc))"

section \<open>Retransmission\<close>

definition radius_client_retransmit :: "radius_env \<Rightarrow> nat \<Rightarrow> int \<Rightarrow> radius_client_data \<Rightarrow> (bool \<times> radius_client_data) option" where
  "radius_client_retransmit E r now rc =
     (case entry_of rc r of
        None \<Rightarrow> None
      | Some entry \<Rightarrow>
          let rc = upd_server (acct_type (rl_type entry))
                (\<lambda>s. if rl_attempts entry = 0 then s\<lparr>rs_requests := rs_requests s + 1\<rparr>
                     else s\<lparr>rs_timeouts := rs_timeouts s + 1, rs_retransmissions := rs_retransmissions s + 1\<rparr>) rc;
              rc = upd_entry r (\<lambda>e. e\<lparr>rl_attempts := rl_attempts e + 1, rl_last_attempt := re_time E (rc_sent rc)\<rparr>) rc;
              rc = snd (send_msg E (rl_type entry) (rl_msg entry) rc) in
          if entry_of rc r = None then None
          else
            let rc = upd_entry r (\<lambda>e. e\<lparr>rl_next_try := now + rl_next_wait e, rl_next_wait :=
                  (if rl_next_wait e * 2 > RADIUS_CLIENT_MAX_WAIT then RADIUS_CLIENT_MAX_WAIT else rl_next_wait e * 2)\<rparr>) rc
            in case entry_of rc r of
                 None \<Rightarrow> None
               | Some entry \<Rightarrow> Some (rl_attempts entry \<ge> RADIUS_CLIENT_MAX_RETRIES, rc))"

text \<open>The loop of the timer over the entries: \<open>first\<close> is the earliest time of a retransmission, or 0; \<open>af\<close> and \<open>cf\<close> tell whether an
  authentication or an accounting request calls for another server.\<close>

fun timer_loop :: "radius_env \<Rightarrow> int \<Rightarrow> nat list \<Rightarrow> int \<Rightarrow> bool \<Rightarrow> bool \<Rightarrow> radius_client_data \<Rightarrow> (int \<times> bool \<times> bool \<times> radius_client_data) option" where
  "timer_loop E now [] first af cf rc = Some (first, af, cf, rc)"
| "timer_loop E now (r # rs) first af cf rc =
     (case (case entry_of rc r of
              None \<Rightarrow> None
            | Some e \<Rightarrow> if now \<ge> rl_next_try e then radius_client_retransmit E r now rc else Some (False, rc)) of
        None \<Rightarrow> None
      | Some (True, rc) \<Rightarrow> timer_loop E now rs first af cf (drop_entries (\<lambda>e. rl_ref e = r) rc)
      | Some (False, rc) \<Rightarrow>
          (case entry_of rc r of
             None \<Rightarrow> None
           | Some e \<Rightarrow>
               let failover = rl_attempts e > RADIUS_CLIENT_NUM_FAILOVER in
               timer_loop E now rs (if first = 0 \<or> rl_next_try e < first then rl_next_try e else first)
                 (af \<or> (failover \<and> \<not> acct_type (rl_type e))) (cf \<or> (failover \<and> acct_type (rl_type e))) rc))"

text \<open>The next server of the list after \<open>i\<close>, of \<open>n\<close> servers.\<close>

definition next_server :: "nat \<Rightarrow> nat \<Rightarrow> nat" where
  "next_server n i = (if i + 1 > n - 1 then 0 else i + 1)"

definition auth_failover :: "radius_client_data \<Rightarrow> radius_client_data" where
  "auth_failover rc =
     (case rc_auth_server rc of
        None \<Rightarrow> rc
      | Some i \<Rightarrow>
          let old = server_secret False rc;
              rc = upd_server False (\<lambda>s. s\<lparr>rs_timeouts := rs_timeouts s + word_of_nat (length (filter (\<lambda>e. rl_type e = RADIUS_AUTH) (rc_msgs rc)))\<rparr>) rc;
              rc = rc\<lparr>rc_auth_server := Some (next_server (length (rc_auth_servers rc)) i)\<rparr>
          in radius_change_server (server_secret False rc) (Some old) True rc)"

definition acct_failover :: "radius_client_data \<Rightarrow> radius_client_data" where
  "acct_failover rc =
     (case rc_acct_server rc of
        None \<Rightarrow> rc
      | Some i \<Rightarrow>
          let old = server_secret True rc;
              rc = upd_server True (\<lambda>s. s\<lparr>rs_timeouts := rs_timeouts s + word_of_nat (length (filter (\<lambda>e. acct_type (rl_type e)) (rc_msgs rc)))\<rparr>) rc;
              rc = rc\<lparr>rc_acct_server := Some (next_server (length (rc_acct_servers rc)) i)\<rparr>
          in radius_change_server (server_secret True rc) (Some old) False rc)"

text \<open>The event loop has taken the timeout off its list.\<close>

definition radius_client_timer :: "radius_env \<Rightarrow> radius_client_data \<Rightarrow> radius_client_data option" where
  "radius_client_timer E rc =
     (let rc = rc\<lparr>rc_timers := tl (rc_timers rc)\<rparr>; now = fst (re_time E (rc_sent rc)) in
      if rc_msgs rc = [] then Some rc
      else case timer_loop E now (map rl_ref (rc_msgs rc)) 0 False False rc of
        None \<Rightarrow> None
      | Some (first, af, cf, rc) \<Rightarrow>
          let rc = (if rc_msgs rc \<noteq> [] then rc\<lparr>rc_timers := rc_timers rc @ [(if first < now then now else first) - now]\<rparr> else rc);
              rc = (if af \<and> length (rc_auth_servers rc) > 1 then auth_failover rc else rc)
          in Some (if cf \<and> length (rc_acct_servers rc) > 1 then acct_failover rc else rc))"

definition first_try_of :: "radius_msg_list list \<Rightarrow> int" where
  "first_try_of msgs = foldl (\<lambda>first e. if first = 0 \<or> rl_next_try e < first then rl_next_try e else first) 0 msgs"

definition radius_client_update_timeout :: "radius_env \<Rightarrow> radius_client_data \<Rightarrow> radius_client_data" where
  "radius_client_update_timeout E rc =
     (if rc_msgs rc = [] then rc\<lparr>rc_timers := []\<rparr>
      else let first = first_try_of (rc_msgs rc); now = fst (re_time E (rc_sent rc))
           in rc\<lparr>rc_timers := [(if first < now then now else first) - now]\<rparr>)"

section \<open>Requests and replies\<close>

definition radius_client_list_add ::
  "radius_env \<Rightarrow> radius_msg \<Rightarrow> RadiusType \<Rightarrow> bytes \<Rightarrow> bytes option \<Rightarrow> radius_client_data \<Rightarrow> radius_client_data" where
  "radius_client_list_add E msg msg_type secret addr rc =
     (if re_terminated E (rc_sent rc) then rc
      else if \<not> re_zalloc E (rc_sent rc) then rc
      else
        let now = re_time E (rc_sent rc);
            entry = \<lparr>rl_ref = rc_refs rc, rl_addr = (case addr of None \<Rightarrow> replicate 6 0 | Some a \<Rightarrow> a), rl_msg = msg, rl_type = msg_type,
              rl_first_try = fst now, rl_next_try = fst now + RADIUS_CLIENT_FIRST_WAIT, rl_attempts = 1,
              rl_next_wait = RADIUS_CLIENT_FIRST_WAIT * 2, rl_last_attempt = now, rl_secret = secret\<rparr>;
            rc = rc\<lparr>rc_msgs := entry # rc_msgs rc, rc_refs := rc_refs rc + 1\<rparr>;
            rc = radius_client_update_timeout E rc in
        if rc_num_msgs rc \<ge> RADIUS_CLIENT_MAX_ENTRIES then
          if length (rc_msgs rc) > 1 then rc\<lparr>rc_msgs := butlast (rc_msgs rc)\<rparr> else rc
        else rc\<lparr>rc_num_msgs := rc_num_msgs rc + 1\<rparr>)"

definition radius_client_list_del :: "RadiusType \<Rightarrow> bytes option \<Rightarrow> radius_client_data \<Rightarrow> radius_client_data" where
  "radius_client_list_del msg_type addr rc =
     (case addr of None \<Rightarrow> rc | Some a \<Rightarrow> drop_entries (\<lambda>e. rl_type e = msg_type \<and> rl_addr e = a) rc)"

text \<open>The result of \<^verbatim>\<open>radius_msg_finish\<close> is not looked at.\<close>

definition radius_client_send ::
  "radius_env \<Rightarrow> os_alloc \<Rightarrow> radius_msg \<Rightarrow> RadiusType \<Rightarrow> bytes option \<Rightarrow> radius_client_data \<Rightarrow> (int \<times> radius_client_data) option" where
  "radius_client_send E os_alloc msg msg_type addr rc =
     (let rc = (if msg_type = RADIUS_ACCT_INTERIM then radius_client_list_del msg_type addr rc else rc);
          acct = acct_type msg_type in
      if (if acct then rc_acct_server rc else rc_auth_server rc) = None then Some (-1, rc)
      else
        let secret = server_secret acct rc in
        case (if acct then Some (radius_msg_finish_acct secret msg)
              else case radius_msg_finish os_alloc (Some secret) msg of Abort \<Rightarrow> None | Done (_, msg) \<Rightarrow> Some msg) of
          None \<Rightarrow> None
        | Some msg \<Rightarrow>
            let rc = upd_server acct (\<lambda>s. s\<lparr>rs_requests := rs_requests s + 1\<rparr>) rc;
                (res, rc) = send_msg E msg_type msg rc
            in Some (res, radius_client_list_add E msg msg_type secret addr rc))"

definition count_code :: "u8 \<Rightarrow> hostapd_radius_server \<Rightarrow> hostapd_radius_server" where
  "count_code code s =
     (if code = RADIUS_CODE_ACCESS_ACCEPT then s\<lparr>rs_access_accepts := rs_access_accepts s + 1\<rparr>
      else if code = RADIUS_CODE_ACCESS_REJECT then s\<lparr>rs_access_rejects := rs_access_rejects s + 1\<rparr>
      else if code = RADIUS_CODE_ACCESS_CHALLENGE then s\<lparr>rs_access_challenges := rs_access_challenges s + 1\<rparr>
      else if code = 5 then s\<lparr>rs_responses := rs_responses s + 1\<rparr> else s)"

text \<open>The handlers are called in order until one has processed or queued the message; the flags tell whether one did, and whether one
  found the authenticators invalid.  A handler does not call the client: the state machines that it steps run later, from a
  timeout.\<close>

type_synonym 's rx_handler = "radius_msg \<Rightarrow> radius_msg \<Rightarrow> bytes \<Rightarrow> 's \<Rightarrow> (RadiusRxResult \<times> 's) outcome"

fun call_handlers :: "'s rx_handler list \<Rightarrow> radius_msg \<Rightarrow> radius_msg \<Rightarrow> bytes \<Rightarrow> bool \<Rightarrow> 's \<Rightarrow> (bool \<times> bool \<times> 's) option" where
  "call_handlers [] msg req secret invalid s = Some (False, invalid, s)"
| "call_handlers (h # hs) msg req secret invalid s =
     (case h msg req secret s of
        Abort \<Rightarrow> None
      | Done (res, s) \<Rightarrow>
          if res = RADIUS_RX_PROCESSED \<or> res = RADIUS_RX_QUEUED then Some (True, invalid, s)
          else call_handlers hs msg req secret (invalid \<or> res = RADIUS_RX_INVALID_AUTHENTICATOR) s)"

text \<open>The handlers of the two kinds of messages; \<open>realloc\<close> tells whether the array could be enlarged.\<close>

type_synonym 's rx_table = "RadiusType \<Rightarrow> 's rx_handler list"

definition handlers_of :: "'s rx_table \<Rightarrow> RadiusType \<Rightarrow> 's rx_handler list" where
  "handlers_of hs msg_type = hs (if msg_type = RADIUS_ACCT then RADIUS_ACCT else RADIUS_AUTH)"

definition radius_client_register :: "bool \<Rightarrow> RadiusType \<Rightarrow> 's rx_handler \<Rightarrow> 's rx_table \<Rightarrow> int \<times> 's rx_table" where
  "radius_client_register realloc msg_type handler hs =
     (let t = (if msg_type = RADIUS_ACCT then RADIUS_ACCT else RADIUS_AUTH)
      in if \<not> realloc then (-1, hs) else (0, hs(t := hs t @ [handler])))"

text \<open>The request that a reply with an identifier answers.\<close>

definition answers_request :: "RadiusType \<Rightarrow> u8 \<Rightarrow> radius_msg_list \<Rightarrow> bool" where
  "answers_request msg_type idn req \<longleftrightarrow>
     (rl_type req = msg_type \<or> (rl_type req = RADIUS_ACCT_INTERIM \<and> msg_type = RADIUS_ACCT)) \<and> hdr_identifier (rl_msg req) = idn"

text \<open>\<open>data\<close> is what \<^verbatim>\<open>recv\<close> put into the buffer of 3000 octets.\<close>

definition radius_client_receive ::
  "radius_env \<Rightarrow> os_alloc \<Rightarrow> 's rx_table \<Rightarrow> RadiusType \<Rightarrow> bytes \<Rightarrow> radius_client_data \<Rightarrow> 's \<Rightarrow> (radius_client_data \<times> 's) option" where
  "radius_client_receive E os_alloc hs msg_type data rc s =
     (let acct = (msg_type = RADIUS_ACCT); handlers = handlers_of hs msg_type in
      if length data = 3000 then Some (rc, s)
      else case radius_msg_parse os_alloc data of
        Abort \<Rightarrow> None
      | Done None \<Rightarrow> Some (upd_server acct (\<lambda>v. v\<lparr>rs_malformed_responses := rs_malformed_responses v + 1\<rparr>) rc, s)
      | Done (Some msg) \<Rightarrow>
          let rc = upd_server acct (count_code (hdr_code msg)) rc in
          (case find (answers_request msg_type (hdr_identifier msg)) (rc_msgs rc) of
             None \<Rightarrow> Some (rc, s)
           | Some req \<Rightarrow>
               let now = re_time E (rc_sent rc);
                   roundtrip = (fst now - fst (rl_last_attempt req)) * 100 + (snd now - snd (rl_last_attempt req)) sdiv 10000;
                   rc = upd_server acct (\<lambda>v. v\<lparr>rs_round_trip_time := roundtrip\<rparr>) rc;
                   rc = drop_entries (\<lambda>e. rl_ref e = rl_ref req) rc in
               (case call_handlers handlers msg (rl_msg req) (rl_secret req) False s of
                  None \<Rightarrow> None
                | Some (True, invalid, s) \<Rightarrow> Some (rc, s)
                | Some (False, invalid, s) \<Rightarrow>
                    Some (upd_server acct (\<lambda>v. if invalid then v\<lparr>rs_bad_authenticators := rs_bad_authenticators v + 1\<rparr>
                            else v\<lparr>rs_unknown_types := rs_unknown_types v + 1\<rparr>) rc, s))))"

text \<open>The entries with the identifier are freed, but not counted.\<close>

definition radius_client_get_id :: "radius_client_data \<Rightarrow> u8 \<times> radius_client_data" where
  "radius_client_get_id rc =
     (let idn = rc_next_id rc
      in (idn, rc\<lparr>rc_next_id := rc_next_id rc + 1, rc_msgs := filter (\<lambda>e. hdr_identifier (rl_msg e) \<noteq> idn) (rc_msgs rc)\<rparr>))"

definition radius_client_flush_auth :: "bytes \<Rightarrow> radius_client_data \<Rightarrow> radius_client_data" where
  "radius_client_flush_auth addr rc = drop_entries (\<lambda>e. rl_type e = RADIUS_AUTH \<and> rl_addr e = addr) rc"

text \<open>The sockets are open.\<close>

definition radius_retry_primary_timer :: "radius_client_data \<Rightarrow> radius_client_data" where
  "radius_retry_primary_timer rc =
     (let rc = (case rc_auth_server rc of
                  Some (Suc i) \<Rightarrow>
                    let old = server_secret False rc; rc = rc\<lparr>rc_auth_server := Some 0\<rparr>
                    in radius_change_server (server_secret False rc) (Some old) True rc
                | _ \<Rightarrow> rc)
      in case rc_acct_server rc of
           Some (Suc i) \<Rightarrow>
             let old = server_secret True rc; rc = rc\<lparr>rc_acct_server := Some 0\<rparr>
             in radius_change_server (server_secret True rc) (Some old) False rc
         | _ \<Rightarrow> rc)"

text \<open>The configuration has the first server of a list as the current one.\<close>

definition radius_client_new :: "hostapd_radius_server list \<Rightarrow> hostapd_radius_server list \<Rightarrow> radius_client_data" where
  "radius_client_new auth_servers acct_servers =
     \<lparr>rc_msgs = [], rc_num_msgs = 0, rc_next_id = 0,
      rc_auth_servers = auth_servers, rc_auth_server = (if auth_servers = [] then None else Some 0),
      rc_acct_servers = acct_servers, rc_acct_server = (if acct_servers = [] then None else Some 0),
      rc_timers = [], rc_sent = [], rc_refs = 0\<rparr>"

definition radius_client_init :: "radius_env \<Rightarrow> hostapd_radius_server list \<Rightarrow> hostapd_radius_server list \<Rightarrow> radius_client_data option" where
  "radius_client_init E auth_servers acct_servers =
     (let rc = radius_client_new auth_servers acct_servers in
      if \<not> re_zalloc E (rc_sent rc) then None
      else
        let (res, rc) = (if rc_auth_server rc \<noteq> None then radius_client_init_auth E rc else (0, rc)) in
        if res \<noteq> 0 then None
        else
          let (res, rc) = (if rc_acct_server rc \<noteq> None then radius_client_init_acct E rc else (0, rc)) in
          if res \<noteq> 0 then None else Some rc)"

end
