(* ===== verification/Radius_Client_Inv.thy ===== *)
theory Radius_Client_Inv
  imports Radius_Client
begin

text \<open>
  The invariant of the RADIUS client over the runs of its inputs, and what goes wrong when a socket is lost.
\<close>

section \<open>The invariant\<close>

text \<open>\<open>X\<close> has the references of entries that are being sent.\<close>

definition client_inv :: "nat set \<Rightarrow> radius_client_data \<Rightarrow> bool" where
  "client_inv X rc \<longleftrightarrow>
     distinct (map rl_ref (rc_msgs rc)) \<and> length (rc_msgs rc) \<le> unat (rc_num_msgs rc) \<and> unat (rc_num_msgs rc) \<le> 30 \<and>
     (\<forall>e\<in>set (rc_msgs rc). rl_ref e < rc_refs rc \<and> 0 \<le> rl_attempts e \<and> rl_attempts e \<le> (if rl_ref e \<in> X then 10 else 9) \<and>
        6 \<le> rl_next_wait e \<and> rl_next_wait e \<le> RADIUS_CLIENT_MAX_WAIT)"

definition timer_armed :: "radius_client_data \<Rightarrow> bool" where
  "timer_armed rc \<longleftrightarrow> (rc_msgs rc \<noteq> [] \<longrightarrow> rc_timers rc \<noteq> [])"

lemma upd_server_frame [simp]:
  "rc_msgs (upd_server a f rc) = rc_msgs rc" "rc_num_msgs (upd_server a f rc) = rc_num_msgs rc"
  "rc_timers (upd_server a f rc) = rc_timers rc" "rc_refs (upd_server a f rc) = rc_refs rc"
  "rc_sent (upd_server a f rc) = rc_sent rc" "entry_of (upd_server a f rc) r = entry_of rc r"
  "rc_auth_server (upd_server a f rc) = rc_auth_server rc" "rc_acct_server (upd_server a f rc) = rc_acct_server rc"
  by (simp_all add: upd_server_def entry_of_def split: option.split)

lemma inv_upd_server [simp]: "client_inv X (upd_server a f rc) = client_inv X rc" "timer_armed (upd_server a f rc) = timer_armed rc"
  by (simp_all add: client_inv_def timer_armed_def)

lemma inv_frame [simp]:
  "client_inv X (rc\<lparr>rc_sent := l\<rparr>) = client_inv X rc" "client_inv X (rc\<lparr>rc_timers := ts\<rparr>) = client_inv X rc"
  "client_inv X (rc\<lparr>rc_auth_server := i\<rparr>) = client_inv X rc" "client_inv X (rc\<lparr>rc_acct_server := i\<rparr>) = client_inv X rc"
  "client_inv X (rc\<lparr>rc_next_id := n\<rparr>) = client_inv X rc"
  by (simp_all add: client_inv_def)

lemma inv_map:
  assumes "client_inv X rc"
    and "\<And>e. e \<in> set (rc_msgs rc) \<Longrightarrow> rl_ref (f e) = rl_ref e \<and> 0 \<le> rl_attempts (f e) \<and> rl_attempts (f e) \<le> (if rl_ref e \<in> Y then 10 else 9) \<and>
      6 \<le> rl_next_wait (f e) \<and> rl_next_wait (f e) \<le> RADIUS_CLIENT_MAX_WAIT"
  shows "client_inv Y (rc\<lparr>rc_msgs := map f (rc_msgs rc)\<rparr>)"
proof -
  have "map rl_ref (map f (rc_msgs rc)) = map rl_ref (rc_msgs rc)" using assms(2) by simp
  then show ?thesis using assms by (auto simp: client_inv_def simp del: map_map)
qed

lemma inv_filter:
  assumes "client_inv X rc"
  shows "client_inv X (rc\<lparr>rc_msgs := filter P (rc_msgs rc)\<rparr>)"
  using assms order_trans [OF length_filter_le, of "rc_msgs rc" "unat (rc_num_msgs rc)" P]
  by (auto simp: client_inv_def distinct_map_filter)

lemma inv_weaken: "client_inv {} rc \<Longrightarrow> client_inv {r} rc"
  by (force simp: client_inv_def)

lemma inv_drop:
  assumes "client_inv X rc"
  shows "client_inv X (drop_entries P rc)"
proof -
  let ?k = "length (filter P (rc_msgs rc))"
  have l: "?k + length (filter (\<lambda>e. \<not> P e) (rc_msgs rc)) = length (rc_msgs rc)" by (rule sum_length_filter_compl)
  have "length (rc_msgs rc) \<le> unat (rc_num_msgs rc)" "unat (rc_num_msgs rc) \<le> 30" using assms by (simp_all add: client_inv_def)
  then have k: "?k \<le> unat (rc_num_msgs rc)" "?k < 2 ^ 32" using l by simp_all
  then have "unat (rc_num_msgs rc - word_of_nat ?k) = unat (rc_num_msgs rc) - ?k"
    by (simp add: unat_sub word_le_nat_alt unat_of_nat)
  then show ?thesis using assms l by (auto simp: client_inv_def drop_entries_def distinct_map_filter)
qed

lemma drop_frame [simp]: "rc_timers (drop_entries P rc) = rc_timers rc" "rc_refs (drop_entries P rc) = rc_refs rc" "rc_sent (drop_entries P rc) = rc_sent rc"
  "rc_msgs (drop_entries P rc) = filter (\<lambda>e. \<not> P e) (rc_msgs rc)"
  by (simp_all add: drop_entries_def)

lemma armed_drop: "timer_armed rc \<Longrightarrow> timer_armed (drop_entries P rc)"
  by (auto simp: timer_armed_def)

lemma inv_flush: "client_inv X rc \<Longrightarrow> client_inv X (radius_client_flush b rc)"
  by (simp add: radius_client_flush_def Let_def inv_drop)

lemma armed_flush: "timer_armed rc \<Longrightarrow> timer_armed (radius_client_flush b rc)"
  by (auto simp: radius_client_flush_def Let_def timer_armed_def)

lemma inv_change_server:
  assumes "client_inv X rc"
  shows "client_inv X (radius_change_server n oserv auth rc)" "timer_armed (radius_change_server n oserv auth rc)"
proof -
  have u: "client_inv X (radius_client_update_acct_msgs k c)" if "client_inv X c" for k c
    unfolding radius_client_update_acct_msgs_def by (rule inv_map [OF that]) (use that in \<open>auto simp: client_inv_def\<close>)
  define c where "c = (if oserv \<noteq> Some n then if auth then radius_client_flush True rc else radius_client_update_acct_msgs n rc else rc)"
  have c: "client_inv X c" using assms u inv_flush by (simp add: c_def)
  let ?f = "\<lambda>e. if (auth \<and> rl_type e \<noteq> RADIUS_AUTH) \<or> (\<not> auth \<and> rl_type e \<noteq> RADIUS_ACCT) then e
    else e\<lparr>rl_next_try := rl_first_try e + RADIUS_CLIENT_FIRST_WAIT, rl_attempts := 0, rl_next_wait := RADIUS_CLIENT_FIRST_WAIT * 2\<rparr>"
  define d where "d = c\<lparr>rc_msgs := map ?f (rc_msgs c)\<rparr>"
  have d: "client_inv X d" unfolding d_def by (rule inv_map [OF c]) (use c in \<open>auto simp: client_inv_def\<close>)
  have "radius_change_server n oserv auth rc = (if rc_msgs d \<noteq> [] then d\<lparr>rc_timers := [RADIUS_CLIENT_FIRST_WAIT]\<rparr> else d)"
    by (simp only: radius_change_server_def Let_def c_def d_def)
  then show "client_inv X (radius_change_server n oserv auth rc)" "timer_armed (radius_change_server n oserv auth rc)"
    using d by (cases "rc_msgs d = []"; simp add: timer_armed_def)+
qed

lemma inv_send:
  assumes "client_inv X rc"
  shows "client_inv X (snd (send_msg E t msg rc))" "timer_armed rc \<Longrightarrow> timer_armed (snd (send_msg E t msg rc))"
  using inv_change_server [of X "rc\<lparr>rc_sent := rc_sent rc @ [(t, radius_octets msg)]\<rparr>"] assms
  by (auto simp: send_msg_def Let_def radius_client_handle_send_error_def radius_client_init_acct_def radius_client_init_auth_def timer_armed_def
      split: send_result.split)

section \<open>Entries\<close>

lemma entry_of_in: "entry_of rc r = Some e \<Longrightarrow> e \<in> set (rc_msgs rc) \<and> rl_ref e = r"
  by (auto simp: entry_of_def find_Some_iff)

lemma entry_of_iff: "client_inv X rc \<Longrightarrow> entry_of rc r = Some e \<longleftrightarrow> e \<in> set (rc_msgs rc) \<and> rl_ref e = r"
proof
  assume i: "client_inv X rc" and e: "e \<in> set (rc_msgs rc) \<and> rl_ref e = r"
  then obtain d where d: "entry_of rc r = Some d" by (cases "entry_of rc r") (auto simp: entry_of_def find_None_iff)
  then have "d = e" using entry_of_in [OF d] e i by (auto simp: client_inv_def distinct_map inj_on_def)
  then show "entry_of rc r = Some e" using d by simp
qed (rule entry_of_in)

lemma inv_retransmit:
  assumes "client_inv {} rc" "radius_client_retransmit E r now rc = Some (b, rc')"
  shows "client_inv {r} rc'" "b \<longleftrightarrow> (\<exists>e\<in>set (rc_msgs rc'). rl_ref e = r \<and> rl_attempts e \<ge> 10)"
    "\<not> b \<Longrightarrow> client_inv {} rc'" "entry_of rc' r \<noteq> None"
proof -
  obtain entry where en: "entry_of rc r = Some entry" using assms(2) by (auto simp: radius_client_retransmit_def split: option.splits)
  define c1 where "c1 = upd_server (acct_type (rl_type entry))
                (\<lambda>s. if rl_attempts entry = 0 then s\<lparr>rs_requests := rs_requests s + 1\<rparr>
                     else s\<lparr>rs_timeouts := rs_timeouts s + 1, rs_retransmissions := rs_retransmissions s + 1\<rparr>) rc"
  define c2 where "c2 = upd_entry r (\<lambda>e. e\<lparr>rl_attempts := rl_attempts e + 1, rl_last_attempt := re_time E (rc_sent c1)\<rparr>) c1"
  define c3 where "c3 = snd (send_msg E (rl_type entry) (rl_msg entry) c2)"
  define c4 where "c4 = upd_entry r (\<lambda>e. e\<lparr>rl_next_try := now + rl_next_wait e, rl_next_wait :=
                  (if rl_next_wait e * 2 > RADIUS_CLIENT_MAX_WAIT then RADIUS_CLIENT_MAX_WAIT else rl_next_wait e * 2)\<rparr>) c3"
  have "client_inv {} c1" using assms(1) by (simp add: c1_def)
  then have "client_inv {r} c2" unfolding c2_def upd_entry_def by (rule inv_map) (use \<open>client_inv {} c1\<close> in \<open>auto simp: client_inv_def\<close>)
  then have c3: "client_inv {r} c3" unfolding c3_def by (rule inv_send)
  then have c4: "client_inv {r} c4" unfolding c4_def upd_entry_def by (rule inv_map) (use c3 in \<open>auto simp: client_inv_def\<close>)
  have "(if entry_of c3 r = None then None else case entry_of c4 r of None \<Rightarrow> None | Some e \<Rightarrow> Some (rl_attempts e \<ge> 10, c4)) = Some (b, rc')"
    using assms(2) by (simp only: radius_client_retransmit_def en option.case Let_def c4_def c3_def c2_def c1_def)
  then obtain e where e: "entry_of c4 r = Some e" "b \<longleftrightarrow> rl_attempts e \<ge> 10" "rc' = c4" by (auto split: if_splits option.splits)
  show "client_inv {r} rc'" using c4 e(3) by simp
  show b: "b \<longleftrightarrow> (\<exists>e\<in>set (rc_msgs rc'). rl_ref e = r \<and> rl_attempts e \<ge> 10)"
    using e(2,3) entry_of_iff [OF c4, of r] e(1) by (metis option.inject)
  show "\<not> b \<Longrightarrow> client_inv {} rc'" using c4 b e(3) by (force simp: client_inv_def)
  show "entry_of rc' r \<noteq> None" using e by simp
qed

lemma inv_dropped: "client_inv {r} c \<Longrightarrow> client_inv {} (drop_entries (\<lambda>e. rl_ref e = r) c)"
  using inv_drop [of "{r}" c "\<lambda>e. rl_ref e = r"] by (auto simp: client_inv_def)

lemma inv_timer_loop:
  "client_inv {} rc \<Longrightarrow> timer_loop E now rs first af cf rc = Some (x, y, z, rc') \<Longrightarrow> client_inv {} rc'"
proof (induction E now rs first af cf rc rule: timer_loop.induct)
  case (2 E now r rs first af cf rc)
  obtain e where e: "entry_of rc r = Some e" using "2.prems"(2) by (auto split: option.splits)
  obtain b c where c: "(if now \<ge> rl_next_try e then radius_client_retransmit E r now rc else Some (False, rc)) = Some (b, c)"
    using "2.prems"(2) e by (auto split: option.splits)
  have "client_inv {r} c \<and> (\<not> b \<longrightarrow> client_inv {} c)"
  proof (cases "now \<ge> rl_next_try e")
    case True
    then have "radius_client_retransmit E r now rc = Some (b, c)" using c by simp
    then show ?thesis using inv_retransmit [OF "2.prems"(1)] by metis
  next
    case False
    then have "c = rc" using c by simp
    then show ?thesis using "2.prems"(1) inv_weaken by simp
  qed
  then have i: "client_inv {r} c" "\<not> b \<Longrightarrow> client_inv {} c" by simp_all
  show ?case
  proof (cases b)
    case True
    have "client_inv {} (drop_entries (\<lambda>e. rl_ref e = r) c)" by (rule inv_dropped [OF i(1)])
    then show ?thesis using "2.IH"(1) [of "(b, c)" b c] "2.prems"(2) e c True by simp
  next
    case False
    then obtain d where "entry_of c r = Some d" using "2.prems"(2) e c by (auto split: option.splits)
    then show ?thesis using "2.IH"(2) [of "(b, c)" b c] "2.prems"(2) e c False i(2) by (simp add: Let_def)
  qed
qed simp


section \<open>Without lost sockets\<close>

definition no_reconnect :: "radius_env \<Rightarrow> bool" where
  "no_reconnect E \<longleftrightarrow> (\<forall>h. re_send E h \<noteq> Send_reconnect)"

definition retried :: "int \<Rightarrow> int \<times> int \<Rightarrow> radius_msg_list \<Rightarrow> radius_msg_list" where
  "retried now tm e = e\<lparr>rl_attempts := rl_attempts e + 1, rl_last_attempt := tm, rl_next_try := now + rl_next_wait e,
     rl_next_wait := (if rl_next_wait e * 2 > RADIUS_CLIENT_MAX_WAIT then RADIUS_CLIENT_MAX_WAIT else rl_next_wait e * 2)\<rparr>"

lemma retried_fields [simp]: "rl_ref (retried now tm e) = rl_ref e" "rl_type (retried now tm e) = rl_type e"
  "rl_attempts (retried now tm e) = rl_attempts e + 1" "rl_next_try (retried now tm e) = now + rl_next_wait e"
  by (simp_all add: retried_def)

text \<open>What the sending of messages leaves of the servers.\<close>

definition same_servers :: "radius_client_data \<Rightarrow> radius_client_data \<Rightarrow> bool" where
  "same_servers rc rc' \<longleftrightarrow>
     rc_auth_server rc' = rc_auth_server rc \<and> rc_acct_server rc' = rc_acct_server rc \<and>
     map rs_secret (rc_auth_servers rc') = map rs_secret (rc_auth_servers rc) \<and>
     map rs_secret (rc_acct_servers rc') = map rs_secret (rc_acct_servers rc)"

lemma same_refl [simp]: "same_servers rc rc" "same_servers rc (drop_entries P rc)"
  by (simp_all add: same_servers_def drop_entries_def)

lemma same_trans [trans]: "same_servers a b \<Longrightarrow> same_servers b c \<Longrightarrow> same_servers a c"
  by (simp add: same_servers_def)

lemma update_same_key: "k (f (xs ! i)) = k (xs ! i) \<Longrightarrow> map k (xs[i := f (xs ! i)]) = map k xs"
  by (cases "i < length xs") (simp_all add: map_update list_update_same_conv list_update_beyond)

lemma same_upd_server: "(\<And>s. rs_secret (f s) = rs_secret s) \<Longrightarrow> same_servers rc (upd_server a f rc)"
  by (simp add: same_servers_def upd_server_def update_same_key split: option.split)

lemma retransmit_sends:
  assumes "client_inv {} rc" "entry_of rc r = Some e" "no_reconnect E"
  shows "\<exists>rc' tm. radius_client_retransmit E r now rc = Some (rl_attempts e \<ge> 9, rc') \<and>
    rc_msgs rc' = map (\<lambda>x. if rl_ref x = r then retried now tm x else x) (rc_msgs rc) \<and>
    rc_timers rc' = rc_timers rc \<and> same_servers rc rc' \<and> entry_of rc' r = Some (retried now tm e)"
proof -
  define c1 where "c1 = upd_server (acct_type (rl_type e))
                (\<lambda>s. if rl_attempts e = 0 then s\<lparr>rs_requests := rs_requests s + 1\<rparr>
                     else s\<lparr>rs_timeouts := rs_timeouts s + 1, rs_retransmissions := rs_retransmissions s + 1\<rparr>) rc"
  define tm where "tm = re_time E (rc_sent c1)"
  define c2 where "c2 = upd_entry r (\<lambda>e. e\<lparr>rl_attempts := rl_attempts e + 1, rl_last_attempt := tm\<rparr>) c1"
  define c3 where "c3 = snd (send_msg E (rl_type e) (rl_msg e) c2)"
  define c4 where "c4 = upd_entry r (\<lambda>e. e\<lparr>rl_next_try := now + rl_next_wait e, rl_next_wait :=
                  (if rl_next_wait e * 2 > RADIUS_CLIENT_MAX_WAIT then RADIUS_CLIENT_MAX_WAIT else rl_next_wait e * 2)\<rparr>) c3"
  have c3: "c3 = c2\<lparr>rc_sent := rc_sent c2 @ [(rl_type e, radius_octets (rl_msg e))]\<rparr>"
    using assms(3) by (auto simp: c3_def send_msg_def Let_def no_reconnect_def split: send_result.split)
  have c1: "rc_msgs c1 = rc_msgs rc" "rc_timers c1 = rc_timers rc" by (simp_all add: c1_def)
  have m: "rc_msgs c4 = map (\<lambda>x. if rl_ref x = r then retried now tm x else x) (rc_msgs rc)"
    by (simp add: c4_def c3 c2_def upd_entry_def c1 retried_def)
  have f: "find (\<lambda>x. rl_ref x = r) (map (\<lambda>x. if rl_ref x = r then g x else x) xs) = map_option g (find (\<lambda>x. rl_ref x = r) xs)"
    if "\<And>x. rl_ref (g x) = rl_ref x" for g xs
    by (induction xs) (simp_all add: that)
  have e4: "entry_of c4 r = Some (retried now tm e)" using assms(2) by (simp add: entry_of_def m f)
  have e3: "entry_of c3 r \<noteq> None" using assms(2) by (simp add: entry_of_def c3 c2_def upd_entry_def c1 f)
  have "same_servers rc c1" unfolding c1_def by (rule same_upd_server) simp
  then have s: "same_servers rc c4" by (simp add: same_servers_def c4_def c3 c2_def upd_entry_def)
  have "radius_client_retransmit E r now rc =
      (if entry_of c3 r = None then None else case entry_of c4 r of None \<Rightarrow> None | Some e \<Rightarrow> Some (rl_attempts e \<ge> 10, c4))"
    by (simp only: radius_client_retransmit_def assms(2) option.case Let_def c4_def c3_def c2_def c1_def tm_def)
  then have "radius_client_retransmit E r now rc = Some (rl_attempts e \<ge> 9, c4)" using e3 e4 by simp
  moreover have "rc_timers c4 = rc_timers rc" by (simp add: c4_def c3 c2_def upd_entry_def c1)
  ultimately show ?thesis using m e4 s by blast
qed

end
