(* ===== verification/Radius_Client_Run.thy ===== *)
theory Radius_Client_Run
  imports Radius_Client_Inv
begin

text \<open>
  Runs of the RADIUS client: they keep the invariant and always leave a timer for the pending requests; what the timer does with requests
  that are not answered; and what happens when a socket is lost.
\<close>

section \<open>The loop of the timer\<close>

text \<open>\<open>R\<close> has the references of the entries that the loop looks at.\<close>

definition loop_effect :: "int \<Rightarrow> nat set \<Rightarrow> radius_client_data \<Rightarrow> radius_client_data \<Rightarrow> bool" where
  "loop_effect now R rc rc' \<longleftrightarrow>
     same_servers rc rc' \<and>
     (\<forall>e'\<in>set (rc_msgs rc'). \<exists>e\<in>set (rc_msgs rc). if rl_ref e \<in> R \<and> now \<ge> rl_next_try e then \<exists>tm. e' = retried now tm e else e' = e) \<and>
     (\<forall>e\<in>set (rc_msgs rc). rl_ref e \<notin> R \<or> now < rl_next_try e \<or> rl_attempts e < 9 \<longrightarrow> rl_ref e \<in> rl_ref ` set (rc_msgs rc'))"

lemma effect_ref: "loop_effect now R rc rc' \<Longrightarrow> e' \<in> set (rc_msgs rc') \<Longrightarrow> rl_ref e' \<in> rl_ref ` set (rc_msgs rc)"
  unfolding loop_effect_def by (metis image_eqI retried_fields(1))

lemma effect_kept:
  assumes "loop_effect now R rc rc'" "client_inv {} rc" "e \<in> set (rc_msgs rc)" "rl_ref e \<notin> R"
  shows "e \<in> set (rc_msgs rc')"
proof -
  have "rl_ref e \<in> rl_ref ` set (rc_msgs rc')" using assms(1,3,4) by (simp add: loop_effect_def)
  then obtain e' where e': "e' \<in> set (rc_msgs rc')" "rl_ref e' = rl_ref e" by force
  then obtain d where d: "d \<in> set (rc_msgs rc)" "if rl_ref d \<in> R \<and> now \<ge> rl_next_try d then \<exists>tm. e' = retried now tm d else e' = d"
    using assms(1) unfolding loop_effect_def by meson
  have "rl_ref d = rl_ref e" using d(2) e'(2) by (auto split: if_splits)
  then show ?thesis using d assms(4) e'(1) entry_of_iff [OF assms(2), of "rl_ref e"] assms(3) by (metis option.inject)
qed

lemma effect_trans:
  assumes a: "loop_effect now {r} rc c" and b: "loop_effect now R c rc'" and "r \<notin> R" and i: "client_inv {} rc"
  shows "loop_effect now (insert r R) rc rc'"
  unfolding loop_effect_def
proof (intro conjI ballI impI)
  show "same_servers rc rc'" using a b by (auto simp: loop_effect_def intro: same_trans)
next
  fix e' assume "e' \<in> set (rc_msgs rc')"
  then obtain d where d: "d \<in> set (rc_msgs c)" "if rl_ref d \<in> R \<and> now \<ge> rl_next_try d then \<exists>tm. e' = retried now tm d else e' = d"
    using b unfolding loop_effect_def by meson
  then obtain e where e: "e \<in> set (rc_msgs rc)" "if rl_ref e \<in> {r} \<and> now \<ge> rl_next_try e then \<exists>tm. d = retried now tm e else d = e"
    using a unfolding loop_effect_def by meson
  show "\<exists>e\<in>set (rc_msgs rc). if rl_ref e \<in> insert r R \<and> now \<ge> rl_next_try e then \<exists>tm. e' = retried now tm e else e' = e"
    using d e assms(3) by (intro bexI [OF _ e(1)]) (auto split: if_splits)
next
  fix e assume e: "e \<in> set (rc_msgs rc)" "rl_ref e \<notin> insert r R \<or> now < rl_next_try e \<or> rl_attempts e < 9"
  then have "rl_ref e \<in> rl_ref ` set (rc_msgs c)" using a by (auto simp: loop_effect_def)
  then obtain d where d: "d \<in> set (rc_msgs c)" "rl_ref d = rl_ref e" by force
  show "rl_ref e \<in> rl_ref ` set (rc_msgs rc')"
  proof (cases "rl_ref e \<in> R")
    case True
    then have "e \<in> set (rc_msgs c)" using effect_kept [OF a i e(1)] assms(3) by auto
    then show ?thesis using b e(2) True by (auto simp: loop_effect_def)
  next
    case False
    then show ?thesis using b d unfolding loop_effect_def by metis
  qed
qed


lemma loop_step:
  assumes "client_inv {} rc" "entry_of rc r = Some e" "no_reconnect E"
  shows "\<exists>b c. (if now \<ge> rl_next_try e then radius_client_retransmit E r now rc else Some (False, rc)) = Some (b, c) \<and>
    rc_timers c = rc_timers rc \<and> entry_of c r \<noteq> None \<and> loop_effect now {r} rc (if b then drop_entries (\<lambda>e. rl_ref e = r) c else c) \<and>
    client_inv {} (if b then drop_entries (\<lambda>e. rl_ref e = r) c else c)"
proof (cases "now \<ge> rl_next_try e")
  case False
  have "\<forall>d\<in>set (rc_msgs rc). rl_ref d = r \<longrightarrow> d = e" using entry_of_iff [OF assms(1), of r] assms(2) by (metis option.inject)
  then have "loop_effect now {r} rc rc" using False by (auto simp: loop_effect_def)
  then show ?thesis using False assms by (intro exI [of _ False] exI [of _ rc]) simp
next
  case True
  obtain c tm where c: "radius_client_retransmit E r now rc = Some (rl_attempts e \<ge> 9, c)"
      "rc_msgs c = map (\<lambda>x. if rl_ref x = r then retried now tm x else x) (rc_msgs rc)"
      "rc_timers c = rc_timers rc" "same_servers rc c" "entry_of c r = Some (retried now tm e)"
    using retransmit_sends [OF assms, of now] by (elim exE conjE)
  have u: "d = e" if "d \<in> set (rc_msgs rc)" "rl_ref d = r" for d using entry_of_iff [OF assms(1), of r] assms(2) that by (metis option.inject)
  define b d where "b \<longleftrightarrow> rl_attempts e \<ge> 9" and "d = (if b then drop_entries (\<lambda>e. rl_ref e = r) c else c)"
  have m: "set (rc_msgs d) \<subseteq> set (rc_msgs c)" "\<not> b \<Longrightarrow> d = c" "x \<in> set (rc_msgs c) \<Longrightarrow> rl_ref x \<noteq> r \<Longrightarrow> x \<in> set (rc_msgs d)" for x
    by (auto simp: d_def)
  have "same_servers rc d" using same_trans [OF c(4)] by (simp add: d_def)
  moreover have "\<exists>x\<in>set (rc_msgs rc). if rl_ref x \<in> {r} \<and> now \<ge> rl_next_try x then \<exists>tm. e' = retried now tm x else e' = x" if "e' \<in> set (rc_msgs d)" for e'
  proof -
    have "e' \<in> set (rc_msgs c)" using that m(1) by blast
    then obtain x where x: "x \<in> set (rc_msgs rc)" "e' = (if rl_ref x = r then retried now tm x else x)" unfolding c(2) by auto
    show ?thesis by (rule bexI [OF _ x(1)]) (use u [OF x(1)] True x(2) in \<open>auto simp del: split_paired_Ex\<close>)
  qed
  moreover have "rl_ref x \<in> rl_ref ` set (rc_msgs d)" if x: "x \<in> set (rc_msgs rc)" "rl_ref x \<notin> {r} \<or> now < rl_next_try x \<or> rl_attempts x < 9" for x
  proof (cases "rl_ref x = r")
    case True
    then have "\<not> b" using u [OF x(1)] x(2) \<open>now \<ge> rl_next_try e\<close> by (auto simp: b_def)
    moreover have "retried now tm x \<in> set (rc_msgs c)" unfolding c(2) using x(1) True by force
    ultimately show ?thesis using m(2) by (metis image_eqI retried_fields(1))
  next
    case False
    then have "x \<in> set (rc_msgs c)" unfolding c(2) using x(1) by force
    then show ?thesis using m(3) False by blast
  qed
  ultimately have "loop_effect now {r} rc d" unfolding loop_effect_def by blast
  moreover have "client_inv {} d" using inv_retransmit(1,3) [OF assms(1) c(1)] inv_dropped [of r c] by (simp add: d_def b_def)
  moreover have "radius_client_retransmit E r now rc = Some (b, c)" using c(1) by (simp add: b_def)
  ultimately show ?thesis using True c(3,5) unfolding d_def by (intro exI [of _ b] exI [of _ c]) simp
qed

lemma timer_loop_effect:
  assumes "client_inv {} rc" "no_reconnect E" "distinct rs" "set rs \<subseteq> rl_ref ` set (rc_msgs rc)"
  shows "\<exists>first' af' cf' rc'. timer_loop E now rs first af cf rc = Some (first', af', cf', rc') \<and> loop_effect now (set rs) rc rc' \<and>
    rc_timers rc' = rc_timers rc \<and>
    (af' \<longleftrightarrow> af \<or> (\<exists>e\<in>set (rc_msgs rc'). rl_ref e \<in> set rs \<and> \<not> acct_type (rl_type e) \<and> rl_attempts e > 4))"
  using assms
proof (induction rs arbitrary: first af cf rc)
  case Nil
  then show ?case by (auto simp: loop_effect_def)
next
  case (Cons r rs)
  obtain e where e: "entry_of rc r = Some e" using Cons.prems(1,4) entry_of_iff [OF Cons.prems(1), of r] by auto
  obtain b c where c: "(if now \<ge> rl_next_try e then radius_client_retransmit E r now rc else Some (False, rc)) = Some (b, c)"
    "rc_timers c = rc_timers rc" "entry_of c r \<noteq> None" and d: "loop_effect now {r} rc (if b then drop_entries (\<lambda>e. rl_ref e = r) c else c)"
    "client_inv {} (if b then drop_entries (\<lambda>e. rl_ref e = r) c else c)"
    using loop_step [OF Cons.prems(1) e Cons.prems(2)] by metis
  obtain x where x: "entry_of c r = Some x" using c(3) by auto
  define d' where "d' = (if b then drop_entries (\<lambda>e. rl_ref e = r) c else c)"
  have d': "loop_effect now {r} rc d'" "client_inv {} d'" using d by (simp_all add: d'_def)
  have sub: "set rs \<subseteq> rl_ref ` set (rc_msgs d')"
  proof
    fix q assume q: "q \<in> set rs"
    then obtain y where "y \<in> set (rc_msgs rc)" "rl_ref y = q" using Cons.prems(4) by auto
    then show "q \<in> rl_ref ` set (rc_msgs d')" using effect_kept [OF d'(1) Cons.prems(1), of y] q Cons.prems(3) by force
  qed
  define first1 af1 cf1 where "first1 = (if b then first else if first = 0 \<or> rl_next_try x < first then rl_next_try x else first)"
    and "af1 \<longleftrightarrow> af \<or> (\<not> b \<and> rl_attempts x > 4 \<and> \<not> acct_type (rl_type x))" and "cf1 \<longleftrightarrow> cf \<or> (\<not> b \<and> rl_attempts x > 4 \<and> acct_type (rl_type x))"
  have l: "timer_loop E now (r # rs) first af cf rc = timer_loop E now rs first1 af1 cf1 d'"
    by (cases b) (simp_all add: e c(1) x d'_def first1_def af1_def cf1_def Let_def)
  obtain f2 a2 g2 rc' where t: "timer_loop E now rs first1 af1 cf1 d' = Some (f2, a2, g2, rc')" "loop_effect now (set rs) d' rc'" "rc_timers rc' = rc_timers d'"
      "a2 \<longleftrightarrow> af1 \<or> (\<exists>e\<in>set (rc_msgs rc'). rl_ref e \<in> set rs \<and> \<not> acct_type (rl_type e) \<and> rl_attempts e > 4)"
    using Cons.IH [OF d'(2) Cons.prems(2) _ sub, of first1 af1 cf1] Cons.prems(3) by auto
  have r: "y \<in> set (rc_msgs rc') \<and> rl_ref y = r \<longleftrightarrow> \<not> b \<and> y = x" for y
  proof
    assume y: "y \<in> set (rc_msgs rc') \<and> rl_ref y = r"
    then obtain z where z: "z \<in> set (rc_msgs d')" "if rl_ref z \<in> set rs \<and> now \<ge> rl_next_try z then \<exists>tm. y = retried now tm z else y = z"
      using t(2) unfolding loop_effect_def by meson
    then have "y = z" using y Cons.prems(3) by (auto split: if_splits)
    then show "\<not> b \<and> y = x" using z(1) y x d'(2) entry_of_iff [of "{}" d' r y] by (auto simp: d'_def split: if_splits)
  next
    assume y: "\<not> b \<and> y = x"
    then have "x \<in> set (rc_msgs d')" "rl_ref x = r" using entry_of_in [OF x] by (simp_all add: d'_def)
    then show "y \<in> set (rc_msgs rc') \<and> rl_ref y = r" using effect_kept [OF t(2) d'(2)] Cons.prems(3) y by simp
  qed
  have "loop_effect now (set (r # rs)) rc rc'" using effect_trans [OF d'(1) t(2) _ Cons.prems(1)] Cons.prems(3) by simp
  moreover have "rc_timers rc' = rc_timers rc" using t(3) c(2) by (simp add: d'_def)
  moreover have "a2 \<longleftrightarrow> af \<or> (\<exists>e\<in>set (rc_msgs rc'). rl_ref e \<in> set (r # rs) \<and> \<not> acct_type (rl_type e) \<and> rl_attempts e > 4)"
    unfolding t(4) af1_def using r by (metis list.set_intros set_ConsD)
  ultimately show ?case using l t(1) by (intro exI [of _ f2] exI [of _ a2] exI [of _ g2] exI [of _ rc']) simp
qed


section \<open>Runs\<close>

text \<open>The calls of the client by the rest of the program and by the event loop, which calls the timer only when a timeout is registered.\<close>

datatype client_input =
    Rc_send os_alloc radius_msg RadiusType "bytes option"
  | Rc_receive os_alloc RadiusType bytes
  | Rc_timer
  | Rc_get_id
  | Rc_flush bool
  | Rc_flush_auth bytes
  | Rc_retry_primary

definition client_do :: "'s rx_table \<Rightarrow> radius_env \<times> client_input \<Rightarrow> radius_client_data \<times> 's \<Rightarrow> (radius_client_data \<times> 's) option" where
  "client_do hs i st =
     (case (i, st) of ((E, inp), (rc, s)) \<Rightarrow>
        (case inp of
           Rc_send al msg t addr \<Rightarrow> map_option (\<lambda>(res, rc). (rc, s)) (radius_client_send E al msg t addr rc)
         | Rc_receive al t data \<Rightarrow> radius_client_receive E al hs t data rc s
         | Rc_timer \<Rightarrow> if rc_timers rc = [] then Some (rc, s) else map_option (\<lambda>rc. (rc, s)) (radius_client_timer E rc)
         | Rc_get_id \<Rightarrow> Some (snd (radius_client_get_id rc), s)
         | Rc_flush b \<Rightarrow> Some (radius_client_flush b rc, s)
         | Rc_flush_auth a \<Rightarrow> Some (radius_client_flush_auth a rc, s)
         | Rc_retry_primary \<Rightarrow> Some (radius_retry_primary_timer rc, s)))"

fun client_run :: "'s rx_table \<Rightarrow> (radius_env \<times> client_input) list \<Rightarrow> radius_client_data \<times> 's \<Rightarrow> (radius_client_data \<times> 's) option" where
  "client_run hs [] st = Some st"
| "client_run hs (i # is) st = (case client_do hs i st of None \<Rightarrow> None | Some st \<Rightarrow> client_run hs is st)"

text \<open>Requests are messages that the operations on messages made, none longer than the largest \<^verbatim>\<open>size_t\<close>; no socket is lost.\<close>

definition input_ok :: "radius_env \<times> client_input \<Rightarrow> bool" where
  "input_ok i \<longleftrightarrow> no_reconnect (fst i) \<and> (case snd i of Rc_send al msg t addr \<Rightarrow> radius_made msg \<and> room_for 0 msg | _ \<Rightarrow> True)"

definition handlers_return :: "'s rx_table \<Rightarrow> bool" where
  "handlers_return hs \<longleftrightarrow> (\<forall>t. \<forall>h\<in>set (hs t). \<forall>msg req secret s. radius_made msg \<longrightarrow> h msg req secret s \<noteq> Abort)"

lemma inv_list_add:
  assumes "client_inv {} rc" "timer_armed rc"
  shows "client_inv {} (radius_client_list_add E msg t sec addr rc)" "timer_armed (radius_client_list_add E msg t sec addr rc)"
proof -
  define e where "e = \<lparr>rl_ref = rc_refs rc, rl_addr = (case addr of None \<Rightarrow> replicate 6 0 | Some a \<Rightarrow> a), rl_msg = msg, rl_type = t,
      rl_first_try = fst (re_time E (rc_sent rc)), rl_next_try = fst (re_time E (rc_sent rc)) + RADIUS_CLIENT_FIRST_WAIT, rl_attempts = 1,
      rl_next_wait = RADIUS_CLIENT_FIRST_WAIT * 2, rl_last_attempt = re_time E (rc_sent rc), rl_secret = sec\<rparr>"
  define c where "c = radius_client_update_timeout E (rc\<lparr>rc_msgs := e # rc_msgs rc, rc_refs := rc_refs rc + 1\<rparr>)"
  have c: "rc_msgs c = e # rc_msgs rc" "rc_refs c = Suc (rc_refs rc)" "rc_num_msgs c = rc_num_msgs rc" "rc_timers c \<noteq> []"
    by (simp_all add: c_def radius_client_update_timeout_def Let_def)
  have l: "radius_client_list_add E msg t sec addr rc =
      (if re_terminated E (rc_sent rc) \<or> \<not> re_zalloc E (rc_sent rc) then rc
       else if rc_num_msgs c \<ge> RADIUS_CLIENT_MAX_ENTRIES then if length (rc_msgs c) > 1 then c\<lparr>rc_msgs := butlast (rc_msgs c)\<rparr> else c
       else c\<lparr>rc_num_msgs := rc_num_msgs c + 1\<rparr>)"
    by (simp add: radius_client_list_add_def Let_def c_def e_def)
  have n: "length (rc_msgs rc) \<le> unat (rc_num_msgs rc)" "unat (rc_num_msgs rc) \<le> 30" using assms(1) by (simp_all add: client_inv_def)
  have d: "distinct (map rl_ref (rc_msgs c))" using assms(1) by (auto simp: client_inv_def c e_def)
  have a: "\<forall>x\<in>set (rc_msgs c). rl_ref x < rc_refs c \<and> 0 \<le> rl_attempts x \<and> rl_attempts x \<le> 9 \<and> 6 \<le> rl_next_wait x \<and> rl_next_wait x \<le> RADIUS_CLIENT_MAX_WAIT"
    using assms(1) by (auto simp: client_inv_def c e_def)
  show "timer_armed (radius_client_list_add E msg t sec addr rc)" using assms(2) c(4) by (simp add: l timer_armed_def)
  have big: "rc_num_msgs c \<ge> RADIUS_CLIENT_MAX_ENTRIES \<longleftrightarrow> unat (rc_num_msgs rc) = 30" using n(2) by (simp add: c word_le_nat_alt)
  show "client_inv {} (radius_client_list_add E msg t sec addr rc)"
  proof (cases "unat (rc_num_msgs rc) = 30")
    case True
    have "client_inv {} (c\<lparr>rc_msgs := butlast (rc_msgs c)\<rparr>)"
      using d a n True by (auto simp: client_inv_def c(1,3) map_butlast distinct_butlast dest: in_set_butlastD)
    moreover have "client_inv {} c" if "length (rc_msgs c) = 1" using d a n True that by (simp add: client_inv_def c(3))
    ultimately show ?thesis using assms(1) big True c(1) by (auto simp: l le_Suc_eq)
  next
    case False
    then have "unat (rc_num_msgs c + 1) = unat (rc_num_msgs rc) + 1" using n(2) by (simp add: c unat_word_ariths)
    then have "client_inv {} (c\<lparr>rc_num_msgs := rc_num_msgs c + 1\<rparr>)" using d a n False by (simp add: client_inv_def c(1))
    then show ?thesis using assms(1) big False by (simp add: l)
  qed
qed


lemma finish_returns: "radius_made msg \<Longrightarrow> room_for 0 msg \<Longrightarrow> \<exists>r. radius_msg_finish al (Some secret) msg = Done r"
proof -
  assume m: "radius_made msg" "room_for 0 msg"
  obtain hdr as where "radius_rep msg hdr as" using made_typed [OF m(1)] by (auto simp: radius_typed_def)
  then obtain p m' where "radius_msg_add_attr al RADIUS_ATTR_MESSAGE_AUTHENTICATOR (replicate 16 0) msg = Done (p, m')"
    using add_attr_cases [of msg hdr as al RADIUS_ATTR_MESSAGE_AUTHENTICATOR "replicate 16 0"] m(2) by (auto simp: room_for_def)
  then show ?thesis by (cases p) (simp_all add: radius_msg_finish_def Let_def)
qed

lemma call_returns:
  "\<forall>h\<in>set hs. \<forall>req secret s. h msg req secret s \<noteq> Abort \<Longrightarrow> \<exists>r. call_handlers hs msg req secret bad s = Some r"
proof (induction hs arbitrary: bad s)
  case (Cons h hs)
  then obtain res s' where "h msg req secret s = Done (res, s')" by (cases "h msg req secret s") auto
  then show ?case using Cons.IH [of "bad \<or> res = RADIUS_RX_INVALID_AUTHENTICATOR" s'] Cons.prems by auto
qed (simp del: split_paired_Ex)

abbreviation (input) client_ok :: "radius_client_data \<Rightarrow> bool" where
  "client_ok rc \<equiv> client_inv {} rc \<and> timer_armed rc"

lemma receive_ok:
  assumes "client_ok rc" "handlers_return hs"
  shows "\<exists>rc' s'. radius_client_receive E al hs t data rc s = Some (rc', s') \<and> client_ok rc'"
proof -
  obtain r where r: "radius_msg_parse al data = Done r" using parse_returns by blast
  show ?thesis
  proof (cases r)
    case None
    then show ?thesis using assms(1) r by (simp add: radius_client_receive_def Let_def)
  next
    case (Some msg)
    then have "radius_made msg" using made_parse r by blast
    then have c: "\<exists>x. call_handlers (handlers_of hs t) msg req secret False s = Some x" for req secret
      using assms(2) by (intro call_returns) (simp add: handlers_return_def handlers_of_def)
    show ?thesis
    proof (cases "find (answers_request t (hdr_identifier msg)) (rc_msgs rc)")
      case None
      then show ?thesis using assms(1) r Some by (simp add: radius_client_receive_def Let_def)
    next
      case (Some req)
      obtain p bad s' where "call_handlers (handlers_of hs t) msg (rl_msg req) (rl_secret req) False s = Some (p, bad, s')" using c [of "rl_msg req" "rl_secret req"] by auto
      then show ?thesis using assms(1) r Some \<open>r = Some msg\<close>
        by (cases p) (simp_all add: radius_client_receive_def Let_def inv_drop armed_drop)
    qed
  qed
qed

lemma send_ok:
  assumes "client_ok rc" "radius_made msg" "room_for 0 msg"
  shows "\<exists>res rc'. radius_client_send E al msg t addr rc = Some (res, rc') \<and> client_ok rc'"
proof -
  define c where "c = (if t = RADIUS_ACCT_INTERIM then radius_client_list_del t addr rc else rc)"
  have c: "client_ok c" using assms(1) by (auto simp: c_def radius_client_list_del_def inv_drop armed_drop split: option.split)
  let ?acct = "acct_type t"
  obtain m where m: "(if ?acct then Some (radius_msg_finish_acct (server_secret ?acct c) msg)
      else case radius_msg_finish al (Some (server_secret ?acct c)) msg of Abort \<Rightarrow> None | Done (_, msg) \<Rightarrow> Some msg) = Some m"
    using finish_returns [OF assms(2,3), of al "server_secret ?acct c"] by (cases ?acct) auto
  let ?u = "upd_server ?acct (\<lambda>s. s\<lparr>rs_requests := rs_requests s + 1\<rparr>) c"
  have "client_ok (snd (send_msg E t m ?u))" using inv_send [of "{}" ?u] c by simp
  then have "client_ok (radius_client_list_add E m t sec addr (snd (send_msg E t m ?u)))" for sec using inv_list_add by simp
  moreover have "radius_client_send E al msg t addr rc =
      (if (if ?acct then rc_acct_server c else rc_auth_server c) = None then Some (-1, c)
       else Some (fst (send_msg E t m ?u), radius_client_list_add E m t (server_secret ?acct c) addr (snd (send_msg E t m ?u))))"
    using m unfolding radius_client_send_def Let_def c_def [symmetric] by (simp add: case_prod_beta)
  ultimately show ?thesis using c by simp
qed

lemma failover_ok:
  "client_inv {} rc \<Longrightarrow> client_inv {} (auth_failover rc)" "client_inv {} rc \<Longrightarrow> client_inv {} (acct_failover rc)"
  "client_ok rc \<Longrightarrow> timer_armed (auth_failover rc)" "client_ok rc \<Longrightarrow> timer_armed (acct_failover rc)"
  by (simp_all add: auth_failover_def acct_failover_def Let_def inv_change_server(1) inv_change_server(2) [of "{}"] split: option.split)

text \<open>The timer, when no socket is lost: the loop, the next timeout and the change of servers.\<close>

lemma timer_effect:
  assumes "client_inv {} rc" "no_reconnect E" "now = fst (re_time E (rc_sent rc))"
  shows "\<exists>cf c. radius_client_timer E rc =
      (let c' = (if (\<exists>e\<in>set (rc_msgs c). \<not> acct_type (rl_type e) \<and> rl_attempts e > 4) \<and> length (rc_auth_servers c) > 1 then auth_failover c else c)
       in Some (if cf \<and> length (rc_acct_servers c') > 1 then acct_failover c' else c')) \<and>
    client_ok c \<and> loop_effect now (rl_ref ` set (rc_msgs rc)) rc c"
proof (cases "rc_msgs rc = []")
  case True
  then have "radius_client_timer E rc = Some (rc\<lparr>rc_timers := tl (rc_timers rc)\<rparr>)" by (simp add: radius_client_timer_def Let_def)
  then show ?thesis using True assms(1)
    by (intro exI [of _ False] exI [of _ "rc\<lparr>rc_timers := tl (rc_timers rc)\<rparr>"]) (simp add: loop_effect_def same_servers_def timer_armed_def)
next
  case False
  let ?rc = "rc\<lparr>rc_timers := tl (rc_timers rc)\<rparr>"
  have n: "fst (re_time E (rc_sent ?rc)) = now" and e: "(rc_msgs ?rc = []) = False" using False assms(3) by simp_all
  have i: "client_inv {} ?rc" using assms(1) by simp
  then have "distinct (map rl_ref (rc_msgs ?rc))" by (simp only: client_inv_def)
  then obtain f a g c where l: "timer_loop E now (map rl_ref (rc_msgs ?rc)) 0 False False ?rc = Some (f, a, g, c)"
      "loop_effect now (rl_ref ` set (rc_msgs rc)) ?rc c" "a \<longleftrightarrow> (\<exists>e\<in>set (rc_msgs c). rl_ref e \<in> rl_ref ` set (rc_msgs rc) \<and> \<not> acct_type (rl_type e) \<and> rl_attempts e > 4)"
    using timer_loop_effect [OF i assms(2), of "map rl_ref (rc_msgs ?rc)" now 0 False False] by auto
  have a: "a \<longleftrightarrow> (\<exists>e\<in>set (rc_msgs c). \<not> acct_type (rl_type e) \<and> rl_attempts e > 4)" using l(3) effect_ref [OF l(2)] by auto
  have ci: "client_inv {} c" by (rule inv_timer_loop [OF i l(1)])
  define d where "d = (if rc_msgs c \<noteq> [] then c\<lparr>rc_timers := rc_timers c @ [(if f < now then now else f) - now]\<rparr> else c)"
  have d: "client_ok d" "rc_msgs d = rc_msgs c" "loop_effect now (rl_ref ` set (rc_msgs rc)) rc d"
    using ci l(2) by (auto simp: d_def timer_armed_def loop_effect_def same_servers_def)
  have "radius_client_timer E rc =
      (let c' = (if a \<and> length (rc_auth_servers d) > 1 then auth_failover d else d)
       in Some (if g \<and> length (rc_acct_servers c') > 1 then acct_failover c' else c'))"
    by (simp only: radius_client_timer_def Let_def n e l(1) option.case prod.case if_False d_def)
  then show ?thesis using d unfolding a by (intro exI [of _ g] exI [of _ d]) simp
qed


lemma timer_ok:
  assumes "client_inv {} rc" "no_reconnect E"
  shows "\<exists>rc'. radius_client_timer E rc = Some rc' \<and> client_ok rc'"
proof -
  obtain cf c where c: "radius_client_timer E rc =
      (let c' = (if (\<exists>e\<in>set (rc_msgs c). \<not> acct_type (rl_type e) \<and> rl_attempts e > 4) \<and> length (rc_auth_servers c) > 1 then auth_failover c else c)
       in Some (if cf \<and> length (rc_acct_servers c') > 1 then acct_failover c' else c'))" "client_ok c"
    using timer_effect [OF assms refl] by blast
  then show ?thesis using failover_ok by (simp add: Let_def)
qed

lemma retry_primary_ok: "client_ok rc \<Longrightarrow> client_ok (radius_retry_primary_timer rc)"
  using inv_change_server [of "{}"] by (auto simp: radius_retry_primary_timer_def Let_def split: option.split nat.split)

lemma do_ok:
  assumes "client_ok rc" "input_ok i" "handlers_return hs"
  shows "\<exists>rc' s'. client_do hs i (rc, s) = Some (rc', s') \<and> client_ok rc'"
proof -
  obtain E inp where i: "i = (E, inp)" by (cases i)
  show ?thesis
  proof (cases inp)
    case (Rc_send al msg t addr)
    then show ?thesis using send_ok [OF assms(1), of msg E al t addr] assms(2) i by (auto simp: client_do_def input_ok_def)
  next
    case (Rc_receive al t data)
    then show ?thesis using receive_ok [OF assms(1,3), of E al t data s] i by (simp add: client_do_def)
  next
    case Rc_timer
    then show ?thesis using timer_ok [of rc E] assms(1,2) i by (auto simp: client_do_def input_ok_def)
  next
    case Rc_get_id
    then show ?thesis using assms(1) i inv_filter [of "{}" "rc\<lparr>rc_next_id := rc_next_id rc + 1\<rparr>"]
      by (auto simp: client_do_def radius_client_get_id_def Let_def timer_armed_def)
  next
    case (Rc_flush b)
    then show ?thesis using assms(1) i inv_flush armed_flush by (simp add: client_do_def)
  next
    case (Rc_flush_auth a)
    then show ?thesis using assms(1) i inv_drop armed_drop by (simp add: client_do_def radius_client_flush_auth_def)
  next
    case Rc_retry_primary
    then show ?thesis using retry_primary_ok [OF assms(1)] i by (simp add: client_do_def)
  qed
qed

lemma run_ok:
  assumes "client_ok rc" "\<forall>i\<in>set is. input_ok i" "handlers_return hs"
  shows "\<exists>rc' s'. client_run hs is (rc, s) = Some (rc', s') \<and> client_ok rc'"
  using assms(1,2)
proof (induction "is" arbitrary: rc s)
  case (Cons i "is")
  then obtain rc1 s1 where "client_do hs i (rc, s) = Some (rc1, s1)" "client_ok rc1" using do_ok [OF Cons.prems(1), of i hs s] assms(3) by auto
  then show ?case using Cons.IH [of rc1 s1] Cons.prems(2) by simp
qed simp

lemma init_ok: "radius_client_init E as bs = Some rc \<Longrightarrow> client_ok rc"
proof -
  have n: "client_ok (radius_client_new as bs)" by (simp add: radius_client_new_def client_inv_def timer_armed_def)
  have "client_ok (snd (radius_client_init_auth E c))" "client_ok (snd (radius_client_init_acct E c))" if "client_ok c" for c
    using that inv_change_server [of "{}" c] by (simp_all add: radius_client_init_auth_def radius_client_init_acct_def)
  then show "radius_client_init E as bs = Some rc \<Longrightarrow> client_ok rc"
    using n by (fastforce simp: radius_client_init_def Let_def split: if_splits prod.splits)
qed


section \<open>Requests that are not answered\<close>

lemma same_lengths:
  assumes "same_servers rc c"
  shows "length (rc_auth_servers c) = length (rc_auth_servers rc)" "length (rc_acct_servers c) = length (rc_acct_servers rc)"
  using assms map_eq_imp_length_eq unfolding same_servers_def by blast+

text \<open>With one server of each kind a timeout tries every request again that is due.\<close>

definition single_servers :: "radius_client_data \<Rightarrow> bool" where
  "single_servers rc \<longleftrightarrow> length (rc_auth_servers rc) \<le> 1 \<and> length (rc_acct_servers rc) \<le> 1"

lemma timer_tries_all:
  assumes "client_ok rc" "no_reconnect E" "\<And>h. fst (re_time E h) = t" "single_servers rc"
    and "\<forall>e\<in>set (rc_msgs rc). n \<le> rl_attempts e \<and> rl_next_try e \<le> t"
  shows "\<exists>rc'. client_do hs (E, Rc_timer) (rc, s) = Some (rc', s) \<and> client_ok rc' \<and> single_servers rc' \<and>
    (\<forall>e\<in>set (rc_msgs rc'). n + 1 \<le> rl_attempts e \<and> rl_next_try e \<le> t + 120)"
proof (cases "rc_timers rc = []")
  case True
  then have "rc_msgs rc = []" using assms(1) by (auto simp: timer_armed_def)
  then show ?thesis using True assms(1,4) by (simp add: client_do_def)
next
  case False
  obtain cf c where c: "radius_client_timer E rc =
      (let c' = (if (\<exists>e\<in>set (rc_msgs c). \<not> acct_type (rl_type e) \<and> rl_attempts e > 4) \<and> length (rc_auth_servers c) > 1 then auth_failover c else c)
       in Some (if cf \<and> length (rc_acct_servers c') > 1 then acct_failover c' else c'))"
      "client_ok c" "loop_effect t (rl_ref ` set (rc_msgs rc)) rc c"
    using timer_effect [OF conjunct1 [OF assms(1)] assms(2) assms(3) [symmetric]] by (elim exE conjE) (rule that, simp_all)
  have l: "single_servers c" using same_lengths [of rc c] c(3) assms(4) by (simp add: loop_effect_def single_servers_def)
  then have "radius_client_timer E rc = Some c" using c(1) by (simp add: Let_def single_servers_def)
  moreover have "n + 1 \<le> rl_attempts e \<and> rl_next_try e \<le> t + 120" if "e \<in> set (rc_msgs c)" for e
  proof -
    obtain d where d: "d \<in> set (rc_msgs rc)" "if rl_ref d \<in> rl_ref ` set (rc_msgs rc) \<and> t \<ge> rl_next_try d then \<exists>tm. e = retried t tm d else e = d"
      using c(3) \<open>e \<in> set (rc_msgs c)\<close> unfolding loop_effect_def by meson
    have "rl_next_wait d \<le> 120" using assms(1) d(1) by (simp add: client_inv_def)
    then show ?thesis using d assms(5) by (auto split: if_splits)
  qed
  ultimately show ?thesis using False c(2) l by (simp add: client_do_def)
qed

lemma timers_give_up:
  assumes "client_ok rc" "single_servers rc" "list_all2 (\<lambda>E t. no_reconnect E \<and> (\<forall>h. fst (re_time E h) = t)) Es ts"
    and "successively (\<lambda>t u. t + 120 \<le> u) ts" "\<forall>e\<in>set (rc_msgs rc). 10 - int (length ts) \<le> rl_attempts e \<and> (ts \<noteq> [] \<longrightarrow> rl_next_try e \<le> hd ts)"
  shows "\<exists>rc'. client_run hs (map (\<lambda>E. (E, Rc_timer)) Es) (rc, s) = Some (rc', s) \<and> rc_msgs rc' = []"
  using assms
proof (induction ts arbitrary: Es rc)
  case Nil
  have "rc_msgs rc = []"
  proof (rule ccontr)
    assume "rc_msgs rc \<noteq> []"
    then have "10 \<le> rl_attempts (hd (rc_msgs rc))" "rl_attempts (hd (rc_msgs rc)) \<le> 9" using Nil.prems(1,5) by (simp_all add: client_inv_def)
    then show False by simp
  qed
  then show ?case using Nil.prems(3) by simp
next
  case (Cons t ts)
  obtain E Es' where E: "Es = E # Es'" "no_reconnect E" "\<And>h. fst (re_time E h) = t" "list_all2 (\<lambda>E t. no_reconnect E \<and> (\<forall>h. fst (re_time E h) = t)) Es' ts"
    using Cons.prems(3) by (auto simp: list_all2_Cons2)
  obtain rc1 where r: "client_do hs (E, Rc_timer) (rc, s) = Some (rc1, s)" "client_ok rc1" "single_servers rc1"
      "\<forall>e\<in>set (rc_msgs rc1). 10 - int (length (t # ts)) + 1 \<le> rl_attempts e \<and> rl_next_try e \<le> t + 120"
    using timer_tries_all [OF Cons.prems(1) E(2,3) Cons.prems(2), of "10 - int (length (t # ts))" hs s] Cons.prems(5) by auto
  have "successively (\<lambda>t u. t + 120 \<le> u) ts" "ts \<noteq> [] \<longrightarrow> t + 120 \<le> hd ts" using Cons.prems(4) by (cases ts; simp)+
  then show ?case using Cons.IH [OF r(2,3) E(4)] r(1,4) E(1) by fastforce
qed

section \<open>Several servers with one secret\<close>

definition shared_servers :: "bytes \<Rightarrow> radius_client_data \<Rightarrow> bool" where
  "shared_servers k rc \<longleftrightarrow> length (rc_auth_servers rc) > 1 \<and> (\<forall>v\<in>set (rc_auth_servers rc). rs_secret v = k) \<and>
     (\<exists>i < length (rc_auth_servers rc). rc_auth_server rc = Some i)"

definition auth_refs :: "radius_client_data \<Rightarrow> nat set" where
  "auth_refs rc = rl_ref ` {e \<in> set (rc_msgs rc). rl_type e = RADIUS_AUTH}"

lemma auth_refsI: "e \<in> set (rc_msgs rc) \<Longrightarrow> rl_type e = RADIUS_AUTH \<Longrightarrow> rl_ref e = r \<Longrightarrow> r \<in> auth_refs rc"
  by (auto simp: auth_refs_def)

lemma shared_same: "shared_servers k rc \<Longrightarrow> same_servers rc c \<Longrightarrow> shared_servers k c"
  using same_lengths(1) [of rc c] unfolding shared_servers_def same_servers_def by (metis in_set_conv_nth length_map nth_map)

lemma mapped_refs:
  assumes "\<And>e. rl_ref (g e) = rl_ref e \<and> rl_type (g e) = rl_type e"
  shows "rl_ref ` {e \<in> set (map g xs). rl_type e = t} = rl_ref ` {e \<in> set xs. rl_type e = t}"
proof -
  have "{e \<in> set (map g xs). rl_type e = t} = g ` {e \<in> set xs. rl_type e = t}" using assms by auto
  then show ?thesis using assms by (simp add: image_image)
qed

text \<open>The counters of the requests start again when the server is changed.\<close>

lemma auth_failover_shared:
  assumes "shared_servers k rc"
  shows "shared_servers k (auth_failover rc)" "auth_refs (auth_failover rc) = auth_refs rc"
    "\<forall>e\<in>set (rc_msgs (auth_failover rc)). rl_type e = RADIUS_AUTH \<longrightarrow> rl_attempts e = 0"
    "rc_acct_servers (auth_failover rc) = rc_acct_servers rc"
proof -
  obtain i where i: "rc_auth_server rc = Some i" "i < length (rc_auth_servers rc)" using assms by (auto simp: shared_servers_def)
  define c where "c = upd_server False (\<lambda>s. s\<lparr>rs_timeouts := rs_timeouts s + word_of_nat (length (filter (\<lambda>e. rl_type e = RADIUS_AUTH) (rc_msgs rc)))\<rparr>) rc"
  have "same_servers rc c" unfolding c_def by (rule same_upd_server) simp
  then have c: "shared_servers k c" by (rule shared_same [OF assms])
  have a: "rc_msgs c = rc_msgs rc" "rc_acct_servers c = rc_acct_servers rc" by (simp_all add: c_def upd_server_def split: option.split)
  let ?j = "next_server (length (rc_auth_servers c)) i"
  have j: "?j < length (rc_auth_servers c)" using c by (auto simp: next_server_def shared_servers_def)
  define d where "d = c\<lparr>rc_auth_server := Some ?j\<rparr>"
  have d: "shared_servers k d" "server_secret False d = k" "server_secret False rc = k"
    using c j assms i by (simp_all add: d_def shared_servers_def server_secret_def)
  have f: "auth_failover rc = radius_change_server k (Some k) True d"
    using i(1) d by (simp add: auth_failover_def Let_def c_def [symmetric] d_def [symmetric])
  show "shared_servers k (auth_failover rc)" using d(1) by (simp add: f radius_change_server_def Let_def shared_servers_def)
  show "rc_acct_servers (auth_failover rc) = rc_acct_servers rc" by (simp add: f radius_change_server_def Let_def d_def a)
  have m: "rc_msgs (auth_failover rc) = map (\<lambda>e. if rl_type e \<noteq> RADIUS_AUTH then e
      else e\<lparr>rl_next_try := rl_first_try e + 3, rl_attempts := 0, rl_next_wait := 6\<rparr>) (rc_msgs rc)"
    by (simp add: f radius_change_server_def Let_def d_def a)
  show "\<forall>e\<in>set (rc_msgs (auth_failover rc)). rl_type e = RADIUS_AUTH \<longrightarrow> rl_attempts e = 0" by (auto simp: m)
  show "auth_refs (auth_failover rc) = auth_refs rc" unfolding auth_refs_def m by (rule mapped_refs) simp
qed

lemma acct_failover_auth:
  "rc_auth_servers (acct_failover rc) = rc_auth_servers rc" "rc_auth_server (acct_failover rc) = rc_auth_server rc"
  "{e \<in> set (rc_msgs (acct_failover rc)). rl_type e = RADIUS_AUTH} = {e \<in> set (rc_msgs rc). rl_type e = RADIUS_AUTH}"
  by (auto simp: acct_failover_def radius_change_server_def radius_client_update_acct_msgs_def Let_def upd_server_def split: option.split)

text \<open>No authentication request is given up.\<close>

definition young :: "radius_client_data \<Rightarrow> bool" where
  "young rc \<longleftrightarrow> (\<forall>e\<in>set (rc_msgs rc). rl_type e = RADIUS_AUTH \<longrightarrow> rl_attempts e \<le> 4)"

lemma timer_keeps_auth:
  assumes "client_ok rc" "no_reconnect E" "shared_servers k rc" "young rc"
  shows "\<exists>rc'. client_do hs (E, Rc_timer) (rc, s) = Some (rc', s) \<and> client_ok rc' \<and> shared_servers k rc' \<and> young rc' \<and> auth_refs rc \<subseteq> auth_refs rc'"
proof (cases "rc_timers rc = []")
  case True
  then show ?thesis using assms by (simp add: client_do_def)
next
  case False
  obtain cf c where c: "radius_client_timer E rc =
      (let c' = (if (\<exists>e\<in>set (rc_msgs c). \<not> acct_type (rl_type e) \<and> rl_attempts e > 4) \<and> length (rc_auth_servers c) > 1 then auth_failover c else c)
       in Some (if cf \<and> length (rc_acct_servers c') > 1 then acct_failover c' else c'))"
      "client_ok c" "loop_effect (fst (re_time E (rc_sent rc))) (rl_ref ` set (rc_msgs rc)) rc c"
    using timer_effect [OF conjunct1 [OF assms(1)] assms(2) refl] by (elim exE conjE) (rule that, simp_all)
  have sc: "shared_servers k c" using shared_same [OF assms(3)] c(3) by (simp add: loop_effect_def)
  have kept: "auth_refs rc \<subseteq> auth_refs c"
  proof
    fix r assume "r \<in> auth_refs rc"
    then obtain e where e: "e \<in> set (rc_msgs rc)" "rl_type e = RADIUS_AUTH" "rl_ref e = r" by (auto simp: auth_refs_def)
    then have "rl_ref e \<in> rl_ref ` set (rc_msgs c)" using c(3) assms(4) unfolding loop_effect_def young_def by fastforce
    then obtain e' where e': "e' \<in> set (rc_msgs c)" "rl_ref e' = r" using e(3) by force
    then obtain d where d: "d \<in> set (rc_msgs rc)" "if rl_ref d \<in> rl_ref ` set (rc_msgs rc) \<and> fst (re_time E (rc_sent rc)) \<ge> rl_next_try d
        then \<exists>tm. e' = retried (fst (re_time E (rc_sent rc))) tm d else e' = d"
      using c(3) unfolding loop_effect_def by meson
    then have "rl_ref d = r" "rl_type e' = rl_type d" using e'(2) by (auto split: if_splits)
    moreover have "d = e" using entry_of_iff [OF conjunct1 [OF assms(1)], of r] d(1) e \<open>rl_ref d = r\<close> by (metis option.inject)
    ultimately show "r \<in> auth_refs c" using auth_refsI [OF e'(1) _ e'(2)] e(2) by simp
  qed
  define c' where "c' = (if (\<exists>e\<in>set (rc_msgs c). \<not> acct_type (rl_type e) \<and> rl_attempts e > 4) \<and> length (rc_auth_servers c) > 1 then auth_failover c else c)"
  have c': "shared_servers k c'" "auth_refs c' = auth_refs c" using auth_failover_shared [OF sc] sc by (simp_all add: c'_def)
  have y: "young c'"
  proof (cases "\<exists>e\<in>set (rc_msgs c). \<not> acct_type (rl_type e) \<and> rl_attempts e > 4")
    case True
    then show ?thesis using auth_failover_shared(3) [OF sc] sc by (simp add: c'_def young_def shared_servers_def)
  next
    case False
    then show ?thesis by (auto simp: c'_def young_def acct_type_def)
  qed
  define d where "d = (if cf \<and> length (rc_acct_servers c') > 1 then acct_failover c' else c')"
  have m: "{e \<in> set (rc_msgs d). rl_type e = RADIUS_AUTH} = {e \<in> set (rc_msgs c'). rl_type e = RADIUS_AUTH}" by (simp add: d_def acct_failover_auth(3))
  have "young d" using y m unfolding young_def by blast
  moreover have "auth_refs d = auth_refs c'" by (simp add: auth_refs_def m)
  moreover have "shared_servers k d" using c'(1) by (simp add: d_def shared_servers_def acct_failover_auth(1,2))
  moreover have "client_ok d" using c(2) failover_ok by (simp add: d_def c'_def)
  moreover have "radius_client_timer E rc = Some d" by (simp only: c(1) Let_def c'_def d_def)
  ultimately show ?thesis using False kept c'(2) by (simp add: client_do_def)
qed

lemma timers_keep_auth:
  assumes "client_ok rc" "shared_servers k rc" "young rc" "\<forall>E\<in>set Es. no_reconnect E"
  shows "\<exists>rc'. client_run hs (map (\<lambda>E. (E, Rc_timer)) Es) (rc, s) = Some (rc', s) \<and> auth_refs rc \<subseteq> auth_refs rc'"
  using assms
proof (induction Es arbitrary: rc)
  case (Cons E Es)
  then obtain rc1 where r: "client_do hs (E, Rc_timer) (rc, s) = Some (rc1, s)" "client_ok rc1" "shared_servers k rc1" "young rc1" "auth_refs rc \<subseteq> auth_refs rc1"
    using timer_keeps_auth [of rc E k hs s] by auto
  show ?case using Cons.IH [OF r(2-4)] Cons.prems(4) r(1,5) by fastforce
qed simp

section \<open>Properties\<close>


definition quiet_env :: "int \<Rightarrow> radius_env" where
  "quiet_env t = \<lparr>re_time = \<lambda>_. (t, 0), re_send = \<lambda>_. Send_ok, re_socket = \<lambda>_. True, re_register = \<lambda>_. True, re_zalloc = \<lambda>_. True, re_terminated = \<lambda>_. False\<rparr>"

lemma quiet_no_reconnect [simp]: "no_reconnect (quiet_env t)"
  by (simp add: no_reconnect_def quiet_env_def)

definition plain_server :: "bytes \<Rightarrow> hostapd_radius_server" where
  "plain_server secret = \<lparr>rs_secret = secret, rs_round_trip_time = 0, rs_requests = 0, rs_retransmissions = 0, rs_access_accepts = 0,
     rs_access_rejects = 0, rs_access_challenges = 0, rs_responses = 0, rs_malformed_responses = 0, rs_bad_authenticators = 0, rs_timeouts = 0,
     rs_unknown_types = 0\<rparr>"

lemma init_plain: "radius_client_init (quiet_env 0) (v # vs) [] = Some (radius_client_new (v # vs) [])"
  by (simp add: radius_client_init_def radius_client_init_auth_def radius_client_new_def radius_change_server_def radius_client_flush_def drop_entries_def
      quiet_env_def Let_def)



text \<open>C11.  Requests that are not answered are given up.  With one server of each kind, whatever happened before: when the timer runs ten
  times, the first time when all pending requests are due and then every 120 seconds or later, it returns each time, and after the
  tenth time no request is pending.\<close>

theorem radius_unanswered_given_up:
  assumes "radius_client_init E0 auth_servers acct_servers = Some rc0" "client_run hs is (rc0, s) = Some (rc, s')" "\<forall>i\<in>set is. input_ok i" "handlers_return hs"
    and "length (rc_auth_servers rc) \<le> 1" "length (rc_acct_servers rc) \<le> 1"
    and "list_all2 (\<lambda>E t. no_reconnect E \<and> (\<forall>h. fst (re_time E h) = t)) Es ts" "length ts = 10"
    and "successively (\<lambda>t u. t + RADIUS_CLIENT_MAX_WAIT \<le> u) ts" "\<forall>e\<in>set (rc_msgs rc). rl_next_try e \<le> hd ts"
  shows "\<exists>rc'. client_run hs (map (\<lambda>E. (E, Rc_timer)) Es) (rc, s') = Some (rc', s') \<and> rc_msgs rc' = []"
proof -
  have ok: "client_ok rc" using run_ok [OF init_ok [OF assms(1)] assms(3,4), of s] assms(2) by auto
  then have "\<forall>e\<in>set (rc_msgs rc). 10 - int (length ts) \<le> rl_attempts e" using assms(8) by (simp add: client_inv_def)
  then show ?thesis using timers_give_up [OF ok _ assms(7,9)] assms(5,6,10) by (simp add: single_servers_def)
qed

lemma quiet_time [simp]: "fst (re_time (quiet_env t) h) = t"
  by (simp add: quiet_env_def)

theorem radius_unanswered_given_up_witness:
  "\<exists>msg rc rc'. radius_msg_new (\<lambda>_ _. True) 1 7 = Done (Some msg) \<and>
    client_run (\<lambda>_. []) [(quiet_env 5, Rc_send (\<lambda>_ _. True) msg RADIUS_AUTH None)] (radius_client_new [plain_server [1, 2]] [], ()) = Some (rc, ()) \<and>
    rc_msgs rc \<noteq> [] \<and>
    client_run (\<lambda>_. []) (map (\<lambda>t. (quiet_env t, Rc_timer)) [1000, 2000, 3000, 4000, 5000, 6000, 7000, 8000, 9000, 10000]) (rc, ()) = Some (rc', ()) \<and>
    rc_msgs rc' = []"
proof -
  obtain msg where m: "radius_msg_new (\<lambda>_ _. True) 1 7 = Done (Some msg)" "radius_holds msg ([1, 7] @ replicate 18 0) []"
    using new_holds [of "\<lambda>_ _. True" 1 7] by auto
  have room: "room_for 0 msg" using rep_length [OF holds_rep [OF m(2)]] by (simp add: room_for_def)
  let ?i = "(quiet_env 5, Rc_send (\<lambda>_ _. True) msg RADIUS_AUTH None)" let ?c = "radius_client_new [plain_server [1, 2]] []"
  have ok: "\<forall>i\<in>set [?i]. input_ok i" using made_new [OF m(1)] room by (simp add: input_ok_def)
  obtain r where "radius_msg_finish (\<lambda>_ _. True) (Some [1, 2]) msg = Done r" using finish_returns [OF made_new [OF m(1)] room] by blast
  then obtain rc where rc: "client_run (\<lambda>_. []) [?i] (?c, ()) = Some (rc, ())" "length (rc_msgs rc) = 1" "rl_next_try (rc_msgs rc ! 0) = 8"
      "length (rc_auth_servers rc) = 1" "length (rc_acct_servers rc) = 0"
    by (cases r) (simp add: client_do_def radius_client_send_def radius_client_new_def acct_type_def server_secret_def plain_server_def Let_def upd_server_def
      send_msg_def quiet_env_def radius_client_list_add_def radius_client_update_timeout_def)
  let ?ts = "[1000, 2000, 3000, 4000, 5000, 6000, 7000, 8000, 9000, 10000] :: int list"
  have "\<forall>e\<in>set (rc_msgs rc). rl_next_try e \<le> hd ?ts" using rc(2,3) by (cases "rc_msgs rc") simp_all
  moreover have "list_all2 (\<lambda>E t. no_reconnect E \<and> (\<forall>h. fst (re_time E h) = t)) (map quiet_env ?ts) ?ts" by simp
  moreover have "successively (\<lambda>t u. t + 120 \<le> u) ?ts" by simp
  ultimately obtain rc' where "client_run (\<lambda>_. []) (map (\<lambda>E. (E, Rc_timer)) (map quiet_env ?ts)) (rc, ()) = Some (rc', ())" "rc_msgs rc' = []"
    using radius_unanswered_given_up [OF init_plain rc(1) ok, where Es = "map quiet_env ?ts" and ts = ?ts] rc(4,5) by (auto simp: handlers_return_def simp del: client_run.simps list.map)
  moreover have "rc_msgs rc \<noteq> []" using rc(2) by auto
  ultimately show ?thesis using m(1) rc(1) by (auto simp only: map_map o_def)
qed

text \<open>C12.  Several servers.  When there are two or more authentication servers with the same secret, a request that has been tried more than
  four times makes the client change to the next server, where the counters start again.  So an authentication request with at most
  four tries is never given up, however often the timer runs: the limit of ten tries is not reached.\<close>

theorem radius_failover_never_gives_up:
  assumes "radius_client_init E0 auth_servers acct_servers = Some rc0" "client_run hs is (rc0, s) = Some (rc, s')" "\<forall>i\<in>set is. input_ok i" "handlers_return hs"
    and "length (rc_auth_servers rc) > 1" "\<forall>v\<in>set (rc_auth_servers rc). rs_secret v = secret" "rc_auth_server rc = Some i" "i < length (rc_auth_servers rc)"
    and "\<forall>e\<in>set (rc_msgs rc). rl_type e = RADIUS_AUTH \<longrightarrow> rl_attempts e \<le> RADIUS_CLIENT_NUM_FAILOVER" "\<forall>E\<in>set Es. no_reconnect E"
  shows "\<exists>rc'. client_run hs (map (\<lambda>E. (E, Rc_timer)) Es) (rc, s') = Some (rc', s') \<and>
    (\<forall>e\<in>set (rc_msgs rc). rl_type e = RADIUS_AUTH \<longrightarrow> (\<exists>e'\<in>set (rc_msgs rc'). rl_type e' = RADIUS_AUTH \<and> rl_ref e' = rl_ref e))"
proof -
  have ok: "client_ok rc" using run_ok [OF init_ok [OF assms(1)] assms(3,4), of s] assms(2) by auto
  have sh: "shared_servers secret rc" "young rc" using assms(5-9) by (simp_all add: shared_servers_def young_def)
  obtain rc' where r: "client_run hs (map (\<lambda>E. (E, Rc_timer)) Es) (rc, s') = Some (rc', s')" "auth_refs rc \<subseteq> auth_refs rc'"
    using timers_keep_auth [OF ok sh assms(10), of hs s'] by (elim exE conjE)
  have "\<exists>e'\<in>set (rc_msgs rc'). rl_type e' = RADIUS_AUTH \<and> rl_ref e' = rl_ref e" if "e \<in> set (rc_msgs rc)" "rl_type e = RADIUS_AUTH" for e
  proof -
    have "rl_ref e \<in> auth_refs rc'" using r(2) auth_refsI [OF that refl] by blast
    then show ?thesis by (auto simp: auth_refs_def)
  qed
  then show ?thesis using r(1) by blast
qed

theorem radius_failover_never_gives_up_witness:
  "\<exists>msg rc rc'. radius_msg_new (\<lambda>_ _. True) 1 7 = Done (Some msg) \<and>
    client_run (\<lambda>_. []) [(quiet_env 5, Rc_send (\<lambda>_ _. True) msg RADIUS_AUTH None)]
      (radius_client_new [plain_server [1, 2], plain_server [1, 2]] [], ()) = Some (rc, ()) \<and> rc_msgs rc \<noteq> [] \<and>
    client_run (\<lambda>_. []) (replicate 1000000 (quiet_env 1000, Rc_timer)) (rc, ()) = Some (rc', ()) \<and> rc_msgs rc' \<noteq> []"
proof -
  obtain msg where m: "radius_msg_new (\<lambda>_ _. True) 1 7 = Done (Some msg)" "radius_holds msg ([1, 7] @ replicate 18 0) []"
    using new_holds [of "\<lambda>_ _. True" 1 7] by auto
  have room: "room_for 0 msg" using rep_length [OF holds_rep [OF m(2)]] by (simp add: room_for_def)
  let ?i = "(quiet_env 5, Rc_send (\<lambda>_ _. True) msg RADIUS_AUTH None)" let ?c = "radius_client_new [plain_server [1, 2], plain_server [1, 2]] []"
  have ok: "\<forall>i\<in>set [?i]. input_ok i" using made_new [OF m(1)] room by (simp add: input_ok_def)
  obtain r where "radius_msg_finish (\<lambda>_ _. True) (Some [1, 2]) msg = Done r" using finish_returns [OF made_new [OF m(1)] room] by blast
  then obtain rc e where rc: "client_run (\<lambda>_. []) [?i] (?c, ()) = Some (rc, ())" "rc_msgs rc = [e]" "rl_type e = RADIUS_AUTH" "rl_attempts e = 1"
      "length (rc_auth_servers rc) = 2" "\<forall>v\<in>set (rc_auth_servers rc). rs_secret v = [1, 2]" "rc_auth_server rc = Some 0"
    by (cases r) (simp add: client_do_def radius_client_send_def radius_client_new_def acct_type_def server_secret_def plain_server_def Let_def upd_server_def
      send_msg_def quiet_env_def radius_client_list_add_def radius_client_update_timeout_def)
  have E: "\<forall>E\<in>set (replicate 1000000 (quiet_env 1000)). no_reconnect E" by (auto dest: in_set_replicate [THEN iffD1])
  have "\<exists>rc'. client_run (\<lambda>_. []) (map (\<lambda>E. (E, Rc_timer)) (replicate 1000000 (quiet_env 1000))) (rc, ()) = Some (rc', ()) \<and>
      (\<forall>e\<in>set (rc_msgs rc). rl_type e = RADIUS_AUTH \<longrightarrow> (\<exists>e'\<in>set (rc_msgs rc'). rl_type e' = RADIUS_AUTH \<and> rl_ref e' = rl_ref e))"
    by (rule radius_failover_never_gives_up [OF init_plain rc(1) ok _ _ rc(6,7) _ _ E]) (use rc(2-5) in \<open>simp_all add: handlers_return_def\<close>)
  then obtain rc' where "client_run (\<lambda>_. []) (map (\<lambda>E. (E, Rc_timer)) (replicate 1000000 (quiet_env 1000))) (rc, ()) = Some (rc', ())"
    "\<exists>e'. e' \<in> set (rc_msgs rc')" using rc(2,3) by (auto simp del: client_run.simps)
  then have "client_run (\<lambda>_. []) (replicate 1000000 (quiet_env 1000, Rc_timer)) (rc, ()) = Some (rc', ()) \<and> rc_msgs rc' \<noteq> []"
    by (simp only: map_replicate) auto
  moreover have "rc_msgs rc \<noteq> []" using rc(2) by simp
  ultimately show ?thesis using m(1) rc(1) by blast
qed

section \<open>Defects\<close>

text \<open>A lost socket.  When the transmission of an authentication request by the timer fails in a way that calls for a new socket, the
  requests are flushed, with the one that is being sent, which the timer goes on to use.\<close>

lemma retransmit_use_after_free:
  assumes "client_inv {} rc" "entry_of rc r = Some e" "rl_type e = RADIUS_AUTH"
    and "\<And>h. re_send E h = Send_reconnect" "\<And>h. re_socket E h"
  shows "radius_client_retransmit E r now rc = None"
proof -
  define c1 where "c1 = upd_server (acct_type (rl_type e))
                (\<lambda>s. if rl_attempts e = 0 then s\<lparr>rs_requests := rs_requests s + 1\<rparr>
                     else s\<lparr>rs_timeouts := rs_timeouts s + 1, rs_retransmissions := rs_retransmissions s + 1\<rparr>) rc"
  define c2 where "c2 = upd_entry r (\<lambda>e. e\<lparr>rl_attempts := rl_attempts e + 1, rl_last_attempt := re_time E (rc_sent c1)\<rparr>) c1"
  define c3 where "c3 = snd (send_msg E (rl_type e) (rl_msg e) c2)"
  have m: "rc_msgs c1 = rc_msgs rc" by (simp add: c1_def)
  have u: "rl_type x = RADIUS_AUTH" if "x \<in> set (rc_msgs rc)" "rl_ref x = r" for x
    using entry_of_iff [OF assms(1), of r x] assms(2,3) that by simp
  have m2: "rc_msgs c2 = map (\<lambda>e. if rl_ref e = r then e\<lparr>rl_attempts := rl_attempts e + 1, rl_last_attempt := re_time E (rc_sent c1)\<rparr> else e) (rc_msgs rc)"
    by (simp add: c2_def upd_entry_def m)
  have c2: "rl_type x = RADIUS_AUTH" if x: "x \<in> set (rc_msgs c2)" "rl_ref x = r" for x
  proof -
    obtain y where y: "y \<in> set (rc_msgs rc)" "x = (if rl_ref y = r then y\<lparr>rl_attempts := rl_attempts y + 1, rl_last_attempt := re_time E (rc_sent c1)\<rparr> else y)"
      using x(1) unfolding m2 set_map by (elim imageE)
    then have "rl_ref y = r" "rl_type x = rl_type y" using x(2) by (simp_all split: if_splits)
    then show ?thesis using u [OF y(1)] by simp
  qed
  obtain k where "c3 = radius_change_server k None True (c2\<lparr>rc_sent := rc_sent c2 @ [(RADIUS_AUTH, radius_octets (rl_msg e))]\<rparr>)"
    using assms(3-5) by (simp add: c3_def send_msg_def Let_def radius_client_handle_send_error_def radius_client_init_auth_def acct_type_def)
  then have "rc_msgs c3 = map (\<lambda>e. if rl_type e \<noteq> RADIUS_AUTH then e else e\<lparr>rl_next_try := rl_first_try e + 3, rl_attempts := 0, rl_next_wait := 6\<rparr>)
      (filter (\<lambda>x. rl_type x \<noteq> RADIUS_AUTH) (rc_msgs c2))"
    by (simp add: radius_change_server_def radius_client_flush_def Let_def del: filter_empty_conv)
  then have "\<forall>x\<in>set (rc_msgs c3). rl_ref x \<noteq> r" using c2 by (auto split: if_splits)
  then have "entry_of c3 r = None" by (simp add: entry_of_def find_None_iff)
  then show ?thesis by (simp only: radius_client_retransmit_def assms(2) option.case Let_def c3_def c2_def c1_def if_True simp_thms)
qed

text \<open>An identifier that comes round again frees the request that has it, but does not count it.\<close>

lemma get_id_does_not_count:
  "rc_num_msgs (snd (radius_client_get_id rc)) = rc_num_msgs rc"
  "rc_msgs rc = [e] \<Longrightarrow> hdr_identifier (rl_msg e) = rc_next_id rc \<Longrightarrow> rc_msgs (snd (radius_client_get_id rc)) = []"
  by (simp_all add: radius_client_get_id_def Let_def)

end
