(* ===== verification/Spec2Isabelle.thy ===== *)
theory Spec2Isabelle
  imports Common_Utils Base64 Wpabuf Eap_Common Eapol_Auth Eapol_Auth_Inv Pmksa_Cache Ieee8021x Eap_Server
    Eap_Server_Inv Eap_Methods Block_Hash Md5 Sha1 Hmac Rc4 Aes_Modes Wpa_Common
    Wpa_Auth_Data Wpa_Auth_Ie Wpa_Auth Wpa_Auth_Frame Wpa_Auth_Term
    Wpa_Auth_Run Wpa_Auth_System Wpa_Auth_Safe Wpa_Auth_Live Wpa_Auth_Replay Pmksa_Refine
    Radius Radius_Rep Radius_Ops Radius_Sign Radius_Keys Radius_Inv Radius_Glue
    Radius_Client Radius_Client_Inv Radius_Client_Run
begin

text \<open>
  \<^bold>\<open>A verification library for the access point of the Aurora agent relay\<close>

  The relay runs a modified \<^verbatim>\<open>hostapd\<close>, the C program under \<^verbatim>\<open>src/hostapd-0.7.3Kevin\<close>; the paths below are relative to its
  \<^verbatim>\<open>src\<close> directory.  The library models the parts of it that decide who may use the network and with which keys, in the
  configuration of its \<^verbatim>\<open>defconfig\<close> (no IEEE 802.11r, no IEEE 802.11w, no PeerKey, no EAP-FAST), with a \<^verbatim>\<open>size_t\<close> of 32 bits.

  \<^bold>\<open>How the parts work together.\<close>  When a station associates, its information element is checked against the configuration
  (\<^verbatim>\<open>wpa_validate_wpa_ie\<close>), and two state machines are started for it: the IEEE 802.1X authenticator (\<^verbatim>\<open>eapol_auth\<close>), which
  opens and closes the port, and the WPA authenticator (\<^verbatim>\<open>wpa_auth.c\<close>), which runs the 4-way handshake and installs keys.
  The IEEE 802.1X authenticator is driven by EAPOL frames (\<^verbatim>\<open>ieee802_1x_receive\<close>) and takes its decisions either from the
  integrated EAP server (\<^verbatim>\<open>eap_server\<close>) or from a RADIUS server (\<^verbatim>\<open>ieee802_1x_receive_auth\<close>).  A completed authentication
  leaves a master key in the PMKSA cache, with which a station that comes back skips EAP.  The WPA authenticator takes
  the master key from there, from the EAP exchange or from the pre-shared keys, derives the pairwise key with the hash
  functions and distributes the group key, wrapped with AES or encrypted with RC4.

  \<^bold>\<open>The theories.\<close>
  \<^item> \<open>Prelude\<close>: octets and words, overwriting a buffer, byte order macros, shared lemmas.
  \<^item> \<open>Common_Utils\<close> (\<^verbatim>\<open>utils/common.c\<close>), \<open>Base64\<close> (\<^verbatim>\<open>utils/base64.c\<close>), \<open>Wpabuf\<close> (\<^verbatim>\<open>utils/wpabuf.c\<close>), \<open>Eap_Common\<close>
    (\<^verbatim>\<open>eap_common/eap_common.c\<close>): the services of the other parts.  Shown: what is printed or encoded reads back, buffers are
    not overrun, counters count modulo their size.
  \<^item> \<open>Eapol_Auth\<close> (\<^verbatim>\<open>eapol_auth/eapol_auth_sm.c\<close>): the six state machines of a station as functions on one record, entered
    and stepped as the macros of \<^verbatim>\<open>state_machine.h\<close> do, with their scheduler and their timer.  \<open>Eapol_Auth_Inv\<close> has the locale of
    callbacks and the invariants.  \<open>Ieee8021x\<close> (\<^verbatim>\<open>ap/ieee802_1x.c\<close>, \<^verbatim>\<open>ap/wpa_auth_glue.c\<close>) has the surroundings: events that
    reach a station are the steps of a run.  Shown: the port is what was last decided, it is never opened without a
    success or a cached key, and reauthentications are counted within their limit.
  \<^item> \<open>Eap_If\<close>, \<open>Eap_Server\<close>, \<open>Eap_Server_Inv\<close> (\<^verbatim>\<open>eap_server/eap_server.c\<close>): the EAP state machine with its policy, for any table of
    methods that meets the locale of method contracts.  \<open>Eap_Methods\<close>: EAP-Identity, EAP-MD5 and EAP-GTC as such a table.
    Shown: the loop ends, success is justified by a method or by the AAA server, retransmissions and rounds are bounded,
    MD5 accepts exactly the right hash, without a password there is no access, and a null method pointer can be reached.
  \<^item> \<open>Pmksa_Cache\<close> (\<^verbatim>\<open>ap/pmksa_cache_auth.c\<close>): the cache on an explicit heap, so that pointers that dangle would show.  Shown:
    its invariant, and that the lookup for opportunistic key caching need not return.  \<open>Pmksa_Refine\<close> shows that its operations
    refine those of a queue of entries in the order of their expiration.
  \<^item> \<open>Block_Hash\<close>, \<open>Md5\<close>, \<open>Sha1\<close>, \<open>Hmac\<close>, \<open>Rc4\<close>, \<open>Aes_Modes\<close> (\<^verbatim>\<open>crypto/\<close>): the functions of the default build that are written in the
    repository, each against a definition in the words of its standard.  The AES block cipher comes from OpenSSL and is a
    parameter.
  \<^item> \<open>Wpa_Common\<close> (\<^verbatim>\<open>common/wpa_common.c\<close>), \<open>Wpa_Auth_Ie\<close> (\<^verbatim>\<open>ap/wpa_auth_ie.c\<close>), \<open>Wpa_Auth_Data\<close> (\<^verbatim>\<open>ap/wpa_auth_i.h\<close>), \<open>Wpa_Auth\<close>
    (\<^verbatim>\<open>ap/wpa_auth.c\<close>): key hierarchy, information elements, and the WPA authenticator with all its stations and groups in one
    record.  Shown: both ends derive the same key, elements and key data read back and are read within their bounds, and the
    negotiation selects what both sides allow.
  \<^item> \<open>Wpa_Auth_Frame\<close>, \<open>Wpa_Auth_Term\<close>, \<open>Wpa_Auth_Run\<close>: what each operation of the authenticator leaves alone, the rank that bounds
    the loops, and the inputs of a run (associations, frames, timers, events of EAPOL, requests to rekey or to remove a station).
    Shown: every input of every run is processed in finitely many steps and leaves the data well formed.
  \<^item> \<open>Wpa_Auth_System\<close> has the locale of an invariant of the authenticator, which lifts a property that its basic steps keep to
    all inputs; \<open>Wpa_Auth_Safe\<close> and \<open>Wpa_Auth_Replay\<close> interpret it, \<open>Wpa_Auth_Live\<close> follows one handshake.  Shown: keys are
    installed and ports opened only for a station that proved a pre-shared key, a station that holds one gets access, and no
    answer of a station is taken up twice.
  \<^item> \<open>Radius\<close> (\<^verbatim>\<open>radius/radius.c\<close>): RADIUS messages, with their attributes, authenticators and encrypted keys.  \<open>Radius_Rep\<close>,
    \<open>Radius_Ops\<close>, \<open>Radius_Sign\<close> and \<open>Radius_Keys\<close> relate the operations to the header and the attributes that a message holds, to the
    hashes of RFC 2865 and RFC 2869 and to the keys; \<open>Radius_Inv\<close> has the messages that operations can make; \<open>Radius_Glue\<close> joins
    them with the handler of \<^verbatim>\<open>ap/ieee802_1x.c\<close>.  Shown: the loops over attributes stay within the message, a sealed reply reads
    back and verifies, and no packet opens the port that was not made with the secret.
  \<^item> \<open>Radius_Client\<close> (\<^verbatim>\<open>radius/radius_client.c\<close>): the list of pending requests with its timer, the change of servers and the matching
    of replies.  An entry has a reference in the place of its address.  \<open>Radius_Client_Inv\<close> has the invariant of the client and what
    one transmission does, \<open>Radius_Client_Run\<close> the runs over all its inputs.  Shown: runs return and keep the list within its limits,
    with a timeout for it; with one server unanswered requests are given up, with several of one secret they never are; and a lost
    socket makes the timer use an entry that was freed.

  \<^bold>\<open>Conventions.\<close>  A C function is a function of the same name; a structure is a record; a state machine function is
  \<open>sm_<machine>_<state>_Enter\<close> or \<open>sm_<machine>_Step\<close>.  State is passed explicitly.  A callback or a call of the event loop is
  recorded in a list of calls, and what it returns is a function of the environment record that may depend on these calls;
  the theorems hold for every environment.  The result of an allocation is a parameter of the same kind, so that the failure
  branches are in the model; allocations always succeed where \<^verbatim>\<open>ap/ieee802_1x.c\<close> copies an identity or a session key.  \<open>None\<close> in a result is an invalid access or a call that does not return.

  \<^bold>\<open>Bounds.\<close>  Loops are total functions where the C loop ends for a local reason.  The loops of \<^verbatim>\<open>eapol_auth_step\<close> are cut off
  after 100 rounds by the code itself.  \<^verbatim>\<open>eap_server_sm_step\<close> and \<^verbatim>\<open>wpa_sm_step\<close> have no such limit: their loops take a number of
  passes, which is computed from a rank of the state; the rank falls with every pass that calls for another one.

  \<^bold>\<open>Not modelled.\<close>  Drivers and sockets (of \<^verbatim>\<open>send\<close> the result only), log and debug output, freeing of memory beyond the validity of pointers, the
  printing of MIB variables, WPS, IEEE 802.11 management frames, the RADIUS server, the TLS library, and the
  sources of the supplicant, which the access point does not link.
\<close>

end
